(* ===== verification/Prelude.thy ===== *)
theory Prelude
  imports Main "HOL-Library.AList" "HOL-Library.Char_ord" "HOL-Library.List_Lexorder"
    "HOL-Library.Product_Lexorder" "HOL-Library.Sublist"
begin

text \<open>
  Shared vocabulary of the development: the collections of automation facts, the result
  type of Python functions that may raise, and the generic lemmas on ordered
  dictionaries (association lists in insertion order) and on first-occurrence
  duplicate removal (\<open>dict.fromkeys\<close>) that the components share.
\<close>

named_theorems py_simps \<open>unfolding rules of the Python string and container primitives\<close>
named_theorems queue_defs \<open>definitions of the queue operations\<close>

section \<open>Results of functions that may raise\<close>

text \<open>\<open>Inl\<close> carries the raised error, \<open>Inr\<close> the returned value.\<close>

fun bind_result :: "'e + 'a \<Rightarrow> ('a \<Rightarrow> 'e + 'b) \<Rightarrow> 'e + 'b" where
  "bind_result (Inl e) f = Inl e"
| "bind_result (Inr a) f = f a"

lemma bind_result_Inr [simp]:
  "bind_result r f = Inr b \<longleftrightarrow> (\<exists>a. r = Inr a \<and> f a = Inr b)"
  by (cases r) auto

lemma bind_result_Inl:
  "bind_result r f = Inl e \<longleftrightarrow> r = Inl e \<or> (\<exists>a. r = Inr a \<and> f a = Inl e)"
  by (cases r) auto

lemma not_isl_Inr: "\<not> isl r \<Longrightarrow> \<exists>x. r = Inr x"
  by (cases r) auto

text \<open>A comprehension whose body may raise: the first error wins.\<close>

fun mapM_result :: "('a \<Rightarrow> 'e + 'b) \<Rightarrow> 'a list \<Rightarrow> 'e + 'b list" where
  "mapM_result f [] = Inr []"
| "mapM_result f (x # xs) =
     bind_result (f x) (\<lambda>y. bind_result (mapM_result f xs) (\<lambda>ys. Inr (y # ys)))"

lemma mapM_result_Inr:
  "mapM_result f xs = Inr ys \<longleftrightarrow> list_all2 (\<lambda>x y. f x = Inr y) xs ys"
  by (induction xs arbitrary: ys) (auto simp: list_all2_Cons1)

lemma mapM_result_length: "mapM_result f xs = Inr ys \<Longrightarrow> length ys = length xs"
  by (simp add: mapM_result_Inr list_all2_lengthD)

lemma mapM_result_set:
  assumes "mapM_result f xs = Inr ys" and "y \<in> set ys"
  shows "\<exists>x \<in> set xs. f x = Inr y"
  using assms by (auto simp: mapM_result_Inr list_all2_conv_all_nth in_set_conv_nth) (metis nth_mem)

section \<open>First-occurrence duplicate removal\<close>

text \<open>\<open>tuple(dict.fromkeys(xs))\<close>: the distinct elements in order of first occurrence.\<close>

definition fromkeys :: "'a list \<Rightarrow> 'a list" where
  "fromkeys xs = rev (remdups (rev xs))"

lemma fromkeys_Nil [simp]: "fromkeys [] = []"
  by (simp add: fromkeys_def)

lemma fromkeys_snoc [simp]:
  "fromkeys (xs @ [x]) = (if x \<in> set xs then fromkeys xs else fromkeys xs @ [x])"
  by (simp add: fromkeys_def)

lemma set_fromkeys [simp]: "set (fromkeys xs) = set xs"
  by (simp add: fromkeys_def)

lemma distinct_fromkeys [simp, intro]: "distinct (fromkeys xs)"
  by (simp add: fromkeys_def)

lemma fromkeys_distinct [simp]: "distinct xs \<Longrightarrow> fromkeys xs = xs"
  by (simp add: fromkeys_def distinct_remdups_id)

lemma fromkeys_idem [simp]: "fromkeys (fromkeys xs) = fromkeys xs"
  by simp

lemma fromkeys_eq_Nil [simp]: "fromkeys xs = [] \<longleftrightarrow> xs = []"
  by (simp add: fromkeys_def)

section \<open>Ordered dictionaries\<close>

text \<open>
  A Python \<open>dict\<close> whose order matters is an association list with distinct keys;
  \<open>AList.update\<close> replaces the value of a present key in place and appends a new key.
\<close>

definition dict_ok :: "('k \<times> 'v) list \<Rightarrow> bool" where
  "dict_ok d \<longleftrightarrow> distinct (map fst d)"

lemma dict_ok_Nil [simp, intro]: "dict_ok []"
  by (simp add: dict_ok_def)

lemma dict_ok_update [intro]: "dict_ok d \<Longrightarrow> dict_ok (AList.update k v d)"
  by (simp add: dict_ok_def distinct_update)

lemma dict_ok_map_of: "dict_ok d \<Longrightarrow> (k, v) \<in> set d \<longleftrightarrow> map_of d k = Some v"
  by (simp add: dict_ok_def)

lemma keys_update: "fst ` set (AList.update k v d) = insert k (fst ` set d)"
  using dom_update [of k v d] by (simp add: dom_map_of_conv_image_fst)

lemma set_update_mem:
  assumes "dict_ok d"
  shows "(k', v') \<in> set (AList.update k v d) \<longleftrightarrow>
    (if k' = k then v' = v else (k', v') \<in> set d)"
  using assms by (auto simp: dict_ok_map_of dict_ok_update update_conv)

section \<open>Last match and strict maximum\<close>

text \<open>The loop \<open>for x in xs: if p(x): found = x\<close> keeps the last match.\<close>

definition last_match :: "('a \<Rightarrow> bool) \<Rightarrow> 'a list \<Rightarrow> 'a option" where
  "last_match p xs = fold (\<lambda>x found. if p x then Some x else found) xs None"

lemma last_match_Nil [simp]: "last_match p [] = None"
  by (simp add: last_match_def)

lemma last_match_snoc [simp]:
  "last_match p (xs @ [x]) = (if p x then Some x else last_match p xs)"
  by (simp add: last_match_def)

lemma last_match_None: "last_match p xs = None \<longleftrightarrow> (\<forall>x \<in> set xs. \<not> p x)"
  by (induction xs rule: rev_induct) auto

lemma last_match_tail:
  assumes "p x" and "\<forall>z \<in> set zs. \<not> p z"
  shows "last_match p (ys @ x # zs) = Some x"
  using assms(2)
proof (induction zs rule: rev_induct)
  case Nil
  with assms(1) show ?case by simp
next
  case (snoc z zs)
  then show ?case using last_match_snoc [of p "ys @ x # zs" z] by simp
qed

lemma last_match_Some:
  "last_match p xs = Some x \<longleftrightarrow>
     (\<exists>ys zs. xs = ys @ x # zs \<and> p x \<and> (\<forall>z \<in> set zs. \<not> p z))"
proof (induction xs rule: rev_induct)
  case Nil
  then show ?case by simp
next
  case (snoc a xs)
  show ?case
  proof
    assume l: "last_match p (xs @ [a]) = Some x"
    show "\<exists>ys zs. xs @ [a] = ys @ x # zs \<and> p x \<and> (\<forall>z \<in> set zs. \<not> p z)"
    proof (cases "p a")
      case True
      with l show ?thesis by (intro exI [of _ xs] exI [of _ "[]"]) simp
    next
      case False
      with l snoc obtain ys zs where "xs = ys @ x # zs" "p x" "\<forall>z \<in> set zs. \<not> p z" by auto
      with False show ?thesis by (intro exI [of _ ys] exI [of _ "zs @ [a]"]) auto
    qed
  next
    assume "\<exists>ys zs. xs @ [a] = ys @ x # zs \<and> p x \<and> (\<forall>z \<in> set zs. \<not> p z)"
    then show "last_match p (xs @ [a]) = Some x"
      using last_match_tail by metis
  qed
qed

end
