(* ===== verification/Pystr.thy ===== *)
theory Pystr
  imports Prelude
begin

text \<open>
  Python's \<open>str\<close> as a list of \<open>char\<close>: a \<open>char\<close> with code \<open>n\<close> stands for the Unicode
  code point \<open>n\<close>, so the model covers the strings whose code points lie in
  0..255 (Latin-1). The functions follow the Unicode data of that range, not only its
  ASCII part: no-break space and NEL are white space, the letters U+00C0 to U+00DE have
  lower-case forms, code points from 128 take two bytes in UTF-8. Surrogates and code
  points above 255 are outside the model.
\<close>

abbreviation code :: "char \<Rightarrow> nat" where
  "code c \<equiv> of_char c"

section \<open>Character classes\<close>

definition is_space :: "char \<Rightarrow> bool" where
  "is_space c \<longleftrightarrow> (let n = code c in
     (9 \<le> n \<and> n \<le> 13) \<or> (28 \<le> n \<and> n \<le> 32) \<or> n = 133 \<or> n = 160)"

definition is_linebreak :: "char \<Rightarrow> bool" where
  "is_linebreak c \<longleftrightarrow> (let n = code c in
     (10 \<le> n \<and> n \<le> 13) \<or> (28 \<le> n \<and> n \<le> 30) \<or> n = 133)"

text \<open>\<open>unicodedata.category(c) in {"Cc", "Cf", "Zl", "Zp"}\<close>: in this range, the C0 and C1
  controls and the soft hyphen.\<close>

definition is_control :: "char \<Rightarrow> bool" where
  "is_control c \<longleftrightarrow> (let n = code c in n < 32 \<or> (127 \<le> n \<and> n < 160) \<or> n = 173)"

definition is_digit :: "char \<Rightarrow> bool" where
  "is_digit c \<longleftrightarrow> 48 \<le> code c \<and> code c \<le> 57"

definition is_lower_ascii :: "char \<Rightarrow> bool" where
  "is_lower_ascii c \<longleftrightarrow> 97 \<le> code c \<and> code c \<le> 122"

definition is_upper_ascii :: "char \<Rightarrow> bool" where
  "is_upper_ascii c \<longleftrightarrow> 65 \<le> code c \<and> code c \<le> 90"

definition is_alnum_lower :: "char \<Rightarrow> bool" where
  "is_alnum_lower c \<longleftrightarrow> is_lower_ascii c \<or> is_digit c"

definition is_punct :: "char \<Rightarrow> bool" where
  \<comment> \<open>\<open>string.punctuation\<close>\<close>
  "is_punct c \<longleftrightarrow> (let n = code c in
     (33 \<le> n \<and> n \<le> 47) \<or> (58 \<le> n \<and> n \<le> 64) \<or> (91 \<le> n \<and> n \<le> 96) \<or> (123 \<le> n \<and> n \<le> 126))"

abbreviation newline :: char where
  "newline \<equiv> CHR 0x0A"

abbreviation dquote :: char where
  "dquote \<equiv> CHR 0x22"

abbreviation squote :: char where
  "squote \<equiv> CHR 0x27"

abbreviation backslash :: char where
  "backslash \<equiv> CHR 0x5C"

section \<open>Stripping, case, prefixes\<close>

definition lstrip :: "string \<Rightarrow> string" where
  "lstrip s = dropWhile is_space s"

definition rstrip :: "string \<Rightarrow> string" where
  "rstrip s = rev (dropWhile is_space (rev s))"

definition strip :: "string \<Rightarrow> string" where
  "strip s = rstrip (lstrip s)"

definition rstrip_char :: "char \<Rightarrow> string \<Rightarrow> string" where
  "rstrip_char c s = rev (dropWhile (\<lambda>x. x = c) (rev s))"

definition lower_char :: "char \<Rightarrow> char" where
  "lower_char c = (let n = code c in
     if (65 \<le> n \<and> n \<le> 90) \<or> (192 \<le> n \<and> n \<le> 222 \<and> n \<noteq> 215)
     then char_of (n + 32) else c)"

definition lower :: "string \<Rightarrow> string" where
  "lower s = map lower_char s"

text \<open>\<open>str.casefold\<close>: beside the lower case, a sharp s is two letters.\<close>

definition casefold :: "string \<Rightarrow> string" where
  "casefold s = concat (map (\<lambda>c. if code c = 223 then ''ss'' else [lower_char c]) s)"

fun startswith :: "string \<Rightarrow> string \<Rightarrow> bool" where
  "startswith [] s = True"
| "startswith (c # p) [] = False"
| "startswith (c # p) (d # s) = (c = d \<and> startswith p s)"

definition endswith :: "string \<Rightarrow> string \<Rightarrow> bool" where
  "endswith p s = startswith (rev p) (rev s)"

definition removeprefix :: "string \<Rightarrow> string \<Rightarrow> string" where
  "removeprefix p s = (if startswith p s then drop (length p) s else s)"

fun contains :: "string \<Rightarrow> string \<Rightarrow> bool" where
  "contains p [] = (p = [])"
| "contains p (c # s) = (startswith p (c # s) \<or> contains p s)"

lemma startswith_prefix: "startswith p s \<longleftrightarrow> prefix p s"
  by (induction p s rule: startswith.induct) auto

lemma startswith_append [simp]: "startswith p (p @ s)"
  by (simp add: startswith_prefix)

lemma startswith_iff: "startswith p s \<longleftrightarrow> (\<exists>t. s = p @ t)"
  by (auto simp: startswith_prefix prefix_def)

lemma removeprefix_append [simp]: "removeprefix p (p @ s) = s"
  by (simp add: removeprefix_def)

lemma contains_iff: "contains p s \<longleftrightarrow> (\<exists>u v. s = u @ p @ v)"
proof (induction s)
  case (Cons c s)
  show ?case
  proof
    assume "contains p (c # s)"
    then consider "startswith p (c # s)" | "contains p s" by auto
    then show "\<exists>u v. c # s = u @ p @ v"
    proof cases
      case 1
      then show ?thesis by (auto simp: startswith_iff intro: exI [of _ "[]"])
    next
      case 2
      with Cons.IH obtain u v where "s = u @ p @ v" by blast
      then show ?thesis by (intro exI [of _ "c # u"] exI [of _ v]) simp
    qed
  next
    assume "\<exists>u v. c # s = u @ p @ v"
    then obtain u v where e: "c # s = u @ p @ v" by blast
    show "contains p (c # s)"
    proof (cases u)
      case Nil
      with e have "startswith p (c # s)" by (auto simp: startswith_iff)
      then show ?thesis by simp
    next
      case (Cons d u')
      with e have "s = u' @ p @ v" by simp
      with Cons.IH show ?thesis by auto
    qed
  qed
qed auto

lemma lstrip_hd: "lstrip s \<noteq> [] \<Longrightarrow> \<not> is_space (hd (lstrip s))"
  by (simp add: lstrip_def hd_dropWhile)

lemma rstrip_last: "rstrip s \<noteq> [] \<Longrightarrow> \<not> is_space (last (rstrip s))"
  by (simp add: rstrip_def last_rev hd_dropWhile)

lemma rstrip_id: "s = [] \<or> \<not> is_space (last s) \<Longrightarrow> rstrip s = s"
  by (cases s rule: rev_cases) (auto simp: rstrip_def)

lemma lstrip_id: "s = [] \<or> \<not> is_space (hd s) \<Longrightarrow> lstrip s = s"
  by (cases s) (auto simp: lstrip_def)

lemma rstrip_snoc_space: "is_space c \<Longrightarrow> rstrip (s @ [c]) = rstrip s"
  by (simp add: rstrip_def)

lemma rstrip_prefix: "prefix (rstrip s) s"
proof (induction s rule: rev_induct)
  case (snoc c s)
  then show ?case
    by (cases "is_space c") (auto simp: rstrip_snoc_space rstrip_id intro: prefix_order.trans)
qed (simp add: rstrip_def)

lemma set_strip: "set (strip s) \<subseteq> set s"
proof -
  have "set (rstrip t) \<subseteq> set t" for t by (metis rstrip_prefix set_mono_prefix)
  then have "set (strip s) \<subseteq> set (lstrip s)" by (simp add: strip_def)
  also have "\<dots> \<subseteq> set s" by (auto simp: lstrip_def dest: set_dropWhileD)
  finally show ?thesis .
qed

text \<open>A stripped string is one with no white space at either end.\<close>

lemma strip_id_iff:
  "strip s = s \<longleftrightarrow> s = [] \<or> (\<not> is_space (hd s) \<and> \<not> is_space (last s))"
proof
  assume e: "strip s = s"
  show "s = [] \<or> (\<not> is_space (hd s) \<and> \<not> is_space (last s))"
  proof (cases "s = []")
    case False
    have "\<not> is_space (last s)" using False e rstrip_last [of "lstrip s"] by (simp add: strip_def)
    moreover have "length (strip s) \<le> length (lstrip s)"
      using rstrip_prefix [of "lstrip s"] by (simp add: strip_def prefix_length_le)
    then have "length s \<le> length (lstrip s)" using e by simp
    then have "\<not> is_space (hd s)"
      using False length_dropWhile_le [of is_space "tl s"]
      by (cases s) (auto simp: lstrip_def split: if_splits)
    ultimately show ?thesis by simp
  qed simp
next
  assume "s = [] \<or> (\<not> is_space (hd s) \<and> \<not> is_space (last s))"
  then show "strip s = s" by (auto simp: strip_def lstrip_id rstrip_id)
qed

lemma strip_ends: "strip s \<noteq> [] \<Longrightarrow> \<not> is_space (hd (strip s)) \<and> \<not> is_space (last (strip s))"
proof -
  assume ne: "strip s \<noteq> []"
  then have l: "lstrip s \<noteq> []" by (auto simp: strip_def rstrip_def)
  have "hd (strip s) = hd (lstrip s)"
    using ne rstrip_prefix [of "lstrip s"] by (metis hd_append2 prefixE strip_def)
  then show ?thesis using ne lstrip_hd [OF l] rstrip_last by (simp add: strip_def)
qed

lemma strip_strip [simp]: "strip (strip s) = strip s"
  using strip_ends strip_id_iff by blast

lemma lower_char_idem [simp]: "lower_char (lower_char c) = lower_char c"
  by (auto simp: lower_char_def Let_def)

lemma lower_idem [simp]: "lower (lower s) = lower s"
  by (simp add: lower_def)

lemma length_lower [simp]: "length (lower s) = length s"
  by (simp add: lower_def)

lemma lower_append: "lower (s @ t) = lower s @ lower t"
  by (simp add: lower_def)

lemma is_space_lower_char [simp]: "is_space (lower_char c) = is_space c"
  by (auto simp: lower_char_def is_space_def Let_def)

lemma strip_lower: "strip (lower s) = lower (strip s)"
proof -
  have "lstrip (lower t) = lower (lstrip t)" for t
    by (simp add: lstrip_def lower_def dropWhile_map comp_def)
  moreover have "rstrip (lower t) = lower (rstrip t)" for t
    by (simp add: rstrip_def lower_def rev_map dropWhile_map comp_def)
  ultimately show ?thesis by (simp add: strip_def)
qed

section \<open>Splitting and joining\<close>

fun split_on :: "char \<Rightarrow> string \<Rightarrow> string list" where
  "split_on c [] = [[]]"
| "split_on c (x # s) =
     (if x = c then [] # split_on c s
      else (case split_on c s of [] \<Rightarrow> [[x]] | l # ls \<Rightarrow> (x # l) # ls))"

fun py_join :: "string \<Rightarrow> string list \<Rightarrow> string" where
  "py_join sep [] = []"
| "py_join sep [x] = x"
| "py_join sep (x # y # xs) = x @ sep @ py_join sep (y # xs)"

definition count_char :: "char \<Rightarrow> string \<Rightarrow> nat" where
  "count_char c s = length (filter (\<lambda>x. x = c) s)"

lemma split_on_nonempty [simp]: "split_on c s \<noteq> []"
  by (induction s) (auto split: list.splits)

lemma length_split_on: "length (split_on c s) = Suc (count_char c s)"
  by (induction s) (auto simp: count_char_def split: list.splits)

lemma split_on_free: "l \<in> set (split_on c s) \<Longrightarrow> c \<notin> set l"
  by (induction s arbitrary: l) (auto split: list.splits if_splits)

lemma split_on_no_sep: "c \<notin> set s \<Longrightarrow> split_on c s = [s]"
  by (induction s) auto

lemma split_on_append: "c \<notin> set s \<Longrightarrow> split_on c (s @ c # t) = s # split_on c t"
  by (induction s) auto

lemma py_join_Cons: "xs \<noteq> [] \<Longrightarrow> py_join sep (x # xs) = x @ sep @ py_join sep xs"
  by (cases xs) auto

lemma join_split_on: "py_join [c] (split_on c s) = s"
proof (induction s)
  case (Cons x s)
  show ?case
  proof (cases "split_on c s")
    case (Cons l ls)
    show ?thesis
    proof (cases "x = c")
      case True
      then show ?thesis using Cons.IH by (simp add: py_join_Cons)
    next
      case False
      with Cons Cons.IH show ?thesis by (cases ls) auto
    qed
  qed simp
qed simp

lemma split_on_join:
  assumes "xs \<noteq> []" and "\<forall>x \<in> set xs. c \<notin> set x"
  shows "split_on c (py_join [c] xs) = xs"
  using assms
proof (induction xs)
  case (Cons x xs)
  then show ?case
    by (cases "xs = []") (auto simp: py_join_Cons split_on_no_sep split_on_append)
qed simp

text \<open>\<open>str.splitlines()\<close>; a carriage return followed by a line feed is one terminator.\<close>

definition skip_lf :: "string \<Rightarrow> string" where
  "skip_lf s = (case s of [] \<Rightarrow> [] | d # s' \<Rightarrow> if d = newline then s' else s)"

lemma length_skip_lf [termination_simp]: "length (skip_lf s) < Suc (length s)"
  by (cases s) (auto simp: skip_lf_def)

fun splitlines :: "string \<Rightarrow> string list" where
  "splitlines [] = []"
| "splitlines (c # s) =
     (if c = CHR 0x0D then [] # splitlines (skip_lf s)
      else if is_linebreak c then [] # splitlines s
      else (case splitlines s of [] \<Rightarrow> [[c]] | l # ls \<Rightarrow> (c # l) # ls))"

lemma is_linebreak_CR: "is_linebreak (CHR 0x0D)"
  by (simp add: is_linebreak_def)

lemma splitlines_free: "l \<in> set (splitlines s) \<Longrightarrow> c \<in> set l \<Longrightarrow> \<not> is_linebreak c"
  by (induction s arbitrary: l rule: splitlines.induct)
    (fastforce split: list.splits if_splits)+

section \<open>Numbers, UTF-8 length and repr\<close>

definition digit_char :: "nat \<Rightarrow> char" where
  "digit_char d = char_of (48 + d)"

fun show_nat :: "nat \<Rightarrow> string" where
  "show_nat n = (if n < 10 then [digit_char n] else show_nat (n div 10) @ [digit_char (n mod 10)])"

declare show_nat.simps [simp del]

definition show_int :: "int \<Rightarrow> string" where
  "show_int i = (if i < 0 then CHR ''-'' # show_nat (nat (- i)) else show_nat (nat i))"

definition parse_nat :: "string \<Rightarrow> nat" where
  "parse_nat s = foldl (\<lambda>a c. 10 * a + (code c - 48)) 0 s"

lemma parse_nat_snoc: "parse_nat (s @ [c]) = 10 * parse_nat s + (code c - 48)"
  by (simp add: parse_nat_def)

lemma code_digit_char: "d < 10 \<Longrightarrow> code (digit_char d) = 48 + d"
  by (simp add: digit_char_def)

lemma parse_show_nat [simp]: "parse_nat (show_nat n) = n"
proof (induction n rule: show_nat.induct)
  case (1 n)
  show ?case
  proof (cases "n < 10")
    case True
    then show ?thesis by (subst show_nat.simps) (simp add: parse_nat_def code_digit_char)
  next
    case False
    with 1 show ?thesis by (subst show_nat.simps) (simp add: parse_nat_snoc code_digit_char)
  qed
qed

lemma show_nat_inj [simp]: "show_nat m = show_nat n \<longleftrightarrow> m = n"
  by (metis parse_show_nat)

lemma show_nat_digits: "c \<in> set (show_nat n) \<Longrightarrow> is_digit c"
proof (induction n rule: show_nat.induct)
  case (1 n)
  show ?case
  proof (cases "n < 10")
    case True
    with 1 have "c = digit_char n" by (simp add: show_nat.simps [of n])
    with True show ?thesis by (simp add: is_digit_def code_digit_char)
  next
    case False
    with 1 consider "c \<in> set (show_nat (n div 10))" | "c = digit_char (n mod 10)"
      by (auto simp: show_nat.simps [of n])
    then show ?thesis using False 1 by cases (auto simp: is_digit_def code_digit_char)
  qed
qed

lemma show_nat_nonempty [simp]: "show_nat n \<noteq> []"
  by (subst show_nat.simps) simp

definition utf8_length :: "string \<Rightarrow> nat" where
  "utf8_length s = sum_list (map (\<lambda>c. if code c < 128 then 1 else 2) s)"

lemma length_le_utf8_length: "length s \<le> utf8_length s"
  by (induction s) (auto simp: utf8_length_def)

definition hex_char :: "bool \<Rightarrow> nat \<Rightarrow> char" where
  "hex_char upper d = (if d < 10 then char_of (48 + d)
     else char_of ((if upper then 55 else 87) + d))"

text \<open>\<open>repr(s)\<close> of a string: the quote is double only when the text holds a single quote
  and no double quote; backslashes, the chosen quote and unprintable characters are
  escaped.\<close>

definition repr_char :: "char \<Rightarrow> char \<Rightarrow> string" where
  "repr_char q c =
     (if c = q \<or> c = backslash then [backslash, c]
      else if c = newline then [backslash, CHR ''n'']
      else if c = CHR 0x0D then [backslash, CHR ''r'']
      else if c = CHR 0x09 then [backslash, CHR ''t'']
      else if is_control c \<or> code c = 160
      then [backslash, CHR ''x'', hex_char False (code c div 16), hex_char False (code c mod 16)]
      else [c])"

definition py_repr :: "string \<Rightarrow> string" where
  "py_repr s = (let q = (if squote \<in> set s \<and> dquote \<notin> set s then dquote else squote)
     in q # concat (map (repr_char q) s) @ [q])"

end
