(* ===== verification/Regex.thy ===== *)
theory Regex
  imports Pystr
begin

text \<open>
  The fragment of Python's \<open>re\<close> that \<open>codeowners.py\<close> builds its patterns from. A
  pattern is a list of tokens; \<open>rx_lang\<close> is the set of strings it denotes and
  \<open>fullmatch\<close> the backtracking matcher of \<open>re.fullmatch\<close>. As in \<open>re\<close> without the
  \<open>DOTALL\<close> flag, the dot matches every character except a line feed, while the negated
  class \<open>[^/]\<close> does match one.
\<close>

datatype rx_tok =
    Lit char          \<comment> \<open>\<open>re.escape(c)\<close>\<close>
  | NonSlash          \<comment> \<open>\<open>[^/]\<close>\<close>
  | NonSlashStar      \<comment> \<open>\<open>[^/]*\<close>\<close>
  | AnyStar           \<comment> \<open>\<open>.*\<close>\<close>
  | OptDirs           \<comment> \<open>\<open>(?:.*/)?\<close>\<close>
  | OptTail           \<comment> \<open>\<open>(?:/.*)?\<close>\<close>

definition dot :: "char \<Rightarrow> bool" where
  "dot c \<longleftrightarrow> c \<noteq> newline"

fun tok_lang :: "rx_tok \<Rightarrow> string set" where
  "tok_lang (Lit c) = {[c]}"
| "tok_lang NonSlash = {[c] |c. c \<noteq> CHR ''/''}"
| "tok_lang NonSlashStar = {w. CHR ''/'' \<notin> set w}"
| "tok_lang AnyStar = {w. \<forall>c \<in> set w. dot c}"
| "tok_lang OptDirs = insert [] {w @ ''/'' |w. \<forall>c \<in> set w. dot c}"
| "tok_lang OptTail = insert [] {''/'' @ w |w. \<forall>c \<in> set w. dot c}"

fun rx_lang :: "rx_tok list \<Rightarrow> string set" where
  "rx_lang [] = {[]}"
| "rx_lang (t # ts) = {u @ v |u v. u \<in> tok_lang t \<and> v \<in> rx_lang ts}"

fun tok_weight :: "rx_tok \<Rightarrow> nat" where
  "tok_weight OptDirs = 3"
| "tok_weight OptTail = 3"
| "tok_weight _ = 1"

function (sequential) fullmatch :: "rx_tok list \<Rightarrow> string \<Rightarrow> bool" where
  "fullmatch [] s = (s = [])"
| "fullmatch (Lit c # ts) s = (case s of [] \<Rightarrow> False | d # s' \<Rightarrow> c = d \<and> fullmatch ts s')"
| "fullmatch (NonSlash # ts) s =
     (case s of [] \<Rightarrow> False | d # s' \<Rightarrow> d \<noteq> CHR ''/'' \<and> fullmatch ts s')"
| "fullmatch (NonSlashStar # ts) s =
     (fullmatch ts s \<or>
      (case s of [] \<Rightarrow> False | d # s' \<Rightarrow> d \<noteq> CHR ''/'' \<and> fullmatch (NonSlashStar # ts) s'))"
| "fullmatch (AnyStar # ts) s =
     (fullmatch ts s \<or>
      (case s of [] \<Rightarrow> False | d # s' \<Rightarrow> dot d \<and> fullmatch (AnyStar # ts) s'))"
| "fullmatch (OptDirs # ts) s = (fullmatch ts s \<or> fullmatch (AnyStar # Lit CHR ''/'' # ts) s)"
| "fullmatch (OptTail # ts) s = (fullmatch ts s \<or> fullmatch (Lit CHR ''/'' # AnyStar # ts) s)"
  by pat_completeness auto
termination
  by (relation "measures [\<lambda>(ts, s). sum_list (map tok_weight ts), \<lambda>(ts, s). length s]") auto

lemma rx_lang_append:
  "rx_lang (ts @ us) = {u @ v |u v. u \<in> rx_lang ts \<and> v \<in> rx_lang us}"
proof (induction ts)
  case (Cons t ts)
  show ?case
    by (auto simp: Cons.IH) (metis append.assoc)+
qed simp

lemma star_unfold:
  fixes P :: "char \<Rightarrow> bool"
  assumes "A = {w. \<forall>c \<in> set w. P c}"
  shows "s \<in> {u @ v |u v. u \<in> A \<and> v \<in> L} \<longleftrightarrow>
    s \<in> L \<or> (case s of [] \<Rightarrow> False | d # s' \<Rightarrow> P d \<and> s' \<in> {u @ v |u v. u \<in> A \<and> v \<in> L})"
    (is "?l = ?r")
proof
  assume ?l
  then obtain u v where e: "s = u @ v" "u \<in> A" "v \<in> L" by blast
  show ?r
  proof (cases u)
    case (Cons d u')
    with e assms show ?thesis by auto
  qed (use e in simp)
next
  assume ?r
  then consider "s \<in> L"
    | d s' u v where "s = d # s'" "P d" "s' = u @ v" "u \<in> A" "v \<in> L"
    by (auto split: list.splits)
  then show ?l
  proof cases
    case 1
    moreover have "[] \<in> A" using assms by simp
    moreover have "s = [] @ s" by simp
    ultimately show ?thesis by blast
  next
    case 2
    then have "s = (d # u) @ v" "d # u \<in> A" using assms by auto
    with 2 show ?thesis by blast
  qed
qed

lemma fullmatch_lang: "fullmatch ts s \<longleftrightarrow> s \<in> rx_lang ts"
proof (induction ts s rule: fullmatch.induct)
  case (4 ts s)
  have slash: "tok_lang NonSlashStar = {w. \<forall>c \<in> set w. c \<noteq> CHR ''/''}" by auto
  show ?case
    using 4 star_unfold [OF slash, of s "rx_lang ts"] by (auto split: list.splits)
next
  case (5 ts s)
  show ?case
    using 5 star_unfold [of "tok_lang AnyStar" dot s "rx_lang ts"] by (auto split: list.splits)
next
  case (6 ts s)
  have "rx_lang (OptDirs # ts) = rx_lang ts \<union> rx_lang (AnyStar # Lit CHR ''/'' # ts)"
    by (auto, blast, metis append.assoc append_Cons append_Nil)
  with 6 show ?case by auto
next
  case (7 ts s)
  have "rx_lang (OptTail # ts) = rx_lang ts \<union> rx_lang (Lit CHR ''/'' # AnyStar # ts)"
    by (auto, metis append_Cons append_Nil, metis append_Cons)
  with 7 show ?case by auto
next
  case (2 c ts s)
  then show ?case by (cases s) auto
next
  case (3 ts s)
  have "rx_lang (NonSlash # ts) = {d # v |d v. d \<noteq> CHR ''/'' \<and> v \<in> rx_lang ts}"
    by (auto, metis append_Cons append_Nil)
  with 3 show ?case by (cases s) auto
qed simp

end
