(* ===== verification/Models.thy ===== *)
theory Models
  imports Regex
begin

text \<open>
  \<open>extra_codeowners/models.py\<close>: the normalisers of untrusted text, the immutable models
  of policy and evidence with their validators, and the Markdown rendering of a result.
  A pydantic model is a record, its construction a function from the raw field values to
  either the list of field errors or the validated record: every field validator runs,
  and the model validator runs only when no field failed. A \<open>ValueError\<close> raised by the
  source keeps its message (\<open>Raised\<close>); a constraint pydantic checks itself from a field
  declaration (\<open>gt=0\<close>, \<open>max_length\<close>, \<open>Literal[1]\<close>) is \<open>Constraint\<close> with the field's name.
\<close>

datatype field_error = Raised string | Constraint string

type_synonym 'a validated = "field_error list + 'a"

definition errors_of :: "string + 'a \<Rightarrow> field_error list" where
  "errors_of r = (case r of Inl m \<Rightarrow> [Raised m] | Inr _ \<Rightarrow> [])"

definition require :: "string \<Rightarrow> bool \<Rightarrow> field_error list" where
  "require field ok = (if ok then [] else [Constraint field])"

definition build :: "field_error list \<Rightarrow> 'a \<Rightarrow> ('a \<Rightarrow> string + 'a) \<Rightarrow> 'a validated" where
  \<comment> \<open>field errors first, then the \<open>mode="after"\<close> model validator\<close>
  "build errs x after = (if errs \<noteq> [] then Inl errs else
     case after x of Inl m \<Rightarrow> Inl [Raised m] | Inr y \<Rightarrow> Inr y)"

lemma errors_of_Nil [simp]: "errors_of r = [] \<longleftrightarrow> (\<exists>x. r = Inr x)"
  by (auto simp: errors_of_def split: sum.splits)

lemma require_Nil [simp]: "require f b = [] \<longleftrightarrow> b"
  by (simp add: require_def)

lemma build_Inr: "build errs x after = Inr y \<longleftrightarrow> errs = [] \<and> after x = Inr y"
  by (auto simp: build_def split: sum.splits)

section \<open>Rendering untrusted text\<close>

definition hex4 :: "nat \<Rightarrow> string" where
  "hex4 n = map (\<lambda>k. hex_char True (n div 16 ^ k mod 16)) [3, 2, 1, 0]"

definition visible_char :: "char \<Rightarrow> string" where
  "visible_char c =
     (if c = newline then [backslash, CHR ''n'']
      else if c = CHR 0x0D then [backslash, CHR ''r'']
      else if c = CHR 0x09 then [backslash, CHR ''t'']
      else if is_control c then ''<U+'' @ hex4 (code c) @ ''>''
      else [c])"

definition visible_text :: "string \<Rightarrow> string" where
  "visible_text value = concat (map visible_char value)"

definition markdown_text :: "string \<Rightarrow> string" where
  "markdown_text value =
     concat (map (\<lambda>c. if is_punct c then [backslash, c] else [c]) (visible_text value))"

definition html_escape_char :: "char \<Rightarrow> string" where
  \<comment> \<open>\<open>html.escape(s, quote=True)\<close>, one character\<close>
  "html_escape_char c =
     (if c = CHR ''&'' then ''&amp;''
      else if c = CHR ''<'' then ''&lt;''
      else if c = CHR ''>'' then ''&gt;''
      else if c = dquote then ''&quot;''
      else if c = squote then ''&#x27;''
      else [c])"

definition html_escape :: "string \<Rightarrow> string" where
  "html_escape s = concat (map html_escape_char s)"

definition markdown_code :: "string \<Rightarrow> string" where
  "markdown_code value = ''<code>'' @ html_escape (visible_text value) @ ''</code>''"

section \<open>Normalisers\<close>

definition owner_name_char :: "char \<Rightarrow> bool" where
  \<comment> \<open>\<open>[a-z0-9_.-]\<close> under \<open>re.IGNORECASE\<close>\<close>
  "owner_name_char c \<longleftrightarrow> is_alnum_lower c \<or> is_upper_ascii c \<or> c \<in> {CHR ''_'', CHR ''.'', CHR ''-''}"

definition owner_name :: "string \<Rightarrow> bool" where
  \<comment> \<open>\<open>[a-z0-9][a-z0-9_.-]*\<close> under \<open>re.IGNORECASE\<close>\<close>
  "owner_name s \<longleftrightarrow> s \<noteq> [] \<and> (is_alnum_lower (hd s) \<or> is_upper_ascii (hd s)) \<and>
     list_all owner_name_char s"

definition owner_re :: "string \<Rightarrow> bool" where
  \<comment> \<open>\<open>_OWNER_RE.fullmatch\<close>: an at sign and one or two names separated by a slash\<close>
  "owner_re s \<longleftrightarrow> (case s of [] \<Rightarrow> False
     | c # r \<Rightarrow> c = CHR ''@'' \<and> count_char (CHR ''/'') r \<le> 1 \<and>
         list_all owner_name (split_on (CHR ''/'') r))"

definition normalize_owner :: "string \<Rightarrow> string + string" where
  "normalize_owner value =
     (let owner = lower (strip value) in
      if CHR ''@'' \<in> set owner \<and> \<not> startswith ''@'' owner
      then Inl (''email CODEOWNER '' @ py_repr value @
                '' is unsupported; use an @user or @org/team'')
      else if \<not> owner_re owner
      then Inl (''invalid CODEOWNER identity '' @ py_repr value @
                ''; expected @user or @org/team'')
      else Inr owner)"

definition bad_segment :: "string \<Rightarrow> bool" where
  "bad_segment part \<longleftrightarrow> part = [] \<or> part = ''.'' \<or> part = ''..''"

definition normalize_repository_path :: "string \<Rightarrow> string + string" where
  "normalize_repository_path value =
     (let path = value in
      if path = [] then Inl ''repository path must not be empty''
      else if path \<noteq> strip path
      then Inl ''repository paths with leading or trailing whitespace are unsupported''
      else if startswith ''/'' path \<or> backslash \<in> set path
      then Inl ''repository paths must be relative POSIX paths''
      else if list_ex bad_segment (split_on (CHR ''/'') path)
      then Inl ''repository paths must not contain empty, '.' or '..' segments''
      else Inr path)"

definition normalize_pattern :: "string \<Rightarrow> string + string" where
  "normalize_pattern value =
     (let pattern = strip value in
      if pattern = [] then Inl ''path pattern must not be empty''
      else if backslash \<in> set pattern
      then Inl ''path patterns must use POSIX '/' separators''
      else Inr pattern)"

definition normalize_label :: "string \<Rightarrow> string + string" where
  "normalize_label value =
     (let label = lower (strip value) in
      if label = [] then Inl ''label must not be empty'' else Inr label)"

definition app_slug_re :: "string \<Rightarrow> bool" where
  "app_slug_re s \<longleftrightarrow> s \<noteq> [] \<and> is_alnum_lower (hd s) \<and> is_alnum_lower (last s) \<and>
     list_all (\<lambda>c. is_alnum_lower c \<or> c = CHR ''-'') s"

definition app_alias_re :: "string \<Rightarrow> bool" where
  "app_alias_re s \<longleftrightarrow> s \<noteq> [] \<and> is_alnum_lower (hd s) \<and> is_alnum_lower (last s) \<and>
     list_all (\<lambda>c. is_alnum_lower c \<or> c = CHR ''_'' \<or> c = CHR ''-'') s"

section \<open>Organization policy\<close>

record enrolled_application =
  ea_slug :: string
  ea_app_id :: int
  ea_bot_user_id :: int

record guardrails =
  non_delegable_paths :: "string list"

record organization_policy =
  op_schema_version :: int
  apps :: "(string \<times> enrolled_application) list"
  guardrails_of :: guardrails

definition validate_slug :: "string \<Rightarrow> string + string" where
  "validate_slug value =
     (let slug = lower (strip value) in
      if \<not> app_slug_re slug
      then Inl ''GitHub App slug must contain lowercase letters, digits, and hyphens''
      else Inr slug)"

definition make_enrolled_application ::
  "string \<Rightarrow> int \<Rightarrow> int \<Rightarrow> enrolled_application validated" where
  "make_enrolled_application slug app_id bot_user_id =
     build (errors_of (validate_slug slug) @ require ''app_id'' (0 < app_id)
              @ require ''bot_user_id'' (0 < bot_user_id))
       \<lparr>ea_slug = projr (validate_slug slug), ea_app_id = app_id, ea_bot_user_id = bot_user_id\<rparr>
       Inr"

definition validate_non_delegable_paths :: "string list \<Rightarrow> string + string list" where
  "validate_non_delegable_paths value = mapM_result normalize_pattern value"

definition make_guardrails :: "string list \<Rightarrow> guardrails validated" where
  "make_guardrails paths =
     build (require ''non_delegable_paths'' (length paths \<le> 100)
              @ errors_of (validate_non_delegable_paths paths))
       \<lparr>non_delegable_paths = projr (validate_non_delegable_paths paths)\<rparr> Inr"

text \<open>The loop of \<open>normalize_app_aliases\<close>; the accumulator is the \<open>normalized\<close> dictionary.\<close>

fun normalize_app_aliases ::
  "(string \<times> 'a) list \<Rightarrow> (string \<times> 'a) list \<Rightarrow> string + (string \<times> 'a) list" where
  "normalize_app_aliases normalized [] = Inr normalized"
| "normalize_app_aliases normalized ((raw_alias, app) # rest) =
     (let alias = lower (strip raw_alias) in
      if \<not> app_alias_re alias then Inl (''invalid application alias '' @ py_repr raw_alias)
      else if alias \<in> fst ` set normalized
      then Inl (''duplicate application alias '' @ py_repr alias)
      else normalize_app_aliases (normalized @ [(alias, app)]) rest)"

text \<open>The loop of \<open>identities_are_unique\<close> with its three sets of seen identities.\<close>

fun identities_are_unique ::
  "int set \<Rightarrow> int set \<Rightarrow> string set \<Rightarrow> (string \<times> enrolled_application) list \<Rightarrow> string option" where
  "identities_are_unique seen_app_ids seen_bot_ids seen_slugs [] = None"
| "identities_are_unique seen_app_ids seen_bot_ids seen_slugs ((alias, app) # rest) =
     (if ea_app_id app \<in> seen_app_ids
      then Some (''duplicate GitHub App id '' @ show_int (ea_app_id app) @ '' (at '' @ py_repr alias @ '')'')
      else if ea_bot_user_id app \<in> seen_bot_ids
      then Some (''duplicate GitHub bot user id '' @ show_int (ea_bot_user_id app) @ '' (at '' @ py_repr alias @ '')'')
      else if ea_slug app \<in> seen_slugs
      then Some (''duplicate GitHub App slug '' @ py_repr (ea_slug app))
      else identities_are_unique (insert (ea_app_id app) seen_app_ids)
             (insert (ea_bot_user_id app) seen_bot_ids) (insert (ea_slug app) seen_slugs) rest)"

definition make_organization_policy ::
  "int \<Rightarrow> (string \<times> enrolled_application) list \<Rightarrow> guardrails \<Rightarrow> organization_policy validated" where
  "make_organization_policy schema_version raw_apps guards =
     build (require ''schema_version'' (schema_version = 1)
              @ errors_of (normalize_app_aliases [] raw_apps)
              @ require ''apps'' (length raw_apps \<le> 50))
       \<lparr>op_schema_version = schema_version, apps = projr (normalize_app_aliases [] raw_apps),
        guardrails_of = guards\<rparr>
       (\<lambda>p. case identities_are_unique {} {} {} (apps p) of Some m \<Rightarrow> Inl m | None \<Rightarrow> Inr p)"

section \<open>Repository policy\<close>

record delegation =
  dg_app :: string
  dg_paths :: "string list"
  for_owners :: "string list"
  required_labels :: "string set"
  forbidden_labels :: "string set"

record repository_policy =
  rp_schema_version :: int
  enabled :: bool
  allow_author_as_codeowner :: bool
  allow_delegation_for_policy_file :: bool
  delegations :: "delegation list"

definition normalize_app :: "string \<Rightarrow> string + string" where
  "normalize_app value =
     (let alias = lower (strip value) in
      if \<not> app_alias_re alias then Inl ''delegation app must be a valid application alias''
      else Inr alias)"

definition validate_paths :: "string list \<Rightarrow> string + string list" where
  "validate_paths value =
     (if value = [] then Inl ''delegation paths must not be empty''
      else mapM_result normalize_pattern value)"

definition normalize_for_owners :: "string list \<Rightarrow> string + string list" where
  "normalize_for_owners value =
     mapM_result (\<lambda>raw_owner. let owner = strip raw_owner in
        if owner = ''*'' then Inr ''*'' else normalize_owner owner) value"

definition validate_for_owners :: "string list \<Rightarrow> string + string list" where
  "validate_for_owners value =
     (if value = [] then Inl (''for_owners must list owners or contain an explicit '' @ [squote, CHR ''*'', squote])
      else if ''*'' \<in> set value \<and> length value \<noteq> 1
      then Inl ([squote, CHR ''*'', squote] @ '' cannot be combined with named CODEOWNERS'')
      else if length (remdups value) \<noteq> length value
      then Inl ''for_owners contains duplicate entries''
      else Inr value)"

definition normalize_labels :: "string list \<Rightarrow> string + string set" where
  "normalize_labels value =
     bind_result (mapM_result normalize_label value) (\<lambda>ls. Inr (set ls))"

definition repr_list :: "string list \<Rightarrow> string" where
  "repr_list xs = ''['' @ py_join '', '' (map py_repr xs) @ '']''"

definition label_sets_do_not_overlap :: "delegation \<Rightarrow> string + delegation" where
  "label_sets_do_not_overlap d =
     (let overlap = required_labels d \<inter> forbidden_labels d in
      if overlap \<noteq> {}
      then Inl (''labels cannot be both required and forbidden: '' @
                repr_list (sorted_list_of_set overlap))
      else Inr d)"

definition make_delegation ::
  "string \<Rightarrow> string list \<Rightarrow> string list \<Rightarrow> string list \<Rightarrow> string list \<Rightarrow> delegation validated" where
  "make_delegation app paths owners required forbidden =
     (let owners' = bind_result (normalize_for_owners owners) validate_for_owners;
          req = normalize_labels required; forb = normalize_labels forbidden in
      build (errors_of (normalize_app app)
               @ (if paths = [] then [Constraint ''paths'']
                  else if 100 < length paths then [Constraint ''paths'']
                  else errors_of (validate_paths paths))
               @ errors_of (normalize_for_owners owners)
               @ (case normalize_for_owners owners of Inl _ \<Rightarrow> [] | Inr os \<Rightarrow>
                    if os = [] \<or> 100 < length os then [Constraint ''for_owners'']
                    else errors_of (validate_for_owners os))
               @ errors_of req @ (case req of Inl _ \<Rightarrow> [] | Inr ls \<Rightarrow> require ''required_labels'' (card ls \<le> 50))
               @ errors_of forb @ (case forb of Inl _ \<Rightarrow> [] | Inr ls \<Rightarrow> require ''forbidden_labels'' (card ls \<le> 50)))
        \<lparr>dg_app = projr (normalize_app app), dg_paths = projr (validate_paths paths),
         for_owners = projr owners', required_labels = projr req, forbidden_labels = projr forb\<rparr>
        label_sets_do_not_overlap)"

definition delegation_complexity_is_bounded :: "repository_policy \<Rightarrow> string + repository_policy" where
  "delegation_complexity_is_bounded p =
     (if 1000 < sum_list (map (\<lambda>d. length (dg_paths d)) (delegations p))
      then Inl ''repository policy may contain at most 1,000 delegation patterns''
      else Inr p)"

definition make_repository_policy ::
  "int \<Rightarrow> bool \<Rightarrow> bool \<Rightarrow> bool \<Rightarrow> delegation list \<Rightarrow> repository_policy validated" where
  "make_repository_policy schema_version en author policy_file dgs =
     build (require ''schema_version'' (schema_version = 1)
              @ require ''delegations'' (length dgs \<le> 100))
       \<lparr>rp_schema_version = schema_version, enabled = en, allow_author_as_codeowner = author,
        allow_delegation_for_policy_file = policy_file, delegations = dgs\<rparr>
       delegation_complexity_is_bounded"

end
