(* ===== verification/Evidence.thy ===== *)
theory Evidence
  imports Models
begin

text \<open>
  The second half of \<open>extra_codeowners/models.py\<close>: the evidence a caller supplies for one
  pull request (changed files, review actors, reviews, options) and the evaluation result
  with its Check Run rendering. A \<open>datetime\<close> is either naive or an aware instant in
  microseconds; a stored \<open>submitted_at\<close> is the instant. The two status symbols of the
  rendering lie outside the character range of the model and are its parameters.
\<close>

section \<open>Changed files\<close>

datatype changed_file_status = ADDED | MODIFIED | REMOVED | RENAMED | COPIED | CHANGED | UNCHANGED

record changed_file =
  cf_path :: string
  cf_status :: changed_file_status
  previous_path :: "string option"

definition normalize_optional_path :: "string option \<Rightarrow> string + string option" where
  "normalize_optional_path v = (case v of None \<Rightarrow> Inr None
     | Some p \<Rightarrow> bind_result (normalize_repository_path p) (\<lambda>q. Inr (Some q)))"

definition rename_has_previous_path :: "changed_file \<Rightarrow> string + changed_file" where
  "rename_has_previous_path f =
     (if cf_status f = RENAMED \<and> previous_path f = None
      then Inl ''renamed files require previous_path so both ownership rules are evaluated''
      else if previous_path f \<noteq> None \<and> cf_status f \<noteq> RENAMED
      then Inl ''previous_path is only valid for renamed files''
      else if previous_path f = Some (cf_path f)
      then Inl ''renamed file path and previous_path must differ''
      else Inr f)"

definition make_changed_file ::
  "string \<Rightarrow> changed_file_status \<Rightarrow> string option \<Rightarrow> changed_file validated" where
  "make_changed_file path status prev =
     build (errors_of (normalize_repository_path path) @ errors_of (normalize_optional_path prev))
       \<lparr>cf_path = projr (normalize_repository_path path), cf_status = status,
        previous_path = projr (normalize_optional_path prev)\<rparr>
       rename_has_previous_path"

section \<open>Actors, reviews and the author\<close>

datatype actor_kind = HUMAN | APPLICATION

record review_actor =
  kind :: actor_kind
  login :: string
  user_id :: int
  app_id :: "int option"
  app_slug :: "string option"
  owner_aliases :: "string set"
  direct_owner_eligible :: bool

definition validate_login :: "string \<Rightarrow> string \<Rightarrow> string + string" where
  \<comment> \<open>the two models differ only in who the message names\<close>
  "validate_login who value =
     (let login = lower (strip value) in
      if login = [] then Inl (who @ '' login must not be empty'') else Inr login)"

definition normalize_app_slug :: "string option \<Rightarrow> string + string option" where
  "normalize_app_slug value = (case value of None \<Rightarrow> Inr None
     | Some v \<Rightarrow> (let slug = lower (strip v) in
         if \<not> app_slug_re slug then Inl ''invalid GitHub App slug on review actor''
         else Inr (Some slug)))"

definition normalize_owner_aliases :: "string list \<Rightarrow> string + string set" where
  "normalize_owner_aliases value =
     bind_result (mapM_result normalize_owner value) (\<lambda>os. Inr (set os))"

definition validate_kind_fields :: "review_actor \<Rightarrow> string + review_actor" where
  "validate_kind_fields a =
     (if kind a = APPLICATION then
        (if app_id a = None \<or> app_slug a = None
         then Inl ''application review actors require app_id and app_slug''
         else if owner_aliases a \<noteq> {}
         then Inl ''application review actors cannot carry human owner aliases''
         else Inr a)
      else if app_id a \<noteq> None \<or> app_slug a \<noteq> None
      then Inl ''human review actors cannot carry GitHub App identity fields''
      else Inr a)"

definition make_review_actor ::
  "actor_kind \<Rightarrow> string \<Rightarrow> int \<Rightarrow> int option \<Rightarrow> string option \<Rightarrow> string list \<Rightarrow> bool
     \<Rightarrow> review_actor validated" where
  "make_review_actor k raw_login uid aid slug aliases direct =
     build (errors_of (validate_login ''review actor'' raw_login)
              @ require ''user_id'' (0 < uid)
              @ require ''app_id'' (case aid of None \<Rightarrow> True | Some i \<Rightarrow> 0 < i)
              @ errors_of (normalize_app_slug slug)
              @ errors_of (normalize_owner_aliases aliases))
       \<lparr>kind = k, login = projr (validate_login ''review actor'' raw_login), user_id = uid,
        app_id = aid, app_slug = projr (normalize_app_slug slug),
        owner_aliases = projr (normalize_owner_aliases aliases), direct_owner_eligible = direct\<rparr>
       validate_kind_fields"

record pull_request_author =
  pa_login :: string
  pa_user_id :: int
  pa_owner_aliases :: "string set"
  pa_direct_owner_eligible :: bool

definition make_pull_request_author ::
  "string \<Rightarrow> int \<Rightarrow> string list \<Rightarrow> bool \<Rightarrow> pull_request_author validated" where
  "make_pull_request_author raw_login uid aliases direct =
     build (errors_of (validate_login ''pull request author'' raw_login)
              @ require ''user_id'' (0 < uid) @ errors_of (normalize_owner_aliases aliases))
       \<lparr>pa_login = projr (validate_login ''pull request author'' raw_login), pa_user_id = uid,
        pa_owner_aliases = projr (normalize_owner_aliases aliases),
        pa_direct_owner_eligible = direct\<rparr>
       Inr"

datatype review_state = APPROVED | CHANGES_REQUESTED | COMMENTED | DISMISSED | PENDING

datatype datetime = Naive int | Aware int

record pull_request_review =
  review_id :: int
  actor :: review_actor
  state :: review_state
  commit_sha :: "string option"
  submitted_at :: int

definition validate_commit_sha :: "string option \<Rightarrow> string + string option" where
  "validate_commit_sha value = (case value of None \<Rightarrow> Inr None
     | Some v \<Rightarrow> (let sha = lower (strip v) in
         if sha = [] then Inl ''review commit_sha must not be blank'' else Inr (Some sha)))"

definition require_timezone :: "datetime \<Rightarrow> string + int" where
  "require_timezone value = (case value of
       Naive _ \<Rightarrow> Inl ''submitted_at must include a timezone'' | Aware t \<Rightarrow> Inr t)"

definition make_pull_request_review ::
  "int \<Rightarrow> review_actor \<Rightarrow> review_state \<Rightarrow> string option \<Rightarrow> datetime
     \<Rightarrow> pull_request_review validated" where
  "make_pull_request_review rid act st sha submitted =
     build (require ''review_id'' (0 < rid) @ errors_of (validate_commit_sha sha)
              @ errors_of (require_timezone submitted))
       \<lparr>review_id = rid, actor = act, state = st, commit_sha = projr (validate_commit_sha sha),
        submitted_at = projr (require_timezone submitted)\<rparr>
       Inr"

section \<open>Options and evaluation input\<close>

record evaluation_options =
  exact_head_reviews :: bool
  allow_insecure_changes :: bool
  repository_policy_path :: string

definition default_options :: evaluation_options where
  "default_options = \<lparr>exact_head_reviews = True, allow_insecure_changes = False,
     repository_policy_path = ''.github/extra-codeowners.toml''\<rparr>"

definition validate_repository_policy_path :: "string \<Rightarrow> string + string" where
  "validate_repository_policy_path value =
     (let path = strip value in
      if path = [] \<or> startswith ''/'' path \<or> backslash \<in> set path
         \<or> list_ex bad_segment (split_on (CHR ''/'') path)
         \<or> list_ex (\<lambda>c. c \<in> set ''*?[]!'') path
      then Inl ''repository_policy_path must be a literal relative POSIX path''
      else Inr path)"

record evaluation_input =
  head_sha :: string
  codeowners_text :: string
  changed_files :: "changed_file list"
  reviews :: "pull_request_review list"
  author :: "pull_request_author option"
  labels :: "string set"
  organization_policy_of :: organization_policy
  repository_policy_of :: repository_policy
  options :: evaluation_options

definition validate_head_sha_text :: "string \<Rightarrow> string + string" where
  "validate_head_sha_text value =
     (let sha = lower (strip value) in
      if sha = [] then Inl ''head_sha must not be empty'' else Inr sha)"

definition make_evaluation_input ::
  "string \<Rightarrow> string \<Rightarrow> changed_file list \<Rightarrow> pull_request_review list
     \<Rightarrow> pull_request_author option \<Rightarrow> string list \<Rightarrow> organization_policy \<Rightarrow> repository_policy
     \<Rightarrow> evaluation_options \<Rightarrow> evaluation_input validated" where
  "make_evaluation_input sha text files rvs auth raw_labels org rep opts =
     build (errors_of (validate_head_sha_text sha) @ errors_of (normalize_labels raw_labels))
       \<lparr>head_sha = projr (validate_head_sha_text sha), codeowners_text = text,
        changed_files = files, reviews = rvs, author = auth,
        labels = projr (normalize_labels raw_labels), organization_policy_of = org,
        repository_policy_of = rep, options = opts\<rparr>
       Inr"

section \<open>Results and their rendering\<close>

datatype evaluation_conclusion = SUCCESS | FAILURE

record evaluation_message =
  em_code :: string
  em_message :: string
  em_paths :: "string list"

record path_evidence =
  pe_path :: string
  pe_non_delegable :: bool
  pe_eligible_apps :: "string list"
  pe_approved_apps :: "string list"
  pe_explanation :: string

record owner_set_result =
  os_owners :: "string list"
  os_paths :: "string list"
  satisfied :: bool
  satisfied_by :: "string list"
  os_explanation :: string
  os_path_evidence :: "path_evidence list"

record evaluation_result =
  conclusion :: evaluation_conclusion
  summary :: string
  requirements :: "owner_set_result list"
  errors :: "evaluation_message list"
  warnings :: "evaluation_message list"
  unowned_paths :: "string list"

definition passed :: "evaluation_result \<Rightarrow> bool" where
  "passed r \<longleftrightarrow> conclusion r = SUCCESS"

definition message_line :: "evaluation_message \<Rightarrow> string" where
  "message_line item =
     ''- '' @ markdown_code (em_code item) @ '': '' @ markdown_text (em_message item)"

definition requirement_lines :: "string \<Rightarrow> string \<Rightarrow> owner_set_result \<Rightarrow> string list" where
  "requirement_lines ok_mark fail_mark rq =
     (''- '' @ (if satisfied rq then ok_mark else fail_mark) @ '' ''
        @ py_join '', '' (map markdown_code (os_owners rq)) @ '': ''
        @ markdown_text (os_explanation rq))
     # map (\<lambda>ev. ''  - '' @ markdown_code (pe_path ev) @ '': '' @ markdown_text (pe_explanation ev))
         (os_path_evidence rq)"

definition check_lines :: "string \<Rightarrow> string \<Rightarrow> evaluation_result \<Rightarrow> string list" where
  "check_lines ok_mark fail_mark r =
     [markdown_text (summary r)]
     @ (if errors r = [] then [] else [[], ''### Errors''] @ map message_line (errors r))
     @ (if warnings r = [] then [] else [[], ''### Warnings''] @ map message_line (warnings r))
     @ (if requirements r = [] then []
        else [[], ''### CODEOWNER requirements'']
          @ concat (map (requirement_lines ok_mark fail_mark) (requirements r)))
     @ (if unowned_paths r = [] then []
        else [[], ''### Unowned paths'']
          @ map (\<lambda>p. ''- '' @ markdown_code p) (unowned_paths r))"

definition check_output :: "string \<Rightarrow> string \<Rightarrow> evaluation_result \<Rightarrow> string" where
  "check_output ok_mark fail_mark r = py_join [newline] (check_lines ok_mark fail_mark r)"

end
