(* ===== verification/Model_Facts.thy ===== *)
theory Model_Facts
  imports Evidence
begin

text \<open>
  What the constructors of \<open>models.py\<close> guarantee: the normalisers are idempotent and
  reject what they must, a validated policy satisfies the bounds and the uniqueness the
  evaluator relies on, and no text a pull request controls can add a line to, or open an
  HTML tag in, the rendered Check Run output.
\<close>

section \<open>Owners and paths\<close>

lemma lower_owner_char: "owner_name_char c \<Longrightarrow> lower_char c = c \<Longrightarrow> \<not> is_upper_ascii c"
proof
  assume "lower_char c = c" and u: "is_upper_ascii c"
  then have "of_char (char_of (code c + 32) :: char) = code c"
    by (simp add: lower_char_def is_upper_ascii_def)
  moreover have "code c + 32 < 256" using u by (simp add: is_upper_ascii_def)
  ultimately show False by simp
qed

lemma owner_re_ends:
  assumes "owner_re s"
  shows "s \<noteq> []" and "hd s = CHR ''@''" and "strip s = s"
proof -
  from assms obtain r where s: "s = CHR ''@'' # r"
    and seg: "list_all owner_name (split_on (CHR ''/'') r)"
    by (auto simp: owner_re_def split: list.splits)
  have j: "py_join [CHR ''/''] (split_on (CHR ''/'') r) = r" by (rule join_split_on)
  have chars: "\<forall>c \<in> set r. owner_name_char c \<or> c = CHR ''/''"
  proof -
    have "\<forall>c \<in> set (py_join [CHR ''/''] ls). owner_name_char c \<or> c = CHR ''/''"
      if "list_all owner_name ls" for ls
      using that
      by (induction ls rule: induct_list012) (auto simp: owner_name_def list_all_iff)
    from this [OF seg] j show ?thesis by simp
  qed
  have nospace: "\<not> is_space c" if "owner_name_char c \<or> c = CHR ''/'' \<or> c = CHR ''@''" for c
    using that
    by (auto simp: owner_name_char_def is_alnum_lower_def is_lower_ascii_def is_digit_def
        is_upper_ascii_def is_space_def Let_def)
  show "s \<noteq> []" and "hd s = CHR ''@''" using s by simp_all
  have "\<forall>c \<in> set s. \<not> is_space c" using s chars nospace by auto
  then have "\<not> is_space (last s)" and "\<not> is_space (hd s)" using s by auto
  then show "strip s = s" by (simp add: strip_id_iff)
qed

lemma normalize_owner_Inr:
  "normalize_owner v = Inr w \<longleftrightarrow> w = lower (strip v) \<and> owner_re w"
  by (auto simp: normalize_owner_def Let_def dest: owner_re_ends)
    (auto simp: owner_re_def split: list.splits)

lemma normalize_owner_fixed:
  "normalize_owner v = Inr w \<Longrightarrow> normalize_owner w = Inr w"
  using owner_re_ends(3) by (auto simp: normalize_owner_Inr)

lemma normalize_owner_head: "normalize_owner v = Inr w \<Longrightarrow> \<exists>r. w = CHR ''@'' # r"
  using owner_re_ends(1,2) by (fastforce simp: normalize_owner_Inr neq_Nil_conv)

definition valid_path :: "string \<Rightarrow> bool" where
  "valid_path p \<longleftrightarrow> p \<noteq> [] \<and> strip p = p \<and> \<not> startswith ''/'' p \<and> backslash \<notin> set p \<and>
     \<not> list_ex bad_segment (split_on (CHR ''/'') p)"

lemma normalize_repository_path_Inr:
  "normalize_repository_path v = Inr p \<longleftrightarrow> p = v \<and> valid_path v"
  by (auto simp: normalize_repository_path_def valid_path_def Let_def)

lemma valid_path_normalize [simp]: "valid_path p \<Longrightarrow> normalize_repository_path p = Inr p"
  by (simp add: normalize_repository_path_Inr)

lemma normalize_repository_path_cases:
  "(normalize_repository_path v = Inr v \<and> valid_path v) \<or>
   (\<exists>m. normalize_repository_path v = Inl m \<and> \<not> valid_path v)"
  by (cases "normalize_repository_path v") (auto simp: normalize_repository_path_Inr)

section \<open>Validated policies\<close>

lemma normalize_app_aliases_keys:
  assumes "normalize_app_aliases d raw = Inr d'" and "dict_ok d"
    and "\<forall>k \<in> fst ` set d. app_alias_re k"
  shows "dict_ok d' \<and> (\<forall>k \<in> fst ` set d'. app_alias_re k) \<and> map snd d' = map snd d @ map snd raw"
  using assms
proof (induction d raw rule: normalize_app_aliases.induct)
  case (2 d raw_alias app rest)
  let ?a = "lower (strip raw_alias)"
  from "2.prems"(1) have a: "app_alias_re ?a" "?a \<notin> fst ` set d"
    and r: "normalize_app_aliases (d @ [(?a, app)]) rest = Inr d'"
    by (auto simp: Let_def split: if_splits)
  have "dict_ok (d @ [(?a, app)])" using "2.prems"(2) a(2) by (auto simp: dict_ok_def)
  with 2 a r show ?case by fastforce
qed simp

lemma identities_are_unique_None:
  "identities_are_unique A B C ps = None \<longleftrightarrow>
     distinct (map (ea_app_id \<circ> snd) ps) \<and> set (map (ea_app_id \<circ> snd) ps) \<inter> A = {} \<and>
     distinct (map (ea_bot_user_id \<circ> snd) ps) \<and> set (map (ea_bot_user_id \<circ> snd) ps) \<inter> B = {} \<and>
     distinct (map (ea_slug \<circ> snd) ps) \<and> set (map (ea_slug \<circ> snd) ps) \<inter> C = {}"
  by (induction A B C ps rule: identities_are_unique.induct) auto

definition valid_organization_policy :: "organization_policy \<Rightarrow> bool" where
  "valid_organization_policy p \<longleftrightarrow>
     dict_ok (apps p) \<and> length (apps p) \<le> 50 \<and>
     (\<forall>k \<in> fst ` set (apps p). app_alias_re k) \<and>
     distinct (map (ea_app_id \<circ> snd) (apps p)) \<and>
     distinct (map (ea_bot_user_id \<circ> snd) (apps p)) \<and>
     distinct (map (ea_slug \<circ> snd) (apps p))"

text \<open>A constructed organization policy binds every alias to one application, and no two
  aliases share a GitHub App id, a bot user id or a slug: an application review can be
  recognised as at most one enrolled alias.\<close>

theorem organization_policy_identities_unique:
  assumes "make_organization_policy v raw g = Inr p"
  shows "valid_organization_policy p \<and> map snd (apps p) = map snd raw \<and> guardrails_of p = g"
proof -
  from assms obtain d where d: "normalize_app_aliases [] raw = Inr d" and l: "length raw \<le> 50"
    and u: "identities_are_unique {} {} {} d = None" and p: "apps p = d" "guardrails_of p = g"
    by (auto simp: make_organization_policy_def build_Inr split: option.splits)
  from normalize_app_aliases_keys [OF d]
  have k: "dict_ok d" "\<forall>k \<in> fst ` set d. app_alias_re k" "map snd d = map snd raw" by simp_all
  from k(3) have "length d = length raw" by (metis length_map)
  with k l u p show ?thesis
    by (auto simp: valid_organization_policy_def identities_are_unique_None)
qed

theorem organization_policy_identities_unique_witness:
  "\<exists>p. make_organization_policy 1 [('' Bot '', \<lparr>ea_slug = ''bot'', ea_app_id = 7, ea_bot_user_id = 9\<rparr>)]
      \<lparr>non_delegable_paths = []\<rparr> = Inr p \<and> valid_organization_policy p"
proof -
  let ?raw = "[('' Bot '', \<lparr>ea_slug = ''bot'', ea_app_id = 7, ea_bot_user_id = 9\<rparr>)]"
  let ?g = "\<lparr>non_delegable_paths = []\<rparr>"
  have "\<not> isl (make_organization_policy 1 ?raw ?g)" by code_simp
  then obtain p where p: "make_organization_policy 1 ?raw ?g = Inr p" using not_isl_Inr by blast
  from organization_policy_identities_unique [OF p] p show ?thesis by blast
qed

definition valid_delegation :: "delegation \<Rightarrow> bool" where
  "valid_delegation d \<longleftrightarrow>
     app_alias_re (dg_app d) \<and>
     dg_paths d \<noteq> [] \<and> length (dg_paths d) \<le> 100 \<and>
     (\<forall>p \<in> set (dg_paths d). p \<noteq> [] \<and> strip p = p \<and> backslash \<notin> set p) \<and>
     for_owners d \<noteq> [] \<and> length (for_owners d) \<le> 100 \<and> distinct (for_owners d) \<and>
     (for_owners d = [''*''] \<or> (\<forall>w \<in> set (for_owners d). owner_re w)) \<and>
     required_labels d \<inter> forbidden_labels d = {} \<and>
     finite (required_labels d) \<and> finite (forbidden_labels d)"

lemma normalize_pattern_Inr:
  "normalize_pattern v = Inr p \<longleftrightarrow> p = strip v \<and> p \<noteq> [] \<and> backslash \<notin> set p"
  by (auto simp: normalize_pattern_def Let_def)

lemma normalize_labels_finite: "normalize_labels xs = Inr S \<Longrightarrow> finite S"
  by (auto simp: normalize_labels_def)

lemma normalize_for_owners_elem:
  assumes "normalize_for_owners raw = Inr os" and "w \<in> set os"
  shows "w = ''*'' \<or> owner_re w"
proof -
  from mapM_result_set [OF assms(1) [unfolded normalize_for_owners_def] assms(2)]
  show ?thesis by (auto simp: Let_def normalize_owner_Inr split: if_splits)
qed

lemma remdups_length_distinct: "length (remdups xs) = length xs \<longleftrightarrow> distinct xs"
  by (metis length_remdups_card_conv card_distinct distinct_card)

text \<open>A constructed delegation is usable as it stands: a valid alias, between 1 and 100
  stripped non-empty path patterns, between 1 and 100 distinct owners which are either the
  lone wildcard or canonical identities, and disjoint required and forbidden label sets.\<close>

theorem delegation_well_formed:
  assumes "make_delegation app paths owners required forbidden = Inr d"
  shows "valid_delegation d"
proof -
  from assms obtain ps os rs fs where
    a: "normalize_app app = Inr (dg_app d)"
    and ps: "validate_paths paths = Inr ps" "paths \<noteq> []" "length paths \<le> 100" "dg_paths d = ps"
    and os: "normalize_for_owners owners = Inr os" "validate_for_owners os = Inr (for_owners d)"
      "length os \<le> 100"
    and ls: "normalize_labels required = Inr (required_labels d)"
      "normalize_labels forbidden = Inr (forbidden_labels d)"
    and ov: "required_labels d \<inter> forbidden_labels d = {}"
    by (auto simp: make_delegation_def Let_def build_Inr label_sets_do_not_overlap_def
        split: if_splits sum.splits)
  have "app_alias_re (dg_app d)" using a by (auto simp: normalize_app_def Let_def split: if_splits)
  moreover have m: "mapM_result normalize_pattern paths = Inr ps"
    using ps(1,2) by (simp add: validate_paths_def)
  have "\<forall>p \<in> set ps. p \<noteq> [] \<and> strip p = p \<and> backslash \<notin> set p"
    using mapM_result_set [OF m] unfolding normalize_pattern_Inr by (metis strip_strip)
  moreover have "length ps = length paths" by (rule mapM_result_length [OF m])
  moreover have fo: "for_owners d = os" "os \<noteq> []" "distinct os"
      "''*'' \<in> set os \<Longrightarrow> length os = 1"
    using os(2) remdups_length_distinct [of os]
    by (auto simp: validate_for_owners_def split: if_splits)
  moreover have "os = [''*''] \<or> (\<forall>w \<in> set os. owner_re w)"
  proof (cases "''*'' \<in> set os")
    case True
    with fo(4) show ?thesis by (cases os) auto
  qed (use normalize_for_owners_elem [OF os(1)] in blast)
  ultimately show ?thesis
    using ps os(3) ov ls [THEN normalize_labels_finite] by (auto simp: valid_delegation_def)
qed

theorem delegation_well_formed_witness:
  "\<exists>d. make_delegation ''Bot'' ['' /uv.lock ''] [''@Org/Team''] [''Auto''] [''hold''] = Inr d \<and>
     valid_delegation d"
proof -
  have "\<not> isl (make_delegation ''Bot'' ['' /uv.lock ''] [''@Org/Team''] [''Auto''] [''hold''])"
    by code_simp
  then obtain d where
    d: "make_delegation ''Bot'' ['' /uv.lock ''] [''@Org/Team''] [''Auto''] [''hold''] = Inr d"
    using not_isl_Inr by blast
  from delegation_well_formed [OF d] d show ?thesis by blast
qed

lemma make_repository_policy_bound:
  "make_repository_policy v e a f ds = Inr p \<Longrightarrow>
     length (delegations p) \<le> 100 \<and> sum_list (map (\<lambda>d. length (dg_paths d)) (delegations p)) \<le> 1000"
  by (auto simp: make_repository_policy_def build_Inr delegation_complexity_is_bounded_def
      split: if_splits)

lemma make_changed_file_Inr:
  "make_changed_file p s prev = Inr f \<longleftrightarrow>
     f = \<lparr>cf_path = p, cf_status = s, previous_path = prev\<rparr> \<and> valid_path p \<and>
     (case prev of None \<Rightarrow> s \<noteq> RENAMED | Some q \<Rightarrow> valid_path q \<and> s = RENAMED \<and> q \<noteq> p)"
  by (auto simp: make_changed_file_def build_Inr normalize_repository_path_Inr
      normalize_optional_path_def rename_has_previous_path_def split: option.splits if_splits)

section \<open>Rendering cannot be forged\<close>

lemma hex_char_no_control: "n < 16 \<Longrightarrow> \<not> is_control (hex_char True n)"
  by (auto simp: hex_char_def is_control_def Let_def)

lemma visible_char_no_control: "list_all (\<lambda>c. \<not> is_control c) (visible_char d)"
proof (cases "is_control d")
  case True
  have "list_all (\<lambda>c. \<not> is_control c) (hex4 n)" for n
    by (simp add: hex4_def hex_char_no_control)
  moreover have "list_all (\<lambda>c. \<not> is_control c) ([backslash] @ ''nrt<U+>'')" by code_simp
  ultimately show ?thesis using True by (simp add: visible_char_def)
next
  case False
  moreover have "list_all (\<lambda>c. \<not> is_control c) ([backslash] @ ''nrt<U+>'')" by code_simp
  ultimately show ?thesis by (simp add: visible_char_def)
qed

lemma visible_text_no_control: "c \<in> set (visible_text v) \<Longrightarrow> \<not> is_control c"
  using visible_char_no_control by (fastforce simp: visible_text_def list_all_iff)

lemma control_newline [simp]: "is_control newline"
  by (simp add: is_control_def)

lemma markdown_text_no_newline [simp]: "newline \<notin> set (markdown_text v)"
  using visible_text_no_control [of newline v] by (auto simp: markdown_text_def)

lemma html_escape_set: "c \<in> set (html_escape s) \<Longrightarrow>
    c \<in> set s \<and> c \<notin> {CHR ''&'', CHR ''<'', CHR ''>'', dquote, squote} \<or>
    c \<in> set ''&;#abcdefghijklmnopqrstuvwxyz0123456789''"
  by (auto simp: html_escape_def html_escape_char_def split: if_splits)

lemma html_escape_no_markup:
  "c \<in> {CHR ''<'', CHR ''>'', dquote, squote} \<Longrightarrow> c \<notin> set (html_escape s)"
  by (auto simp: html_escape_def html_escape_char_def split: if_splits)

lemma newline_html_escape: "newline \<in> set (html_escape s) \<longleftrightarrow> newline \<in> set s"
  by (auto simp: html_escape_def html_escape_char_def split: if_splits)

lemma markdown_code_no_newline [simp]: "newline \<notin> set (markdown_code v)"
  using visible_text_no_control [of newline v] by (auto simp: markdown_code_def newline_html_escape)

lemma newline_py_join:
  "newline \<notin> set sep \<Longrightarrow> \<forall>x \<in> set xs. newline \<notin> set x \<Longrightarrow> newline \<notin> set (py_join sep xs)"
  by (induction sep xs rule: py_join.induct) auto

lemma check_lines_no_newline:
  assumes "newline \<notin> set ok_mark" and "newline \<notin> set fail_mark"
    and "l \<in> set (check_lines ok_mark fail_mark r)"
  shows "newline \<notin> set l"
proof -
  have rq: "newline \<notin> set x" if "x \<in> set (requirement_lines ok_mark fail_mark q)" for q x
    using that assms(1,2) newline_py_join [of "'', ''" "map markdown_code (os_owners q)"]
    by (cases "satisfied q") (auto simp: requirement_lines_def)
  show ?thesis
    using assms(3) rq by (auto simp: check_lines_def message_line_def split: if_splits)
qed

text \<open>C21. Untrusted text cannot forge the layout of the Check Run body: whatever the summary,
  messages, owners, paths and explanations hold, splitting the rendered text at line feeds
  gives back exactly the lines the renderer composed, and text rendered as code contains no
  angle bracket or quote of its own.\<close>

theorem check_output_layout_unforgeable:
  assumes "newline \<notin> set ok_mark" and "newline \<notin> set fail_mark"
  shows "split_on newline (check_output ok_mark fail_mark r) = check_lines ok_mark fail_mark r
    \<and> (\<forall>v. \<exists>t. markdown_code v = ''<code>'' @ t @ ''</code>'' \<and>
         (\<forall>c \<in> set t. c \<notin> {CHR ''<'', CHR ''>'', dquote, squote} \<and> \<not> is_control c))"
proof -
  have "check_lines ok_mark fail_mark r \<noteq> []" by (simp add: check_lines_def)
  then have 1: "split_on newline (check_output ok_mark fail_mark r) = check_lines ok_mark fail_mark r"
    using check_lines_no_newline [OF assms] unfolding check_output_def
    by (intro split_on_join) auto
  have "\<not> is_control c" if "c \<in> set (html_escape (visible_text v))" for c v
  proof -
    have "\<forall>x \<in> set ''&;#abcdefghijklmnopqrstuvwxyz0123456789''. \<not> is_control x" by code_simp
    with html_escape_set [OF that] visible_text_no_control show ?thesis by blast
  qed
  then have 2: "\<forall>c \<in> set (html_escape (visible_text v)).
      c \<notin> {CHR ''<'', CHR ''>'', dquote, squote} \<and> \<not> is_control c" for v
    using html_escape_no_markup by blast
  show ?thesis using 1 2 unfolding markdown_code_def by blast
qed

theorem check_output_layout_unforgeable_witness:
  "split_on newline (check_output ''ok'' ''no''
      \<lparr>conclusion = SUCCESS, summary = ''a'' @ [newline] @ ''b'', requirements = [], errors = [],
       warnings = [], unowned_paths = [''x'' @ [newline] @ ''<b>'']\<rparr>) =
   check_lines ''ok'' ''no''
      \<lparr>conclusion = SUCCESS, summary = ''a'' @ [newline] @ ''b'', requirements = [], errors = [],
       warnings = [], unowned_paths = [''x'' @ [newline] @ ''<b>'']\<rparr>"
  using check_output_layout_unforgeable [of "''ok''" "''no''"
      "\<lparr>conclusion = SUCCESS, summary = ''a'' @ [newline] @ ''b'', requirements = [], errors = [],
       warnings = [], unowned_paths = [''x'' @ [newline] @ ''<b>'']\<rparr>"] by simp

end
