(* ===== verification/Codeowners.thy ===== *)
theory Codeowners
  imports Model_Facts
begin

text \<open>
  \<open>extra_codeowners/codeowners.py\<close>: validation and compilation of CODEOWNERS patterns,
  the line tokenizer, the strict parser that reports every malformed line, and the
  last-match-wins document. A \<open>ValueError\<close> is \<open>Inl\<close> of its message, a
  \<open>CodeownersParseError\<close> is \<open>Inl\<close> of its issues.
\<close>

definition MAX_CODEOWNERS_BYTES :: int where
  "MAX_CODEOWNERS_BYTES = 3 * 1024 * 1024"

record codeowners_issue =
  ci_code :: string
  ci_message :: string
  ci_line_number :: "nat option"

definition render_issue :: "codeowners_issue \<Rightarrow> string" where
  "render_issue i = (case ci_line_number i of None \<Rightarrow> []
     | Some n \<Rightarrow> ''line '' @ show_nat n @ '': '') @ ci_message i"

section \<open>Patterns\<close>

definition validate_pattern :: "string \<Rightarrow> string + string" where
  "validate_pattern pattern =
     (let value = strip pattern in
      if value = [] then Inl ''pattern must not be empty''
      else if startswith ''!'' value
      then Inl ''negated patterns ('!') are not supported by GitHub CODEOWNERS''
      else if CHR ''['' \<in> set value \<or> CHR '']'' \<in> set value
      then Inl ''character ranges ('[...]') are not supported by GitHub CODEOWNERS''
      else if backslash \<in> set value
      then Inl ''backslash escapes are not supported; use a POSIX path pattern''
      else if startswith ''#'' value
      then Inl (''a CODEOWNERS pattern cannot begin with '' @ [squote, CHR ''#'', squote])
      else
        (let without_anchor = removeprefix ''/'' value in
         if without_anchor = [] then Inl ''root-only '/' is not a file pattern''
         else if list_ex bad_segment (split_on (CHR ''/'') (rstrip_char (CHR ''/'') without_anchor))
         then Inl ''pattern must not contain empty, '.' or '..' path segments''
         else Inr value))"

definition skip_stars :: "string \<Rightarrow> string" where
  "skip_stars s = dropWhile (\<lambda>c. c = CHR ''*'') s"

lemma length_skip_stars: "length (skip_stars s) < Suc (length s)"
  using length_dropWhile_le [of "\<lambda>c. c = CHR ''*''" s] by (simp add: skip_stars_def)

lemma length_tl_skip_stars: "length (skip_stars s) - Suc 0 < Suc (length s)"
  using length_skip_stars [of s] by simp

text \<open>The translation loop over the characters of a pattern: two or more stars followed by a
  slash are \<open>(?:.*/)?\<close>, otherwise \<open>.*\<close>; a single star and a question mark stay inside one
  path segment.\<close>

function (sequential) translate :: "string \<Rightarrow> rx_tok list" where
  "translate [] = []"
| "translate (c # s) =
     (if c = CHR ''*'' then
        (if startswith ''*'' s then
           (if startswith ''/'' (skip_stars s) then OptDirs # translate (tl (skip_stars s))
            else AnyStar # translate (skip_stars s))
         else NonSlashStar # translate s)
      else if c = CHR ''?'' then NonSlash # translate s
      else Lit c # translate s)"
  by pat_completeness auto
termination
  by (relation "measure length") (auto simp: length_skip_stars length_tl_skip_stars)

definition is_anchored :: "string \<Rightarrow> bool" where
  "is_anchored value \<longleftrightarrow> startswith ''/'' value \<or> CHR ''/'' \<in> set (rstrip_char (CHR ''/'') value)"

definition pattern_regex :: "string \<Rightarrow> string + rx_tok list" where
  "pattern_regex pattern = bind_result (validate_pattern pattern) (\<lambda>value0.
     let anchored = is_anchored value0;
         value = removeprefix ''/'' value0;
         final_segment = last (split_on (CHR ''/'') (rstrip_char (CHR ''/'') value));
         literal_directory_candidate = (CHR ''*'' \<notin> set final_segment \<and> CHR ''?'' \<notin> set final_segment);
         value = (if endswith ''/'' value then value @ ''**'' else value)
     in Inr ((if anchored then [] else [OptDirs]) @ translate value
             @ (if literal_directory_candidate then [OptTail] else [])))"

definition compile_pattern :: "string \<Rightarrow> string + rx_tok list" where
  "compile_pattern pattern = pattern_regex pattern"

definition matches_pattern :: "string \<Rightarrow> string \<Rightarrow> string + bool" where
  "matches_pattern pattern path = bind_result (normalize_repository_path path) (\<lambda>p.
     bind_result (pattern_regex pattern) (\<lambda>rx. Inr (fullmatch rx p)))"

section \<open>Rules and documents\<close>

record codeowners_rule =
  cr_pattern :: string
  cr_owners :: "string list"
  cr_line_number :: nat

text \<open>\<open>CodeownersRule._regex\<close> is computed once from the pattern; a rule is only built from a
  pattern that validated, so the compilation succeeds (\<open>parse_rule_valid\<close>).\<close>

definition rule_regex :: "codeowners_rule \<Rightarrow> rx_tok list" where
  "rule_regex r = projr (pattern_regex (cr_pattern r))"

definition matches_normalized :: "codeowners_rule \<Rightarrow> string \<Rightarrow> bool" where
  "matches_normalized r path \<longleftrightarrow> fullmatch (rule_regex r) path"

definition rule_matches :: "codeowners_rule \<Rightarrow> string \<Rightarrow> string + bool" where
  "rule_matches r path = bind_result (normalize_repository_path path)
     (\<lambda>p. Inr (fullmatch (rule_regex r) p))"

definition rule_for :: "codeowners_rule list \<Rightarrow> string \<Rightarrow> string + codeowners_rule option" where
  "rule_for rules path = bind_result (normalize_repository_path path)
     (\<lambda>p. Inr (last_match (\<lambda>r. matches_normalized r p) rules))"

definition owners_for :: "codeowners_rule list \<Rightarrow> string \<Rightarrow> string + string list" where
  "owners_for rules path = bind_result (rule_for rules path)
     (\<lambda>r. Inr (case r of None \<Rightarrow> [] | Some rule \<Rightarrow> cr_owners rule))"

section \<open>Tokenizer and parser\<close>

text \<open>The loop of \<open>_split_line\<close> over (tokens, current token, rest of the line).\<close>

fun split_line_from :: "string list \<Rightarrow> string \<Rightarrow> string \<Rightarrow> string list" where
  "split_line_from tokens current [] = (if current = [] then tokens else tokens @ [current])"
| "split_line_from tokens current [c] =
     (if is_space c
      then split_line_from (if current = [] then tokens else tokens @ [current]) [] []
      else split_line_from tokens (current @ [c]) [])"
| "split_line_from tokens current (c # d # s) =
     (if c = backslash \<and> is_space d then split_line_from tokens (current @ [d]) s
      else if is_space c
      then split_line_from (if current = [] then tokens else tokens @ [current]) [] (d # s)
      else split_line_from tokens (current @ [c]) (d # s))"

definition split_line :: "string \<Rightarrow> string list" where
  "split_line line = split_line_from [] [] line"

text \<open>The tokens of one raw line before the first comment token; empty for a blank line, a
  comment line and a line whose first token starts a comment.\<close>

definition line_tokens :: "string \<Rightarrow> string list" where
  "line_tokens raw_line =
     (let stripped = strip raw_line in
      if stripped = [] \<or> startswith ''#'' stripped then []
      else takeWhile (\<lambda>t. \<not> startswith ''#'' t) (split_line stripped))"

definition owner_issue :: "nat \<Rightarrow> string \<Rightarrow> codeowners_issue" where
  "owner_issue n m =
     \<lparr>ci_code = (if contains ''email CODEOWNER'' m then ''email_owner_unsupported'' else ''invalid_owner''),
      ci_message = m, ci_line_number = Some n\<rparr>"

fun parse_owners :: "nat \<Rightarrow> string list \<Rightarrow> string list \<times> codeowners_issue list" where
  "parse_owners n [] = ([], [])"
| "parse_owners n (raw_owner # rest) =
     (case normalize_owner raw_owner of
        Inl m \<Rightarrow> (case parse_owners n rest of (os, is) \<Rightarrow> (os, owner_issue n m # is))
      | Inr ow \<Rightarrow> (case parse_owners n rest of (os, is) \<Rightarrow> (ow # os, is)))"

text \<open>One iteration of the parser's loop: the issues and the rules the line adds.\<close>

definition parse_line :: "nat \<Rightarrow> string \<Rightarrow> codeowners_issue list \<times> codeowners_rule list" where
  "parse_line n raw_line =
     (case line_tokens raw_line of
        [] \<Rightarrow> ([], [])
      | pattern0 # raw_owners \<Rightarrow>
          (case validate_pattern pattern0 of
             Inl m \<Rightarrow> ([\<lparr>ci_code = ''invalid_pattern'', ci_message = m, ci_line_number = Some n\<rparr>], [])
           | Inr pattern \<Rightarrow>
               (case parse_owners n raw_owners of (owners, issues) \<Rightarrow>
                  if issues \<noteq> [] then (issues, [])
                  else ([], [\<lparr>cr_pattern = pattern, cr_owners = fromkeys owners, cr_line_number = n\<rparr>]))))"

fun parse_lines :: "nat \<Rightarrow> string list \<Rightarrow> codeowners_issue list \<times> codeowners_rule list" where
  "parse_lines n [] = ([], [])"
| "parse_lines n (l # ls) =
     (case parse_line n l of (is, rs) \<Rightarrow>
        (case parse_lines (Suc n) ls of (is', rs') \<Rightarrow> (is @ is', rs @ rs')))"

definition parse_codeowners :: "string \<Rightarrow> codeowners_issue list + codeowners_rule list" where
  "parse_codeowners content =
     (let size = int (utf8_length content) in
      if MAX_CODEOWNERS_BYTES < size
      then Inl [\<lparr>ci_code = ''codeowners_too_large'',
                 ci_message = ''CODEOWNERS is '' @ show_int size @
                   '' bytes; GitHub ignores files larger than '' @
                   show_int MAX_CODEOWNERS_BYTES @ '' bytes'',
                 ci_line_number = None\<rparr>]
      else (case parse_lines 1 (splitlines content) of (issues, rules) \<Rightarrow>
              if issues \<noteq> [] then Inl issues else Inr rules))"

end
