(* ===== verification/Codeowners_Facts.thy ===== *)
theory Codeowners_Facts
  imports Codeowners
begin

text \<open>
  Facts about CODEOWNERS: what a literal pattern matches, last match wins, and the parser
  fails closed. The catch-all pattern and recursive directory patterns do not see through
  a line feed in a file name; the last section states exactly what escapes them.
\<close>

section \<open>Compiled patterns\<close>

lemma validate_pattern_strip: "validate_pattern p = Inr v \<Longrightarrow> v = strip p"
  by (auto simp: validate_pattern_def Let_def split: if_splits)

lemma validate_pattern_fixed: "validate_pattern p = Inr v \<Longrightarrow> validate_pattern v = Inr v"
proof -
  assume v: "validate_pattern p = Inr v"
  have "validate_pattern (strip p) = validate_pattern p" by (simp add: validate_pattern_def)
  with v validate_pattern_strip [OF v] show ?thesis by simp
qed

lemma pattern_regex_ok: "validate_pattern p = Inr v \<Longrightarrow> \<exists>rx. pattern_regex p = Inr rx"
  by (simp add: pattern_regex_def Let_def)

lemma pattern_regex_Inl: "pattern_regex p = Inl m \<longleftrightarrow> validate_pattern p = Inl m"
  by (auto simp: pattern_regex_def bind_result_Inl Let_def)

definition literal :: "string \<Rightarrow> bool" where
  "literal s \<longleftrightarrow> CHR ''*'' \<notin> set s \<and> CHR ''?'' \<notin> set s"

lemma translate_literal: "literal s \<Longrightarrow> translate s = map Lit s"
  by (induction s) (auto simp: literal_def)

lemma translate_append_literal: "literal s \<Longrightarrow> translate (s @ t) = map Lit s @ translate t"
  by (induction s) (auto simp: literal_def)

lemma rx_lang_Lit [simp]: "rx_lang (map Lit s) = {s}"
  by (induction s) auto

text \<open>An absolute directory pattern \<open>/d/\<close> matches the paths below \<open>d\<close>, as long as no line
  feed follows.\<close>

lemma translate_stars [simp]: "translate ''**'' = [AnyStar]"
  by (simp add: skip_stars_def)

lemma rx_lang_OptTail: "rx_lang [OptTail] = insert [] {''/'' @ w |w. newline \<notin> set w}"
  by (auto simp: dot_def)

lemma AnyStar_OptTail: "rx_lang [AnyStar, OptTail] = {w. newline \<notin> set w}"
proof -
  have "rx_lang [AnyStar, OptTail] =
      {u @ v |u v. newline \<notin> set u \<and> v \<in> insert [] {''/'' @ w |w. newline \<notin> set w}}"
    unfolding rx_lang_OptTail [symmetric] by (auto simp: dot_def)
  also have "\<dots> = {w. newline \<notin> set w}"
    by (intro set_eqI iffI) (fastforce, blast intro: append_Nil2 [symmetric])
  finally show ?thesis .
qed

lemma fullmatch_directory:
  assumes "literal d"
  shows "fullmatch (translate ((d @ ''/'') @ ''**'') @ [OptTail]) path \<longleftrightarrow>
    (\<exists>w. path = d @ ''/'' @ w \<and> newline \<notin> set w)"
proof -
  have l: "literal (d @ ''/'')" using assms by (simp add: literal_def)
  have "translate ((d @ ''/'') @ ''**'') @ [OptTail] = map Lit (d @ ''/'') @ [AnyStar, OptTail]"
    unfolding translate_append_literal [OF l] translate_stars by simp
  then have "rx_lang (translate ((d @ ''/'') @ ''**'') @ [OptTail]) =
      {(d @ ''/'') @ w |w. newline \<notin> set w}"
    by (simp only: rx_lang_append [of "map Lit (d @ ''/'')"] rx_lang_Lit AnyStar_OptTail) blast
  then show ?thesis by (simp add: fullmatch_lang)
qed

lemma fullmatch_literal_tail:
  assumes "literal d"
  shows "fullmatch (translate d @ [OptTail]) path \<longleftrightarrow>
    path = d \<or> (\<exists>w. path = d @ ''/'' @ w \<and> newline \<notin> set w)"
proof -
  have "translate d @ [OptTail] = map Lit d @ [OptTail]"
    using assms by (simp add: translate_literal)
  then have "rx_lang (translate d @ [OptTail]) =
      insert d {d @ ''/'' @ w |w. newline \<notin> set w}"
    by (simp only: rx_lang_append rx_lang_Lit rx_lang_OptTail) blast
  then show ?thesis by (auto simp: fullmatch_lang)
qed

lemma rstrip_char_snoc [simp]: "rstrip_char c (s @ [c]) = rstrip_char c s"
  by (simp add: rstrip_char_def)

lemma rstrip_char_id: "s = [] \<or> last s \<noteq> c \<Longrightarrow> rstrip_char c s = s"
  by (cases s rule: rev_cases) (auto simp: rstrip_char_def)

lemma literal_split_last: "literal s \<Longrightarrow> literal (last (split_on (CHR ''/'') s))"
proof -
  assume l: "literal s"
  have "set (last (split_on (CHR ''/'') t)) \<subseteq> set t" for t
    by (induction t) (auto split: list.splits if_splits)
  with l show ?thesis by (auto simp: literal_def)
qed

lemma endswith_slash: "endswith ''/'' s \<longleftrightarrow> s \<noteq> [] \<and> last s = CHR ''/''"
  by (cases s rule: rev_cases) (auto simp: endswith_def)

text \<open>An absolute literal pattern without a trailing slash.\<close>

lemma pattern_regex_absolute:
  assumes v: "validate_pattern (CHR ''/'' # d) = Inr (CHR ''/'' # d)" and l: "literal d"
    and e: "d \<noteq> []" "last d \<noteq> CHR ''/''"
  shows "pattern_regex (CHR ''/'' # d) = Inr (translate d @ [OptTail])"
    and "pattern_regex (CHR ''/'' # d @ ''/'') = Inr (translate ((d @ ''/'') @ ''**'') @ [OptTail])
         \<or> validate_pattern (CHR ''/'' # d @ ''/'') \<noteq> Inr (CHR ''/'' # d @ ''/'')"
proof -
  have r: "rstrip_char (CHR ''/'') d = d" using e by (simp add: rstrip_char_id)
  have f: "literal (last (split_on (CHR ''/'') d))" using l by (rule literal_split_last)
  have a: "is_anchored (CHR ''/'' # s)" for s by (simp add: is_anchored_def)
  have ne: "\<not> endswith ''/'' d" using e by (simp add: endswith_slash)
  show "pattern_regex (CHR ''/'' # d) = Inr (translate d @ [OptTail])"
    using v r f a ne by (simp add: pattern_regex_def Let_def removeprefix_def literal_def)
  show "pattern_regex (CHR ''/'' # d @ ''/'') = Inr (translate ((d @ ''/'') @ ''**'') @ [OptTail])
         \<or> validate_pattern (CHR ''/'' # d @ ''/'') \<noteq> Inr (CHR ''/'' # d @ ''/'')"
    using r f a by (auto simp: pattern_regex_def Let_def removeprefix_def literal_def endswith_slash)
qed

text \<open>Literal absolute patterns mean what CODEOWNERS says: \<open>/d\<close> matches the file or
  directory \<open>d\<close> and everything below it, \<open>/d/\<close> only what lies below it, for every path
  without a line feed.\<close>

theorem absolute_literal_pattern_matches:
  assumes "validate_pattern (CHR ''/'' # d) = Inr (CHR ''/'' # d)"
    and "validate_pattern (CHR ''/'' # d @ ''/'') = Inr (CHR ''/'' # d @ ''/'')"
    and "literal d" and "d \<noteq> []" and "last d \<noteq> CHR ''/''"
    and "valid_path path" and "newline \<notin> set path"
  shows "matches_pattern (CHR ''/'' # d) path = Inr (path = d \<or> startswith (d @ ''/'') path)
    \<and> matches_pattern (CHR ''/'' # d @ ''/'') path = Inr (startswith (d @ ''/'') path)"
proof -
  note rx = pattern_regex_absolute [OF assms(1,3,4,5)]
  have s: "startswith (d @ ''/'') path \<longleftrightarrow> (\<exists>w. path = d @ ''/'' @ w \<and> newline \<notin> set w)"
    using assms(7) by (auto simp: startswith_iff)
  have "matches_pattern (CHR ''/'' # d) path = Inr (path = d \<or> startswith (d @ ''/'') path)"
    unfolding matches_pattern_def using rx(1) assms(6) s fullmatch_literal_tail [OF assms(3)]
    by simp
  moreover have "matches_pattern (CHR ''/'' # d @ ''/'') path = Inr (startswith (d @ ''/'') path)"
    unfolding matches_pattern_def using rx(2) assms(2,6) s fullmatch_directory [OF assms(3)]
    by auto
  ultimately show ?thesis by blast
qed

theorem absolute_literal_pattern_matches_witness:
  "matches_pattern ''/docs'' ''docs/a.md'' = Inr True \<and> matches_pattern ''/docs/'' ''docs/a.md'' = Inr True"
proof -
  have "validate_pattern (CHR ''/'' # ''docs'') = Inr (CHR ''/'' # ''docs'')"
    and "validate_pattern (CHR ''/'' # ''docs'' @ ''/'') = Inr (CHR ''/'' # ''docs'' @ ''/'')"
    and "literal ''docs''" and "valid_path ''docs/a.md''" by code_simp+
  from absolute_literal_pattern_matches [OF this(1,2,3) _ _ this(4)] show ?thesis by simp
qed

section \<open>Last match wins\<close>

text \<open>The owners of a path are those of the last rule whose pattern matches it: a rule that
  matches and is followed by no matching rule decides, and a path no rule matches has no
  owner.\<close>

theorem owners_last_match_wins:
  assumes "valid_path path"
  shows "owners_for rules path =
    Inr (case filter (\<lambda>r. matches_normalized r path) rules of [] \<Rightarrow> []
         | ms \<Rightarrow> cr_owners (last ms))"
proof -
  have "last_match p rules = (case filter p rules of [] \<Rightarrow> None | ms \<Rightarrow> Some (last ms))" for p
    by (induction rules rule: rev_induct) (auto split: list.splits)
  then show ?thesis
    using assms by (auto simp: owners_for_def rule_for_def split: list.splits)
qed

theorem owners_last_match_wins_witness:
  "owners_for [\<lparr>cr_pattern = ''*'', cr_owners = [''@a''], cr_line_number = 1\<rparr>,
               \<lparr>cr_pattern = ''/x'', cr_owners = [''@b''], cr_line_number = 2\<rparr>] ''x/y'' = Inr [''@b'']"
proof -
  let ?rs = "[\<lparr>cr_pattern = ''*'', cr_owners = [''@a''], cr_line_number = 1\<rparr>,
               \<lparr>cr_pattern = ''/x'', cr_owners = [''@b''], cr_line_number = 2\<rparr>]"
  have v: "valid_path ''x/y''" by code_simp
  have "filter (\<lambda>r. matches_normalized r ''x/y'') ?rs = ?rs" by code_simp
  then show ?thesis using owners_last_match_wins [OF v, of ?rs] by simp
qed

section \<open>The parser fails closed\<close>

definition line_error :: "string \<Rightarrow> bool" where
  "line_error raw_line \<longleftrightarrow> (case line_tokens raw_line of [] \<Rightarrow> False
     | p # raw_owners \<Rightarrow> isl (validate_pattern p) \<or> list_ex (\<lambda>w. isl (normalize_owner w)) raw_owners)"

definition valid_rule :: "codeowners_rule \<Rightarrow> bool" where
  "valid_rule r \<longleftrightarrow> validate_pattern (cr_pattern r) = Inr (cr_pattern r) \<and>
     distinct (cr_owners r) \<and> list_all owner_re (cr_owners r)"

lemma parse_owners_issues:
  "snd (parse_owners n raws) = [] \<longleftrightarrow> \<not> list_ex (\<lambda>w. isl (normalize_owner w)) raws"
  by (induction raws) (auto split: sum.splits prod.splits)

lemma parse_owners_valid: "list_all owner_re (fst (parse_owners n raws))"
  by (induction raws) (auto split: sum.splits prod.splits simp: normalize_owner_Inr)

lemma parse_line_issues: "fst (parse_line n l) = [] \<longleftrightarrow> \<not> line_error l"
proof (cases "line_tokens l")
  case (Cons p raws)
  then show ?thesis
    using parse_owners_issues [of n raws]
    by (auto simp: parse_line_def line_error_def split: sum.splits prod.splits)
qed (simp add: parse_line_def line_error_def)

lemma parse_line_rules:
  assumes "\<not> line_error l"
  shows "map cr_line_number (snd (parse_line n l)) = (if line_tokens l = [] then [] else [n])
    \<and> list_all valid_rule (snd (parse_line n l))"
proof (cases "line_tokens l")
  case (Cons p raws)
  with assms obtain v where v: "validate_pattern p = Inr v"
    and no: "\<not> list_ex (\<lambda>w. isl (normalize_owner w)) raws"
    by (cases "validate_pattern p") (auto simp: line_error_def)
  obtain os where os: "parse_owners n raws = (os, [])"
    using no parse_owners_issues [of n raws] by (metis prod.collapse)
  have "list_all owner_re os" using parse_owners_valid [of n raws] os by simp
  with Cons v os validate_pattern_fixed [OF v] show ?thesis
    by (simp add: parse_line_def valid_rule_def list_all_iff)
qed (simp add: parse_line_def)

lemma parse_lines_issues: "fst (parse_lines n ls) = [] \<longleftrightarrow> \<not> list_ex line_error ls"
proof (induction n ls rule: parse_lines.induct)
  case (2 n l ls)
  obtain iss rs where p: "parse_line n l = (iss, rs)" by fastforce
  obtain iss' rs' where ps: "parse_lines (Suc n) ls = (iss', rs')" by fastforce
  show ?case using "2.IH" [OF p [symmetric]] parse_line_issues [of n l] p ps by simp
qed simp

lemma parse_lines_rules:
  assumes "\<not> list_ex line_error ls"
  shows "map cr_line_number (snd (parse_lines n ls)) =
      map fst (filter (\<lambda>(_, l). line_tokens l \<noteq> []) (enumerate n ls))
    \<and> list_all valid_rule (snd (parse_lines n ls))"
  using assms
proof (induction n ls rule: parse_lines.induct)
  case (2 n l ls)
  then have l: "\<not> line_error l" and ls: "\<not> list_ex line_error ls" by simp_all
  obtain iss rs where p: "parse_line n l = (iss, rs)" by fastforce
  obtain iss' rs' where ps: "parse_lines (Suc n) ls = (iss', rs')" by fastforce
  show ?case
    using parse_line_rules [OF l, of n] "2.IH" [OF p [symmetric] ls] p ps by auto
qed simp

text \<open>C20. Parsing fails closed. It succeeds exactly when the file is within the size limit and
  no line is malformed; then every line that has tokens outside a comment contributes one
  rule, numbered by that line and in file order, with a valid pattern and distinct
  canonical owners. Otherwise at least one issue is reported, and nothing is skipped.\<close>

theorem parse_codeowners_fail_closed:
  "case parse_codeowners content of
     Inr rules \<Rightarrow> int (utf8_length content) \<le> MAX_CODEOWNERS_BYTES
       \<and> \<not> list_ex line_error (splitlines content)
       \<and> map cr_line_number rules =
           map fst (filter (\<lambda>(_, l). line_tokens l \<noteq> []) (enumerate 1 (splitlines content)))
       \<and> list_all valid_rule rules
   | Inl issues \<Rightarrow> issues \<noteq> [] \<and>
       (MAX_CODEOWNERS_BYTES < int (utf8_length content) \<or> list_ex line_error (splitlines content))"
proof -
  obtain iss rs where p: "parse_lines 1 (splitlines content) = (iss, rs)" by fastforce
  have i: "iss = [] \<longleftrightarrow> \<not> list_ex line_error (splitlines content)"
    using parse_lines_issues [of 1 "splitlines content"] p by simp
  show ?thesis
    using parse_lines_rules [of "splitlines content" 1] p i
    by (auto simp: parse_codeowners_def Let_def split: if_splits)
qed

section \<open>Line feeds in file names\<close>

lemma pattern_regex_star: "pattern_regex ''*'' = Inr [OptDirs, NonSlashStar]"
  by (simp add: pattern_regex_def validate_pattern_def strip_def lstrip_def rstrip_def is_space_def
      removeprefix_def rstrip_char_def bad_segment_def is_anchored_def endswith_def Let_def)

lemma tok_OptDirs_no_newline:
  assumes "u \<in> tok_lang OptDirs"
  shows "newline \<notin> set u"
proof -
  from assms consider "u = []" | w where "u = w @ ''/''" "\<forall>c \<in> set w. dot c" by auto
  then show ?thesis by cases (force simp: dot_def)+
qed

lemma star_misses_newline_directory:
  assumes "newline \<in> set d"
  shows "\<not> fullmatch [OptDirs, NonSlashStar] (d @ ''/'' @ f)"
proof
  assume "fullmatch [OptDirs, NonSlashStar] (d @ ''/'' @ f)"
  then obtain u v where e: "d @ ''/'' @ f = u @ v" and u: "u \<in> tok_lang OptDirs"
    and v: "CHR ''/'' \<notin> set v"
    unfolding fullmatch_lang by auto
  from e consider us where "u = d @ us" | us where "d = u @ us" "v = us @ ''/'' @ f"
    by (auto simp: append_eq_append_conv2)
  then show False
  proof cases
    case 1
    with tok_OptDirs_no_newline [OF u] assms show False by simp
  next
    case 2
    with v show False by simp
  qed
qed

text \<open>A line feed in a directory name defeats ownership: the catch-all rule \<open>*\<close> and an
  absolute directory rule \<open>/d/\<close> leave every path below such a directory unowned, although
  the path normaliser accepts the path. (In \<open>re\<close> the dot does not match a line feed.)\<close>

theorem line_feed_path_is_unowned:
  assumes "valid_path (d @ ''/'' @ f)" and "newline \<in> set d"
    and "literal e" and "e \<noteq> []" and "last e \<noteq> CHR ''/''" and "newline \<notin> set e"
    and "validate_pattern (CHR ''/'' # e) = Inr (CHR ''/'' # e)"
    and "validate_pattern (CHR ''/'' # e @ ''/'') = Inr (CHR ''/'' # e @ ''/'')"
  shows "owners_for [\<lparr>cr_pattern = ''*'', cr_owners = [w], cr_line_number = 1\<rparr>,
      \<lparr>cr_pattern = CHR ''/'' # e @ ''/'', cr_owners = [w'], cr_line_number = 2\<rparr>]
      (d @ ''/'' @ f) = Inr []"
proof -
  let ?p = "d @ ''/'' @ f"
  have 1: "\<not> matches_normalized \<lparr>cr_pattern = ''*'', cr_owners = [w], cr_line_number = 1\<rparr> ?p"
    using star_misses_newline_directory [OF assms(2)]
    by (simp add: matches_normalized_def rule_regex_def pattern_regex_star)
  have rx: "pattern_regex (CHR ''/'' # e @ ''/'') = Inr (translate ((e @ ''/'') @ ''**'') @ [OptTail])"
    using pattern_regex_absolute(2) [OF assms(7,3,4,5)] assms(8) by blast
  have "\<not> (\<exists>x. ?p = e @ ''/'' @ x \<and> newline \<notin> set x)"
  proof
    assume "\<exists>x. ?p = e @ ''/'' @ x \<and> newline \<notin> set x"
    then obtain x where x: "?p = e @ ''/'' @ x" "newline \<notin> set x" by blast
    have "newline \<in> set ?p" using assms(2) by simp
    then have "newline \<in> set (e @ ''/'' @ x)" by (simp only: x(1))
    with assms(6) x(2) show False by simp
  qed
  then have 2: "\<not> matches_normalized
      \<lparr>cr_pattern = CHR ''/'' # e @ ''/'', cr_owners = [w'], cr_line_number = 2\<rparr> ?p"
    using fullmatch_directory [OF assms(3)] rx by (simp add: matches_normalized_def rule_regex_def)
  show ?thesis
    using 1 2 assms(1) by (simp add: owners_for_def rule_for_def last_match_def)
qed

theorem line_feed_path_is_unowned_witness:
  "owners_for [\<lparr>cr_pattern = ''*'', cr_owners = [''@o/t''], cr_line_number = 1\<rparr>,
      \<lparr>cr_pattern = ''/src/'', cr_owners = [''@o/t''], cr_line_number = 2\<rparr>]
      (''src/a'' @ [newline] @ ''b/c.py'') = Inr []"
proof -
  have "valid_path ((''src/a'' @ [newline] @ ''b'') @ ''/'' @ ''c.py'')" and "literal ''src''"
    and "validate_pattern (CHR ''/'' # ''src'') = Inr (CHR ''/'' # ''src'')"
    and "validate_pattern (CHR ''/'' # ''src'' @ ''/'') = Inr (CHR ''/'' # ''src'' @ ''/'')"
    by code_simp+
  from line_feed_path_is_unowned [OF this(1) _ this(2) _ _ _ this(3,4), of "''@o/t''" "''@o/t''"]
  show ?thesis by simp
qed

end
