(* ===== verification/Policy.thy ===== *)
theory Policy
  imports Codeowners_Facts
begin

text \<open>
  \<open>extra_codeowners/policy.py\<close>: organization and repository policy compiled as one trust
  boundary, and the decision of each delegation for a path, an owner set and the labels.
\<close>

section \<open>Compiled delegations\<close>

definition BUILTIN_NON_DELEGABLE_PATHS :: "string list" where
  "BUILTIN_NON_DELEGABLE_PATHS =
     [''/CODEOWNERS'', ''/.github/CODEOWNERS'', ''/docs/CODEOWNERS'', ''/stampbot.toml'',
      ''/.github/workflows/**'', ''/.github/actions/**'']"

record policy_issue =
  pi_code :: string
  pi_message :: string

record delegation_decision =
  app_alias :: string
  eligible :: bool
  reasons :: "string list"

record compiled_delegation =
  rule :: delegation
  application :: enrolled_application

text \<open>The compiled patterns of a delegation or of a guardrail list: computed from patterns
  that \<open>compile_policy\<close> validated before, so the compilation cannot fail.\<close>

definition any_pattern_matches :: "string list \<Rightarrow> string \<Rightarrow> bool" where
  "any_pattern_matches patterns path =
     list_ex (\<lambda>p. fullmatch (projr (compile_pattern p)) path) patterns"

definition applies_to_path_and_owners ::
  "compiled_delegation \<Rightarrow> string \<Rightarrow> string set \<Rightarrow> string + bool" where
  "applies_to_path_and_owners cd path owners =
     bind_result (normalize_repository_path path) (\<lambda>normalized_path.
       let path_matches = any_pattern_matches (dg_paths (rule cd)) normalized_path;
           owner_matches = (''*'' \<in> set (for_owners (rule cd)) \<or>
                            owners \<inter> set (for_owners (rule cd)) \<noteq> {})
       in Inr (path_matches \<and> owner_matches))"

definition label_reasons :: "delegation \<Rightarrow> string set \<Rightarrow> string list" where
  "label_reasons d lbls =
     (let missing = required_labels d - lbls; forbidden = forbidden_labels d \<inter> lbls in
      (if missing \<noteq> {}
       then [''missing required labels: '' @ py_join '', '' (sorted_list_of_set missing)] else [])
      @ (if forbidden \<noteq> {}
         then [''forbidden labels present: '' @ py_join '', '' (sorted_list_of_set forbidden)] else []))"

definition decide ::
  "compiled_delegation \<Rightarrow> string \<Rightarrow> string set \<Rightarrow> string set \<Rightarrow> string + delegation_decision option" where
  "decide cd path owners lbls =
     bind_result (applies_to_path_and_owners cd path owners) (\<lambda>applies.
       if \<not> applies then Inr None
       else (let rs = label_reasons (rule cd) lbls in
             Inr (Some \<lparr>app_alias = dg_app (rule cd), eligible = (rs = []), reasons = rs\<rparr>)))"

section \<open>Compiled policy\<close>

record compiled_policy =
  repository :: repository_policy
  organization :: organization_policy
  cp_delegations :: "compiled_delegation list"
  non_delegable_patterns :: "string list"

definition is_non_delegable :: "compiled_policy \<Rightarrow> string \<Rightarrow> string + bool" where
  "is_non_delegable p path = bind_result (normalize_repository_path path)
     (\<lambda>q. Inr (any_pattern_matches (non_delegable_patterns p) q))"

text \<open>The decisions that apply, in delegation order; a path that does not normalise raises.\<close>

fun collect_decisions ::
  "compiled_delegation list \<Rightarrow> string \<Rightarrow> string set \<Rightarrow> string set \<Rightarrow> string + delegation_decision list" where
  "collect_decisions [] path owners lbls = Inr []"
| "collect_decisions (cd # cds) path owners lbls =
     bind_result (decide cd path owners lbls) (\<lambda>d.
       bind_result (collect_decisions cds path owners lbls) (\<lambda>ds.
         Inr (case d of None \<Rightarrow> ds | Some x \<Rightarrow> x # ds)))"

text \<open>\<open>by_app.setdefault(alias, []).append(decision)\<close>\<close>

definition add_by_app ::
  "delegation_decision \<Rightarrow> (string \<times> delegation_decision list) list
     \<Rightarrow> (string \<times> delegation_decision list) list" where
  "add_by_app d by_app = AList.update (app_alias d)
     ((case map_of by_app (app_alias d) of None \<Rightarrow> [] | Some ds \<Rightarrow> ds) @ [d]) by_app"

definition coalesce :: "string \<times> delegation_decision list \<Rightarrow> delegation_decision" where
  "coalesce entry = (case entry of (alias, app_decisions) \<Rightarrow>
     if list_ex eligible app_decisions
     then \<lparr>app_alias = alias, eligible = True, reasons = []\<rparr>
     else \<lparr>app_alias = alias, eligible = False,
           reasons = fromkeys (concat (map reasons app_decisions))\<rparr>)"

definition delegation_decisions ::
  "compiled_policy \<Rightarrow> string \<Rightarrow> string set \<Rightarrow> string set \<Rightarrow> string + delegation_decision list" where
  "delegation_decisions p path owners lbls =
     bind_result (collect_decisions (cp_delegations p) path owners lbls) (\<lambda>decisions.
       let by_app = fold add_by_app decisions [] in
       Inr (map coalesce (sort_key fst by_app)))"

section \<open>Compilation\<close>

definition guardrail_patterns ::
  "organization_policy \<Rightarrow> repository_policy \<Rightarrow> evaluation_options \<Rightarrow> string list" where
  "guardrail_patterns org rep runtime =
     (if allow_insecure_changes runtime then []
      else BUILTIN_NON_DELEGABLE_PATHS
        @ (if allow_delegation_for_policy_file rep then []
           else [CHR ''/'' # repository_policy_path runtime]))
     @ non_delegable_paths (guardrails_of org)"

definition guardrail_issues :: "string list \<Rightarrow> policy_issue list" where
  "guardrail_issues patterns = concat (map (\<lambda>pattern. case validate_pattern pattern of
       Inr _ \<Rightarrow> []
     | Inl e \<Rightarrow> [\<lparr>pi_code = ''invalid_non_delegable_pattern'',
         pi_message = ''invalid non-delegable path '' @ py_repr pattern @ '': '' @ e\<rparr>]) patterns)"

definition delegation_pattern_issues :: "nat \<Rightarrow> string list \<Rightarrow> policy_issue list" where
  "delegation_pattern_issues index patterns = concat (map (\<lambda>pattern. case validate_pattern pattern of
       Inr _ \<Rightarrow> []
     | Inl e \<Rightarrow> [\<lparr>pi_code = ''invalid_delegation_pattern'',
         pi_message = ''delegation '' @ show_nat index @ '' has invalid path '' @ py_repr pattern
           @ '': '' @ e\<rparr>]) patterns)"

text \<open>The loop over the delegations, numbered from 1.\<close>

fun compile_delegations ::
  "(string \<times> enrolled_application) list \<Rightarrow> nat \<Rightarrow> delegation list
     \<Rightarrow> policy_issue list \<times> compiled_delegation list" where
  "compile_delegations enrolled index [] = ([], [])"
| "compile_delegations enrolled index (d # ds) =
     (case compile_delegations enrolled (Suc index) ds of (iss, cds) \<Rightarrow>
       (case map_of enrolled (dg_app d) of
          None \<Rightarrow>
            (\<lparr>pi_code = ''unenrolled_application'',
              pi_message = ''delegation '' @ show_nat index @ '' references application alias ''
                @ py_repr (dg_app d) @ '', which organization policy has not enrolled''\<rparr> # iss, cds)
        | Some enrolled_app \<Rightarrow>
            (let bad = delegation_pattern_issues index (dg_paths d) in
             (bad @ iss,
              (if bad = [] then [\<lparr>rule = d, application = enrolled_app\<rparr>] else []) @ cds))))"

definition compile_policy ::
  "organization_policy \<Rightarrow> repository_policy \<Rightarrow> evaluation_options
     \<Rightarrow> policy_issue list + compiled_policy" where
  "compile_policy org rep runtime =
     (let patterns = guardrail_patterns org rep runtime;
          (iss, cds) = compile_delegations (apps org) 1 (delegations rep);
          issues = guardrail_issues patterns @ iss in
      if issues \<noteq> [] then Inl issues
      else Inr \<lparr>repository = rep, organization = org, cp_delegations = cds,
                non_delegable_patterns = patterns\<rparr>)"

section \<open>Facts\<close>

lemma guardrail_issues_Nil [simp]:
  "guardrail_issues ps = [] \<longleftrightarrow> list_all (\<lambda>p. \<not> isl (validate_pattern p)) ps"
  by (induction ps) (auto simp: guardrail_issues_def split: sum.splits)

lemma delegation_pattern_issues_Nil [simp]:
  "delegation_pattern_issues i ps = [] \<longleftrightarrow> list_all (\<lambda>p. \<not> isl (validate_pattern p)) ps"
  by (induction ps) (auto simp: delegation_pattern_issues_def split: sum.splits)

lemma compile_delegations_ok:
  assumes "compile_delegations enrolled index ds = ([], cds)"
  shows "map rule cds = ds \<and>
    list_all (\<lambda>cd. map_of enrolled (dg_app (rule cd)) = Some (application cd) \<and>
      list_all (\<lambda>p. \<not> isl (validate_pattern p)) (dg_paths (rule cd))) cds"
  using assms
proof (induction enrolled index ds arbitrary: cds rule: compile_delegations.induct)
  case (2 enrolled index d ds)
  obtain iss cds' where r: "compile_delegations enrolled (Suc index) ds = (iss, cds')" by fastforce
  with "2.prems" show ?case
    using "2.IH" [of cds']
    by (auto simp: Let_def
        split: option.splits if_splits)
qed simp

lemma compile_delegations_issues:
  "fst (compile_delegations enrolled index ds) = [] \<longleftrightarrow>
     list_all (\<lambda>d. map_of enrolled (dg_app d) \<noteq> None \<and>
       list_all (\<lambda>p. \<not> isl (validate_pattern p)) (dg_paths d)) ds"
  by (induction enrolled index ds rule: compile_delegations.induct)
    (auto simp: Let_def
        split: option.splits prod.splits)

definition compilable :: "organization_policy \<Rightarrow> repository_policy \<Rightarrow> evaluation_options \<Rightarrow> bool" where
  "compilable org rep opts \<longleftrightarrow>
     list_all (\<lambda>q. \<not> isl (validate_pattern q)) (guardrail_patterns org rep opts) \<and>
     list_all (\<lambda>d. map_of (apps org) (dg_app d) \<noteq> None \<and>
        list_all (\<lambda>q. \<not> isl (validate_pattern q)) (dg_paths d)) (delegations rep)"

text \<open>Compilation succeeds exactly when every guardrail pattern and every delegation pattern
  is valid and every delegation names an enrolled application; then the compiled policy
  keeps every delegation with the application the organization bound its alias to.\<close>

theorem compile_policy_iff:
  "(case compile_policy org rep opts of
      Inr p \<Rightarrow> compilable org rep opts \<and> map rule (cp_delegations p) = delegations rep \<and>
        (\<forall>cd \<in> set (cp_delegations p). map_of (apps org) (dg_app (rule cd)) = Some (application cd))
    | Inl issues \<Rightarrow> \<not> compilable org rep opts \<and> issues \<noteq> [])"
proof -
  obtain iss cds where r: "compile_delegations (apps org) 1 (delegations rep) = (iss, cds)"
    by fastforce
  have i: "iss = [] \<longleftrightarrow> list_all (\<lambda>d. map_of (apps org) (dg_app d) \<noteq> None \<and>
        list_all (\<lambda>q. \<not> isl (validate_pattern q)) (dg_paths d)) (delegations rep)"
    using compile_delegations_issues [of "apps org" 1 "delegations rep"] r by simp
  have g: "guardrail_issues (guardrail_patterns org rep opts) = [] \<longleftrightarrow>
      list_all (\<lambda>q. \<not> isl (validate_pattern q)) (guardrail_patterns org rep opts)"
    by simp
  show ?thesis
  proof (cases "guardrail_issues (guardrail_patterns org rep opts) @ iss = []")
    case True
    with r compile_delegations_ok [of "apps org" 1 "delegations rep" cds] i g show ?thesis
      by (auto simp: compile_policy_def compilable_def list_all_iff)
  next
    case False
    with r i g show ?thesis by (auto simp: compile_policy_def compilable_def)
  qed
qed

theorem compile_policy_iff_witness:
  "case compile_policy \<lparr>op_schema_version = 1, apps = [], guardrails_of = \<lparr>non_delegable_paths = []\<rparr>\<rparr>
      \<lparr>rp_schema_version = 1, enabled = True, allow_author_as_codeowner = False,
        allow_delegation_for_policy_file = False, delegations = []\<rparr> default_options of
      Inr p \<Rightarrow> cp_delegations p = [] | Inl issues \<Rightarrow> issues \<noteq> []"
  using compile_policy_iff [of "\<lparr>op_schema_version = 1, apps = [], guardrails_of = \<lparr>non_delegable_paths = []\<rparr>\<rparr>"
      "\<lparr>rp_schema_version = 1, enabled = True, allow_author_as_codeowner = False,
        allow_delegation_for_policy_file = False, delegations = []\<rparr>" default_options]
  by (auto split: sum.splits)

end
