(* ===== verification/Evaluator.thy ===== *)
theory Evaluator
  imports Policy
begin

text \<open>
  \<open>extra_codeowners/evaluator.py\<close>: the pure evaluation of human-or-application CODEOWNER
  evidence. A \<open>ValueError\<close> or a failed assertion that would leave \<open>evaluate\<close> is \<open>Inl\<close>; on
  validated input it never occurs (\<open>evaluate_total\<close> in \<open>Evaluator_Facts\<close>).
\<close>

section \<open>Reviews\<close>

definition opinionated :: "review_state \<Rightarrow> bool" where
  "opinionated s \<longleftrightarrow> s \<in> {APPROVED, CHANGES_REQUESTED, DISMISSED}"

definition actor_key :: "pull_request_review \<Rightarrow> actor_kind \<times> int" where
  "actor_key r = (kind (actor r), user_id (actor r))"

definition ordering :: "pull_request_review \<Rightarrow> int \<times> int" where
  "ordering r = (submitted_at r, review_id r)"

definition latest_step ::
  "pull_request_review \<Rightarrow> ((actor_kind \<times> int) \<times> pull_request_review) list
     \<Rightarrow> ((actor_kind \<times> int) \<times> pull_request_review) list" where
  "latest_step r latest =
     (if \<not> opinionated (state r) then latest
      else case map_of latest (actor_key r) of
        None \<Rightarrow> AList.update (actor_key r) r latest
      | Some previous \<Rightarrow>
          if ordering previous < ordering r then AList.update (actor_key r) r latest else latest)"

definition latest_opinionated_reviews :: "pull_request_review list \<Rightarrow> pull_request_review list" where
  "latest_opinionated_reviews rs = sort_key ordering (map snd (fold latest_step rs []))"

definition evaluation_paths :: "evaluation_input \<Rightarrow> string list" where
  "evaluation_paths data = fromkeys (concat (map
     (\<lambda>f. (case previous_path f of None \<Rightarrow> [] | Some q \<Rightarrow> [q]) @ [cf_path f]) (changed_files data)))"

definition mk_message :: "string \<Rightarrow> string \<Rightarrow> evaluation_message" where
  "mk_message c m = \<lparr>em_code = c, em_message = m, em_paths = []\<rparr>"

definition stale :: "evaluation_input \<Rightarrow> pull_request_review \<Rightarrow> bool" where
  "stale data r \<longleftrightarrow> exact_head_reviews (options data) \<and> commit_sha r \<noteq> Some (head_sha data)"

definition stale_warning :: "pull_request_review \<Rightarrow> evaluation_message" where
  "stale_warning r = mk_message ''stale_approval_ignored''
     (''approval '' @ show_int (review_id r) @ '' from @'' @ login (actor r) @
      '' does not target the current pull request head'')"

definition current_approvals ::
  "evaluation_input \<Rightarrow> pull_request_review list \<times> evaluation_message list" where
  "current_approvals data =
     (let approved = filter (\<lambda>r. state r = APPROVED) (latest_opinionated_reviews (reviews data)) in
      (filter (\<lambda>r. \<not> stale data r) approved, map stale_warning (filter (stale data) approved)))"

definition enrolled_match :: "review_actor \<Rightarrow> string \<times> enrolled_application \<Rightarrow> bool" where
  "enrolled_match a entry \<longleftrightarrow> (case entry of (_, enrolled) \<Rightarrow>
     Some (ea_app_id enrolled) = app_id a \<and> Some (ea_slug enrolled) = app_slug a \<and>
     ea_bot_user_id enrolled = user_id a \<and> login a = ea_slug enrolled @ ''[bot]'')"

definition recognized_alias :: "organization_policy \<Rightarrow> pull_request_review \<Rightarrow> string option" where
  "recognized_alias org r = map_option fst (find (enrolled_match (actor r)) (apps org))"

definition untrusted_warning :: "pull_request_review \<Rightarrow> evaluation_message" where
  "untrusted_warning r = mk_message ''untrusted_application_review_ignored''
     (''approval '' @ show_int (review_id r) @ '' from @'' @ login (actor r) @
      '' did not match an organization-enrolled app_id, slug, bot login, and bot_user_id'')"

definition recognized_app_approvals ::
  "evaluation_input \<Rightarrow> pull_request_review list \<Rightarrow> string set \<times> evaluation_message list" where
  "recognized_app_approvals data approvals =
     (let app_reviews = filter (\<lambda>r. kind (actor r) = APPLICATION) approvals;
          org = organization_policy_of data in
      (set (List.map_filter (recognized_alias org) app_reviews),
       map untrusted_warning (filter (\<lambda>r. recognized_alias org r = None) app_reviews)))"

definition human_owner_identities :: "string \<Rightarrow> string set \<Rightarrow> bool \<Rightarrow> string set" where
  "human_owner_identities lg aliases direct =
     (if direct then insert (CHR ''@'' # lower lg) aliases else aliases)"

definition human_approvals_by_owner ::
  "pull_request_review list \<Rightarrow> (pull_request_review \<times> string set) list" where
  "human_approvals_by_owner approvals =
     map (\<lambda>r. (r, human_owner_identities (login (actor r)) (owner_aliases (actor r))
                   (direct_owner_eligible (actor r))))
       (filter (\<lambda>r. kind (actor r) = HUMAN) approvals)"

section \<open>Owner sets\<close>

text \<open>The evidence the loop over the owner sets reads.\<close>

record evidence =
  ev_policy :: compiled_policy
  ev_labels :: "string set"
  ev_humans :: "(pull_request_review \<times> string set) list"
  ev_author :: "pull_request_author option"
  ev_author_identities :: "string set"
  ev_apps :: "string set"

definition covered_paths ::
  "compiled_policy \<Rightarrow> string \<Rightarrow> string list \<Rightarrow> string + path_evidence list" where
  "covered_paths p explanation paths = mapM_result (\<lambda>path.
     bind_result (is_non_delegable p path) (\<lambda>nd.
       Inr \<lparr>pe_path = path, pe_non_delegable = nd, pe_eligible_apps = [], pe_approved_apps = [],
            pe_explanation = explanation\<rparr>)) paths"

text \<open>One path of the delegation branch: its evidence; it is satisfied when it is delegable
  and some eligible application approved.\<close>

definition delegated_path :: "evidence \<Rightarrow> string set \<Rightarrow> string \<Rightarrow> string + path_evidence" where
  "delegated_path ev owner_set path =
     bind_result (is_non_delegable (ev_policy ev) path) (\<lambda>nd.
       if nd then Inr \<lparr>pe_path = path, pe_non_delegable = True, pe_eligible_apps = [],
           pe_approved_apps = [],
           pe_explanation = ''application delegation is disabled for this security-sensitive path''\<rparr>
       else bind_result (delegation_decisions (ev_policy ev) path owner_set (ev_labels ev)) (\<lambda>decisions.
         let eligible_apps = map app_alias (filter eligible decisions);
             path_approvals = sorted_list_of_set (set eligible_apps \<inter> ev_apps ev);
             explanation =
               (if path_approvals \<noteq> []
                then ''covered by approved application '' @ py_join '', '' path_approvals
                else if eligible_apps \<noteq> []
                then ''eligible application approval is missing: '' @ py_join '', '' eligible_apps
                else if decisions \<noteq> []
                then ''delegation label conditions were not met: '' @
                  py_join ''; '' (map (\<lambda>d. app_alias d @ '': '' @ py_join '', '' (reasons d)) decisions)
                else ''no application delegation covers this path and owner set'')
         in Inr \<lparr>pe_path = path, pe_non_delegable = False, pe_eligible_apps = eligible_apps,
                 pe_approved_apps = path_approvals, pe_explanation = explanation\<rparr>))"

definition at_login :: "string \<Rightarrow> string" where
  "at_login lg = CHR ''@'' # lg"

definition evaluate_owner_set ::
  "evidence \<Rightarrow> string list \<Rightarrow> string list \<Rightarrow> string + owner_set_result" where
  "evaluate_owner_set ev owners paths =
     (let owner_set = set owners;
          satisfying_humans = map fst (filter (\<lambda>(r, ids). ids \<inter> owner_set \<noteq> {}) (ev_humans ev)) in
      if satisfying_humans \<noteq> [] then
        bind_result (covered_paths (ev_policy ev) ''covered by the human CODEOWNER approval'' paths)
          (\<lambda>pes. Inr \<lparr>os_owners = owners, os_paths = paths, satisfied = True,
             satisfied_by = map (\<lambda>r. ''human:'' @ at_login (login (actor r))) satisfying_humans,
             os_explanation = ''approved by human CODEOWNER '' @
               py_join '', '' (map (\<lambda>r. at_login (login (actor r))) satisfying_humans),
             os_path_evidence = pes\<rparr>)
      else if ev_author_identities ev \<inter> owner_set \<noteq> {} then
        (case ev_author ev of
           None \<Rightarrow> Inl ''AssertionError''
         | Some a \<Rightarrow>
             bind_result (covered_paths (ev_policy ev)
                 ''covered by eligible pull-request author evidence'' paths)
               (\<lambda>pes. Inr \<lparr>os_owners = owners, os_paths = paths, satisfied = True,
                  satisfied_by = [''author:'' @ at_login (pa_login a)],
                  os_explanation = ''pull request author '' @ at_login (pa_login a) @
                    '' is an eligible human CODEOWNER'',
                  os_path_evidence = pes\<rparr>))
      else
        bind_result (mapM_result (delegated_path ev owner_set) paths) (\<lambda>pes.
          let all_paths_satisfied = list_all (\<lambda>pe. pe_approved_apps pe \<noteq> []) pes;
              approving_apps = set (concat (map pe_approved_apps pes)) in
          Inr (if all_paths_satisfied
               then \<lparr>os_owners = owners, os_paths = paths, satisfied = True,
                     satisfied_by = map (\<lambda>a. ''app:'' @ a) (sorted_list_of_set approving_apps),
                     os_explanation = ''all paths are covered by approved application delegation'',
                     os_path_evidence = pes\<rparr>
               else \<lparr>os_owners = owners, os_paths = paths, satisfied = False, satisfied_by = [],
                     os_explanation = ''requires an approval from a listed human CODEOWNER or an eligible application for every path'',
                     os_path_evidence = pes\<rparr>)))"

text \<open>The grouping loop: \<open>owner_paths.setdefault(owners, [])\<close> in order of first occurrence, and
  the list of paths without an effective owner.\<close>

fun group_paths ::
  "codeowners_rule list \<Rightarrow> string list \<Rightarrow> (string list \<times> string list) list \<Rightarrow> string list
     \<Rightarrow> string + (string list \<times> string list) list \<times> string list" where
  "group_paths rules [] owner_paths unowned = Inr (owner_paths, unowned)"
| "group_paths rules (path # rest) owner_paths unowned =
     bind_result (owners_for rules path) (\<lambda>os.
       let owners = sort os in
       if owners = [] then group_paths rules rest owner_paths (unowned @ [path])
       else (let paths = (case map_of owner_paths owners of None \<Rightarrow> [] | Some ps \<Rightarrow> ps);
                 paths' = (if path \<in> set paths then paths else paths @ [path]) in
             group_paths rules rest (AList.update owners paths' owner_paths) unowned))"

section \<open>Evaluation\<close>

definition error_result :: "evaluation_message list \<Rightarrow> evaluation_result" where
  "error_result messages =
     \<lparr>conclusion = FAILURE,
      summary = ''Extra CODEOWNERS could not evaluate safely; approval is denied.'',
      requirements = [], errors = messages, warnings = [], unowned_paths = []\<rparr>"

definition disabled_result :: evaluation_result where
  "disabled_result =
     \<lparr>conclusion = FAILURE,
      summary = ''Repository policy is missing or disabled; approval is denied.'',
      requirements = [],
      errors = [mk_message ''repository_policy_disabled''
        ''repository policy is missing or enabled=false; remove the required check from the ruleset before disabling Extra CODEOWNERS''],
      warnings = [], unowned_paths = []\<rparr>"

definition insecure_warning :: evaluation_message where
  "insecure_warning = mk_message ''insecure_changes_enabled''
     ''the runtime allow-insecure-changes escape hatch disabled built-in non-delegable paths; organization-added paths remain enforced''"

definition author_identities :: "evaluation_input \<Rightarrow> string set" where
  "author_identities data =
     (if allow_author_as_codeowner (repository_policy_of data)
      then (case author data of None \<Rightarrow> {}
            | Some a \<Rightarrow> human_owner_identities (pa_login a) (pa_owner_aliases a) (pa_direct_owner_eligible a))
      else {})"

definition gather_evidence :: "evaluation_input \<Rightarrow> compiled_policy \<Rightarrow> evidence" where
  "gather_evidence data p =
     (let approvals = fst (current_approvals data) in
      \<lparr>ev_policy = p, ev_labels = labels data, ev_humans = human_approvals_by_owner approvals,
       ev_author = author data, ev_author_identities = author_identities data,
       ev_apps = fst (recognized_app_approvals data approvals)\<rparr>)"

definition evidence_warnings :: "evaluation_input \<Rightarrow> evaluation_message list" where
  "evidence_warnings data =
     (if allow_insecure_changes (options data) then [insecure_warning] else [])
     @ snd (current_approvals data)
     @ snd (recognized_app_approvals data (fst (current_approvals data)))"

definition conclude ::
  "owner_set_result list \<Rightarrow> evaluation_message list \<Rightarrow> string list \<Rightarrow> evaluation_result" where
  "conclude rqs ws unowned =
     (let failed = length (filter (\<lambda>rq. \<not> satisfied rq) rqs); total = show_nat (length rqs);
          (c, s) = (if failed \<noteq> 0
             then (FAILURE, show_nat failed @ '' of '' @ total @
                   '' distinct CODEOWNER requirements are unsatisfied.'')
             else if rqs \<noteq> []
             then (SUCCESS, ''All '' @ total @ '' distinct CODEOWNER requirements are satisfied.'')
             else (SUCCESS, ''No changed path has a CODEOWNER requirement.''))
      in \<lparr>conclusion = c, summary = s, requirements = rqs, errors = [], warnings = ws,
          unowned_paths = unowned\<rparr>)"

definition evaluate :: "evaluation_input \<Rightarrow> string + evaluation_result" where
  "evaluate data =
     (if \<not> enabled (repository_policy_of data) then Inr disabled_result
      else (case parse_codeowners (codeowners_text data) of
        Inl issues \<Rightarrow>
          Inr (error_result (map (\<lambda>i. mk_message (ci_code i) (render_issue i)) issues))
      | Inr rules \<Rightarrow>
          (case compile_policy (organization_policy_of data) (repository_policy_of data) (options data) of
             Inl issues \<Rightarrow>
               Inr (error_result (map (\<lambda>i. mk_message (pi_code i) (pi_message i)) issues))
           | Inr p \<Rightarrow>
               bind_result (group_paths rules (evaluation_paths data) [] []) (\<lambda>(owner_paths, unowned).
                 bind_result (mapM_result (\<lambda>(owners, paths).
                     evaluate_owner_set (gather_evidence data p) owners paths) owner_paths) (\<lambda>rqs.
                   Inr (conclude rqs (evidence_warnings data) unowned))))))"

end
