(* ===== verification/Policy_Facts.thy ===== *)
theory Policy_Facts
  imports Policy
begin

text \<open>
  Facts about delegation decisions: for a normalised path the decisions never fail, there
  is one per application in alias order, and an application is eligible exactly when some
  delegation of the repository covers the path, the owner set and the labels. Guardrails
  of the organization survive every repository policy.
\<close>

definition covers :: "compiled_delegation \<Rightarrow> string \<Rightarrow> string set \<Rightarrow> bool" where
  "covers cd path owners \<longleftrightarrow> any_pattern_matches (dg_paths (rule cd)) path \<and>
     (''*'' \<in> set (for_owners (rule cd)) \<or> owners \<inter> set (for_owners (rule cd)) \<noteq> {})"

definition labels_ok :: "delegation \<Rightarrow> string set \<Rightarrow> bool" where
  "labels_ok d lbls \<longleftrightarrow> required_labels d \<subseteq> lbls \<and> forbidden_labels d \<inter> lbls = {}"

lemma label_reasons_Nil [simp]: "label_reasons d lbls = [] \<longleftrightarrow> labels_ok d lbls"
  by (auto simp: label_reasons_def labels_ok_def Let_def)

lemma decide_valid:
  assumes "valid_path path"
  shows "decide cd path owners lbls = Inr (if covers cd path owners
    then Some \<lparr>app_alias = dg_app (rule cd), eligible = labels_ok (rule cd) lbls,
               reasons = label_reasons (rule cd) lbls\<rparr> else None)"
  using assms by (simp add: decide_def applies_to_path_and_owners_def covers_def Let_def)

definition decision_of :: "string set \<Rightarrow> compiled_delegation \<Rightarrow> delegation_decision" where
  "decision_of lbls cd = \<lparr>app_alias = dg_app (rule cd), eligible = labels_ok (rule cd) lbls,
     reasons = label_reasons (rule cd) lbls\<rparr>"

lemma decision_of_simps [simp]:
  "app_alias (decision_of lbls cd) = dg_app (rule cd)"
  "eligible (decision_of lbls cd) = labels_ok (rule cd) lbls"
  by (simp_all add: decision_of_def)

lemma alias_decision_of_image:
  "app_alias ` set (map (decision_of lbls) (filter q cds)) = {dg_app (rule cd) |cd. cd \<in> set cds \<and> q cd}"
  unfolding set_map image_image decision_of_simps by auto

lemma eligible_decision_of_image:
  "app_alias ` {d \<in> set (map (decision_of lbls) (filter q cds)). eligible d} =
     {dg_app (rule cd) |cd. cd \<in> set cds \<and> q cd \<and> labels_ok (rule cd) lbls}" (is "?l = ?r")
proof
  show "?l \<subseteq> ?r" by auto
  show "?r \<subseteq> ?l"
  proof
    fix a assume "a \<in> ?r"
    then obtain cd where c: "a = dg_app (rule cd)" "cd \<in> set cds" "q cd" "labels_ok (rule cd) lbls"
      by blast
    then show "a \<in> ?l" by (intro image_eqI [where x = "decision_of lbls cd"]) simp_all
  qed
qed

lemma collect_decisions_valid:
  assumes "valid_path path"
  shows "collect_decisions cds path owners lbls =
    Inr (map (decision_of lbls) (filter (\<lambda>cd. covers cd path owners) cds))"
  by (induction cds) (simp_all add: decide_valid [OF assms] decision_of_def)

section \<open>Grouping by application\<close>

lemma add_by_app_keys: "fst ` set (add_by_app d m) = insert (app_alias d) (fst ` set m)"
  by (simp add: add_by_app_def keys_update)

lemma map_of_add_by_app:
  "map_of (add_by_app d m) a = (if a = app_alias d
     then Some ((case map_of m a of None \<Rightarrow> [] | Some xs \<Rightarrow> xs) @ [d]) else map_of m a)"
  by (simp add: add_by_app_def update_conv)

lemma dict_ok_fold_add_by_app: "dict_ok m \<Longrightarrow> dict_ok (fold add_by_app ds m)"
  by (induction ds arbitrary: m) (simp_all add: add_by_app_def dict_ok_update)

lemma keys_fold_add_by_app:
  "fst ` set (fold add_by_app ds m) = fst ` set m \<union> app_alias ` set ds"
  by (induction ds arbitrary: m) (simp_all add: add_by_app_keys)

lemma map_of_fold_add_by_app:
  "map_of (fold add_by_app ds m) a =
     (if filter (\<lambda>d. app_alias d = a) ds = [] then map_of m a
      else Some ((case map_of m a of None \<Rightarrow> [] | Some xs \<Rightarrow> xs) @ filter (\<lambda>d. app_alias d = a) ds))"
proof (induction ds arbitrary: m)
  case (Cons d ds)
  show ?case
    by (cases "app_alias d = a"; cases "filter (\<lambda>d. app_alias d = a) ds = []")
      (simp_all add: Cons.IH map_of_add_by_app)
qed simp

lemma by_app_entries:
  "(a, xs) \<in> set (fold add_by_app ds []) \<longleftrightarrow>
     xs = filter (\<lambda>d. app_alias d = a) ds \<and> xs \<noteq> []"
  using dict_ok_fold_add_by_app [OF dict_ok_Nil, of ds]
  by (auto simp: dict_ok_map_of map_of_fold_add_by_app)

lemma eligible_by_app:
  "{a. \<exists>xs. (a, xs) \<in> set (fold add_by_app ds []) \<and> list_ex eligible xs} =
     app_alias ` {d \<in> set ds. eligible d}" (is "?l = ?r")
proof
  show "?l \<subseteq> ?r" by (auto simp: by_app_entries list_ex_iff)
  show "?r \<subseteq> ?l"
  proof
    fix a assume "a \<in> ?r"
    then obtain d where "d \<in> set ds" "eligible d" "a = app_alias d" by auto
    then have "d \<in> set (filter (\<lambda>d. app_alias d = a) ds)" "eligible d" by auto
    then show "a \<in> ?l"
      by (auto simp: by_app_entries list_ex_iff simp del: set_filter
          intro!: exI [of _ "filter (\<lambda>d. app_alias d = a) ds"])
  qed
qed

lemma coalesce_simps [simp]:
  "app_alias (coalesce (a, xs)) = a" "eligible (coalesce (a, xs)) = list_ex eligible xs"
  by (simp_all add: coalesce_def)

lemma delegation_decisions_valid:
  assumes "valid_path path"
  shows "\<exists>ds. delegation_decisions p path owners lbls = Inr ds \<and>
    sorted (map app_alias ds) \<and> distinct (map app_alias ds) \<and>
    app_alias ` set ds = {dg_app (rule cd) |cd. cd \<in> set (cp_delegations p) \<and> covers cd path owners} \<and>
    app_alias ` {d \<in> set ds. eligible d} =
      {dg_app (rule cd) |cd. cd \<in> set (cp_delegations p) \<and> covers cd path owners \<and>
         labels_ok (rule cd) lbls}"
proof -
  let ?dl = "map (decision_of lbls) (filter (\<lambda>cd. covers cd path owners) (cp_delegations p))"
  let ?by = "fold add_by_app ?dl []"
  let ?ds = "map coalesce (sort_key fst ?by)"
  have e: "delegation_decisions p path owners lbls = Inr ?ds"
    by (simp add: delegation_decisions_def collect_decisions_valid [OF assms])
  have c: "app_alias (coalesce x) = fst x" for x by (cases x) simp
  have m: "map app_alias ?ds = map fst (sort_key fst ?by)" by (simp add: c)
  have ms: "app_alias ` set ?ds = fst ` set ?by"
    unfolding set_map image_image c by simp
  have "app_alias ` {d \<in> set ?ds. eligible d} = {a. \<exists>xs. (a, xs) \<in> set ?by \<and> list_ex eligible xs}"
    (is "?l = ?r")
  proof
    show "?l \<subseteq> ?r" by auto
    show "?r \<subseteq> ?l"
    proof
      fix a assume "a \<in> ?r"
      then obtain xs where "(a, xs) \<in> set ?by" "list_ex eligible xs" by blast
      then show "a \<in> ?l" by (intro image_eqI [where x = "coalesce (a, xs)"]) auto
    qed
  qed
  also have "\<dots> = app_alias ` {d \<in> set ?dl. eligible d}"
    by (rule eligible_by_app)
  finally have el: "app_alias ` {d \<in> set ?ds. eligible d} = app_alias ` {d \<in> set ?dl. eligible d}" .
  have di: "distinct (map fst (sort_key fst ?by))"
    using dict_ok_fold_add_by_app [OF dict_ok_Nil, of ?dl] by (simp add: dict_ok_def distinct_map)
  show ?thesis
  proof (intro exI conjI)
    show "delegation_decisions p path owners lbls = Inr ?ds" by (rule e)
    show "sorted (map app_alias ?ds)" unfolding m by simp
    show "distinct (map app_alias ?ds)" unfolding m by (rule di)
    show "app_alias ` set ?ds = {dg_app (rule cd) |cd. cd \<in> set (cp_delegations p) \<and> covers cd path owners}"
      unfolding ms keys_fold_add_by_app alias_decision_of_image by simp
    show "app_alias ` {d \<in> set ?ds. eligible d} =
      {dg_app (rule cd) |cd. cd \<in> set (cp_delegations p) \<and> covers cd path owners \<and>
         labels_ok (rule cd) lbls}"
      unfolding el by (rule eligible_decision_of_image)
  qed
qed

text \<open>For a normalised path the decisions are total, name each application once, in alias
  order, and mark it eligible exactly when some delegation to it covers the path and the
  owner set and its label conditions hold.\<close>

theorem delegation_decisions_spec:
  assumes "valid_path path"
  shows "\<exists>ds. delegation_decisions p path owners lbls = Inr ds \<and>
    sorted (map app_alias ds) \<and> distinct (map app_alias ds) \<and>
    app_alias ` set ds = {dg_app (rule cd) |cd. cd \<in> set (cp_delegations p) \<and> covers cd path owners} \<and>
    app_alias ` {d \<in> set ds. eligible d} =
      {dg_app (rule cd) |cd. cd \<in> set (cp_delegations p) \<and> covers cd path owners \<and>
         labels_ok (rule cd) lbls}"
  by (rule delegation_decisions_valid [OF assms])

theorem delegation_decisions_spec_witness:
  "valid_path ''uv.lock'' \<and> (\<exists>ds. delegation_decisions
     \<lparr>repository = \<lparr>rp_schema_version = 1, enabled = True, allow_author_as_codeowner = False,
        allow_delegation_for_policy_file = False, delegations = []\<rparr>,
      organization = \<lparr>op_schema_version = 1, apps = [], guardrails_of = \<lparr>non_delegable_paths = []\<rparr>\<rparr>,
      cp_delegations = [], non_delegable_patterns = []\<rparr> ''uv.lock'' {''@a''} {} = Inr ds)"
proof -
  have v: "valid_path ''uv.lock''" by code_simp
  show ?thesis using v delegation_decisions_spec [OF v] by blast
qed

section \<open>Guardrails\<close>

text \<open>C19. A repository cannot weaken the organization: whatever the repository policy and the
  runtime options say, a path an organization guardrail matches is non-delegable under
  every policy that compiles; and unless the operator enabled insecure changes, so is a
  path one of the built-in patterns matches.\<close>

theorem guardrails_cannot_be_weakened:
  assumes "compile_policy org rep opts = Inr p" and "valid_path path"
    and "any_pattern_matches (non_delegable_paths (guardrails_of org)) path \<or>
      (\<not> allow_insecure_changes opts \<and> any_pattern_matches BUILTIN_NON_DELEGABLE_PATHS path)"
  shows "is_non_delegable p path = Inr True"
proof -
  have "non_delegable_patterns p = guardrail_patterns org rep opts"
    using assms(1) by (auto simp: compile_policy_def Let_def split: prod.splits if_splits)
  then show ?thesis
    using assms(2,3) by (auto simp: is_non_delegable_def guardrail_patterns_def any_pattern_matches_def)
qed

definition sample_org :: organization_policy where
  "sample_org = \<lparr>op_schema_version = 1, apps = [], guardrails_of = \<lparr>non_delegable_paths = [''/deploy/**'']\<rparr>\<rparr>"

definition sample_rep :: repository_policy where
  "sample_rep = \<lparr>rp_schema_version = 1, enabled = True, allow_author_as_codeowner = False,
     allow_delegation_for_policy_file = False, delegations = []\<rparr>"

theorem guardrails_cannot_be_weakened_witness:
  "\<exists>p. compile_policy sample_org sample_rep default_options = Inr p \<and>
     is_non_delegable p ''deploy/x'' = Inr True"
proof -
  have c: "\<not> isl (compile_policy sample_org sample_rep default_options)" by code_simp
  then obtain p where p: "compile_policy sample_org sample_rep default_options = Inr p"
    using not_isl_Inr by blast
  have v: "valid_path ''deploy/x''" by code_simp
  have g: "any_pattern_matches (non_delegable_paths (guardrails_of sample_org)) ''deploy/x''" by code_simp
  from guardrails_cannot_be_weakened [OF p v] g p show ?thesis by blast
qed

end
