(* ===== verification/Evaluator_Facts.thy ===== *)
theory Evaluator_Facts
  imports Evaluator Policy_Facts Model_Facts
begin

text \<open>
  What \<open>evaluate\<close> decides. The latest opinionated review of every actor is the maximum of
  its (time, id) order; a change passes exactly when every evaluated path with an owner is
  covered by a current human approval, an eligible author or an approved delegation, and
  then the specification \<open>authorized\<close> holds for each path separately although the code
  works on groups of paths with the same owners.
\<close>

declare split_paired_All [simp del] split_paired_Ex [simp del]

section \<open>Latest reviews\<close>

definition latest_ok ::
  "pull_request_review list \<Rightarrow> ((actor_kind \<times> int) \<times> pull_request_review) list \<Rightarrow> bool" where
  "latest_ok rs m \<longleftrightarrow> dict_ok m \<and>
     (\<forall>k r. map_of m k = Some r \<longrightarrow> r \<in> set rs \<and> opinionated (state r) \<and> actor_key r = k \<and>
        (\<forall>r' \<in> set rs. opinionated (state r') \<and> actor_key r' = k \<longrightarrow> ordering r' \<le> ordering r)) \<and>
     (\<forall>r \<in> set rs. opinionated (state r) \<longrightarrow> map_of m (actor_key r) \<noteq> None)"

lemma latest_ok_skip:
  assumes "latest_ok rs m" and "\<not> opinionated (state r)"
  shows "latest_ok (rs @ [r]) m"
  using assms by (auto simp: latest_ok_def)

lemma latest_ok_keep:
  assumes "latest_ok rs m" and "map_of m (actor_key r) = Some q" and "ordering r \<le> ordering q"
  shows "latest_ok (rs @ [r]) m"
  using assms by (auto simp: latest_ok_def)

lemma latest_ok_put:
  assumes "latest_ok rs m" and "opinionated (state r)"
    and "\<And>q. map_of m (actor_key r) = Some q \<Longrightarrow> ordering q \<le> ordering r"
  shows "latest_ok (rs @ [r]) (AList.update (actor_key r) r m)"
  unfolding latest_ok_def
proof (intro conjI allI impI ballI)
  show "dict_ok (AList.update (actor_key r) r m)"
    using assms(1) by (auto simp: latest_ok_def)
next
  fix k x assume x: "map_of (AList.update (actor_key r) r m) k = Some x"
  have old: "r' \<in> set rs \<Longrightarrow> opinionated (state r') \<Longrightarrow> actor_key r' = actor_key r \<Longrightarrow>
      ordering r' \<le> ordering r" for r'
    using assms(1,3) unfolding latest_ok_def by (metis option.exhaust order_trans)
  have "k = actor_key r \<and> x = r \<or> k \<noteq> actor_key r \<and> map_of m k = Some x"
    using x by (auto simp: update_conv split: if_splits)
  then show "x \<in> set (rs @ [r])" "opinionated (state x)" "actor_key x = k"
    using assms(1,2) by (auto simp: latest_ok_def)
  fix r' assume r': "r' \<in> set (rs @ [r])" "opinionated (state r') \<and> actor_key r' = k"
  show "ordering r' \<le> ordering x"
  proof (cases "k = actor_key r")
    case True
    with x have "x = r" by (simp add: update_conv)
    with r' True old show ?thesis by auto
  next
    case False
    with x r' assms(1) show ?thesis by (auto simp: latest_ok_def update_conv)
  qed
next
  fix x assume "x \<in> set (rs @ [r])" "opinionated (state x)"
  then show "map_of (AList.update (actor_key r) r m) (actor_key x) \<noteq> None"
    using assms(1) by (auto simp: latest_ok_def update_conv)
qed

lemma latest_ok_step: "latest_ok rs m \<Longrightarrow> latest_ok (rs @ [r]) (latest_step r m)"
proof -
  assume ok: "latest_ok rs m"
  consider "\<not> opinionated (state r)"
    | "opinionated (state r)" "map_of m (actor_key r) = None"
    | q where "opinionated (state r)" "map_of m (actor_key r) = Some q" "ordering q < ordering r"
    | q where "opinionated (state r)" "map_of m (actor_key r) = Some q" "\<not> ordering q < ordering r"
    by (cases "map_of m (actor_key r)") auto
  then show ?thesis
  proof cases
    case 1 with latest_ok_skip [OF ok] show ?thesis by (simp add: latest_step_def)
  next
    case 2 with latest_ok_put [OF ok, of r] show ?thesis by (simp add: latest_step_def)
  next
    case 3 with latest_ok_put [OF ok, of r] show ?thesis by (simp add: latest_step_def)
  next
    case 4 with latest_ok_keep [OF ok, of r q] show ?thesis by (simp add: latest_step_def)
  qed
qed

lemma latest_ok_fold: "latest_ok rs (fold latest_step rs [])"
proof (induction rs rule: rev_induct)
  case Nil show ?case by (simp add: latest_ok_def)
next
  case (snoc r rs) with latest_ok_step [OF snoc.IH] show ?case by simp
qed

lemma latest_mem:
  "r \<in> set (latest_opinionated_reviews rs) \<longleftrightarrow> map_of (fold latest_step rs []) (actor_key r) = Some r"
proof -
  have ok: "latest_ok rs (fold latest_step rs [])" by (rule latest_ok_fold)
  have "r \<in> set (latest_opinionated_reviews rs) \<longleftrightarrow> (\<exists>k. (k, r) \<in> set (fold latest_step rs []))"
    by (force simp: latest_opinionated_reviews_def)
  also have "\<dots> \<longleftrightarrow> map_of (fold latest_step rs []) (actor_key r) = Some r"
    using ok unfolding latest_ok_def by (metis dict_ok_map_of)
  finally show ?thesis .
qed

lemma latest_memD:
  assumes "r \<in> set (latest_opinionated_reviews rs)"
  shows "r \<in> set rs" and "opinionated (state r)"
    and "\<And>r'. r' \<in> set rs \<Longrightarrow> opinionated (state r') \<Longrightarrow> actor_key r' = actor_key r \<Longrightarrow>
      ordering r' \<le> ordering r"
proof -
  have m: "map_of (fold latest_step rs []) (actor_key r) = Some r" using assms by (simp add: latest_mem)
  have ok: "latest_ok rs (fold latest_step rs [])" by (rule latest_ok_fold)
  from m ok show "r \<in> set rs" "opinionated (state r)" unfolding latest_ok_def by blast+
  show "\<And>r'. r' \<in> set rs \<Longrightarrow> opinionated (state r') \<Longrightarrow> actor_key r' = actor_key r \<Longrightarrow>
      ordering r' \<le> ordering r"
    using m ok unfolding latest_ok_def by blast
qed

lemma latest_distinct: "distinct (map actor_key (latest_opinionated_reviews rs))"
proof -
  let ?m = "fold latest_step rs []"
  have ok: "latest_ok rs ?m" by (rule latest_ok_fold)
  then have "map (actor_key \<circ> snd) ?m = map fst ?m"
    by (auto simp: latest_ok_def dict_ok_map_of [symmetric])
  with ok have "distinct (map actor_key (map snd ?m))"
    unfolding map_map by (simp only: latest_ok_def dict_ok_def)
  then show ?thesis
    unfolding latest_opinionated_reviews_def distinct_map by (simp add: distinct_map)
qed

text \<open>C18. Reviews are reduced to one per actor: each kept review is an opinionated review of the
  input that no opinionated review of the same actor follows in (time, id) order, every
  actor with an opinionated review keeps one, none keeps two, and the result is in
  (time, id) order. Comments and pending reviews neither count nor revoke.\<close>

theorem latest_opinionated_reviews_spec:
  "(\<forall>r \<in> set (latest_opinionated_reviews rs). r \<in> set rs \<and> opinionated (state r) \<and>
      (\<forall>r' \<in> set rs. opinionated (state r') \<and> actor_key r' = actor_key r \<longrightarrow>
         ordering r' \<le> ordering r)) \<and>
   actor_key ` set (latest_opinionated_reviews rs) = actor_key ` {r \<in> set rs. opinionated (state r)} \<and>
   distinct (map actor_key (latest_opinionated_reviews rs)) \<and>
   sorted (map ordering (latest_opinionated_reviews rs))"
proof (intro conjI ballI)
  show "actor_key ` set (latest_opinionated_reviews rs) = actor_key ` {r \<in> set rs. opinionated (state r)}"
  proof
    show "actor_key ` set (latest_opinionated_reviews rs) \<subseteq> actor_key ` {r \<in> set rs. opinionated (state r)}"
      using latest_memD by blast
    show "actor_key ` {r \<in> set rs. opinionated (state r)} \<subseteq> actor_key ` set (latest_opinionated_reviews rs)"
    proof
      fix k assume "k \<in> actor_key ` {r \<in> set rs. opinionated (state r)}"
      then obtain q where "map_of (fold latest_step rs []) k = Some q" "actor_key q = k"
        using latest_ok_fold [of rs] by (fastforce simp: latest_ok_def)
      then show "k \<in> actor_key ` set (latest_opinionated_reviews rs)"
        by (metis image_eqI latest_mem)
    qed
  qed
qed (auto dest: latest_memD simp: latest_distinct, simp add: latest_opinionated_reviews_def)

theorem latest_opinionated_reviews_spec_witness:
  "distinct (map actor_key (latest_opinionated_reviews []))"
  using latest_opinionated_reviews_spec [of "[]"] by blast

section \<open>Which approvals count\<close>

lemma current_approvals_mem:
  "r \<in> set (fst (current_approvals data)) \<longleftrightarrow>
     r \<in> set (latest_opinionated_reviews (reviews data)) \<and> state r = APPROVED \<and> \<not> stale data r"
  by (auto simp: current_approvals_def)

text \<open>A superseded approval never counts: when the same actor later approved again, requested
  changes or was dismissed, the earlier approval is not among the current approvals.\<close>

theorem superseded_approval_does_not_count:
  assumes "r' \<in> set (reviews data)" and "opinionated (state r')"
    and "actor_key r' = actor_key r" and "ordering r < ordering r'"
  shows "r \<notin> set (fst (current_approvals data))"
  using assms latest_memD(3) [of r "reviews data" r'] by (auto simp: current_approvals_mem)

definition sample_actor :: review_actor where
  "sample_actor = \<lparr>kind = HUMAN, login = ''ann'', user_id = 7, app_id = None, app_slug = None,
     owner_aliases = {}, direct_owner_eligible = True\<rparr>"

definition sample_review :: "int \<Rightarrow> review_state \<Rightarrow> pull_request_review" where
  "sample_review n s = \<lparr>review_id = n, actor = sample_actor, state = s, commit_sha = Some ''h'',
     submitted_at = n\<rparr>"

definition sample_input :: evaluation_input where
  "sample_input = \<lparr>head_sha = ''h'', codeowners_text = ''* @ann'',
     changed_files = [\<lparr>cf_path = ''a.py'', cf_status = MODIFIED, previous_path = None\<rparr>],
     reviews = [sample_review 1 APPROVED, sample_review 2 CHANGES_REQUESTED, sample_review 3 APPROVED],
     author = None, labels = {}, organization_policy_of = sample_org,
     repository_policy_of = sample_rep, options = default_options\<rparr>"

theorem superseded_approval_does_not_count_witness:
  "sample_review 1 APPROVED \<notin> set (fst (current_approvals sample_input))"
  by (rule superseded_approval_does_not_count [of "sample_review 2 CHANGES_REQUESTED"])
    (simp_all add: sample_input_def sample_review_def opinionated_def actor_key_def ordering_def)

lemma recognized_alias_Some:
  assumes "recognized_alias org r = Some a"
  shows "\<exists>ea. (a, ea) \<in> set (apps org) \<and> enrolled_match (actor r) (a, ea)"
proof -
  from assms obtain e where "find (enrolled_match (actor r)) (apps org) = Some e" "fst e = a"
    by (auto simp: recognized_alias_def)
  then have "e \<in> set (apps org)" "enrolled_match (actor r) e" "e = (a, snd e)"
    by (auto simp: find_Some_iff)
  then show ?thesis by metis
qed

text \<open>Application evidence is bound to the enrolled identity: an alias counts as approving only
  when some current, unrevoked approval was made by an actor whose App id, slug, bot login
  and bot user id are all those the organization enrolled under that alias.\<close>

theorem app_evidence_is_enrolled:
  assumes "a \<in> ev_apps (gather_evidence data p)"
  shows "\<exists>r ea. r \<in> set (fst (current_approvals data)) \<and> state r = APPROVED \<and>
    kind (actor r) = APPLICATION \<and> (a, ea) \<in> set (apps (organization_policy_of data)) \<and>
    app_id (actor r) = Some (ea_app_id ea) \<and> app_slug (actor r) = Some (ea_slug ea) \<and>
    user_id (actor r) = ea_bot_user_id ea \<and> login (actor r) = ea_slug ea @ ''[bot]''"
proof -
  from assms obtain r where r: "r \<in> set (fst (current_approvals data))" "kind (actor r) = APPLICATION"
    "recognized_alias (organization_policy_of data) r = Some a"
    by (auto simp: gather_evidence_def recognized_app_approvals_def Let_def
        List.map_filter_def)
  from recognized_alias_Some [OF r(3)] obtain ea where
    "(a, ea) \<in> set (apps (organization_policy_of data))" "enrolled_match (actor r) (a, ea)" by blast
  with r show ?thesis
    by (intro exI [of _ r] exI [of _ ea]) (auto simp: enrolled_match_def current_approvals_mem)
qed

definition sample_bot :: pull_request_review where
  "sample_bot = \<lparr>review_id = 4, actor = \<lparr>kind = APPLICATION, login = ''stamp[bot]'', user_id = 9,
     app_id = Some 5, app_slug = Some ''stamp'', owner_aliases = {}, direct_owner_eligible = False\<rparr>,
     state = APPROVED, commit_sha = Some ''h'', submitted_at = 4\<rparr>"

definition sample_bot_input :: evaluation_input where
  "sample_bot_input = sample_input\<lparr>reviews := [sample_bot],
     organization_policy_of := sample_org\<lparr>apps :=
       [(''bot'', \<lparr>ea_slug = ''stamp'', ea_app_id = 5, ea_bot_user_id = 9\<rparr>)]\<rparr>\<rparr>"

theorem app_evidence_is_enrolled_witness:
  "\<exists>r. r \<in> set (fst (current_approvals sample_bot_input)) \<and> kind (actor r) = APPLICATION"
proof -
  have "''bot'' \<in> ev_apps (gather_evidence sample_bot_input undefined)"
    by (simp add: sample_bot_input_def sample_input_def sample_bot_def sample_org_def gather_evidence_def
        recognized_app_approvals_def current_approvals_def latest_opinionated_reviews_def latest_step_def
        opinionated_def actor_key_def ordering_def stale_def default_options_def
        recognized_alias_def enrolled_match_def List.map_filter_simps Let_def)
  from app_evidence_is_enrolled [OF this] show ?thesis by blast
qed

section \<open>Grouping paths by owner set\<close>

definition effective_owners :: "codeowners_rule list \<Rightarrow> string \<Rightarrow> string list" where
  "effective_owners rules path =
     (case last_match (\<lambda>r. matches_normalized r path) rules of None \<Rightarrow> [] | Some r \<Rightarrow> cr_owners r)"

definition owners_key :: "codeowners_rule list \<Rightarrow> string \<Rightarrow> string list" where
  "owners_key rules path = sort (effective_owners rules path)"

lemma set_owners_key [simp]: "set (owners_key rules path) = set (effective_owners rules path)"
  by (simp add: owners_key_def)

lemma owners_key_Nil [simp]: "owners_key rules path = [] \<longleftrightarrow> effective_owners rules path = []"
  by (metis set_empty set_owners_key)

lemma owners_for_effective: "valid_path path \<Longrightarrow> owners_for rules path = Inr (effective_owners rules path)"
  by (simp add: owners_for_def rule_for_def effective_owners_def)

definition group_of :: "(string list \<times> string list) list \<Rightarrow> string list \<Rightarrow> string list" where
  "group_of m k = (case map_of m k of None \<Rightarrow> [] | Some ps \<Rightarrow> ps)"

definition add_path :: "string list \<Rightarrow> string \<Rightarrow> (string list \<times> string list) list
    \<Rightarrow> (string list \<times> string list) list" where
  "add_path k path m =
     AList.update k (if path \<in> set (group_of m k) then group_of m k else group_of m k @ [path]) m"

lemma set_group_add_path:
  "set (group_of (add_path k path m) k') = set (group_of m k') \<union> (if k' = k then {path} else {})"
  by (auto simp: add_path_def group_of_def update_conv)

lemma distinct_group_add_path:
  "(\<And>k. distinct (group_of m k)) \<Longrightarrow> distinct (group_of (add_path k path m) k')"
  by (auto simp: add_path_def group_of_def update_conv)

lemma group_paths_step:
  assumes "valid_path path"
  shows "group_paths rules (path # rest) m un =
    (if effective_owners rules path = [] then group_paths rules rest m (un @ [path])
     else group_paths rules rest (add_path (owners_key rules path) path m) un)"
proof (cases "effective_owners rules path = []")
  case True
  with assms show ?thesis by (simp add: owners_for_effective)
next
  case False
  then have "sort (effective_owners rules path) \<noteq> []" by (metis owners_key_Nil owners_key_def)
  with False assms show ?thesis
    by (simp only: group_paths.simps owners_for_effective bind_result.simps Let_def
        add_path_def group_of_def owners_key_def if_False)
qed

definition regroup :: "codeowners_rule list \<Rightarrow> string list \<Rightarrow> (string list \<times> string list) list
    \<Rightarrow> (string list \<times> string list) list" where
  "regroup rules paths m = fold (\<lambda>q. add_path (owners_key rules q) q) paths m"

lemma group_paths_regroup:
  "list_all valid_path paths \<Longrightarrow> group_paths rules paths m un =
     Inr (regroup rules (filter (\<lambda>q. effective_owners rules q \<noteq> []) paths) m,
          un @ filter (\<lambda>q. effective_owners rules q = []) paths)"
proof (induction paths arbitrary: m un)
  case (Cons path rest)
  then show ?case by (simp add: group_paths_step regroup_def del: group_paths.simps(2))
qed (simp add: regroup_def)

lemma dict_ok_regroup: "dict_ok m \<Longrightarrow> dict_ok (regroup rules paths m)"
  unfolding regroup_def by (induction paths arbitrary: m) (simp_all add: add_path_def dict_ok_update)

lemma keys_regroup:
  "fst ` set (regroup rules paths m) = fst ` set m \<union> owners_key rules ` set paths"
  unfolding regroup_def by (induction paths arbitrary: m) (simp_all add: add_path_def keys_update)

lemma distinct_regroup:
  "(\<And>k. distinct (group_of m k)) \<Longrightarrow> distinct (group_of (regroup rules paths m) k)"
  unfolding regroup_def
  by (induction paths arbitrary: m) (simp_all add: distinct_group_add_path)

lemma set_regroup:
  "set (group_of (regroup rules paths m) k) =
     set (group_of m k) \<union> {q \<in> set paths. owners_key rules q = k}"
  unfolding regroup_def
  by (induction paths arbitrary: m) (auto simp: set_group_add_path)

lemma group_of_mem: "dict_ok m \<Longrightarrow> (k, ps) \<in> set m \<Longrightarrow> group_of m k = ps"
  by (simp add: dict_ok_map_of group_of_def)

text \<open>What the grouping of all evaluated paths promises.\<close>

lemma group_paths_all:
  assumes "list_all valid_path paths"
  shows "\<exists>m. group_paths rules paths [] [] =
      Inr (m, filter (\<lambda>q. effective_owners rules q = []) paths) \<and> dict_ok m \<and>
      (\<forall>k ps. (k, ps) \<in> set m \<longrightarrow> distinct ps \<and> ps \<noteq> [] \<and> k \<noteq> [] \<and>
         set ps = {q \<in> set paths. effective_owners rules q \<noteq> [] \<and> owners_key rules q = k}) \<and>
      (\<forall>q \<in> set paths. effective_owners rules q \<noteq> [] \<longrightarrow> (\<exists>ps. (owners_key rules q, ps) \<in> set m))"
proof -
  let ?qs = "filter (\<lambda>q. effective_owners rules q \<noteq> []) paths"
  let ?m = "regroup rules ?qs []"
  have g0: "group_of [] k = []" for k by (simp add: group_of_def)
  have ok: "dict_ok ?m" by (rule dict_ok_regroup [OF dict_ok_Nil])
  have keys: "fst ` set ?m = owners_key rules ` set ?qs" by (simp add: keys_regroup)
  have entry: "distinct ps \<and> ps \<noteq> [] \<and> k \<noteq> [] \<and>
      set ps = {q \<in> set paths. effective_owners rules q \<noteq> [] \<and> owners_key rules q = k}"
    if "(k, ps) \<in> set ?m" for k ps
  proof -
    have g: "group_of ?m k = ps" using ok that by (rule group_of_mem)
    have d: "distinct ps" using distinct_regroup [of "[]" rules ?qs k] g g0 by simp
    have s: "set ps = {q \<in> set ?qs. owners_key rules q = k}"
      using set_regroup [of rules ?qs "[]" k] g g0 by simp
    have "k \<in> fst ` set ?m" using that by force
    then obtain q where q: "q \<in> set ?qs" "k = owners_key rules q" unfolding keys by blast
    with s have "q \<in> set ps" by simp
    moreover have "k \<noteq> []" using q by simp
    ultimately show ?thesis using s d by auto
  qed
  have found: "\<exists>ps. (owners_key rules q, ps) \<in> set ?m"
    if "q \<in> set paths" "effective_owners rules q \<noteq> []" for q
  proof -
    have "owners_key rules q \<in> fst ` set ?m" unfolding keys using that by simp
    then show ?thesis by auto
  qed
  have "group_paths rules paths [] [] = Inr (?m, filter (\<lambda>q. effective_owners rules q = []) paths)"
    by (simp add: group_paths_regroup [OF assms])
  with ok entry found show ?thesis by blast
qed

section \<open>One owner set\<close>

definition human_covers :: "evidence \<Rightarrow> string set \<Rightarrow> bool" where
  "human_covers ev owners \<longleftrightarrow> (\<exists>(r, ids) \<in> set (ev_humans ev). ids \<inter> owners \<noteq> {})"

definition author_covers :: "evidence \<Rightarrow> string set \<Rightarrow> bool" where
  "author_covers ev owners \<longleftrightarrow> ev_author_identities ev \<inter> owners \<noteq> {}"

definition guarded :: "evidence \<Rightarrow> string \<Rightarrow> bool" where
  "guarded ev path \<longleftrightarrow> any_pattern_matches (non_delegable_patterns (ev_policy ev)) path"

definition app_covers :: "evidence \<Rightarrow> string set \<Rightarrow> string \<Rightarrow> bool" where
  "app_covers ev owners path \<longleftrightarrow> \<not> guarded ev path \<and>
     (\<exists>cd \<in> set (cp_delegations (ev_policy ev)). covers cd path owners \<and>
        labels_ok (rule cd) (ev_labels ev) \<and> dg_app (rule cd) \<in> ev_apps ev)"

definition evidence_ok :: "evidence \<Rightarrow> bool" where
  "evidence_ok ev \<longleftrightarrow> (ev_author_identities ev \<noteq> {} \<longrightarrow> ev_author ev \<noteq> None)"

lemma is_non_delegable_valid: "valid_path q \<Longrightarrow> is_non_delegable (ev_policy ev) q = Inr (guarded ev q)"
  by (simp add: is_non_delegable_def guarded_def)

lemma covered_paths_valid:
  fixes ev :: evidence
  assumes "list_all valid_path paths"
  shows "\<exists>pes. covered_paths (ev_policy ev) expl paths = Inr pes \<and> map pe_path pes = paths"
  using assms
proof (induction paths)
  case (Cons q qs)
  then obtain pes where "covered_paths (ev_policy ev) expl qs = Inr pes" "map pe_path pes = qs" by auto
  with Cons.prems show ?case by (auto simp: covered_paths_def is_non_delegable_valid)
qed (simp add: covered_paths_def)

lemma delegated_path_valid:
  assumes "valid_path path"
  shows "\<exists>pe. delegated_path ev owners path = Inr pe \<and> pe_path pe = path \<and>
    (pe_approved_apps pe \<noteq> [] \<longleftrightarrow> app_covers ev owners path)"
proof (cases "guarded ev path")
  case True
  with assms show ?thesis by (simp add: delegated_path_def is_non_delegable_valid app_covers_def)
next
  case False
  from delegation_decisions_valid [OF assms, of "ev_policy ev" owners "ev_labels ev"]
  obtain ds where ds: "delegation_decisions (ev_policy ev) path owners (ev_labels ev) = Inr ds"
    and el: "app_alias ` {d \<in> set ds. eligible d} = {dg_app (rule cd) |cd.
      cd \<in> set (cp_delegations (ev_policy ev)) \<and> covers cd path owners \<and> labels_ok (rule cd) (ev_labels ev)}"
    by blast
  have e: "set (map app_alias (filter eligible ds)) = app_alias ` {d \<in> set ds. eligible d}" by auto
  have "set (map app_alias (filter eligible ds)) \<inter> ev_apps ev \<noteq> {} \<longleftrightarrow> app_covers ev owners path"
    unfolding e el app_covers_def using False by blast
  moreover have "sorted_list_of_set (set (map app_alias (filter eligible ds)) \<inter> ev_apps ev) = [] \<longleftrightarrow>
      set (map app_alias (filter eligible ds)) \<inter> ev_apps ev = {}"
    by simp
  ultimately show ?thesis
    using assms False ds by (simp add: delegated_path_def is_non_delegable_valid Let_def)
qed

lemma delegated_paths_valid:
  assumes "list_all valid_path paths"
  shows "\<exists>pes. mapM_result (delegated_path ev owners) paths = Inr pes \<and> map pe_path pes = paths \<and>
    (list_all (\<lambda>pe. pe_approved_apps pe \<noteq> []) pes \<longleftrightarrow> list_all (app_covers ev owners) paths)"
  using assms
proof (induction paths)
  case (Cons q qs)
  then obtain pes where "mapM_result (delegated_path ev owners) qs = Inr pes" "map pe_path pes = qs"
    "list_all (\<lambda>pe. pe_approved_apps pe \<noteq> []) pes \<longleftrightarrow> list_all (app_covers ev owners) qs" by auto
  moreover from Cons.prems delegated_path_valid [of q ev owners] obtain pe where
    "delegated_path ev owners q = Inr pe" "pe_path pe = q"
    "pe_approved_apps pe \<noteq> [] \<longleftrightarrow> app_covers ev owners q" by auto
  ultimately show ?case by auto
qed simp

lemma evaluate_owner_set_valid:
  assumes "list_all valid_path paths" and "evidence_ok ev"
  shows "\<exists>rq. evaluate_owner_set ev owners paths = Inr rq \<and> os_owners rq = owners \<and> os_paths rq = paths \<and>
    map pe_path (os_path_evidence rq) = paths \<and>
    (satisfied rq \<longleftrightarrow> human_covers ev (set owners) \<or> author_covers ev (set owners) \<or>
       list_all (app_covers ev (set owners)) paths)"
proof -
  let ?h = "map fst (filter (\<lambda>(r, ids). ids \<inter> set owners \<noteq> {}) (ev_humans ev))"
  have h: "?h \<noteq> [] \<longleftrightarrow> human_covers ev (set owners)"
    by (auto simp: human_covers_def filter_empty_conv)
  note cov = covered_paths_valid [OF assms(1), of ev]
  consider "?h \<noteq> []" | "?h = []" "author_covers ev (set owners)"
    | "?h = []" "\<not> author_covers ev (set owners)" by blast
  then show ?thesis
  proof cases
    case 1
    from cov [of "''covered by the human CODEOWNER approval''"] obtain pes where
      c: "covered_paths (ev_policy ev) ''covered by the human CODEOWNER approval'' paths = Inr pes"
      and m: "map pe_path pes = paths" by blast
    show ?thesis
      unfolding evaluate_owner_set_def Let_def if_P [OF 1] c bind_result.simps
      using 1 h m by (simp only: sum.inject) simp
  next
    case 2
    then obtain a where a: "ev_author ev = Some a" and i: "ev_author_identities ev \<inter> set owners \<noteq> {}"
      using assms(2) by (auto simp: evidence_ok_def author_covers_def)
    from cov [of "''covered by eligible pull-request author evidence''"] obtain pes where
      c: "covered_paths (ev_policy ev) ''covered by eligible pull-request author evidence'' paths = Inr pes"
      and m: "map pe_path pes = paths" by blast
    have n: "\<not> ?h \<noteq> []" using 2 by blast
    show ?thesis
      unfolding evaluate_owner_set_def Let_def if_not_P [OF n] if_P [OF i] a option.case c bind_result.simps
      using 2 m by simp
  next
    case 3
    then have "ev_author_identities ev \<inter> set owners = {}" "\<not> human_covers ev (set owners)"
      using h by (auto simp: author_covers_def)
    from delegated_paths_valid [OF assms(1), of ev "set owners"] obtain pes where
      c: "mapM_result (delegated_path ev (set owners)) paths = Inr pes" and m: "map pe_path pes = paths"
      and ok: "list_all (\<lambda>pe. pe_approved_apps pe \<noteq> []) pes \<longleftrightarrow> list_all (app_covers ev (set owners)) paths"
      by blast
    have n: "\<not> ?h \<noteq> []" using 3 by blast
    have i: "\<not> ev_author_identities ev \<inter> set owners \<noteq> {}" using 3 by (simp add: author_covers_def)
    show ?thesis
      unfolding evaluate_owner_set_def Let_def if_not_P [OF n] if_not_P [OF i] c bind_result.simps
      using 3 h m ok by simp
  qed
qed

lemma evidence_ok_gather: "evidence_ok (gather_evidence data p)"
  by (auto simp: evidence_ok_def gather_evidence_def author_identities_def Let_def split: if_splits option.splits)

section \<open>The evaluation\<close>

definition valid_input :: "evaluation_input \<Rightarrow> bool" where
  "valid_input data \<longleftrightarrow> list_all (\<lambda>f. valid_path (cf_path f) \<and>
     (case previous_path f of None \<Rightarrow> True | Some q \<Rightarrow> valid_path q)) (changed_files data)"

lemma evaluation_paths_valid: "valid_input data \<Longrightarrow> list_all valid_path (evaluation_paths data)"
  by (auto simp: valid_input_def evaluation_paths_def list_all_iff split: option.splits)

lemma passed_conclude: "passed (conclude rqs ws un) \<longleftrightarrow> list_all satisfied rqs"
proof -
  have "length (filter (\<lambda>rq. \<not> satisfied rq) rqs) = 0 \<longleftrightarrow> list_all satisfied rqs"
    by (auto simp: filter_empty_conv list_all_iff)
  then show ?thesis by (auto simp: passed_def conclude_def Let_def split: if_splits)
qed

lemma conclude_fields [simp]:
  "requirements (conclude rqs ws un) = rqs" "unowned_paths (conclude rqs ws un) = un"
  "errors (conclude rqs ws un) = []" "warnings (conclude rqs ws un) = ws"
  by (simp_all add: conclude_def Let_def split: prod.splits)

text \<open>The requirement the loop produces for one group.\<close>

definition requirement_for :: "evidence \<Rightarrow> string list \<times> string list \<Rightarrow> owner_set_result \<Rightarrow> bool" where
  "requirement_for ev g rq \<longleftrightarrow> os_owners rq = fst g \<and> os_paths rq = snd g \<and>
     map pe_path (os_path_evidence rq) = snd g \<and>
     (satisfied rq \<longleftrightarrow> human_covers ev (set (fst g)) \<or> author_covers ev (set (fst g)) \<or>
        list_all (app_covers ev (set (fst g))) (snd g))"

lemma requirements_exist:
  assumes "evidence_ok ev" and "\<forall>g \<in> set groups. list_all valid_path (snd g)"
  shows "\<exists>rqs. mapM_result (\<lambda>(owners, paths). evaluate_owner_set ev owners paths) groups = Inr rqs \<and>
    list_all2 (requirement_for ev) groups rqs"
  using assms(2)
proof (induction groups)
  case (Cons g gs)
  from evaluate_owner_set_valid [OF _ assms(1), of "snd g" "fst g"] Cons.prems obtain rq where
    "evaluate_owner_set ev (fst g) (snd g) = Inr rq" "requirement_for ev g rq"
    by (auto simp: requirement_for_def)
  with Cons show ?case by (auto simp: split_beta)
qed simp

definition groups_ok :: "codeowners_rule list \<Rightarrow> string list \<Rightarrow> (string list \<times> string list) list \<Rightarrow> bool" where
  "groups_ok rules paths m \<longleftrightarrow> dict_ok m \<and>
     (\<forall>k ps. (k, ps) \<in> set m \<longrightarrow> distinct ps \<and> ps \<noteq> [] \<and> k \<noteq> [] \<and>
        set ps = {q \<in> set paths. effective_owners rules q \<noteq> [] \<and> owners_key rules q = k}) \<and>
     (\<forall>q \<in> set paths. effective_owners rules q \<noteq> [] \<longrightarrow> (\<exists>ps. (owners_key rules q, ps) \<in> set m))"

lemma evaluate_requirements:
  assumes "valid_input data" and "enabled (repository_policy_of data)"
    and "parse_codeowners (codeowners_text data) = Inr rules"
    and "compile_policy (organization_policy_of data) (repository_policy_of data) (options data) = Inr p"
  shows "\<exists>m rqs. evaluate data = Inr (conclude rqs (evidence_warnings data)
      (filter (\<lambda>q. effective_owners rules q = []) (evaluation_paths data))) \<and>
    groups_ok rules (evaluation_paths data) m \<and>
    list_all2 (requirement_for (gather_evidence data p)) m rqs"
proof -
  let ?paths = "evaluation_paths data"
  have v: "list_all valid_path ?paths" using assms(1) by (rule evaluation_paths_valid)
  from group_paths_all [OF v, of rules] obtain m where
    g: "group_paths rules ?paths [] [] = Inr (m, filter (\<lambda>q. effective_owners rules q = []) ?paths)"
    and ok: "groups_ok rules ?paths m" unfolding groups_ok_def by blast
  have "\<forall>g \<in> set m. list_all valid_path (snd g)"
    using ok v by (auto simp: groups_ok_def list_all_iff)
  from requirements_exist [OF evidence_ok_gather this] obtain rqs where
    "mapM_result (\<lambda>(owners, paths). evaluate_owner_set (gather_evidence data p) owners paths) m = Inr rqs"
    "list_all2 (requirement_for (gather_evidence data p)) m rqs" by blast
  with g ok show ?thesis
    by (intro exI [of _ m] exI [of _ rqs]) (simp add: evaluate_def assms(2-4))
qed

definition authorized :: "evidence \<Rightarrow> codeowners_rule list \<Rightarrow> string \<Rightarrow> bool" where
  "authorized ev rules path \<longleftrightarrow> (let owners = set (effective_owners rules path) in
     owners = {} \<or> human_covers ev owners \<or> author_covers ev owners \<or> app_covers ev owners path)"

definition authorized_change :: "evaluation_input \<Rightarrow> bool" where
  "authorized_change data \<longleftrightarrow> enabled (repository_policy_of data) \<and>
     (\<exists>rules p. parse_codeowners (codeowners_text data) = Inr rules \<and>
        compile_policy (organization_policy_of data) (repository_policy_of data) (options data) = Inr p \<and>
        list_all (authorized (gather_evidence data p) rules) (evaluation_paths data))"

lemma groups_authorized:
  assumes "groups_ok rules paths m" and "list_all2 (requirement_for ev) m rqs"
  shows "list_all satisfied rqs \<longleftrightarrow> list_all (authorized ev rules) paths"
proof
  assume sat: "list_all satisfied rqs"
  show "list_all (authorized ev rules) paths"
    unfolding list_all_iff
  proof
    fix q assume q: "q \<in> set paths"
    show "authorized ev rules q"
    proof (cases "effective_owners rules q = []")
      case False
      with q assms(1) obtain ps where ps: "(owners_key rules q, ps) \<in> set m"
        unfolding groups_ok_def by blast
      with assms(1) q False have "q \<in> set ps" unfolding groups_ok_def by blast
      moreover obtain rq where "rq \<in> set rqs" "requirement_for ev (owners_key rules q, ps) rq"
        using assms(2) ps by (metis in_set_conv_nth list_all2_conv_all_nth)
      ultimately show ?thesis
        using sat by (auto simp: authorized_def requirement_for_def list_all_iff Let_def)
    qed (simp add: authorized_def)
  qed
next
  assume au: "list_all (authorized ev rules) paths"
  show "list_all satisfied rqs"
    unfolding list_all_iff
  proof
    fix rq assume "rq \<in> set rqs"
    then obtain k ps where g: "(k, ps) \<in> set m" and rq: "requirement_for ev (k, ps) rq"
      using assms(2) by (metis in_set_conv_nth list_all2_conv_all_nth surj_pair)
    with assms(1) have ps: "ps \<noteq> []"
      "set ps = {q \<in> set paths. effective_owners rules q \<noteq> [] \<and> owners_key rules q = k}"
      unfolding groups_ok_def by blast+
    have "human_covers ev (set k) \<or> author_covers ev (set k) \<or> app_covers ev (set k) q"
      if "q \<in> set ps" for q
    proof -
      from that ps have "q \<in> set paths" "effective_owners rules q \<noteq> []" "owners_key rules q = k" by auto
      with au show ?thesis by (auto simp: authorized_def list_all_iff Let_def)
    qed
    with rq show "satisfied rq" by (auto simp: requirement_for_def list_all_iff)
  qed
qed

lemma evaluate_decides:
  assumes "valid_input data"
  shows "\<exists>r. evaluate data = Inr r \<and> (passed r \<longleftrightarrow> authorized_change data)"
proof -
  let ?parse = "parse_codeowners (codeowners_text data)"
  let ?compile = "compile_policy (organization_policy_of data) (repository_policy_of data) (options data)"
  consider "\<not> enabled (repository_policy_of data)"
    | es where "enabled (repository_policy_of data)" "?parse = Inl es"
    | rules es where "enabled (repository_policy_of data)" "?parse = Inr rules" "?compile = Inl es"
    | rules p where "enabled (repository_policy_of data)" "?parse = Inr rules" "?compile = Inr p"
    by (cases ?parse; cases ?compile) auto
  then show ?thesis
  proof cases
    case (4 rules p)
    from evaluate_requirements [OF assms 4] obtain m rqs where
      "evaluate data = Inr (conclude rqs (evidence_warnings data)
        (filter (\<lambda>q. effective_owners rules q = []) (evaluation_paths data)))"
      "groups_ok rules (evaluation_paths data) m"
      "list_all2 (requirement_for (gather_evidence data p)) m rqs" by blast
    with groups_authorized [of rules "evaluation_paths data" m] 4 show ?thesis
      by (auto simp: passed_conclude authorized_change_def)
  qed (auto simp: evaluate_def authorized_change_def passed_def disabled_result_def error_result_def)
qed

text \<open>C11. On validated changed files \<open>evaluate\<close> never raises, and the check passes exactly when
  the change is authorized: the repository policy is enabled, CODEOWNERS parses, both
  policies compile, and every evaluated path (both names of a renamed file) either has no
  owner or is covered by a current human approval from its owners, by an eligible author
  who owns it, or by an approved application whose delegation covers path, owners and
  labels and no guardrail forbids.\<close>

theorem evaluate_passes_iff_authorized:
  assumes "valid_input data"
  shows "\<exists>r. evaluate data = Inr r \<and> (passed r \<longleftrightarrow> authorized_change data)"
  by (rule evaluate_decides [OF assms])

theorem evaluate_passes_iff_authorized_witness:
  "\<exists>r. evaluate sample_input = Inr r \<and> passed r \<and> authorized_change sample_input"
proof -
  have v: "valid_input sample_input" by code_simp
  have "case evaluate sample_input of Inl e \<Rightarrow> False | Inr r \<Rightarrow> passed r" by code_simp
  with evaluate_passes_iff_authorized [OF v] show ?thesis by auto
qed

section \<open>Consequences\<close>

lemma human_covers_gather:
  "human_covers (gather_evidence data p) owners \<longleftrightarrow>
     (\<exists>r \<in> set (fst (current_approvals data)). kind (actor r) = HUMAN \<and>
        human_owner_identities (login (actor r)) (owner_aliases (actor r))
          (direct_owner_eligible (actor r)) \<inter> owners \<noteq> {})"
  by (auto simp: human_covers_def gather_evidence_def human_approvals_by_owner_def Let_def)

lemma compiled_guardrails:
  "compile_policy org rep opts = Inr p \<Longrightarrow> non_delegable_patterns p = guardrail_patterns org rep opts"
  by (auto simp: compile_policy_def Let_def split: prod.splits if_splits)

text \<open>C12. A guarded path always needs a person: when the check passes, every evaluated path that has
  owners and that an organization guardrail (or, unless the operator allowed insecure
  changes, a built-in pattern) matches is covered by a current approval of a human who owns
  it, or by the pull request author when the repository admits authors. No application
  approval, label or repository setting can replace that.\<close>

theorem guarded_path_needs_a_person:
  assumes "valid_input data" and "evaluate data = Inr r" and "passed r"
    and "parse_codeowners (codeowners_text data) = Inr rules"
    and "q \<in> set (evaluation_paths data)" and "effective_owners rules q \<noteq> []"
    and "any_pattern_matches (non_delegable_paths (guardrails_of (organization_policy_of data))) q \<or>
      (\<not> allow_insecure_changes (options data) \<and> any_pattern_matches BUILTIN_NON_DELEGABLE_PATHS q)"
  shows "(\<exists>rv \<in> set (fst (current_approvals data)). kind (actor rv) = HUMAN \<and>
      human_owner_identities (login (actor rv)) (owner_aliases (actor rv))
        (direct_owner_eligible (actor rv)) \<inter> set (effective_owners rules q) \<noteq> {}) \<or>
    (allow_author_as_codeowner (repository_policy_of data) \<and>
      author_identities data \<inter> set (effective_owners rules q) \<noteq> {})"
proof -
  from evaluate_decides [OF assms(1)] assms(2,3) have "authorized_change data" by simp
  then obtain p where p: "compile_policy (organization_policy_of data) (repository_policy_of data)
      (options data) = Inr p" and "authorized (gather_evidence data p) rules q"
    using assms(4,5) by (auto simp: authorized_change_def list_all_iff)
  moreover have "guarded (gather_evidence data p) q"
    using assms(7) by (auto simp: guarded_def gather_evidence_def compiled_guardrails [OF p]
        guardrail_patterns_def any_pattern_matches_def Let_def)
  ultimately have "human_covers (gather_evidence data p) (set (effective_owners rules q)) \<or>
      author_covers (gather_evidence data p) (set (effective_owners rules q))"
    using assms(6) by (auto simp: authorized_def app_covers_def Let_def)
  moreover have "author_covers (gather_evidence data p) os \<longleftrightarrow>
      allow_author_as_codeowner (repository_policy_of data) \<and> author_identities data \<inter> os \<noteq> {}" for os
    by (auto simp: author_covers_def gather_evidence_def author_identities_def Let_def)
  ultimately show ?thesis by (simp only: human_covers_gather)
qed

definition guarded_input :: evaluation_input where
  "guarded_input = sample_input\<lparr>changed_files :=
     [\<lparr>cf_path = ''deploy/x'', cf_status = ADDED, previous_path = None\<rparr>]\<rparr>"

theorem guarded_path_needs_a_person_witness:
  "\<exists>rv \<in> set (fst (current_approvals guarded_input)). kind (actor rv) = HUMAN"
proof -
  have v: "valid_input guarded_input" by code_simp
  have "case evaluate guarded_input of Inl e \<Rightarrow> False | Inr r \<Rightarrow> passed r" by code_simp
  then obtain r where r: "evaluate guarded_input = Inr r" "passed r" by (auto split: sum.splits)
  have c: "case parse_codeowners (codeowners_text guarded_input) of Inl e \<Rightarrow> False
      | Inr rules \<Rightarrow> effective_owners rules ''deploy/x'' \<noteq> []" by code_simp
  then obtain rules where rules: "parse_codeowners (codeowners_text guarded_input) = Inr rules"
    "effective_owners rules ''deploy/x'' \<noteq> []" by (auto split: sum.splits)
  have q: "''deploy/x'' \<in> set (evaluation_paths guarded_input)" by code_simp
  have g: "any_pattern_matches (non_delegable_paths (guardrails_of (organization_policy_of guarded_input)))
      ''deploy/x''" by code_simp
  have n: "\<not> allow_author_as_codeowner (repository_policy_of guarded_input)" by code_simp
  from guarded_path_needs_a_person [OF v r rules(1) q rules(2)] g n show ?thesis by blast
qed

text \<open>C13. No changed path is lost: in a result without errors every evaluated path either is listed
  as unowned, exactly when its effective rule has no owners, or occurs in exactly one
  requirement, the one whose owners are its effective owners; and a requirement explains
  exactly its own paths, in order.\<close>

theorem every_path_is_accounted_for:
  assumes "valid_input data" and "enabled (repository_policy_of data)"
    and "parse_codeowners (codeowners_text data) = Inr rules"
    and "compile_policy (organization_policy_of data) (repository_policy_of data) (options data) = Inr p"
    and "evaluate data = Inr r" and "q \<in> set (evaluation_paths data)"
  shows "if effective_owners rules q = []
    then q \<in> set (unowned_paths r) \<and> (\<forall>rq \<in> set (requirements r). q \<notin> set (os_paths rq))
    else q \<notin> set (unowned_paths r) \<and> (\<exists>rq \<in> set (requirements r). q \<in> set (os_paths rq) \<and>
      os_owners rq = owners_key rules q \<and> map pe_path (os_path_evidence rq) = os_paths rq \<and>
      (\<forall>rq' \<in> set (requirements r). q \<in> set (os_paths rq') \<longrightarrow> os_owners rq' = os_owners rq))"
proof -
  from evaluate_requirements [OF assms(1-4)] assms(5) obtain m rqs where
    r: "r = conclude rqs (evidence_warnings data)
      (filter (\<lambda>q. effective_owners rules q = []) (evaluation_paths data))"
    and ok: "groups_ok rules (evaluation_paths data) m"
    and rqs: "list_all2 (requirement_for (gather_evidence data p)) m rqs" by auto
  have owned: "effective_owners rules q \<noteq> [] \<and> os_owners rq = owners_key rules q"
    if "rq \<in> set rqs" "q \<in> set (os_paths rq)" for rq
  proof -
    from that(1) rqs obtain k ps where "(k, ps) \<in> set m" "requirement_for (gather_evidence data p) (k, ps) rq"
      by (metis in_set_conv_nth list_all2_conv_all_nth surj_pair)
    moreover from this ok have "set ps = {q \<in> set (evaluation_paths data).
        effective_owners rules q \<noteq> [] \<and> owners_key rules q = k}" unfolding groups_ok_def by blast
    ultimately show ?thesis using that(2) by (auto simp: requirement_for_def)
  qed
  show ?thesis
  proof (cases "effective_owners rules q = []")
    case True
    with owned assms(6) show ?thesis by (auto simp: r)
  next
    case False
    with ok assms(6) obtain ps where ps: "(owners_key rules q, ps) \<in> set m"
      unfolding groups_ok_def by blast
    with ok assms(6) False have "q \<in> set ps" unfolding groups_ok_def by blast
    moreover obtain rq where "rq \<in> set rqs"
        "requirement_for (gather_evidence data p) (owners_key rules q, ps) rq"
      using rqs ps by (metis in_set_conv_nth list_all2_conv_all_nth)
    ultimately have rq: "rq \<in> set rqs" "q \<in> set (os_paths rq)" "os_owners rq = owners_key rules q"
      "map pe_path (os_path_evidence rq) = os_paths rq" by (auto simp: requirement_for_def)
    with owned False show ?thesis by (auto simp: r)
  qed
qed

theorem every_path_is_accounted_for_witness:
  "\<exists>r. evaluate sample_input = Inr r \<and> ''a.py'' \<notin> set (unowned_paths r)"
proof -
  have v: "valid_input sample_input" "enabled (repository_policy_of sample_input)" by code_simp+
  have "case parse_codeowners (codeowners_text sample_input) of Inl e \<Rightarrow> False
      | Inr rules \<Rightarrow> effective_owners rules ''a.py'' \<noteq> []" by code_simp
  then obtain rules where rules: "parse_codeowners (codeowners_text sample_input) = Inr rules"
    "effective_owners rules ''a.py'' \<noteq> []" by (auto split: sum.splits)
  have "\<not> isl (compile_policy (organization_policy_of sample_input) (repository_policy_of sample_input)
      (options sample_input))" by code_simp
  then obtain p where p: "compile_policy (organization_policy_of sample_input)
      (repository_policy_of sample_input) (options sample_input) = Inr p" using not_isl_Inr by blast
  have "\<not> isl (evaluate sample_input)" by code_simp
  then obtain r where r: "evaluate sample_input = Inr r" using not_isl_Inr by blast
  have q: "''a.py'' \<in> set (evaluation_paths sample_input)" by code_simp
  from every_path_is_accounted_for [OF v rules(1) p r q] rules(2) r show ?thesis by auto
qed

end
