(* ===== verification/Tables.thy ===== *)
theory Tables
  imports Prelude
begin

text \<open>
  The fragment of SQL that the durable queue uses. A table is the list of its rows; an
  \<open>UPDATE ... WHERE\<close> and a \<open>DELETE ... WHERE\<close> return the table with the row count, a keyed
  \<open>SELECT\<close> finds the row, \<open>ORDER BY ... LIMIT 1\<close> takes the first row of the sorted selection.
  A unique constraint is distinctness of the key over the table.
\<close>

definition sql_update :: "('r \<Rightarrow> bool) \<Rightarrow> ('r \<Rightarrow> 'r) \<Rightarrow> 'r list \<Rightarrow> 'r list \<times> nat" where
  "sql_update c f t = (map (\<lambda>r. if c r then f r else r) t, length (filter c t))"

definition sql_delete :: "('r \<Rightarrow> bool) \<Rightarrow> 'r list \<Rightarrow> 'r list \<times> nat" where
  "sql_delete c t = (filter (\<lambda>r. \<not> c r) t, length (filter c t))"

definition sql_first :: "('r \<Rightarrow> 'k::linorder) \<Rightarrow> ('r \<Rightarrow> bool) \<Rightarrow> 'r list \<Rightarrow> 'r option" where
  "sql_first k c t = (case sort_key k (filter c t) of [] \<Rightarrow> None | r # _ \<Rightarrow> Some r)"

definition sql_ids :: "('r \<Rightarrow> 'k::linorder) \<Rightarrow> ('r \<Rightarrow> bool) \<Rightarrow> nat \<Rightarrow> 'r list \<Rightarrow> 'r list" where
  \<comment> \<open>\<open>ORDER BY ... LIMIT n\<close>\<close>
  "sql_ids k c n t = take n (sort_key k (filter c t))"

definition unique_by :: "('r \<Rightarrow> 'k) \<Rightarrow> 'r list \<Rightarrow> bool" where
  "unique_by k t \<longleftrightarrow> distinct (map k t)"

lemma fst_update [simp]: "fst (sql_update c f t) = map (\<lambda>r. if c r then f r else r) t"
  by (simp add: sql_update_def)

lemma snd_update [simp]: "snd (sql_update c f t) = length (filter c t)"
  by (simp add: sql_update_def)

lemma fst_delete [simp]: "fst (sql_delete c t) = filter (\<lambda>r. \<not> c r) t"
  by (simp add: sql_delete_def)

lemma snd_delete [simp]: "snd (sql_delete c t) = length (filter c t)"
  by (simp add: sql_delete_def)

section \<open>Keys\<close>

lemma unique_by_Nil [simp]: "unique_by k []"
  by (simp add: unique_by_def)

lemma unique_by_eq:
  "unique_by k t \<Longrightarrow> r \<in> set t \<Longrightarrow> r' \<in> set t \<Longrightarrow> k r = k r' \<Longrightarrow> r = r'"
  unfolding unique_by_def by (meson distinct_map inj_on_contraD)

lemma unique_by_map:
  assumes "unique_by k t" and "\<And>r. r \<in> set t \<Longrightarrow> k (f r) = k r"
  shows "unique_by k (map f t)"
proof -
  have "map k (map f t) = map k t" using assms(2) by simp
  with assms(1) show ?thesis unfolding unique_by_def by metis
qed

lemma unique_by_update:
  "unique_by k t \<Longrightarrow> (\<And>r. r \<in> set t \<Longrightarrow> c r \<Longrightarrow> k (f r) = k r) \<Longrightarrow>
     unique_by k (fst (sql_update c f t))"
  unfolding fst_update by (rule unique_by_map) auto

lemma unique_by_filter: "unique_by k t \<Longrightarrow> unique_by k (filter c t)"
  by (simp add: unique_by_def distinct_map_filter)

lemma unique_by_snoc: "unique_by k (t @ [r]) \<longleftrightarrow> unique_by k t \<and> k r \<notin> k ` set t"
  by (auto simp: unique_by_def)

lemma filter_key_length:
  assumes "unique_by k t" and "\<And>r. c r \<Longrightarrow> k r = x"
  shows "length (filter c t) \<le> 1"
proof -
  have u: "unique_by k (filter c t)" using assms(1) by (rule unique_by_filter)
  have "length (filter c t) = card (k ` set (filter c t))"
    using u unfolding unique_by_def by (metis distinct_card length_map set_map)
  also have "\<dots> \<le> card {x}" using assms(2) by (intro card_mono) auto
  finally show ?thesis by simp
qed

lemma filter_key_eq_1:
  assumes "unique_by k t" and "\<And>r. c r \<Longrightarrow> k r = x"
  shows "length (filter c t) = 1 \<longleftrightarrow> (\<exists>r \<in> set t. c r)"
proof -
  have "length (filter c t) \<le> 1" using assms by (rule filter_key_length)
  moreover have "length (filter c t) = 0 \<longleftrightarrow> \<not> (\<exists>r \<in> set t. c r)" by (simp add: filter_empty_conv)
  ultimately show ?thesis by linarith
qed

lemma length_filter_0: "length (filter c t) = 0 \<longleftrightarrow> \<not> (\<exists>r \<in> set t. c r)"
  by (simp add: filter_empty_conv)

lemma find_key:
  assumes "unique_by k t"
  shows "find (\<lambda>r. k r = x) t = Some r \<longleftrightarrow> r \<in> set t \<and> k r = x"
proof
  assume "find (\<lambda>r. k r = x) t = Some r"
  then show "r \<in> set t \<and> k r = x" by (auto simp: find_Some_iff)
next
  assume r: "r \<in> set t \<and> k r = x"
  then have "find (\<lambda>r. k r = x) t \<noteq> None" by (auto simp: find_None_iff)
  then obtain q where q: "find (\<lambda>r. k r = x) t = Some q" by blast
  then have "q \<in> set t" "k q = x" by (auto simp: find_Some_iff)
  with r assms q show "find (\<lambda>r. k r = x) t = Some r" using unique_by_eq by metis
qed

lemma find_None: "find c t = None \<longleftrightarrow> \<not> (\<exists>r \<in> set t. c r)"
  by (auto simp: find_None_iff)

lemma find_SomeD: "find c t = Some r \<Longrightarrow> r \<in> set t \<and> c r"
  by (auto simp: find_Some_iff)

section \<open>Ordered selection\<close>

lemma sql_first_None: "sql_first k c t = None \<longleftrightarrow> \<not> (\<exists>r \<in> set t. c r)"
proof -
  have "sort_key k (filter c t) = [] \<longleftrightarrow> filter c t = []" by (metis length_0_conv length_sort)
  then show ?thesis by (auto simp: sql_first_def filter_empty_conv split: list.splits)
qed

lemma sql_first_Some:
  assumes "sql_first k c t = Some r"
  shows "r \<in> set t" and "c r" and "\<And>r'. r' \<in> set t \<Longrightarrow> c r' \<Longrightarrow> k r \<le> k r'"
proof -
  from assms obtain rs where s: "sort_key k (filter c t) = r # rs"
    by (auto simp: sql_first_def split: list.splits)
  then have m: "set (filter c t) = insert r (set rs)" by (metis list.simps(15) set_sort)
  then show "r \<in> set t" "c r" by auto
  fix r' assume "r' \<in> set t" "c r'"
  with m have "r' = r \<or> r' \<in> set rs" by auto
  moreover have "sorted (map k (r # rs))" by (metis s sorted_sort_key)
  ultimately show "k r \<le> k r'" by auto
qed

lemma sql_ids_set: "set (sql_ids k c n t) \<subseteq> {r \<in> set t. c r}"
  using set_take_subset [of n "sort_key k (filter c t)"] by (auto simp: sql_ids_def)

lemma sql_ids_length: "length (sql_ids k c n t) = min n (length (filter c t))"
  by (simp add: sql_ids_def min.commute)

end
