(* ===== verification/Trace_Context.thy ===== *)
theory Trace_Context
  imports Pystr
begin

text \<open>
  \<open>extra_codeowners/trace_context.py\<close>: the trace identifiers retained with a delivery. A
  field the caller may pass as \<open>None\<close> is an option; \<open>None\<close> fails the \<open>isinstance\<close> test.
\<close>

record trusted_trace_context =
  trace_id :: string
  span_id :: string
  trace_flags :: int

definition lower_hex :: "char \<Rightarrow> bool" where
  "lower_hex c \<longleftrightarrow> c \<in> set ''0123456789abcdef''"

definition hex_id :: "nat \<Rightarrow> string \<Rightarrow> bool" where
  \<comment> \<open>the full match of \<open>[0-9a-f]{n}\<close> with a nonzero value\<close>
  "hex_id n s \<longleftrightarrow> length s = n \<and> list_all lower_hex s \<and> list_ex (\<lambda>c. c \<noteq> CHR ''0'') s"

definition make_trace_context ::
  "string option \<Rightarrow> string option \<Rightarrow> int option \<Rightarrow> string + trusted_trace_context" where
  "make_trace_context tid sid flags =
     (case tid of None \<Rightarrow> Inl ''trace_id must be a nonzero 32-character lowercase hexadecimal value''
      | Some t \<Rightarrow>
        if \<not> hex_id 32 t
        then Inl ''trace_id must be a nonzero 32-character lowercase hexadecimal value''
        else (case sid of None \<Rightarrow> Inl ''span_id must be a nonzero 16-character lowercase hexadecimal value''
         | Some s \<Rightarrow>
           if \<not> hex_id 16 s
           then Inl ''span_id must be a nonzero 16-character lowercase hexadecimal value''
           else (case flags of None \<Rightarrow> Inl ''trace_flags must be an unsigned W3C trace-flags byte''
            | Some f \<Rightarrow>
              if \<not> (0 \<le> f \<and> f \<le> 255) then Inl ''trace_flags must be an unsigned W3C trace-flags byte''
              else Inr \<lparr>trace_id = t, span_id = s, trace_flags = f\<rparr>)))"

definition trace_from_values ::
  "string option \<Rightarrow> string option \<Rightarrow> int option \<Rightarrow> trusted_trace_context option" where
  "trace_from_values tid sid flags =
     (if tid = None \<and> sid = None \<and> flags = None then None
      else (case make_trace_context tid sid flags of Inl _ \<Rightarrow> None | Inr c \<Rightarrow> Some c))"

definition valid_trace :: "trusted_trace_context \<Rightarrow> bool" where
  "valid_trace c \<longleftrightarrow> hex_id 32 (trace_id c) \<and> hex_id 16 (span_id c) \<and> 0 \<le> trace_flags c \<and> trace_flags c \<le> 255"

lemma trace_from_values_roundtrip:
  "valid_trace c \<Longrightarrow>
     trace_from_values (Some (trace_id c)) (Some (span_id c)) (Some (trace_flags c)) = Some c"
  by (cases c) (simp add: trace_from_values_def make_trace_context_def valid_trace_def)

lemma trace_from_values_valid: "trace_from_values t s f = Some c \<Longrightarrow> valid_trace c"
  by (auto simp: trace_from_values_def make_trace_context_def valid_trace_def
      split: option.splits if_splits sum.splits)

end
