(* ===== verification/Queue_State.thy ===== *)
theory Queue_State
  imports Tables Trace_Context
begin

text \<open>
  The durable state of \<open>extra_codeowners/database.py\<close>: one row record per table, the
  validators of durable keys, and the request and claim values the operations exchange.
  The \<open>db\<close> record is the whole database; every \<open>QueueStore\<close> method is later one function on
  it, because each runs in one transaction that holds the row locks it needs. A time is an
  integer number of microseconds, and the clock reading of a transaction is the argument
  \<open>now\<close> of its function (the code reads the clock again within one transaction only to
  stamp rows).
\<close>

section \<open>Constants and validators\<close>

datatype queue_error = ValueError string | RuntimeError string

datatype work_class = Interactive | Recovery

text \<open>Direct work is ordered before recovery work, so that groups by class have an order.\<close>

instantiation work_class :: linorder
begin

definition less_eq_work_class :: "work_class \<Rightarrow> work_class \<Rightarrow> bool" where
  "less_eq_work_class v w \<longleftrightarrow> v = Interactive \<or> w = Recovery"

definition less_work_class :: "work_class \<Rightarrow> work_class \<Rightarrow> bool" where
  "less_work_class v w \<longleftrightarrow> v = Interactive \<and> w = Recovery"

instance
proof
  fix u v w :: work_class
  show "v < w \<longleftrightarrow> v \<le> w \<and> \<not> w \<le> v" "v \<le> v" "u \<le> v \<Longrightarrow> v \<le> w \<Longrightarrow> u \<le> w"
    "v \<le> w \<Longrightarrow> w \<le> v \<Longrightarrow> v = w" "v \<le> w \<or> w \<le> v"
    by (cases u; cases v; cases w; simp add: less_eq_work_class_def less_work_class_def)+
qed

end

datatype job_state = Pending | Dead

definition seconds :: "int \<Rightarrow> int" where
  "seconds n = n * 1000000"

definition MAX_BASE_SCOPED_AUTHORITY_JOBS_PER_REPOSITORY :: nat where
  "MAX_BASE_SCOPED_AUTHORITY_JOBS_PER_REPOSITORY = 100"

definition MAX_AUTHORITY_BASE_REF_LENGTH :: nat where
  "MAX_AUTHORITY_BASE_REF_LENGTH = 255"

definition SCHEDULED_RECHECK_REASON :: string where
  "SCHEDULED_RECHECK_REASON = ''scheduled_recheck''"

definition PERIODIC_RECONCILIATION_REASON :: string where
  "PERIODIC_RECONCILIATION_REASON = ''periodic_reconciliation''"

definition normalize_repository_full_name :: "string \<Rightarrow> queue_error + string" where
  "normalize_repository_full_name value =
     (if value = [] \<or> value \<noteq> strip value \<or> 512 < length value
         \<or> length (filter (\<lambda>c. c = CHR ''/'') value) \<noteq> 1
         \<or> list_ex (\<lambda>part. part = [] \<or> part = ''.'' \<or> part = ''..'') (split_on (CHR ''/'') value)
      then Inl (ValueError ''repository_full_name must be a valid owner/repository name'')
      else Inr (lower value))"

definition ref_hint_ok :: "string \<Rightarrow> bool" where
  "ref_hint_ok value \<longleftrightarrow> value \<noteq> [] \<and> length value \<le> MAX_AUTHORITY_BASE_REF_LENGTH \<and>
     \<not> list_ex (\<lambda>c. code c < 32 \<or> code c = 127) value"

definition validate_base_ref_hint :: "string option \<Rightarrow> queue_error + string option" where
  "validate_base_ref_hint value = (case value of None \<Rightarrow> Inr None
     | Some v \<Rightarrow> if \<not> ref_hint_ok v
         then Inl (ValueError ''base_ref_hint must be a valid branch ref of at most 255 characters'')
         else Inr (Some v))"

definition validate_head_sha :: "string \<Rightarrow> queue_error + string" where
  "validate_head_sha value =
     (if length value \<notin> {40, 64} \<or> list_ex (\<lambda>c. \<not> lower_hex c) value
      then Inl (ValueError ''head_sha must be exactly 40 or 64 lowercase ASCII hexadecimal characters'')
      else Inr value)"

definition canonical_repo :: "string \<Rightarrow> bool" where
  "canonical_repo r \<longleftrightarrow> normalize_repository_full_name r = Inr r"

lemma lower_char_low:
  assumes "code d < 65"
  shows "lower_char c = d \<longleftrightarrow> c = d"
proof
  assume e: "lower_char c = d"
  show "c = d"
  proof (cases "lower_char c = c")
    case False
    then have "65 \<le> code c" "code c \<le> 222" "lower_char c = char_of (code c + 32)"
      by (auto simp: lower_char_def Let_def split: if_splits)
    then have "code (lower_char c) = code c + 32" "65 \<le> code c" by simp_all
    with e assms show ?thesis by simp
  qed (use e in simp)
next
  assume "c = d"
  with assms show "lower_char c = d" by (simp add: lower_char_def)
qed

lemma lower_char_slash: "lower_char c = CHR ''/'' \<longleftrightarrow> c = CHR ''/''"
  by (rule lower_char_low) simp

lemma lower_char_dot: "lower_char c = CHR ''.'' \<longleftrightarrow> c = CHR ''.''"
  by (rule lower_char_low) simp

lemma split_on_lower: "split_on (CHR ''/'') (lower s) = map lower (split_on (CHR ''/'') s)"
proof (induction s)
  case (Cons c s)
  then show ?case
    by (auto simp: lower_def lower_char_slash split: list.splits)
qed (simp add: lower_def)

lemma normalize_repository_canonical:
  assumes "normalize_repository_full_name v = Inr r"
  shows "canonical_repo r"
proof -
  have r: "r = lower v" using assms by (auto simp: normalize_repository_full_name_def split: if_splits)
  have "lower v = [] \<longleftrightarrow> v = []" by (simp add: lower_def)
  moreover have "strip v = v \<Longrightarrow> strip (lower v) = lower v" by (simp add: strip_lower)
  moreover have "length (filter (\<lambda>c. c = CHR ''/'') (lower v)) = length (filter (\<lambda>c. c = CHR ''/'') v)"
    by (simp add: lower_def filter_map comp_def lower_char_slash)
  moreover have "list_ex (\<lambda>part. part = [] \<or> part = ''.'' \<or> part = ''..'') (split_on (CHR ''/'') (lower v)) =
      list_ex (\<lambda>part. part = [] \<or> part = ''.'' \<or> part = ''..'') (split_on (CHR ''/'') v)"
    unfolding split_on_lower
    by (auto simp: list_ex_iff lower_def map_eq_Cons_conv lower_char_dot)
  ultimately show ?thesis
    using assms unfolding canonical_repo_def r normalize_repository_full_name_def
    by (auto split: if_splits)
qed

lemma validate_head_sha_Inr: "validate_head_sha h = Inr h' \<Longrightarrow> h' = h"
  by (auto simp: validate_head_sha_def split: if_splits)

section \<open>Rows\<close>

text \<open>\<open>EvaluationJob\<close>, unique per (installation, repository, pull request).\<close>

record job =
  j_id :: int
  j_installation :: int
  j_repo :: string
  j_pull :: int
  j_head :: "string option"
  j_base :: "string option"
  j_delivery :: "string option"
  j_reason :: string
  j_class :: work_class
  j_generation :: int
  j_authority :: int
  j_shared :: int
  j_state :: job_state
  j_attempts :: int
  j_requested :: int
  j_available :: int
  j_owner :: "string option"
  j_lease :: "int option"
  j_error :: "string option"

text \<open>\<open>WebhookDelivery\<close>, keyed by the delivery id.\<close>

record delivery =
  d_id :: string
  d_event :: string
  d_received :: int
  d_required :: bool
  d_completed :: "int option"
  d_installation :: "int option"
  d_repo :: "string option"
  d_pull :: "int option"
  d_head :: "string option"
  d_shared :: "int option"
  d_trace :: "string option"
  d_span :: "string option"
  d_flags :: "int option"

record audit =
  au_repo :: string
  au_pull :: int
  au_head :: string
  au_conclusion :: string
  au_details :: string
  au_evaluated :: int

record service_lease =
  sl_name :: string
  sl_owner :: string
  sl_until :: int

text \<open>\<open>AuthorityJob\<close>, unique per (installation, scope, base ref). JSON dictionaries keep their
  insertion order.\<close>

record authority_job =
  a_id :: int
  a_installation :: int
  a_scope :: string
  a_base :: string
  a_reason :: string
  a_generation :: int
  a_cursor :: int
  a_fingerprints :: "(string \<times> string) list"
  a_page :: int
  a_last :: int
  a_expected :: "int option"
  a_member_page :: int
  a_member_expected :: "int option"
  a_targets :: "(string \<times> string) list"
  a_wake :: int
  a_pending_refs :: "(string \<times> string) list"
  a_pending_full :: bool
  a_pending_reason :: "string option"
  a_state :: job_state
  a_attempts :: int
  a_requested :: int
  a_available :: int
  a_owner :: "string option"
  a_lease :: "int option"
  a_error :: "string option"

record authority_epoch =
  ae_installation :: int
  ae_generation :: int
  ae_changed :: int

text \<open>\<open>SharedHeadEpoch\<close>, keyed by (installation, repository, head).\<close>

record head_epoch =
  e_installation :: int
  e_repo :: string
  e_head :: string
  e_generation :: int
  e_invalidated :: int
  e_class :: work_class
  e_changed :: int
  e_available :: int
  e_attempts :: int
  e_owner :: "string option"
  e_lease :: "int option"
  e_error :: "string option"

record reconciliation_state =
  rs_installation :: int
  rs_repo :: string
  rs_pull :: int
  rs_head :: string
  rs_completed :: int
  rs_confirmed :: "int option"
  rs_observed :: int

record backpressure =
  bp_installation :: int
  bp_until :: int
  bp_reason :: string
  bp_updated :: int

record db =
  jobs :: "job list"
  next_job_id :: int
  deliveries :: "delivery list"
  audits :: "audit list"
  leases :: "service_lease list"
  authorities :: "authority_job list"
  next_authority_id :: int
  authority_epochs :: "authority_epoch list"
  epochs :: "head_epoch list"
  recon :: "reconciliation_state list"
  pressures :: "backpressure list"

definition empty_db :: db where
  "empty_db = \<lparr>jobs = [], next_job_id = 1, deliveries = [], audits = [], leases = [],
     authorities = [], next_authority_id = 1, authority_epochs = [], epochs = [], recon = [],
     pressures = []\<rparr>"

definition job_key :: "job \<Rightarrow> int \<times> string \<times> int" where
  "job_key j = (j_installation j, j_repo j, j_pull j)"

definition epoch_key :: "head_epoch \<Rightarrow> int \<times> string \<times> string" where
  "epoch_key e = (e_installation e, e_repo e, e_head e)"

definition authority_key :: "authority_job \<Rightarrow> int \<times> string \<times> string" where
  "authority_key a = (a_installation a, a_scope a, a_base a)"

definition recon_key :: "reconciliation_state \<Rightarrow> int \<times> string \<times> int" where
  "recon_key s = (rs_installation s, rs_repo s, rs_pull s)"

section \<open>Requests\<close>

record job_request =
  q_installation :: int
  q_repo :: string
  q_pull :: int
  q_reason :: string
  q_head :: "string option"
  q_class :: work_class
  q_observed :: "int option"
  q_base :: "string option"

text \<open>The constructor with its \<open>__post_init__\<close>; the work class arrives as text, and a naive
  \<open>observed_at\<close> is marked by the flag of the pair.\<close>

definition parse_work_class :: "string \<Rightarrow> work_class option" where
  "parse_work_class s = (if s = ''interactive'' then Some Interactive
     else if s = ''recovery'' then Some Recovery else None)"

definition make_job_request ::
  "int \<Rightarrow> string \<Rightarrow> int \<Rightarrow> string \<Rightarrow> string option \<Rightarrow> string \<Rightarrow> (bool \<times> int) option \<Rightarrow> string option
     \<Rightarrow> queue_error + job_request" where
  "make_job_request inst repo pull reason head wc observed base =
     bind_result (normalize_repository_full_name repo) (\<lambda>repo.
       let wc = (if reason \<in> {PERIODIC_RECONCILIATION_REASON, SCHEDULED_RECHECK_REASON} \<and>
                    wc = ''interactive'' then ''recovery'' else wc) in
       case parse_work_class wc of
         None \<Rightarrow> Inl (ValueError ''work_class must be interactive or recovery'')
       | Some work \<Rightarrow>
           (case observed of
              Some (False, _) \<Rightarrow> Inl (ValueError ''observed_at must include a timezone'')
            | _ \<Rightarrow> bind_result (validate_base_ref_hint base) (\<lambda>_.
                Inr \<lparr>q_installation = inst, q_repo = repo, q_pull = pull, q_reason = reason,
                     q_head = head, q_class = work, q_observed = map_option snd observed,
                     q_base = base\<rparr>)))"

lemma make_job_request_canonical:
  assumes "make_job_request i r p reason head wc obs base = Inr q"
  shows "canonical_repo (q_repo q)"
proof (cases "normalize_repository_full_name r")
  case (Inl e)
  with assms show ?thesis by (simp add: make_job_request_def)
next
  case (Inr a)
  with assms have "q_repo q = a"
    by (auto simp: make_job_request_def Let_def split: option.splits prod.splits bool.splits)
  with Inr normalize_repository_canonical show ?thesis by blast
qed

definition show_work_class :: "work_class \<Rightarrow> string" where
  "show_work_class w = (case w of Interactive \<Rightarrow> ''interactive'' | Recovery \<Rightarrow> ''recovery'')"

record authority_request =
  aq_installation :: int
  aq_repo :: "string option"
  aq_base :: "string option"
  aq_reason :: string

definition make_authority_request ::
  "int \<Rightarrow> string option \<Rightarrow> string option \<Rightarrow> string \<Rightarrow> queue_error + authority_request" where
  "make_authority_request inst repo base reason =
     (case repo of
        None \<Rightarrow> Inr \<lparr>aq_installation = inst, aq_repo = None, aq_base = base, aq_reason = reason\<rparr>
      | Some r \<Rightarrow> bind_result (normalize_repository_full_name r) (\<lambda>n.
          Inr \<lparr>aq_installation = inst, aq_repo = Some n, aq_base = base, aq_reason = reason\<rparr>))"

definition scope_key :: "authority_request \<Rightarrow> string" where
  "scope_key q = (case aq_repo q of None \<Rightarrow> ''*'' | Some r \<Rightarrow> if r = [] then ''*'' else r)"

section \<open>Claims\<close>

record claimed_job =
  c_id :: int
  c_installation :: int
  c_repo :: string
  c_pull :: int
  c_reason :: string
  c_class :: work_class
  c_head :: "string option"
  c_delivery :: "string option"
  c_trace :: "trusted_trace_context option"
  c_generation :: int
  c_authority :: int
  c_shared :: int
  c_attempts :: int
  c_requested :: int
  c_available :: int
  c_owner :: string
  c_base :: "string option"

definition keeps_published_check :: "claimed_job \<Rightarrow> bool" where
  "keeps_published_check c \<longleftrightarrow> c_reason c = SCHEDULED_RECHECK_REASON \<and> c_attempts c \<le> 1"

record claimed_authority =
  ca_id :: int
  ca_installation :: int
  ca_repo :: "string option"
  ca_base :: "string option"
  ca_reason :: string
  ca_generation :: int
  ca_attempts :: int
  ca_owner :: string
  ca_cursor :: int
  ca_fingerprints :: "(string \<times> string) list"
  ca_page :: int
  ca_last :: int
  ca_wake :: int
  ca_expected :: "int option"
  ca_member_page :: int
  ca_member_expected :: "int option"
  ca_targets :: "(string \<times> string) list"

record claimed_head =
  ch_installation :: int
  ch_repo :: string
  ch_head :: string
  ch_generation :: int
  ch_class :: work_class
  ch_attempts :: int
  ch_requested :: int
  ch_available :: int
  ch_owner :: string

record delivery_acceptance =
  accepted :: bool
  da_shared :: "int option"

end
