(* ===== verification/Queue_Enqueue.thy ===== *)
theory Queue_Enqueue
  imports Queue_State
begin

text \<open>
  \<open>database.py\<close>, the exact-head fence (\<open>SharedHeadEpoch\<close>) and the coalescing of evaluation
  requests into one row per pull request. A method that raises returns \<open>Inl\<close>, and its
  transaction is rolled back. The retry loops around \<open>IntegrityError\<close> only cover two
  transactions racing for the first insert of a key; a transaction that runs alone commits
  in its first iteration.
\<close>

section \<open>The exact-head fence\<close>

definition is_epoch :: "int \<Rightarrow> string \<Rightarrow> string \<Rightarrow> head_epoch \<Rightarrow> bool" where
  "is_epoch inst repo head e \<longleftrightarrow> e_installation e = inst \<and> e_repo e = repo \<and> e_head e = head"

definition find_epoch :: "db \<Rightarrow> int \<Rightarrow> string \<Rightarrow> string \<Rightarrow> head_epoch option" where
  "find_epoch d inst repo head = find (is_epoch inst repo head) (epochs d)"

definition head_generation :: "db \<Rightarrow> int \<Rightarrow> string \<Rightarrow> string option \<Rightarrow> int" where
  \<comment> \<open>\<open>_shared_head_generation_in_session\<close>\<close>
  "head_generation d inst repo head = (case head of None \<Rightarrow> 0
     | Some h \<Rightarrow> (case find_epoch d inst repo h of None \<Rightarrow> 0 | Some e \<Rightarrow> e_generation e))"

text \<open>\<open>_lock_shared_head_epoch_in_session\<close>: what remains of it in one transaction is the
  validation of the head.\<close>

definition lock_shared_head_epoch :: "job_request \<Rightarrow> queue_error + string" where
  "lock_shared_head_epoch q = validate_head_sha (case q_head q of None \<Rightarrow> [] | Some h \<Rightarrow> h)"

definition touch_shared_head_epoch :: "int \<Rightarrow> job_request \<Rightarrow> db \<Rightarrow> queue_error + db \<times> int" where
  "touch_shared_head_epoch now q d =
     bind_result (validate_head_sha (case q_head q of None \<Rightarrow> [] | Some h \<Rightarrow> h)) (\<lambda>head.
       let d' = d\<lparr>epochs := fst (sql_update (is_epoch (q_installation q) (q_repo q) head)
                                  (\<lambda>e. e\<lparr>e_changed := now\<rparr>) (epochs d))\<rparr>
       in Inr (d', head_generation d' (q_installation q) (q_repo q) (Some head)))"

definition foreground_waiting :: "db \<Rightarrow> job_request \<Rightarrow> string \<Rightarrow> bool" where
  "foreground_waiting d q head = list_ex (\<lambda>j. j_installation j = q_installation q \<and> j_repo j = q_repo q \<and>
     j_state j = Pending \<and> j_class j = Interactive \<and>
     (j_head j = Some head \<or> (j_head j = None \<and> j_pull j = q_pull q))) (jobs d)"

definition bump_epoch :: "int \<Rightarrow> bool \<Rightarrow> work_class \<Rightarrow> head_epoch \<Rightarrow> head_epoch" where
  "bump_epoch now fg wc e = e\<lparr>e_generation := e_generation e + 1,
     e_class := (if fg \<or> (e_class e = Interactive \<and> e_invalidated e < e_generation e)
                 then Interactive else wc),
     e_changed := now, e_available := now, e_attempts := 0, e_owner := None, e_lease := None,
     e_error := None\<rparr>"

definition new_epoch :: "int \<Rightarrow> bool \<Rightarrow> job_request \<Rightarrow> string \<Rightarrow> head_epoch" where
  "new_epoch now fg q head = \<lparr>e_installation = q_installation q, e_repo = q_repo q, e_head = head,
     e_generation = 1, e_invalidated = 0, e_class = (if fg then Interactive else q_class q),
     e_changed = now, e_available = now, e_attempts = 0, e_owner = None, e_lease = None,
     e_error = None\<rparr>"

definition advance_shared_head_epoch :: "int \<Rightarrow> job_request \<Rightarrow> db \<Rightarrow> queue_error + db \<times> int" where
  "advance_shared_head_epoch now q d =
     bind_result (lock_shared_head_epoch q) (\<lambda>_.
     bind_result (validate_head_sha (case q_head q of None \<Rightarrow> [] | Some h \<Rightarrow> h)) (\<lambda>head.
       let fg = foreground_waiting d q head;
           key = is_epoch (q_installation q) (q_repo q) head;
           (updated, n) = sql_update key (bump_epoch now fg (q_class q)) (epochs d) in
       if n = 1
       then (case find key updated of
               None \<Rightarrow> Inl (RuntimeError ''shared-head epoch disappeared during advancement'')
             | Some e \<Rightarrow> Inr (d\<lparr>epochs := updated\<rparr>, e_generation e))
       else Inr (d\<lparr>epochs := updated @ [new_epoch now fg q head]\<rparr>, 1)))"

section \<open>Enqueueing\<close>

definition is_job :: "int \<Rightarrow> string \<Rightarrow> int \<Rightarrow> job \<Rightarrow> bool" where
  "is_job inst repo pull j \<longleftrightarrow> j_installation j = inst \<and> j_repo j = repo \<and> j_pull j = pull"

definition authority_generation_of :: "db \<Rightarrow> int \<Rightarrow> int" where
  "authority_generation_of d inst =
     (case find (\<lambda>e. ae_installation e = inst) (authority_epochs d) of
        None \<Rightarrow> 0 | Some e \<Rightarrow> ae_generation e)"

text \<open>\<open>_wake_authority_for_interactive\<close>\<close>

definition covers_request :: "job_request \<Rightarrow> authority_job \<Rightarrow> bool" where
  "covers_request q a \<longleftrightarrow> a_installation a = q_installation q \<and>
     (a_scope a = ''*'' \<or> (a_scope a = q_repo q \<and> (a_base a = [] \<or> Some (a_base a) = q_base q)))"

definition wake_authority_for_interactive :: "int \<Rightarrow> job_request \<Rightarrow> db \<Rightarrow> db" where
  "wake_authority_for_interactive now q d =
     (if q_class q = Interactive
      then d\<lparr>authorities := fst (sql_update (\<lambda>a. covers_request q a \<and> a_state a = Pending)
               (\<lambda>a. a\<lparr>a_available := now, a_wake := a_wake a + 1\<rparr>) (authorities d))\<rparr>
      else d)"

definition refresh_job ::
  "int \<Rightarrow> job_request \<Rightarrow> string option \<Rightarrow> int \<Rightarrow> int \<Rightarrow> bool \<Rightarrow> job \<Rightarrow> job" where
  "refresh_job now q delivery_id authority shared preserve_work_class j = j\<lparr>
     j_generation := j_generation j + 1,
     j_class := (if preserve_work_class \<and> j_class j = Interactive then Interactive else q_class q),
     j_authority := authority, j_shared := shared, j_reason := q_reason q, j_head := q_head q,
     j_base := q_base q, j_requested := now, j_available := now, j_state := Pending,
     j_attempts := 0, j_owner := None, j_lease := None, j_error := None,
     j_delivery := (case delivery_id of None \<Rightarrow> j_delivery j | Some i \<Rightarrow> Some i)\<rparr>"

definition new_job :: "int \<Rightarrow> int \<Rightarrow> job_request \<Rightarrow> string option \<Rightarrow> int \<Rightarrow> int \<Rightarrow> job" where
  "new_job now i q delivery_id authority shared = \<lparr>j_id = i, j_installation = q_installation q,
     j_repo = q_repo q, j_pull = q_pull q, j_head = q_head q, j_base = q_base q,
     j_delivery = delivery_id, j_reason = q_reason q, j_class = q_class q, j_generation = 1,
     j_authority = authority, j_shared = shared, j_state = Pending, j_attempts = 0,
     j_requested = now, j_available = now, j_owner = None, j_lease = None, j_error = None\<rparr>"

definition insert_job :: "(int \<Rightarrow> job) \<Rightarrow> db \<Rightarrow> db" where
  "insert_job mk d = d\<lparr>jobs := jobs d @ [mk (next_job_id d)], next_job_id := next_job_id d + 1\<rparr>"

definition enqueue_in_session ::
  "int \<Rightarrow> job_request \<Rightarrow> string option \<Rightarrow> int option \<Rightarrow> bool \<Rightarrow> bool \<Rightarrow> db \<Rightarrow> db" where
  "enqueue_in_session now q delivery_id shared preserve_different_head preserve_work_class d =
     (let authority = authority_generation_of d (q_installation q);
          shared_generation = (case shared of None \<Rightarrow>
              head_generation d (q_installation q) (q_repo q) (q_head q) | Some g \<Rightarrow> g);
          key = is_job (q_installation q) (q_repo q) (q_pull q);
          cond = (\<lambda>j. key j \<and> (preserve_different_head \<longrightarrow> j_head j = None \<or> j_head j = q_head q));
          (updated, n) = sql_update cond
            (refresh_job now q delivery_id authority shared_generation preserve_work_class) (jobs d) in
      if n = 1 then wake_authority_for_interactive now q (d\<lparr>jobs := updated\<rparr>)
      else if preserve_different_head \<and> list_ex key updated then d\<lparr>jobs := updated\<rparr>
      else wake_authority_for_interactive now q
        (insert_job (\<lambda>i. new_job now i q delivery_id authority shared_generation) (d\<lparr>jobs := updated\<rparr>)))"

definition enqueue_shared_head_trigger :: "int \<Rightarrow> job_request \<Rightarrow> db \<Rightarrow> queue_error + db" where
  "enqueue_shared_head_trigger now q d =
     bind_result (advance_shared_head_epoch now q d) (\<lambda>(d', g).
       Inr (enqueue_in_session now q None (Some g) False True d'))"

definition enqueue :: "int \<Rightarrow> job_request \<Rightarrow> db \<Rightarrow> queue_error + db" where
  "enqueue now q d = (if q_head q \<noteq> None then enqueue_shared_head_trigger now q d
     else Inr (enqueue_in_session now q None None False True d))"

definition enqueue_for_shared_head_generation ::
  "int \<Rightarrow> job_request \<Rightarrow> int \<Rightarrow> db \<Rightarrow> queue_error + db \<times> bool" where
  "enqueue_for_shared_head_generation now q generation d =
     bind_result (validate_head_sha (case q_head q of None \<Rightarrow> [] | Some h \<Rightarrow> h)) (\<lambda>head.
       if generation \<le> 0 then Inl (ValueError ''shared_head_generation must be positive'')
       else if map_option e_generation (find_epoch d (q_installation q) (q_repo q) head) \<noteq> Some generation
       then Inr (d, False)
       else (case find (is_job (q_installation q) (q_repo q) (q_pull q)) (jobs d) of
               Some j \<Rightarrow> if j_head j \<noteq> None \<and> j_head j \<noteq> Some head then Inr (d, True)
                 else Inr (enqueue_in_session now q None (Some generation) True True d, True)
             | None \<Rightarrow> Inr (enqueue_in_session now q None (Some generation) True True d, True)))"

text \<open>\<open>INSERT ... ON CONFLICT DO NOTHING\<close>: a conflict raises and rolls the transaction back.\<close>

definition insert_if_absent :: "int \<Rightarrow> job_request \<Rightarrow> int \<Rightarrow> db \<Rightarrow> db option" where
  "insert_if_absent now q shared d =
     (if list_ex (is_job (q_installation q) (q_repo q) (q_pull q)) (jobs d) then None
      else Some (insert_job (\<lambda>i. new_job now i q None
        (authority_generation_of d (q_installation q)) shared) d))"

definition enqueue_if_absent :: "int \<Rightarrow> job_request \<Rightarrow> db \<Rightarrow> queue_error + db \<times> bool" where
  "enqueue_if_absent now q d =
     bind_result (if q_head q \<noteq> None then advance_shared_head_epoch now q d else Inr (d, 0))
       (\<lambda>(d', shared). case insert_if_absent now q shared d' of
          None \<Rightarrow> Inr (d, False) | Some d'' \<Rightarrow> Inr (d'', True))"

section \<open>Reconciliation\<close>

definition is_recon :: "int \<Rightarrow> string \<Rightarrow> int \<Rightarrow> reconciliation_state \<Rightarrow> bool" where
  "is_recon inst repo pull s \<longleftrightarrow> rs_installation s = inst \<and> rs_repo s = repo \<and> rs_pull s = pull"

definition observe_recon :: "int \<Rightarrow> job_request \<Rightarrow> db \<Rightarrow> db" where
  \<comment> \<open>\<open>if state is not None: state.observed_at = now\<close>\<close>
  "observe_recon now q d = d\<lparr>recon := fst (sql_update (is_recon (q_installation q) (q_repo q) (q_pull q))
     (\<lambda>s. s\<lparr>rs_observed := now\<rparr>) (recon d))\<rparr>"

definition confirmed_at :: "job_request \<Rightarrow> db \<Rightarrow> int option" where
  "confirmed_at q d = (case find (is_recon (q_installation q) (q_repo q) (q_pull q)) (recon d) of
      None \<Rightarrow> None
    | Some s \<Rightarrow> if Some (rs_head s) = q_head q \<and> rs_confirmed s = Some (rs_completed s)
        then Some (rs_completed s) else None)"

definition reconcile_existing ::
  "int \<Rightarrow> job_request \<Rightarrow> int \<Rightarrow> job \<Rightarrow> db \<Rightarrow> queue_error + db \<times> bool" where
  "reconcile_existing now q observed j d =
     (if j_head j = q_head q then Inr (observe_recon now q d, False)
      else if j_class j = Interactive \<and> observed < j_requested j
      then Inr (observe_recon now q d, False)
      else bind_result (advance_shared_head_epoch now q d) (\<lambda>(d', g).
        Inr (observe_recon now q
          (enqueue_in_session now q None (Some g) False (j_class j \<noteq> Interactive) d'), True)))"

definition reconcile_missing :: "int \<Rightarrow> job_request \<Rightarrow> int \<Rightarrow> db \<Rightarrow> queue_error + db \<times> bool" where
  "reconcile_missing now q recheck_seconds d =
     (case confirmed_at q d of
        Some t \<Rightarrow>
          if now - seconds recheck_seconds < t then Inr (observe_recon now q d, False)
          else (let q' = q\<lparr>q_reason := SCHEDULED_RECHECK_REASON\<rparr> in
                bind_result (touch_shared_head_epoch now q' d) (\<lambda>(d', g).
                  case insert_if_absent now q' g d' of
                    None \<Rightarrow> Inr (d, False) | Some d'' \<Rightarrow> Inr (d'', True)))
      | None \<Rightarrow> bind_result (advance_shared_head_epoch now q d) (\<lambda>(d', g).
          case insert_if_absent now q g d' of
            None \<Rightarrow> Inr (d, False) | Some d'' \<Rightarrow> Inr (d'', True)))"

definition enqueue_reconciliation_if_due ::
  "int \<Rightarrow> job_request \<Rightarrow> int \<Rightarrow> db \<Rightarrow> queue_error + db \<times> bool" where
  "enqueue_reconciliation_if_due now q recheck_seconds d =
     (if q_class q \<noteq> Recovery
      then Inl (ValueError ''reconciliation work must use the recovery class'')
      else if q_head q = None
      then Inl (ValueError ''reconciliation work requires an exact head SHA'')
      else (case q_observed q of
        None \<Rightarrow> Inl (ValueError ''reconciliation work requires a GitHub observation timestamp'')
      | Some observed \<Rightarrow>
          if recheck_seconds < 1 then Inl (ValueError ''recheck_seconds must be positive'')
          else bind_result (lock_shared_head_epoch q) (\<lambda>_.
            case find (is_job (q_installation q) (q_repo q) (q_pull q)) (jobs d) of
              Some j \<Rightarrow> reconcile_existing now q observed j d
            | None \<Rightarrow> reconcile_missing now q recheck_seconds d)))"

end
