(* ===== verification/Queue_Delivery.thy ===== *)
theory Queue_Delivery
  imports Queue_Enqueue
begin

text \<open>
  \<open>database.py\<close>, the acceptance of webhook deliveries, the coalescing of authority changes
  and the predicates a worker asks before it publishes a check.
\<close>

section \<open>Authority changes\<close>

definition is_authority :: "int \<Rightarrow> string \<Rightarrow> string \<Rightarrow> authority_job \<Rightarrow> bool" where
  "is_authority inst scope base a \<longleftrightarrow> a_installation a = inst \<and> a_scope a = scope \<and> a_base a = base"

definition unstarted :: "authority_job \<Rightarrow> bool" where
  "unstarted a \<longleftrightarrow> a_owner a = None \<and> a_attempts a = 0 \<and> a_page a = 1 \<and> a_last a = 0 \<and>
     a_fingerprints a = []"

definition target_ref :: "authority_request \<Rightarrow> string option" where
  "target_ref q = (case (if aq_repo q \<noteq> None then aq_base q else None) of
      None \<Rightarrow> None
    | Some r \<Rightarrow> if MAX_AUTHORITY_BASE_REF_LENGTH < length r then None else Some r)"

definition coalesce_authority :: "int \<Rightarrow> authority_request \<Rightarrow> authority_job \<Rightarrow> authority_job" where
  "coalesce_authority now q a0 =
     (let a = a0\<lparr>a_available := now, a_wake := a_wake a0 + 1\<rparr> in
      if unstarted a then
        (let a = (case target_ref q of
             None \<Rightarrow> a\<lparr>a_targets := []\<rparr>
           | Some r \<Rightarrow>
               if a_targets a \<noteq> []
               then (let targets = AList.update r (aq_reason q) (a_targets a) in
                     a\<lparr>a_targets := (if length targets \<le> MAX_BASE_SCOPED_AUTHORITY_JOBS_PER_REPOSITORY
                                     then targets else [])\<rparr>)
               else a)
         in a\<lparr>a_reason := aq_reason q\<rparr>)
      else (case target_ref q of
          None \<Rightarrow> a\<lparr>a_pending_full := True, a_pending_reason := Some (aq_reason q), a_pending_refs := []\<rparr>
        | Some r \<Rightarrow>
            if \<not> a_pending_full a
            then (let refs = AList.update r (aq_reason q) (a_pending_refs a) in
                  if MAX_BASE_SCOPED_AUTHORITY_JOBS_PER_REPOSITORY < length refs
                  then a\<lparr>a_pending_full := True, a_pending_reason := Some (aq_reason q), a_pending_refs := []\<rparr>
                  else a\<lparr>a_pending_refs := refs\<rparr>)
            else a))"

definition new_authority :: "int \<Rightarrow> int \<Rightarrow> authority_request \<Rightarrow> authority_job" where
  "new_authority now i q = \<lparr>a_id = i, a_installation = aq_installation q, a_scope = scope_key q,
     a_base = [], a_reason = aq_reason q, a_generation = 1, a_cursor = 0, a_fingerprints = [],
     a_page = 1, a_last = 0, a_expected = None, a_member_page = 1, a_member_expected = None,
     a_targets = (case target_ref q of None \<Rightarrow> [] | Some r \<Rightarrow> [(r, aq_reason q)]), a_wake = 0,
     a_pending_refs = [], a_pending_full = False, a_pending_reason = None, a_state = Pending,
     a_attempts = 0, a_requested = now, a_available = now, a_owner = None, a_lease = None,
     a_error = None\<rparr>"

definition enqueue_authority :: "int \<Rightarrow> authority_request \<Rightarrow> db \<Rightarrow> db" where
  \<comment> \<open>\<open>_enqueue_authority_in_session\<close> and the public method around it\<close>
  "enqueue_authority now q d =
     (let key = is_authority (aq_installation q) (scope_key q) [] in
      case find key (authorities d) of
        Some _ \<Rightarrow> d\<lparr>authorities := fst (sql_update key (coalesce_authority now q) (authorities d))\<rparr>
      | None \<Rightarrow> d\<lparr>authorities := authorities d @ [new_authority now (next_authority_id d) q],
                  next_authority_id := next_authority_id d + 1\<rparr>)"

definition bump_authority_epoch :: "int \<Rightarrow> int \<Rightarrow> db \<Rightarrow> db" where
  "bump_authority_epoch now inst d =
     (let (updated, n) = sql_update (\<lambda>e. ae_installation e = inst)
            (\<lambda>e. e\<lparr>ae_generation := ae_generation e + 1, ae_changed := now\<rparr>) (authority_epochs d) in
      if n = 0 then d\<lparr>authority_epochs := updated @
             [\<lparr>ae_installation = inst, ae_generation = 1, ae_changed = now\<rparr>]\<rparr>
      else d\<lparr>authority_epochs := updated\<rparr>)"

section \<open>Deliveries\<close>

datatype webhook_request = PullWork job_request | AuthorityWork authority_request | NoWork

definition find_delivery :: "db \<Rightarrow> string \<Rightarrow> delivery option" where
  "find_delivery d i = find (\<lambda>x. d_id x = i) (deliveries d)"

definition legacy_identity :: "delivery \<Rightarrow> bool" where
  "legacy_identity x \<longleftrightarrow> d_required x \<and> d_installation x = None \<and> d_repo x = None \<and>
     d_pull x = None \<and> d_head x = None \<and> d_shared x = None"

definition same_identity :: "delivery \<Rightarrow> job_request \<Rightarrow> bool" where
  "same_identity x q \<longleftrightarrow> d_installation x = Some (q_installation q) \<and> d_repo x = Some (q_repo q) \<and>
     d_pull x = Some (q_pull q) \<and> d_head x = q_head q"

definition new_delivery ::
  "int \<Rightarrow> string \<Rightarrow> string \<Rightarrow> bool \<Rightarrow> trusted_trace_context option \<Rightarrow> delivery" where
  "new_delivery now i event required trace = \<lparr>d_id = i, d_event = event, d_received = now,
     d_required = required, d_completed = None, d_installation = None, d_repo = None, d_pull = None,
     d_head = None, d_shared = None, d_trace = map_option trace_id trace,
     d_span = map_option span_id trace, d_flags = map_option trace_flags trace\<rparr>"

definition is_pull_work :: "webhook_request \<Rightarrow> bool" where
  "is_pull_work w = (case w of PullWork _ \<Rightarrow> True | _ \<Rightarrow> False)"

definition replayed_delivery ::
  "string \<Rightarrow> webhook_request \<Rightarrow> delivery \<Rightarrow> queue_error + delivery_acceptance" where
  "replayed_delivery event w x =
     (if d_event x \<noteq> event
      then Inl (RuntimeError ''accepted delivery ID was replayed with a different event'')
      else if (case w of PullWork q \<Rightarrow> \<not> legacy_identity x \<and> \<not> same_identity x q | _ \<Rightarrow> False)
      then Inl (RuntimeError ''accepted delivery ID was replayed with different pull-request identity'')
      else Inr \<lparr>accepted = False, da_shared = d_shared x\<rparr>)"

definition first_delivery ::
  "int \<Rightarrow> string \<Rightarrow> string \<Rightarrow> webhook_request \<Rightarrow> trusted_trace_context option \<Rightarrow> db
     \<Rightarrow> queue_error + db \<times> delivery_acceptance" where
  "first_delivery now i event w trace d =
     (let x = new_delivery now i event (is_pull_work w) trace in
      case w of
        PullWork q \<Rightarrow> bind_result (advance_shared_head_epoch now q d) (\<lambda>(d', g).
          let x' = x\<lparr>d_installation := Some (q_installation q), d_repo := Some (q_repo q),
                     d_pull := Some (q_pull q), d_head := q_head q, d_shared := Some g\<rparr> in
          Inr (enqueue_in_session now q (Some i) (Some g) False True
                 (d'\<lparr>deliveries := deliveries d' @ [x']\<rparr>), \<lparr>accepted = True, da_shared = Some g\<rparr>))
      | AuthorityWork q \<Rightarrow>
          (let d1 = d\<lparr>deliveries := deliveries d @ [x]\<rparr>;
               d2 = (if aq_repo q = None then bump_authority_epoch now (aq_installation q) d1 else d1)
           in Inr (enqueue_authority now q d2, \<lparr>accepted = True, da_shared = None\<rparr>))
      | NoWork \<Rightarrow> Inr (d\<lparr>deliveries := deliveries d @ [x]\<rparr>, \<lparr>accepted = True, da_shared = None\<rparr>))"

text \<open>\<open>guard\<close> says whether the authority guard was acquired within the timeout.\<close>

definition accept_delivery ::
  "int \<Rightarrow> bool \<Rightarrow> string \<Rightarrow> string \<Rightarrow> webhook_request \<Rightarrow> trusted_trace_context option \<Rightarrow> db
     \<Rightarrow> queue_error + db \<times> delivery_acceptance" where
  "accept_delivery now guard i event w trace d =
     (if (case w of AuthorityWork _ \<Rightarrow> \<not> guard | _ \<Rightarrow> False)
      then Inl (RuntimeError ''timed out waiting to record an authority change'')
      else (case find_delivery d i of
              Some x \<Rightarrow> bind_result (replayed_delivery event w x) (\<lambda>acc. Inr (d, acc))
            | None \<Rightarrow> first_delivery now i event w trace d))"

definition delivery_needs_invalidation :: "db \<Rightarrow> string \<Rightarrow> bool" where
  "delivery_needs_invalidation d i = (case find_delivery d i of None \<Rightarrow> False
     | Some x \<Rightarrow> d_required x \<and> d_completed x = None)"

definition mark_delivery_invalidated :: "int \<Rightarrow> string \<Rightarrow> db \<Rightarrow> db \<times> bool" where
  "mark_delivery_invalidated now i d =
     (let (updated, n) = sql_update (\<lambda>x. d_id x = i \<and> d_required x \<and> d_completed x = None)
            (\<lambda>x. x\<lparr>d_completed := Some now\<rparr>) (deliveries d)
      in (d\<lparr>deliveries := updated\<rparr>, n = 1))"

section \<open>What a worker asks\<close>

definition find_job :: "db \<Rightarrow> int \<Rightarrow> job option" where
  "find_job d i = find (\<lambda>j. j_id j = i) (jobs d)"

definition is_current_generation :: "db \<Rightarrow> claimed_job \<Rightarrow> bool" where
  "is_current_generation d c = (map_option j_generation (find_job d (c_id c)) = Some (c_generation c))"

definition claim_request :: "claimed_job \<Rightarrow> string \<Rightarrow> string option \<Rightarrow> string option \<Rightarrow> queue_error + job_request" where
  "claim_request c reason head base = make_job_request (c_installation c) (c_repo c) (c_pull c)
     reason head (show_work_class (c_class c)) None base"

definition bind_claim_to_head :: "int \<Rightarrow> claimed_job \<Rightarrow> string \<Rightarrow> db \<Rightarrow> queue_error + db \<times> claimed_job option" where
  "bind_claim_to_head now c head d =
     bind_result (validate_head_sha head) (\<lambda>head.
       if c_head c \<noteq> None then Inr (d, if c_head c = Some head then Some c else None)
       else bind_result (claim_request c (c_reason c) (Some head) None) (\<lambda>q.
         bind_result (advance_shared_head_epoch now q d) (\<lambda>(d', g).
           let (updated, n) = sql_update (\<lambda>j. j_id j = c_id c \<and> j_generation j = c_generation c \<and>
                  j_owner j = Some (c_owner c) \<and> j_state j = Pending \<and> j_head j = None)
                (\<lambda>j. j\<lparr>j_head := Some head, j_shared := g\<rparr>) (jobs d') in
           if n \<noteq> 1 then Inr (d, None)
           else Inr (d'\<lparr>jobs := updated\<rparr>, Some (c\<lparr>c_head := Some head, c_shared := g\<rparr>)))))"

definition shared_head_generation_is_current :: "db \<Rightarrow> claimed_job \<Rightarrow> string \<Rightarrow> queue_error + bool" where
  "shared_head_generation_is_current d c head = bind_result (validate_head_sha head) (\<lambda>head.
     if c_head c \<noteq> Some head then Inr False
     else Inr (head_generation d (c_installation c) (c_repo c) (Some head) = c_shared c))"

definition shared_head_generation_is_publishable :: "db \<Rightarrow> claimed_job \<Rightarrow> string \<Rightarrow> queue_error + bool" where
  "shared_head_generation_is_publishable d c head = bind_result (validate_head_sha head) (\<lambda>head.
     if c_head c \<noteq> Some head then Inr False
     else (case find_epoch d (c_installation c) (c_repo c) head of
             None \<Rightarrow> Inr (c_shared c = 0)
           | Some e \<Rightarrow> Inr (e_generation e = c_shared c \<and> e_invalidated e = c_shared c)))"

definition shared_head_invalidation_is_pending ::
  "db \<Rightarrow> int \<Rightarrow> string \<Rightarrow> string \<Rightarrow> int \<Rightarrow> queue_error + bool" where
  "shared_head_invalidation_is_pending d inst repo head generation =
     bind_result (normalize_repository_full_name repo) (\<lambda>repo.
     bind_result (validate_head_sha head) (\<lambda>head.
       Inr (case find_epoch d inst repo head of None \<Rightarrow> False
            | Some e \<Rightarrow> e_generation e = generation \<and> e_invalidated e < generation)))"

definition shared_head_generation :: "db \<Rightarrow> int \<Rightarrow> string \<Rightarrow> string \<Rightarrow> queue_error + int" where
  "shared_head_generation d inst repo head =
     bind_result (normalize_repository_full_name repo) (\<lambda>repo.
     bind_result (validate_head_sha head) (\<lambda>head. Inr (head_generation d inst repo (Some head))))"

definition shared_head_invalidation_generation :: "db \<Rightarrow> int \<Rightarrow> string \<Rightarrow> string \<Rightarrow> queue_error + int" where
  "shared_head_invalidation_generation d inst repo head =
     bind_result (normalize_repository_full_name repo) (\<lambda>repo.
     bind_result (validate_head_sha head) (\<lambda>head.
       Inr (case find_epoch d inst repo head of None \<Rightarrow> 0 | Some e \<Rightarrow> e_invalidated e)))"

definition has_superseding_job :: "db \<Rightarrow> claimed_job \<Rightarrow> bool" where
  \<comment> \<open>the query returns the row id, and \<open>bool\<close> is applied to it\<close>
  "has_superseding_job d c = list_ex (\<lambda>j. j_id j = c_id c \<and> c_generation c < j_generation j \<and>
     j_state j = Pending \<and> j_id j \<noteq> 0) (jobs d)"

definition has_blocking_authority :: "db \<Rightarrow> claimed_job \<Rightarrow> string \<Rightarrow> bool" where
  "has_blocking_authority d c base_ref = list_ex (\<lambda>a. a_installation a = c_installation c \<and>
     (a_scope a = ''*'' \<or> a_scope a = c_repo c) \<and> (a_base a = [] \<or> a_base a = base_ref) \<and>
     a_id a \<noteq> 0) (authorities d)"

definition is_current_claim :: "int \<Rightarrow> db \<Rightarrow> claimed_job \<Rightarrow> bool" where
  "is_current_claim now d c = (case find_job d (c_id c) of
      None \<Rightarrow> False
    | Some j \<Rightarrow> (case j_lease j of None \<Rightarrow> False
        | Some expiry \<Rightarrow> j_generation j = c_generation c \<and> j_authority j = c_authority c \<and>
            authority_generation_of d (c_installation c) = c_authority c \<and>
            j_owner j = Some (c_owner c) \<and> now \<le> expiry))"

definition renew_claim :: "int \<Rightarrow> claimed_job \<Rightarrow> int \<Rightarrow> db \<Rightarrow> db \<times> bool" where
  "renew_claim now c lease_seconds d =
     (let (updated, n) = sql_update (\<lambda>j. j_id j = c_id c \<and> j_generation j = c_generation c \<and>
            j_owner j = Some (c_owner c) \<and> j_state j = Pending)
            (\<lambda>j. j\<lparr>j_lease := Some (now + seconds lease_seconds)\<rparr>) (jobs d)
      in (d\<lparr>jobs := updated\<rparr>, n = 1))"

end
