(* ===== verification/Queue_Heads.thy ===== *)
theory Queue_Heads
  imports Queue_Delivery
begin

text \<open>
  \<open>database.py\<close>, the rate-limit circuits and the exact-head reset work: claim, renew,
  complete, fail and defer of one pending generation under a lease.
\<close>

section \<open>Provider backpressure\<close>

definition provider_available :: "db \<Rightarrow> int \<Rightarrow> int \<Rightarrow> bool" where
  "provider_available d inst now = (\<not> list_ex (\<lambda>b. (bp_installation b = 0 \<or> bp_installation b = inst) \<and>
     now < bp_until b) (pressures d))"

definition clamp_delay :: "int \<Rightarrow> int" where
  "clamp_delay delay = max 1 (min delay 86400)"

definition backoff :: "int \<Rightarrow> int \<Rightarrow> int" where
  \<comment> \<open>\<open>max(1, min(max_delay, 2 ** min(attempts, 30)))\<close> for the non-negative attempts of a claim\<close>
  "backoff attempts max_delay = max 1 (min max_delay (2 ^ nat (min attempts 30)))"

definition record_provider_backpressure ::
  "int \<Rightarrow> int option \<Rightarrow> string \<Rightarrow> int \<Rightarrow> db \<Rightarrow> queue_error + db" where
  "record_provider_backpressure now inst err delay d =
     (let key = (case inst of None \<Rightarrow> 0 | Some i \<Rightarrow> i) in
      if key < 0 then Inl (ValueError ''installation_id must be positive or None'')
      else (let until = now + seconds (clamp_delay delay) in
        case find (\<lambda>b. bp_installation b = key) (pressures d) of
          None \<Rightarrow> Inr (d\<lparr>pressures := pressures d @
            [\<lparr>bp_installation = key, bp_until = until, bp_reason = take 2000 err, bp_updated = now\<rparr>]\<rparr>)
        | Some _ \<Rightarrow> Inr (d\<lparr>pressures := fst (sql_update (\<lambda>b. bp_installation b = key)
            (\<lambda>b. b\<lparr>bp_until := max (bp_until b) until, bp_reason := take 2000 err, bp_updated := now\<rparr>)
            (pressures d))\<rparr>)))"

definition provider_is_backpressured :: "int \<Rightarrow> int option \<Rightarrow> db \<Rightarrow> queue_error + bool" where
  "provider_is_backpressured now inst d =
     (if (case inst of None \<Rightarrow> False | Some i \<Rightarrow> i \<le> 0)
      then Inl (ValueError ''installation_id must be positive or None'')
      else (let scopes = (case inst of None \<Rightarrow> {0} | Some i \<Rightarrow> {0, i}) in
            Inr (list_ex (\<lambda>b. bp_installation b \<in> scopes \<and> now < bp_until b) (pressures d))))"

section \<open>Exact-head resets\<close>

definition lease_free :: "int \<Rightarrow> int option \<Rightarrow> bool" where
  "lease_free now lease = (case lease of None \<Rightarrow> True | Some t \<Rightarrow> t < now)"

definition lease_valid :: "int \<Rightarrow> int option \<Rightarrow> bool" where
  "lease_valid now lease = (case lease of None \<Rightarrow> False | Some t \<Rightarrow> now \<le> t)"

definition reset_due :: "int \<Rightarrow> work_class option \<Rightarrow> db \<Rightarrow> head_epoch \<Rightarrow> bool" where
  "reset_due now wc d e \<longleftrightarrow> e_invalidated e < e_generation e \<and> e_available e \<le> now \<and>
     lease_free now (e_lease e) \<and> provider_available d (e_installation e) now \<and>
     (case wc of None \<Rightarrow> True | Some w \<Rightarrow> e_class e = w)"

definition epoch_order :: "head_epoch \<Rightarrow> int \<times> int \<times> int \<times> string \<times> string" where
  "epoch_order e = (e_available e, e_changed e, e_installation e, e_repo e, e_head e)"

text \<open>The update repeats the key, the generation and the lease test of the candidate, so on a
  table with unique keys it changes that row and the loop ends in its first iteration.\<close>

definition claim_shared_head_invalidation ::
  "int \<Rightarrow> string \<Rightarrow> int \<Rightarrow> work_class option \<Rightarrow> db \<Rightarrow> db \<times> claimed_head option" where
  "claim_shared_head_invalidation now worker lease_seconds wc d =
     (case sql_first epoch_order (reset_due now wc d) (epochs d) of
        None \<Rightarrow> (d, None)
      | Some e \<Rightarrow>
          (let (updated, n) = sql_update (\<lambda>x. is_epoch (e_installation e) (e_repo e) (e_head e) x \<and>
                 e_generation x = e_generation e \<and> e_invalidated x < e_generation x \<and>
                 lease_free now (e_lease x))
               (\<lambda>x. x\<lparr>e_owner := Some worker, e_lease := Some (now + seconds lease_seconds),
                      e_attempts := e_attempts x + 1\<rparr>) (epochs d) in
           if n \<noteq> 1 then (d\<lparr>epochs := updated\<rparr>, None)
           else (d\<lparr>epochs := updated\<rparr>,
             Some \<lparr>ch_installation = e_installation e, ch_repo = e_repo e, ch_head = e_head e,
                   ch_generation = e_generation e, ch_class = e_class e,
                   ch_attempts = e_attempts e + 1, ch_requested = e_changed e,
                   ch_available = e_available e, ch_owner = worker\<rparr>)))"

definition is_current_shared_head_invalidation :: "int \<Rightarrow> db \<Rightarrow> claimed_head \<Rightarrow> bool" where
  "is_current_shared_head_invalidation now d c =
     (case find_epoch d (ch_installation c) (ch_repo c) (ch_head c) of
        None \<Rightarrow> False
      | Some e \<Rightarrow> e_lease e \<noteq> None \<and> e_generation e = ch_generation c \<and>
          e_invalidated e < ch_generation c \<and> e_owner e = Some (ch_owner c) \<and>
          lease_valid now (e_lease e))"

text \<open>The \<open>WHERE\<close> clause that renew, complete, fail and defer share.\<close>

definition holds_reset :: "int \<Rightarrow> claimed_head \<Rightarrow> head_epoch \<Rightarrow> bool" where
  "holds_reset now c e \<longleftrightarrow> is_epoch (ch_installation c) (ch_repo c) (ch_head c) e \<and>
     e_generation e = ch_generation c \<and> e_invalidated e < ch_generation c \<and>
     e_owner e = Some (ch_owner c) \<and> lease_valid now (e_lease e)"

definition update_reset ::
  "int \<Rightarrow> claimed_head \<Rightarrow> (head_epoch \<Rightarrow> head_epoch) \<Rightarrow> db \<Rightarrow> db \<times> bool" where
  "update_reset now c f d = (let (updated, n) = sql_update (holds_reset now c) f (epochs d)
     in (d\<lparr>epochs := updated\<rparr>, n = 1))"

definition renew_shared_head_invalidation :: "int \<Rightarrow> claimed_head \<Rightarrow> int \<Rightarrow> db \<Rightarrow> db \<times> bool" where
  "renew_shared_head_invalidation now c lease_seconds d =
     update_reset now c (\<lambda>e. e\<lparr>e_lease := Some (now + seconds lease_seconds)\<rparr>) d"

definition complete_shared_head_invalidation :: "int \<Rightarrow> claimed_head \<Rightarrow> db \<Rightarrow> db \<times> bool" where
  "complete_shared_head_invalidation now c d =
     update_reset now c (\<lambda>e. e\<lparr>e_invalidated := ch_generation c, e_owner := None, e_lease := None,
       e_error := None\<rparr>) d"

definition fail_shared_head_invalidation ::
  "int \<Rightarrow> claimed_head \<Rightarrow> string \<Rightarrow> int \<Rightarrow> db \<Rightarrow> db \<times> bool" where
  "fail_shared_head_invalidation now c err max_delay d =
     update_reset now c (\<lambda>e. e\<lparr>e_available := now + seconds (backoff (ch_attempts c) max_delay),
       e_owner := None, e_lease := None, e_error := Some (take 2000 err)\<rparr>) d"

definition defer_shared_head_invalidation ::
  "int \<Rightarrow> claimed_head \<Rightarrow> string \<Rightarrow> int \<Rightarrow> db \<Rightarrow> db \<times> bool" where
  "defer_shared_head_invalidation now c err delay d =
     update_reset now c (\<lambda>e. e\<lparr>e_attempts := (if 0 < e_attempts e then e_attempts e - 1 else 0),
       e_available := now + seconds (clamp_delay delay), e_owner := None, e_lease := None,
       e_error := Some (take 2000 err)\<rparr>) d"

end
