(* ===== verification/Queue_Claim.thy ===== *)
theory Queue_Claim
  imports Queue_Heads
begin

text \<open>
  \<open>database.py\<close>, the life of an evaluation claim: lease the oldest available row, observe the
  base branch, complete, fail or defer. The release of a scheduled recheck that cannot
  finish soon turns the row into revoke-first work in the same transaction.
\<close>

section \<open>Claiming\<close>

definition blocks_job :: "job \<Rightarrow> authority_job \<Rightarrow> bool" where
  "blocks_job j a \<longleftrightarrow> a_installation a = j_installation j \<and>
     (a_scope a = ''*'' \<or> (a_scope a = j_repo j \<and> (a_base a = [] \<or> j_base j = Some (a_base a))))"

definition reset_pending_for :: "db \<Rightarrow> job \<Rightarrow> bool" where
  "reset_pending_for d j = list_ex (\<lambda>e. 0 < j_shared j \<and> e_installation e = j_installation j \<and>
     e_repo e = j_repo j \<and> Some (e_head e) = j_head j \<and> e_invalidated e < j_shared j) (epochs d)"

definition job_due :: "int \<Rightarrow> work_class option \<Rightarrow> bool \<Rightarrow> db \<Rightarrow> job \<Rightarrow> bool" where
  "job_due now wc require_ready d j \<longleftrightarrow> j_state j = Pending \<and> j_available j \<le> now \<and>
     lease_free now (j_lease j) \<and> \<not> list_ex (blocks_job j) (authorities d) \<and>
     provider_available d (j_installation j) now \<and>
     (require_ready \<longrightarrow> \<not> reset_pending_for d j) \<and>
     (case wc of None \<Rightarrow> True | Some w \<Rightarrow> j_class j = w)"

definition lease_job :: "string \<Rightarrow> int \<Rightarrow> job \<Rightarrow> job" where
  "lease_job worker until j = j\<lparr>j_owner := Some worker, j_lease := Some until,
     j_attempts := j_attempts j + 1,
     j_generation := (if j_owner j \<noteq> None then j_generation j + 1 else j_generation j)\<rparr>"

definition delivery_trace :: "db \<Rightarrow> string option \<Rightarrow> trusted_trace_context option" where
  "delivery_trace d i = (case (case i of None \<Rightarrow> None | Some s \<Rightarrow> find_delivery d s) of
      None \<Rightarrow> trace_from_values None None None
    | Some x \<Rightarrow> trace_from_values (d_trace x) (d_span x) (d_flags x))"

definition claimed_view :: "db \<Rightarrow> string \<Rightarrow> job \<Rightarrow> claimed_job" where
  "claimed_view d worker j = \<lparr>c_id = j_id j, c_installation = j_installation j, c_repo = j_repo j,
     c_pull = j_pull j, c_reason = j_reason j, c_class = j_class j, c_head = j_head j,
     c_delivery = j_delivery j, c_trace = delivery_trace d (j_delivery j),
     c_generation = j_generation j, c_authority = j_authority j, c_shared = j_shared j,
     c_attempts = j_attempts j, c_requested = j_requested j, c_available = j_available j,
     c_owner = worker, c_base = j_base j\<rparr>"

definition claim ::
  "int \<Rightarrow> string \<Rightarrow> int \<Rightarrow> work_class option \<Rightarrow> bool \<Rightarrow> db \<Rightarrow> db \<times> claimed_job option" where
  "claim now worker lease_seconds wc require_ready d =
     (case sql_first (\<lambda>j. (j_available j, j_id j)) (job_due now wc require_ready d) (jobs d) of
        None \<Rightarrow> (d, None)
      | Some candidate \<Rightarrow>
          (let (updated, n) = sql_update (\<lambda>j. j_id j = j_id candidate \<and> j_state j = Pending \<and>
                 lease_free now (j_lease j))
               (lease_job worker (now + seconds lease_seconds)) (jobs d);
               d' = d\<lparr>jobs := updated\<rparr> in
           if n \<noteq> 1 then (d', None)
           else (d', map_option (claimed_view d' worker) (find_job d' (j_id candidate)))))"

definition observe_evaluation_base :: "int \<Rightarrow> claimed_job \<Rightarrow> string \<Rightarrow> db \<Rightarrow> queue_error + db \<times> bool" where
  "observe_evaluation_base now c base_ref d =
     (let hint = (if ref_hint_ok base_ref then Some base_ref else None);
          (updated, n) = sql_update (\<lambda>j. j_id j = c_id c \<and> j_generation j = c_generation c \<and>
               j_owner j = Some (c_owner c) \<and> (case j_lease j of None \<Rightarrow> False | Some t \<Rightarrow> now < t) \<and>
               j_state j = Pending) (\<lambda>j. j\<lparr>j_base := hint\<rparr>) (jobs d);
          d' = d\<lparr>jobs := updated\<rparr> in
      if n \<noteq> 1 then Inr (d', False)
      else if hint \<noteq> None \<and> c_class c = Interactive
      then bind_result (claim_request c (c_reason c) (c_head c) hint)
             (\<lambda>q. Inr (wake_authority_for_interactive now q d', True))
      else Inr (d', True))"

section \<open>Completing\<close>

definition holds_job :: "claimed_job \<Rightarrow> string \<Rightarrow> job \<Rightarrow> bool" where
  "holds_job c worker j \<longleftrightarrow> j_id j = c_id c \<and> j_generation j = c_generation c \<and> j_owner j = Some worker"

definition record_completion :: "int \<Rightarrow> job \<Rightarrow> db \<Rightarrow> db" where
  "record_completion now j d = (case j_head j of None \<Rightarrow> d
     | Some head \<Rightarrow>
         (let key = is_recon (j_installation j) (j_repo j) (j_pull j) in
          case find key (recon d) of
            None \<Rightarrow> d\<lparr>recon := recon d @ [\<lparr>rs_installation = j_installation j, rs_repo = j_repo j,
                rs_pull = j_pull j, rs_head = head, rs_completed = now, rs_confirmed = Some now,
                rs_observed = now\<rparr>]\<rparr>
          | Some _ \<Rightarrow> d\<lparr>recon := fst (sql_update key (\<lambda>s. s\<lparr>rs_head := head, rs_completed := now,
                rs_confirmed := Some now, rs_observed := now\<rparr>) (recon d))\<rparr>))"

definition complete :: "int \<Rightarrow> claimed_job \<Rightarrow> string \<Rightarrow> db \<Rightarrow> db \<times> bool" where
  "complete now c worker d =
     (let completed = find (holds_job c worker) (jobs d);
          (kept, n) = sql_delete (holds_job c worker) (jobs d) in
      if n = 0
      then (d\<lparr>jobs := fst (sql_update (holds_job c worker) (\<lambda>j. j\<lparr>j_owner := None, j_lease := None\<rparr>) kept)\<rparr>,
            False)
      else (case completed of None \<Rightarrow> (d\<lparr>jobs := kept\<rparr>, True)
            | Some j \<Rightarrow> (record_completion now j (d\<lparr>jobs := kept\<rparr>), True)))"

section \<open>Releasing\<close>

definition scheduled_recheck_revocation :: "claimed_job \<Rightarrow> queue_error + job_request option" where
  "scheduled_recheck_revocation c =
     (if c_reason c \<noteq> SCHEDULED_RECHECK_REASON \<or> c_head c = None then Inr None
      else bind_result (claim_request c PERIODIC_RECONCILIATION_REASON (c_head c) (c_base c))
        (\<lambda>q. Inr (Some q)))"

definition release_claim ::
  "int \<Rightarrow> claimed_job \<Rightarrow> string \<Rightarrow> job_request option \<Rightarrow> (job \<Rightarrow> job) \<Rightarrow> db \<Rightarrow> queue_error + db \<times> bool" where
  "release_claim now c worker revocation values d =
     bind_result (case revocation of None \<Rightarrow> Inr [] | Some q \<Rightarrow> lock_shared_head_epoch q) (\<lambda>_.
       let (updated, n) = sql_update (holds_job c worker) values (jobs d);
           d' = d\<lparr>jobs := updated\<rparr> in
       if n \<noteq> 1
       then Inr (d'\<lparr>jobs := fst (sql_update (holds_job c worker)
                    (\<lambda>j. j\<lparr>j_owner := None, j_lease := None\<rparr>) updated)\<rparr>, False)
       else (case revocation of None \<Rightarrow> Inr (d', True)
         | Some q \<Rightarrow> bind_result (advance_shared_head_epoch now q d') (\<lambda>(d'', g).
             Inr (d''\<lparr>jobs := fst (sql_update (\<lambda>j. j_id j = c_id c \<and> j_generation j = c_generation c)
                    (\<lambda>j. j\<lparr>j_reason := q_reason q, j_shared := g\<rparr>) (jobs d''))\<rparr>, True))))"

definition fail_values :: "int \<Rightarrow> int \<Rightarrow> string \<Rightarrow> job \<Rightarrow> job" where
  "fail_values now delay err j = j\<lparr>j_state := Pending, j_available := now + seconds delay,
     j_owner := None, j_lease := None, j_error := Some (take 2000 err)\<rparr>"

definition defer_values :: "int \<Rightarrow> int \<Rightarrow> string \<Rightarrow> job \<Rightarrow> job" where
  "defer_values now delay err j = j\<lparr>j_attempts := (if 0 < j_attempts j then j_attempts j - 1 else 0),
     j_available := now + seconds delay, j_owner := None, j_lease := None,
     j_error := Some (take 2000 err)\<rparr>"

definition fail_job :: "int \<Rightarrow> claimed_job \<Rightarrow> string \<Rightarrow> string \<Rightarrow> int \<Rightarrow> db \<Rightarrow> queue_error + db" where
  "fail_job now c worker err max_delay d =
     bind_result (scheduled_recheck_revocation c) (\<lambda>revocation.
       bind_result (release_claim now c worker revocation
           (fail_values now (backoff (c_attempts c) max_delay) err) d) (\<lambda>r. Inr (fst r)))"

definition defer_job ::
  "int \<Rightarrow> claimed_job \<Rightarrow> string \<Rightarrow> string \<Rightarrow> int \<Rightarrow> int option \<Rightarrow> db \<Rightarrow> queue_error + db \<times> bool" where
  "defer_job now c worker err delay limit d =
     bind_result (case limit of None \<Rightarrow> Inr None
         | Some l \<Rightarrow> if seconds l < now + seconds (clamp_delay delay) - c_requested c
             then scheduled_recheck_revocation c else Inr None) (\<lambda>revocation.
       release_claim now c worker revocation (defer_values now (clamp_delay delay) err) d)"

end
