(* ===== verification/Queue_Authority.thy ===== *)
theory Queue_Authority
  imports Queue_Claim
begin

text \<open>
  \<open>database.py\<close>, the claim of an authority fence: installation-wide fences first, then fences
  that block direct events; checkpoints while the claim is current; completion that keeps
  the branch evidence that arrived during the claim.
\<close>

section \<open>Claiming\<close>

definition direct_waiter :: "db \<Rightarrow> authority_job \<Rightarrow> bool" where
  "direct_waiter d a = list_ex (\<lambda>j. j_installation j = a_installation a \<and>
     (a_scope a = ''*'' \<or> (j_repo j = a_scope a \<and> (a_base a = [] \<or> j_base j = Some (a_base a)))) \<and>
     j_state j = Pending \<and> j_class j = Interactive) (jobs d)"

definition authority_has_direct_waiter :: "db \<Rightarrow> claimed_authority \<Rightarrow> bool" where
  "authority_has_direct_waiter d c = list_ex (\<lambda>a. a_id a = ca_id c \<and> direct_waiter d a) (authorities d)"

definition authority_due :: "int \<Rightarrow> db \<Rightarrow> authority_job \<Rightarrow> bool" where
  "authority_due now d a \<longleftrightarrow> a_state a = Pending \<and> a_available a \<le> now \<and> lease_free now (a_lease a) \<and>
     provider_available d (a_installation a) now"

definition authority_order :: "db \<Rightarrow> bool \<Rightarrow> authority_job \<Rightarrow> int \<times> int \<times> int \<times> int" where
  "authority_order d prioritize a =
     (if a_scope a = ''*'' then 0 else if prioritize \<and> direct_waiter d a then 1 else 2,
      if a_scope a = ''*'' then 0 else if a_base a = [] \<and> a_targets a = [] then 1 else 2,
      a_available a, a_id a)"

definition lease_authority :: "string \<Rightarrow> int \<Rightarrow> authority_job \<Rightarrow> authority_job" where
  "lease_authority worker until a = a\<lparr>a_owner := Some worker, a_lease := Some until,
     a_attempts := a_attempts a + 1,
     a_generation := (if a_owner a \<noteq> None then a_generation a + 1 else a_generation a)\<rparr>"

definition claimed_authority_view :: "string \<Rightarrow> authority_job \<Rightarrow> claimed_authority" where
  "claimed_authority_view worker a = \<lparr>ca_id = a_id a, ca_installation = a_installation a,
     ca_repo = (if a_scope a = ''*'' then None else Some (a_scope a)),
     ca_base = (if a_base a = [] then None else Some (a_base a)), ca_reason = a_reason a,
     ca_generation = a_generation a, ca_attempts = a_attempts a, ca_owner = worker,
     ca_cursor = a_cursor a, ca_fingerprints = a_fingerprints a, ca_page = a_page a,
     ca_last = a_last a, ca_wake = a_wake a, ca_expected = a_expected a,
     ca_member_page = a_member_page a, ca_member_expected = a_member_expected a,
     ca_targets = a_targets a\<rparr>"

definition claim_authority :: "int \<Rightarrow> string \<Rightarrow> int \<Rightarrow> bool \<Rightarrow> db \<Rightarrow> db \<times> claimed_authority option" where
  "claim_authority now worker lease_seconds prioritize d =
     (case sql_first (authority_order d prioritize) (authority_due now d) (authorities d) of
        None \<Rightarrow> (d, None)
      | Some candidate \<Rightarrow>
          (let (updated, n) = sql_update (\<lambda>a. a_id a = a_id candidate \<and> a_state a = Pending \<and>
                 lease_free now (a_lease a))
               (lease_authority worker (now + seconds lease_seconds)) (authorities d);
               d' = d\<lparr>authorities := updated\<rparr> in
           if n \<noteq> 1 then (d', None)
           else (d', map_option (claimed_authority_view worker)
                       (find (\<lambda>a. a_id a = a_id candidate) updated))))"

section \<open>Checkpoints\<close>

definition holds_authority :: "claimed_authority \<Rightarrow> string \<Rightarrow> authority_job \<Rightarrow> bool" where
  "holds_authority c worker a \<longleftrightarrow> a_id a = ca_id c \<and> a_generation a = ca_generation c \<and>
     a_owner a = Some worker"

definition current_authority :: "int \<Rightarrow> claimed_authority \<Rightarrow> authority_job \<Rightarrow> bool" where
  "current_authority now c a \<longleftrightarrow> holds_authority c (ca_owner c) a \<and>
     (case a_lease a of None \<Rightarrow> False | Some t \<Rightarrow> now < t)"

definition update_authorities ::
  "(authority_job \<Rightarrow> bool) \<Rightarrow> (authority_job \<Rightarrow> authority_job) \<Rightarrow> db \<Rightarrow> db \<times> bool" where
  "update_authorities c f d = (let (updated, n) = sql_update c f (authorities d)
     in (d\<lparr>authorities := updated\<rparr>, n = 1))"

definition renew_authority_claim :: "int \<Rightarrow> claimed_authority \<Rightarrow> int \<Rightarrow> db \<Rightarrow> db \<times> bool" where
  "renew_authority_claim now c lease_seconds d =
     update_authorities (\<lambda>a. holds_authority c (ca_owner c) a \<and> a_state a = Pending)
       (\<lambda>a. a\<lparr>a_lease := Some (now + seconds lease_seconds)\<rparr>) d"

definition advance_authority_cursor ::
  "int \<Rightarrow> claimed_authority \<Rightarrow> int \<Rightarrow> (string \<times> string) list option \<Rightarrow> int option \<Rightarrow> int option
     \<Rightarrow> db \<Rightarrow> db \<times> bool" where
  "advance_authority_cursor now c number handled next_page last_number d =
     update_authorities (current_authority now c)
       (\<lambda>a. a\<lparr>a_cursor := (if a_cursor a < number then number else a_cursor a),
              a_fingerprints := (case handled of None \<Rightarrow> a_fingerprints a | Some h \<Rightarrow> h),
              a_page := (case next_page of None \<Rightarrow> a_page a | Some p \<Rightarrow> p),
              a_last := (case last_number of None \<Rightarrow> a_last a | Some l \<Rightarrow> l)\<rparr>) d"

definition advance_installation_authority_page ::
  "int \<Rightarrow> claimed_authority \<Rightarrow> authority_request list \<Rightarrow> int \<Rightarrow> int option \<Rightarrow> db
     \<Rightarrow> queue_error + db \<times> bool" where
  "advance_installation_authority_page now c requests next_page expected d =
     (if ca_repo c \<noteq> None
      then Inl (ValueError ''installation pagination requires an installation authority job'')
      else if list_ex (\<lambda>q. aq_installation q \<noteq> ca_installation c \<or> aq_repo q = None) requests
      then Inl (ValueError ''installation page contains a child outside its installation'')
      else if \<not> list_ex (current_authority now c) (authorities d) then Inr (d, False)
      else (let d' = fold (enqueue_authority now) requests d in
            Inr (d'\<lparr>authorities := fst (sql_update (\<lambda>a. a_id a = ca_id c)
              (\<lambda>a. a\<lparr>a_page := next_page, a_expected := expected\<rparr>) (authorities d'))\<rparr>, True)))"

definition advance_authority_membership_page ::
  "int \<Rightarrow> claimed_authority \<Rightarrow> int \<Rightarrow> int option \<Rightarrow> db \<Rightarrow> db \<times> bool" where
  "advance_authority_membership_page now c next_page expected d =
     update_authorities (current_authority now c)
       (\<lambda>a. a\<lparr>a_member_page := next_page, a_member_expected := expected\<rparr>) d"

section \<open>Completing and releasing\<close>

definition next_batch :: "int \<Rightarrow> authority_job \<Rightarrow> authority_job" where
  "next_batch now a =
     (let targets = (if a_pending_full a then [] else a_pending_refs a);
          reason = (case a_pending_reason a of
              Some r \<Rightarrow> if r \<noteq> [] then r
                else if targets \<noteq> [] then snd (last targets) else ''push.repository_base''
            | None \<Rightarrow> if targets \<noteq> [] then snd (last targets) else ''push.repository_base'') in
      a\<lparr>a_generation := a_generation a + 1, a_base := [], a_targets := targets, a_cursor := 0,
        a_fingerprints := [], a_page := 1, a_last := 0, a_expected := None, a_member_page := 1,
        a_member_expected := None, a_wake := 0, a_pending_refs := [], a_pending_full := False,
        a_reason := reason, a_pending_reason := None, a_requested := now, a_available := now,
        a_state := Pending, a_attempts := 0, a_owner := None, a_lease := None, a_error := None\<rparr>)"

definition complete_authority :: "int \<Rightarrow> claimed_authority \<Rightarrow> string \<Rightarrow> db \<Rightarrow> db \<times> bool" where
  "complete_authority now c worker d =
     (case find (holds_authority c worker) (authorities d) of
        None \<Rightarrow> (d, False)
      | Some a \<Rightarrow>
          if a_pending_full a \<or> a_pending_refs a \<noteq> []
          then (d\<lparr>authorities := fst (sql_update (\<lambda>x. a_id x = a_id a) (next_batch now) (authorities d))\<rparr>, True)
          else (d\<lparr>authorities := fst (sql_delete (\<lambda>x. a_id x = a_id a) (authorities d))\<rparr>, True))"

definition release_authority :: "(authority_job \<Rightarrow> bool) \<Rightarrow> (authority_job \<Rightarrow> authority_job) \<Rightarrow> db \<Rightarrow> db \<times> bool" where
  \<comment> \<open>the update with its fallback that clears the lease when no row was updated\<close>
  "release_authority c f d = (case update_authorities c f d of (d', ok) \<Rightarrow>
     if ok then (d', True)
     else (fst (update_authorities c (\<lambda>a. a\<lparr>a_owner := None, a_lease := None\<rparr>) d'), False))"

definition fail_authority ::
  "int \<Rightarrow> claimed_authority \<Rightarrow> string \<Rightarrow> string \<Rightarrow> int \<Rightarrow> int \<Rightarrow> db \<Rightarrow> db" where
  "fail_authority now c worker err max_delay min_delay d =
     (let delay = max 1 (min max_delay (max min_delay (2 ^ nat (min (ca_attempts c) 30)))) in
      fst (release_authority (holds_authority c worker)
        (\<lambda>a. a\<lparr>a_state := Pending,
               a_available := (if ca_wake c < a_wake a then now else now + seconds delay),
               a_owner := None, a_lease := None, a_error := Some (take 2000 err)\<rparr>) d))"

definition defer_authority ::
  "int \<Rightarrow> claimed_authority \<Rightarrow> string \<Rightarrow> string \<Rightarrow> int \<Rightarrow> bool \<Rightarrow> db \<Rightarrow> db \<times> bool" where
  "defer_authority now c worker err delay preserve_direct_wakeup d =
     release_authority (holds_authority c worker)
       (\<lambda>a. a\<lparr>a_attempts := (if 0 < a_attempts a then a_attempts a - 1 else 0),
              a_available := (if preserve_direct_wakeup \<and> direct_waiter d a then now
                              else now + seconds (clamp_delay delay)),
              a_owner := None, a_lease := None, a_error := Some (take 2000 err)\<rparr>) d"

end
