(* ===== verification/Queue_Admin.thy ===== *)
theory Queue_Admin
  imports Queue_Authority
begin

text \<open>
  \<open>database.py\<close>, the named service leases, the counters, the recovery of dead rows, the
  retention pruning and the audit upsert.
\<close>

section \<open>Service leases\<close>

definition acquire_service_lease :: "int \<Rightarrow> string \<Rightarrow> string \<Rightarrow> int \<Rightarrow> db \<Rightarrow> db \<times> bool" where
  "acquire_service_lease now name worker lease_seconds d =
     (let until = now + seconds lease_seconds;
          (updated, n) = sql_update (\<lambda>l. sl_name l = name \<and> (sl_owner l = worker \<or> sl_until l \<le> now))
            (\<lambda>l. l\<lparr>sl_owner := worker, sl_until := until\<rparr>) (leases d) in
      if n = 1 then (d\<lparr>leases := updated\<rparr>, True)
      else if list_ex (\<lambda>l. sl_name l = name) updated then (d\<lparr>leases := updated\<rparr>, False)
      else (d\<lparr>leases := updated @ [\<lparr>sl_name = name, sl_owner = worker, sl_until = until\<rparr>]\<rparr>, True))"

definition release_service_lease :: "string \<Rightarrow> string \<Rightarrow> db \<Rightarrow> db \<times> bool" where
  "release_service_lease name worker d =
     (let (kept, n) = sql_delete (\<lambda>l. sl_name l = name \<and> sl_owner l = worker) (leases d)
      in (d\<lparr>leases := kept\<rparr>, n = 1))"

section \<open>Counters\<close>

definition sql_count :: "('r \<Rightarrow> bool) \<Rightarrow> 'r list \<Rightarrow> int" where
  "sql_count c t = int (length (filter c t))"

definition reset_pending :: "head_epoch \<Rightarrow> bool" where
  "reset_pending e \<longleftrightarrow> e_invalidated e < e_generation e"

definition pending_count :: "db \<Rightarrow> int" where
  "pending_count d = sql_count (\<lambda>j. j_state j = Pending) (jobs d)
     + sql_count (\<lambda>a. a_state a = Pending) (authorities d) + sql_count reset_pending (epochs d)"

definition pending_shared_head_invalidation_count :: "db \<Rightarrow> int" where
  "pending_shared_head_invalidation_count d = sql_count reset_pending (epochs d)"

definition dead_count :: "db \<Rightarrow> int" where
  "dead_count d = sql_count (\<lambda>j. j_state j = Dead) (jobs d) + sql_count (\<lambda>a. a_state a = Dead) (authorities d)"

definition oldest :: "('r \<Rightarrow> int) \<Rightarrow> 'r list \<Rightarrow> int \<times> int" where
  \<comment> \<open>\<open>count(*), min(stamp)\<close> of a group, which is never empty\<close>
  "oldest stamp rows = (int (length rows), Min (stamp ` set rows))"

definition grouped_by_class ::
  "string \<Rightarrow> ('r \<Rightarrow> work_class) \<Rightarrow> ('r \<Rightarrow> int) \<Rightarrow> 'r list \<Rightarrow> ((string \<times> string) \<times> int \<times> int) list" where
  \<comment> \<open>\<open>GROUP BY work_class\<close>, the groups in class order\<close>
  "grouped_by_class kind wc stamp rows = map (\<lambda>w. ((kind, show_work_class w),
     oldest stamp (filter (\<lambda>r. wc r = w) rows))) (sort (remdups (map wc rows)))"

definition pending_work_class_snapshot :: "db \<Rightarrow> ((string \<times> string) \<times> int \<times> int) list" where
  "pending_work_class_snapshot d =
     grouped_by_class ''evaluation'' j_class j_requested (filter (\<lambda>j. j_state j = Pending) (jobs d))
     @ grouped_by_class ''invalidation'' e_class e_changed (filter reset_pending (epochs d))
     @ (let waiting = filter (\<lambda>a. a_state a = Pending) (authorities d) in
        if waiting = [] then [] else [((''authority'', ''authority''), oldest a_requested waiting)])"

section \<open>Recovery of dead rows\<close>

definition requeue_dead :: "int \<Rightarrow> int \<Rightarrow> db \<Rightarrow> db \<times> int" where
  "requeue_dead now limit d =
     (let authority_ids = map a_id (sql_ids (\<lambda>a. (a_requested a, a_id a)) (\<lambda>a. a_state a = Dead)
            (nat limit) (authorities d));
          (updated, authority_count) = sql_update (\<lambda>a. a_id a \<in> set authority_ids)
            (\<lambda>a. a\<lparr>a_state := Pending, a_attempts := 0, a_available := now, a_error := None,
                   a_owner := None, a_lease := None\<rparr>) (authorities d);
          remaining = max 0 (limit - int authority_count);
          ids = map j_id (sql_ids (\<lambda>j. (j_requested j, j_id j)) (\<lambda>j. j_state j = Dead)
            (nat remaining) (jobs d));
          (updated_jobs, evaluation_count) = sql_update (\<lambda>j. j_id j \<in> set ids)
            (\<lambda>j. j\<lparr>j_state := Pending, j_attempts := 0, j_available := now, j_error := None,
                   j_owner := None, j_lease := None\<rparr>) (jobs d)
      in (d\<lparr>authorities := updated, jobs := updated_jobs\<rparr>, int evaluation_count + int authority_count))"

section \<open>Retention\<close>

definition prune_deliveries :: "int \<Rightarrow> db \<Rightarrow> db \<times> int" where
  "prune_deliveries older_than d =
     (let (kept, n) = sql_delete (\<lambda>x. d_received x < older_than) (deliveries d)
      in (d\<lparr>deliveries := kept\<rparr>, int n))"

definition references_epoch :: "head_epoch \<Rightarrow> job \<Rightarrow> bool" where
  "references_epoch e j \<longleftrightarrow> j_installation j = e_installation e \<and> j_repo j = e_repo e \<and>
     j_head j = Some (e_head e)"

definition prunable_epoch :: "int \<Rightarrow> db \<Rightarrow> head_epoch \<Rightarrow> bool" where
  "prunable_epoch older_than d e \<longleftrightarrow> e_changed e < older_than \<and> e_invalidated e = e_generation e \<and>
     e_owner e = None \<and> e_lease e = None \<and> \<not> list_ex (references_epoch e) (jobs d)"

definition prune_shared_head_epochs :: "int \<Rightarrow> db \<Rightarrow> db \<times> int" where
  "prune_shared_head_epochs older_than d =
     (let (kept, n) = sql_delete (prunable_epoch older_than d) (epochs d)
      in (d\<lparr>epochs := kept\<rparr>, int n))"

definition prune_reconciliation_states :: "int \<Rightarrow> db \<Rightarrow> db \<times> int" where
  "prune_reconciliation_states older_than d =
     (let (kept, n) = sql_delete (\<lambda>s. rs_observed s < older_than) (recon d)
      in (d\<lparr>recon := kept\<rparr>, int n))"

definition record_audit ::
  "int \<Rightarrow> string \<Rightarrow> int \<Rightarrow> string \<Rightarrow> string \<Rightarrow> string \<Rightarrow> db \<Rightarrow> db" where
  "record_audit now repo pull head verdict details d =
     (let key = (\<lambda>r. au_repo r = repo \<and> au_pull r = pull) in
      case find key (audits d) of
        None \<Rightarrow> d\<lparr>audits := audits d @ [\<lparr>au_repo = repo, au_pull = pull, au_head = head,
           au_conclusion = verdict, au_details = details, au_evaluated = now\<rparr>]\<rparr>
      | Some _ \<Rightarrow> d\<lparr>audits := fst (sql_update key (\<lambda>r. r\<lparr>au_head := head, au_conclusion := verdict,
           au_details := details, au_evaluated := now\<rparr>) (audits d))\<rparr>)"

end
