(* ===== verification/Queue_Invariant.thy ===== *)
theory Queue_Invariant
  imports Queue_Admin
begin

text \<open>
  The invariant of the durable queue and the order in which its rows evolve. \<open>db_ok\<close> states
  the unique keys, the bounds of the check constraints, and that every evaluation row has a
  canonical repository name and is bound to no head generation its fence has not reached. \<open>jobs_evolve\<close> states that ids are never
  reused, that the generation of a row never decreases, and that a row changes its head
  only with its generation, except that an unbound row may be bound once; \<open>epochs_evolve\<close>
  that a fence present before and after an operation never moves back.
\<close>

section \<open>The invariant\<close>

definition jobs_ok :: "int \<Rightarrow> job list \<Rightarrow> bool" where
  "jobs_ok n js \<longleftrightarrow> unique_by j_id js \<and> unique_by job_key js \<and>
     (\<forall>j \<in> set js. 0 < j_id j \<and> j_id j < n \<and> 1 \<le> j_generation j)"

definition epoch_ok :: "head_epoch \<Rightarrow> bool" where
  "epoch_ok e \<longleftrightarrow> 1 \<le> e_generation e \<and> 0 \<le> e_invalidated e \<and> e_invalidated e \<le> e_generation e \<and>
     0 \<le> e_attempts e"

definition epochs_ok :: "head_epoch list \<Rightarrow> bool" where
  "epochs_ok es \<longleftrightarrow> unique_by epoch_key es \<and> (\<forall>e \<in> set es. epoch_ok e)"

definition authorities_ok :: "int \<Rightarrow> authority_job list \<Rightarrow> bool" where
  "authorities_ok n as \<longleftrightarrow> unique_by a_id as \<and> unique_by authority_key as \<and>
     (\<forall>a \<in> set as. 0 < a_id a \<and> a_id a < n \<and> a_base a = [])"

definition gen_in :: "head_epoch list \<Rightarrow> int \<Rightarrow> string \<Rightarrow> string option \<Rightarrow> int" where
  "gen_in es inst repo head = (case head of None \<Rightarrow> 0
     | Some h \<Rightarrow> (case find (is_epoch inst repo h) es of None \<Rightarrow> 0 | Some e \<Rightarrow> e_generation e))"

definition fenced :: "head_epoch list \<Rightarrow> job \<Rightarrow> bool" where
  "fenced es j \<longleftrightarrow> j_shared j \<le> gen_in es (j_installation j) (j_repo j) (j_head j) \<and>
     canonical_repo (j_repo j)"

definition db_ok :: "db \<Rightarrow> bool" where
  "db_ok d \<longleftrightarrow> jobs_ok (next_job_id d) (jobs d) \<and> epochs_ok (epochs d) \<and>
     (\<forall>j \<in> set (jobs d). fenced (epochs d) j) \<and>
     0 < next_job_id d \<and> 0 < next_authority_id d \<and>
     authorities_ok (next_authority_id d) (authorities d) \<and>
     unique_by d_id (deliveries d) \<and> unique_by sl_name (leases d) \<and>
     unique_by ae_installation (authority_epochs d) \<and> unique_by recon_key (recon d) \<and>
     unique_by bp_installation (pressures d)"

lemma head_generation_gen_in: "head_generation d inst repo head = gen_in (epochs d) inst repo head"
  by (simp add: head_generation_def gen_in_def find_epoch_def split: option.split)

lemma is_epoch_key: "is_epoch i r h e \<longleftrightarrow> epoch_key e = (i, r, h)"
  by (auto simp: is_epoch_def epoch_key_def)

lemma is_job_key: "is_job i r p j \<longleftrightarrow> job_key j = (i, r, p)"
  by (auto simp: is_job_def job_key_def)

lemma is_recon_key: "is_recon i r p s \<longleftrightarrow> recon_key s = (i, r, p)"
  by (auto simp: is_recon_def recon_key_def)

lemma is_authority_key: "is_authority i s b a \<longleftrightarrow> authority_key a = (i, s, b)"
  by (auto simp: is_authority_def authority_key_def)

lemma db_ok_empty: "db_ok empty_db"
  by (simp add: db_ok_def empty_db_def jobs_ok_def epochs_ok_def authorities_ok_def)

section \<open>Tables\<close>

lemma jobs_ok_update:
  assumes "jobs_ok n js"
    and "\<And>j. j \<in> set js \<Longrightarrow> c j \<Longrightarrow> 1 \<le> j_generation j \<Longrightarrow>
      j_id (f j) = j_id j \<and> job_key (f j) = job_key j \<and> 1 \<le> j_generation (f j)"
  shows "jobs_ok n (map (\<lambda>j. if c j then f j else j) js)"
  using assms by (auto simp: jobs_ok_def intro!: unique_by_map)

lemma jobs_ok_filter: "jobs_ok n js \<Longrightarrow> jobs_ok n (filter c js)"
  by (auto simp: jobs_ok_def intro: unique_by_filter)

lemma jobs_ok_snoc:
  assumes "jobs_ok n js" and "0 < n" and "j_id j = n" and "job_key j \<notin> job_key ` set js"
    and "1 \<le> j_generation j"
  shows "jobs_ok (n + 1) (js @ [j])"
  using assms by (force simp: jobs_ok_def unique_by_snoc)

lemma epochs_ok_update:
  assumes "epochs_ok es"
    and "\<And>e. e \<in> set es \<Longrightarrow> c e \<Longrightarrow> epoch_ok e \<Longrightarrow> epoch_key (f e) = epoch_key e \<and> epoch_ok (f e)"
  shows "epochs_ok (map (\<lambda>e. if c e then f e else e) es)"
  using assms by (auto simp: epochs_ok_def intro!: unique_by_map)

lemma epochs_ok_filter: "epochs_ok es \<Longrightarrow> epochs_ok (filter c es)"
  by (auto simp: epochs_ok_def intro: unique_by_filter)

lemma epochs_ok_snoc:
  "epochs_ok es \<Longrightarrow> epoch_ok e \<Longrightarrow> epoch_key e \<notin> epoch_key ` set es \<Longrightarrow> epochs_ok (es @ [e])"
  by (auto simp: epochs_ok_def unique_by_snoc)

lemma authorities_ok_update:
  assumes "authorities_ok n as"
    and "\<And>a. a \<in> set as \<Longrightarrow> c a \<Longrightarrow> a_id (f a) = a_id a \<and> authority_key (f a) = authority_key a"
  shows "authorities_ok n (map (\<lambda>a. if c a then f a else a) as)"
  using assms by (auto simp: authorities_ok_def authority_key_def intro!: unique_by_map)

lemma authorities_ok_filter: "authorities_ok n as \<Longrightarrow> authorities_ok n (filter c as)"
  by (auto simp: authorities_ok_def intro: unique_by_filter)

lemma authorities_ok_snoc:
  assumes "authorities_ok n as" and "0 < n" and "a_id a = n"
    and "authority_key a \<notin> authority_key ` set as" and "a_base a = []"
  shows "authorities_ok (n + 1) (as @ [a])"
  using assms by (force simp: authorities_ok_def unique_by_snoc)

section \<open>Fence generations\<close>

lemma gen_in_find:
  assumes "epochs_ok es" and "e \<in> set es"
  shows "gen_in es (e_installation e) (e_repo e) (Some (e_head e)) = e_generation e"
proof -
  have "is_epoch (e_installation e) (e_repo e) (e_head e) = (\<lambda>x. epoch_key x = epoch_key e)"
    by (auto simp: is_epoch_def epoch_key_def)
  then have "find (is_epoch (e_installation e) (e_repo e) (e_head e)) es = Some e"
    using assms by (simp add: epochs_ok_def find_key)
  then show ?thesis by (simp add: gen_in_def)
qed

lemma gen_in_cases:
  assumes "epochs_ok es"
  obtains "gen_in es i r (Some h) = 0" "\<not> (\<exists>e \<in> set es. is_epoch i r h e)"
    | e where "e \<in> set es" "is_epoch i r h e" "gen_in es i r (Some h) = e_generation e"
proof (cases "find (is_epoch i r h) es")
  case None
  with that(1) show ?thesis by (simp add: gen_in_def find_None)
next
  case (Some e)
  with that(2) [of e] show ?thesis by (auto simp: gen_in_def dest: find_SomeD)
qed

lemma gen_in_nonneg:
  assumes "epochs_ok es"
  shows "0 \<le> gen_in es i r h"
proof (cases h)
  case (Some x)
  show ?thesis
  proof (cases rule: gen_in_cases [OF assms, of i r x])
    case (2 e)
    with assms Some show ?thesis by (auto simp: epochs_ok_def epoch_ok_def)
  qed (simp add: Some)
qed (simp add: gen_in_def)

definition epochs_evolve :: "head_epoch list \<Rightarrow> head_epoch list \<Rightarrow> bool" where
  "epochs_evolve es es' \<longleftrightarrow> (\<forall>e \<in> set es. \<forall>e' \<in> set es'. epoch_key e' = epoch_key e \<longrightarrow>
     e_generation e \<le> e_generation e' \<and> e_invalidated e \<le> e_invalidated e')"

lemma gen_in_grow:
  assumes "epochs_ok es" and ok: "epochs_ok es'" and ev: "epochs_evolve es es'"
    and keep: "\<And>e. e \<in> set es \<Longrightarrow> is_epoch i r x e \<Longrightarrow> \<exists>e' \<in> set es'. epoch_key e' = epoch_key e"
  shows "gen_in es i r (Some x) \<le> gen_in es' i r (Some x)"
proof (cases rule: gen_in_cases [OF assms(1), of i r x])
  case 1
  with gen_in_nonneg [OF ok] show ?thesis by simp
next
  case (2 e)
  with keep obtain e' where e': "e' \<in> set es'" "epoch_key e' = epoch_key e" by blast
  with 2 ev have "e_generation e \<le> e_generation e'" by (auto simp: epochs_evolve_def)
  moreover have "gen_in es' i r (Some x) = e_generation e'"
    using gen_in_find [OF ok e'(1)] e'(2) 2(2) by (simp add: is_epoch_key epoch_key_def)
  ultimately show ?thesis using 2 by simp
qed

lemma fenced_grow:
  assumes "epochs_ok es" and "epochs_ok es'" and "epochs_evolve es es'" and "fenced es j"
    and "\<And>e. e \<in> set es \<Longrightarrow> references_epoch e j \<Longrightarrow> \<exists>e' \<in> set es'. epoch_key e' = epoch_key e"
  shows "fenced es' j"
proof (cases "j_head j")
  case None
  with assms(4) show ?thesis by (simp add: fenced_def gen_in_def)
next
  case (Some h)
  have "gen_in es (j_installation j) (j_repo j) (Some h) \<le> gen_in es' (j_installation j) (j_repo j) (Some h)"
    by (rule gen_in_grow [OF assms(1-3)])
      (rule assms(5), auto simp: references_epoch_def is_epoch_def Some)
  with assms(4) Some show ?thesis by (simp add: fenced_def)
qed

section \<open>Evolution\<close>

definition job_after :: "job \<Rightarrow> job \<Rightarrow> bool" where
  "job_after j j' \<longleftrightarrow> j_id j' = j_id j \<and> job_key j' = job_key j \<and> j_generation j \<le> j_generation j' \<and>
     (j_generation j' = j_generation j \<longrightarrow> j_head j \<noteq> None \<longrightarrow> j_head j' = j_head j)"

definition jobs_evolve :: "int \<Rightarrow> job list \<Rightarrow> job list \<Rightarrow> bool" where
  "jobs_evolve n js js' \<longleftrightarrow> (\<forall>j' \<in> set js'. n \<le> j_id j' \<or> (\<exists>j \<in> set js. job_after j j'))"

lemma job_after_refl [simp]: "job_after j j"
  by (simp add: job_after_def)

lemma job_after_trans: "job_after j k \<Longrightarrow> job_after k l \<Longrightarrow> job_after j l"
  unfolding job_after_def by force

lemma jobs_evolve_trans:
  assumes "jobs_evolve n js ks" and "jobs_evolve m ks ls" and "n \<le> m"
  shows "jobs_evolve n js ls"
  unfolding jobs_evolve_def
proof
  fix l assume "l \<in> set ls"
  with assms(2) consider "m \<le> j_id l" | k where "k \<in> set ks" "job_after k l"
    unfolding jobs_evolve_def by blast
  then show "n \<le> j_id l \<or> (\<exists>j \<in> set js. job_after j l)"
  proof cases
    case 1 with assms(3) show ?thesis by simp
  next
    case 2
    with assms(1) have "n \<le> j_id k \<or> (\<exists>j \<in> set js. job_after j k)" unfolding jobs_evolve_def by blast
    with 2(2) show ?thesis by (metis job_after_def job_after_trans)
  qed
qed

lemma jobs_evolve_refl [simp]: "jobs_evolve n js js"
  unfolding jobs_evolve_def by (metis job_after_refl)

lemma jobs_evolve_update:
  assumes "\<And>j. j \<in> set js \<Longrightarrow> c j \<Longrightarrow> job_after j (f j)"
  shows "jobs_evolve n js (map (\<lambda>j. if c j then f j else j) js)"
  unfolding jobs_evolve_def
proof
  fix j' assume "j' \<in> set (map (\<lambda>j. if c j then f j else j) js)"
  then obtain j where "j \<in> set js" "j' = (if c j then f j else j)" by auto
  with assms [of j] show "n \<le> j_id j' \<or> (\<exists>j \<in> set js. job_after j j')"
    by (cases "c j") (auto intro: job_after_refl)
qed

lemma jobs_evolve_filter: "jobs_evolve n js (filter c js)"
  unfolding jobs_evolve_def by (metis filter_is_subset job_after_refl subsetD)

lemma jobs_evolve_snoc: "jobs_evolve n js ks \<Longrightarrow> n \<le> j_id j \<Longrightarrow> jobs_evolve n js (ks @ [j])"
  by (auto simp: jobs_evolve_def)

lemma epochs_evolve_refl: "epochs_ok es \<Longrightarrow> epochs_evolve es es"
  by (auto simp: epochs_evolve_def epochs_ok_def dest: unique_by_eq)

lemma epochs_evolve_update:
  assumes "epochs_ok es"
    and "\<And>e. e \<in> set es \<Longrightarrow> c e \<Longrightarrow> epoch_ok e \<Longrightarrow> epoch_key (f e) = epoch_key e \<and>
      e_generation e \<le> e_generation (f e) \<and> e_invalidated e \<le> e_invalidated (f e)"
  shows "epochs_evolve es (map (\<lambda>e. if c e then f e else e) es)"
  unfolding epochs_evolve_def
proof (intro ballI impI)
  fix e e' assume e: "e \<in> set es" and "e' \<in> set (map (\<lambda>e. if c e then f e else e) es)"
    and k: "epoch_key e' = epoch_key e"
  then obtain x where x: "x \<in> set es" "e' = (if c x then f x else x)" by auto
  have ok: "epoch_ok x" "epoch_ok e" using assms(1) x(1) e by (auto simp: epochs_ok_def)
  have "epoch_key x = epoch_key e" using assms(2) [OF x(1) _ ok(1)] k x(2) by (metis (full_types))
  with assms(1) e x(1) have "x = e" unfolding epochs_ok_def by (metis unique_by_eq)
  with x assms(2) [OF e _ ok(2)] show "e_generation e \<le> e_generation e' \<and> e_invalidated e \<le> e_invalidated e'"
    by auto
qed

lemma epochs_evolve_filter: "epochs_ok es \<Longrightarrow> epochs_evolve es (filter c es)"
  using epochs_evolve_refl [of es] by (auto simp: epochs_evolve_def)

lemma epochs_evolve_snoc:
  assumes "epochs_evolve es es'" and "epoch_key e \<notin> epoch_key ` set es"
  shows "epochs_evolve es (es' @ [e])"
  using assms by (auto simp: epochs_evolve_def)

section \<open>Pending resets\<close>

text \<open>A fence whose reset is pending survives with a pending reset.\<close>

definition resets_kept :: "head_epoch list \<Rightarrow> head_epoch list \<Rightarrow> bool" where
  "resets_kept es es' \<longleftrightarrow> (\<forall>e \<in> set es. reset_pending e \<longrightarrow>
     (\<exists>e' \<in> set es'. epoch_key e' = epoch_key e \<and> reset_pending e'))"

lemma resets_kept_refl [simp]: "resets_kept es es"
  by (auto simp: resets_kept_def)

lemma resets_kept_trans: "resets_kept es es' \<Longrightarrow> resets_kept es' es'' \<Longrightarrow> resets_kept es es''"
  unfolding resets_kept_def by metis

lemma resets_kept_append [simp]: "resets_kept es (es @ es')"
  by (auto simp: resets_kept_def)

lemma resets_kept_update:
  assumes "\<And>e. e \<in> set es \<Longrightarrow> c e \<Longrightarrow> reset_pending e \<Longrightarrow> epoch_key (f e) = epoch_key e \<and> reset_pending (f e)"
  shows "resets_kept es (map (\<lambda>e. if c e then f e else e) es)"
  unfolding resets_kept_def
proof (intro ballI impI)
  fix e assume e: "e \<in> set es" "reset_pending e"
  then have "(if c e then f e else e) \<in> set (map (\<lambda>e. if c e then f e else e) es)" by simp
  moreover have "epoch_key (if c e then f e else e) = epoch_key e" "reset_pending (if c e then f e else e)"
    using assms e by auto
  ultimately show "\<exists>e' \<in> set (map (\<lambda>e. if c e then f e else e) es). epoch_key e' = epoch_key e \<and> reset_pending e'"
    by blast
qed

lemma resets_kept_filter:
  "(\<And>e. e \<in> set es \<Longrightarrow> reset_pending e \<Longrightarrow> c e) \<Longrightarrow> resets_kept es (filter c es)"
  by (auto simp: resets_kept_def)

end
