(* ===== verification/Queue_Steps.thy ===== *)
theory Queue_Steps
  imports Queue_Invariant
begin

text \<open>
  Every queue operation keeps the invariant and lets the rows evolve (\<open>evolves\<close>); all but
  the completion of an exact-head reset also leave every pending reset pending (\<open>keeps\<close>). First the
  building blocks on one table, then the operations in the order of the code.
\<close>

declare fst_update [simp del] snd_update [simp del]

definition evolves :: "db \<Rightarrow> db \<Rightarrow> bool" where
  "evolves d d' \<longleftrightarrow> db_ok d' \<and> next_job_id d \<le> next_job_id d' \<and>
     jobs_evolve (next_job_id d) (jobs d) (jobs d') \<and> epochs_evolve (epochs d) (epochs d')"

definition keeps :: "db \<Rightarrow> db \<Rightarrow> bool" where
  "keeps d d' \<longleftrightarrow> evolves d d' \<and> resets_kept (epochs d) (epochs d')"

lemma keeps_evolves: "keeps d d' \<Longrightarrow> evolves d d'"
  by (simp add: keeps_def)

lemma evolves_ok: "evolves d d' \<Longrightarrow> db_ok d'"
  by (simp add: evolves_def)

lemma keeps_refl: "db_ok d \<Longrightarrow> keeps d d"
  by (simp add: keeps_def evolves_def epochs_evolve_refl db_ok_def)

lemma keeps_trans:
  assumes "keeps d d1" and "keeps d1 d2" and "epochs d1 = epochs d \<or> epochs d2 = epochs d1"
  shows "keeps d d2"
  using assms jobs_evolve_trans [of "next_job_id d" "jobs d" "jobs d1" "next_job_id d1" "jobs d2"]
  unfolding keeps_def evolves_def by (auto intro: resets_kept_trans)

lemma keeps_ok: "keeps d d' \<Longrightarrow> db_ok d'"
  by (simp add: keeps_def evolves_def)

section \<open>Building blocks\<close>

lemma keeps_jobs_update:
  assumes "db_ok d" and "\<And>j. j \<in> set (jobs d) \<Longrightarrow> c j \<Longrightarrow> job_after j (f j) \<and> fenced (epochs d) (f j)"
  shows "keeps d (d\<lparr>jobs := map (\<lambda>j. if c j then f j else j) (jobs d)\<rparr>)"
proof -
  have j: "jobs_ok (next_job_id d) (map (\<lambda>j. if c j then f j else j) (jobs d))"
  proof (rule jobs_ok_update)
    show "jobs_ok (next_job_id d) (jobs d)" using assms(1) by (simp add: db_ok_def)
    fix j assume "j \<in> set (jobs d)" "c j" "1 \<le> j_generation j"
    moreover from this assms(2) have "job_after j (f j)" by blast
    ultimately show "j_id (f j) = j_id j \<and> job_key (f j) = job_key j \<and> 1 \<le> j_generation (f j)"
      by (simp add: job_after_def)
  qed
  have "jobs_evolve (next_job_id d) (jobs d) (map (\<lambda>j. if c j then f j else j) (jobs d))"
    by (rule jobs_evolve_update) (use assms(2) in blast)
  moreover have "\<forall>j \<in> set (map (\<lambda>j. if c j then f j else j) (jobs d)). fenced (epochs d) j"
    using assms by (auto simp: db_ok_def)
  ultimately show ?thesis
    using assms(1) j by (simp add: keeps_def evolves_def db_ok_def epochs_evolve_refl)
qed

lemma keeps_jobs_filter:
  assumes "db_ok d"
  shows "keeps d (d\<lparr>jobs := filter c (jobs d)\<rparr>)"
  using assms jobs_ok_filter jobs_evolve_filter
  by (auto simp: keeps_def evolves_def db_ok_def epochs_evolve_refl)

lemma keeps_insert_job:
  assumes "db_ok d" and "\<And>i. j_id (mk i) = i \<and> 1 \<le> j_generation (mk i) \<and> fenced (epochs d) (mk i)"
    and "\<And>i. job_key (mk i) \<notin> job_key ` set (jobs d)"
  shows "keeps d (insert_job mk d)"
proof -
  have "jobs_ok (next_job_id d + 1) (jobs d @ [mk (next_job_id d)])"
    by (rule jobs_ok_snoc) (use assms in \<open>auto simp: db_ok_def\<close>)
  moreover have "jobs_evolve (next_job_id d) (jobs d) (jobs d @ [mk (next_job_id d)])"
    by (rule jobs_evolve_snoc) (use assms in auto)
  ultimately show ?thesis
    using assms by (auto simp: keeps_def evolves_def db_ok_def insert_job_def epochs_evolve_refl)
qed

lemma keeps_epochs_update:
  assumes "db_ok d"
    and f: "\<And>e. e \<in> set (epochs d) \<Longrightarrow> c e \<Longrightarrow> epoch_ok e \<Longrightarrow> epoch_key (f e) = epoch_key e \<and>
      e_generation e \<le> e_generation (f e) \<and> e_invalidated e \<le> e_invalidated (f e) \<and> epoch_ok (f e) \<and>
      (reset_pending e \<longrightarrow> reset_pending (f e))"
  shows "keeps d (d\<lparr>epochs := map (\<lambda>e. if c e then f e else e) (epochs d)\<rparr>)"
proof -
  let ?es = "map (\<lambda>e. if c e then f e else e) (epochs d)"
  have ok: "epochs_ok (epochs d)" using assms(1) by (simp add: db_ok_def)
  then have okd: "\<And>e. e \<in> set (epochs d) \<Longrightarrow> epoch_ok e" by (simp add: epochs_ok_def)
  have e: "epochs_ok ?es" by (rule epochs_ok_update [OF ok]) (use f in blast)
  have ev: "epochs_evolve (epochs d) ?es" by (rule epochs_evolve_update [OF ok]) (use f in blast)
  have "resets_kept (epochs d) ?es" by (rule resets_kept_update) (use f okd in blast)
  moreover have "fenced ?es j" if "j \<in> set (jobs d)" for j
  proof (rule fenced_grow [OF ok e ev])
    show "fenced (epochs d) j" using that assms(1) by (simp add: db_ok_def)
    fix x assume x: "x \<in> set (epochs d)"
    with f okd have "epoch_key (if c x then f x else x) = epoch_key x" by simp
    moreover have "(if c x then f x else x) \<in> set ?es" using x unfolding set_map by (rule imageI)
    ultimately show "\<exists>e' \<in> set ?es. epoch_key e' = epoch_key x" by blast
  qed
  ultimately show ?thesis using e ev assms(1) by (simp add: keeps_def evolves_def db_ok_def)
qed

lemma keeps_epochs_snoc:
  assumes "db_ok d" and "epoch_ok e" and "epoch_key e \<notin> epoch_key ` set (epochs d)"
  shows "keeps d (d\<lparr>epochs := epochs d @ [e]\<rparr>)"
proof -
  have ok: "epochs_ok (epochs d)" using assms(1) by (simp add: db_ok_def)
  have e: "epochs_ok (epochs d @ [e])" by (rule epochs_ok_snoc [OF ok assms(2,3)])
  have ev: "epochs_evolve (epochs d) (epochs d @ [e])"
    by (rule epochs_evolve_snoc [OF epochs_evolve_refl [OF ok] assms(3)])
  have "fenced (epochs d @ [e]) j" if "j \<in> set (jobs d)" for j
    by (rule fenced_grow [OF ok e ev]) (use that assms(1) in \<open>auto simp: db_ok_def\<close>)
  with e ev assms(1) show ?thesis by (simp add: keeps_def evolves_def db_ok_def)
qed

text \<open>A change of the other tables that keeps their keys.\<close>

lemma keeps_other:
  assumes "db_ok d" and "db_ok d'" and "jobs d' = jobs d" and "epochs d' = epochs d"
    and "next_job_id d' = next_job_id d"
  shows "keeps d d'"
  using assms by (simp add: keeps_def evolves_def epochs_evolve_refl db_ok_def)

lemma keeps_authorities_update:
  assumes "db_ok d"
    and "\<And>a. a \<in> set (authorities d) \<Longrightarrow> c a \<Longrightarrow> a_id (f a) = a_id a \<and> authority_key (f a) = authority_key a"
  shows "keeps d (d\<lparr>authorities := map (\<lambda>a. if c a then f a else a) (authorities d)\<rparr>)"
  by (rule keeps_other) (use assms authorities_ok_update [of "next_authority_id d" "authorities d" c f]
      in \<open>auto simp: db_ok_def\<close>)

lemma keeps_authorities_filter: "db_ok d \<Longrightarrow> keeps d (d\<lparr>authorities := filter c (authorities d)\<rparr>)"
  by (rule keeps_other) (auto simp: db_ok_def authorities_ok_filter)

section \<open>The exact-head fence\<close>

lemma lock_head:
  assumes "lock_shared_head_epoch q = Inr h"
  shows "q_head q = Some h" and "validate_head_sha h = Inr h"
proof -
  have "q_head q \<noteq> None"
  proof
    assume "q_head q = None"
    with assms show False by (simp add: lock_shared_head_epoch_def validate_head_sha_def)
  qed
  then obtain x where x: "q_head q = Some x" by blast
  with assms have "validate_head_sha x = Inr h" by (simp add: lock_shared_head_epoch_def)
  with x validate_head_sha_Inr [OF this] show "q_head q = Some h" "validate_head_sha h = Inr h" by simp_all
qed

lemma epoch_ok_bump: "epoch_ok e \<Longrightarrow> epoch_ok (bump_epoch now fg wc e)"
  by (simp add: epoch_ok_def bump_epoch_def)

lemma advance_cases:
  assumes "db_ok d" and "advance_shared_head_epoch now q d = Inr (d', g)"
  obtains h fg where "q_head q = Some h" "validate_head_sha h = Inr h"
    "\<exists>e \<in> set (epochs d). is_epoch (q_installation q) (q_repo q) h e \<and> g = e_generation e + 1"
    "d' = d\<lparr>epochs := map (\<lambda>e. if is_epoch (q_installation q) (q_repo q) h e
        then bump_epoch now fg (q_class q) e else e) (epochs d)\<rparr>"
  | h fg where "q_head q = Some h" "validate_head_sha h = Inr h"
    "\<not> (\<exists>e \<in> set (epochs d). is_epoch (q_installation q) (q_repo q) h e)" "g = 1"
    "d' = d\<lparr>epochs := epochs d @ [new_epoch now fg q h]\<rparr>"
proof -
  from assms(2) obtain h where "lock_shared_head_epoch q = Inr h"
    by (auto simp: advance_shared_head_epoch_def)
  note h = lock_head [OF this]
  let ?key = "is_epoch (q_installation q) (q_repo q) h"
  let ?fg = "foreground_waiting d q h"
  let ?es = "map (\<lambda>e. if ?key e then bump_epoch now ?fg (q_class q) e else e) (epochs d)"
  have u: "unique_by epoch_key (epochs d)" using assms(1) by (simp add: db_ok_def epochs_ok_def)
  have n: "length (filter ?key (epochs d)) = 1 \<longleftrightarrow> (\<exists>e \<in> set (epochs d). ?key e)"
    by (rule filter_key_eq_1 [OF u]) (simp add: is_epoch_key)
  have v: "advance_shared_head_epoch now q d =
    (if length (filter ?key (epochs d)) = 1
     then (case find ?key ?es of
             None \<Rightarrow> Inl (RuntimeError ''shared-head epoch disappeared during advancement'')
           | Some e \<Rightarrow> Inr (d\<lparr>epochs := ?es\<rparr>, e_generation e))
     else Inr (d\<lparr>epochs := ?es @ [new_epoch now ?fg q h]\<rparr>, 1))"
    using h by (simp add: advance_shared_head_epoch_def lock_shared_head_epoch_def sql_update_def Let_def)
  show thesis
  proof (cases "\<exists>e \<in> set (epochs d). ?key e")
    case True
    with n v assms(2) obtain e where e: "find ?key ?es = Some e" "d' = d\<lparr>epochs := ?es\<rparr>" "g = e_generation e"
      by (auto split: option.splits)
    from find_SomeD [OF e(1)] obtain x where "x \<in> set (epochs d)" "e = (if ?key x then bump_epoch now ?fg (q_class q) x else x)"
      "?key e" by auto
    then have "x \<in> set (epochs d)" "?key x" "e_generation e = e_generation x + 1"
      by (auto simp: bump_epoch_def split: if_splits)
    with e h that(1) show thesis by blast
  next
    case False
    then have "?es = epochs d" by (simp add: map_idI)
    with False n v assms(2) have "g = 1" "d' = d\<lparr>epochs := epochs d @ [new_epoch now ?fg q h]\<rparr>" by simp_all
    with False h that(2) show thesis by blast
  qed
qed

lemma advance_keeps:
  assumes "db_ok d" and "advance_shared_head_epoch now q d = Inr (d', g)"
  shows "keeps d d'" and "jobs d' = jobs d" and "next_job_id d' = next_job_id d"
    and "g = gen_in (epochs d') (q_installation q) (q_repo q) (q_head q)" and "1 \<le> g"
    and "\<exists>es. d' = d\<lparr>epochs := es\<rparr>"
proof -
  have ok: "epochs_ok (epochs d)" using assms(1) by (simp add: db_ok_def)
  have "keeps d d' \<and> jobs d' = jobs d \<and> next_job_id d' = next_job_id d \<and>
    g = gen_in (epochs d') (q_installation q) (q_repo q) (q_head q) \<and> 1 \<le> g \<and> (\<exists>es. d' = d\<lparr>epochs := es\<rparr>)"
    using advance_cases [OF assms]
  proof cases
    case (1 h fg)
    let ?f = "\<lambda>e. if is_epoch (q_installation q) (q_repo q) h e then bump_epoch now fg (q_class q) e else e"
    from 1(3) obtain e where e: "e \<in> set (epochs d)" "is_epoch (q_installation q) (q_repo q) h e"
      "g = e_generation e + 1" by blast
    have k: "keeps d d'" unfolding 1(4)
      by (rule keeps_epochs_update [OF assms(1)]) (auto simp: bump_epoch_def epoch_key_def epoch_ok_def reset_pending_def)
    have "?f e \<in> set (epochs d')" using e(1) unfolding 1(4) by simp
    then have m: "bump_epoch now fg (q_class q) e \<in> set (epochs d')" using e(2) by simp
    have "epochs_ok (epochs d')" using keeps_ok [OF k] by (simp add: db_ok_def)
    from gen_in_find [OF this m] e(2,3) 1(1)
    have "g = gen_in (epochs d') (q_installation q) (q_repo q) (q_head q)"
      by (simp add: bump_epoch_def is_epoch_def)
    moreover have "1 \<le> g" using e ok by (auto simp: epochs_ok_def epoch_ok_def)
    ultimately show ?thesis using k 1(4) by auto
  next
    case (2 h fg)
    have k: "keeps d d'" unfolding 2(5)
      by (rule keeps_epochs_snoc [OF assms(1)])
        (use 2(3) in \<open>auto simp: new_epoch_def epoch_ok_def epoch_key_def is_epoch_def\<close>)
    have m: "new_epoch now fg q h \<in> set (epochs d')" unfolding 2(5) by simp
    have "epochs_ok (epochs d')" using keeps_ok [OF k] by (simp add: db_ok_def)
    from gen_in_find [OF this m] 2(1,4)
    have "g = gen_in (epochs d') (q_installation q) (q_repo q) (q_head q)" by (simp add: new_epoch_def)
    with k 2(4,5) show ?thesis by auto
  qed
  then show "keeps d d'" "jobs d' = jobs d" "next_job_id d' = next_job_id d"
    "g = gen_in (epochs d') (q_installation q) (q_repo q) (q_head q)" "1 \<le> g"
    "\<exists>es. d' = d\<lparr>epochs := es\<rparr>" by blast+
qed

lemma touch_keeps:
  assumes "db_ok d" and "touch_shared_head_epoch now q d = Inr (d', g)"
  shows "keeps d d'" and "jobs d' = jobs d"
    and "g = gen_in (epochs d') (q_installation q) (q_repo q) (q_head q)"
proof -
  from assms(2) obtain h where l: "lock_shared_head_epoch q = Inr h"
    by (auto simp: touch_shared_head_epoch_def lock_shared_head_epoch_def)
  note h = lock_head [OF l]
  have d': "d' = d\<lparr>epochs := map (\<lambda>e. if is_epoch (q_installation q) (q_repo q) h e
      then e\<lparr>e_changed := now\<rparr> else e) (epochs d)\<rparr>"
    and g: "g = head_generation d' (q_installation q) (q_repo q) (Some h)"
    using assms(2) h by (auto simp: touch_shared_head_epoch_def Let_def fst_update)
  show "keeps d d'" unfolding d'
    by (rule keeps_epochs_update [OF assms(1)]) (auto simp: epoch_key_def epoch_ok_def reset_pending_def)
  show "jobs d' = jobs d" by (simp add: d')
  show "g = gen_in (epochs d') (q_installation q) (q_repo q) (q_head q)"
    using g h by (simp add: head_generation_gen_in)
qed

section \<open>Enqueueing\<close>

lemma wake_keeps:
  assumes "db_ok d"
  shows "keeps d (wake_authority_for_interactive now q d)"
    and "jobs (wake_authority_for_interactive now q d) = jobs d"
    and "epochs (wake_authority_for_interactive now q d) = epochs d"
  unfolding wake_authority_for_interactive_def fst_update
  using keeps_refl [OF assms]
  by (auto intro!: keeps_authorities_update [OF assms] simp: authority_key_def)

lemma job_after_refresh: "job_after j (refresh_job now q i a g p j)"
  by (simp add: job_after_def refresh_job_def job_key_def)

lemma filter_job_key:
  assumes "db_ok d"
  shows "length (filter (\<lambda>j. is_job i r p j \<and> c j) (jobs d)) = 1 \<longleftrightarrow>
    (\<exists>j \<in> set (jobs d). is_job i r p j \<and> c j)"
  by (rule filter_key_eq_1 [of job_key]) (use assms in \<open>auto simp: db_ok_def jobs_ok_def is_job_key\<close>)

text \<open>The three outcomes of \<open>_enqueue_in_session\<close>: the row is refreshed, a row of a different
  head is preserved, or a new row is inserted.\<close>

lemma enqueue_outcomes:
  fixes d :: db and q :: job_request and shared :: "int option" and pd pw :: bool
  assumes "db_ok d"
  defines "g \<equiv> case shared of None \<Rightarrow> head_generation d (q_installation q) (q_repo q) (q_head q) | Some x \<Rightarrow> x"
    and "a \<equiv> authority_generation_of d (q_installation q)"
    and "key \<equiv> is_job (q_installation q) (q_repo q) (q_pull q)"
  defines "cond \<equiv> \<lambda>j. key j \<and> (pd \<longrightarrow> j_head j = None \<or> j_head j = q_head q)"
  obtains "\<exists>j \<in> set (jobs d). cond j"
      "enqueue_in_session now q i shared pd pw d = wake_authority_for_interactive now q
        (d\<lparr>jobs := map (\<lambda>j. if cond j then refresh_job now q i a g pw j else j) (jobs d)\<rparr>)"
  | "pd" "\<exists>j \<in> set (jobs d). key j \<and> j_head j \<noteq> None \<and> j_head j \<noteq> q_head q"
      "enqueue_in_session now q i shared pd pw d = d"
  | "\<not> (\<exists>j \<in> set (jobs d). key j)"
      "enqueue_in_session now q i shared pd pw d =
        wake_authority_for_interactive now q (insert_job (\<lambda>k. new_job now k q i a g) d)"
proof -
  let ?js = "map (\<lambda>j. if cond j then refresh_job now q i a g pw j else j) (jobs d)"
  let ?ins = "insert_job (\<lambda>k. new_job now k q i a g)"
  have n: "length (filter cond (jobs d)) = 1 \<longleftrightarrow> (\<exists>j \<in> set (jobs d). cond j)"
    unfolding cond_def key_def by (rule filter_job_key [OF assms(1)])
  have v: "enqueue_in_session now q i shared pd pw d =
    (if length (filter cond (jobs d)) = 1 then wake_authority_for_interactive now q (d\<lparr>jobs := ?js\<rparr>)
     else if pd \<and> list_ex key ?js then d\<lparr>jobs := ?js\<rparr>
     else wake_authority_for_interactive now q (?ins (d\<lparr>jobs := ?js\<rparr>)))"
    unfolding enqueue_in_session_def sql_update_def Let_def g_def a_def key_def cond_def by simp
  consider "\<exists>j \<in> set (jobs d). cond j" | "\<not> (\<exists>j \<in> set (jobs d). cond j)" "\<exists>j \<in> set (jobs d). key j"
    | "\<not> (\<exists>j \<in> set (jobs d). key j)" by blast
  then show thesis
  proof cases
    case 1
    with n v that(1) show thesis by simp
  next
    case 2
    then have same: "?js = jobs d" by (simp add: map_idI)
    from 2 have pd: "pd" by (auto simp: cond_def)
    have "\<exists>j \<in> set (jobs d). key j \<and> j_head j \<noteq> None \<and> j_head j \<noteq> q_head q"
      using 2 pd by (auto simp: cond_def)
    moreover have "list_ex key (jobs d)" using 2 by (simp add: list_ex_iff)
    ultimately show thesis using 2 n v that(2) pd same by simp
  next
    case 3
    then have "\<not> (\<exists>j \<in> set (jobs d). cond j)" by (auto simp: cond_def)
    moreover from this have "?js = jobs d" by (simp add: map_idI)
    moreover have "\<not> list_ex key (jobs d)" using 3 by (simp add: list_ex_iff)
    ultimately show thesis using 3 n v that(3) by simp
  qed
qed

lemma fenced_refresh:
  assumes "is_job (q_installation q) (q_repo q) (q_pull q) j"
    and "g \<le> gen_in es (q_installation q) (q_repo q) (q_head q)" and "canonical_repo (q_repo q)"
  shows "fenced es (refresh_job now q i a g p j)"
  using assms by (simp add: fenced_def refresh_job_def is_job_def)

lemma insert_new_job_keeps:
  assumes "db_ok d" and "\<not> (\<exists>j \<in> set (jobs d). is_job (q_installation q) (q_repo q) (q_pull q) j)"
    and "g \<le> gen_in (epochs d) (q_installation q) (q_repo q) (q_head q)" and "canonical_repo (q_repo q)"
  shows "keeps d (insert_job (\<lambda>k. new_job now k q i a g) d)"
proof (rule keeps_insert_job [OF assms(1)])
  show "job_key (new_job now k q i a g) \<notin> job_key ` set (jobs d)" for k
    using assms(2) by (auto simp: new_job_def is_job_def job_key_def)
qed (use assms(3,4) in \<open>simp add: new_job_def fenced_def\<close>)

lemma enqueue_in_session_keeps:
  assumes "db_ok d" and canon: "canonical_repo (q_repo q)"
    and "\<And>g. shared = Some g \<Longrightarrow> g \<le> gen_in (epochs d) (q_installation q) (q_repo q) (q_head q)"
  shows "keeps d (enqueue_in_session now q i shared pd pw d) \<and>
    epochs (enqueue_in_session now q i shared pd pw d) = epochs d"
proof -
  let ?g = "case shared of None \<Rightarrow> head_generation d (q_installation q) (q_repo q) (q_head q) | Some x \<Rightarrow> x"
  have g: "?g \<le> gen_in (epochs d) (q_installation q) (q_repo q) (q_head q)"
    using assms(3) by (simp add: head_generation_gen_in split: option.splits)
  show ?thesis
  proof (cases rule: enqueue_outcomes [OF assms(1), where shared = shared and q = q and pd = pd
        and now = now and i = i and pw = pw])
    case 1
    let ?d = "d\<lparr>jobs := map (\<lambda>j. if is_job (q_installation q) (q_repo q) (q_pull q) j \<and>
      (pd \<longrightarrow> j_head j = None \<or> j_head j = q_head q)
      then refresh_job now q i (authority_generation_of d (q_installation q)) ?g pw j else j) (jobs d)\<rparr>"
    have k: "keeps d ?d"
      by (rule keeps_jobs_update [OF assms(1)]) (use g canon in \<open>auto intro: fenced_refresh job_after_refresh\<close>)
    from wake_keeps [OF keeps_ok [OF k], where now = now and q = q] keeps_trans [OF k] 1(2) show ?thesis by simp
  next
    case 2
    with keeps_refl [OF assms(1)] show ?thesis by simp
  next
    case 3
    note k = insert_new_job_keeps [OF assms(1) 3(1) g canon, where now = now and i = i
        and a = "authority_generation_of d (q_installation q)"]
    from wake_keeps [OF keeps_ok [OF k], where now = now and q = q] keeps_trans [OF k] 3(2) show ?thesis
      by (simp add: insert_job_def)
  qed
qed

end
