(* ===== verification/Queue_Ops.thy ===== *)
theory Queue_Ops
  imports Queue_Steps
begin

text \<open>
  \<open>keeps\<close> for every public operation of the queue, from the enqueueing variants to the
  retention pruning.
\<close>

section \<open>Enqueueing variants\<close>

lemma advance_enqueue_keeps:
  assumes "db_ok d" and canon: "canonical_repo (q_repo q)" and "advance_shared_head_epoch now q d = Inr (d', g)"
  shows "keeps d (enqueue_in_session now q i (Some g) pd pw d')"
proof -
  note a = advance_keeps [OF assms(1,3)]
  have ok: "db_ok d'" using a(1) by (rule keeps_ok)
  have "keeps d' (enqueue_in_session now q i (Some g) pd pw d') \<and>
      epochs (enqueue_in_session now q i (Some g) pd pw d') = epochs d'"
    by (rule enqueue_in_session_keeps [OF ok canon]) (use a(4) in simp)
  with a(1) show ?thesis by (blast intro: keeps_trans)
qed

lemma enqueue_shared_head_trigger_keeps:
  assumes "db_ok d" and canon: "canonical_repo (q_repo q)" and "enqueue_shared_head_trigger now q d = Inr d'"
  shows "keeps d d'"
  using assms advance_enqueue_keeps by (auto simp: enqueue_shared_head_trigger_def)

lemma enqueue_keeps:
  assumes "db_ok d" and canon: "canonical_repo (q_repo q)" and "enqueue now q d = Inr d'"
  shows "keeps d d'"
  using assms enqueue_shared_head_trigger_keeps [OF assms(1,2)] enqueue_in_session_keeps [OF assms(1,2), of None]
  by (auto simp: enqueue_def split: if_splits)

lemma find_epoch_gen_in:
  "map_option e_generation (find_epoch d i r h) = Some g \<Longrightarrow> gen_in (epochs d) i r (Some h) = g"
  by (auto simp: gen_in_def find_epoch_def)

lemma enqueue_for_generation_keeps:
  assumes "db_ok d" and canon: "canonical_repo (q_repo q)" and "enqueue_for_shared_head_generation now q generation d = Inr (d', b)"
  shows "keeps d d'"
proof -
  let ?r = "enqueue_in_session now q None (Some generation) True True d"
  from assms(3) obtain h where h: "validate_head_sha (case q_head q of None \<Rightarrow> [] | Some h \<Rightarrow> h) = Inr h"
    by (auto simp: enqueue_for_shared_head_generation_def)
  with lock_head [of q h] have q: "q_head q = Some h" by (simp add: lock_shared_head_epoch_def)
  have "d' = d \<or> (d' = ?r \<and> map_option e_generation (find_epoch d (q_installation q) (q_repo q) h) = Some generation)"
    using assms(3) h by (auto simp: enqueue_for_shared_head_generation_def split: if_splits option.splits)
  then show ?thesis
  proof
    assume "d' = d" with keeps_refl [OF assms(1)] show ?thesis by simp
  next
    assume r: "d' = ?r \<and> map_option e_generation (find_epoch d (q_installation q) (q_repo q) h) = Some generation"
    then have "generation = gen_in (epochs d) (q_installation q) (q_repo q) (q_head q)"
      using find_epoch_gen_in q by metis
    with r enqueue_in_session_keeps [OF assms(1) canon, of "Some generation" now None True True]
    show ?thesis by simp
  qed
qed

lemma insert_if_absent_keeps:
  assumes "db_ok d" and canon: "canonical_repo (q_repo q)" and "insert_if_absent now q g d = Some d'"
    and "g \<le> gen_in (epochs d) (q_installation q) (q_repo q) (q_head q)"
  shows "keeps d d' \<and> epochs d' = epochs d"
proof -
  from assms(3) have n: "\<not> (\<exists>j \<in> set (jobs d). is_job (q_installation q) (q_repo q) (q_pull q) j)"
    and d': "d' = insert_job (\<lambda>i. new_job now i q None (authority_generation_of d (q_installation q)) g) d"
    by (auto simp: insert_if_absent_def list_ex_iff split: if_splits)
  from insert_new_job_keeps [OF assms(1) n assms(4) canon] show ?thesis by (simp add: d' insert_job_def)
qed

lemma advance_insert_keeps:
  assumes "db_ok d" and canon: "canonical_repo (q_repo q)" and "advance_shared_head_epoch now q d = Inr (d1, g)"
    and "insert_if_absent now q g d1 = Some d2"
  shows "keeps d d2"
proof -
  note a = advance_keeps [OF assms(1,3)]
  have "keeps d1 d2 \<and> epochs d2 = epochs d1"
    by (rule insert_if_absent_keeps [OF keeps_ok [OF a(1)] canon assms(4)]) (use a(4) in simp)
  with a(1) show ?thesis by (blast intro: keeps_trans)
qed

lemma enqueue_if_absent_keeps:
  assumes "db_ok d" and canon: "canonical_repo (q_repo q)" and "enqueue_if_absent now q d = Inr (d', b)"
  shows "keeps d d'"
proof (cases "q_head q")
  case None
  with assms(3) have "d' = d \<or> insert_if_absent now q 0 d = Some d'"
    by (auto simp: enqueue_if_absent_def split: option.splits)
  then show ?thesis
    using keeps_refl [OF assms(1)] insert_if_absent_keeps [OF assms(1) canon, of now 0 d']
    by (auto simp: None gen_in_def)
next
  case (Some h)
  with assms(3) obtain d1 g where a: "advance_shared_head_epoch now q d = Inr (d1, g)"
    and "d' = d \<or> insert_if_absent now q g d1 = Some d'"
    by (auto simp: enqueue_if_absent_def split: option.splits)
  then show ?thesis using keeps_refl [OF assms(1)] advance_insert_keeps [OF assms(1) canon a] by auto
qed

lemma observe_recon_keeps: "db_ok d \<Longrightarrow> keeps d (observe_recon now q d)"
  by (rule keeps_other)
    (auto simp: observe_recon_def db_ok_def fst_update recon_key_def intro!: unique_by_map)

lemma observe_recon_epochs [simp]: "epochs (observe_recon now q d) = epochs d"
  by (simp add: observe_recon_def)

lemma reconcile_existing_keeps:
  assumes "db_ok d" and canon: "canonical_repo (q_repo q)" and "reconcile_existing now q observed j d = Inr (d', b)"
  shows "keeps d d'"
proof -
  from assms(3) consider "d' = observe_recon now q d"
    | d1 g where "advance_shared_head_epoch now q d = Inr (d1, g)"
      "d' = observe_recon now q (enqueue_in_session now q None (Some g) False (j_class j \<noteq> Interactive) d1)"
    by (auto simp: reconcile_existing_def split: if_splits)
  then show ?thesis
  proof cases
    case 1 with observe_recon_keeps [OF assms(1)] show ?thesis by simp
  next
    case 2
    note k = advance_enqueue_keeps [OF assms(1) canon 2(1), of None False "j_class j \<noteq> Interactive"]
    from keeps_trans [OF k observe_recon_keeps [OF keeps_ok [OF k]]] 2(2) show ?thesis by simp
  qed
qed

lemma reconcile_missing_keeps:
  assumes "db_ok d" and canon: "canonical_repo (q_repo q)" and "reconcile_missing now q recheck d = Inr (d', b)"
  shows "keeps d d'"
proof -
  let ?q = "q\<lparr>q_reason := SCHEDULED_RECHECK_REASON\<rparr>"
  from assms(3) consider "d' = d" | "d' = observe_recon now q d"
    | d1 g where "touch_shared_head_epoch now ?q d = Inr (d1, g)" "insert_if_absent now ?q g d1 = Some d'"
    | d1 g where "advance_shared_head_epoch now q d = Inr (d1, g)" "insert_if_absent now q g d1 = Some d'"
    by (auto simp: reconcile_missing_def Let_def split: option.splits if_splits)
  then show ?thesis
  proof cases
    case 1 with keeps_refl [OF assms(1)] show ?thesis by simp
  next
    case 2 with observe_recon_keeps [OF assms(1)] show ?thesis by simp
  next
    case 3
    note t = touch_keeps [OF assms(1) 3(1)]
    have "keeps d1 d' \<and> epochs d' = epochs d1"
      by (rule insert_if_absent_keeps [OF keeps_ok [OF t(1)] _ 3(2)]) (use t(3) canon in simp_all)
    with t(1) show ?thesis by (blast intro: keeps_trans)
  next
    case 4 with advance_insert_keeps [OF assms(1) canon] show ?thesis by blast
  qed
qed

lemma enqueue_reconciliation_keeps:
  assumes "db_ok d" and canon: "canonical_repo (q_repo q)" and "enqueue_reconciliation_if_due now q recheck d = Inr (d', b)"
  shows "keeps d d'"
  using assms reconcile_existing_keeps [OF assms(1,2)] reconcile_missing_keeps [OF assms(1,2)]
  by (auto simp: enqueue_reconciliation_if_due_def split: if_splits option.splits)

section \<open>Authority changes and deliveries\<close>

lemma coalesce_keys [simp]:
  "a_id (coalesce_authority now q a) = a_id a"
  "authority_key (coalesce_authority now q a) = authority_key a"
  by (simp_all add: coalesce_authority_def authority_key_def Let_def split: option.split)

lemma enqueue_authority_frame [simp]:
  "jobs (enqueue_authority now q d) = jobs d" "epochs (enqueue_authority now q d) = epochs d"
  "next_job_id (enqueue_authority now q d) = next_job_id d"
  by (simp_all add: enqueue_authority_def Let_def split: option.split)

lemma enqueue_authority_keeps:
  assumes "db_ok d"
  shows "keeps d (enqueue_authority now q d)"
proof (cases "find (is_authority (aq_installation q) (scope_key q) []) (authorities d)")
  case None
  then have n: "authority_key (new_authority now (next_authority_id d) q) \<notin> authority_key ` set (authorities d)"
    by (auto simp: find_None new_authority_def authority_key_def is_authority_def)
  have "authorities_ok (next_authority_id d + 1) (authorities d @ [new_authority now (next_authority_id d) q])"
    by (rule authorities_ok_snoc [OF _ _ _ n]) (use assms in \<open>auto simp: db_ok_def new_authority_def\<close>)
  with assms None show ?thesis
    by (intro keeps_other) (auto simp: enqueue_authority_def db_ok_def)
next
  case (Some a)
  with assms show ?thesis
    by (simp add: enqueue_authority_def fst_update keeps_authorities_update)
qed

lemma bump_authority_epoch_frame [simp]:
  "jobs (bump_authority_epoch now i d) = jobs d" "epochs (bump_authority_epoch now i d) = epochs d"
  "next_job_id (bump_authority_epoch now i d) = next_job_id d"
  by (simp_all add: bump_authority_epoch_def Let_def split: prod.split)

lemma bump_authority_epoch_keeps:
  assumes "db_ok d"
  shows "keeps d (bump_authority_epoch now i d)"
proof -
  let ?es = "map (\<lambda>e. if ae_installation e = i
      then e\<lparr>ae_generation := ae_generation e + 1, ae_changed := now\<rparr> else e) (authority_epochs d)"
  have u: "unique_by ae_installation (authority_epochs d)" using assms by (simp add: db_ok_def)
  then have m: "unique_by ae_installation ?es" by (rule unique_by_map) auto
  have "unique_by ae_installation (?es @ [\<lparr>ae_installation = i, ae_generation = 1, ae_changed = now\<rparr>])"
    if "\<not> (\<exists>e \<in> set (authority_epochs d). ae_installation e = i)"
  proof -
    from that have "?es = authority_epochs d" by (simp add: map_idI)
    with u that show ?thesis by (auto simp: unique_by_snoc)
  qed
  with m assms show ?thesis
    by (intro keeps_other)
      (auto simp: bump_authority_epoch_def sql_update_def db_ok_def Let_def filter_empty_conv)
qed

lemma keeps_deliveries:
  assumes "db_ok d" and "unique_by d_id ds"
  shows "keeps d (d\<lparr>deliveries := ds\<rparr>)"
  by (rule keeps_other) (use assms in \<open>auto simp: db_ok_def\<close>)

definition canonical_work :: "webhook_request \<Rightarrow> bool" where
  "canonical_work w = (case w of PullWork q \<Rightarrow> canonical_repo (q_repo q) | _ \<Rightarrow> True)"

lemma first_delivery_keeps:
  assumes "db_ok d" and "find_delivery d i = None" and "first_delivery now i event w trace d = Inr (d', acc)"
    and canon: "canonical_work w"
  shows "keeps d d'"
proof -
  have u: "unique_by d_id (deliveries d @ [x])" if "d_id x = i" for x
    using assms(1,2) that by (auto simp: unique_by_snoc db_ok_def find_delivery_def find_None)
  show ?thesis
  proof (cases w)
    case (PullWork q)
    with assms(3) obtain d1 g where a: "advance_shared_head_epoch now q d = Inr (d1, g)"
      by (auto simp: first_delivery_def Let_def)
    define x where "x = (new_delivery now i event (is_pull_work w) trace)\<lparr>d_installation := Some (q_installation q),
      d_repo := Some (q_repo q), d_pull := Some (q_pull q), d_head := q_head q, d_shared := Some g\<rparr>"
    have x: "d_id x = i" by (simp add: x_def new_delivery_def)
    have d': "d' = enqueue_in_session now q (Some i) (Some g) False True (d1\<lparr>deliveries := deliveries d1 @ [x]\<rparr>)"
      using assms(3) PullWork a by (simp add: first_delivery_def Let_def x_def)
    note k = advance_keeps [OF assms(1) a]
    from k(6) have "deliveries d1 = deliveries d" by auto
    with u [OF x] have k2: "keeps d1 (d1\<lparr>deliveries := deliveries d1 @ [x]\<rparr>)"
      by (simp add: keeps_deliveries [OF keeps_ok [OF k(1)]])
    have "keeps (d1\<lparr>deliveries := deliveries d1 @ [x]\<rparr>) d' \<and> epochs d' = epochs d1"
      using enqueue_in_session_keeps [OF keeps_ok [OF k2], of q "Some g" now "Some i" False True] k(4)
        canon PullWork by (simp add: d' canonical_work_def)
    with keeps_trans [OF k2] have "keeps d1 d' \<and> epochs d' = epochs d1" by simp
    with k(1) show ?thesis by (blast intro: keeps_trans)
  next
    case (AuthorityWork q)
    let ?d1 = "d\<lparr>deliveries := deliveries d @ [new_delivery now i event (is_pull_work w) trace]\<rparr>"
    let ?d2 = "if aq_repo q = None then bump_authority_epoch now (aq_installation q) ?d1 else ?d1"
    have k1: "keeps d ?d1" by (rule keeps_deliveries [OF assms(1) u]) (simp add: new_delivery_def)
    have k2: "keeps ?d1 ?d2"
      using bump_authority_epoch_keeps keeps_refl keeps_ok [OF k1] by simp
    have e2: "epochs ?d2 = epochs ?d1" by simp
    have k3: "keeps ?d1 (enqueue_authority now q ?d2)"
      using keeps_trans [OF k2 enqueue_authority_keeps [OF keeps_ok [OF k2]]] e2 by blast
    from AuthorityWork assms(3) have "d' = enqueue_authority now q ?d2"
      by (auto simp: first_delivery_def Let_def)
    with keeps_trans [OF k1 k3] show ?thesis by simp
  next
    case NoWork
    with assms(3) keeps_deliveries [OF assms(1) u] show ?thesis
      by (auto simp: first_delivery_def new_delivery_def Let_def)
  qed
qed

lemma accept_delivery_keeps:
  assumes "db_ok d" and "accept_delivery now guard i event w trace d = Inr (d', acc)" and "canonical_work w"
  shows "keeps d d'"
  using assms keeps_refl [OF assms(1)] first_delivery_keeps [OF assms(1)]
  by (auto simp: accept_delivery_def split: if_splits option.splits)

lemma mark_delivery_keeps: "db_ok d \<Longrightarrow> keeps d (fst (mark_delivery_invalidated now i d))"
  by (auto simp: mark_delivery_invalidated_def sql_update_def Let_def db_ok_def
      intro!: keeps_deliveries unique_by_map)

section \<open>Claims of exact-head resets\<close>

lemma keeps_pressures:
  "db_ok d \<Longrightarrow> unique_by bp_installation ps \<Longrightarrow> keeps d (d\<lparr>pressures := ps\<rparr>)"
  by (rule keeps_other) (auto simp: db_ok_def)

lemma record_provider_backpressure_keeps:
  assumes "db_ok d" and "record_provider_backpressure now inst err delay d = Inr d'"
  shows "keeps d d'"
proof -
  let ?k = "case inst of None \<Rightarrow> 0 | Some i \<Rightarrow> i"
  have u: "unique_by bp_installation (pressures d)" using assms(1) by (simp add: db_ok_def)
  show ?thesis
  proof (cases "find (\<lambda>b. bp_installation b = ?k) (pressures d)")
    case None
    then have "unique_by bp_installation (pressures d @ [b])" if "bp_installation b = ?k" for b
      using u that by (auto simp: find_None unique_by_snoc)
    with None assms show ?thesis
      by (auto simp: record_provider_backpressure_def Let_def split: if_splits intro!: keeps_pressures)
  next
    case (Some x)
    have "unique_by bp_installation (map (\<lambda>b. if bp_installation b = ?k then f b else b) (pressures d))"
      if "\<And>b. bp_installation (f b) = bp_installation b" for f
      using u by (rule unique_by_map) (simp add: that)
    with Some assms show ?thesis
      by (auto simp: record_provider_backpressure_def Let_def fst_update split: if_splits
          intro!: keeps_pressures)
  qed
qed

lemma claim_head_keeps:
  assumes "db_ok d"
  shows "keeps d (fst (claim_shared_head_invalidation now worker l wc d))"
proof (cases "sql_first epoch_order (reset_due now wc d) (epochs d)")
  case None
  with keeps_refl [OF assms] show ?thesis by (simp add: claim_shared_head_invalidation_def)
next
  case (Some e)
  have "fst (claim_shared_head_invalidation now worker l wc d) =
    d\<lparr>epochs := map (\<lambda>x. if is_epoch (e_installation e) (e_repo e) (e_head e) x \<and>
                 e_generation x = e_generation e \<and> e_invalidated x < e_generation x \<and>
                 lease_free now (e_lease x)
      then x\<lparr>e_owner := Some worker, e_lease := Some (now + seconds l), e_attempts := e_attempts x + 1\<rparr>
      else x) (epochs d)\<rparr>"
    by (simp add: claim_shared_head_invalidation_def Some sql_update_def Let_def)
  then show ?thesis
    by (auto simp: epoch_key_def epoch_ok_def reset_pending_def intro!: keeps_epochs_update [OF assms])
qed

lemma update_reset_keeps:
  assumes "db_ok d" and "\<And>e. epoch_ok e \<Longrightarrow> holds_reset now c e \<Longrightarrow> epoch_key (f e) = epoch_key e \<and>
      e_generation e \<le> e_generation (f e) \<and> e_invalidated e \<le> e_invalidated (f e) \<and> epoch_ok (f e) \<and>
      (reset_pending e \<longrightarrow> reset_pending (f e))"
  shows "keeps d (fst (update_reset now c f d))"
proof -
  have "fst (update_reset now c f d) =
      d\<lparr>epochs := map (\<lambda>e. if holds_reset now c e then f e else e) (epochs d)\<rparr>"
    by (simp add: update_reset_def sql_update_def Let_def)
  with keeps_epochs_update [OF assms(1), of "holds_reset now c" f] assms(2) show ?thesis by simp
qed

lemma reset_operations_keep:
  assumes "db_ok d"
  shows "keeps d (fst (renew_shared_head_invalidation now c l d))"
    and "keeps d (fst (fail_shared_head_invalidation now c err m d))"
    and "keeps d (fst (defer_shared_head_invalidation now c err m d))"
  unfolding renew_shared_head_invalidation_def fail_shared_head_invalidation_def
    defer_shared_head_invalidation_def
  by (rule update_reset_keeps [OF assms]; simp add: epoch_key_def epoch_ok_def holds_reset_def reset_pending_def)+

lemma complete_reset_evolves:
  assumes "db_ok d"
  shows "evolves d (fst (complete_shared_head_invalidation now c d))"
proof -
  let ?f = "\<lambda>e. e\<lparr>e_invalidated := ch_generation c, e_owner := None, e_lease := None, e_error := None\<rparr>"
  let ?es = "map (\<lambda>e. if holds_reset now c e then ?f e else e) (epochs d)"
  have ok: "epochs_ok (epochs d)" using assms by (simp add: db_ok_def)
  have f: "epoch_key (?f e) = epoch_key e \<and> e_generation e \<le> e_generation (?f e) \<and>
      e_invalidated e \<le> e_invalidated (?f e) \<and> epoch_ok (?f e)"
    if "holds_reset now c e" "epoch_ok e" for e
    using that by (simp add: epoch_key_def epoch_ok_def holds_reset_def)
  have e: "epochs_ok ?es" by (rule epochs_ok_update [OF ok]) (use f in blast)
  have ev: "epochs_evolve (epochs d) ?es" by (rule epochs_evolve_update [OF ok]) (use f in blast)
  have "fenced ?es j" if "j \<in> set (jobs d)" for j
  proof (rule fenced_grow [OF ok e ev])
    show "fenced (epochs d) j" using that assms by (simp add: db_ok_def)
    fix x assume x: "x \<in> set (epochs d)"
    then have "(if holds_reset now c x then ?f x else x) \<in> set ?es" by simp
    moreover have "epoch_key (if holds_reset now c x then ?f x else x) = epoch_key x"
      by (simp add: epoch_key_def)
    ultimately show "\<exists>e' \<in> set ?es. epoch_key e' = epoch_key x" by blast
  qed
  moreover have "fst (complete_shared_head_invalidation now c d) = d\<lparr>epochs := ?es\<rparr>"
    by (simp add: complete_shared_head_invalidation_def update_reset_def sql_update_def Let_def)
  ultimately show ?thesis using e ev assms by (simp add: evolves_def db_ok_def)
qed

section \<open>Evaluation claims\<close>

lemma update_jobs_frame_keeps:
  assumes "db_ok d" and "\<And>j. c j \<Longrightarrow> job_after j (f j) \<and> j_head (f j) = j_head j \<and> j_shared (f j) = j_shared j"
  shows "keeps d (d\<lparr>jobs := map (\<lambda>j. if c j then f j else j) (jobs d)\<rparr>)"
proof (rule keeps_jobs_update [OF assms(1)])
  fix j assume j: "j \<in> set (jobs d)" "c j"
  from assms(2) [OF j(2)] have "j_installation (f j) = j_installation j" "j_repo (f j) = j_repo j"
    by (auto simp: job_after_def job_key_def)
  with assms(1) assms(2) [OF j(2)] j(1) show "job_after j (f j) \<and> fenced (epochs d) (f j)"
    by (simp add: db_ok_def fenced_def)
qed

lemma claim_keeps:
  assumes "db_ok d"
  shows "keeps d (fst (claim now worker l wc ready d))"
proof (cases "sql_first (\<lambda>j. (j_available j, j_id j)) (job_due now wc ready d) (jobs d)")
  case None
  with keeps_refl [OF assms] show ?thesis by (simp add: claim_def)
next
  case (Some x)
  have "fst (claim now worker l wc ready d) = d\<lparr>jobs := map (\<lambda>j. if j_id j = j_id x \<and> j_state j = Pending \<and>
      lease_free now (j_lease j) then lease_job worker (now + seconds l) j else j) (jobs d)\<rparr>"
    by (simp add: claim_def Some sql_update_def Let_def)
  then show ?thesis
    by (auto simp: lease_job_def job_after_def job_key_def intro!: update_jobs_frame_keeps [OF assms])
qed

lemma renew_claim_keeps: "db_ok d \<Longrightarrow> keeps d (fst (renew_claim now c l d))"
  by (auto simp: renew_claim_def sql_update_def Let_def job_after_def job_key_def
      intro!: update_jobs_frame_keeps)

lemma observe_base_keeps:
  assumes "db_ok d" and "observe_evaluation_base now c base d = Inr (d', b)"
  shows "keeps d d'"
proof -
  let ?d = "d\<lparr>jobs := map (\<lambda>j. if j_id j = c_id c \<and> j_generation j = c_generation c \<and>
      j_owner j = Some (c_owner c) \<and> (case j_lease j of None \<Rightarrow> False | Some t \<Rightarrow> now < t) \<and>
      j_state j = Pending then j\<lparr>j_base := (if ref_hint_ok base then Some base else None)\<rparr> else j) (jobs d)\<rparr>"
  have k: "keeps d ?d"
    by (auto simp: job_after_def job_key_def intro!: update_jobs_frame_keeps [OF assms(1)])
  from assms(2) have "d' = ?d \<or> (\<exists>q. d' = wake_authority_for_interactive now q ?d)"
    by (auto simp: observe_evaluation_base_def sql_update_def Let_def split: if_splits)
  with k wake_keeps [OF keeps_ok [OF k]] keeps_trans [OF k] show ?thesis by auto
qed

lemma keeps_recon: "db_ok d \<Longrightarrow> unique_by recon_key rs \<Longrightarrow> keeps d (d\<lparr>recon := rs\<rparr>)"
  by (rule keeps_other) (auto simp: db_ok_def)

lemma record_completion_keeps:
  assumes "db_ok d"
  shows "keeps d (record_completion now j d) \<and> epochs (record_completion now j d) = epochs d"
proof (cases "j_head j")
  case None with keeps_refl [OF assms] show ?thesis by (simp add: record_completion_def)
next
  case (Some h)
  let ?key = "is_recon (j_installation j) (j_repo j) (j_pull j)"
  have u: "unique_by recon_key (recon d)" using assms by (simp add: db_ok_def)
  have "unique_by recon_key (map (\<lambda>s. if ?key s then f s else s) (recon d))"
    if "\<And>s. recon_key (f s) = recon_key s" for f
    using u by (rule unique_by_map) (simp add: that)
  moreover have "unique_by recon_key (recon d @ [s])" if "find ?key (recon d) = None" "?key s" for s
    using u that by (auto simp: unique_by_snoc find_None is_recon_key)
  ultimately show ?thesis
    using Some assms by (auto simp: record_completion_def Let_def fst_update is_recon_def recon_key_def
        split: option.split intro!: keeps_recon)
qed

lemma complete_keeps:
  assumes "db_ok d"
  shows "keeps d (fst (complete now c worker d))"
proof -
  let ?d = "d\<lparr>jobs := filter (\<lambda>j. \<not> holds_job c worker j) (jobs d)\<rparr>"
  have k: "keeps d ?d" by (rule keeps_jobs_filter [OF assms])
  have "map (\<lambda>j. if holds_job c worker j then f j else j) (filter (\<lambda>j. \<not> holds_job c worker j) (jobs d)) =
      filter (\<lambda>j. \<not> holds_job c worker j) (jobs d)" for f
    by (rule map_idI) auto
  then have "fst (complete now c worker d) = ?d \<or> (\<exists>j. fst (complete now c worker d) = record_completion now j ?d)"
    by (auto simp: complete_def sql_delete_def sql_update_def Let_def split: option.split)
  then show ?thesis
    using k record_completion_keeps [OF keeps_ok [OF k]] keeps_trans [OF k] by auto
qed

end
