(* ===== verification/Queue_Reach.thy ===== *)
theory Queue_Reach
  imports Queue_Ops
begin

text \<open>
  The remaining operations, those that trust a claim among them, and the transition system
  of the queue: its state is the database with the claims workers hold, and a step is one
  public operation with arbitrary arguments at an arbitrary clock reading.
\<close>

section \<open>Outstanding claims\<close>

definition claim_ok :: "int \<Rightarrow> job list \<Rightarrow> claimed_job \<Rightarrow> bool" where
  "claim_ok n js c \<longleftrightarrow> c_id c < n \<and> canonical_repo (c_repo c) \<and> (\<forall>j \<in> set js. j_id j = c_id c \<longrightarrow>
     job_key j = (c_installation c, c_repo c, c_pull c) \<and> c_generation c \<le> j_generation j \<and>
     (j_generation j = c_generation c \<longrightarrow> c_head c \<noteq> None \<longrightarrow> j_head j = c_head c))"

lemma claim_ok_evolve:
  assumes "claim_ok n js c" and "jobs_evolve n js js'" and "n \<le> n'"
  shows "claim_ok n' js' c"
  unfolding claim_ok_def
proof (intro conjI ballI impI)
  show "c_id c < n'" "canonical_repo (c_repo c)" using assms(1,3) by (auto simp: claim_ok_def)
  fix j' assume j': "j' \<in> set js'" "j_id j' = c_id c"
  with assms(1,2) obtain j where j: "j \<in> set js" "job_after j j'"
    unfolding jobs_evolve_def claim_ok_def by fastforce
  with j' have "j_id j = c_id c" by (simp add: job_after_def)
  with assms(1) j(1) have c: "job_key j = (c_installation c, c_repo c, c_pull c)"
    "c_generation c \<le> j_generation j"
    "j_generation j = c_generation c \<Longrightarrow> c_head c \<noteq> None \<Longrightarrow> j_head j = c_head c"
    unfolding claim_ok_def by blast+
  show "job_key j' = (c_installation c, c_repo c, c_pull c)" "c_generation c \<le> j_generation j'"
    using c j(2) by (auto simp: job_after_def)
  show "j_head j' = c_head c" if "j_generation j' = c_generation c" "c_head c \<noteq> None"
  proof -
    have "j_generation j = c_generation c" using c(2) j(2) that(1) by (simp add: job_after_def)
    with c(3) that j(2) show ?thesis by (simp add: job_after_def)
  qed
qed

lemma claim_request_fields:
  assumes "claim_request c reason head base = Inr q" and "canonical_repo (c_repo c)"
  shows "q_installation q = c_installation c" and "q_repo q = c_repo c" and "q_pull q = c_pull c"
    and "q_head q = head" and "q_reason q = reason"
proof -
  have "q_installation q = c_installation c \<and> q_repo q = c_repo c \<and> q_pull q = c_pull c \<and>
      q_head q = head \<and> q_reason q = reason"
    using assms by (auto simp: claim_request_def make_job_request_def canonical_repo_def Let_def
        split: option.splits)
  then show "q_installation q = c_installation c" "q_repo q = c_repo c" "q_pull q = c_pull c"
    "q_head q = head" "q_reason q = reason" by blast+
qed

lemma claimed_view_ok:
  assumes "db_ok d" and "j \<in> set (jobs d)"
  shows "claim_ok (next_job_id d) (jobs d) (claimed_view d worker j)"
proof -
  have "x = j" if "x \<in> set (jobs d)" "j_id x = j_id j" for x
    using assms that unfolding db_ok_def jobs_ok_def by (metis unique_by_eq)
  moreover have "fenced (epochs d) j" "j_id j < next_job_id d"
    using assms by (auto simp: db_ok_def jobs_ok_def)
  ultimately show ?thesis
    by (auto simp: claim_ok_def claimed_view_def fenced_def job_key_def)
qed

lemma claim_issues_ok:
  assumes "db_ok d" and "claim now worker l wc ready d = (d', Some c)"
  shows "claim_ok (next_job_id d') (jobs d') c"
proof -
  have ok: "db_ok d'" using claim_keeps [OF assms(1), of now worker l wc ready] assms(2) keeps_ok by simp
  from assms(2) obtain i j where "find_job d' i = Some j" "c = claimed_view d' worker j"
    by (auto simp: claim_def Let_def split: option.splits prod.splits if_splits)
  with claimed_view_ok [OF ok] show ?thesis by (auto simp: find_job_def dest: find_SomeD)
qed

lemma bind_claim_keeps:
  assumes "db_ok d" and c: "claim_ok (next_job_id d) (jobs d) c"
    and "bind_claim_to_head now c head d = Inr (d', co)"
  shows "keeps d d'" and "\<And>c'. co = Some c' \<Longrightarrow> claim_ok (next_job_id d') (jobs d') c'"
proof -
  have "keeps d d' \<and> (\<forall>c'. co = Some c' \<longrightarrow> claim_ok (next_job_id d') (jobs d') c')"
  proof (cases "c_head c")
    case (Some h)
    with assms(3) have "d' = d" "co = None \<or> co = Some c"
      by (auto simp: bind_claim_to_head_def split: if_splits)
    with c keeps_refl [OF assms(1)] show ?thesis by auto
  next
    case None
    let ?c = "\<lambda>j. j_id j = c_id c \<and> j_generation j = c_generation c \<and>
      j_owner j = Some (c_owner c) \<and> j_state j = Pending \<and> j_head j = None"
    from assms(3) None obtain h q d1 g where q: "claim_request c (c_reason c) (Some h) None = Inr q"
      and a: "advance_shared_head_epoch now q d = Inr (d1, g)"
      and r: "(d' = d \<and> co = None) \<or>
        (d' = d1\<lparr>jobs := map (\<lambda>j. if ?c j then j\<lparr>j_head := Some h, j_shared := g\<rparr> else j) (jobs d1)\<rparr> \<and>
         co = Some (c\<lparr>c_head := Some h, c_shared := g\<rparr>) \<and> length (filter ?c (jobs d1)) = 1)"
      by (auto simp: bind_claim_to_head_def sql_update_def Let_def split: if_splits)
    note qf = claim_request_fields [OF q]
    note k = advance_keeps [OF assms(1) a]
    have canon: "canonical_repo (c_repo c)" using c by (simp add: claim_ok_def)
    from r show ?thesis
    proof
      assume "d' = d \<and> co = None" with keeps_refl [OF assms(1)] show ?thesis by simp
    next
      assume r: "d' = d1\<lparr>jobs := map (\<lambda>j. if ?c j then j\<lparr>j_head := Some h, j_shared := g\<rparr> else j) (jobs d1)\<rparr> \<and>
         co = Some (c\<lparr>c_head := Some h, c_shared := g\<rparr>) \<and> length (filter ?c (jobs d1)) = 1"
      have key: "job_key j = (c_installation c, c_repo c, c_pull c)" if "j \<in> set (jobs d1)" "?c j" for j
        using c that k(2) by (auto simp: claim_ok_def)
      have k2: "keeps d1 d'"
        unfolding conjunct1 [OF r]
      proof (rule keeps_jobs_update [OF keeps_ok [OF k(1)]])
        fix j assume j: "j \<in> set (jobs d1)" "?c j"
        with key [OF j] k(4) qf [OF canon] canon
        show "job_after j (j\<lparr>j_head := Some h, j_shared := g\<rparr>) \<and> fenced (epochs d1) (j\<lparr>j_head := Some h, j_shared := g\<rparr>)"
          by (simp add: job_after_def fenced_def job_key_def)
      qed
      have e: "epochs d' = epochs d1" using r by simp
      have k3: "keeps d d'" using keeps_trans [OF k(1) k2] e by blast
      have c': "claim_ok (next_job_id d') (jobs d') c"
        using claim_ok_evolve [OF c, of "jobs d'" "next_job_id d'"] k3 by (simp add: keeps_def evolves_def)
      from r have "filter ?c (jobs d1) \<noteq> []" by auto
      then obtain x where x: "x \<in> set (jobs d1)" "?c x" by (auto simp: filter_empty_conv)
      have u: "unique_by j_id (jobs d1)" using keeps_ok [OF k(1)] by (simp add: db_ok_def jobs_ok_def)
      have "j_head j = Some h" if "j \<in> set (jobs d')" "j_id j = c_id c" for j
      proof -
        from that(1) r obtain y where y: "y \<in> set (jobs d1)"
          "j = (if ?c y then y\<lparr>j_head := Some h, j_shared := g\<rparr> else y)" by auto
        with that(2) x have "y = x" using unique_by_eq [OF u] by (auto split: if_splits)
        with y x show ?thesis by simp
      qed
      with c' have "claim_ok (next_job_id d') (jobs d') (c\<lparr>c_head := Some h, c_shared := g\<rparr>)"
        by (simp add: claim_ok_def)
      with k3 r show ?thesis by auto
    qed
  qed
  then show "keeps d d'" "\<And>c'. co = Some c' \<Longrightarrow> claim_ok (next_job_id d') (jobs d') c'" by blast+
qed

section \<open>Releasing a claim\<close>

lemma revocation_fields:
  assumes "scheduled_recheck_revocation c = Inr (Some q)" and "canonical_repo (c_repo c)"
  shows "c_reason c = SCHEDULED_RECHECK_REASON" and "c_head c \<noteq> None" and "q_head q = c_head c"
    and "q_installation q = c_installation c" and "q_repo q = c_repo c" and "q_pull q = c_pull c"
    and "q_reason q = PERIODIC_RECONCILIATION_REASON"
proof -
  from assms(1) have r: "c_reason c = SCHEDULED_RECHECK_REASON" "c_head c \<noteq> None"
    "claim_request c PERIODIC_RECONCILIATION_REASON (c_head c) (c_base c) = Inr q"
    by (auto simp: scheduled_recheck_revocation_def split: if_splits)
  from r(1,2) claim_request_fields [OF r(3) assms(2)]
  show "c_reason c = SCHEDULED_RECHECK_REASON" "c_head c \<noteq> None" "q_head q = c_head c"
    "q_installation q = c_installation c" "q_repo q = c_repo c" "q_pull q = c_pull c"
    "q_reason q = PERIODIC_RECONCILIATION_REASON" by simp_all
qed

text \<open>What \<open>release_claim\<close> writes: nothing when the claim is lost, the released row otherwise,
  and with a revocation also the advanced fence and the row bound to it.\<close>

lemma release_cases:
  assumes "db_ok d" and "release_claim now c worker revocation f d = Inr (d', b)"
  obtains "\<not> b" "d' = d" "\<not> (\<exists>j \<in> set (jobs d). holds_job c worker j)"
  | "b" "revocation = None" "\<exists>j \<in> set (jobs d). holds_job c worker j"
    "d' = d\<lparr>jobs := map (\<lambda>j. if holds_job c worker j then f j else j) (jobs d)\<rparr>"
  | q d1 g where "b" "revocation = Some q" "\<exists>j \<in> set (jobs d). holds_job c worker j"
    "advance_shared_head_epoch now q
       (d\<lparr>jobs := map (\<lambda>j. if holds_job c worker j then f j else j) (jobs d)\<rparr>) = Inr (d1, g)"
    "d' = d1\<lparr>jobs := map (\<lambda>j. if j_id j = c_id c \<and> j_generation j = c_generation c
       then j\<lparr>j_reason := q_reason q, j_shared := g\<rparr> else j) (jobs d1)\<rparr>"
proof -
  let ?js = "map (\<lambda>j. if holds_job c worker j then f j else j) (jobs d)"
  let ?h = "\<exists>j \<in> set (jobs d). holds_job c worker j"
  have u: "unique_by j_id (jobs d)" using assms(1) by (simp add: db_ok_def jobs_ok_def)
  have n: "length (filter (holds_job c worker) (jobs d)) = 1 \<longleftrightarrow> ?h"
    by (rule filter_key_eq_1 [OF u]) (simp add: holds_job_def)
  have idle: "?js = jobs d" "map (\<lambda>j. if holds_job c worker j then j\<lparr>j_owner := None, j_lease := None\<rparr> else j) ?js = jobs d"
    if "\<not> ?h"
  proof -
    show "?js = jobs d" using that by (simp add: map_idI)
    then show "map (\<lambda>j. if holds_job c worker j then j\<lparr>j_owner := None, j_lease := None\<rparr> else j) ?js = jobs d"
      using that by (simp add: map_idI)
  qed
  from assms(2) n consider "\<not> ?h" "\<not> b"
      "d' = d\<lparr>jobs := map (\<lambda>j. if holds_job c worker j then j\<lparr>j_owner := None, j_lease := None\<rparr> else j) ?js\<rparr>"
    | "?h" "b" "revocation = None" "d' = d\<lparr>jobs := ?js\<rparr>"
    | q d1 g where "?h" "b" "revocation = Some q"
      "advance_shared_head_epoch now q (d\<lparr>jobs := ?js\<rparr>) = Inr (d1, g)"
      "d' = d1\<lparr>jobs := map (\<lambda>j. if j_id j = c_id c \<and> j_generation j = c_generation c
         then j\<lparr>j_reason := q_reason q, j_shared := g\<rparr> else j) (jobs d1)\<rparr>"
    by (auto simp: release_claim_def sql_update_def Let_def split: if_splits option.splits)
  then show thesis
  proof cases
    case 1 with idle that(1) show thesis by simp
  next
    case 2 with that(2) show thesis by blast
  next
    case 3 with that(3) show thesis by blast
  qed
qed

lemma release_claim_keeps:
  assumes "db_ok d" and c: "claim_ok (next_job_id d) (jobs d) c"
    and r: "release_claim now c worker revocation f d = Inr (d', b)"
    and f: "\<And>j. job_after j (f j) \<and> j_head (f j) = j_head j \<and> j_shared (f j) = j_shared j"
    and q: "\<And>q. revocation = Some q \<Longrightarrow> scheduled_recheck_revocation c = Inr (Some q)"
  shows "keeps d d'"
  using assms(1) r
proof (cases rule: release_cases)
  case 1 with keeps_refl [OF assms(1)] show ?thesis by simp
next
  case 2 with update_jobs_frame_keeps [OF assms(1) f] show ?thesis by simp
next
  case (3 q d1 g)
  let ?d = "d\<lparr>jobs := map (\<lambda>j. if holds_job c worker j then f j else j) (jobs d)\<rparr>"
  have k0: "keeps d ?d" by (rule update_jobs_frame_keeps [OF assms(1) f])
  note k1 = advance_keeps [OF keeps_ok [OF k0] 3(4)]
  have "keeps ?d d1" by (rule k1)
  then have kd1: "keeps d d1" using keeps_trans [OF k0 k1(1)] by simp
  have canon: "canonical_repo (c_repo c)" using c by (simp add: claim_ok_def)
  note qf = revocation_fields [OF q [OF 3(2)] canon]
  have c1: "claim_ok (next_job_id d1) (jobs d1) c"
    using claim_ok_evolve [OF c] kd1 by (simp add: keeps_def evolves_def)
  have "keeps d1 d'" unfolding 3(5)
  proof (rule keeps_jobs_update [OF keeps_ok [OF kd1]])
    fix j assume "j \<in> set (jobs d1)" "j_id j = c_id c \<and> j_generation j = c_generation c"
    with c1 qf have "job_key j = (c_installation c, c_repo c, c_pull c)" "j_head j = c_head c"
      by (auto simp: claim_ok_def)
    with k1(4) qf canon show "job_after j (j\<lparr>j_reason := q_reason q, j_shared := g\<rparr>) \<and>
        fenced (epochs d1) (j\<lparr>j_reason := q_reason q, j_shared := g\<rparr>)"
      by (simp add: job_after_def job_key_def fenced_def)
  qed
  moreover have "epochs d' = epochs d1" by (simp add: 3(5))
  ultimately show ?thesis using kd1 keeps_trans by blast
qed

lemma release_values_after:
  "job_after j (fail_values now delay err j) \<and> j_head (fail_values now delay err j) = j_head j \<and>
     j_shared (fail_values now delay err j) = j_shared j"
  "job_after j (defer_values now delay err j) \<and> j_head (defer_values now delay err j) = j_head j \<and>
     j_shared (defer_values now delay err j) = j_shared j"
  by (simp_all add: fail_values_def defer_values_def job_after_def job_key_def)

lemma fail_job_keeps:
  assumes "db_ok d" and "claim_ok (next_job_id d) (jobs d) c" and "fail_job now c worker err m d = Inr d'"
  shows "keeps d d'"
proof -
  from assms(3) obtain rev b where rev: "scheduled_recheck_revocation c = Inr rev"
    and r: "release_claim now c worker rev (fail_values now (backoff (c_attempts c) m) err) d = Inr (d', b)"
    by (auto simp: fail_job_def)
  show ?thesis
    by (rule release_claim_keeps [OF assms(1,2) r]) (use rev release_values_after(1) in auto)
qed

lemma defer_job_keeps:
  assumes "db_ok d" and "claim_ok (next_job_id d) (jobs d) c"
    and "defer_job now c worker err delay limit d = Inr (d', b)"
  shows "keeps d d'"
proof -
  from assms(3) obtain rev where rev: "rev = None \<or> scheduled_recheck_revocation c = Inr rev"
    and r: "release_claim now c worker rev (defer_values now (clamp_delay delay) err) d = Inr (d', b)"
    by (auto simp: defer_job_def split: option.splits if_splits)
  show ?thesis
    by (rule release_claim_keeps [OF assms(1,2) r]) (use rev release_values_after(2) in auto)
qed

section \<open>Authority work\<close>

lemma update_authorities_keeps:
  assumes "db_ok d" and "\<And>a. a_id (f a) = a_id a \<and> authority_key (f a) = authority_key a"
  shows "keeps d (fst (update_authorities c f d))"
  unfolding update_authorities_def sql_update_def Let_def prod.case fst_conv
  by (rule keeps_authorities_update [OF assms(1)]) (use assms(2) in blast)

lemma claim_authority_keeps:
  assumes "db_ok d"
  shows "keeps d (fst (claim_authority now worker l prio d))"
  using keeps_refl [OF assms]
  by (auto simp: claim_authority_def sql_update_def Let_def lease_authority_def authority_key_def
      split: option.split intro!: keeps_authorities_update [OF assms])

lemma release_authority_keeps:
  assumes "db_ok d" and "\<And>a. a_id (f a) = a_id a \<and> authority_key (f a) = authority_key a"
  shows "keeps d (fst (release_authority c f d))"
proof -
  note k = update_authorities_keeps [OF assms, of c]
  have k2: "keeps d1 (fst (update_authorities c (\<lambda>a. a\<lparr>a_owner := None, a_lease := None\<rparr>) d1))"
    if "db_ok d1" for d1
    by (rule update_authorities_keeps [OF that]) (simp add: authority_key_def)
  have e: "epochs (fst (update_authorities c g d1)) = epochs d1" for g d1
    by (simp add: update_authorities_def Let_def sql_update_def)
  show ?thesis
    using k keeps_trans [OF k k2 [OF keeps_ok [OF k]]] e
    by (auto simp: release_authority_def split: prod.split)
qed

lemma authority_operations_keep:
  assumes "db_ok d"
  shows "keeps d (fst (renew_authority_claim now c l d))"
    and "keeps d (fst (advance_authority_cursor now c n h p ln d))"
    and "keeps d (fst (advance_authority_membership_page now c mp e d))"
    and "keeps d (fail_authority now c worker err mx mn d)"
    and "keeps d (fst (defer_authority now c worker err delay pres d))"
  unfolding renew_authority_claim_def advance_authority_cursor_def advance_authority_membership_page_def
    fail_authority_def defer_authority_def Let_def
  by (rule update_authorities_keeps [OF assms] release_authority_keeps [OF assms];
      simp add: authority_key_def)+

lemma fold_enqueue_authority_keeps:
  "db_ok d \<Longrightarrow> keeps d (fold (enqueue_authority now) qs d) \<and>
     epochs (fold (enqueue_authority now) qs d) = epochs d"
proof (induction qs arbitrary: d)
  case Nil then show ?case by (simp add: keeps_refl)
next
  case (Cons q qs)
  note k = enqueue_authority_keeps [OF Cons.prems, of now q]
  from Cons.IH [OF keeps_ok [OF k]] keeps_trans [OF k] show ?case by simp
qed

lemma advance_installation_page_keeps:
  assumes "db_ok d" and "advance_installation_authority_page now c qs p e d = Inr (d', b)"
  shows "keeps d d'"
proof -
  let ?d = "fold (enqueue_authority now) qs d"
  note k = fold_enqueue_authority_keeps [OF assms(1), of now qs]
  have "keeps ?d (?d\<lparr>authorities := fst (sql_update (\<lambda>a. a_id a = ca_id c)
      (\<lambda>a. a\<lparr>a_page := p, a_expected := e\<rparr>) (authorities ?d))\<rparr>)"
    unfolding fst_update
    by (rule keeps_authorities_update [OF keeps_ok [OF conjunct1 [OF k]]]) (simp add: authority_key_def)
  from keeps_trans [OF conjunct1 [OF k] this] k keeps_refl [OF assms(1)] assms(2) show ?thesis
    by (auto simp: advance_installation_authority_page_def Let_def split: if_splits)
qed

lemma complete_authority_keeps:
  assumes "db_ok d"
  shows "keeps d (fst (complete_authority now c worker d))"
proof -
  have b: "a_base a = []" if "a \<in> set (authorities d)" for a
    using assms that by (auto simp: db_ok_def authorities_ok_def)
  have "keeps d (d\<lparr>authorities := map (\<lambda>x. if a_id x = i then next_batch now x else x) (authorities d)\<rparr>)" for i
    by (rule keeps_authorities_update [OF assms]) (simp add: next_batch_def authority_key_def b Let_def)
  with keeps_refl [OF assms] keeps_authorities_filter [OF assms] show ?thesis
    by (auto simp: complete_authority_def fst_update split: option.split)
qed

section \<open>Administration\<close>

lemma keeps_leases: "db_ok d \<Longrightarrow> unique_by sl_name ls \<Longrightarrow> keeps d (d\<lparr>leases := ls\<rparr>)"
  by (rule keeps_other) (auto simp: db_ok_def)

lemma acquire_service_lease_keeps:
  assumes "db_ok d"
  shows "keeps d (fst (acquire_service_lease now name worker l d))"
proof -
  let ?ls = "map (\<lambda>x. if sl_name x = name \<and> (sl_owner x = worker \<or> sl_until x \<le> now)
      then x\<lparr>sl_owner := worker, sl_until := now + seconds l\<rparr> else x) (leases d)"
  have u: "unique_by sl_name ?ls"
    using assms by (intro unique_by_map) (auto simp: db_ok_def)
  have "unique_by sl_name (ls @ [x])" if "unique_by sl_name ls" "\<not> list_ex (\<lambda>y. sl_name y = sl_name x) ls"
    for ls and x :: service_lease
    using that by (auto simp: unique_by_snoc list_ex_iff)
  from this [OF u, of "\<lparr>sl_name = name, sl_owner = worker, sl_until = now + seconds l\<rparr>"]
  have "\<not> list_ex (\<lambda>x. sl_name x = name) ?ls \<Longrightarrow>
      unique_by sl_name (?ls @ [\<lparr>sl_name = name, sl_owner = worker, sl_until = now + seconds l\<rparr>])"
    by simp
  with u keeps_leases [OF assms] show ?thesis
    by (simp add: acquire_service_lease_def sql_update_def Let_def)
qed

lemma release_service_lease_keeps: "db_ok d \<Longrightarrow> keeps d (fst (release_service_lease name worker d))"
  by (auto simp: release_service_lease_def sql_delete_def Let_def db_ok_def
      intro!: keeps_leases unique_by_filter)

lemma requeue_dead_keeps:
  assumes "db_ok d"
  shows "keeps d (fst (requeue_dead now limit d))"
proof -
  define ai where "ai = map a_id (sql_ids (\<lambda>a. (a_requested a, a_id a)) (\<lambda>a. a_state a = Dead) (nat limit) (authorities d))"
  let ?fa = "\<lambda>a. a\<lparr>a_state := Pending, a_attempts := 0, a_available := now, a_error := None,
                   a_owner := None, a_lease := None\<rparr>"
  let ?d1 = "d\<lparr>authorities := map (\<lambda>a. if a_id a \<in> set ai then ?fa a else a) (authorities d)\<rparr>"
  define ji where "ji = map j_id (sql_ids (\<lambda>j. (j_requested j, j_id j)) (\<lambda>j. j_state j = Dead)
      (nat (max 0 (limit - int (length (filter (\<lambda>a. a_id a \<in> set ai) (authorities d)))))) (jobs d))"
  let ?d2 = "?d1\<lparr>jobs := map (\<lambda>j. if j_id j \<in> set ji then j\<lparr>j_state := Pending, j_attempts := 0,
      j_available := now, j_error := None, j_owner := None, j_lease := None\<rparr> else j) (jobs ?d1)\<rparr>"
  have k1: "keeps d ?d1" by (rule keeps_authorities_update [OF assms]) (simp add: authority_key_def)
  have k2: "keeps ?d1 ?d2"
    by (rule update_jobs_frame_keeps [OF keeps_ok [OF k1]]) (simp add: job_after_def job_key_def)
  have "fst (requeue_dead now limit d) = ?d2"
    by (simp add: requeue_dead_def sql_update_def Let_def ai_def ji_def)
  with keeps_trans [OF k1 k2] show ?thesis by simp
qed

lemma prune_deliveries_keeps: "db_ok d \<Longrightarrow> keeps d (fst (prune_deliveries t d))"
  by (auto simp: prune_deliveries_def sql_delete_def Let_def db_ok_def
      intro!: keeps_deliveries unique_by_filter)

lemma prune_reconciliation_keeps: "db_ok d \<Longrightarrow> keeps d (fst (prune_reconciliation_states t d))"
  by (auto simp: prune_reconciliation_states_def sql_delete_def Let_def db_ok_def
      intro!: keeps_recon unique_by_filter)

text \<open>Pruning keeps every fence a row refers to, so no row can outrun its fence.\<close>

lemma prune_shared_head_epochs_keeps:
  assumes "db_ok d"
  shows "keeps d (fst (prune_shared_head_epochs t d))"
proof -
  let ?es = "filter (\<lambda>e. \<not> prunable_epoch t d e) (epochs d)"
  have ok: "epochs_ok (epochs d)" using assms by (simp add: db_ok_def)
  have e: "epochs_ok ?es" using ok by (rule epochs_ok_filter)
  have ev: "epochs_evolve (epochs d) ?es" using ok by (rule epochs_evolve_filter)
  have "fenced ?es j" if j: "j \<in> set (jobs d)" for j
  proof (rule fenced_grow [OF ok e ev])
    show "fenced (epochs d) j" using assms j by (simp add: db_ok_def)
    fix x assume "x \<in> set (epochs d)" "references_epoch x j"
    with j have "x \<in> set ?es" by (auto simp: prunable_epoch_def list_ex_iff)
    then show "\<exists>e' \<in> set ?es. epoch_key e' = epoch_key x" by blast
  qed
  moreover have "resets_kept (epochs d) ?es"
    by (rule resets_kept_filter) (simp add: prunable_epoch_def reset_pending_def)
  ultimately show ?thesis using e ev assms
    by (simp add: keeps_def evolves_def db_ok_def prune_shared_head_epochs_def sql_delete_def Let_def)
qed

lemma record_audit_keeps: "db_ok d \<Longrightarrow> keeps d (record_audit now r p h v det d)"
  by (rule keeps_other) (auto simp: record_audit_def db_ok_def Let_def split: option.split)

section \<open>The transition system\<close>

text \<open>The database and the evaluation claims that were handed to workers.\<close>

record sys =
  store :: db
  issued :: "claimed_job list"

text \<open>One public operation. A job request is one its constructor accepts, an evaluation claim
  one that was issued; claims of authority and exact-head work are arbitrary values.\<close>

inductive qstep :: "sys \<Rightarrow> sys \<Rightarrow> bool" where
  step_enqueue: "enqueue now q (store s) = Inr d \<Longrightarrow> canonical_repo (q_repo q) \<Longrightarrow> qstep s (s\<lparr>store := d\<rparr>)"
| step_enqueue_generation: "enqueue_for_shared_head_generation now q g (store s) = Inr (d, b) \<Longrightarrow>
    canonical_repo (q_repo q) \<Longrightarrow> qstep s (s\<lparr>store := d\<rparr>)"
| step_enqueue_absent: "enqueue_if_absent now q (store s) = Inr (d, b) \<Longrightarrow> canonical_repo (q_repo q) \<Longrightarrow>
    qstep s (s\<lparr>store := d\<rparr>)"
| step_reconcile: "enqueue_reconciliation_if_due now q r (store s) = Inr (d, b) \<Longrightarrow>
    canonical_repo (q_repo q) \<Longrightarrow> qstep s (s\<lparr>store := d\<rparr>)"
| step_accept: "accept_delivery now guard i event w trace (store s) = Inr (d, acc) \<Longrightarrow> canonical_work w \<Longrightarrow>
    qstep s (s\<lparr>store := d\<rparr>)"
| step_authority: "qstep s (s\<lparr>store := enqueue_authority now aq (store s)\<rparr>)"
| step_mark: "qstep s (s\<lparr>store := fst (mark_delivery_invalidated now i (store s))\<rparr>)"
| step_bind: "c \<in> set (issued s) \<Longrightarrow> bind_claim_to_head now c head (store s) = Inr (d, co) \<Longrightarrow>
    qstep s (s\<lparr>store := d, issued := (case co of None \<Rightarrow> issued s | Some c' \<Rightarrow> c' # issued s)\<rparr>)"
| step_renew: "qstep s (s\<lparr>store := fst (renew_claim now c l (store s))\<rparr>)"
| step_backpressure: "record_provider_backpressure now inst err delay (store s) = Inr d \<Longrightarrow>
    qstep s (s\<lparr>store := d\<rparr>)"
| step_claim_head: "qstep s (s\<lparr>store := fst (claim_shared_head_invalidation now worker l wc (store s))\<rparr>)"
| step_renew_head: "qstep s (s\<lparr>store := fst (renew_shared_head_invalidation now ch l (store s))\<rparr>)"
| step_complete_head: "qstep s (s\<lparr>store := fst (complete_shared_head_invalidation now ch (store s))\<rparr>)"
| step_fail_head: "qstep s (s\<lparr>store := fst (fail_shared_head_invalidation now ch err m (store s))\<rparr>)"
| step_defer_head: "qstep s (s\<lparr>store := fst (defer_shared_head_invalidation now ch err m (store s))\<rparr>)"
| step_claim: "claim now worker l wc ready (store s) = (d, co) \<Longrightarrow>
    qstep s (s\<lparr>store := d, issued := (case co of None \<Rightarrow> issued s | Some c \<Rightarrow> c # issued s)\<rparr>)"
| step_observe_base: "observe_evaluation_base now c base (store s) = Inr (d, b) \<Longrightarrow> qstep s (s\<lparr>store := d\<rparr>)"
| step_complete: "qstep s (s\<lparr>store := fst (complete now c worker (store s))\<rparr>)"
| step_fail: "c \<in> set (issued s) \<Longrightarrow> fail_job now c worker err m (store s) = Inr d \<Longrightarrow> qstep s (s\<lparr>store := d\<rparr>)"
| step_defer: "c \<in> set (issued s) \<Longrightarrow> defer_job now c worker err delay limit (store s) = Inr (d, b) \<Longrightarrow>
    qstep s (s\<lparr>store := d\<rparr>)"
| step_claim_authority: "qstep s (s\<lparr>store := fst (claim_authority now worker l prio (store s))\<rparr>)"
| step_renew_authority: "qstep s (s\<lparr>store := fst (renew_authority_claim now ca l (store s))\<rparr>)"
| step_cursor: "qstep s (s\<lparr>store := fst (advance_authority_cursor now ca n h p ln (store s))\<rparr>)"
| step_page: "advance_installation_authority_page now ca qs pg ex (store s) = Inr (d, b) \<Longrightarrow>
    qstep s (s\<lparr>store := d\<rparr>)"
| step_member: "qstep s (s\<lparr>store := fst (advance_authority_membership_page now ca pg ex (store s))\<rparr>)"
| step_complete_authority: "qstep s (s\<lparr>store := fst (complete_authority now ca worker (store s))\<rparr>)"
| step_fail_authority: "qstep s (s\<lparr>store := fail_authority now ca worker err mx mn (store s)\<rparr>)"
| step_defer_authority: "qstep s (s\<lparr>store := fst (defer_authority now ca worker err delay pres (store s))\<rparr>)"
| step_lease: "qstep s (s\<lparr>store := fst (acquire_service_lease now name worker l (store s))\<rparr>)"
| step_release_lease: "qstep s (s\<lparr>store := fst (release_service_lease name worker (store s))\<rparr>)"
| step_requeue: "qstep s (s\<lparr>store := fst (requeue_dead now lim (store s))\<rparr>)"
| step_prune_deliveries: "qstep s (s\<lparr>store := fst (prune_deliveries t (store s))\<rparr>)"
| step_prune_epochs: "qstep s (s\<lparr>store := fst (prune_shared_head_epochs t (store s))\<rparr>)"
| step_prune_recon: "qstep s (s\<lparr>store := fst (prune_reconciliation_states t (store s))\<rparr>)"
| step_audit: "qstep s (s\<lparr>store := record_audit now repo pull head verdict det (store s)\<rparr>)"

inductive reachable :: "sys \<Rightarrow> bool" where
  reachable_start: "reachable \<lparr>store = empty_db, issued = []\<rparr>"
| reachable_step: "reachable s \<Longrightarrow> qstep s s' \<Longrightarrow> reachable s'"

inductive_cases qstepE: "qstep s s'"

definition sys_ok :: "sys \<Rightarrow> bool" where
  "sys_ok s \<longleftrightarrow> db_ok (store s) \<and>
     (\<forall>c \<in> set (issued s). claim_ok (next_job_id (store s)) (jobs (store s)) c)"

lemmas operation_keeps = enqueue_keeps enqueue_for_generation_keeps enqueue_if_absent_keeps
  enqueue_reconciliation_keeps accept_delivery_keeps enqueue_authority_keeps mark_delivery_keeps
  renew_claim_keeps record_provider_backpressure_keeps claim_head_keeps reset_operations_keep
  observe_base_keeps complete_keeps claim_authority_keeps authority_operations_keep
  advance_installation_page_keeps complete_authority_keeps acquire_service_lease_keeps
  release_service_lease_keeps requeue_dead_keeps prune_deliveries_keeps
  prune_shared_head_epochs_keeps prune_reconciliation_keeps record_audit_keeps

text \<open>Every step evolves the database, and only the completion of an exact-head reset may end a
  pending reset.\<close>

definition completes_reset :: "sys \<Rightarrow> sys \<Rightarrow> bool" where
  "completes_reset s s' \<longleftrightarrow>
     (\<exists>now ch. s' = s\<lparr>store := fst (complete_shared_head_invalidation now ch (store s))\<rparr>)"

lemma qstep_evolves:
  assumes "sys_ok s" and "qstep s s'"
  shows "evolves (store s) (store s') \<and>
    (keeps (store s) (store s') \<or> completes_reset s s') \<and>
    (\<forall>c \<in> set (issued s'). c \<in> set (issued s) \<or> claim_ok (next_job_id (store s')) (jobs (store s')) c)"
proof -
  have ok: "db_ok (store s)" using assms(1) by (simp add: sys_ok_def)
  have co: "\<And>c. c \<in> set (issued s) \<Longrightarrow> claim_ok (next_job_id (store s)) (jobs (store s)) c"
    using assms(1) by (simp add: sys_ok_def)
  note ops = operation_keeps [OF ok] operation_keeps [OF ok, THEN keeps_evolves]
  from assms(2) show ?thesis
  proof (cases rule: qstep.cases)
    case (step_bind c now head d c')
    note k = bind_claim_keeps [OF ok co [OF step_bind(2)] step_bind(3)]
    show ?thesis unfolding step_bind(1) using k keeps_evolves [OF k(1)] by (auto split: option.splits)
  next
    case (step_claim now worker l wc ready d c')
    have k: "keeps (store s) d" using claim_keeps [OF ok, of now worker l wc ready] step_claim(2) by simp
    moreover have "\<And>c. c' = Some c \<Longrightarrow> claim_ok (next_job_id d) (jobs d) c"
      using claim_issues_ok [OF ok] step_claim(2) by blast
    ultimately show ?thesis unfolding step_claim(1) using keeps_evolves [OF k] by (auto split: option.splits)
  next
    case (step_fail c now worker err m d)
    with fail_job_keeps [OF ok co] keeps_evolves show ?thesis by simp
  next
    case (step_defer c now worker err delay limit d b)
    with defer_job_keeps [OF ok co] keeps_evolves show ?thesis by simp
  next
    case (step_complete_head now ch)
    with complete_reset_evolves [OF ok] show ?thesis by (auto simp: completes_reset_def)
  qed (simp_all add: ops)
qed

lemma sys_ok_step:
  assumes "sys_ok s" and "qstep s s'"
  shows "sys_ok s'"
proof -
  note k = qstep_evolves [OF assms]
  have e: "jobs_evolve (next_job_id (store s)) (jobs (store s)) (jobs (store s'))"
    and n: "next_job_id (store s) \<le> next_job_id (store s')" using k by (auto simp: evolves_def)
  have "claim_ok (next_job_id (store s')) (jobs (store s')) c" if "c \<in> set (issued s)" for c
    using claim_ok_evolve [OF _ e n] assms(1) that by (simp add: sys_ok_def)
  with k show ?thesis unfolding sys_ok_def evolves_def by blast
qed

lemma reachable_ok: "reachable s \<Longrightarrow> sys_ok s"
proof (induction rule: reachable.induct)
  case reachable_start
  show ?case by (simp add: sys_ok_def db_ok_empty)
next
  case (reachable_step s s')
  from sys_ok_step [OF reachable_step.IH reachable_step.hyps(2)] show ?case .
qed

end
