(* ===== verification/Queue_Facts.thy ===== *)
theory Queue_Facts
  imports Queue_Reach
begin

text \<open>
  What the evaluation queue promises: the invariant of every reachable state, monotone
  generations, the order in which rows are leased, and the fencing of a worker by a newer
  trigger, by the completion of its claim and by the reclaim of its lease.
\<close>

section \<open>Sample states\<close>

text \<open>Concrete values for the witnesses: one pull request, enqueued and leased.\<close>

definition sample_head :: string where
  "sample_head = ''aaaaaaaaaaaaaaaaaaaaaaaaaaaaaaaaaaaaaaaa''"

definition sample_request :: job_request where
  "sample_request = \<lparr>q_installation = 5, q_repo = ''o/r'', q_pull = 7, q_reason = ''push'',
     q_head = Some sample_head, q_class = Interactive, q_observed = None, q_base = None\<rparr>"

definition sample_db :: db where
  "sample_db = projr (enqueue 100 sample_request empty_db)"

definition sample_leased :: "db \<times> claimed_job option" where
  "sample_leased = claim 200 ''w'' 60 None False sample_db"

definition sample_sys :: sys where
  "sample_sys = \<lparr>store = fst sample_leased, issued = [the (snd sample_leased)]\<rparr>"

lemma sample_canonical: "canonical_repo (q_repo sample_request)"
  by code_simp

lemma sample_enqueue: "enqueue 100 sample_request empty_db = Inr sample_db"
proof -
  have "\<not> isl (enqueue 100 sample_request empty_db)" by code_simp
  then show ?thesis by (simp add: sample_db_def)
qed

lemma sample_claim: "claim 200 ''w'' 60 None False sample_db = (fst sample_leased, Some (the (snd sample_leased)))"
proof -
  have "snd sample_leased \<noteq> None" by code_simp
  then show ?thesis by (simp add: sample_leased_def prod_eq_iff)
qed

lemma sample_reachable: "reachable sample_sys"
proof -
  have "qstep \<lparr>store = empty_db, issued = []\<rparr> \<lparr>store = sample_db, issued = []\<rparr>"
    using step_enqueue [of 100 sample_request "\<lparr>store = empty_db, issued = []\<rparr>" sample_db]
      sample_enqueue sample_canonical by simp
  then have r: "reachable \<lparr>store = sample_db, issued = []\<rparr>"
    using reachable_start reachable_step by blast
  have "qstep \<lparr>store = sample_db, issued = []\<rparr> sample_sys"
    using step_claim [of 200 "''w''" 60 None False "\<lparr>store = sample_db, issued = []\<rparr>"] sample_claim
    by (fastforce simp: sample_sys_def)
  with r show ?thesis by (rule reachable_step)
qed

section \<open>Invariant and evolution\<close>

text \<open>C22. In every reachable state of the queue the keys of every table are unique, row ids are
  below the next id, every fence satisfies its check constraints, every row has a canonical
  repository and is bound to no generation its exact-head fence has not reached, and every
  claim handed to a worker still names its own pull request, at most the row's generation,
  and the row's head while the generation is unchanged.\<close>

theorem reachable_queue_invariant:
  assumes "reachable s"
  shows "sys_ok s"
  by (rule reachable_ok [OF assms])

theorem reachable_queue_invariant_witness: "sys_ok sample_sys \<and> jobs (store sample_sys) \<noteq> []"
proof -
  have "jobs (store sample_sys) \<noteq> []" by code_simp
  with reachable_queue_invariant [OF sample_reachable] show ?thesis by blast
qed

text \<open>C23. One operation never moves a generation back: a row that survives keeps its pull request
  and has at least its old generation, with the same head when the generation is unchanged
  and the head was known; and a fence that survives has at least its old generation and at
  least its old completed reset.\<close>

theorem generations_never_decrease:
  assumes "reachable s" and "qstep s s'"
  shows "(\<forall>j \<in> set (jobs (store s)). \<forall>j' \<in> set (jobs (store s')). j_id j' = j_id j \<longrightarrow> job_after j j') \<and>
    epochs_evolve (epochs (store s)) (epochs (store s'))"
proof -
  have ok: "sys_ok s" using assms(1) by (rule reachable_ok)
  note k = qstep_evolves [OF ok assms(2)]
  have j: "jobs_ok (next_job_id (store s)) (jobs (store s))" using ok by (simp add: sys_ok_def db_ok_def)
  have "job_after j j'" if "j \<in> set (jobs (store s))" "j' \<in> set (jobs (store s'))" "j_id j' = j_id j" for j j'
  proof -
    have "j_id j < next_job_id (store s)" using j that(1) by (simp add: jobs_ok_def)
    with k that(2,3) obtain x where x: "x \<in> set (jobs (store s))" "job_after x j'"
      unfolding evolves_def jobs_evolve_def by fastforce
    then have "j_id x = j_id j" using that(3) by (simp add: job_after_def)
    with j x(1) that(1) have "x = j" unfolding jobs_ok_def by (metis unique_by_eq)
    with x show ?thesis by simp
  qed
  with k show ?thesis by (simp add: evolves_def)
qed

theorem generations_never_decrease_witness:
  "\<exists>j' \<in> set (jobs (store sample_sys)). j_generation j' = 1 \<and> epochs_evolve (epochs (store sample_sys)) (epochs (store sample_sys))"
proof -
  have st: "qstep sample_sys (sample_sys\<lparr>store := fst (prune_deliveries 0 (store sample_sys))\<rparr>)"
    by (rule step_prune_deliveries)
  have e: "epochs (fst (prune_deliveries 0 (store sample_sys))) = epochs (store sample_sys)"
    by (simp add: prune_deliveries_def Let_def split: prod.split)
  have "list_ex (\<lambda>j. j_generation j = 1) (jobs (store sample_sys))" by code_simp
  with generations_never_decrease [OF sample_reachable st] e show ?thesis by (auto simp: list_ex_iff)
qed

section \<open>Leasing\<close>

lemma claim_first:
  fixes l :: int and worker :: string
  assumes "db_ok d"
    and f: "sql_first (\<lambda>j. (j_available j, j_id j)) (job_due now wc ready d) (jobs d) = Some j"
  defines "d' \<equiv> d\<lparr>jobs := map (\<lambda>x. if j_id x = j_id j then lease_job worker (now + seconds l) x else x) (jobs d)\<rparr>"
  shows "claim now worker l wc ready d =
    (d', Some (claimed_view d' worker (lease_job worker (now + seconds l) j)))"
proof -
  note j = sql_first_Some [OF f]
  have u: "unique_by j_id (jobs d)" using assms(1) by (simp add: db_ok_def jobs_ok_def)
  have same: "x = j" if "x \<in> set (jobs d)" "j_id x = j_id j" for x
    using u that j(1) by (metis unique_by_eq)
  have due: "j_state j = Pending" "lease_free now (j_lease j)" using j(2) by (auto simp: job_due_def)
  let ?w = "\<lambda>x. j_id x = j_id j \<and> j_state x = Pending \<and> lease_free now (j_lease x)"
  let ?js = "map (\<lambda>x. if j_id x = j_id j then lease_job worker (now + seconds l) x else x) (jobs d)"
  have js: "map (\<lambda>x. if ?w x then lease_job worker (now + seconds l) x else x) (jobs d) = ?js"
    using same due by (intro map_cong) auto
  have "length (filter ?w (jobs d)) = 1 \<longleftrightarrow> (\<exists>x \<in> set (jobs d). ?w x)"
    by (rule filter_key_eq_1 [OF u]) simp
  with j(1) due have n: "length (filter ?w (jobs d)) = 1" by blast
  have "unique_by j_id ?js" by (rule unique_by_map [OF u]) (simp add: lease_job_def)
  moreover have "lease_job worker (now + seconds l) j \<in> set ?js" using j(1) by force
  ultimately have "find (\<lambda>x. j_id x = j_id j) ?js = Some (lease_job worker (now + seconds l) j)"
    by (simp add: find_key lease_job_def)
  then show ?thesis unfolding d'_def
    using f n by (simp add: claim_def sql_update_def Let_def find_job_def js del: map_eq_conv)
qed

lemma claim_Some:
  assumes "db_ok d" and "claim now worker l wc ready d = (d', Some c)"
  obtains j where "j \<in> set (jobs d)" "job_due now wc ready d j"
    "\<And>x. x \<in> set (jobs d) \<Longrightarrow> job_due now wc ready d x \<Longrightarrow> (j_available j, j_id j) \<le> (j_available x, j_id x)"
    "d' = d\<lparr>jobs := map (\<lambda>x. if j_id x = j_id j then lease_job worker (now + seconds l) x else x) (jobs d)\<rparr>"
    "c = claimed_view d' worker (lease_job worker (now + seconds l) j)"
proof -
  from assms(2) obtain j where f: "sql_first (\<lambda>j. (j_available j, j_id j)) (job_due now wc ready d) (jobs d) = Some j"
    by (auto simp: claim_def split: option.splits)
  from assms(2) show thesis unfolding claim_first [OF assms(1) f]
    using that [OF sql_first_Some [OF f]] by blast
qed

text \<open>A due row is enough for a claim to return one.\<close>

lemma claim_due:
  assumes "db_ok d" and "j \<in> set (jobs d)" and "job_due now wc ready d j"
  shows "snd (claim now worker l wc ready d) \<noteq> None"
proof -
  have "sql_first (\<lambda>j. (j_available j, j_id j)) (job_due now wc ready d) (jobs d) \<noteq> None"
    using assms(2,3) by (auto simp: sql_first_None)
  then obtain x where "sql_first (\<lambda>j. (j_available j, j_id j)) (job_due now wc ready d) (jobs d) = Some x" by blast
  from claim_first [OF assms(1) this] show ?thesis by simp
qed

text \<open>A claim leases the oldest row that is due and nothing else: the row is pending,
  available, not leased, in the requested class, blocked by no authority work and no rate
  limit, and has the least (available, id) among the due rows; the other rows are
  untouched. The claim carries the row's identity and head, one more attempt, and a higher
  generation when the row still had an owner.\<close>

theorem claim_leases_oldest_due_row:
  assumes "db_ok d" and "claim now worker l wc ready d = (d', Some c)"
  shows "\<exists>j \<in> set (jobs d). job_due now wc ready d j \<and>
    (\<forall>x \<in> set (jobs d). job_due now wc ready d x \<longrightarrow> (j_available j, j_id j) \<le> (j_available x, j_id x)) \<and>
    jobs d' = map (\<lambda>x. if j_id x = j_id j then lease_job worker (now + seconds l) x else x) (jobs d) \<and>
    c_id c = j_id j \<and> (c_installation c, c_repo c, c_pull c) = job_key j \<and> c_head c = j_head j \<and>
    c_shared c = j_shared j \<and> c_owner c = worker \<and> c_attempts c = j_attempts j + 1 \<and>
    c_generation c = (if j_owner j = None then j_generation j else j_generation j + 1)"
proof -
  from claim_Some [OF assms] obtain j where j: "j \<in> set (jobs d)" "job_due now wc ready d j"
    "\<And>x. x \<in> set (jobs d) \<Longrightarrow> job_due now wc ready d x \<Longrightarrow> (j_available j, j_id j) \<le> (j_available x, j_id x)"
    "d' = d\<lparr>jobs := map (\<lambda>x. if j_id x = j_id j then lease_job worker (now + seconds l) x else x) (jobs d)\<rparr>"
    "c = claimed_view d' worker (lease_job worker (now + seconds l) j)" by blast
  show ?thesis
  proof (intro bexI [OF _ j(1)] conjI)
    show "\<forall>x \<in> set (jobs d). job_due now wc ready d x \<longrightarrow> (j_available j, j_id j) \<le> (j_available x, j_id x)"
      using j(3) by blast
  qed (simp_all add: j(2,4,5) claimed_view_def lease_job_def job_key_def)
qed

lemma db_ok_sample: "db_ok sample_db"
  using enqueue_keeps [OF db_ok_empty sample_canonical sample_enqueue] by (rule keeps_ok)

theorem claim_leases_oldest_due_row_witness:
  "\<exists>j \<in> set (jobs sample_db). c_id (the (snd sample_leased)) = j_id j \<and> j_head j = Some sample_head"
proof -
  have "list_all (\<lambda>j. j_head j = Some sample_head) (jobs sample_db)" by code_simp
  with claim_leases_oldest_due_row [OF db_ok_sample sample_claim] show ?thesis
    by (auto simp: list_all_iff)
qed

text \<open>No second worker gets a leased row before the lease expires: while the lease of a claim
  runs, a claim by any worker in any class returns another row or none.\<close>

theorem leased_row_is_not_claimed_again:
  assumes "db_ok d" and "claim now worker l wc ready d = (d1, Some c)"
    and "claim now' worker' l' wc' ready' d1 = (d2, Some c')" and "now' \<le> now + seconds l"
  shows "c_id c' \<noteq> c_id c"
proof -
  from claim_Some [OF assms(1,2)] obtain j where j: "j \<in> set (jobs d)"
    "d1 = d\<lparr>jobs := map (\<lambda>x. if j_id x = j_id j then lease_job worker (now + seconds l) x else x) (jobs d)\<rparr>"
    "c = claimed_view d1 worker (lease_job worker (now + seconds l) j)" by blast
  have ok: "db_ok d1" using claim_keeps [OF assms(1), of now worker l wc ready] assms(2) keeps_ok by simp
  from claim_Some [OF ok assms(3)] obtain x where xx: "x \<in> set (jobs d1)" "job_due now' wc' ready' d1 x"
    "c' = claimed_view d2 worker' (lease_job worker' (now' + seconds l') x)" by blast
  then have x: "x \<in> set (jobs d1)" "lease_free now' (j_lease x)" "c_id c' = j_id x"
    by (simp_all add: job_due_def claimed_view_def lease_job_def)
  show ?thesis
  proof
    assume "c_id c' = c_id c"
    then have "j_id x = j_id j" using x(3) j(3) by (simp add: claimed_view_def lease_job_def)
    moreover have "\<forall>x \<in> set (jobs d1). j_id x = j_id j \<longrightarrow> j_lease x = Some (now + seconds l)"
      by (auto simp: j(2) lease_job_def)
    ultimately have "j_lease x = Some (now + seconds l)" using x(1) by blast
    with x(2) assms(4) show False by (simp add: lease_free_def)
  qed
qed

definition second_request :: job_request where
  "second_request = sample_request\<lparr>q_pull := 8\<rparr>"

theorem leased_row_is_not_claimed_again_witness:
  "\<exists>d2 c'. claim 210 ''v'' 60 None False (fst (claim 200 ''w'' 60 None False
       (projr (enqueue 150 second_request sample_db)))) = (d2, Some c') \<and> c_id c' \<noteq> 1"
proof -
  let ?d = "projr (enqueue 150 second_request sample_db)"
  let ?p = "claim 200 ''w'' 60 None False ?d"
  let ?r = "claim 210 ''v'' 60 None False (fst ?p)"
  have "\<not> isl (enqueue 150 second_request sample_db)" by code_simp
  then have "enqueue 150 second_request sample_db = Inr ?d" by simp
  moreover have "canonical_repo (q_repo second_request)" by code_simp
  ultimately have ok: "db_ok ?d" using enqueue_keeps [OF db_ok_sample] keeps_ok by blast
  have "snd ?p \<noteq> None" "snd ?r \<noteq> None" "c_id (the (snd ?p)) = 1" by code_simp+
  then obtain c c' where c: "?p = (fst ?p, Some c)" "?r = (fst ?r, Some c')" "c_id c = 1"
    by (metis option.collapse option.sel prod.collapse)
  have "210 \<le> 200 + seconds 60" by (simp add: seconds_def)
  from leased_row_is_not_claimed_again [OF ok c(1,2) this] c show ?thesis by metis
qed

end
