(* ===== verification/Queue_Fencing.thy ===== *)
theory Queue_Fencing
  imports Queue_Facts
begin

text \<open>
  Fencing. The three kinds of claimed work (evaluations, exact-head resets, authority
  fan-out) complete under one contract, stated as the locale \<open>fenced_store\<close> and
  interpreted on each of them; a newer trigger and a reclaim take a row away from the
  worker that holds an older claim.
\<close>

section \<open>Completion under a claim\<close>

locale fenced_store =
  fixes inv :: "'s \<Rightarrow> bool" and holds :: "'s \<Rightarrow> 'c \<Rightarrow> bool" and finish :: "'c \<Rightarrow> 's \<Rightarrow> 's \<times> bool"
  assumes finish_result: "inv s \<Longrightarrow> snd (finish c s) \<longleftrightarrow> holds s c"
    and finish_consumes: "inv s \<Longrightarrow> holds s c \<Longrightarrow> \<not> holds (fst (finish c s)) c"
    and finish_idle: "inv s \<Longrightarrow> \<not> holds s c \<Longrightarrow> fst (finish c s) = s"
    and finish_inv: "inv s \<Longrightarrow> inv (fst (finish c s))"
begin

lemma finish_lost: "inv s \<Longrightarrow> \<not> holds s c \<Longrightarrow> finish c s = (s, False)"
  using finish_result [of s c] finish_idle [of s c] by (cases "finish c s") auto

lemma finish_released: "inv s \<Longrightarrow> \<not> holds (fst (finish c s)) c"
  using finish_consumes [of s c] finish_idle [of s c] by (cases "holds s c") auto

lemma finish_once: "inv s \<Longrightarrow> finish c (fst (finish c s)) = (fst (finish c s), False)"
  by (rule finish_lost [OF finish_inv finish_released])

lemma finish_many: "inv s \<Longrightarrow> 0 < n \<Longrightarrow> ((\<lambda>s. fst (finish c s)) ^^ n) s = fst (finish c s)"
proof (induction n)
  case (Suc n)
  then show ?case using finish_once [of s c] by (cases n) simp_all
qed simp

end

definition holds_evaluation :: "string \<Rightarrow> db \<Rightarrow> claimed_job \<Rightarrow> bool" where
  "holds_evaluation worker d c \<longleftrightarrow> (\<exists>j \<in> set (jobs d). holds_job c worker j)"

definition holds_head :: "int \<Rightarrow> db \<Rightarrow> claimed_head \<Rightarrow> bool" where
  "holds_head now d c \<longleftrightarrow> (\<exists>e \<in> set (epochs d). holds_reset now c e)"

definition holds_authority_row :: "string \<Rightarrow> db \<Rightarrow> claimed_authority \<Rightarrow> bool" where
  "holds_authority_row worker d c \<longleftrightarrow> (\<exists>a \<in> set (authorities d). holds_authority c worker a)"

lemma record_completion_jobs [simp]: "jobs (record_completion now j d) = jobs d"
  by (simp add: record_completion_def Let_def split: option.split)

lemma complete_result:
  assumes "holds_evaluation worker d c"
  obtains j where "j \<in> set (jobs d)" "holds_job c worker j"
    "complete now c worker d =
      (record_completion now j (d\<lparr>jobs := filter (\<lambda>j. \<not> holds_job c worker j) (jobs d)\<rparr>), True)"
proof -
  from assms have "find (holds_job c worker) (jobs d) \<noteq> None" by (auto simp: holds_evaluation_def find_None)
  then obtain j where f: "find (holds_job c worker) (jobs d) = Some j" by blast
  have "filter (holds_job c worker) (jobs d) \<noteq> []"
    using assms by (auto simp: holds_evaluation_def filter_empty_conv)
  with f have "complete now c worker d =
      (record_completion now j (d\<lparr>jobs := filter (\<lambda>j. \<not> holds_job c worker j) (jobs d)\<rparr>), True)"
    by (simp add: complete_def sql_delete_def Let_def)
  with find_SomeD [OF f] that show thesis by blast
qed

lemma complete_idle: "\<not> holds_evaluation worker d c \<Longrightarrow> complete now c worker d = (d, False)"
proof -
  assume n: "\<not> holds_evaluation worker d c"
  then have e: "filter (holds_job c worker) (jobs d) = []"
    "filter (\<lambda>j. \<not> holds_job c worker j) (jobs d) = jobs d"
    by (auto simp: holds_evaluation_def filter_empty_conv)
  have "map (\<lambda>j. if holds_job c worker j then j\<lparr>j_owner := None, j_lease := None\<rparr> else j) (jobs d) = jobs d"
    by (rule map_idI) (use n in \<open>auto simp: holds_evaluation_def\<close>)
  with e show ?thesis by (simp add: complete_def sql_delete_def sql_update_def Let_def)
qed

lemma complete_succeeds_iff: "snd (complete now c worker d) \<longleftrightarrow> holds_evaluation worker d c"
proof (cases "holds_evaluation worker d c")
  case True
  then show ?thesis by (rule complete_result [where now = now]) (simp add: True)
qed (simp add: complete_idle)

interpretation evaluation: fenced_store db_ok "holds_evaluation worker" "\<lambda>c. complete now c worker"
  for now worker
proof
  fix d c
  assume ok: "db_ok d"
  show "snd (complete now c worker d) \<longleftrightarrow> holds_evaluation worker d c"
    by (rule complete_succeeds_iff)
  show "db_ok (fst (complete now c worker d))" using complete_keeps [OF ok] by (rule keeps_ok)
  show "\<not> holds_evaluation worker (fst (complete now c worker d)) c" if "holds_evaluation worker d c"
    using that by (elim complete_result [where now = now]) (auto simp: holds_evaluation_def)
  show "fst (complete now c worker d) = d" if "\<not> holds_evaluation worker d c"
    using complete_idle [OF that] by simp
qed

lemma update_reset_count:
  assumes "db_ok d"
  shows "snd (update_reset now c f d) \<longleftrightarrow> holds_head now d c"
proof -
  have u: "unique_by epoch_key (epochs d)" using assms by (simp add: db_ok_def epochs_ok_def)
  have "length (filter (holds_reset now c) (epochs d)) = 1 \<longleftrightarrow> (\<exists>e \<in> set (epochs d). holds_reset now c e)"
    by (rule filter_key_eq_1 [OF u]) (simp add: holds_reset_def is_epoch_key)
  then show ?thesis by (simp add: update_reset_def sql_update_def Let_def holds_head_def)
qed

lemma update_reset_epochs:
  "fst (update_reset now c f d) = d\<lparr>epochs := map (\<lambda>e. if holds_reset now c e then f e else e) (epochs d)\<rparr>"
  by (simp add: update_reset_def sql_update_def Let_def)

interpretation head: fenced_store db_ok "holds_head now" "complete_shared_head_invalidation now"
  for now
proof
  fix d :: db and c :: claimed_head
  assume ok: "db_ok d"
  let ?f = "\<lambda>e. e\<lparr>e_invalidated := ch_generation c, e_owner := None, e_lease := None, e_error := None\<rparr>"
  show "snd (complete_shared_head_invalidation now c d) \<longleftrightarrow> holds_head now d c"
    unfolding complete_shared_head_invalidation_def by (rule update_reset_count [OF ok])
  show "db_ok (fst (complete_shared_head_invalidation now c d))"
    using complete_reset_evolves [OF ok] by (rule evolves_ok)
  show "\<not> holds_head now (fst (complete_shared_head_invalidation now c d)) c"
    by (auto simp: complete_shared_head_invalidation_def update_reset_epochs holds_head_def holds_reset_def)
  show "fst (complete_shared_head_invalidation now c d) = d" if n: "\<not> holds_head now d c"
  proof -
    have "map (\<lambda>e. if holds_reset now c e then ?f e else e) (epochs d) = epochs d"
      by (rule map_idI) (use n in \<open>auto simp: holds_head_def\<close>)
    then show ?thesis by (simp add: complete_shared_head_invalidation_def update_reset_epochs)
  qed
qed

lemma complete_authority_cases:
  assumes "db_ok d" and "holds_authority_row worker d c"
  obtains a where "a \<in> set (authorities d)" "holds_authority c worker a"
    "complete_authority now c worker d = (d\<lparr>authorities := (if a_pending_full a \<or> a_pending_refs a \<noteq> []
       then map (\<lambda>x. if a_id x = a_id a then next_batch now x else x) (authorities d)
       else filter (\<lambda>x. a_id x \<noteq> a_id a) (authorities d))\<rparr>, True)"
proof -
  from assms(2) have "find (holds_authority c worker) (authorities d) \<noteq> None"
    by (auto simp: holds_authority_row_def find_None)
  then obtain a where f: "find (holds_authority c worker) (authorities d) = Some a" by blast
  with find_SomeD [OF f] that show thesis
    by (auto simp: complete_authority_def fst_update)
qed

interpretation authority: fenced_store db_ok "holds_authority_row worker" "\<lambda>c. complete_authority now c worker"
  for now worker
proof
  fix d c
  assume ok: "db_ok d"
  have u: "unique_by a_id (authorities d)" using ok by (simp add: db_ok_def authorities_ok_def)
  have lost: "complete_authority now c worker d = (d, False)" if "\<not> holds_authority_row worker d c"
  proof -
    have "find (holds_authority c worker) (authorities d) = None"
      using that by (auto simp: holds_authority_row_def find_None)
    then show ?thesis by (simp add: complete_authority_def)
  qed
  show "snd (complete_authority now c worker d) \<longleftrightarrow> holds_authority_row worker d c"
  proof (cases "holds_authority_row worker d c")
    case True
    with ok show ?thesis by (rule complete_authority_cases [where now = now]) (simp add: True)
  qed (simp add: lost)
  show "db_ok (fst (complete_authority now c worker d))"
    using complete_authority_keeps [OF ok] by (rule keeps_ok)
  show "fst (complete_authority now c worker d) = d" if "\<not> holds_authority_row worker d c"
    using lost [OF that] by simp
  assume h: "holds_authority_row worker d c"
  show "\<not> holds_authority_row worker (fst (complete_authority now c worker d)) c"
    using ok h
  proof (rule complete_authority_cases [where now = now])
    fix a assume a: "a \<in> set (authorities d)" "holds_authority c worker a"
      "complete_authority now c worker d = (d\<lparr>authorities := (if a_pending_full a \<or> a_pending_refs a \<noteq> []
       then map (\<lambda>x. if a_id x = a_id a then next_batch now x else x) (authorities d)
       else filter (\<lambda>x. a_id x \<noteq> a_id a) (authorities d))\<rparr>, True)"
    have "a_id a = ca_id c" using a(2) by (simp add: holds_authority_def)
    moreover have "a_owner (next_batch now x) = None" for x by (simp add: next_batch_def Let_def)
    ultimately show ?thesis
      by (auto simp: a(3) holds_authority_row_def holds_authority_def)
  qed
qed

text \<open>C24. A worker finishes exactly the generation it claimed, once. Completing succeeds exactly
  when the row still has the claimed id and generation and the worker as owner; then only
  that row disappears and its head is recorded as confirmed. Otherwise the database is
  untouched; and a second completion of the same claim always fails and changes nothing.\<close>

theorem complete_removes_only_its_generation:
  assumes "db_ok d" and "complete now c worker d = (d', b)"
  shows "(b \<longleftrightarrow> holds_evaluation worker d c) \<and> (\<not> b \<longrightarrow> d' = d) \<and>
    (b \<longrightarrow> jobs d' = filter (\<lambda>j. j_id j \<noteq> c_id c) (jobs d)) \<and>
    complete now c worker d' = (d', False)"
proof (intro conjI impI)
  show "b \<longleftrightarrow> holds_evaluation worker d c" using evaluation.finish_result [OF assms(1)] assms(2) by (metis snd_conv)
  show "complete now c worker d' = (d', False)" using evaluation.finish_once [OF assms(1)] assms(2) by (metis fst_conv)
next
  assume "\<not> b"
  with evaluation.finish_result [OF assms(1)] evaluation.finish_idle [OF assms(1)] assms(2)
  show "d' = d" by (metis fst_conv snd_conv)
next
  assume "b"
  then have h: "holds_evaluation worker d c"
    using evaluation.finish_result [OF assms(1)] assms(2) by (metis snd_conv)
  have u: "unique_by j_id (jobs d)" using assms(1) by (simp add: db_ok_def jobs_ok_def)
  from h obtain j where j: "j \<in> set (jobs d)" "holds_job c worker j"
    "complete now c worker d =
      (record_completion now j (d\<lparr>jobs := filter (\<lambda>j. \<not> holds_job c worker j) (jobs d)\<rparr>), True)"
    by (rule complete_result)
  have "holds_job c worker x \<longleftrightarrow> j_id x = c_id c" if "x \<in> set (jobs d)" for x
    using j(1,2) that unique_by_eq [OF u, of x j] by (auto simp: holds_job_def)
  then have "filter (\<lambda>j. \<not> holds_job c worker j) (jobs d) = filter (\<lambda>j. j_id j \<noteq> c_id c) (jobs d)"
    by (intro filter_cong) auto
  with j(3) assms(2) show "jobs d' = filter (\<lambda>j. j_id j \<noteq> c_id c) (jobs d)" by auto
qed

theorem complete_removes_only_its_generation_witness:
  "jobs (fst (complete 210 (the (snd sample_leased)) ''w'' (fst sample_leased))) = []"
proof -
  have ok: "db_ok (fst sample_leased)"
    using claim_keeps [OF db_ok_sample, of 200 "''w''" 60 None False] keeps_ok by (simp add: sample_leased_def)
  let ?r = "complete 210 (the (snd sample_leased)) ''w'' (fst sample_leased)"
  have "snd ?r" by code_simp
  moreover have "filter (\<lambda>j. j_id j \<noteq> c_id (the (snd sample_leased))) (jobs (fst sample_leased)) = []"
    by code_simp
  ultimately show ?thesis
    using complete_removes_only_its_generation [OF ok, of 210 "the (snd sample_leased)" "''w''" "fst ?r" "snd ?r"]
    by (metis prod.collapse)
qed

section \<open>A newer trigger fences older claims\<close>

definition triggered :: "db \<Rightarrow> job_request \<Rightarrow> db \<Rightarrow> bool" where
  "triggered d q d' \<longleftrightarrow>
     (\<forall>j \<in> set (jobs d'). is_job (q_installation q) (q_repo q) (q_pull q) j \<longrightarrow>
        j_state j = Pending \<and> j_owner j = None \<and> j_head j = q_head q \<and> j_reason j = q_reason q \<and>
        (j_id j = next_job_id d \<or> (\<exists>x \<in> set (jobs d). j_id x = j_id j \<and> j_generation x < j_generation j))) \<and>
     (\<exists>j \<in> set (jobs d'). is_job (q_installation q) (q_repo q) (q_pull q) j)"

lemma is_job_refresh [simp]: "is_job i r p (refresh_job now q k a g pw j) = is_job i r p j"
  by (simp add: is_job_def refresh_job_def)

lemma wake_jobs [simp]: "jobs (wake_authority_for_interactive now q d) = jobs d"
  by (simp add: wake_authority_for_interactive_def)

lemma triggered_refresh:
  assumes "\<exists>j \<in> set (jobs d). is_job (q_installation q) (q_repo q) (q_pull q) j"
    and "jobs d' = map (\<lambda>j. if is_job (q_installation q) (q_repo q) (q_pull q) j
      then refresh_job now q i a g pw j else j) (jobs d)"
  shows "triggered d q d'"
  unfolding triggered_def
proof (intro conjI ballI impI)
  from assms(1) obtain x where x: "x \<in> set (jobs d)" "is_job (q_installation q) (q_repo q) (q_pull q) x"
    by blast
  then have "refresh_job now q i a g pw x \<in> set (jobs d')"
    unfolding assms(2) set_map by (intro image_eqI [OF _ x(1)]) simp
  with x(2) show "\<exists>j \<in> set (jobs d'). is_job (q_installation q) (q_repo q) (q_pull q) j"
    by (intro bexI [where x = "refresh_job now q i a g pw x"]) simp_all
  fix j assume "j \<in> set (jobs d')" and k: "is_job (q_installation q) (q_repo q) (q_pull q) j"
  then obtain y where y: "y \<in> set (jobs d)" "j = refresh_job now q i a g pw y"
    unfolding assms(2) by (auto split: if_splits)
  then show "j_state j = Pending" "j_owner j = None" "j_head j = q_head q" "j_reason j = q_reason q"
    "j_id j = next_job_id d \<or> (\<exists>x \<in> set (jobs d). j_id x = j_id j \<and> j_generation x < j_generation j)"
    by (auto simp: refresh_job_def)
qed

lemma enqueue_in_session_triggers:
  assumes "db_ok d"
  shows "triggered d q (enqueue_in_session now q i shared False pw d)"
proof (cases rule: enqueue_outcomes [OF assms, where shared = shared and q = q and pd = False
      and now = now and i = i and pw = pw])
  case 1
  show ?thesis by (rule triggered_refresh) (use 1(1) in \<open>auto simp: 1(2)\<close>)
next
  case 2
  then show ?thesis by simp
next
  case 3
  let ?g = "case shared of None \<Rightarrow> head_generation d (q_installation q) (q_repo q) (q_head q) | Some x \<Rightarrow> x"
  have "jobs (enqueue_in_session now q i shared False pw d) =
      jobs d @ [new_job now (next_job_id d) q i (authority_generation_of d (q_installation q)) ?g]"
    by (simp add: 3(2) insert_job_def)
  with 3(1) show ?thesis unfolding triggered_def by (auto simp: new_job_def is_job_def)
qed

lemma enqueue_triggers:
  assumes "db_ok d" and "enqueue now q d = Inr d'"
  shows "triggered d q d'"
proof (cases "q_head q")
  case None
  with assms enqueue_in_session_triggers [OF assms(1)] show ?thesis by (auto simp: enqueue_def)
next
  case (Some h)
  with assms(2) obtain d1 g where a: "advance_shared_head_epoch now q d = Inr (d1, g)"
    and d': "d' = enqueue_in_session now q None (Some g) False True d1"
    by (auto simp: enqueue_def enqueue_shared_head_trigger_def)
  note k = advance_keeps [OF assms(1) a]
  have "triggered d1 q d'" unfolding d' by (rule enqueue_in_session_triggers [OF keeps_ok [OF k(1)]])
  then show ?thesis by (simp add: triggered_def k(2,3))
qed

lemma accept_delivery_triggers:
  assumes "db_ok d" and "canonical_repo (q_repo q)"
    and "accept_delivery now guard i event (PullWork q) trace d = Inr (d', acc)" and "accepted acc"
  shows "triggered d q d'"
proof -
  have n: "find_delivery d i = None" and f: "first_delivery now i event (PullWork q) trace d = Inr (d', acc)"
    using assms(3,4) by (auto simp: accept_delivery_def replayed_delivery_def split: option.splits if_splits)
  from f obtain d1 g where a: "advance_shared_head_epoch now q d = Inr (d1, g)"
    by (auto simp: first_delivery_def Let_def)
  define x where "x = (new_delivery now i event True trace)\<lparr>d_installation := Some (q_installation q),
    d_repo := Some (q_repo q), d_pull := Some (q_pull q), d_head := q_head q, d_shared := Some g\<rparr>"
  let ?d = "d1\<lparr>deliveries := deliveries d1 @ [x]\<rparr>"
  have d': "d' = enqueue_in_session now q (Some i) (Some g) False True ?d"
    using f a by (simp add: first_delivery_def Let_def x_def is_pull_work_def)
  note k = advance_keeps [OF assms(1) a]
  have "unique_by d_id (deliveries d @ [x])"
    using assms(1) n by (auto simp: unique_by_snoc db_ok_def find_delivery_def find_None x_def new_delivery_def)
  moreover have "deliveries d1 = deliveries d" using k(6) by auto
  ultimately have "db_ok ?d" by (simp add: keeps_ok [OF keeps_deliveries [OF keeps_ok [OF k(1)]]])
  then have "triggered ?d q d'" unfolding d' by (rule enqueue_in_session_triggers)
  then show ?thesis by (simp add: triggered_def k(2,3))
qed

text \<open>A claim is fenced off when every row with its id has moved to a later generation (or is
  gone). Nothing a holder of such a claim does changes the database, and no operation of the
  queue ever makes the claim current again.\<close>

definition fenced_off :: "db \<Rightarrow> claimed_job \<Rightarrow> bool" where
  "fenced_off d c \<longleftrightarrow> c_id c < next_job_id d \<and>
     (\<forall>j \<in> set (jobs d). j_id j = c_id c \<longrightarrow> c_generation c < j_generation j)"

lemma fenced_off_evolves:
  assumes "fenced_off d c" and "evolves d d'"
  shows "fenced_off d' c"
  unfolding fenced_off_def
proof (intro conjI ballI impI)
  show "c_id c < next_job_id d'" using assms by (simp add: fenced_off_def evolves_def)
  fix j' assume j': "j' \<in> set (jobs d')" "j_id j' = c_id c"
  with assms obtain j where j: "j \<in> set (jobs d)" "job_after j j'"
    unfolding fenced_off_def evolves_def jobs_evolve_def by fastforce
  with j'(2) have "j_id j = c_id c" by (simp add: job_after_def)
  with assms(1) j(1) have "c_generation c < j_generation j" by (simp add: fenced_off_def)
  with j(2) show "c_generation c < j_generation j'" by (simp add: job_after_def)
qed

lemma fenced_off_forever:
  assumes "qstep\<^sup>*\<^sup>* s s'" and "sys_ok s" and "fenced_off (store s) c"
  shows "sys_ok s' \<and> fenced_off (store s') c"
  using assms
proof (induction rule: rtranclp_induct)
  case (step s1 s2)
  then have ok: "sys_ok s1" "fenced_off (store s1) c" by blast+
  from sys_ok_step [OF ok(1) step.hyps(2)] qstep_evolves [OF ok(1) step.hyps(2)]
    fenced_off_evolves [OF ok(2)] show ?case by blast
qed simp

lemma triggered_fences:
  assumes "triggered d q d'" and c: "claim_ok (next_job_id d) (jobs d) c" and k: "keeps d d'"
    and pr: "c_installation c = q_installation q" "c_repo c = q_repo q" "c_pull c = q_pull q"
  shows "fenced_off d' c"
  unfolding fenced_off_def
proof (intro conjI ballI impI)
  have c': "claim_ok (next_job_id d') (jobs d') c"
    using claim_ok_evolve [OF c] k by (simp add: keeps_def evolves_def)
  then show "c_id c < next_job_id d'" by (simp add: claim_ok_def)
  fix j assume j: "j \<in> set (jobs d')" "j_id j = c_id c"
  with c' pr have "is_job (q_installation q) (q_repo q) (q_pull q) j"
    by (auto simp: claim_ok_def is_job_key)
  with assms(1) j(1) consider "j_id j = next_job_id d"
    | x where "x \<in> set (jobs d)" "j_id x = j_id j" "j_generation x < j_generation j"
    unfolding triggered_def by blast
  then show "c_generation c < j_generation j"
  proof cases
    case 1 with c j(2) show ?thesis by (simp add: claim_ok_def)
  next
    case 2
    with c j have "c_generation c \<le> j_generation x" by (auto simp: claim_ok_def)
    with 2(3) show ?thesis by simp
  qed
qed

lemma not_current_generation:
  assumes "\<not> (\<exists>j \<in> set (jobs d). j_id j = c_id c \<and> j_generation j = c_generation c)"
  shows "\<not> is_current_generation d c" and "complete now c worker d = (d, False)"
proof -
  show "\<not> is_current_generation d c"
    using assms by (auto simp: is_current_generation_def find_job_def dest: find_SomeD)
  show "complete now c worker d = (d, False)"
    by (rule complete_idle) (use assms in \<open>auto simp: holds_evaluation_def holds_job_def\<close>)
qed

lemma fenced_off_inert:
  assumes "fenced_off d c" and ok: "db_ok d"
  shows "\<not> is_current_generation d c" and "\<not> is_current_claim now d c"
    and "complete now c worker d = (d, False)" and "renew_claim now c l d = (d, False)"
    and "fail_job now c worker err m d = Inr d1 \<Longrightarrow> d1 = d"
    and "defer_job now c worker err delay limit d = Inr (d2, b) \<Longrightarrow> d2 = d \<and> \<not> b"
proof -
  have n: "\<not> (\<exists>j \<in> set (jobs d). j_id j = c_id c \<and> j_generation j = c_generation c)"
    using assms(1) by (auto simp: fenced_off_def)
  from not_current_generation [OF n]
  show "\<not> is_current_generation d c" "complete now c worker d = (d, False)" by blast+
  show "\<not> is_current_claim now d c"
    using n by (auto simp: is_current_claim_def find_job_def split: option.split dest: find_SomeD)
  have h: "\<not> (\<exists>j \<in> set (jobs d). holds_job c worker j)" using n by (auto simp: holds_job_def)
  let ?held = "\<lambda>j. j_id j = c_id c \<and> j_generation j = c_generation c \<and> j_owner j = Some (c_owner c) \<and> j_state j = Pending"
  have "map (\<lambda>j. if ?held j then j\<lparr>j_lease := Some (now + seconds l)\<rparr> else j) (jobs d) = jobs d"
    by (rule map_idI) (use n in auto)
  moreover have "filter ?held (jobs d) = []" using n by (auto simp: filter_empty_conv)
  ultimately show "renew_claim now c l d = (d, False)"
    by (simp add: renew_claim_def sql_update_def)
  have r: "d' = d \<and> \<not> b'" if "release_claim now c worker rev f d = Inr (d', b')" for rev f d' b'
    using ok that by (cases rule: release_cases) (use h in simp_all)
  show "d1 = d" if f: "fail_job now c worker err m d = Inr d1"
  proof -
    from f obtain rev b' where
      "release_claim now c worker rev (fail_values now (backoff (c_attempts c) m) err) d = Inr (d1, b')"
      by (auto simp: fail_job_def)
    with r show ?thesis by blast
  qed
  show "d2 = d \<and> \<not> b" if f: "defer_job now c worker err delay limit d = Inr (d2, b)"
  proof -
    from f obtain rev where
      "release_claim now c worker rev (defer_values now (clamp_delay delay) err) d = Inr (d2, b)"
      by (auto simp: defer_job_def split: option.splits if_splits)
    with r show ?thesis by blast
  qed
qed

definition accepts_trigger :: "int \<Rightarrow> job_request \<Rightarrow> db \<Rightarrow> db \<Rightarrow> bool" where
  "accepts_trigger now q d d' \<longleftrightarrow> enqueue now q d = Inr d' \<or>
     (\<exists>guard i event trace acc. accept_delivery now guard i event (PullWork q) trace d = Inr (d', acc) \<and> accepted acc)"

lemma accepts_trigger_effect:
  assumes "db_ok d" and "canonical_repo (q_repo q)" and "accepts_trigger now q d d'"
  shows "triggered d q d'" and "keeps d d'"
proof -
  have "canonical_work (PullWork q)" using assms(2) by (simp add: canonical_work_def)
  then show "keeps d d'" "triggered d q d'"
    using assms(3) enqueue_keeps [OF assms(1,2)] accept_delivery_keeps [OF assms(1)]
      enqueue_triggers [OF assms(1)] accept_delivery_triggers [OF assms(1,2)]
    unfolding accepts_trigger_def by blast+
qed

text \<open>C25. Work that arrives during an evaluation cannot be lost. When a new trigger for the pull
  request of an issued claim is recorded, by \<open>enqueue\<close> or as the work of a webhook delivery
  accepted for the first time, a pending, unleased row with the trigger's head and reason
  waits; and in every state of the queue from then on, whatever operations follow, the
  claim is neither the current generation nor the current claim at any time (so nothing may
  be published for it), completing it reports failure and changes nothing, it cannot
  be renewed, and failing or deferring it changes nothing.\<close>

theorem new_trigger_fences_older_claims:
  assumes "reachable s" and "c \<in> set (issued s)" and "canonical_repo (q_repo q)"
    and "c_installation c = q_installation q" and "c_repo c = q_repo q" and "c_pull c = q_pull q"
    and "accepts_trigger now q (store s) d" and "qstep\<^sup>*\<^sup>* (s\<lparr>store := d\<rparr>) s2"
  shows "(\<exists>j \<in> set (jobs d). is_job (q_installation q) (q_repo q) (q_pull q) j \<and> j_state j = Pending \<and>
       j_owner j = None \<and> j_head j = q_head q \<and> j_reason j = q_reason q) \<and>
    \<not> is_current_generation (store s2) c \<and> \<not> is_current_claim now' (store s2) c \<and>
    complete now' c worker (store s2) = (store s2, False) \<and>
    renew_claim now' c l (store s2) = (store s2, False) \<and>
    (\<forall>d'. fail_job now' c worker err m (store s2) = Inr d' \<longrightarrow> d' = store s2) \<and>
    (\<forall>d' b. defer_job now' c worker err delay limit (store s2) = Inr (d', b) \<longrightarrow> d' = store s2 \<and> \<not> b)"
proof -
  have s: "sys_ok s" using assms(1) by (rule reachable_ok)
  then have ok: "db_ok (store s)" and c: "claim_ok (next_job_id (store s)) (jobs (store s)) c"
    using assms(2) by (auto simp: sys_ok_def)
  note t = accepts_trigger_effect [OF ok assms(3,7)]
  have e: "evolves (store s) d" using t(2) by (simp add: keeps_def)
  have "claim_ok (next_job_id d) (jobs d) x" if "x \<in> set (issued s)" for x
    using s that e by (auto simp: sys_ok_def evolves_def intro: claim_ok_evolve)
  with e have "sys_ok (s\<lparr>store := d\<rparr>)" by (simp add: sys_ok_def evolves_def)
  from fenced_off_forever [OF assms(8) this] triggered_fences [OF t(1) c t(2) assms(4-6)]
  have f: "fenced_off (store s2) c" "db_ok (store s2)" by (simp_all add: sys_ok_def)
  have "\<exists>j \<in> set (jobs d). is_job (q_installation q) (q_repo q) (q_pull q) j \<and> j_state j = Pending \<and>
       j_owner j = None \<and> j_head j = q_head q \<and> j_reason j = q_reason q"
    using t(1) unfolding triggered_def by blast
  with fenced_off_inert [OF f] show ?thesis by blast
qed

theorem new_trigger_fences_older_claims_witness:
  "\<exists>d acc. accept_delivery 220 True ''x2'' ''pull_request'' (PullWork sample_request) None (store sample_sys) = Inr (d, acc) \<and>
     \<not> is_current_generation (fst (prune_deliveries 500 d)) (the (snd sample_leased)) \<and>
     complete 230 (the (snd sample_leased)) ''w'' (fst (prune_deliveries 500 d)) = (fst (prune_deliveries 500 d), False)"
proof -
  let ?r = "accept_delivery 220 True ''x2'' ''pull_request'' (PullWork sample_request) None (store sample_sys)"
  have "case ?r of Inl _ \<Rightarrow> False | Inr (_, acc) \<Rightarrow> accepted acc" by code_simp
  then obtain d acc where d: "?r = Inr (d, acc)" "accepted acc" by (auto split: sum.splits)
  then have t: "accepts_trigger 220 sample_request (store sample_sys) d" unfolding accepts_trigger_def by blast
  have i: "the (snd sample_leased) \<in> set (issued sample_sys)" by (simp add: sample_sys_def)
  have pr: "c_installation (the (snd sample_leased)) = q_installation sample_request"
    "c_repo (the (snd sample_leased)) = q_repo sample_request"
    "c_pull (the (snd sample_leased)) = q_pull sample_request" by code_simp+
  let ?s = "sample_sys\<lparr>store := d\<rparr>"
  have "qstep\<^sup>*\<^sup>* ?s (?s\<lparr>store := fst (prune_deliveries 500 (store ?s))\<rparr>)"
    by (rule r_into_rtranclp) (rule step_prune_deliveries)
  from new_trigger_fences_older_claims [OF sample_reachable i sample_canonical pr t this] d(1)
  show ?thesis by fastforce
qed

section \<open>Reclaiming fences the previous worker\<close>

text \<open>When an expired lease is taken over, the worker that held it is fenced: if the row still
  had an owner, the new claim has a higher generation than every claim issued before, so
  the old claim is neither current nor completable, even by a worker of the same name.\<close>

theorem reclaim_fences_previous_worker:
  assumes "reachable s" and "c \<in> set (issued s)"
    and "claim now worker l wc ready (store s) = (d, Some c')" and "c_id c' = c_id c"
    and "\<forall>j \<in> set (jobs (store s)). j_id j = c_id c \<longrightarrow> j_owner j \<noteq> None"
  shows "c_generation c < c_generation c' \<and> \<not> is_current_generation d c \<and>
    complete now' c worker' d = (d, False)"
proof -
  have s: "sys_ok s" using assms(1) by (rule reachable_ok)
  then have ok: "db_ok (store s)" and c: "claim_ok (next_job_id (store s)) (jobs (store s)) c"
    using assms(2) by (auto simp: sys_ok_def)
  from claim_Some [OF ok assms(3)] obtain j where j: "j \<in> set (jobs (store s))"
    "d = (store s)\<lparr>jobs := map (\<lambda>x. if j_id x = j_id j then lease_job worker (now + seconds l) x else x) (jobs (store s))\<rparr>"
    "c' = claimed_view d worker (lease_job worker (now + seconds l) j)" by blast
  have ij: "j_id j = c_id c" using assms(4) j(3) by (simp add: claimed_view_def lease_job_def)
  with assms(5) j(1) have "c_generation c' = j_generation j + 1" by (simp add: j(3) claimed_view_def lease_job_def)
  moreover have "c_generation c \<le> j_generation x" "j_owner x \<noteq> None"
    if "x \<in> set (jobs (store s))" "j_id x = c_id c" for x
    using c assms(5) that by (auto simp: claim_ok_def)
  ultimately have "c_generation c < c_generation c'"
    and n: "\<not> (\<exists>x \<in> set (jobs d). j_id x = c_id c \<and> j_generation x = c_generation c)"
    using j(1) ij by (fastforce simp: j(2) lease_job_def)+
  from not_current_generation [OF n] \<open>c_generation c < c_generation c'\<close> show ?thesis by blast
qed

definition late :: int where
  "late = 200 + seconds 61"

theorem reclaim_fences_previous_worker_witness:
  "\<not> is_current_generation (fst (claim late ''v'' 60 None False (store sample_sys))) (the (snd sample_leased))"
proof -
  let ?r = "claim late ''v'' 60 None False (store sample_sys)"
  have "snd ?r \<noteq> None" by code_simp
  then have r: "?r = (fst ?r, Some (the (snd ?r)))" by (simp add: prod_eq_iff)
  have i: "the (snd sample_leased) \<in> set (issued sample_sys)" by (simp add: sample_sys_def)
  have "c_id (the (snd ?r)) = c_id (the (snd sample_leased))"
    "\<forall>j \<in> set (jobs (store sample_sys)). j_id j = c_id (the (snd sample_leased)) \<longrightarrow> j_owner j \<noteq> None"
    by code_simp+
  from reclaim_fences_previous_worker [OF sample_reachable i r this] show ?thesis by blast
qed

end
