(* ===== verification/Queue_Safety.thy ===== *)
theory Queue_Safety
  imports Queue_Fencing
begin

text \<open>
  What the queue promises the publisher and the operator: a published check never predates
  an accepted trigger (the reset fence), authority changes block evaluation until they are
  worked off and are never lost, redelivered webhooks change nothing, retries are bounded
  and never give up, and retention removes nothing that is still needed.
\<close>

section \<open>The publication fence\<close>

definition publishable :: "db \<Rightarrow> claimed_job \<Rightarrow> string \<Rightarrow> bool" where
  "publishable d c head \<longleftrightarrow> shared_head_generation_is_publishable d c head = Inr True"

lemma find_epoch_unique:
  assumes "db_ok d" and "e \<in> set (epochs d)" and "is_epoch i r h e"
  shows "find_epoch d i r h = Some e"
proof -
  have "is_epoch i r h = (\<lambda>x. epoch_key x = (i, r, h))" by (auto simp: is_epoch_key)
  with assms show ?thesis by (simp add: find_epoch_def find_key db_ok_def epochs_ok_def is_epoch_key)
qed

lemma pending_reset_not_publishable:
  assumes "db_ok d" and "e \<in> set (epochs d)" and "reset_pending e"
    and "is_epoch (c_installation c) (c_repo c) head e"
  shows "\<not> publishable d c head"
  using find_epoch_unique [OF assms(1,2,4)] assms(3)
  by (auto simp: publishable_def shared_head_generation_is_publishable_def reset_pending_def
      dest: validate_head_sha_Inr)

lemma advance_pending:
  assumes "db_ok d" and "advance_shared_head_epoch now q d = Inr (d', g)"
  shows "\<exists>h e. q_head q = Some h \<and> e \<in> set (epochs d') \<and> is_epoch (q_installation q) (q_repo q) h e \<and>
    reset_pending e \<and> e_generation e = g"
  using advance_cases [OF assms]
proof cases
  case (1 h fg)
  from 1(3) obtain e where e: "e \<in> set (epochs d)" "is_epoch (q_installation q) (q_repo q) h e"
    "g = e_generation e + 1" by blast
  have "epoch_ok e" using e(1) assms(1) by (auto simp: db_ok_def epochs_ok_def)
  then have "reset_pending (bump_epoch now fg (q_class q) e)"
    by (simp add: reset_pending_def bump_epoch_def epoch_ok_def)
  moreover have "bump_epoch now fg (q_class q) e \<in> set (epochs d')"
    unfolding 1(4) using e(1,2) by force
  ultimately show ?thesis using e 1(1)
    by (intro exI [of _ h] exI [of _ "bump_epoch now fg (q_class q) e"])
      (simp add: bump_epoch_def is_epoch_def)
next
  case (2 h fg)
  then show ?thesis
    by (intro exI [of _ h] exI [of _ "new_epoch now fg q h"])
      (simp add: new_epoch_def is_epoch_def reset_pending_def)
qed

lemma accept_pull_closes:
  assumes "db_ok d0" and "canonical_repo (q_repo q)" and "find_delivery d0 i = None"
    and "accept_delivery now guard i event (PullWork q) trace d0 = Inr (d, acc)"
    and "c_installation c = q_installation q" and "c_repo c = q_repo q" and "q_head q = Some head"
  shows "accepted acc \<and> \<not> publishable d c head"
proof -
  have "keeps d0 d" using accept_delivery_keeps [OF assms(1,4)] assms(2) by (simp add: canonical_work_def)
  then have okd: "db_ok d" by (rule keeps_ok)
  from assms(3,4) obtain d1 g x where a: "advance_shared_head_epoch now q d0 = Inr (d1, g)"
    and d: "d = enqueue_in_session now q (Some i) (Some g) False True (d1\<lparr>deliveries := x\<rparr>)" and acc: "accepted acc"
    by (auto simp: accept_delivery_def first_delivery_def Let_def)
  from advance_pending [OF assms(1) a] assms(7) obtain e where
    e: "e \<in> set (epochs d1)" "is_epoch (q_installation q) (q_repo q) head e" "reset_pending e" by auto
  have "epochs (enqueue_in_session now q (Some i) (Some g) False True d2) = epochs d2" for d2
    by (simp add: enqueue_in_session_def sql_update_def Let_def wake_authority_for_interactive_def insert_job_def)
  then have "e \<in> set (epochs d)" using e(1) d by simp
  with pending_reset_not_publishable [OF okd _ e(3)] e(2) assms(5,6) acc show ?thesis by simp
qed

text \<open>Accepting a pull-request webhook closes the publication fence of its head at once: right
  after the delivery is accepted no claim whatsoever, old or new, of any pull request on
  that head may publish, until the exact-head reset of the new generation completes.\<close>

theorem accepted_delivery_closes_publication:
  assumes "reachable s" and "canonical_repo (q_repo q)" and "find_delivery (store s) i = None"
    and "accept_delivery now guard i event (PullWork q) trace (store s) = Inr (d, acc)"
    and "c_installation c = q_installation q" and "c_repo c = q_repo q" and "q_head q = Some head"
  shows "accepted acc \<and> \<not> publishable d c head"
proof -
  have "db_ok (store s)" using reachable_ok [OF assms(1)] by (simp add: sys_ok_def)
  from accept_pull_closes [OF this assms(2-7)] show ?thesis .
qed

theorem accepted_delivery_closes_publication_witness:
  "\<exists>d acc. accept_delivery 220 True ''d1'' ''push'' (PullWork sample_request) None (store sample_sys) = Inr (d, acc) \<and>
     \<not> publishable d (the (snd sample_leased)) sample_head"
proof -
  have "\<not> isl (accept_delivery 220 True ''d1'' ''push'' (PullWork sample_request) None (store sample_sys))"
    by code_simp
  then obtain d acc where
    a: "accept_delivery 220 True ''d1'' ''push'' (PullWork sample_request) None (store sample_sys) = Inr (d, acc)"
    using not_isl_Inr by (metis prod.collapse)
  have n: "find_delivery (store sample_sys) ''d1'' = None"
    "c_installation (the (snd sample_leased)) = q_installation sample_request"
    "c_repo (the (snd sample_leased)) = q_repo sample_request"
    "q_head sample_request = Some sample_head" by code_simp+
  from accepted_delivery_closes_publication [OF sample_reachable sample_canonical n(1) a n(2-4)] a
  show ?thesis by blast
qed

text \<open>C26. Only the completion of the reset opens the fence again: while a reset is pending, every
  step of the queue leaves it pending, except the completion of an exact-head reset; and
  that completion ends it only for a claim of this head and of its current generation whose
  lease is valid.\<close>

theorem only_reset_completion_reopens:
  assumes "reachable s" and "qstep s s'" and "e \<in> set (epochs (store s))" and "reset_pending e"
  shows "\<exists>e' \<in> set (epochs (store s')). epoch_key e' = epoch_key e \<and>
    (reset_pending e' \<or> (\<exists>now ch. s' = s\<lparr>store := fst (complete_shared_head_invalidation now ch (store s))\<rparr> \<and>
       holds_reset now ch e \<and> e_invalidated e' = e_generation e))"
proof -
  have ok: "sys_ok s" using assms(1) by (rule reachable_ok)
  from qstep_evolves [OF ok assms(2)] consider "keeps (store s) (store s')"
    | now ch where "s' = s\<lparr>store := fst (complete_shared_head_invalidation now ch (store s))\<rparr>"
    by (auto simp: completes_reset_def)
  then show ?thesis
  proof cases
    case 1
    with assms(3,4) show ?thesis unfolding keeps_def resets_kept_def by blast
  next
    case 2
    let ?f = "\<lambda>e. e\<lparr>e_invalidated := ch_generation ch, e_owner := None, e_lease := None, e_error := None\<rparr>"
    have es: "epochs (store s') = map (\<lambda>e. if holds_reset now ch e then ?f e else e) (epochs (store s))"
      by (simp add: 2 complete_shared_head_invalidation_def update_reset_epochs)
    show ?thesis
    proof (cases "holds_reset now ch e")
      case True
      have "?f e \<in> set (epochs (store s'))" unfolding es using assms(3) True by force
      moreover have "epoch_key (?f e) = epoch_key e" "e_invalidated (?f e) = e_generation e"
        using True by (simp_all add: epoch_key_def holds_reset_def)
      ultimately show ?thesis using 2 True by blast
    next
      case False
      then have "e \<in> set (epochs (store s'))" unfolding es using assms(3) by force
      with assms(4) show ?thesis by blast
    qed
  qed
qed

theorem only_reset_completion_reopens_witness:
  "\<exists>e' \<in> set (epochs (fst (prune_shared_head_epochs 1000 (store sample_sys)))). e_head e' = sample_head"
proof -
  have st: "qstep sample_sys (sample_sys\<lparr>store := fst (prune_shared_head_epochs 1000 (store sample_sys))\<rparr>)"
    by (rule step_prune_epochs)
  have "list_ex (\<lambda>e. reset_pending e \<and> e_head e = sample_head) (epochs (store sample_sys))" by code_simp
  then obtain e where e: "e \<in> set (epochs (store sample_sys))" "reset_pending e" "e_head e = sample_head"
    by (auto simp: list_ex_iff)
  from only_reset_completion_reopens [OF sample_reachable st e(1,2)] e(3) show ?thesis
    by (auto simp: epoch_key_def)
qed

section \<open>Scheduled rechecks\<close>

text \<open>A scheduled recheck that fails is turned into revoke-first work: if the claim still holds
  its row, failing it advances the fence of its head, so that no claim may publish until a
  reset, and the row stays pending under the revoking reason, bound to the new generation.\<close>

theorem failed_recheck_revokes_first:
  assumes "reachable s" and "c \<in> set (issued s)" and "c_reason c = SCHEDULED_RECHECK_REASON"
    and "c_head c = Some head" and "holds_evaluation worker (store s) c"
    and "fail_job now c worker err m (store s) = Inr d"
    and "c_installation c' = c_installation c" and "c_repo c' = c_repo c"
  shows "\<not> publishable d c' head \<and> (\<exists>j \<in> set (jobs d). j_id j = c_id c \<and> j_state j = Pending \<and>
    j_reason j = PERIODIC_RECONCILIATION_REASON \<and> j_head j = Some head \<and>
    j_shared j = head_generation d (c_installation c) (c_repo c) (Some head))"
proof -
  have s: "sys_ok s" using assms(1) by (rule reachable_ok)
  then have ok: "db_ok (store s)" and cok: "claim_ok (next_job_id (store s)) (jobs (store s)) c"
    using assms(2) by (auto simp: sys_ok_def)
  have canon: "canonical_repo (c_repo c)" using cok by (simp add: claim_ok_def)
  from assms(6) obtain rev b where rev: "scheduled_recheck_revocation c = Inr rev"
    and r: "release_claim now c worker rev (fail_values now (backoff (c_attempts c) m) err) (store s) = Inr (d, b)"
    by (auto simp: fail_job_def)
  have okd: "db_ok d" using fail_job_keeps [OF ok cok assms(6)] by (rule keeps_ok)
  have "rev \<noteq> None" using rev assms(3,4) by (auto simp: scheduled_recheck_revocation_def bind_result_Inl)
  then obtain q where q: "rev = Some q" by blast
  note qf = revocation_fields [OF rev [unfolded q] canon]
  let ?f = "fail_values now (backoff (c_attempts c) m) err"
  let ?d0 = "(store s)\<lparr>jobs := map (\<lambda>j. if holds_job c worker j then ?f j else j) (jobs (store s))\<rparr>"
  from ok r show ?thesis
  proof (cases rule: release_cases)
    case 1 with assms(5) show ?thesis by (simp add: holds_evaluation_def)
  next
    case 2 with q show ?thesis by simp
  next
    case (3 q' d1 g)
    then have q': "q' = q" using q by simp
    have k0: "db_ok ?d0" using update_jobs_frame_keeps [OF ok] release_values_after(1) by (blast intro: keeps_ok)
    from advance_pending [OF k0 3(4)] q' qf assms(4) obtain e where
      e: "e \<in> set (epochs d1)" "is_epoch (c_installation c) (c_repo c) head e" "reset_pending e" "e_generation e = g"
      by auto
    then have ed: "e \<in> set (epochs d)" by (simp add: 3(5))
    from find_epoch_unique [OF okd ed e(2)] have g: "head_generation d (c_installation c) (c_repo c) (Some head) = g"
      using e(4) by (simp add: head_generation_def)
    have "\<not> publishable d c' head"
      by (rule pending_reset_not_publishable [OF okd ed e(3)]) (simp add: assms(7,8) e(2))
    moreover from 3(3) obtain j where j: "j \<in> set (jobs (store s))" "holds_job c worker j" by blast
    then have jh: "j_head j = Some head" "j_id j = c_id c" "j_generation j = c_generation c"
      using cok assms(4) by (auto simp: claim_ok_def holds_job_def)
    have "?f j \<in> set (jobs d1)"
      unfolding advance_keeps(2) [OF k0 3(4)] using j by force
    then have "(?f j)\<lparr>j_reason := q_reason q, j_shared := g\<rparr> \<in> set (jobs d)"
      unfolding 3(5) q' using jh by (force simp: fail_values_def)
    ultimately show ?thesis
      using g jh qf(7) by (intro conjI bexI) (simp_all add: fail_values_def)
  qed
qed

text \<open>The recheck of the witness: complete the sample claim, reconcile a minute later, lease.\<close>

definition recheck_request :: job_request where
  "recheck_request = sample_request\<lparr>q_class := Recovery, q_observed := Some 300,
     q_reason := PERIODIC_RECONCILIATION_REASON\<rparr>"

definition completed_db :: db where
  "completed_db = fst (complete 210 (the (snd sample_leased)) ''w'' (fst sample_leased))"

definition recheck_db :: db where
  "recheck_db = fst (projr (enqueue_reconciliation_if_due (seconds 100) recheck_request 60 completed_db))"

definition recheck_leased :: "db \<times> claimed_job option" where
  "recheck_leased = claim (seconds 101) ''w'' 60 None False recheck_db"

definition recheck_sys :: sys where
  "recheck_sys = \<lparr>store = fst recheck_leased, issued = [the (snd recheck_leased), the (snd sample_leased)]\<rparr>"

lemma recheck_reachable: "reachable recheck_sys"
proof -
  let ?s1 = "sample_sys\<lparr>store := completed_db\<rparr>"
  have "qstep sample_sys ?s1"
    using step_complete [of sample_sys 210 "the (snd sample_leased)" "''w''"]
    by (simp add: completed_db_def sample_sys_def)
  with sample_reachable have r1: "reachable ?s1" by (rule reachable_step)
  have "\<not> isl (enqueue_reconciliation_if_due (seconds 100) recheck_request 60 completed_db)" by code_simp
  then obtain b where "enqueue_reconciliation_if_due (seconds 100) recheck_request 60 (store ?s1) = Inr (recheck_db, b)"
    unfolding recheck_db_def by (auto simp: isl_def split: sum.splits)
      (metis not_isl_Inr prod.collapse sum.sel(2) \<open>\<not> isl _\<close>)
  moreover have "canonical_repo (q_repo recheck_request)" by code_simp
  ultimately have "qstep ?s1 (?s1\<lparr>store := recheck_db\<rparr>)" by (rule step_reconcile)
  with r1 have r2: "reachable (?s1\<lparr>store := recheck_db\<rparr>)" by (rule reachable_step)
  have "snd recheck_leased \<noteq> None" by code_simp
  then have "claim (seconds 101) ''w'' 60 None False (store (?s1\<lparr>store := recheck_db\<rparr>)) =
      (fst recheck_leased, Some (the (snd recheck_leased)))"
    by (simp add: recheck_leased_def prod_eq_iff)
  from step_claim [OF this] r2 reachable_step show ?thesis
    by (fastforce simp: recheck_sys_def sample_sys_def)
qed

theorem failed_recheck_revokes_first_witness:
  "\<exists>d. fail_job (seconds 102) (the (snd recheck_leased)) ''w'' ''boom'' 60 (store recheck_sys) = Inr d \<and>
     \<not> publishable d (the (snd recheck_leased)) sample_head"
proof -
  let ?c = "the (snd recheck_leased)"
  have "\<not> isl (fail_job (seconds 102) ?c ''w'' ''boom'' 60 (store recheck_sys))" by code_simp
  then obtain d where d: "fail_job (seconds 102) ?c ''w'' ''boom'' 60 (store recheck_sys) = Inr d"
    using not_isl_Inr by blast
  have i: "?c \<in> set (issued recheck_sys)" by (simp add: recheck_sys_def)
  have "c_reason ?c = SCHEDULED_RECHECK_REASON" "c_head ?c = Some sample_head"
    "list_ex (holds_job ?c ''w'') (jobs (store recheck_sys))" by code_simp+
  then have c: "c_reason ?c = SCHEDULED_RECHECK_REASON" "c_head ?c = Some sample_head"
    "holds_evaluation ''w'' (store recheck_sys) ?c" by (simp_all add: holds_evaluation_def list_ex_iff)
  from failed_recheck_revokes_first [OF recheck_reachable i c d refl refl] d show ?thesis by blast
qed

end
