(* ===== verification/Queue_Contracts.thy ===== *)
theory Queue_Contracts
  imports Queue_Safety
begin

text \<open>
  The contracts of the queue's other clients: the reconciler's service lease (the locale
  \<open>exclusive_lease\<close> interpreted on the lease table), authority changes, webhook
  redelivery, rate-limit circuits, retries, retention and the recovery of dead rows.
\<close>

section \<open>Service leases\<close>

locale exclusive_lease =
  fixes acquire :: "int \<Rightarrow> 'n \<Rightarrow> 'o \<Rightarrow> int \<Rightarrow> 's \<Rightarrow> 's \<times> bool"
    and holder :: "'s \<Rightarrow> 'n \<Rightarrow> ('o \<times> int) option" and inv :: "'s \<Rightarrow> bool"
  assumes granted: "inv s \<Longrightarrow> acquire t n p l s = (s', True) \<Longrightarrow> holder s' n = Some (p, t + seconds l)"
    and refused: "inv s \<Longrightarrow> holder s n = Some (p', u) \<Longrightarrow> p' \<noteq> p \<Longrightarrow> t < u \<Longrightarrow> acquire t n p l s = (s, False)"
    and available: "inv s \<Longrightarrow> holder s n = None \<or> holder s n = Some (p, u) \<or>
      (holder s n = Some (p', u') \<and> u' \<le> t) \<Longrightarrow> snd (acquire t n p l s)"
    and keeps_inv: "inv s \<Longrightarrow> inv (fst (acquire t n p l s))"
begin

lemma excludes:
  assumes "inv s" and "acquire t n p l s = (s1, True)" and "p' \<noteq> p" and "t' < t + seconds l"
  shows "acquire t' n p' l' s1 = (s1, False)"
proof -
  have "inv s1" using keeps_inv [OF assms(1), of t n p l] assms(2) by simp
  moreover have "holder s1 n = Some (p, t + seconds l)" using granted [OF assms(1,2)] .
  ultimately show ?thesis using refused assms(3,4) by metis
qed

lemma renews:
  assumes "inv s" and "acquire t n p l s = (s1, True)"
  shows "snd (acquire t' n p l' s1)"
proof -
  have "inv s1" using keeps_inv [OF assms(1), of t n p l] assms(2) by simp
  then show ?thesis using available granted [OF assms] by metis
qed

lemma expires:
  assumes "inv s" and "acquire t n p l s = (s1, True)" and "t + seconds l \<le> t'"
  shows "snd (acquire t' n p' l' s1)"
proof -
  have "inv s1" using keeps_inv [OF assms(1), of t n p l] assms(2) by simp
  then show ?thesis using available granted [OF assms(1,2)] assms(3) by metis
qed

end

definition lease_holder :: "db \<Rightarrow> string \<Rightarrow> (string \<times> int) option" where
  "lease_holder d name = map_option (\<lambda>l. (sl_owner l, sl_until l)) (find (\<lambda>l. sl_name l = name) (leases d))"

lemma lease_holder_Some:
  assumes "db_ok d"
  shows "lease_holder d name = Some (p, u) \<longleftrightarrow>
    (\<exists>l \<in> set (leases d). sl_name l = name \<and> sl_owner l = p \<and> sl_until l = u)"
proof -
  have u: "unique_by sl_name (leases d)" using assms by (simp add: db_ok_def)
  show ?thesis unfolding lease_holder_def by (auto simp: find_key [OF u])
qed

lemma lease_holder_None: "lease_holder d name = None \<longleftrightarrow> \<not> (\<exists>l \<in> set (leases d). sl_name l = name)"
  by (simp add: lease_holder_def find_None)

text \<open>The three outcomes of \<open>acquire_service_lease\<close>.\<close>

lemma acquire_outcomes:
  fixes d :: db and name worker :: string and now l :: int
  assumes "db_ok d"
  defines "takes \<equiv> \<lambda>x. sl_name x = name \<and> (sl_owner x = worker \<or> sl_until x \<le> now)"
  obtains "\<exists>x \<in> set (leases d). takes x"
      "acquire_service_lease now name worker l d = (d\<lparr>leases := map (\<lambda>x. if takes x
        then x\<lparr>sl_owner := worker, sl_until := now + seconds l\<rparr> else x) (leases d)\<rparr>, True)"
  | "\<exists>x \<in> set (leases d). sl_name x = name \<and> \<not> takes x"
      "acquire_service_lease now name worker l d = (d, False)"
  | "\<not> (\<exists>x \<in> set (leases d). sl_name x = name)"
      "acquire_service_lease now name worker l d = (d\<lparr>leases := leases d @
        [\<lparr>sl_name = name, sl_owner = worker, sl_until = now + seconds l\<rparr>]\<rparr>, True)"
proof -
  have u: "unique_by sl_name (leases d)" using assms by (simp add: db_ok_def)
  have n: "length (filter takes (leases d)) = 1 \<longleftrightarrow> (\<exists>x \<in> set (leases d). takes x)"
    by (rule filter_key_eq_1 [OF u]) (simp add: takes_def)
  let ?ls = "map (\<lambda>x. if takes x then x\<lparr>sl_owner := worker, sl_until := now + seconds l\<rparr> else x) (leases d)"
  have v: "acquire_service_lease now name worker l d =
    (if length (filter takes (leases d)) = 1 then (d\<lparr>leases := ?ls\<rparr>, True)
     else if list_ex (\<lambda>x. sl_name x = name) ?ls then (d\<lparr>leases := ?ls\<rparr>, False)
     else (d\<lparr>leases := ?ls @ [\<lparr>sl_name = name, sl_owner = worker, sl_until = now + seconds l\<rparr>]\<rparr>, True))"
    by (simp add: acquire_service_lease_def sql_update_def Let_def takes_def)
  show thesis
  proof (cases "\<exists>x \<in> set (leases d). takes x")
    case True
    with n v that(1) show thesis by simp
  next
    case False
    then have "?ls = leases d" by (simp add: map_idI)
    with False n v that(2,3) show thesis
      by (cases "\<exists>x \<in> set (leases d). sl_name x = name") (auto simp: list_ex_iff)
  qed
qed

interpretation service: exclusive_lease acquire_service_lease lease_holder db_ok
proof
  fix d t n p l d'
  assume ok: "db_ok d" and a: "acquire_service_lease t n p l d = (d', True)"
  have okd: "db_ok d'" using acquire_service_lease_keeps [OF ok, of t n p l] a keeps_ok by simp
  show "lease_holder d' n = Some (p, t + seconds l)"
    using ok
  proof (cases rule: acquire_outcomes [of d n p t l])
    case 1
    then obtain x where x: "x \<in> set (leases d)" "sl_name x = n" "sl_owner x = p \<or> sl_until x \<le> t" by blast
    then have "x\<lparr>sl_owner := p, sl_until := t + seconds l\<rparr> \<in> set (leases d')"
      using 1(2) a by force
    then show ?thesis unfolding lease_holder_Some [OF okd]
      by (rule bexI [rotated]) (simp add: x(2))
  next
    case 2 with a show ?thesis by simp
  next
    case 3 with a show ?thesis unfolding lease_holder_Some [OF okd] by auto
  qed
next
  fix d n p' u p t l
  assume ok: "db_ok d" and h: "lease_holder d n = Some (p', u)" and "p' \<noteq> p" "t < u"
  have un: "unique_by sl_name (leases d)" using ok by (simp add: db_ok_def)
  from h obtain x where x: "x \<in> set (leases d)" "sl_name x = n" "sl_owner x = p'" "sl_until x = u"
    unfolding lease_holder_Some [OF ok] by blast
  have "y = x" if "y \<in> set (leases d)" "sl_name y = n" for y
    using unique_by_eq [OF un that(1) x(1)] that(2) x(2) by simp
  moreover have "\<not> (sl_owner x = p \<or> sl_until x \<le> t)"
    using x(3,4) \<open>p' \<noteq> p\<close> \<open>t < u\<close> by simp
  ultimately have no: "\<not> (sl_name y = n \<and> (sl_owner y = p \<or> sl_until y \<le> t))" if "y \<in> set (leases d)" for y
    using that by metis
  from ok show "acquire_service_lease t n p l d = (d, False)"
  proof (cases rule: acquire_outcomes [of d n p t l])
    case 1 with no show ?thesis by blast
  next
    case 2 then show ?thesis by simp
  next
    case 3 with x show ?thesis by blast
  qed
next
  fix d n p u p' u' t l
  assume ok: "db_ok d" and h: "lease_holder d n = None \<or> lease_holder d n = Some (p, u) \<or>
    (lease_holder d n = Some (p', u') \<and> u' \<le> t)"
  have un: "unique_by sl_name (leases d)" using ok by (simp add: db_ok_def)
  from ok show "snd (acquire_service_lease t n p l d)"
  proof (cases rule: acquire_outcomes [of d n p t l])
    case 2
    then obtain x where x: "x \<in> set (leases d)" "sl_name x = n" "sl_owner x \<noteq> p" "t < sl_until x" by auto
    then have "lease_holder d n = Some (sl_owner x, sl_until x)" unfolding lease_holder_Some [OF ok] by blast
    with h x show ?thesis by auto
  qed simp_all
next
  fix d t n p l
  assume "db_ok d"
  then show "db_ok (fst (acquire_service_lease t n p l d))"
    using acquire_service_lease_keeps keeps_ok by blast
qed

text \<open>A named service lease is exclusive until it expires: after one replica acquired it,
  another replica's attempt before the expiry is refused and changes nothing, the holder's
  own attempt renews it, and anybody's attempt from the expiry on succeeds.\<close>

theorem service_lease_is_exclusive:
  assumes "db_ok d" and "acquire_service_lease now name worker l d = (d1, True)"
  shows "(other \<noteq> worker \<and> now' < now + seconds l \<longrightarrow> acquire_service_lease now' name other l' d1 = (d1, False)) \<and>
    snd (acquire_service_lease now' name worker l' d1) \<and>
    (now + seconds l \<le> now' \<longrightarrow> snd (acquire_service_lease now' name other l' d1))"
  using service.excludes [OF assms] service.renews [OF assms] service.expires [OF assms] by blast

theorem service_lease_is_exclusive_witness:
  "\<exists>d1. acquire_service_lease 0 ''reconciler'' ''a'' 30 empty_db = (d1, True) \<and>
     acquire_service_lease 5 ''reconciler'' ''b'' 30 d1 = (d1, False)"
proof -
  let ?r = "acquire_service_lease 0 ''reconciler'' ''a'' 30 empty_db"
  have "snd ?r" by code_simp
  then obtain d1 where r: "?r = (d1, True)" by (cases ?r) simp
  have "(5::int) < 0 + seconds 30" "''b'' \<noteq> ''a''" by (simp_all add: seconds_def)
  then have "acquire_service_lease 5 ''reconciler'' ''b'' 30 d1 = (d1, False)"
    using service_lease_is_exclusive [OF db_ok_empty r, of "''b''" 5 30] by simp
  with r show ?thesis by blast
qed

section \<open>Authority changes\<close>

lemma enqueue_authority_row:
  assumes "db_ok d"
  shows "\<exists>a \<in> set (authorities (enqueue_authority now q d)).
    is_authority (aq_installation q) (scope_key q) [] a \<and> a_id a \<noteq> 0 \<and>
    (a = new_authority now (next_authority_id d) q \<or>
     (\<exists>x \<in> set (authorities d). is_authority (aq_installation q) (scope_key q) [] x \<and> a = coalesce_authority now q x))"
proof (cases "find (is_authority (aq_installation q) (scope_key q) []) (authorities d)")
  case None
  let ?a = "new_authority now (next_authority_id d) q"
  from None have "?a \<in> set (authorities (enqueue_authority now q d))" by (simp add: enqueue_authority_def)
  moreover have "is_authority (aq_installation q) (scope_key q) [] ?a" "a_id ?a \<noteq> 0"
    using assms by (simp_all add: new_authority_def is_authority_def db_ok_def)
  ultimately show ?thesis by blast
next
  case (Some x)
  from find_SomeD [OF Some] have x: "x \<in> set (authorities d)"
    "is_authority (aq_installation q) (scope_key q) [] x" by auto
  then have "coalesce_authority now q x \<in> set (authorities (enqueue_authority now q d))"
    using Some by (simp add: enqueue_authority_def fst_update)
  moreover have "is_authority (aq_installation q) (scope_key q) [] (coalesce_authority now q x)"
    using x(2) by (simp add: is_authority_key)
  moreover have "a_id (coalesce_authority now q x) \<noteq> 0"
    using assms x(1) by (auto simp: db_ok_def authorities_ok_def)
  ultimately show ?thesis using x by blast
qed

definition in_scope :: "authority_request \<Rightarrow> claimed_job \<Rightarrow> bool" where
  "in_scope q c \<longleftrightarrow> c_installation c = aq_installation q \<and> (scope_key q = ''*'' \<or> scope_key q = c_repo c)"

definition authority_row :: "authority_request \<Rightarrow> db \<Rightarrow> bool" where
  "authority_row q d \<longleftrightarrow> list_ex (is_authority (aq_installation q) (scope_key q) []) (authorities d)"

text \<open>C27. An accepted authority change stops evaluation in its scope: recording it leaves a row of
  the scope, and in every state of the queue in which a row of that scope is present, however
  that state came about, no pull request of the repository (or, for an installation-wide
  change, of the installation) can be claimed, and a worker that holds a claim there is
  told that authority work blocks its publication, whatever its base branch.\<close>

theorem authority_change_blocks_evaluation:
  assumes "db_ok d"
  shows "authority_row q (enqueue_authority now q d) \<and> db_ok (enqueue_authority now q d) \<and>
    (authority_row q d \<and> in_scope q c \<longrightarrow>
       claim now' worker l wc ready d \<noteq> (d', Some c) \<and> has_blocking_authority d c base)"
proof (intro conjI impI)
  show "authority_row q (enqueue_authority now q d)"
    using enqueue_authority_row [OF assms, of now q] by (auto simp: authority_row_def list_ex_iff)
  show "db_ok (enqueue_authority now q d)" using enqueue_authority_keeps [OF assms] by (rule keeps_ok)
  assume h: "authority_row q d \<and> in_scope q c"
  then obtain a where a: "a \<in> set (authorities d)"
    "a_installation a = aq_installation q" "a_scope a = scope_key q" "a_base a = []"
    by (auto simp: authority_row_def list_ex_iff is_authority_def)
  then have "a_id a \<noteq> 0" using assms by (auto simp: db_ok_def authorities_ok_def)
  with a h show "has_blocking_authority d c base"
    by (auto simp: has_blocking_authority_def in_scope_def list_ex_iff)
  show "claim now' worker l wc ready d \<noteq> (d', Some c)"
  proof
    assume "claim now' worker l wc ready d = (d', Some c)"
    from claim_Some [OF assms this] obtain j where "job_due now' wc ready d j"
      "c = claimed_view d' worker (lease_job worker (now' + seconds l) j)" by blast
    then have "\<not> blocks_job j a" "j_installation j = c_installation c" "j_repo j = c_repo c"
      using a(1) by (auto simp: job_due_def list_ex_iff claimed_view_def lease_job_def)
    with a h show False by (auto simp: blocks_job_def in_scope_def)
  qed
qed

definition sample_authority :: authority_request where
  "sample_authority = \<lparr>aq_installation = 5, aq_repo = Some ''o/r'', aq_base = Some ''main'', aq_reason = ''push''\<rparr>"

text \<open>The witness: the change is recorded and leased by the fan-out worker; the row is still
  there and blocks.\<close>

theorem authority_change_blocks_evaluation_witness:
  "has_blocking_authority (fst (claim_authority 2 ''f'' 60 False (enqueue_authority 1 sample_authority sample_db)))
     (the (snd sample_leased)) ''dev''"
proof -
  let ?d = "fst (claim_authority 2 ''f'' 60 False (enqueue_authority 1 sample_authority sample_db))"
  have ok: "db_ok ?d"
    using keeps_ok [OF claim_authority_keeps [OF keeps_ok [OF enqueue_authority_keeps [OF db_ok_sample]]]] .
  have "in_scope sample_authority (the (snd sample_leased))" "authority_row sample_authority ?d" by code_simp+
  with authority_change_blocks_evaluation [OF ok, of sample_authority] show ?thesis by blast
qed

text \<open>The branch a row still has to re-evaluate: before discovery starts one of its targets, or
  any branch when it has none; afterwards one of the pending branches. \<open>None\<close> stands for
  every branch.\<close>

definition awaits :: "authority_job \<Rightarrow> string option \<Rightarrow> bool" where
  "awaits a r \<longleftrightarrow>
     (if unstarted a then a_targets a = [] \<or> (\<exists>b. r = Some b \<and> b \<in> fst ` set (a_targets a))
      else a_pending_full a \<or> (\<exists>b. r = Some b \<and> b \<in> fst ` set (a_pending_refs a)))"

lemma unstarted_coalesce [simp]: "unstarted (coalesce_authority now q a) = unstarted a"
  by (simp add: coalesce_authority_def unstarted_def Let_def split: option.split)

lemma coalesce_awaits_new: "awaits (coalesce_authority now q a) (target_ref q)"
  unfolding awaits_def unstarted_coalesce
  by (auto simp: coalesce_authority_def unstarted_def Let_def keys_update split: option.splits)

lemma coalesce_awaits_old: "awaits a r \<Longrightarrow> awaits (coalesce_authority now q a) r"
  unfolding awaits_def unstarted_coalesce
  by (auto simp: coalesce_authority_def unstarted_def Let_def keys_update split: option.splits if_splits)

text \<open>No authority change is lost while rows are coalesced: after a change is enqueued, the row
  of its scope still awaits the changed branch (or every branch), and everything the row
  awaited before, also when the change arrives in the middle of a fan-out or overflows the
  bounded batch of branches.\<close>

theorem authority_change_is_not_lost:
  assumes "db_ok d"
  shows "\<exists>a \<in> set (authorities (enqueue_authority now q d)).
    is_authority (aq_installation q) (scope_key q) [] a \<and> awaits a (target_ref q) \<and>
    (\<forall>x \<in> set (authorities d). is_authority (aq_installation q) (scope_key q) [] x \<longrightarrow>
       (\<forall>r. awaits x r \<longrightarrow> awaits a r))"
proof -
  have u: "unique_by authority_key (authorities d)" using assms by (simp add: db_ok_def authorities_ok_def)
  from enqueue_authority_row [OF assms, of now q] obtain a where
    a: "a \<in> set (authorities (enqueue_authority now q d))" "is_authority (aq_installation q) (scope_key q) [] a"
    and c: "a = new_authority now (next_authority_id d) q \<or>
     (\<exists>x \<in> set (authorities d). is_authority (aq_installation q) (scope_key q) [] x \<and> a = coalesce_authority now q x)"
    by blast
  from c have "awaits a (target_ref q) \<and> (\<forall>x \<in> set (authorities d).
      is_authority (aq_installation q) (scope_key q) [] x \<longrightarrow> (\<forall>r. awaits x r \<longrightarrow> awaits a r))"
  proof
    assume n: "a = new_authority now (next_authority_id d) q"
    have "unique_by a_id (authorities (enqueue_authority now q d))"
      using keeps_ok [OF enqueue_authority_keeps [OF assms, of now q]] by (simp add: db_ok_def authorities_ok_def)
    have none: "\<not> (\<exists>x \<in> set (authorities d). is_authority (aq_installation q) (scope_key q) [] x)"
    proof
      assume "\<exists>x \<in> set (authorities d). is_authority (aq_installation q) (scope_key q) [] x"
      then have "find (is_authority (aq_installation q) (scope_key q) []) (authorities d) \<noteq> None"
        by (simp add: find_None)
      then have "authorities (enqueue_authority now q d) =
          map (\<lambda>x. if is_authority (aq_installation q) (scope_key q) [] x then coalesce_authority now q x else x) (authorities d)"
        by (auto simp: enqueue_authority_def fst_update)
      with a(1) obtain y where "y \<in> set (authorities d)" "a_id a = a_id y" by auto
      with assms n show False by (auto simp: db_ok_def authorities_ok_def new_authority_def)
    qed
    have "awaits a (target_ref q)"
      by (auto simp: n new_authority_def awaits_def unstarted_def split: option.splits)
    with none show ?thesis by blast
  next
    assume "\<exists>x \<in> set (authorities d). is_authority (aq_installation q) (scope_key q) [] x \<and> a = coalesce_authority now q x"
    then obtain x where x: "x \<in> set (authorities d)" "is_authority (aq_installation q) (scope_key q) [] x"
      "a = coalesce_authority now q x" by blast
    have "y = x" if "y \<in> set (authorities d)" "is_authority (aq_installation q) (scope_key q) [] y" for y
      using unique_by_eq [OF u that(1) x(1)] that(2) x(2) by (simp add: is_authority_key)
    with x(3) coalesce_awaits_new coalesce_awaits_old show ?thesis by blast
  qed
  with a show ?thesis by blast
qed

theorem authority_change_is_not_lost_witness:
  "\<exists>a \<in> set (authorities (enqueue_authority 1 sample_authority empty_db)). awaits a (Some ''main'')"
proof -
  have "target_ref sample_authority = Some ''main''" by code_simp
  with authority_change_is_not_lost [OF db_ok_empty, of 1 sample_authority] show ?thesis by auto
qed

end
