(* ===== verification/Queue_Recovery.thy ===== *)
theory Queue_Recovery
  imports Queue_Contracts
begin

text \<open>
  What the queue promises when things go wrong: a redelivered webhook changes nothing, a
  failed attempt is retried after a bounded delay, an authority change that arrives in the
  middle of a fan-out starts another one, a rate limit stops every claim it covers, and
  dead rows are recovered up to the limit.
\<close>

section \<open>Redelivery\<close>

lemma authority_deliveries [simp]:
  "deliveries (enqueue_authority now q d) = deliveries d"
  "deliveries (bump_authority_epoch now inst d) = deliveries d"
  by (simp_all add: enqueue_authority_def bump_authority_epoch_def Let_def split: option.split prod.split)

definition request_identity :: "job_request \<Rightarrow> int \<times> string \<times> int \<times> string option" where
  "request_identity q = (q_installation q, q_repo q, q_pull q, q_head q)"

text \<open>The pull-request work of one identity, as a replay compares it.\<close>

definition same_work :: "webhook_request \<Rightarrow> job_request \<Rightarrow> bool" where
  "same_work w q \<longleftrightarrow> (case w of PullWork p \<Rightarrow> request_identity p = request_identity q | _ \<Rightarrow> False)"

definition unmarked :: "delivery \<Rightarrow> delivery" where
  "unmarked x = x\<lparr>d_completed := None\<rparr>"

lemma first_delivery_row:
  assumes "first_delivery now i event w trace d = Inr (d', acc)"
  shows "accepted acc \<and> (\<exists>x \<in> set (deliveries d'). d_id x = i \<and> d_event x = event \<and>
    d_shared x = da_shared acc \<and> \<not> legacy_identity x \<and> (\<forall>q. same_identity x q \<longleftrightarrow> same_work w q))"
proof (cases w)
  case (PullWork q)
  then obtain d1 g where "advance_shared_head_epoch now q d = Inr (d1, g)"
    and e: "d' = enqueue_in_session now q (Some i) (Some g) False True (d1\<lparr>deliveries := deliveries d1 @
      [(new_delivery now i event True trace)\<lparr>d_installation := Some (q_installation q), d_repo := Some (q_repo q),
        d_pull := Some (q_pull q), d_head := q_head q, d_shared := Some g\<rparr>]\<rparr>)"
    and acc: "acc = \<lparr>accepted = True, da_shared = Some g\<rparr>"
    using assms by (auto simp: first_delivery_def Let_def is_pull_work_def)
  have keep: "deliveries (enqueue_in_session now q s g p w x) = deliveries x" for s g p w x
    by (simp add: enqueue_in_session_def insert_job_def wake_authority_for_interactive_def Let_def split: prod.split)
  show ?thesis unfolding e keep acc PullWork
    by (auto simp: new_delivery_def same_identity_def legacy_identity_def same_work_def request_identity_def)
next
  case (AuthorityWork q)
  with assms show ?thesis
    by (auto simp: first_delivery_def Let_def new_delivery_def is_pull_work_def same_identity_def
        legacy_identity_def same_work_def)
next
  case NoWork
  with assms show ?thesis
    by (auto simp: first_delivery_def Let_def new_delivery_def is_pull_work_def same_identity_def
        legacy_identity_def same_work_def)
qed

lemma find_delivery_unique:
  assumes "db_ok d" and "x \<in> set (deliveries d)" and "d_id x = i"
  shows "find_delivery d i = Some x"
  using assms by (auto simp: find_delivery_def db_ok_def find_key)

lemma unmarked_eq:
  assumes "unmarked y = unmarked x"
  shows "d_event y = d_event x" and "d_shared y = d_shared x" and "d_required y = d_required x"
    and "d_installation y = d_installation x" and "d_repo y = d_repo x" and "d_pull y = d_pull x"
    and "d_head y = d_head x"
proof -
  have "f (unmarked y) = f (unmarked x)" for f :: "delivery \<Rightarrow> 'b" using assms by simp
  from this [of d_event] this [of d_shared] this [of d_required] this [of d_installation] this [of d_repo]
    this [of d_pull] this [of d_head]
  show "d_event y = d_event x" "d_shared y = d_shared x" "d_required y = d_required x"
    "d_installation y = d_installation x" "d_repo y = d_repo x" "d_pull y = d_pull x" "d_head y = d_head x"
    by (simp_all add: unmarked_def)
qed

lemma find_map_key: "(\<And>x. P (f x) = P x) \<Longrightarrow> find P (map f xs) = map_option f (find P xs)"
  by (induction xs) auto

lemma mark_delivery_keeps_row:
  "map_option unmarked (find_delivery (fst (mark_delivery_invalidated t j d)) i) = map_option unmarked (find_delivery d i)"
proof -
  have f: "find_delivery (fst (mark_delivery_invalidated t j d)) i = map_option
      (\<lambda>x. if d_id x = j \<and> d_required x \<and> d_completed x = None then x\<lparr>d_completed := Some t\<rparr> else x) (find_delivery d i)"
    unfolding find_delivery_def mark_delivery_invalidated_def sql_update_def Let_def
    by (simp add: find_map_key)
  show ?thesis unfolding f by (cases "find_delivery d i") (simp_all add: unmarked_def)
qed

text \<open>C28. A redelivered webhook is idempotent. As long as the row of an accepted delivery is there,
  whether or not its reset has been marked completed in the meantime, any later delivery with
  its id leaves the database as it is, whatever the rest of the database has become: with the
  same event, and no pull-request work or the work of the same pull request and head, it
  reports that nothing was accepted and returns the generation of the first acceptance; with
  another event, with pull-request work of any other identity (also when the first delivery
  carried none), or with authority work whose guard could not be taken, it is an error.\<close>

theorem redelivery_is_idempotent:
  assumes "db_ok d" and "canonical_work w" and "find_delivery d i = None"
    and "accept_delivery now guard i event w trace d = Inr (d1, acc)"
    and "map_option unmarked (find_delivery d2 i) = map_option unmarked (find_delivery d1 i)"
  shows "accepted acc \<and> accept_delivery now' guard' i event' w' trace' d2 =
    (if (\<exists>q. w' = AuthorityWork q) \<and> \<not> guard'
     then Inl (RuntimeError ''timed out waiting to record an authority change'')
     else if event' \<noteq> event
     then Inl (RuntimeError ''accepted delivery ID was replayed with a different event'')
     else if \<exists>q. w' = PullWork q \<and> \<not> same_work w q
     then Inl (RuntimeError ''accepted delivery ID was replayed with different pull-request identity'')
     else Inr (d2, \<lparr>accepted = False, da_shared = da_shared acc\<rparr>))"
proof -
  from assms(3,4) have f: "first_delivery now i event w trace d = Inr (d1, acc)"
    by (auto simp: accept_delivery_def split: if_splits)
  have ok: "db_ok d1" using accept_delivery_keeps [OF assms(1,4,2)] by (rule keeps_ok)
  from first_delivery_row [OF f] obtain x where x: "x \<in> set (deliveries d1)" "d_id x = i" "d_event x = event"
    "d_shared x = da_shared acc" "\<not> legacy_identity x" "\<And>q. same_identity x q \<longleftrightarrow> same_work w q"
    and acc: "accepted acc" by blast
  from assms(5) obtain y where y: "find_delivery d2 i = Some y" "unmarked y = unmarked x"
    unfolding find_delivery_unique [OF ok x(1,2)] by auto
  note e = unmarked_eq [OF y(2)]
  have s: "d_event y = event" "d_shared y = da_shared acc" "\<not> legacy_identity y"
    "same_identity y q \<longleftrightarrow> same_work w q" for q
    using e x(3-5) x(6) [of q] by (simp_all add: legacy_identity_def same_identity_def)
  show ?thesis using acc
    by (auto simp: accept_delivery_def y(1) replayed_delivery_def s split: webhook_request.split)
qed

text \<open>The witness: the delivery is accepted, its reset is marked completed, and the same webhook
  arrives again.\<close>

theorem redelivery_is_idempotent_witness:
  "\<exists>d1 acc. accept_delivery 1 True ''x1'' ''pull_request'' (PullWork sample_request) None empty_db = Inr (d1, acc) \<and>
     snd (mark_delivery_invalidated 2 ''x1'' d1) \<and>
     accept_delivery 3 True ''x1'' ''pull_request'' (PullWork sample_request) None (fst (mark_delivery_invalidated 2 ''x1'' d1))
       = Inr (fst (mark_delivery_invalidated 2 ''x1'' d1), \<lparr>accepted = False, da_shared = da_shared acc\<rparr>)"
proof -
  let ?r = "accept_delivery 1 True ''x1'' ''pull_request'' (PullWork sample_request) None empty_db"
  have "case ?r of Inl _ \<Rightarrow> False | Inr (d1, _) \<Rightarrow> snd (mark_delivery_invalidated 2 ''x1'' d1)" by code_simp
  then obtain d1 acc where r: "?r = Inr (d1, acc)" "snd (mark_delivery_invalidated 2 ''x1'' d1)"
    by (auto split: sum.splits)
  have c: "canonical_work (PullWork sample_request)" "find_delivery empty_db ''x1'' = None" by code_simp+
  have "same_work (PullWork sample_request) sample_request" by (simp add: same_work_def)
  then show ?thesis using redelivery_is_idempotent [OF db_ok_empty c r(1) mark_delivery_keeps_row] r by auto
qed

section \<open>Retries\<close>

lemma backoff_bounds: "1 \<le> backoff n m" "backoff n m \<le> max 1 m" "backoff n m \<le> max 1 (2 ^ nat (min n 30))"
  by (simp_all add: backoff_def)

lemma advance_jobs: "advance_shared_head_epoch now q d = Inr (d', g) \<Longrightarrow> jobs d' = jobs d"
  by (auto simp: advance_shared_head_epoch_def Let_def split_def split: if_splits option.splits)

lemma released_row:
  assumes "db_ok d" and "release_claim now c worker revocation f d = Inr (d', b)"
    and "holds_evaluation worker d c" and "\<And>j. j_id (f j) = j_id j"
  shows "\<exists>j \<in> set (jobs d). \<exists>j' \<in> set (jobs d'). holds_job c worker j \<and>
    (j' = f j \<or> (\<exists>r g. j' = (f j)\<lparr>j_reason := r, j_shared := g\<rparr>))"
  using assms(1,2)
proof (cases rule: release_cases)
  case 1 with assms(3) show ?thesis by (simp add: holds_evaluation_def)
next
  case 2
  then obtain j where j: "j \<in> set (jobs d)" "holds_job c worker j" by blast
  then have "f j \<in> set (jobs d')" unfolding 2(4) by force
  with j show ?thesis by blast
next
  case (3 q d1 g)
  then obtain j where j: "j \<in> set (jobs d)" "holds_job c worker j" by blast
  let ?d0 = "d\<lparr>jobs := map (\<lambda>j. if holds_job c worker j then f j else j) (jobs d)\<rparr>"
  have same: "jobs d1 = jobs ?d0"
    using 3(4) by (rule advance_jobs)
  have "f j \<in> set (jobs d1)" unfolding same using j by force
  then have "f j \<in> set (jobs d') \<or> (f j)\<lparr>j_reason := q_reason q, j_shared := g\<rparr> \<in> set (jobs d')"
    unfolding 3(5) by force
  with j show ?thesis by blast
qed

text \<open>What may keep an available row from a worker of the service: an authority change in its
  scope, a rate limit that covers it, a reset of its head that has not completed, or another
  class of work being asked for. The worker always claims with \<open>require_shared_head_ready\<close>.\<close>

definition unhindered :: "int \<Rightarrow> work_class option \<Rightarrow> db \<Rightarrow> job \<Rightarrow> bool" where
  "unhindered t wc d j \<longleftrightarrow> \<not> list_ex (blocks_job j) (authorities d) \<and>
     provider_available d (j_installation j) t \<and> \<not> reset_pending_for d j \<and> (wc = None \<or> wc = Some (j_class j))"

lemma unhindered_row_is_claimed:
  assumes "db_ok d" and "j \<in> set (jobs d)" and "j_state j = Pending" and "j_lease j = None"
    and "j_available j \<le> t" and "unhindered t wc d j"
  shows "\<exists>d' c'. claim t worker l wc True d = (d', Some c') \<and>
    (\<exists>x \<in> set (jobs d). j_id x = c_id c' \<and> job_due t wc True d x \<and>
       (j_available x, j_id x) \<le> (j_available j, j_id j))"
proof -
  have due: "job_due t wc True d j"
    using assms(3-6) by (auto simp: job_due_def lease_free_def unhindered_def split: option.split)
  from claim_due [OF assms(1,2) due] obtain d' c' where c: "claim t worker l wc True d = (d', Some c')"
    by (metis option.exhaust prod.collapse)
  from claim_Some [OF assms(1) c] obtain x where x: "x \<in> set (jobs d)" "job_due t wc True d x"
    "\<And>y. y \<in> set (jobs d) \<Longrightarrow> job_due t wc True d y \<Longrightarrow> (j_available x, j_id x) \<le> (j_available y, j_id y)"
    "c' = claimed_view d' worker (lease_job worker (t + seconds l) x)" by blast
  then have "j_id x = c_id c'" by (simp add: claimed_view_def lease_job_def)
  with c x(1,2) x(3) [OF assms(2) due] show ?thesis by blast
qed

text \<open>C29. A failed evaluation is retried, after a bounded delay and without a limit on attempts: if
  the claim still holds its row, the row stays in the queue with its pull request, pending and
  unleased, and becomes available no earlier than a second and no later than
  \<open>max_delay\<close> seconds (at least one) after the failure; unless it was a scheduled recheck the
  release cannot fail. In every later state that still has this row, from the end of the
  delay on, the service's claim of its class or of any class returns work unless an
  authority change, a rate limit or an unfinished reset hinders the row: this row,
  or one that is due too and has been available for at least as long.\<close>

theorem failed_attempt_is_retried:
  assumes "db_ok d" and "claim_ok (next_job_id d) (jobs d) c" and "holds_evaluation worker d c"
  shows "(c_reason c \<noteq> SCHEDULED_RECHECK_REASON \<longrightarrow> \<not> isl (fail_job now c worker err m d)) \<and>
    (\<forall>d'. fail_job now c worker err m d = Inr d' \<longrightarrow>
      (\<exists>j \<in> set (jobs d'). j_id j = c_id c \<and> job_key j = (c_installation c, c_repo c, c_pull c) \<and>
        j_state j = Pending \<and> j_owner j = None \<and> j_lease j = None \<and>
        now + seconds 1 \<le> j_available j \<and> j_available j \<le> now + seconds (max 1 m) \<and>
        (\<forall>d2 t wc worker' l. db_ok d2 \<and> j \<in> set (jobs d2) \<and> now + seconds (max 1 m) \<le> t \<and> unhindered t wc d2 j \<longrightarrow>
          (\<exists>d3 c'. claim t worker' l wc True d2 = (d3, Some c') \<and>
             (\<exists>x \<in> set (jobs d2). j_id x = c_id c' \<and> job_due t wc True d2 x \<and>
                (j_available x, j_id x) \<le> (j_available j, j_id j))))))"
proof (intro conjI impI allI)
  assume "c_reason c \<noteq> SCHEDULED_RECHECK_REASON"
  then have "scheduled_recheck_revocation c = Inr None" by (simp add: scheduled_recheck_revocation_def)
  then show "\<not> isl (fail_job now c worker err m d)"
    by (simp add: fail_job_def release_claim_def Let_def split: prod.split)
next
  fix d' assume f: "fail_job now c worker err m d = Inr d'"
  let ?f = "fail_values now (backoff (c_attempts c) m) err"
  from f obtain rev b where "release_claim now c worker rev ?f d = Inr (d', b)"
    by (auto simp: fail_job_def)
  from released_row [OF assms(1) this assms(3)] obtain j j' where
    j: "j \<in> set (jobs d)" "holds_job c worker j" and j': "j' \<in> set (jobs d')"
    "j' = ?f j \<or> (\<exists>r g. j' = (?f j)\<lparr>j_reason := r, j_shared := g\<rparr>)"
    by (auto simp: fail_values_def)
  have k: "job_key j = (c_installation c, c_repo c, c_pull c)"
    using assms(2) j by (auto simp: claim_ok_def holds_job_def)
  have row: "j_id j' = c_id c" "job_key j' = job_key j" "j_state j' = Pending" "j_owner j' = None"
    "j_lease j' = None" "j_available j' = now + seconds (backoff (c_attempts c) m)"
    using j(2) j'(2) by (auto simp: holds_job_def fail_values_def job_key_def)
  then have b: "now + seconds 1 \<le> j_available j'" "j_available j' \<le> now + seconds (max 1 m)"
    using backoff_bounds(1,2) [of "c_attempts c" m] by (simp_all add: seconds_def)
  have "\<exists>d3 c'. claim t w l wc True d2 = (d3, Some c') \<and> (\<exists>x \<in> set (jobs d2). j_id x = c_id c' \<and>
      job_due t wc True d2 x \<and> (j_available x, j_id x) \<le> (j_available j', j_id j'))"
    if "db_ok d2 \<and> j' \<in> set (jobs d2) \<and> now + seconds (max 1 m) \<le> t \<and> unhindered t wc d2 j'" for d2 t wc w l
    using that b(2) row(3,5) by (intro unhindered_row_is_claimed) auto
  with j'(1) row(1-5) k b show "\<exists>j \<in> set (jobs d'). j_id j = c_id c \<and>
      job_key j = (c_installation c, c_repo c, c_pull c) \<and> j_state j = Pending \<and> j_owner j = None \<and>
      j_lease j = None \<and> now + seconds 1 \<le> j_available j \<and> j_available j \<le> now + seconds (max 1 m) \<and>
      (\<forall>d2 t wc worker' l. db_ok d2 \<and> j \<in> set (jobs d2) \<and> now + seconds (max 1 m) \<le> t \<and> unhindered t wc d2 j \<longrightarrow>
          (\<exists>d3 c'. claim t worker' l wc True d2 = (d3, Some c') \<and>
             (\<exists>x \<in> set (jobs d2). j_id x = c_id c' \<and> job_due t wc True d2 x \<and>
                (j_available x, j_id x) \<le> (j_available j, j_id j))))"
    by (intro bexI [where x = j']) simp_all
qed

text \<open>The sample pull request after the reset of its head has completed, and its claim.\<close>

definition ready_db :: db where
  "ready_db = (let (d, h) = claim_shared_head_invalidation 110 ''r'' 60 None sample_db in
     fst (complete_shared_head_invalidation 120 (the h) d))"

definition ready_leased :: "db \<times> claimed_job option" where
  "ready_leased = claim 200 ''w'' 60 None True ready_db"

lemma ready_leased_ok:
  "db_ok (fst ready_leased)"
  "claim_ok (next_job_id (fst ready_leased)) (jobs (fst ready_leased)) (the (snd ready_leased))"
proof -
  have "db_ok (fst (claim_shared_head_invalidation 110 ''r'' 60 None sample_db))"
    using claim_head_keeps [OF db_ok_sample] by (rule keeps_ok)
  then have ok: "db_ok ready_db"
    unfolding ready_db_def case_prod_beta Let_def by (rule evolves_ok [OF complete_reset_evolves])
  show "db_ok (fst ready_leased)" unfolding ready_leased_def using claim_keeps [OF ok] by (rule keeps_ok)
  have "snd ready_leased \<noteq> None" by code_simp
  then show "claim_ok (next_job_id (fst ready_leased)) (jobs (fst ready_leased)) (the (snd ready_leased))"
    unfolding ready_leased_def by (intro claim_issues_ok [OF ok]) (auto simp: prod_eq_iff)
qed

theorem failed_attempt_is_retried_witness:
  "\<exists>d' d3 c'. fail_job 300 (the (snd ready_leased)) ''w'' ''boom'' 60 (fst ready_leased) = Inr d' \<and>
     claim (300 + seconds 60) ''v'' 60 (Some Interactive) True d' = (d3, Some c') \<and> c_id c' = c_id (the (snd ready_leased))"
proof -
  let ?c = "the (snd ready_leased)" let ?t = "300 + seconds 60"
  let ?f = "fail_job 300 ?c ''w'' ''boom'' 60 (fst ready_leased)"
  have "list_ex (holds_job ?c ''w'') (jobs (fst ready_leased))" by code_simp
  then have h: "holds_evaluation ''w'' (fst ready_leased) ?c" by (simp add: holds_evaluation_def list_ex_iff)
  have "case ?f of Inl _ \<Rightarrow> False | Inr d' \<Rightarrow>
      list_all (\<lambda>j. unhindered ?t (Some Interactive) d' j \<and> j_id j = c_id ?c) (jobs d')" by code_simp
  then obtain d' where f: "?f = Inr d'"
    and u: "\<forall>j \<in> set (jobs d'). unhindered ?t (Some Interactive) d' j \<and> j_id j = c_id ?c"
    by (auto split: sum.splits simp: list_all_iff)
  have ok: "db_ok d'" using fail_job_keeps [OF ready_leased_ok f] by (rule keeps_ok)
  have m: "max 1 60 = (60::int)" by simp
  note retried = failed_attempt_is_retried [OF ready_leased_ok h, of 300 "''boom''" 60, unfolded m,
    THEN conjunct2, THEN spec, THEN mp, OF f]
  obtain j where j: "j \<in> set (jobs d')"
    "\<forall>d2 t wc w l. db_ok d2 \<and> j \<in> set (jobs d2) \<and> ?t \<le> t \<and> unhindered t wc d2 j \<longrightarrow>
       (\<exists>d3 c'. claim t w l wc True d2 = (d3, Some c') \<and> (\<exists>x \<in> set (jobs d2). j_id x = c_id c' \<and>
          job_due t wc True d2 x \<and> (j_available x, j_id x) \<le> (j_available j, j_id j)))"
    using retried by (elim bexE conjE) (rule that)
  have "db_ok d' \<and> j \<in> set (jobs d') \<and> ?t \<le> ?t \<and> unhindered ?t (Some Interactive) d' j" using ok j(1) u by blast
  with j(2) obtain d3 c' where c: "claim ?t ''v'' 60 (Some Interactive) True d' = (d3, Some c')"
    "\<exists>x \<in> set (jobs d'). j_id x = c_id c'" by meson
  with u have "c_id c' = c_id ?c" by metis
  with f c(1) show ?thesis by blast
qed

section \<open>Fan-outs\<close>

lemma next_batch_awaits:
  assumes "a_pending_full a \<or> a_pending_refs a \<noteq> []"
    and "a_pending_full a \<or> (\<exists>b. r = Some b \<and> b \<in> fst ` set (a_pending_refs a))"
  shows "unstarted (next_batch now a)" and "awaits (next_batch now a) r"
proof -
  show u: "unstarted (next_batch now a)" by (simp add: next_batch_def unstarted_def Let_def)
  show "awaits (next_batch now a) r"
    using assms(2) unfolding awaits_def if_P [OF u] by (auto simp: next_batch_def Let_def)
qed

lemma coalesce_pending:
  assumes "\<not> unstarted a"
  shows "let b = coalesce_authority now q a in (a_pending_full b \<or> a_pending_refs b \<noteq> []) \<and>
    (a_pending_full b \<or> (\<exists>r. target_ref q = Some r \<and> r \<in> fst ` set (a_pending_refs b)))"
proof -
  have u: "\<not> unstarted (a\<lparr>a_available := now, a_wake := a_wake a + 1\<rparr>)"
    using assms by (simp add: unstarted_def)
  have "AList.update r s xs \<noteq> []" for r s and xs :: "(string \<times> string) list" by (cases xs) auto
  then show ?thesis
    unfolding coalesce_authority_def Let_def if_not_P [OF u]
    by (auto simp: keys_update split: option.split)
qed

text \<open>An authority change that arrives in the middle of a fan-out starts another one: when the
  worker that fans out a scope completes its claim, the row of that scope is not deleted but
  reset to the start of a new pass, free to be claimed at once, that awaits the changed
  branch.\<close>

theorem change_during_fan_out_restarts_it:
  assumes "db_ok d" and "a \<in> set (authorities d)" and "holds_authority c worker a"
    and "is_authority (aq_installation q) (scope_key q) [] a"
    and "complete_authority now' c worker (enqueue_authority now q d) = (d', finished)"
  shows "finished \<and> (\<exists>a' \<in> set (authorities d'). a_id a' = a_id a \<and>
    is_authority (aq_installation q) (scope_key q) [] a' \<and> a_generation a' = a_generation a + 1 \<and>
    a_state a' = Pending \<and> a_owner a' = None \<and> a_lease a' = None \<and> a_available a' = now' \<and>
    unstarted a' \<and> awaits a' (target_ref q))"
proof -
  let ?key = "is_authority (aq_installation q) (scope_key q) []"
  let ?b = "coalesce_authority now q a"
  let ?d = "enqueue_authority now q d"
  have nu: "\<not> unstarted a" using assms(3) by (simp add: holds_authority_def unstarted_def)
  have u: "unique_by a_id (authorities ?d)"
    using keeps_ok [OF enqueue_authority_keeps [OF assms(1)]] by (simp add: db_ok_def authorities_ok_def)
  have "find ?key (authorities d) \<noteq> None" using assms(2,4) by (auto simp: find_None)
  then have d: "authorities ?d = map (\<lambda>x. if ?key x then coalesce_authority now q x else x) (authorities d)"
    by (auto simp: enqueue_authority_def fst_update)
  have b: "?b \<in> set (authorities ?d)" unfolding d using assms(2,4) by force
  have frame: "a_id ?b = a_id a" "a_generation ?b = a_generation a" "a_owner ?b = a_owner a" "?key ?b"
    using assms(4) by (simp_all add: coalesce_authority_def is_authority_def Let_def split: option.split)
  then have hb: "holds_authority c worker ?b" using assms(3) by (simp add: holds_authority_def)
  have "find (holds_authority c worker) (authorities ?d) \<noteq> None" using b hb by (auto simp: find_None)
  then obtain x where x: "find (holds_authority c worker) (authorities ?d) = Some x" by blast
  then have "x \<in> set (authorities ?d)" "a_id x = a_id ?b"
    using hb by (auto simp: holds_authority_def dest!: find_SomeD)
  then have xb: "x = ?b" using unique_by_eq [OF u _ b] by blast
  note p = coalesce_pending [OF nu, of now q, unfolded Let_def]
  have r: "complete_authority now' c worker ?d = (?d\<lparr>authorities :=
      map (\<lambda>y. if a_id y = a_id a then next_batch now' y else y) (authorities ?d)\<rparr>, True)"
    using p x xb frame(1) by (simp add: complete_authority_def fst_update)
  have "next_batch now' ?b \<in> set (authorities d')"
    using assms(5) b frame(1) unfolding r by force
  moreover have "unstarted (next_batch now' ?b)" "awaits (next_batch now' ?b) (target_ref q)"
    using next_batch_awaits [of ?b "target_ref q" now'] p by blast+
  moreover have "?key (next_batch now' ?b)" "a_id (next_batch now' ?b) = a_id a"
    "a_generation (next_batch now' ?b) = a_generation a + 1" "a_state (next_batch now' ?b) = Pending"
    "a_owner (next_batch now' ?b) = None" "a_lease (next_batch now' ?b) = None"
    "a_available (next_batch now' ?b) = now'"
    using frame by (simp_all add: next_batch_def is_authority_def Let_def)
  moreover have "finished" using assms(5) r by simp
  ultimately show ?thesis by blast
qed

definition fan_out_db :: "db \<times> claimed_authority option" where
  "fan_out_db = claim_authority 10 ''w'' 60 False (enqueue_authority 1 sample_authority empty_db)"

theorem change_during_fan_out_restarts_it_witness:
  "\<exists>a' \<in> set (authorities (fst (complete_authority 30 (the (snd fan_out_db)) ''w''
      (enqueue_authority 20 (sample_authority\<lparr>aq_base := Some ''dev''\<rparr>) (fst fan_out_db))))).
     unstarted a' \<and> awaits a' (Some ''dev'')"
proof -
  let ?q = "sample_authority\<lparr>aq_base := Some ''dev''\<rparr>" and ?c = "the (snd fan_out_db)"
  have ok: "db_ok (fst fan_out_db)" unfolding fan_out_db_def
    by (intro keeps_ok [OF claim_authority_keeps] keeps_ok [OF enqueue_authority_keeps] db_ok_empty)
  have "list_ex (\<lambda>a. holds_authority ?c ''w'' a \<and> is_authority (aq_installation ?q) (scope_key ?q) [] a)
      (authorities (fst fan_out_db))" "target_ref ?q = Some ''dev''" by code_simp+
  then obtain a where a: "a \<in> set (authorities (fst fan_out_db))" "holds_authority ?c ''w'' a"
    "is_authority (aq_installation ?q) (scope_key ?q) [] a" and t: "target_ref ?q = Some ''dev''"
    by (auto simp: list_ex_iff)
  from change_during_fan_out_restarts_it [OF ok a prod.collapse [symmetric], of 30 20] t
  show ?thesis by auto
qed

section \<open>Rate limits\<close>

lemma claim_authority_due:
  assumes "db_ok d" and "claim_authority now w l p d = (d', Some c)"
  shows "\<exists>a \<in> set (authorities d). authority_due now d a \<and> ca_installation c = a_installation a"
proof -
  from assms(2) obtain a where f: "sql_first (authority_order d p) (authority_due now d) (authorities d) = Some a"
    and c: "map_option (claimed_authority_view w) (find (\<lambda>x. a_id x = a_id a)
      (fst (sql_update (\<lambda>x. a_id x = a_id a \<and> a_state x = Pending \<and> lease_free now (a_lease x))
        (lease_authority w (now + seconds l)) (authorities d)))) = Some c"
    by (auto simp: claim_authority_def Let_def sql_update_def split: option.splits if_splits)
  note a = sql_first_Some [OF f]
  have u: "unique_by a_id (authorities d)" using assms(1) by (simp add: db_ok_def authorities_ok_def)
  from c obtain y where y: "y \<in> set (fst (sql_update (\<lambda>x. a_id x = a_id a \<and> a_state x = Pending \<and>
      lease_free now (a_lease x)) (lease_authority w (now + seconds l)) (authorities d)))" "a_id y = a_id a"
    "c = claimed_authority_view w y" by (auto dest: find_SomeD)
  then obtain x where x: "x \<in> set (authorities d)" "a_id y = a_id x" "a_installation y = a_installation x"
    unfolding fst_update by (auto simp: lease_authority_def)
  have "x = a" using unique_by_eq [OF u x(1) a(1)] x(2) y(2) by simp
  with a x(3) y(3) show ?thesis by (auto simp: claimed_authority_view_def)
qed

lemma backpressure_row:
  assumes "record_provider_backpressure now inst err delay d = Inr d'"
  shows "\<exists>b \<in> set (pressures d'). bp_installation b = (case inst of None \<Rightarrow> 0 | Some i \<Rightarrow> i) \<and>
    now + seconds (clamp_delay delay) \<le> bp_until b"
proof (cases "find (\<lambda>b. bp_installation b = (case inst of None \<Rightarrow> 0 | Some i \<Rightarrow> i)) (pressures d)")
  case None
  with assms show ?thesis
    by (auto simp: record_provider_backpressure_def Let_def split: if_splits)
next
  case (Some b)
  let ?k = "case inst of None \<Rightarrow> 0 | Some i \<Rightarrow> i" and ?u = "now + seconds (clamp_delay delay)"
  let ?f = "\<lambda>b. b\<lparr>bp_until := max (bp_until b) ?u, bp_reason := take 2000 err, bp_updated := now\<rparr>"
  from find_SomeD [OF Some] have b: "b \<in> set (pressures d)" "bp_installation b = ?k" by auto
  from assms Some have "pressures d' = map (\<lambda>b. if bp_installation b = ?k then ?f b else b) (pressures d)"
    by (auto simp: record_provider_backpressure_def Let_def fst_update split: if_splits)
  with b have "?f b \<in> set (pressures d')" by force
  then show ?thesis using b(2) by (intro bexI) auto
qed

text \<open>A recorded rate limit stops every kind of claim it covers: until at least its delay (at
  least a second, at most a day) has passed, no evaluation, no reset and no authority work of
  the limited installation is handed out, or of any installation when the limit is
  global.\<close>

theorem rate_limit_stops_claims:
  assumes "db_ok d" and "record_provider_backpressure now inst err delay d = Inr d'"
    and "t < now + seconds (clamp_delay delay)" and "inst = None \<or> inst = Some i"
  shows "(claim t w l wc ready d' = (d1, Some c) \<longrightarrow> c_installation c \<noteq> i) \<and>
    (claim_shared_head_invalidation t w l wc d' = (d2, Some h) \<longrightarrow> ch_installation h \<noteq> i) \<and>
    (claim_authority t w l prioritize d' = (d3, Some a) \<longrightarrow> ca_installation a \<noteq> i)"
proof (intro conjI impI)
  from backpressure_row [OF assms(2)] assms(3,4) have closed: "\<not> provider_available d' i t"
    by (fastforce simp: provider_available_def list_ex_iff)
  have ok: "db_ok d'" using record_provider_backpressure_keeps [OF assms(1,2)] by (rule keeps_ok)
  show "c_installation c \<noteq> i" if "claim t w l wc ready d' = (d1, Some c)"
  proof -
    from claim_Some [OF ok that] obtain j where "job_due t wc ready d' j"
      "c = claimed_view d1 w (lease_job w (t + seconds l) j)" by blast
    with closed show ?thesis by (auto simp: job_due_def claimed_view_def lease_job_def)
  qed
  show "ch_installation h \<noteq> i" if "claim_shared_head_invalidation t w l wc d' = (d2, Some h)"
  proof -
    from that obtain e where "sql_first epoch_order (reset_due t wc d') (epochs d') = Some e"
      "ch_installation h = e_installation e"
      by (auto simp: claim_shared_head_invalidation_def Let_def split: option.splits prod.splits if_splits)
    with sql_first_Some(2) closed show ?thesis by (fastforce simp: reset_due_def)
  qed
  show "ca_installation a \<noteq> i" if "claim_authority t w l prioritize d' = (d3, Some a)"
    using claim_authority_due [OF ok that] closed by (auto simp: authority_due_def)
qed

theorem rate_limit_stops_claims_witness:
  "\<exists>d'. record_provider_backpressure 150 (Some 5) ''limit'' 60 sample_db = Inr d' \<and>
     \<not> (\<exists>d1 c. claim 200 ''w'' 60 None False d' = (d1, Some c) \<and> c_installation c = 5)"
proof -
  have "\<not> isl (record_provider_backpressure 150 (Some 5) ''limit'' 60 sample_db)" by code_simp
  then obtain d' where d': "record_provider_backpressure 150 (Some 5) ''limit'' 60 sample_db = Inr d'"
    using not_isl_Inr by blast
  have t: "200 < 150 + seconds (clamp_delay 60)" by (simp add: seconds_def clamp_delay_def)
  from rate_limit_stops_claims [OF db_ok_sample d' t, of 5] d' show ?thesis by blast
qed

section \<open>Dead rows\<close>

lemma length_filter_split: "length (filter P xs) = length (filter (\<lambda>x. P x \<and> Q x) xs) + length (filter (\<lambda>x. P x \<and> \<not> Q x) xs)"
  by (induction xs) auto

lemma chosen_rows:
  fixes k :: "'r \<Rightarrow> 'k::linorder" and c :: "'r \<Rightarrow> bool" and n :: nat
  assumes "unique_by i t"
  defines "s \<equiv> sql_ids k c n t"
  shows "\<And>x. x \<in> set t \<Longrightarrow> i x \<in> set (map i s) \<longleftrightarrow> x \<in> set s"
    and "length (filter (\<lambda>x. i x \<in> set (map i s)) t) = min n (length (filter c t))"
    and "\<And>f. (\<And>x. \<not> c (f x)) \<Longrightarrow> length (filter c (map (\<lambda>x. if i x \<in> set (map i s) then f x else x) t))
      = length (filter c t) - min n (length (filter c t))"
proof -
  have sub: "set s \<subseteq> {x \<in> set t. c x}" unfolding s_def by (rule sql_ids_set)
  show m: "i x \<in> set (map i s) \<longleftrightarrow> x \<in> set s" if x: "x \<in> set t" for x
  proof
    assume "i x \<in> set (map i s)"
    then obtain y where "y \<in> set s" "i y = i x" by auto
    with sub unique_by_eq [OF assms(1) _ x] show "x \<in> set s" by blast
  qed simp
  have d: "distinct t" using assms(1) by (simp add: unique_by_def distinct_map)
  then have ds: "distinct s" by (simp add: s_def sql_ids_def)
  have "length (filter (\<lambda>x. i x \<in> set (map i s)) t) = length (filter (\<lambda>x. x \<in> set s) t)"
    by (metis (mono_tags, lifting) filter_cong m)
  also have "\<dots> = card (set s)"
  proof -
    have "set (filter (\<lambda>x. x \<in> set s) t) = set s" using sub by auto
    moreover have "distinct (filter (\<lambda>x. x \<in> set s) t)" using d by simp
    ultimately show ?thesis by (metis distinct_card)
  qed
  also have "\<dots> = length s" using ds by (rule distinct_card)
  finally show n: "length (filter (\<lambda>x. i x \<in> set (map i s)) t) = min n (length (filter c t))"
    by (simp add: s_def sql_ids_length)
  fix f :: "'r \<Rightarrow> 'r" assume f: "\<And>x. \<not> c (f x)"
  let ?Q = "\<lambda>x. i x \<in> set (map i s)"
  have "length (filter c (map (\<lambda>x. if ?Q x then f x else x) t)) = length (filter (\<lambda>x. c x \<and> \<not> ?Q x) t)"
    using f by (induction t) auto
  moreover have "length (filter (\<lambda>x. c x \<and> ?Q x) t) = length (filter ?Q t)"
    by (intro arg_cong [where f = length] filter_cong [OF refl]) (use m sub in blast)
  ultimately show "length (filter c (map (\<lambda>x. if ?Q x then f x else x) t)) =
      length (filter c t) - min n (length (filter c t))"
    using length_filter_split [of c t ?Q] n by simp
qed

lemma revived_total:
  fixes limit :: int and A J :: nat
  assumes "0 \<le> limit"
  defines "k \<equiv> min (nat limit) A"
  defines "r \<equiv> nat (max 0 (limit - int k))"
  shows "int (min r J) + int k = min limit (int J + int A)"
    and "int (J - min r J) + int (A - k) = int J + int A - (int (min r J) + int k)"
    and "int (A - k) = max 0 (int A - limit)"
  using assms(1) by (auto simp: k_def r_def min_def max_def)

text \<open>The recovery of dead rows is bounded and loses nothing: it revives as many rows as there
  are dead ones up to the limit, authority work before evaluations, the count it returns is
  the number of rows that are no longer dead, and every live row is left as it was.\<close>

theorem requeue_revives_up_to_limit:
  assumes "db_ok d" and "0 \<le> limit" and "requeue_dead now limit d = (d', n)"
  shows "n = min limit (dead_count d) \<and> dead_count d' = dead_count d - n \<and>
    sql_count (\<lambda>a. a_state a = Dead) (authorities d') = max 0 (sql_count (\<lambda>a. a_state a = Dead) (authorities d) - limit) \<and>
    (\<forall>j \<in> set (jobs d). j_state j \<noteq> Dead \<longrightarrow> j \<in> set (jobs d')) \<and>
    (\<forall>a \<in> set (authorities d). a_state a \<noteq> Dead \<longrightarrow> a \<in> set (authorities d'))"
proof -
  let ?fa = "\<lambda>a. a\<lparr>a_state := Pending, a_attempts := 0, a_available := now, a_error := None, a_owner := None, a_lease := None\<rparr>"
  let ?fj = "\<lambda>j. j\<lparr>j_state := Pending, j_attempts := 0, j_available := now, j_error := None, j_owner := None, j_lease := None\<rparr>"
  let ?A = "length (filter (\<lambda>a. a_state a = Dead) (authorities d))"
  let ?J = "length (filter (\<lambda>j. j_state j = Dead) (jobs d))"
  have ua: "unique_by a_id (authorities d)" and uj: "unique_by j_id (jobs d)"
    using assms(1) by (simp_all add: db_ok_def authorities_ok_def jobs_ok_def)
  let ?sa = "sql_ids (\<lambda>a. (a_requested a, a_id a)) (\<lambda>a. a_state a = Dead) (nat limit) (authorities d)"
  note ca = chosen_rows [OF ua, where k = "\<lambda>a. (a_requested a, a_id a)" and c = "\<lambda>a. a_state a = Dead" and n = "nat limit"]
  let ?k = "min (nat limit) ?A"
  let ?r = "nat (max 0 (limit - int ?k))"
  let ?sj = "sql_ids (\<lambda>j. (j_requested j, j_id j)) (\<lambda>j. j_state j = Dead) ?r (jobs d)"
  note cj = chosen_rows [OF uj, where k = "\<lambda>j. (j_requested j, j_id j)" and c = "\<lambda>j. j_state j = Dead" and n = ?r]
  have r: "requeue_dead now limit d = (d\<lparr>authorities := map (\<lambda>a. if a_id a \<in> set (map a_id ?sa) then ?fa a else a) (authorities d),
      jobs := map (\<lambda>j. if j_id j \<in> set (map j_id ?sj) then ?fj j else j) (jobs d)\<rparr>,
      int (min ?r ?J) + int ?k)"
    unfolding requeue_dead_def sql_update_def Let_def prod.case ca(2) cj(2) by (rule refl)
  have d': "d' = fst (requeue_dead now limit d)" using assms(3) by simp
  have rows: "authorities d' = map (\<lambda>a. if a_id a \<in> set (map a_id ?sa) then ?fa a else a) (authorities d)"
    "jobs d' = map (\<lambda>j. if j_id j \<in> set (map j_id ?sj) then ?fj j else j) (jobs d)"
    unfolding d' r fst_conv by simp_all
  have da: "length (filter (\<lambda>a. a_state a = Dead) (authorities d')) = ?A - ?k"
    unfolding rows by (rule ca(3)) simp
  have dj: "length (filter (\<lambda>j. j_state j = Dead) (jobs d')) = ?J - min ?r ?J"
    unfolding rows by (rule cj(3)) simp
  have n: "n = int (min ?r ?J) + int ?k" using assms(3) r by simp
  have "n = min limit (dead_count d)" "dead_count d' = dead_count d - n"
    "sql_count (\<lambda>a. a_state a = Dead) (authorities d') = max 0 (sql_count (\<lambda>a. a_state a = Dead) (authorities d) - limit)"
    unfolding dead_count_def sql_count_def da dj n by (rule revived_total [OF assms(2)])+
  moreover have "j \<in> set (jobs d')" if "j \<in> set (jobs d)" "j_state j \<noteq> Dead" for j
  proof -
    have "j \<notin> set ?sj" using that(2) sql_ids_set by fastforce
    with cj(1) [OF that(1)] have "j_id j \<notin> set (map j_id ?sj)" by blast
    with that(1) show ?thesis unfolding rows set_map by (simp add: image_iff)
  qed
  moreover have "a \<in> set (authorities d')" if "a \<in> set (authorities d)" "a_state a \<noteq> Dead" for a
  proof -
    have "a \<notin> set ?sa" using that(2) sql_ids_set by fastforce
    with ca(1) [OF that(1)] have "a_id a \<notin> set (map a_id ?sa)" by blast
    with that(1) show ?thesis unfolding rows set_map by (simp add: image_iff)
  qed
  ultimately show ?thesis by blast
qed

definition dead_db :: db where
  "dead_db = sample_db\<lparr>jobs := map (\<lambda>j. j\<lparr>j_state := Dead\<rparr>) (jobs sample_db)\<rparr>"

theorem requeue_revives_up_to_limit_witness:
  "snd (requeue_dead 500 10 dead_db) = 1 \<and> dead_count (fst (requeue_dead 500 10 dead_db)) = 0"
proof -
  have ok: "db_ok dead_db" by code_simp
  have "dead_count dead_db = 1" by code_simp
  with requeue_revives_up_to_limit [OF ok _ prod.collapse [symmetric], of 10 500] show ?thesis by simp
qed

section \<open>Reconciliation\<close>

text \<open>The row that reconciliation leaves behind when it reports work.\<close>

definition fresh_row :: "int \<Rightarrow> job_request \<Rightarrow> db \<Rightarrow> bool" where
  "fresh_row now q d \<longleftrightarrow> (\<exists>j \<in> set (jobs d). is_job (q_installation q) (q_repo q) (q_pull q) j \<and>
     j_head j = q_head q \<and> j_state j = Pending \<and> j_available j = now \<and> j_owner j = None \<and> j_lease j = None)"

lemma fresh_insert:
  "insert_if_absent now q g d = Some d' \<Longrightarrow> fresh_row now q d'"
  by (auto simp: insert_if_absent_def insert_job_def new_job_def fresh_row_def is_job_def split: if_splits)

lemma fresh_row_observe [simp]: "fresh_row now q (observe_recon t r d) = fresh_row now q d"
  by (simp add: fresh_row_def observe_recon_def)

lemma fresh_enqueue:
  assumes "db_ok d"
  shows "fresh_row now q (enqueue_in_session now q i g False pw d)"
  using assms
proof (cases rule: enqueue_outcomes [where shared = g and q = q and pd = False and now = now and i = i and pw = pw])
  case 1
  then obtain j where "j \<in> set (jobs d)" "is_job (q_installation q) (q_repo q) (q_pull q) j" by blast
  then show ?thesis unfolding 1(2) fresh_row_def wake_jobs
    by (intro bexI [where x = "refresh_job now q i (authority_generation_of d (q_installation q))
          (case g of None \<Rightarrow> head_generation d (q_installation q) (q_repo q) (q_head q) | Some x \<Rightarrow> x) pw j"])
      (simp_all add: refresh_job_def is_job_def image_iff, blast)
next
  case 3
  then show ?thesis
    by (simp add: fresh_row_def insert_job_def new_job_def is_job_def)
qed simp

lemma observe_frame [simp]: "jobs (observe_recon t q d) = jobs d"
  by (simp add: observe_recon_def)

lemma fresh_advance_enqueue:
  assumes "db_ok d" and "canonical_repo (q_repo q)" and "advance_shared_head_epoch now q d = Inr (d1, g)"
  shows "fresh_row now q (enqueue_in_session now q i (Some g) False pw d1)"
  by (rule fresh_enqueue [OF keeps_ok [OF advance_keeps(1) [OF assms(1,3)]]])

lemma reconcile_existing_cases:
  assumes "db_ok d" and "canonical_repo (q_repo q)" and "reconcile_existing now q obs j d = Inr (d', created)"
  shows "created \<longrightarrow> fresh_row now q d'"
    and "\<not> created \<longrightarrow> jobs d' = jobs d \<and> epochs d' = epochs d"
    and "j_head j = q_head q \<or> (j_class j = Interactive \<and> obs < j_requested j) \<longrightarrow> \<not> created"
  using assms(3) fresh_advance_enqueue [OF assms(1,2), of now]
  by (auto simp: reconcile_existing_def split: if_splits)

lemma reconcile_missing_cases:
  assumes "reconcile_missing now q s d = Inr (d', created)"
  shows "created \<longrightarrow> fresh_row now q d'"
    and "\<not> created \<longrightarrow> jobs d' = jobs d \<and> epochs d' = epochs d"
    and "confirmed_at q d = Some t \<and> now - seconds s < t \<longrightarrow> \<not> created"
proof -
  have f: "insert_if_absent now (q\<lparr>q_reason := SCHEDULED_RECHECK_REASON\<rparr>) g x = Some y \<Longrightarrow> fresh_row now q y" for g x y
    using fresh_insert [of now "q\<lparr>q_reason := SCHEDULED_RECHECK_REASON\<rparr>" g x y] by (simp add: fresh_row_def)
  show "created \<longrightarrow> fresh_row now q d'"
    and "\<not> created \<longrightarrow> jobs d' = jobs d \<and> epochs d' = epochs d"
    and "confirmed_at q d = Some t \<and> now - seconds s < t \<longrightarrow> \<not> created"
    using assms fresh_insert f
    by (auto simp: reconcile_missing_def Let_def split: option.splits if_splits)
qed

text \<open>Reconciliation never overrides fresher knowledge: when the queue holds a row for the pull
  request with the observed head, or a direct trigger newer than the observation, or the
  head was confirmed within the recheck interval, it creates no work and touches neither
  rows nor fences; and whenever it reports that it created work, a pending, unleased row for
  the observed head is due at once.\<close>

theorem reconciliation_yields_to_newer_work:
  assumes "db_ok d" and "canonical_repo (q_repo q)" and "q_observed q = Some observed"
    and "enqueue_reconciliation_if_due now q recheck d = Inr (d', created)"
  shows "(created \<longrightarrow> fresh_row now q d') \<and>
    (\<not> created \<longrightarrow> jobs d' = jobs d \<and> epochs d' = epochs d) \<and>
    ((\<exists>j \<in> set (jobs d). is_job (q_installation q) (q_repo q) (q_pull q) j \<and>
       (j_head j = q_head q \<or> (j_class j = Interactive \<and> observed < j_requested j))) \<longrightarrow> \<not> created) \<and>
    (\<not> (\<exists>j \<in> set (jobs d). is_job (q_installation q) (q_repo q) (q_pull q) j) \<and>
       (\<exists>t. confirmed_at q d = Some t \<and> now - seconds recheck < t) \<longrightarrow> \<not> created)"
proof (cases "find (is_job (q_installation q) (q_repo q) (q_pull q)) (jobs d)")
  case None
  with assms(3,4) have r: "reconcile_missing now q recheck d = Inr (d', created)"
    by (auto simp: enqueue_reconciliation_if_due_def split: if_splits)
  have none: "\<not> (\<exists>j \<in> set (jobs d). is_job (q_installation q) (q_repo q) (q_pull q) j)"
    using None by (simp add: find_None)
  from reconcile_missing_cases [OF r] none show ?thesis by blast
next
  case (Some j)
  with assms(3,4) have r: "reconcile_existing now q observed j d = Inr (d', created)"
    by (auto simp: enqueue_reconciliation_if_due_def split: if_splits)
  from find_SomeD [OF Some] have j: "j \<in> set (jobs d)" "is_job (q_installation q) (q_repo q) (q_pull q) j" by auto
  have u: "unique_by job_key (jobs d)" using assms(1) by (simp add: db_ok_def jobs_ok_def)
  have "x = j" if "x \<in> set (jobs d)" "is_job (q_installation q) (q_repo q) (q_pull q) x" for x
    using unique_by_eq [OF u that(1) j(1)] that(2) j(2) by (simp add: is_job_key)
  with reconcile_existing_cases [OF assms(1,2) r] j show ?thesis by blast
qed

theorem reconciliation_yields_to_newer_work_witness:
  "\<exists>d'. enqueue_reconciliation_if_due 400 recheck_request 60 sample_db = Inr (d', False) \<and> jobs d' = jobs sample_db"
proof -
  let ?r = "enqueue_reconciliation_if_due 400 recheck_request 60 sample_db"
  have "\<not> isl ?r" "canonical_repo (q_repo recheck_request)" "q_observed recheck_request = Some 300"
    "list_ex (\<lambda>j. is_job (q_installation recheck_request) (q_repo recheck_request) (q_pull recheck_request) j \<and>
       j_head j = q_head recheck_request) (jobs sample_db)" by code_simp+
  then have r: "?r = Inr (fst (projr ?r), snd (projr ?r))" and c: "canonical_repo (q_repo recheck_request)"
    "q_observed recheck_request = Some 300" and j: "\<exists>j \<in> set (jobs sample_db).
       is_job (q_installation recheck_request) (q_repo recheck_request) (q_pull recheck_request) j \<and>
       j_head j = q_head recheck_request"
    by (simp_all add: list_ex_iff)
  from reconciliation_yields_to_newer_work [OF db_ok_sample c r] j
  have "\<not> snd (projr ?r)" "jobs (fst (projr ?r)) = jobs sample_db" by blast+
  with r show ?thesis by metis
qed

end
