(* ===== verification/Json.thy ===== *)
theory Json
  imports Pystr
begin

text \<open>
  The Python values that \<open>json.loads\<close> builds, and the operations the program applies to
  untrusted ones: \<open>dict.get\<close>, truth value, type tests, membership in a set of strings.
  A \<open>dict\<close> is an association list with distinct keys; a float is a decimal, its mantissa
  and its exponent.
\<close>

datatype json =
    JNull
  | JBool bool
  | JInt int
  | JFloat int int
  | JStr string
  | JList "json list"
  | JObj "(string \<times> json) list"

text \<open>\<open>value.get(key)\<close> and \<open>value.get(key, default)\<close> of a dict.\<close>

definition get_or :: "json \<Rightarrow> string \<Rightarrow> (string \<times> json) list \<Rightarrow> json" where
  "get_or d k ob = (case map_of ob k of None \<Rightarrow> d | Some v \<Rightarrow> v)"

definition get_key :: "string \<Rightarrow> (string \<times> json) list \<Rightarrow> json" where
  "get_key k ob = get_or JNull k ob"

definition as_obj :: "json \<Rightarrow> (string \<times> json) list option" where
  "as_obj v = (case v of JObj ob \<Rightarrow> Some ob | _ \<Rightarrow> None)"

definition as_list :: "json \<Rightarrow> json list option" where
  "as_list v = (case v of JList l \<Rightarrow> Some l | _ \<Rightarrow> None)"

definition as_str :: "json \<Rightarrow> string option" where
  "as_str v = (case v of JStr s \<Rightarrow> Some s | _ \<Rightarrow> None)"

text \<open>\<open>isinstance(v, int) and not isinstance(v, bool)\<close>, which is also \<open>type(v) is int\<close>.\<close>

definition as_int :: "json \<Rightarrow> int option" where
  "as_int v = (case v of JInt n \<Rightarrow> Some n | _ \<Rightarrow> None)"

definition as_bool :: "json \<Rightarrow> bool option" where
  "as_bool v = (case v of JBool b \<Rightarrow> Some b | _ \<Rightarrow> None)"

definition truthy :: "json \<Rightarrow> bool" where
  "truthy v = (case v of JNull \<Rightarrow> False | JBool b \<Rightarrow> b | JInt n \<Rightarrow> n \<noteq> 0 | JFloat m _ \<Rightarrow> m \<noteq> 0
     | JStr s \<Rightarrow> s \<noteq> [] | JList l \<Rightarrow> l \<noteq> [] | JObj ob \<Rightarrow> ob \<noteq> [])"

definition py_or :: "json \<Rightarrow> json \<Rightarrow> json" where
  "py_or v w = (if truthy v then v else w)"

text \<open>\<open>v == n\<close> for an integer \<open>n\<close>: booleans and floats compare by their numeric value.\<close>

definition eq_int :: "json \<Rightarrow> int \<Rightarrow> bool" where
  "eq_int v n = (case v of JInt m \<Rightarrow> m = n | JBool b \<Rightarrow> (if b then 1 else 0) = n
     | JFloat m e \<Rightarrow> (if 0 \<le> e then m * 10 ^ nat e = n else m = n * 10 ^ nat (- e)) | _ \<Rightarrow> False)"

text \<open>\<open>v in {s1, s2, ...}\<close>: a list or a dict is unhashable, and the test raises \<open>TypeError\<close>.\<close>

definition in_str_set :: "json \<Rightarrow> string list \<Rightarrow> bool option" where
  "in_str_set v ss = (case v of JList _ \<Rightarrow> None | JObj _ \<Rightarrow> None | JStr s \<Rightarrow> Some (s \<in> set ss)
     | _ \<Rightarrow> Some False)"

lemma as_obj_Some [simp]: "as_obj v = Some ob \<longleftrightarrow> v = JObj ob"
  by (cases v) (auto simp: as_obj_def)

lemma as_list_Some [simp]: "as_list v = Some l \<longleftrightarrow> v = JList l"
  by (cases v) (auto simp: as_list_def)

lemma as_str_Some [simp]: "as_str v = Some s \<longleftrightarrow> v = JStr s"
  by (cases v) (auto simp: as_str_def)

lemma as_int_Some [simp]: "as_int v = Some n \<longleftrightarrow> v = JInt n"
  by (cases v) (auto simp: as_int_def)

lemma as_bool_Some [simp]: "as_bool v = Some b \<longleftrightarrow> v = JBool b"
  by (cases v) (auto simp: as_bool_def)

lemma in_str_set_True: "in_str_set v ss = Some True \<longleftrightarrow> (\<exists>s \<in> set ss. v = JStr s)"
  by (cases v) (auto simp: in_str_set_def)

end
