(* ===== verification/Webhooks.thy ===== *)
theory Webhooks
  imports Json Queue_Delivery
begin

text \<open>
  \<open>extra_codeowners/webhooks.py\<close>: authentication of a delivery and its mapping to the work
  it triggers. The HMAC and the JSON parser are parameters; a byte is a \<open>char\<close>.
\<close>

section \<open>Constants and errors\<close>

datatype webhook_error = WebhookError string | RequestError queue_error | PyTypeError

definition MAX_WEBHOOK_BYTES :: int where
  "MAX_WEBHOOK_BYTES = 10 * 1024 * 1024"

definition PULL_REQUEST_ACTIONS :: "string list" where
  "PULL_REQUEST_ACTIONS = [''opened'', ''reopened'', ''synchronize'', ''ready_for_review'',
     ''converted_to_draft'', ''edited'', ''labeled'', ''unlabeled'', ''review_requested'',
     ''review_request_removed'', ''closed'']"

definition REVIEW_ACTIONS :: "string list" where
  "REVIEW_ACTIONS = [''submitted'', ''edited'', ''dismissed'']"

definition RE_EVALUATE_ACTION_IDENTIFIER :: string where
  "RE_EVALUATE_ACTION_IDENTIFIER = ''re-evaluate''"

fun lift_request :: "queue_error + 'a \<Rightarrow> webhook_error + 'a" where
  "lift_request (Inl e) = Inl (RequestError e)"
| "lift_request (Inr a) = Inr a"

lemma lift_request_Inr [simp]: "lift_request r = Inr a \<longleftrightarrow> r = Inr a"
  by (cases r) auto

definition require_obj :: "string \<Rightarrow> json \<Rightarrow> webhook_error + (string \<times> json) list" where
  "require_obj msg v = (case as_obj v of None \<Rightarrow> Inl (WebhookError msg) | Some ob \<Rightarrow> Inr ob)"

lemma require_obj_Inr [simp]: "require_obj msg v = Inr ob \<longleftrightarrow> v = JObj ob"
  by (simp add: require_obj_def split: option.split) (metis as_obj_Some option.distinct(1))

section \<open>Authentication\<close>

record verified_webhook =
  w_delivery :: string
  w_event :: string
  w_action :: string
  w_payload :: "(string \<times> json) list"

text \<open>\<open>json_loads\<close> answers \<open>Inl True\<close> for the errors that the code catches
  (\<open>UnicodeDecodeError\<close>, \<open>JSONDecodeError\<close>); \<open>hmac.compare_digest\<close> refuses non-ASCII text.\<close>

definition verify_webhook ::
  "(string \<Rightarrow> string \<Rightarrow> string) \<Rightarrow> (string \<Rightarrow> json option) \<Rightarrow> string \<Rightarrow> string option \<Rightarrow> string option
     \<Rightarrow> string option \<Rightarrow> string \<Rightarrow> webhook_error + verified_webhook" where
  "verify_webhook hmac_hex json_loads body signature delivery event secret =
     (if MAX_WEBHOOK_BYTES < int (length body)
      then Inl (WebhookError ''webhook payload exceeds the 10 MiB limit'')
      else case signature of
        None \<Rightarrow> Inl (WebhookError ''missing or malformed X-Hub-Signature-256'')
      | Some sig \<Rightarrow> if \<not> startswith ''sha256='' sig
          then Inl (WebhookError ''missing or malformed X-Hub-Signature-256'')
          else case delivery of
            None \<Rightarrow> Inl (WebhookError ''missing or malformed X-GitHub-Delivery'')
          | Some i \<Rightarrow> if i = [] \<or> 128 < length i
              then Inl (WebhookError ''missing or malformed X-GitHub-Delivery'')
              else case event of
                None \<Rightarrow> Inl (WebhookError ''missing or malformed X-GitHub-Event'')
              | Some ev \<Rightarrow> if ev = [] \<or> 128 < length ev
                  then Inl (WebhookError ''missing or malformed X-GitHub-Event'')
                  else if list_ex (\<lambda>c. 128 \<le> code c) sig then Inl PyTypeError
                  else if ''sha256='' @ hmac_hex secret body \<noteq> sig
                  then Inl (WebhookError ''webhook signature mismatch'')
                  else case json_loads body of
                    None \<Rightarrow> Inl (WebhookError ''webhook body is not valid JSON'')
                  | Some parsed \<Rightarrow>
                      bind_result (require_obj ''webhook JSON root must be an object'' parsed) (\<lambda>ob.
                        case as_str (get_or (JStr []) ''action'' ob) of
                          None \<Rightarrow> Inl (WebhookError ''webhook action must be a string'')
                        | Some action \<Rightarrow> Inr \<lparr>w_delivery = i, w_event = ev, w_action = action,
                            w_payload = ob\<rparr>))"

section \<open>Fields\<close>

definition positive_int :: "json \<Rightarrow> string \<Rightarrow> webhook_error + int" where
  "positive_int v field = (case as_int v of
      Some n \<Rightarrow> if n \<le> 0 then Inl (WebhookError (''webhook '' @ field @ '' must be a positive integer'')) else Inr n
    | None \<Rightarrow> Inl (WebhookError (''webhook '' @ field @ '' must be a positive integer'')))"

definition owner_slash_repo :: "string \<Rightarrow> bool" where
  "owner_slash_repo s \<longleftrightarrow> count_char (CHR ''/'') s = 1 \<and> \<not> list_ex (\<lambda>p. p = []) (split_on (CHR ''/'') s)"

definition repository_name :: "(string \<times> json) list \<Rightarrow> webhook_error + string" where
  "repository_name payload =
     (case as_obj (get_key ''repository'' payload) of
        None \<Rightarrow> Inl (WebhookError ''webhook omitted repository.full_name'')
      | Some repository \<Rightarrow>
          (case as_str (get_key ''full_name'' repository) of
             None \<Rightarrow> Inl (WebhookError ''webhook omitted repository.full_name'')
           | Some full_name \<Rightarrow> if \<not> owner_slash_repo full_name
               then Inl (WebhookError ''webhook repository.full_name must be owner/repository'')
               else Inr (lower full_name)))"

definition installation_id :: "(string \<times> json) list \<Rightarrow> webhook_error + int" where
  "installation_id payload =
     bind_result (require_obj ''webhook omitted installation'' (get_key ''installation'' payload))
       (\<lambda>i. positive_int (get_key ''id'' i) ''installation.id'')"

definition head_sha_field :: "json \<Rightarrow> string \<Rightarrow> webhook_error + string" where
  "head_sha_field v field = (case as_str v of
      None \<Rightarrow> Inl (WebhookError (''webhook '' @ field @ '' must be a non-empty commit identifier''))
    | Some s \<Rightarrow> (case validate_head_sha s of
        Inl _ \<Rightarrow> Inl (WebhookError (''webhook '' @ field @
          '' must be exactly 40 or 64 lowercase hexadecimal characters''))
      | Inr h \<Rightarrow> Inr h))"

definition or_received :: "string \<Rightarrow> string" where
  "or_received action = (if action = [] then ''received'' else action)"

definition dotted_reason :: "verified_webhook \<Rightarrow> string" where
  "dotted_reason w = w_event w @ ''.'' @ or_received (w_action w)"

definition base_hint :: "json \<Rightarrow> string option" where
  "base_hint pull_base = (case as_obj pull_base of None \<Rightarrow> None
     | Some base \<Rightarrow> (case as_str (get_key ''ref'' base) of None \<Rightarrow> None
         | Some r \<Rightarrow> (case validate_base_ref_hint (Some r) of Inl _ \<Rightarrow> None | Inr h \<Rightarrow> h)))"

definition pull_work ::
  "(string \<times> json) list \<Rightarrow> int \<Rightarrow> string \<Rightarrow> string \<Rightarrow> string option \<Rightarrow> webhook_error + webhook_request" where
  \<comment> \<open>the \<open>JobRequest\<close> that both pull-request mappings build\<close>
  "pull_work payload number reason head base =
     bind_result (installation_id payload) (\<lambda>inst.
     bind_result (repository_name payload) (\<lambda>repo.
     bind_result (lift_request (make_job_request inst repo number reason (Some head) ''interactive'' None base))
       (\<lambda>q. Inr (PullWork q))))"

section \<open>Pull requests and check runs\<close>

definition pull_request_job :: "verified_webhook \<Rightarrow> bool \<Rightarrow> webhook_error + webhook_request" where
  "pull_request_job w allow_closed =
     bind_result (require_obj ''webhook omitted pull_request'' (get_key ''pull_request'' (w_payload w))) (\<lambda>pull.
       case in_str_set (get_key ''state'' pull) [''open'', ''closed''] of
         None \<Rightarrow> Inl PyTypeError
       | Some known \<Rightarrow>
           if \<not> known then Inl (WebhookError ''webhook pull_request.state must be open or closed'')
           else if get_key ''state'' pull = JStr ''closed'' \<and> \<not> allow_closed then Inr NoWork
           else bind_result (positive_int (py_or (get_key ''number'' pull) (get_key ''number'' (w_payload w)))
                  ''pull number'') (\<lambda>number.
             bind_result (require_obj ''webhook omitted pull_request.head'' (get_key ''head'' pull)) (\<lambda>head.
             bind_result (head_sha_field (get_key ''sha'' head) ''pull_request.head.sha'') (\<lambda>sha.
               pull_work (w_payload w) number (dotted_reason w) sha (base_hint (get_key ''base'' pull))))))"

definition foreign_check :: "int option \<Rightarrow> (string \<times> json) list \<Rightarrow> bool" where
  "foreign_check expected_app_id check_run = (case expected_app_id of None \<Rightarrow> False
     | Some app \<Rightarrow> (let source_id = (case as_obj (get_key ''app'' check_run) of None \<Rightarrow> JNull
           | Some source \<Rightarrow> get_key ''id'' source) in
         as_bool source_id \<noteq> None \<or> \<not> eq_int source_id app))"

definition foreign_action :: "verified_webhook \<Rightarrow> bool" where
  "foreign_action w \<longleftrightarrow> w_action w = ''requested_action'' \<and>
     (case as_obj (get_key ''requested_action'' (w_payload w)) of None \<Rightarrow> True
      | Some a \<Rightarrow> get_key ''identifier'' a \<noteq> JStr RE_EVALUATE_ACTION_IDENTIFIER)"

definition check_run_job :: "verified_webhook \<Rightarrow> int option \<Rightarrow> webhook_error + webhook_request" where
  "check_run_job w expected_app_id =
     bind_result (require_obj ''webhook omitted check_run'' (get_key ''check_run'' (w_payload w))) (\<lambda>check_run.
       if foreign_check expected_app_id check_run then Inr NoWork
       else if foreign_action w then Inr NoWork
       else (case get_key ''pull_requests'' check_run of
           JList [JObj pull] \<Rightarrow>
             bind_result (positive_int (get_key ''number'' pull) ''check_run pull number'') (\<lambda>number.
             bind_result (head_sha_field (get_key ''head_sha'' check_run) ''check_run.head_sha'') (\<lambda>sha.
               pull_work (w_payload w) number
                 (if w_action w = ''requested_action'' then ''check_run.requested_action.re-evaluate''
                  else ''check_run.rerequested'') sha None))
         | _ \<Rightarrow> Inr NoWork))"

section \<open>Pushes\<close>

definition authority_work ::
  "(string \<times> json) list \<Rightarrow> string option \<Rightarrow> string option \<Rightarrow> string \<Rightarrow> webhook_error + webhook_request" where
  "authority_work payload repo base reason =
     bind_result (installation_id payload) (\<lambda>inst.
     bind_result (lift_request (make_authority_request inst repo base reason)) (\<lambda>q. Inr (AuthorityWork q)))"

definition after_slash :: "string \<Rightarrow> string" where
  \<comment> \<open>\<open>full_name.split("/", 1)[-1]\<close> for a name with a slash\<close>
  "after_slash s = (case dropWhile (\<lambda>c. c \<noteq> CHR ''/'') s of [] \<Rightarrow> s | _ # r \<Rightarrow> r)"

definition string_list :: "json \<Rightarrow> string list option" where
  "string_list v = (case as_list v of None \<Rightarrow> None
     | Some l \<Rightarrow> if list_ex (\<lambda>x. as_str x = None) l then None else Some (List.map_filter as_str l))"

text \<open>The loop over the commits: the changed paths and whether any evidence was malformed.\<close>

definition commit_field :: "(string \<times> json) list \<Rightarrow> string \<Rightarrow> string list \<times> bool \<Rightarrow> string list \<times> bool" where
  "commit_field commit field acc = (case string_list (get_key field commit) of
      None \<Rightarrow> (fst acc, True) | Some paths \<Rightarrow> (fst acc @ paths, snd acc))"

definition commit_paths :: "json \<Rightarrow> string list \<times> bool \<Rightarrow> string list \<times> bool" where
  "commit_paths v acc = (case as_obj v of None \<Rightarrow> (fst acc, True)
     | Some commit \<Rightarrow> fold (commit_field commit) [''added'', ''modified'', ''removed''] acc)"

definition push_evidence :: "(string \<times> json) list \<Rightarrow> string list \<times> bool" where
  \<comment> \<open>the changed paths, and \<open>truncated\<close>\<close>
  "push_evidence payload =
     (case as_list (get_key ''commits'' payload) of
        None \<Rightarrow> ([], True)
      | Some commits \<Rightarrow>
          (let (changed, malformed) = fold commit_paths commits ([], False) in
           (changed, malformed \<or>
             (case as_int (get_key ''distinct_size'' payload) of None \<Rightarrow> True
              | Some n \<Rightarrow> n < 0 \<or> int (length commits) < n) \<or>
             get_key ''forced'' payload \<noteq> JBool False)))"

definition push_authority_job :: "verified_webhook \<Rightarrow> string \<Rightarrow> string \<Rightarrow> webhook_error + webhook_request" where
  "push_authority_job w policy_path org_repo =
     (if get_key ''deleted'' (w_payload w) = JBool True then Inr NoWork
      else case as_str (get_key ''ref'' (w_payload w)) of
        None \<Rightarrow> Inr NoWork
      | Some ref \<Rightarrow> if \<not> startswith ''refs/heads/'' ref then Inr NoWork
          else (let branch = removeprefix ''refs/heads/'' ref in
            bind_result (require_obj ''webhook omitted repository'' (get_key ''repository'' (w_payload w))) (\<lambda>repository.
            bind_result (repository_name (w_payload w)) (\<lambda>full_name.
              if after_slash full_name \<noteq> lower org_repo
              then authority_work (w_payload w) (Some full_name) (Some branch) ''push.repository_base''
              else if get_key ''default_branch'' repository \<noteq> JStr branch then Inr NoWork
              else (let (changed, truncated) = push_evidence (w_payload w) in
                if \<not> truncated \<and> policy_path \<notin> set changed then Inr NoWork
                else authority_work (w_payload w) None None ''push.organization_policy'')))))"

section \<open>Repositories and installations\<close>

definition is_alnum :: "char \<Rightarrow> bool" where
  "is_alnum c \<longleftrightarrow> is_upper_ascii c \<or> is_lower_ascii c \<or> is_digit c"

definition login_re :: "string \<Rightarrow> bool" where
  \<comment> \<open>\<open>[A-Za-z0-9][A-Za-z0-9-]{0,38}\<close>\<close>
  "login_re s = (case s of [] \<Rightarrow> False
     | c # r \<Rightarrow> is_alnum c \<and> list_all (\<lambda>d. is_alnum d \<or> d = CHR ''-'') r \<and> length r \<le> 38)"

definition repo_name_re :: "string \<Rightarrow> bool" where
  \<comment> \<open>\<open>[A-Za-z0-9_.-]{1,100}\<close>\<close>
  "repo_name_re s \<longleftrightarrow> s \<noteq> [] \<and> length s \<le> 100 \<and>
     list_all (\<lambda>c. is_alnum c \<or> c \<in> {CHR ''_'', CHR ''.'', CHR ''-''}) s"

definition single_added_repository :: "(string \<times> json) list \<Rightarrow> string \<Rightarrow> string option" where
  "single_added_repository payload org_repo =
     (case (get_key ''repositories_added'' payload, get_key ''repositories_removed'' payload) of
        (JList [added], JList []) \<Rightarrow>
          (case (as_obj added, as_obj (get_key ''installation'' payload)) of
             (Some repository, Some installation) \<Rightarrow>
               (case as_obj (get_key ''account'' installation) of
                  None \<Rightarrow> None
                | Some account \<Rightarrow>
                    (case (as_str (get_key ''login'' account), as_str (get_key ''name'' repository),
                           as_str (get_key ''full_name'' repository), as_int (get_key ''id'' repository)) of
                       (Some login, Some name, Some full_name, Some i) \<Rightarrow>
                         if \<not> login_re login \<or> \<not> repo_name_re name \<or> name \<in> {''.'', ''..''}
                           \<or> lower full_name \<noteq> lower (login @ ''/'' @ name) \<or> i \<le> 0
                           \<or> lower name = lower org_repo
                         then None else Some (lower full_name)
                     | _ \<Rightarrow> None))
           | _ \<Rightarrow> None)
      | _ \<Rightarrow> None)"

definition previous_repository_name :: "(string \<times> json) list \<Rightarrow> string option" where
  "previous_repository_name payload =
     (case as_obj (get_key ''changes'' payload) of None \<Rightarrow> None
      | Some changes \<Rightarrow> (case as_obj (get_key ''repository'' changes) of None \<Rightarrow> None
          | Some repository_change \<Rightarrow> (case as_obj (get_key ''name'' repository_change) of None \<Rightarrow> None
              | Some name_change \<Rightarrow> as_str (get_key ''from'' name_change))))"

definition default_branch_changed :: "(string \<times> json) list \<Rightarrow> bool" where
  "default_branch_changed payload = (case as_obj (get_key ''changes'' payload) of None \<Rightarrow> False
     | Some changes \<Rightarrow> map_of changes ''default_branch'' \<noteq> None)"

definition repository_event_job :: "verified_webhook \<Rightarrow> string \<Rightarrow> webhook_error + webhook_request" where
  "repository_event_job w org_repo =
     bind_result (require_obj ''webhook omitted repository'' (get_key ''repository'' (w_payload w))) (\<lambda>_.
     bind_result (repository_name (w_payload w)) (\<lambda>full_name.
       let org_affected = after_slash full_name = lower org_repo \<or>
             (case previous_repository_name (w_payload w) of None \<Rightarrow> False
              | Some p \<Rightarrow> lower p = lower org_repo) in
       if org_affected \<and> (w_action w \<in> {''deleted'', ''renamed'', ''transferred''} \<or>
            (w_action w = ''edited'' \<and> default_branch_changed (w_payload w)))
          \<or> w_action w \<in> {''renamed'', ''transferred'', ''unarchived''}
       then authority_work (w_payload w) None None (''repository.'' @ w_action w)
       else Inr NoWork))"

definition removed_evidence :: "json \<Rightarrow> string \<Rightarrow> bool" where
  \<comment> \<open>\<open>malformed or organization_policy_removed\<close>\<close>
  "removed_evidence v org_repo = (case as_list v of
      None \<Rightarrow> True
    | Some l \<Rightarrow> l = [] \<or> list_ex (\<lambda>r. case as_obj r of
          None \<Rightarrow> True
        | Some repository \<Rightarrow> (case as_str (get_key ''full_name'' repository) of
              None \<Rightarrow> True
            | Some n \<Rightarrow> \<not> owner_slash_repo n \<or> lower (after_slash n) = lower org_repo)) l)"

section \<open>The mapping\<close>

definition evaluation_job ::
  "string \<Rightarrow> string \<Rightarrow> int option \<Rightarrow> verified_webhook \<Rightarrow> webhook_error + webhook_request" where
  "evaluation_job policy_path org_repo expected_app_id w =
     (let whole = (\<lambda>reason. authority_work (w_payload w) None None reason) in
      if w_event w = ''pull_request''
      then (if w_action w \<in> set PULL_REQUEST_ACTIONS
            then pull_request_job w (w_action w = ''closed'') else Inr NoWork)
      else if w_event w = ''pull_request_review''
      then (if w_action w \<in> set REVIEW_ACTIONS then pull_request_job w False else Inr NoWork)
      else if w_event w = ''check_run'' \<and> w_action w \<in> {''rerequested'', ''requested_action''}
      then check_run_job w expected_app_id
      else if w_event w = ''push'' then push_authority_job w policy_path org_repo
      else if w_event w = ''repository'' then repository_event_job w org_repo
      else if w_event w \<in> {''label'', ''member'', ''team_add''}
      then bind_result (installation_id (w_payload w)) (\<lambda>_.
             bind_result (repository_name (w_payload w)) (\<lambda>repo.
               authority_work (w_payload w) (Some repo) None (dotted_reason w)))
      else if w_event w \<in> {''membership'', ''organization'', ''team''} then whole (dotted_reason w)
      else if w_event w = ''installation'' \<and>
        w_action w \<in> {''created'', ''unsuspend'', ''new_permissions_accepted''}
      then whole (''installation.'' @ w_action w)
      else if w_event w = ''installation_repositories'' \<and> w_action w = ''added''
      then authority_work (w_payload w) (single_added_repository (w_payload w) org_repo) None
             ''installation_repositories.added''
      else if w_event w = ''installation_repositories'' \<and> w_action w = ''removed''
      then (if removed_evidence (get_key ''repositories_removed'' (w_payload w)) org_repo
            then whole ''installation_repositories.removed'' else Inr NoWork)
      else if w_event w = ''installation_target'' \<and> w_action w = ''renamed''
      then whole ''installation_target.renamed''
      else Inr NoWork)"

end
