(* ===== verification/Webhook_Facts.thy ===== *)
theory Webhook_Facts
  imports Webhooks Queue_Recovery
begin

text \<open>
  What the webhook boundary guarantees: only signed bodies are interpreted, every request it
  builds is well-formed for the queue, a signed change of the shared policy is never missed,
  and a signed pull-request event closes the publication of its head once it is accepted.
\<close>

section \<open>Authentication\<close>

text \<open>C31. A delivery is interpreted exactly when it is authentic and well-formed: its body is within
  the size limit, its signature is the HMAC of the body under the shared secret, its
  delivery id and event name are present and bounded, and the body is a JSON object whose
  action, if any, is text; the interpreted payload is then that object.\<close>

theorem webhook_is_authentic:
  assumes "\<And>k b. list_all (\<lambda>c. code c < 128) (hmac_hex k b)"
  shows "verify_webhook hmac_hex json_loads body signature delivery event secret = Inr w \<longleftrightarrow>
    int (length body) \<le> MAX_WEBHOOK_BYTES \<and> signature = Some (''sha256='' @ hmac_hex secret body) \<and>
    delivery = Some (w_delivery w) \<and> w_delivery w \<noteq> [] \<and> length (w_delivery w) \<le> 128 \<and>
    event = Some (w_event w) \<and> w_event w \<noteq> [] \<and> length (w_event w) \<le> 128 \<and>
    json_loads body = Some (JObj (w_payload w)) \<and>
    get_or (JStr []) ''action'' (w_payload w) = JStr (w_action w)"
proof -
  have ascii: "\<not> list_ex (\<lambda>c. 128 \<le> code c) (''sha256='' @ hmac_hex secret body)"
    using assms [of secret body] by (auto simp: list_ex_iff list_all_iff not_le)
  show ?thesis
    by (cases w) (use ascii in \<open>auto simp: verify_webhook_def split: if_splits option.splits\<close>)
qed

definition sample_hook :: verified_webhook where
  "sample_hook = \<lparr>w_delivery = ''x1'', w_event = ''pull_request_review'', w_action = ''submitted'',
     w_payload = [(''action'', JStr ''submitted''),
       (''repository'', JObj [(''full_name'', JStr ''o/r'')]),
       (''installation'', JObj [(''id'', JInt 5)]),
       (''pull_request'', JObj [(''state'', JStr ''open''), (''number'', JInt 7),
          (''head'', JObj [(''sha'', JStr sample_head)]), (''base'', JObj [(''ref'', JStr ''main'')])])]\<rparr>"

theorem webhook_is_authentic_witness:
  "verify_webhook (\<lambda>_ _. ''ab'') (\<lambda>_. Some (JObj (w_payload sample_hook))) ''{}'' (Some ''sha256=ab'')
     (Some ''x1'') (Some ''pull_request_review'') ''s'' = Inr sample_hook"
proof -
  have "list_all (\<lambda>c. code c < 128) ''ab''" by code_simp
  then have h: "\<And>k b. list_all (\<lambda>c. code c < 128) ((\<lambda>_ _. ''ab'') k b)" .
  show ?thesis
    by (subst webhook_is_authentic [OF h])
      (simp add: sample_hook_def MAX_WEBHOOK_BYTES_def get_or_def)
qed

section \<open>Well-formed requests\<close>

lemma pull_work_ok:
  assumes "pull_work payload n reason h base = Inr x" and "CHR ''.'' \<in> set reason"
  shows "\<exists>q. x = PullWork q \<and> q_head q = Some h \<and> q_pull q = n \<and> q_class q = Interactive \<and>
    0 < q_installation q \<and> canonical_repo (q_repo q) \<and> q_reason q = reason \<and>
    installation_id payload = Inr (q_installation q) \<and> repository_name payload = Inr (q_repo q)"
proof -
  from assms(1) obtain i r q where i: "installation_id payload = Inr i" and r: "repository_name payload = Inr r"
    and q: "make_job_request i r n reason (Some h) ''interactive'' None base = Inr q" and x: "x = PullWork q"
    by (auto simp: pull_work_def)
  have "reason \<notin> {PERIODIC_RECONCILIATION_REASON, SCHEDULED_RECHECK_REASON}"
    using assms(2) by (auto simp: PERIODIC_RECONCILIATION_REASON_def SCHEDULED_RECHECK_REASON_def)
  moreover have "0 < i" using i by (auto simp: installation_id_def positive_int_def split: option.splits if_splits)
  moreover have "lower r = r"
    using r by (auto simp: repository_name_def split: option.splits if_splits)
  moreover have "n' = lower v" if "normalize_repository_full_name v = Inr n'" for v n'
    using that by (auto simp: normalize_repository_full_name_def split: if_splits)
  ultimately show ?thesis
    using q x i r make_job_request_canonical [OF q]
    by (auto simp: make_job_request_def parse_work_class_def Let_def split: if_splits)
qed

lemma head_sha_field_ok: "head_sha_field v f = Inr h \<Longrightarrow> v = JStr h \<and> validate_head_sha h = Inr h"
  by (auto simp: head_sha_field_def split: option.splits sum.splits dest: validate_head_sha_Inr)

lemma positive_int_ok: "positive_int v f = Inr n \<Longrightarrow> v = JInt n \<and> 0 < n"
  by (auto simp: positive_int_def split: option.splits if_splits)

lemma authority_work_ok:
  assumes "authority_work payload repo base reason = Inr x"
  shows "\<exists>q. x = AuthorityWork q \<and> 0 < aq_installation q \<and> (\<forall>r. aq_repo q = Some r \<longrightarrow> canonical_repo r) \<and>
    (aq_repo q = None \<longleftrightarrow> repo = None) \<and> aq_base q = base \<and> aq_reason q = reason \<and>
    installation_id payload = Inr (aq_installation q)"
proof -
  from assms obtain i q where i: "installation_id payload = Inr i"
    and q: "make_authority_request i repo base reason = Inr q" and x: "x = AuthorityWork q"
    by (auto simp: authority_work_def)
  have "0 < i" using i by (auto simp: installation_id_def dest: positive_int_ok)
  with q x i show ?thesis
    by (auto simp: make_authority_request_def split: option.splits dest: normalize_repository_canonical)
qed

text \<open>The well-formedness the queue relies on.\<close>

definition work_ok :: "webhook_request \<Rightarrow> bool" where
  "work_ok x = (case x of
      PullWork q \<Rightarrow> 0 < q_installation q \<and> 0 < q_pull q \<and> q_class q = Interactive \<and>
        canonical_repo (q_repo q) \<and> (\<exists>h. q_head q = Some h \<and> validate_head_sha h = Inr h)
    | AuthorityWork q \<Rightarrow> 0 < aq_installation q \<and> (\<forall>r. aq_repo q = Some r \<longrightarrow> canonical_repo r) \<and>
        (aq_repo q = None \<longrightarrow> aq_base q = None)
    | NoWork \<Rightarrow> True)"

lemma authority_work_type:
  "authority_work payload repo base reason = Inr x \<Longrightarrow> repo = None \<longrightarrow> base = None \<Longrightarrow> work_ok x"
  by (auto dest!: authority_work_ok simp: work_ok_def)

lemma pull_work_type:
  assumes "pull_work payload n reason h base = Inr x" and "CHR ''.'' \<in> set reason" and "0 < n"
    and "validate_head_sha h = Inr h"
  shows "work_ok x"
  using pull_work_ok [OF assms(1,2)] assms(3,4) by (auto simp: work_ok_def)

lemma pull_request_job_cases:
  assumes "pull_request_job w closed = Inr x"
  obtains "x = NoWork" "\<not> closed"
  | pull head n h where "get_key ''pull_request'' (w_payload w) = JObj pull" "get_key ''head'' pull = JObj head"
      "py_or (get_key ''number'' pull) (get_key ''number'' (w_payload w)) = JInt n" "0 < n"
      "get_key ''sha'' head = JStr h" "validate_head_sha h = Inr h"
      "pull_work (w_payload w) n (dotted_reason w) h (base_hint (get_key ''base'' pull)) = Inr x"
proof -
  from assms obtain pull known where pull: "get_key ''pull_request'' (w_payload w) = JObj pull"
    and known: "in_str_set (get_key ''state'' pull) [''open'', ''closed''] = Some known" "known"
    by (auto simp: pull_request_job_def split: option.splits if_splits)
  show thesis
  proof (cases "get_key ''state'' pull = JStr ''closed'' \<and> \<not> closed")
    case True
    with assms pull known that(1) show thesis by (simp add: pull_request_job_def)
  next
    case False
    with assms pull known obtain n head h where
      n: "positive_int (py_or (get_key ''number'' pull) (get_key ''number'' (w_payload w))) ''pull number'' = Inr n"
      and head: "get_key ''head'' pull = JObj head"
      and h: "head_sha_field (get_key ''sha'' head) ''pull_request.head.sha'' = Inr h"
      and x: "pull_work (w_payload w) n (dotted_reason w) h (base_hint (get_key ''base'' pull)) = Inr x"
      by (simp add: pull_request_job_def if_not_P [OF False]) blast
    from that(2) [OF pull head _ _ _ _ x] positive_int_ok [OF n] head_sha_field_ok [OF h] show thesis by blast
  qed
qed

lemma pull_request_job_type: "pull_request_job w closed = Inr x \<Longrightarrow> work_ok x"
  by (erule pull_request_job_cases) (simp add: work_ok_def, rule pull_work_type, auto simp: dotted_reason_def)

lemma check_run_job_cases:
  assumes "check_run_job w app = Inr x"
  obtains "x = NoWork"
  | n h reason where "0 < n" "validate_head_sha h = Inr h" "CHR ''.'' \<in> set reason"
      "pull_work (w_payload w) n reason h None = Inr x"
proof -
  from assms obtain check_run where c: "get_key ''check_run'' (w_payload w) = JObj check_run"
    by (auto simp: check_run_job_def)
  show thesis
  proof (cases "\<exists>pull. get_key ''pull_requests'' check_run = JList [JObj pull] \<and>
      \<not> foreign_check app check_run \<and> \<not> foreign_action w")
    case True
    then obtain pull where p: "get_key ''pull_requests'' check_run = JList [JObj pull]"
      "\<not> foreign_check app check_run" "\<not> foreign_action w" by blast
    let ?reason = "if w_action w = ''requested_action'' then ''check_run.requested_action.re-evaluate''
      else ''check_run.rerequested''"
    from assms c p obtain n h where n: "positive_int (get_key ''number'' pull) ''check_run pull number'' = Inr n"
      and h: "head_sha_field (get_key ''head_sha'' check_run) ''check_run.head_sha'' = Inr h"
      and x: "pull_work (w_payload w) n ?reason h None = Inr x"
      by (simp add: check_run_job_def) blast
    have "CHR ''.'' \<in> set ?reason" by simp
    from that(2) [OF _ _ this x] positive_int_ok [OF n] head_sha_field_ok [OF h] show thesis by blast
  next
    case False
    with assms c have "x = NoWork"
      by (simp add: check_run_job_def split: if_splits json.splits list.splits)
    with that(1) show thesis .
  qed
qed

lemma check_run_job_type: "check_run_job w app = Inr x \<Longrightarrow> work_ok x"
  by (erule check_run_job_cases) (simp add: work_ok_def, rule pull_work_type)

lemma push_job_type: "push_authority_job w policy org = Inr x \<Longrightarrow> work_ok x"
  by (auto simp: push_authority_job_def work_ok_def [of NoWork] Let_def intro: authority_work_type
      split: if_splits option.splits prod.splits)

lemma repository_job_type: "repository_event_job w org = Inr x \<Longrightarrow> work_ok x"
  by (auto simp: repository_event_job_def work_ok_def [of NoWork] Let_def intro: authority_work_type
      split: if_splits)

text \<open>C32. Whatever a signed webhook contains, the work it maps to is well-formed: a pull-request job
  is direct work with a positive installation and number, a canonical repository name and a
  valid head, and an authority request has a positive installation, a canonical repository
  or none, and a branch only with a repository.\<close>

theorem webhook_work_is_well_formed:
  assumes "evaluation_job policy org app w = Inr x"
  shows "work_ok x"
proof -
  note types = pull_request_job_type check_run_job_type push_job_type repository_job_type
  from assms show ?thesis
    unfolding evaluation_job_def Let_def
    by (auto simp: work_ok_def [of NoWork] intro: types authority_work_type split: if_splits)
qed

theorem webhook_work_is_well_formed_witness:
  "\<exists>q. evaluation_job ''p'' ''.github'' (Some 3) sample_hook = Inr (PullWork q) \<and> work_ok (PullWork q)"
proof -
  have "case evaluation_job ''p'' ''.github'' (Some 3) sample_hook of Inr (PullWork q) \<Rightarrow> True | _ \<Rightarrow> False"
    by code_simp
  then obtain q where q: "evaluation_job ''p'' ''.github'' (Some 3) sample_hook = Inr (PullWork q)"
    by (auto split: sum.splits webhook_request.splits)
  from webhook_work_is_well_formed [OF q] q show ?thesis by blast
qed

section \<open>From the webhook to the publication fence\<close>

lemma first_delivery_shape:
  assumes "db_ok d" and "find_delivery d i = None"
    and "accept_delivery now guard i event (PullWork q) trace d = Inr (d', acc)"
  obtains d1 g ds where "advance_shared_head_epoch now q d = Inr (d1, g)" "unique_by d_id ds"
    "d' = enqueue_in_session now q (Some i) (Some g) False True (d1\<lparr>deliveries := ds\<rparr>)"
proof -
  from assms(2,3) obtain d1 g x where a: "advance_shared_head_epoch now q d = Inr (d1, g)"
    and d: "d' = enqueue_in_session now q (Some i) (Some g) False True (d1\<lparr>deliveries := deliveries d1 @ [x]\<rparr>)"
    and x: "d_id x = i"
    by (auto simp: accept_delivery_def first_delivery_def Let_def new_delivery_def)
  have "deliveries d1 = deliveries d" using assms(1) a by (cases rule: advance_cases) auto
  moreover have "unique_by d_id (deliveries d)" using assms(1) by (simp add: db_ok_def)
  moreover have "i \<notin> d_id ` set (deliveries d)" using assms(2) by (auto simp: find_delivery_def find_None)
  ultimately have "unique_by d_id (deliveries d1 @ [x])" using x by (simp add: unique_by_snoc)
  with that a d show thesis by blast
qed

lemma first_trigger_closes:
  assumes "db_ok d" and "evaluation_job policy org app w = Inr (PullWork q)"
    and "find_delivery d (w_delivery w) = None"
    and "accept_delivery now guard (w_delivery w) (w_event w) (PullWork q) trace d = Inr (d', acc)"
    and "c_installation c = q_installation q" and "c_repo c = q_repo q"
  shows "\<exists>h. q_head q = Some h \<and> accepted acc \<and> \<not> publishable d' c h \<and> fresh_row now q d'"
proof -
  from assms(2) have "work_ok (PullWork q)"
    using pull_request_job_type check_run_job_type push_job_type repository_job_type authority_work_type
    unfolding evaluation_job_def Let_def by (simp split: if_splits) blast+
  then obtain h where h: "q_head q = Some h" and canon: "canonical_repo (q_repo q)"
    by (auto simp: work_ok_def)
  obtain d1 g ds where a: "advance_shared_head_epoch now q d = Inr (d1, g)"
    and d': "d' = enqueue_in_session now q (Some (w_delivery w)) (Some g) False True (d1\<lparr>deliveries := ds\<rparr>)"
    and u: "unique_by d_id ds"
    using first_delivery_shape [OF assms(1,3,4)] by metis
  have "db_ok d1" using advance_keeps(1) [OF assms(1) a] by (rule keeps_ok)
  then have "db_ok (d1\<lparr>deliveries := ds\<rparr>)" using u by (simp add: db_ok_def)
  then have "fresh_row now q d'" unfolding d' by (rule fresh_enqueue)
  with accept_pull_closes [OF assms(1) canon assms(3,4,5,6) h] h show ?thesis by blast
qed

text \<open>A signed trigger fences publication before it is acknowledged: if a webhook maps to a pull
  request and its delivery is accepted for the first time, then in the resulting database
  the request's head is fenced against every claim of that repository until an exact-head
  reset completes, and a pending, unleased row for that head is due at once.\<close>

theorem signed_trigger_closes_publication:
  assumes "db_ok d" and "evaluation_job policy org app w = Inr (PullWork q)"
    and "find_delivery d (w_delivery w) = None"
    and "accept_delivery now guard (w_delivery w) (w_event w) (PullWork q) trace d = Inr (d', acc)"
    and "c_installation c = q_installation q" and "c_repo c = q_repo q"
  shows "\<exists>h. q_head q = Some h \<and> accepted acc \<and> \<not> publishable d' c h \<and> fresh_row now q d'"
  using assms by (rule first_trigger_closes)

theorem signed_trigger_closes_publication_witness:
  "\<exists>q d' acc. evaluation_job ''p'' ''.github'' None sample_hook = Inr (PullWork q) \<and>
     accept_delivery 220 True ''x1'' ''pull_request_review'' (PullWork q) None sample_db = Inr (d', acc) \<and>
     \<not> publishable d' (the (snd sample_leased)) sample_head"
proof -
  let ?q = "sample_request\<lparr>q_reason := ''pull_request_review.submitted'', q_base := Some ''main''\<rparr>"
  let ?r = "accept_delivery 220 True (w_delivery sample_hook) (w_event sample_hook) (PullWork ?q) None sample_db"
  have e: "evaluation_job ''p'' ''.github'' None sample_hook = Inr (PullWork ?q)" by code_simp
  have "\<not> isl ?r" "find_delivery sample_db (w_delivery sample_hook) = None"
    "c_installation (the (snd sample_leased)) = q_installation ?q"
    "c_repo (the (snd sample_leased)) = q_repo ?q" by code_simp+
  then obtain d' acc where r: "?r = Inr (d', acc)" and n: "find_delivery sample_db (w_delivery sample_hook) = None"
    "c_installation (the (snd sample_leased)) = q_installation ?q"
    "c_repo (the (snd sample_leased)) = q_repo ?q" by (metis not_isl_Inr prod.exhaust)
  from signed_trigger_closes_publication [OF db_ok_sample e n(1) r n(2,3)] e r show ?thesis
    by (auto simp: sample_request_def sample_hook_def)
qed

section \<open>Policy pushes\<close>

text \<open>What a push payload reports: complete evidence, and a change of a path.\<close>

definition complete_push :: "(string \<times> json) list \<Rightarrow> bool" where
  "complete_push payload \<longleftrightarrow> (\<exists>commits n. get_key ''commits'' payload = JList commits \<and>
     (\<forall>v \<in> set commits. \<exists>c. v = JObj c \<and>
        (\<forall>f \<in> {''added'', ''modified'', ''removed''}. string_list (get_key f c) \<noteq> None)) \<and>
     get_key ''distinct_size'' payload = JInt n \<and> 0 \<le> n \<and> n \<le> int (length commits) \<and>
     get_key ''forced'' payload = JBool False)"

definition push_changes :: "string \<Rightarrow> (string \<times> json) list \<Rightarrow> bool" where
  "push_changes path payload \<longleftrightarrow> (\<exists>commits c f paths. get_key ''commits'' payload = JList commits \<and>
     JObj c \<in> set commits \<and> f \<in> {''added'', ''modified'', ''removed''} \<and>
     string_list (get_key f c) = Some paths \<and> path \<in> set paths)"

lemma commit_field_acc:
  "fst (commit_field c f acc) = fst acc @ (case string_list (get_key f c) of None \<Rightarrow> [] | Some paths \<Rightarrow> paths)"
  "snd (commit_field c f acc) \<longleftrightarrow> snd acc \<or> string_list (get_key f c) = None"
  by (simp_all add: commit_field_def split: option.split)

lemma commit_fields_paths:
  "path \<in> set (fst (fold (commit_field c) fs acc)) \<longleftrightarrow> path \<in> set (fst acc) \<or>
     (\<exists>f \<in> set fs. \<exists>paths. string_list (get_key f c) = Some paths \<and> path \<in> set paths)"
  by (induction fs arbitrary: acc) (auto simp: commit_field_acc split: option.splits)

lemma commit_fields_bad:
  "snd (fold (commit_field c) fs acc) \<longleftrightarrow> snd acc \<or> (\<exists>f \<in> set fs. string_list (get_key f c) = None)"
  by (induction fs arbitrary: acc) (auto simp: commit_field_acc)

lemma commit_paths_obj: "commit_paths (JObj c) acc = fold (commit_field c) [''added'', ''modified'', ''removed''] acc"
  by (simp add: commit_paths_def as_obj_def)

lemma commit_paths_other: "as_obj v = None \<Longrightarrow> commit_paths v acc = (fst acc, True)"
  by (simp add: commit_paths_def)

lemma as_obj_None: "as_obj v = None \<longleftrightarrow> (\<forall>c. v \<noteq> JObj c)"
  by (cases v) (auto simp: as_obj_def)

abbreviation push_fields :: "string set" where
  "push_fields \<equiv> set [''added'', ''modified'', ''removed'']"

lemma commit_paths_fold:
  "path \<in> set (fst (fold commit_paths cs acc)) \<longleftrightarrow> path \<in> set (fst acc) \<or>
     (\<exists>c \<in> {c. JObj c \<in> set cs}. \<exists>f \<in> push_fields. \<exists>paths. string_list (get_key f c) = Some paths \<and> path \<in> set paths)"
proof (induction cs arbitrary: acc)
  case (Cons v cs)
  show ?case
  proof (cases "as_obj v")
    case None
    then have "JObj c \<in> set (v # cs) \<longleftrightarrow> JObj c \<in> set cs" for c by (auto simp: as_obj_None)
    with None Cons.IH [of "(fst acc, True)"] show ?thesis
      by (simp only: fold_simps commit_paths_other [OF None] fst_conv)
  next
    case (Some c)
    then have v: "v = JObj c" by simp
    have cur: "path \<in> set (fst (commit_paths (JObj c) acc)) \<longleftrightarrow> path \<in> set (fst acc) \<or>
      (\<exists>f \<in> push_fields. \<exists>paths. string_list (get_key f c) = Some paths \<and> path \<in> set paths)"
      unfolding commit_paths_obj commit_fields_paths by (rule refl)
    have eq: "{b. JObj b \<in> set (JObj c # cs)} = insert c {b. JObj b \<in> set cs}" by auto
    show ?thesis unfolding v fold_simps Cons.IH [of "commit_paths (JObj c) acc"] cur eq bex_simps(5)
      by (rule disj_assoc)
  qed
qed simp

lemma commit_paths_bad:
  "snd (fold commit_paths cs acc) \<longleftrightarrow> snd acc \<or>
     (\<exists>v \<in> set cs. \<forall>c. v = JObj c \<longrightarrow> (\<exists>f \<in> push_fields. string_list (get_key f c) = None))"
proof (induction cs arbitrary: acc)
  case (Cons v cs)
  show ?case
  proof (cases "as_obj v")
    case None
    with Cons.IH [of "(fst acc, True)"] show ?thesis
      unfolding fold_simps commit_paths_other [OF None] by (simp add: as_obj_None)
  next
    case (Some c)
    then have v: "v = JObj c" by simp
    have "snd (commit_paths v acc) \<longleftrightarrow> snd acc \<or> (\<exists>f \<in> push_fields. string_list (get_key f c) = None)"
      unfolding v commit_paths_obj commit_fields_bad by (rule refl)
    with Cons.IH [of "commit_paths v acc"] show ?thesis unfolding fold_simps v by auto
  qed
qed simp

lemma push_evidence_iff:
  assumes "push_evidence payload = (changed, truncated)"
  shows "\<not> truncated \<longleftrightarrow> complete_push payload"
    and "\<not> truncated \<Longrightarrow> path \<in> set changed \<longleftrightarrow> push_changes path payload"
proof -
  have "(\<not> truncated \<longleftrightarrow> complete_push payload) \<and> (\<not> truncated \<longrightarrow> (path \<in> set changed \<longleftrightarrow> push_changes path payload))"
  proof (cases "as_list (get_key ''commits'' payload)")
    case None
    then have "\<not> complete_push payload" by (auto simp: complete_push_def as_list_def)
    with None assms show ?thesis by (simp add: push_evidence_def)
  next
    case (Some commits)
    then have c: "get_key ''commits'' payload = JList commits" by simp
    obtain ch m where m: "fold commit_paths commits ([], False) = (ch, m)" by fastforce
    have bad: "m \<longleftrightarrow> (\<exists>v \<in> set commits. \<forall>c. v = JObj c \<longrightarrow> (\<exists>f \<in> push_fields. string_list (get_key f c) = None))"
      using commit_paths_bad [of commits "([], False)"] m by simp
    have chg: "path \<in> set ch \<longleftrightarrow> push_changes path payload"
      using commit_paths_fold [of path commits "([], False)"] m c by (auto simp: push_changes_def)
    have t: "changed = ch" "truncated \<longleftrightarrow> m \<or> (case as_int (get_key ''distinct_size'' payload) of None \<Rightarrow> True
        | Some n \<Rightarrow> n < 0 \<or> int (length commits) < n) \<or> get_key ''forced'' payload \<noteq> JBool False"
      using assms Some m by (auto simp: push_evidence_def)
    have "(case as_int (get_key ''distinct_size'' payload) of None \<Rightarrow> True
        | Some n \<Rightarrow> n < 0 \<or> int (length commits) < n) \<longleftrightarrow>
      \<not> (\<exists>n. get_key ''distinct_size'' payload = JInt n \<and> 0 \<le> n \<and> n \<le> int (length commits))"
      by (cases "get_key ''distinct_size'' payload") (auto simp: as_int_def)
    with t bad c have "\<not> truncated \<longleftrightarrow> complete_push payload" by (auto simp: complete_push_def)
    with t chg show ?thesis by blast
  qed
  then show "\<not> truncated \<longleftrightarrow> complete_push payload"
    and "\<not> truncated \<Longrightarrow> path \<in> set changed \<longleftrightarrow> push_changes path payload" by blast+
qed

text \<open>C33. A push to the default branch of the shared policy repository that does not delete the branch
  is ignored only on proof: the delivery maps to no work exactly when its evidence is complete (every commit lists its
  paths, the commit list is not truncated, the push is not forced) and no commit touches
  the policy path; otherwise it maps to an authority change of the whole installation.\<close>

theorem policy_push_is_ignored_only_on_proof:
  assumes "w_event w = ''push''" and "get_key ''deleted'' (w_payload w) \<noteq> JBool True"
    and "get_key ''ref'' (w_payload w) = JStr (''refs/heads/'' @ branch)"
    and "get_key ''repository'' (w_payload w) = JObj repository"
    and "repository_name (w_payload w) = Inr full_name" and "after_slash full_name = lower org"
    and "get_key ''default_branch'' repository = JStr branch"
    and "installation_id (w_payload w) = Inr i"
  shows "evaluation_job policy org app w = (if complete_push (w_payload w) \<and> \<not> push_changes policy (w_payload w)
    then Inr NoWork
    else Inr (AuthorityWork \<lparr>aq_installation = i, aq_repo = None, aq_base = None,
      aq_reason = ''push.organization_policy''\<rparr>))"
proof -
  obtain changed truncated where e: "push_evidence (w_payload w) = (changed, truncated)" by fastforce
  have "evaluation_job policy org app w = push_authority_job w policy org"
    using assms(1) by (simp add: evaluation_job_def)
  also have "\<dots> = (if \<not> truncated \<and> policy \<notin> set changed then Inr NoWork
      else authority_work (w_payload w) None None ''push.organization_policy'')"
    using assms(2-7) e removeprefix_append [of "''refs/heads/''" branch]
    by (simp add: push_authority_job_def as_str_def require_obj_def as_obj_def)
  also have "authority_work (w_payload w) None None ''push.organization_policy'' =
      Inr (AuthorityWork \<lparr>aq_installation = i, aq_repo = None, aq_base = None, aq_reason = ''push.organization_policy''\<rparr>)"
    using assms(8) by (simp add: authority_work_def make_authority_request_def)
  finally show ?thesis using push_evidence_iff(1) [OF e] push_evidence_iff(2) [OF e, of policy] by auto
qed

definition policy_push :: verified_webhook where
  "policy_push = \<lparr>w_delivery = ''x2'', w_event = ''push'', w_action = [],
     w_payload = [(''ref'', JStr ''refs/heads/main''), (''installation'', JObj [(''id'', JInt 5)]),
       (''repository'', JObj [(''full_name'', JStr ''o/.github''), (''default_branch'', JStr ''main'')]),
       (''commits'', JList []), (''distinct_size'', JInt 0), (''forced'', JBool True)]\<rparr>"

theorem policy_push_is_ignored_only_on_proof_witness:
  "evaluation_job ''p'' ''.github'' None policy_push = Inr (AuthorityWork
     \<lparr>aq_installation = 5, aq_repo = None, aq_base = None, aq_reason = ''push.organization_policy''\<rparr>)"
proof -
  have "repository_name (w_payload policy_push) = Inr ''o/.github''" "after_slash ''o/.github'' = lower ''.github''"
    "installation_id (w_payload policy_push) = Inr 5" by code_simp+
  from policy_push_is_ignored_only_on_proof [of policy_push "''main''" _ _ "''.github''", OF _ _ _ _ this(1,2) _ this(3)]
  show ?thesis by (simp add: policy_push_def get_key_def get_or_def complete_push_def)
qed

end
