(* ===== verification/Dco.thy ===== *)
theory Dco
  imports Json Models
begin

text \<open>
  \<open>extra_codeowners/dco.py\<close>: the immutable models of the sign-off evidence with their
  validators, their construction from GitHub payloads, and the evaluation of a pull request.
  A constructor returns the collected field errors or the record, as in \<open>Models\<close>; a helper
  that raises \<open>ValueError\<close> itself returns \<open>DcoValueError\<close>. On the characters of the model,
  \<open>str.casefold\<close> is the lower-casing of the letters and the expansion of the sharp s (the
  micro sign maps to a letter outside the range, and no other character does).
\<close>

datatype dco_error = DcoValueError string | DcoIndexError | DcoInvalid "field_error list"

section \<open>Bounds and constants\<close>

definition MAX_PULL_COMMITS :: int where "MAX_PULL_COMMITS = 250"
definition MAX_COMMIT_PARENTS :: int where "MAX_COMMIT_PARENTS = 64"
definition MAX_COMMIT_MESSAGE_BYTES :: int where "MAX_COMMIT_MESSAGE_BYTES = 1000000"

definition DEPENDABOT_AUTHOR_LOGIN :: string where "DEPENDABOT_AUTHOR_LOGIN = ''dependabot[bot]''"
definition DEPENDABOT_AUTHOR_ID :: int where "DEPENDABOT_AUTHOR_ID = 49699333"
definition DEPENDABOT_AUTHOR_EMAIL :: string where
  "DEPENDABOT_AUTHOR_EMAIL = ''49699333+dependabot[bot]@users.noreply.github.com''"
definition DEPENDABOT_SIGNOFF :: string where
  "DEPENDABOT_SIGNOFF = ''Signed-off-by: dependabot[bot] <support@github.com>''"
definition DEPENDABOT_COMMITTER_LOGIN :: string where "DEPENDABOT_COMMITTER_LOGIN = ''web-flow''"
definition DEPENDABOT_COMMITTER_ID :: int where "DEPENDABOT_COMMITTER_ID = 19864447"
definition DEPENDABOT_COMMITTER_EMAIL :: string where "DEPENDABOT_COMMITTER_EMAIL = ''noreply@github.com''"

section \<open>Text\<close>

definition validate_bounded_text :: "string \<Rightarrow> int \<Rightarrow> bool \<Rightarrow> string \<Rightarrow> string + string" where
  \<comment> \<open>controls are forbidden at every call; the flag is \<open>forbid_whitespace\<close>\<close>
  "validate_bounded_text field max_bytes forbid_whitespace v =
     (if v = [] then Inl (field @ '' must not be empty'')
      else if max_bytes < int (utf8_length v)
      then Inl (field @ '' exceeds the '' @ show_int max_bytes @ ''-byte limit'')
      else if list_ex is_control v
      then Inl (field @ '' must not contain control or formatting characters'')
      else if forbid_whitespace \<and> list_ex is_space v
      then Inl (field @ '' must not contain whitespace'')
      else Inr v)"

definition hex_lower :: "char \<Rightarrow> bool" where
  "hex_lower c \<longleftrightarrow> is_digit c \<or> (97 \<le> code c \<and> code c \<le> 102)"

definition sha_re :: "string \<Rightarrow> bool" where
  "sha_re s \<longleftrightarrow> length s = 40 \<and> list_all hex_lower s"

definition validate_sha :: "string \<Rightarrow> string + string" where
  "validate_sha v = (if sha_re v then Inr v
     else Inl ''commit SHA must be exactly 40 lowercase hexadecimal characters'')"

definition repo_part_re :: "string \<Rightarrow> bool" where
  "repo_part_re s \<longleftrightarrow> s \<noteq> [] \<and> list_all (\<lambda>c. is_lower_ascii c \<or> is_upper_ascii c \<or> is_digit c \<or>
     c \<in> {CHR ''_'', CHR ''.'', CHR ''-''}) s"

definition validate_full_name :: "string \<Rightarrow> string + string" where
  "validate_full_name v =
     bind_result (validate_bounded_text ''repository full_name'' 512 True v) (\<lambda>_.
       case split_on (CHR ''/'') v of
         [owner, repository] \<Rightarrow>
           if v \<noteq> strip v \<or> \<not> repo_part_re owner \<or> \<not> repo_part_re repository
             \<or> owner \<in> {''.'', ''..''} \<or> repository \<in> {''.'', ''..''}
           then Inl ''repository full_name must be an exact owner/repository name'' else Inr v
       | _ \<Rightarrow> Inl ''repository full_name must be an exact owner/repository name'')"

section \<open>Strict fields\<close>

definition str_field :: "string \<Rightarrow> (string \<Rightarrow> string + string) \<Rightarrow> json \<Rightarrow> field_error list" where
  "str_field field check v = (case as_str v of None \<Rightarrow> [Constraint field] | Some s \<Rightarrow> errors_of (check s))"

definition pos_field :: "string \<Rightarrow> json \<Rightarrow> field_error list" where
  "pos_field field v = require field (case as_int v of None \<Rightarrow> False | Some n \<Rightarrow> 0 < n)"

definition count_field :: "string \<Rightarrow> json \<Rightarrow> field_error list" where
  "count_field field v = require field (case as_int v of None \<Rightarrow> False | Some n \<Rightarrow> 0 < n \<and> n \<le> MAX_PULL_COMMITS)"

definition bool_field :: "string \<Rightarrow> json \<Rightarrow> field_error list" where
  "bool_field field v = require field (as_bool v \<noteq> None)"

definition mapping :: "json \<Rightarrow> string \<Rightarrow> dco_error + (string \<times> json) list" where
  "mapping v field = (case as_obj v of None \<Rightarrow> Inl (DcoValueError (field @ '' must be an object'')) | Some ob \<Rightarrow> Inr ob)"

definition required :: "(string \<times> json) list \<Rightarrow> string \<Rightarrow> string \<Rightarrow> dco_error + json" where
  "required ob key field = (case map_of ob key of
      None \<Rightarrow> Inl (DcoValueError (field @ '' omitted '' @ key)) | Some v \<Rightarrow> Inr v)"

fun invalid :: "'a validated \<Rightarrow> dco_error + 'a" where
  "invalid (Inl es) = Inl (DcoInvalid es)"
| "invalid (Inr x) = Inr x"

lemma invalid_Inr [simp]: "invalid r = Inr x \<longleftrightarrow> r = Inr x"
  by (cases r) auto

section \<open>Identities\<close>

record repository_identity =
  repo_id :: int
  repo_name :: string

record github_actor =
  actor_login :: string
  actor_id :: int
  actor_type :: string

record user_identity =
  u_login :: string
  u_id :: int

definition make_repository :: "json \<Rightarrow> json \<Rightarrow> repository_identity validated" where
  "make_repository i name = build (pos_field ''id'' i @ str_field ''full_name'' validate_full_name name)
     \<lparr>repo_id = the (as_int i), repo_name = the (as_str name)\<rparr> Inr"

definition actor_from_github :: "(string \<times> json) list \<Rightarrow> dco_error + github_actor" where
  "actor_from_github p =
     bind_result (required p ''login'' ''actor'') (\<lambda>l.
     bind_result (required p ''id'' ''actor'') (\<lambda>i.
     bind_result (required p ''type'' ''actor'') (\<lambda>t.
       invalid (build (str_field ''login'' (validate_bounded_text ''actor login'' 256 True) l @ pos_field ''id'' i @
           str_field ''type'' (validate_bounded_text ''actor type'' 64 True) t)
         \<lparr>actor_login = the (as_str l), actor_id = the (as_int i), actor_type = the (as_str t)\<rparr> Inr))))"

definition user_from_graphql :: "(string \<times> json) list \<Rightarrow> dco_error + user_identity" where
  "user_from_graphql p =
     bind_result (required p ''login'' ''GraphQL user'') (\<lambda>l.
     bind_result (required p ''databaseId'' ''GraphQL user'') (\<lambda>i.
       invalid (build (str_field ''login'' (validate_bounded_text ''user login'' 256 True) l @ pos_field ''id'' i)
         \<lparr>u_login = the (as_str l), u_id = the (as_int i)\<rparr> Inr)))"

section \<open>Pull-request snapshots\<close>

record pull_snapshot =
  ps_number :: int
  ps_state :: string
  ps_repository :: repository_identity
  ps_base_repository :: repository_identity
  ps_base_ref :: string
  ps_base_sha :: string
  ps_head_repository :: repository_identity
  ps_head_ref :: string
  ps_head_sha :: string
  ps_author :: github_actor
  ps_commit_count :: int

definition repository_identities_are_consistent :: "pull_snapshot \<Rightarrow> string + pull_snapshot" where
  "repository_identities_are_consistent p =
     (if ps_base_repository p \<noteq> ps_repository p
      then Inl ''pull-request base repository must match the evaluated repository''
      else if repo_id (ps_head_repository p) = repo_id (ps_repository p) \<and> ps_head_repository p \<noteq> ps_repository p
      then Inl ''same-repository head identity is contradictory''
      else if repo_id (ps_head_repository p) \<noteq> repo_id (ps_repository p) \<and>
        repo_name (ps_head_repository p) = repo_name (ps_repository p)
      then Inl ''fork head identity is contradictory''
      else Inr p)"

definition validate_ref :: "string \<Rightarrow> string + string" where
  "validate_ref = validate_bounded_text ''GitHub ref'' 1024 True"

definition pull_from_github ::
  "repository_identity \<Rightarrow> (string \<times> json) list \<Rightarrow> dco_error + pull_snapshot" where
  "pull_from_github repository p =
     bind_result (required p ''base'' ''pull request'') (\<lambda>b.
     bind_result (mapping b ''pull request base'') (\<lambda>base.
     bind_result (required p ''head'' ''pull request'') (\<lambda>h.
     bind_result (mapping h ''pull request head'') (\<lambda>head.
     bind_result (required base ''repo'' ''pull request base'') (\<lambda>br.
     bind_result (mapping br ''pull request base repository'') (\<lambda>base_repo.
     bind_result (required head ''repo'' ''pull request head'') (\<lambda>hr.
     bind_result (mapping hr ''pull request head repository'') (\<lambda>head_repo.
     bind_result (required p ''user'' ''pull request'') (\<lambda>u.
     bind_result (mapping u ''pull request author'') (\<lambda>user.
     bind_result (required p ''number'' ''pull request'') (\<lambda>number.
     bind_result (required p ''state'' ''pull request'') (\<lambda>pull_state.
     bind_result (required base_repo ''id'' ''pull request base repository'') (\<lambda>bid.
     bind_result (required base_repo ''full_name'' ''pull request base repository'') (\<lambda>bname.
     bind_result (invalid (make_repository bid bname)) (\<lambda>base_repository.
     bind_result (required base ''ref'' ''pull request base'') (\<lambda>base_ref.
     bind_result (required base ''sha'' ''pull request base'') (\<lambda>base_sha.
     bind_result (required head_repo ''id'' ''pull request head repository'') (\<lambda>hid.
     bind_result (required head_repo ''full_name'' ''pull request head repository'') (\<lambda>hname.
     bind_result (invalid (make_repository hid hname)) (\<lambda>head_repository.
     bind_result (required head ''ref'' ''pull request head'') (\<lambda>head_ref.
     bind_result (required head ''sha'' ''pull request head'') (\<lambda>head_sha.
     bind_result (actor_from_github user) (\<lambda>author.
     bind_result (required p ''commits'' ''pull request'') (\<lambda>commits.
       invalid (build (pos_field ''number'' number
           @ require ''state'' (pull_state \<in> {JStr ''open'', JStr ''closed''})
           @ str_field ''base_ref'' validate_ref base_ref @ str_field ''base_sha'' validate_sha base_sha
           @ str_field ''head_ref'' validate_ref head_ref @ str_field ''head_sha'' validate_sha head_sha
           @ count_field ''commit_count'' commits)
         \<lparr>ps_number = the (as_int number), ps_state = the (as_str pull_state), ps_repository = repository,
          ps_base_repository = base_repository, ps_base_ref = the (as_str base_ref),
          ps_base_sha = the (as_str base_sha), ps_head_repository = head_repository,
          ps_head_ref = the (as_str head_ref), ps_head_sha = the (as_str head_sha), ps_author = author,
          ps_commit_count = the (as_int commits)\<rparr>
         repository_identities_are_consistent)))))))))))))))))))))))))"

section \<open>Commits\<close>

record pull_commit =
  pc_sha :: string
  pc_node :: string

definition pull_commit_from_graphql :: "(string \<times> json) list \<Rightarrow> dco_error + pull_commit" where
  "pull_commit_from_graphql p =
     bind_result (required p ''commit'' ''pull-request commit node'') (\<lambda>c.
     bind_result (mapping c ''pull-request commit'') (\<lambda>commit.
     bind_result (required commit ''oid'' ''pull-request commit'') (\<lambda>sha.
     bind_result (required p ''id'' ''pull-request commit node'') (\<lambda>node.
       invalid (build (str_field ''sha'' validate_sha sha @
           str_field ''node_id'' (validate_bounded_text ''pull-request commit node ID'' 512 True) node)
         \<lparr>pc_sha = the (as_str sha), pc_node = the (as_str node)\<rparr> Inr)))))"

record comparison =
  cmp_repository :: repository_identity
  cmp_pull :: int
  cmp_base_sha :: string
  cmp_head_sha :: string
  cmp_base_commit :: string
  cmp_total :: int
  cmp_ahead :: int
  cmp_commits :: "pull_commit list"

record commit_identity =
  ci_name :: string
  ci_email :: string

definition validate_identity :: "string \<Rightarrow> string + string" where
  "validate_identity v = bind_result (validate_bounded_text ''Git commit identity'' 1024 False v) (\<lambda>v.
     if CHR ''<'' \<in> set v \<or> CHR ''>'' \<in> set v
     then Inl (''Git commit identity must not contain '<' or '>'' @ [squote]) else Inr v)"

definition make_identity :: "json \<Rightarrow> json \<Rightarrow> commit_identity validated" where
  "make_identity name email = build (str_field ''name'' validate_identity name @
     str_field ''email'' validate_identity email)
     \<lparr>ci_name = the (as_str name), ci_email = the (as_str email)\<rparr> Inr"

record verification =
  v_valid :: bool
  v_state :: string
  v_at :: "string option"
  v_by_github :: bool
  v_signer :: "user_identity option"

definition validate_verified_at :: "json \<Rightarrow> field_error list" where
  "validate_verified_at v = (if v = JNull \<or> v = JStr [] then []
     else str_field ''verified_at'' (validate_bounded_text ''verification timestamp'' 128 True) v)"

definition optional_user :: "json \<Rightarrow> string \<Rightarrow> dco_error + user_identity option" where
  "optional_user v field = (if v = JNull then Inr None
     else bind_result (mapping v field) (\<lambda>u. bind_result (user_from_graphql u) (\<lambda>x. Inr (Some x))))"

definition verification_from_graphql :: "(string \<times> json) list \<Rightarrow> dco_error + verification" where
  "verification_from_graphql p =
     bind_result (optional_user (get_key ''signer'' p) ''signature signer'') (\<lambda>signer.
     bind_result (required p ''isValid'' ''commit signature'') (\<lambda>valid.
     bind_result (required p ''state'' ''commit signature'') (\<lambda>sig_state.
     bind_result (required p ''wasSignedByGitHub'' ''commit signature'') (\<lambda>by_github.
       invalid (build (bool_field ''is_valid'' valid
           @ str_field ''state'' (validate_bounded_text ''signature state'' 128 True) sig_state
           @ validate_verified_at (get_key ''verifiedAt'' p) @ bool_field ''was_signed_by_github'' by_github)
         \<lparr>v_valid = the (as_bool valid), v_state = the (as_str sig_state),
          v_at = as_str (get_key ''verifiedAt'' p), v_by_github = the (as_bool by_github),
          v_signer = signer\<rparr> Inr)))))"

record commit_evidence =
  ce_sha :: string
  ce_parents :: "string list"
  ce_author :: commit_identity
  ce_committer :: commit_identity
  ce_author_signoff :: bool
  ce_dependabot_signoff :: bool
  ce_github_author :: "user_identity option"
  ce_verification :: "verification option"

definition validate_parents :: "json list \<Rightarrow> field_error list" where
  "validate_parents ps =
     (if list_ex (\<lambda>p. as_str p = None) ps \<or> MAX_COMMIT_PARENTS < int (length ps) then [Constraint ''parents'']
      else if \<not> distinct ps then [Raised ''commit parents must be unique'']
      else if list_ex (\<lambda>p. \<not> sha_re (the (as_str p))) ps
      then [Raised ''parent SHA must be exactly 40 lowercase hexadecimal characters'']
      else [])"

definition signoff_line :: "commit_identity \<Rightarrow> string" where
  "signoff_line a = ''Signed-off-by: '' @ ci_name a @ '' <'' @ ci_email a @ ''>''"

text \<open>The message part of \<open>CommitEvidence.from_graphql\<close>: its lines.\<close>

definition message_lines :: "json \<Rightarrow> dco_error + string list" where
  "message_lines v = (case as_str v of
      None \<Rightarrow> Inl (DcoValueError ''commit message must be text'')
    | Some m \<Rightarrow>
        if CHR 0x00 \<in> set m then Inl (DcoValueError ''commit message must not contain NUL'')
        else if MAX_COMMIT_MESSAGE_BYTES < int (utf8_length m)
        then Inl (DcoValueError (''commit message exceeds the '' @ show_int MAX_COMMIT_MESSAGE_BYTES @ ''-byte limit''))
        else Inr (split_on newline m))"

text \<open>Its parent list, complete and bounded.\<close>

definition parent_shas :: "(string \<times> json) list \<Rightarrow> dco_error + json list" where
  "parent_shas parents =
     bind_result (required parents ''totalCount'' ''commit parents'') (\<lambda>total.
     bind_result (required parents ''nodes'' ''commit parents'') (\<lambda>raw.
     bind_result (required parents ''pageInfo'' ''commit parents'') (\<lambda>pi.
     bind_result (mapping pi ''commit parent page info'') (\<lambda>page_info.
     bind_result (required page_info ''hasNextPage'' ''commit parent page info'') (\<lambda>next_page.
       case as_int total of
         None \<Rightarrow> Inl (DcoValueError ''commit parent count exceeds the supported limit'')
       | Some n \<Rightarrow>
           if n < 0 \<or> MAX_COMMIT_PARENTS < n
           then Inl (DcoValueError ''commit parent count exceeds the supported limit'')
           else if next_page \<noteq> JBool False
           then Inl (DcoValueError ''commit parent list exceeds the supported limit'')
           else (case as_list raw of
               None \<Rightarrow> Inl (DcoValueError ''commit parents must be a complete list'')
             | Some l \<Rightarrow>
                 if int (length l) \<noteq> n then Inl (DcoValueError ''commit parents must be a complete list'')
                 else mapM_result (\<lambda>v. bind_result (mapping v ''commit parent'') (\<lambda>q.
                        required q ''oid'' ''commit parent'')) l))))))"

definition commit_from_graphql :: "(string \<times> json) list \<Rightarrow> dco_error + commit_evidence" where
  "commit_from_graphql p =
     bind_result (required p ''author'' ''GraphQL Commit'') (\<lambda>a.
     bind_result (mapping a ''Git commit author'') (\<lambda>author_payload.
     bind_result (required p ''committer'' ''GraphQL Commit'') (\<lambda>c.
     bind_result (mapping c ''Git commit committer'') (\<lambda>committer_payload.
     bind_result (required author_payload ''name'' ''Git commit author'') (\<lambda>an.
     bind_result (required author_payload ''email'' ''Git commit author'') (\<lambda>ae.
     bind_result (invalid (make_identity an ae)) (\<lambda>author.
     bind_result (required committer_payload ''name'' ''Git commit committer'') (\<lambda>cn.
     bind_result (required committer_payload ''email'' ''Git commit committer'') (\<lambda>ce.
     bind_result (invalid (make_identity cn ce)) (\<lambda>committer.
     bind_result (required p ''message'' ''GraphQL Commit'') (\<lambda>m.
     bind_result (message_lines m) (\<lambda>lines.
     bind_result (required p ''parents'' ''GraphQL Commit'') (\<lambda>pp.
     bind_result (mapping pp ''commit parents'') (\<lambda>parents_payload.
     bind_result (parent_shas parents_payload) (\<lambda>parents.
     bind_result (optional_user (get_key ''user'' author_payload) ''GitHub commit author'') (\<lambda>github_author.
     bind_result (if get_key ''signature'' p = JNull then Inr None
         else bind_result (mapping (get_key ''signature'' p) ''commit signature'') (\<lambda>s.
           bind_result (verification_from_graphql s) (\<lambda>x. Inr (Some x)))) (\<lambda>verification.
     bind_result (required p ''oid'' ''GraphQL Commit'') (\<lambda>sha.
       invalid (build (str_field ''sha'' validate_sha sha @ validate_parents parents)
         \<lparr>ce_sha = the (as_str sha), ce_parents = map (\<lambda>x. the (as_str x)) parents, ce_author = author,
          ce_committer = committer,
          ce_author_signoff = list_ex (\<lambda>l. casefold l = casefold (signoff_line author)) lines,
          ce_dependabot_signoff = DEPENDABOT_SIGNOFF \<in> set lines, ce_github_author = github_author,
          ce_verification = verification\<rparr> Inr)))))))))))))))))))"

section \<open>Results\<close>

record dco_input =
  di_event :: pull_snapshot
  di_before :: pull_snapshot
  di_after :: pull_snapshot
  di_comparison :: comparison
  di_commits :: "commit_evidence list"

datatype dco_outcome = AuthorSignoff | OfficialDependabot | MissingSignoff

datatype dco_failure = PullRequestNotOpen | PullRequestChanged | ComparisonMismatch | CommitCountMismatch
  | DuplicateCommit | HeadMismatch | CommitOrderMismatch | MissingSignoffFailure

record dco_commit_result =
  dr_sha :: string
  dr_outcome :: dco_outcome

record dco_result =
  dr_passed :: bool
  dr_repository :: repository_identity
  dr_pull :: int
  dr_base_sha :: string
  dr_head_sha :: string
  dr_failure :: "dco_failure option"
  dr_commits :: "dco_commit_result list"

definition result_is_consistent :: "dco_result \<Rightarrow> string + dco_result" where
  "result_is_consistent r =
     (if dr_passed r = (dr_failure r \<noteq> None) then Inl ''a passing result cannot have a failure reason''
      else if dr_passed r \<and> list_ex (\<lambda>c. dr_outcome c = MissingSignoff) (dr_commits r)
      then Inl ''a passing result cannot contain a missing sign-off''
      else Inr r)"

definition make_commit_result :: "string \<Rightarrow> dco_outcome \<Rightarrow> dco_commit_result validated" where
  "make_commit_result sha outcome = build (errors_of (validate_sha sha)) \<lparr>dr_sha = sha, dr_outcome = outcome\<rparr> Inr"

definition make_result ::
  "bool \<Rightarrow> pull_snapshot \<Rightarrow> dco_failure option \<Rightarrow> dco_commit_result list \<Rightarrow> dco_result validated" where
  "make_result passed pull failure commits =
     build (require ''pull_number'' (0 < ps_number pull) @ errors_of (validate_sha (ps_base_sha pull)) @
         errors_of (validate_sha (ps_head_sha pull)) @ require ''commits'' (int (length commits) \<le> MAX_PULL_COMMITS))
       \<lparr>dr_passed = passed, dr_repository = ps_repository pull, dr_pull = ps_number pull,
        dr_base_sha = ps_base_sha pull, dr_head_sha = ps_head_sha pull, dr_failure = failure,
        dr_commits = commits\<rparr> result_is_consistent"

definition failed :: "dco_input \<Rightarrow> dco_failure \<Rightarrow> dco_commit_result list \<Rightarrow> dco_error + dco_result" where
  "failed ev failure commits = invalid (make_result False (di_event ev) (Some failure) commits)"

section \<open>The Dependabot exception\<close>

definition is_official_dependabot_pull :: "pull_snapshot \<Rightarrow> bool" where
  "is_official_dependabot_pull p \<longleftrightarrow> actor_login (ps_author p) = DEPENDABOT_AUTHOR_LOGIN \<and>
     actor_id (ps_author p) = DEPENDABOT_AUTHOR_ID \<and> actor_type (ps_author p) = ''Bot'' \<and>
     repo_id (ps_base_repository p) = repo_id (ps_repository p) \<and>
     repo_id (ps_head_repository p) = repo_id (ps_repository p) \<and>
     startswith ''dependabot/'' (ps_head_ref p) \<and> ps_commit_count p = 1"

definition is_official_dependabot_commit :: "commit_evidence \<Rightarrow> pull_snapshot \<Rightarrow> bool" where
  "is_official_dependabot_commit c p = (case ce_verification c of None \<Rightarrow> False
     | Some v \<Rightarrow> ce_sha c = ps_head_sha p \<and> ce_parents c = [ps_base_sha p] \<and>
         ce_github_author c = Some \<lparr>u_login = DEPENDABOT_AUTHOR_LOGIN, u_id = DEPENDABOT_AUTHOR_ID\<rparr> \<and>
         ce_author c = \<lparr>ci_name = DEPENDABOT_AUTHOR_LOGIN, ci_email = DEPENDABOT_AUTHOR_EMAIL\<rparr> \<and>
         ce_committer c = \<lparr>ci_name = ''GitHub'', ci_email = DEPENDABOT_COMMITTER_EMAIL\<rparr> \<and>
         v_valid v \<and> v_state v = ''VALID'' \<and>
         (case v_at v of None \<Rightarrow> False | Some t \<Rightarrow> 0 < length t) \<and> v_by_github v \<and>
         v_signer v = Some \<lparr>u_login = DEPENDABOT_COMMITTER_LOGIN, u_id = DEPENDABOT_COMMITTER_ID\<rparr> \<and>
         ce_dependabot_signoff c)"

section \<open>Commit order\<close>

text \<open>The inner loop over the parents of a popped commit, and the worklist loop; the stack's
  top is the head of \<open>pending\<close>, and every name on it is a key of \<open>by_sha\<close>.\<close>

definition visit_parent :: "string list \<Rightarrow> string \<Rightarrow> string list \<times> string list \<Rightarrow> string list \<times> string list" where
  "visit_parent shas parent s = (if parent \<in> set shas \<and> parent \<notin> set (fst s)
     then (parent # fst s, parent # snd s) else s)"

definition unvisited :: "string list \<Rightarrow> string list \<Rightarrow> nat" where
  "unvisited shas reached = card (set shas - set reached)"

lemma visit_parent_measure:
  "2 * unvisited shas (fst (visit_parent shas p s)) + length (snd (visit_parent shas p s))
     \<le> 2 * unvisited shas (fst s) + length (snd s)"
proof (cases "p \<in> set shas \<and> p \<notin> set (fst s)")
  case True
  then have "set shas - insert p (set (fst s)) \<subset> set shas - set (fst s)" by blast
  then have "card (set shas - insert p (set (fst s))) < card (set shas - set (fst s))"
    by (intro psubset_card_mono) auto
  with True show ?thesis by (simp add: visit_parent_def unvisited_def)
next
  case False
  then have "visit_parent shas p s = s" by (auto simp: visit_parent_def)
  then show ?thesis by simp
qed

lemma visit_parents_measure:
  "2 * unvisited shas (fst (fold (visit_parent shas) ps s)) + length (snd (fold (visit_parent shas) ps s))
     \<le> 2 * unvisited shas (fst s) + length (snd s)"
proof (induction ps arbitrary: s)
  case (Cons p ps)
  show ?case
    using Cons.IH [of "visit_parent shas p s"] visit_parent_measure [of shas p s] by simp
qed simp

function reach :: "(string \<times> string list) list \<Rightarrow> string list \<Rightarrow> string list \<Rightarrow> string list" where
  "reach by_sha reached [] = reached"
| "reach by_sha reached (current # pending) =
     (let parents = (case map_of by_sha current of None \<Rightarrow> [] | Some ps \<Rightarrow> ps);
          s = fold (visit_parent (map fst by_sha)) parents (reached, pending)
      in reach by_sha (fst s) (snd s))"
  by pat_completeness auto

termination
proof (relation "measure (\<lambda>(by_sha, reached, pending). 2 * unvisited (map fst by_sha) reached + length pending)")
  fix by_sha :: "(string \<times> string list) list" and reached pending :: "string list" and current parents s
  assume "s = fold (visit_parent (map fst by_sha)) parents (reached, pending)"
  then show "((by_sha, fst s, snd s), by_sha, reached, current # pending) \<in>
      measure (\<lambda>(by_sha, reached, pending). 2 * unvisited (map fst by_sha) reached + length pending)"
    using visit_parents_measure [of "map fst by_sha" parents "(reached, pending)"] by (simp add: split_def)
qed simp

fun last_option :: "'a list \<Rightarrow> 'a option" where
  "last_option [] = None"
| "last_option [x] = Some x"
| "last_option (x # y # xs) = last_option (y # xs)"

lemma last_option_Some [simp]: "last_option xs = Some x \<longleftrightarrow> xs \<noteq> [] \<and> last xs = x"
  by (induction xs rule: last_option.induct) auto

definition parents_precede :: "string list \<Rightarrow> commit_evidence list \<Rightarrow> bool" where
  \<comment> \<open>\<open>positions[parent] >= index\<close> for no commit; positions of distinct names\<close>
  "parents_precede shas commits = list_all (\<lambda>(i, c).
     \<not> list_ex (\<lambda>p. p \<in> set (drop i shas)) (ce_parents c)) (enumerate 0 commits)"

definition commit_order_is_valid :: "pull_commit list \<Rightarrow> commit_evidence list \<Rightarrow> dco_error + bool" where
  "commit_order_is_valid pull_commits commits =
     (let shas = map pc_sha pull_commits in
      if list_ex (\<lambda>(c, sha). ce_sha c \<noteq> sha) (zip commits shas) then Inr False
      else if length commits \<noteq> length shas
      then Inl (DcoValueError ''zip() arguments have different lengths'')
      else if \<not> parents_precede shas commits then Inr False
      else (case last_option shas of
          None \<Rightarrow> Inl DcoIndexError
        | Some h \<Rightarrow>
            (let by_sha = rev (map (\<lambda>c. (ce_sha c, ce_parents c)) commits) in
             Inr (set (reach by_sha [h] [h]) = set shas))))"

section \<open>The evaluation\<close>

definition outcome_of :: "bool \<Rightarrow> pull_snapshot \<Rightarrow> commit_evidence \<Rightarrow> dco_outcome" where
  "outcome_of official p c = (if ce_author_signoff c then AuthorSignoff
     else if official \<and> is_official_dependabot_commit c p then OfficialDependabot else MissingSignoff)"

definition evaluate_dco :: "dco_input \<Rightarrow> dco_error + dco_result" where
  "evaluate_dco ev =
     (let pull = di_event ev; cmp = di_comparison ev; n = ps_commit_count pull;
          shas = map pc_sha (cmp_commits cmp) in
      if ps_state pull \<noteq> ''open'' then failed ev PullRequestNotOpen []
      else if di_before ev \<noteq> pull \<or> di_after ev \<noteq> pull then failed ev PullRequestChanged []
      else if cmp_repository cmp \<noteq> ps_repository pull \<or> cmp_pull cmp \<noteq> ps_number pull
        \<or> cmp_base_sha cmp \<noteq> ps_base_sha pull \<or> cmp_head_sha cmp \<noteq> ps_head_sha pull
        \<or> cmp_base_commit cmp \<noteq> ps_base_sha pull
      then failed ev ComparisonMismatch []
      else if cmp_total cmp \<noteq> n \<or> cmp_ahead cmp \<noteq> n \<or> int (length (cmp_commits cmp)) \<noteq> n
        \<or> int (length (di_commits ev)) \<noteq> n
      then failed ev CommitCountMismatch []
      else if \<not> distinct shas then failed ev DuplicateCommit []
      else if shas = [] then Inl DcoIndexError
      else if last_option shas \<noteq> Some (ps_head_sha pull) then failed ev HeadMismatch []
      else bind_result (commit_order_is_valid (cmp_commits cmp) (di_commits ev)) (\<lambda>valid.
        if \<not> valid then failed ev CommitOrderMismatch []
        else bind_result (invalid (mapM_result (\<lambda>c. make_commit_result (ce_sha c)
               (outcome_of (is_official_dependabot_pull pull) pull c)) (di_commits ev))) (\<lambda>results.
          if list_ex (\<lambda>r. dr_outcome r = MissingSignoff) results
          then failed ev MissingSignoffFailure results
          else invalid (make_result True pull None results))))"

end
