(* ===== verification/Dco_Facts.thy ===== *)
theory Dco_Facts
  imports Dco
begin

text \<open>
  What the sign-off check promises: the evaluation never raises on constructed evidence and
  passes exactly for a signed, complete and connected range of commits; a sign-off written
  by \<open>git commit -s\<close> is recognised in the message GitHub returns, and nothing else is.
\<close>

section \<open>The worklist loop computes reachability\<close>

definition parents_of :: "(string \<times> string list) list \<Rightarrow> string \<Rightarrow> string list" where
  "parents_of by_sha x = (case map_of by_sha x of None \<Rightarrow> [] | Some ps \<Rightarrow> ps)"

definition edges :: "(string \<times> string list) list \<Rightarrow> (string \<times> string) set" where
  "edges by_sha = {(x, y). y \<in> set (parents_of by_sha x) \<and> y \<in> fst ` set by_sha}"

lemma visit_parents_sets:
  "set (fst (fold (visit_parent shas) ps s)) = set (fst s) \<union> (set ps \<inter> set shas)"
  "set (snd (fold (visit_parent shas) ps s)) = set (snd s) \<union> (set ps \<inter> set shas - set (fst s))"
  by (induction ps arbitrary: s) (auto simp: visit_parent_def)

lemma edges_image: "edges by_sha `` {x} = set (parents_of by_sha x) \<inter> set (map fst by_sha)"
  by (auto simp: edges_def)

lemma reach_step:
  "reach by_sha reached (x # pending) = reach by_sha
     (fst (fold (visit_parent (map fst by_sha)) (parents_of by_sha x) (reached, pending)))
     (snd (fold (visit_parent (map fst by_sha)) (parents_of by_sha x) (reached, pending)))"
  by (simp add: parents_of_def Let_def)

declare reach.simps(2) [simp del]

lemma reach_closed:
  assumes "set pending \<subseteq> set reached"
    and "\<forall>x \<in> set reached - set pending. edges by_sha `` {x} \<subseteq> set reached"
  shows "set reached \<subseteq> set (reach by_sha reached pending) \<and>
    edges by_sha `` set (reach by_sha reached pending) \<subseteq> set (reach by_sha reached pending) \<and>
    set (reach by_sha reached pending) \<subseteq> (edges by_sha)\<^sup>* `` set reached"
  using assms
proof (induction by_sha reached pending rule: reach.induct)
  case (1 by_sha reached)
  then show ?case by auto
next
  case (2 by_sha reached x pending)
  let ?s = "fold (visit_parent (map fst by_sha)) (parents_of by_sha x) (reached, pending)"
  let ?E = "edges by_sha"
  have sets: "set (fst ?s) = set reached \<union> ?E `` {x}" "set (snd ?s) = set pending \<union> (?E `` {x} - set reached)"
    using visit_parents_sets [of "map fst by_sha" "parents_of by_sha x" "(reached, pending)"]
    by (simp_all add: edges_image)
  have x: "x \<in> set reached" using 2(2) by simp
  have IH: "set (fst ?s) \<subseteq> set (reach by_sha (fst ?s) (snd ?s)) \<and>
    ?E `` set (reach by_sha (fst ?s) (snd ?s)) \<subseteq> set (reach by_sha (fst ?s) (snd ?s)) \<and>
    set (reach by_sha (fst ?s) (snd ?s)) \<subseteq> ?E\<^sup>* `` set (fst ?s)"
  proof (rule 2(1) [folded parents_of_def, OF refl refl])
    show "set (snd ?s) \<subseteq> set (fst ?s)" using 2(2) by (auto simp: sets)
    show "\<forall>y \<in> set (fst ?s) - set (snd ?s). ?E `` {y} \<subseteq> set (fst ?s)"
      using 2(3) by (auto simp: sets)
  qed
  have "?E\<^sup>* `` set (fst ?s) \<subseteq> ?E\<^sup>* `` set reached"
    unfolding sets using x by (auto intro: converse_rtrancl_into_rtrancl)
  with IH show ?case unfolding reach_step sets by blast
qed

lemma reach_correct: "set (reach by_sha [h] [h]) = (edges by_sha)\<^sup>* `` {h}"
proof
  note c = reach_closed [of "[h]" "[h]" by_sha, simplified]
  show "set (reach by_sha [h] [h]) \<subseteq> (edges by_sha)\<^sup>* `` {h}" using c by simp
  have "y \<in> set (reach by_sha [h] [h])" if "(h, y) \<in> (edges by_sha)\<^sup>*" for y
    using that by (induction rule: rtrancl_induct) (use c in auto)
  then show "(edges by_sha)\<^sup>* `` {h} \<subseteq> set (reach by_sha [h] [h])" by blast
qed

section \<open>Well-formed evidence\<close>

definition pull_ok :: "pull_snapshot \<Rightarrow> bool" where
  "pull_ok p \<longleftrightarrow> 0 < ps_number p \<and> ps_state p \<in> {''open'', ''closed''} \<and> sha_re (ps_base_sha p) \<and>
     sha_re (ps_head_sha p) \<and> 0 < ps_commit_count p \<and> ps_commit_count p \<le> MAX_PULL_COMMITS \<and>
     ps_base_repository p = ps_repository p"

lemma validate_sha_Inr [simp]: "validate_sha v = Inr x \<longleftrightarrow> sha_re v \<and> x = v"
  by (auto simp: validate_sha_def)

lemma str_field_Nil: "str_field f check v = [] \<longleftrightarrow> (\<exists>s. v = JStr s \<and> errors_of (check s) = [])"
  by (cases v) (auto simp: str_field_def as_str_def)

lemma pos_field_Nil: "pos_field f v = [] \<longleftrightarrow> (\<exists>n. v = JInt n \<and> 0 < n)"
  by (cases v) (auto simp: pos_field_def as_int_def)

lemma count_field_Nil: "count_field f v = [] \<longleftrightarrow> (\<exists>n. v = JInt n \<and> 0 < n \<and> n \<le> MAX_PULL_COMMITS)"
  by (cases v) (auto simp: count_field_def as_int_def)

lemma bool_field_Nil: "bool_field f v = [] \<longleftrightarrow> (\<exists>b. v = JBool b)"
  by (cases v) (auto simp: bool_field_def as_bool_def)

lemmas field_Nil = str_field_Nil pos_field_Nil count_field_Nil bool_field_Nil

lemma required_Inr [simp]: "required ob k f = Inr v \<longleftrightarrow> map_of ob k = Some v"
  by (simp add: required_def split: option.split)

lemma mapping_Inr [simp]: "mapping v f = Inr ob \<longleftrightarrow> v = JObj ob"
  by (simp add: mapping_def split: option.split) (metis as_obj_Some option.distinct(1))

lemma consistent_Inr: "repository_identities_are_consistent p = Inr q \<Longrightarrow> q = p \<and> ps_base_repository p = ps_repository p"
  by (auto simp: repository_identities_are_consistent_def split: if_splits)

lemma pull_from_github_ok: "pull_from_github r p = Inr q \<Longrightarrow> pull_ok q \<and> ps_repository q = r"
  unfolding pull_from_github_def
  by (auto simp: build_Inr field_Nil pull_ok_def as_str_def as_int_def dest!: consistent_Inr)


definition dco_input_ok :: "dco_input \<Rightarrow> bool" where
  "dco_input_ok ev \<longleftrightarrow> pull_ok (di_event ev) \<and> list_all (\<lambda>c. sha_re (ce_sha c)) (di_commits ev)"

lemma commit_from_graphql_sha: "commit_from_graphql p = Inr c \<Longrightarrow> sha_re (ce_sha c)"
  unfolding commit_from_graphql_def by (auto simp: build_Inr field_Nil as_str_def)

section \<open>The decision\<close>

definition signed :: "pull_snapshot \<Rightarrow> commit_evidence \<Rightarrow> bool" where
  "signed p c \<longleftrightarrow> ce_author_signoff c \<or>
     (is_official_dependabot_pull p \<and> is_official_dependabot_commit c p)"

definition commit_edges :: "commit_evidence list \<Rightarrow> (string \<times> string) set" where
  "commit_edges cs = {(ce_sha c, p) | c p. c \<in> set cs \<and> p \<in> set (ce_parents c) \<and> p \<in> ce_sha ` set cs}"

text \<open>The specification: one open pull request seen unchanged three times, a comparison bound
  to it, exactly the announced commits, distinct and ending in the head, no commit before
  one of its parents, every commit an ancestor of the head inside the range, and every
  commit signed.\<close>

definition dco_satisfied :: "dco_input \<Rightarrow> bool" where
  "dco_satisfied ev \<longleftrightarrow> (let p = di_event ev; m = di_comparison ev; cs = di_commits ev; shas = map ce_sha cs in
     ps_state p = ''open'' \<and> di_before ev = p \<and> di_after ev = p \<and>
     cmp_repository m = ps_repository p \<and> cmp_pull m = ps_number p \<and> cmp_base_sha m = ps_base_sha p \<and>
     cmp_head_sha m = ps_head_sha p \<and> cmp_base_commit m = ps_base_sha p \<and>
     cmp_total m = ps_commit_count p \<and> cmp_ahead m = ps_commit_count p \<and>
     int (length cs) = ps_commit_count p \<and> map pc_sha (cmp_commits m) = shas \<and> distinct shas \<and>
     last shas = ps_head_sha p \<and>
     (\<forall>i < length cs. \<forall>q \<in> set (ce_parents (cs ! i)). q \<notin> set (drop i shas)) \<and>
     (\<forall>c \<in> set cs. (ps_head_sha p, ce_sha c) \<in> (commit_edges cs)\<^sup>*) \<and>
     (\<forall>c \<in> set cs. signed p c))"

lemma zip_mismatch:
  assumes "length cs = length shas"
  shows "\<not> list_ex (\<lambda>(c, sha). ce_sha c \<noteq> sha) (zip cs shas) \<longleftrightarrow> shas = map ce_sha cs"
  using assms by (induction cs shas rule: list_induct2) auto

lemma parents_precede_iff:
  "parents_precede shas cs \<longleftrightarrow> (\<forall>i < length cs. \<forall>q \<in> set (ce_parents (cs ! i)). q \<notin> set (drop i shas))"
proof -
  have "parents_precede shas cs \<longleftrightarrow>
      (\<forall>x \<in> set (enumerate 0 cs). \<forall>q \<in> set (ce_parents (snd x)). q \<notin> set (drop (fst x) shas))"
    by (auto simp: parents_precede_def list_all_iff list_ex_iff split_def)
  also have "\<dots> \<longleftrightarrow> (\<forall>i < length cs. \<forall>q \<in> set (ce_parents (cs ! i)). q \<notin> set (drop i shas))"
  proof -
    have "set (enumerate 0 cs) = {(i, cs ! i) | i. i < length cs}"
      by (auto simp: in_set_enumerate_eq)
    then show ?thesis by auto
  qed
  finally show ?thesis .
qed

lemma by_sha_edges:
  assumes "distinct (map ce_sha cs)"
  shows "edges (rev (map (\<lambda>c. (ce_sha c, ce_parents c)) cs)) = commit_edges cs"
proof -
  let ?b = "rev (map (\<lambda>c. (ce_sha c, ce_parents c)) cs)"
  have "map fst ?b = rev (map ce_sha cs)" by (simp add: rev_map [symmetric] comp_def)
  then have "distinct (map fst ?b)" using assms by simp
  then have p: "map_of ?b x = Some ps \<longleftrightarrow> (\<exists>c \<in> set cs. ce_sha c = x \<and> ce_parents c = ps)" for x ps
    by (subst map_of_eq_Some_iff) auto
  have k: "fst ` set ?b = ce_sha ` set cs" by force
  have "y \<in> set (parents_of ?b x) \<longleftrightarrow> (\<exists>c \<in> set cs. ce_sha c = x \<and> y \<in> set (ce_parents c))" for x y
  proof (cases "map_of ?b x")
    case None
    with p [of x] show ?thesis by (auto simp: parents_of_def)
  next
    case (Some ps)
    then have "\<And>qs. (ps = qs) = (\<exists>c \<in> set cs. ce_sha c = x \<and> ce_parents c = qs)"
      using p [of x] by (metis option.inject)
    then have "(\<exists>c \<in> set cs. ce_sha c = x \<and> y \<in> set (ce_parents c)) \<longleftrightarrow> y \<in> set ps" by metis
    with Some show ?thesis by (simp add: parents_of_def)
  qed
  then show ?thesis unfolding edges_def commit_edges_def k by auto
qed

lemma commit_order_iff:
  assumes "length cs = length pcs" and "distinct (map pc_sha pcs)" and "pcs \<noteq> []"
  shows "\<exists>v. commit_order_is_valid pcs cs = Inr v \<and> (v \<longleftrightarrow> map pc_sha pcs = map ce_sha cs \<and>
    (\<forall>i < length cs. \<forall>q \<in> set (ce_parents (cs ! i)). q \<notin> set (drop i (map ce_sha cs))) \<and>
    (\<forall>c \<in> set cs. (last (map ce_sha cs), ce_sha c) \<in> (commit_edges cs)\<^sup>*))"
proof (cases "map pc_sha pcs = map ce_sha cs")
  case False
  then have "list_ex (\<lambda>(c, sha). ce_sha c \<noteq> sha) (zip cs (map pc_sha pcs))"
    using zip_mismatch [of cs "map pc_sha pcs"] assms(1) by auto
  then have "commit_order_is_valid pcs cs = Inr False" by (simp add: commit_order_is_valid_def)
  with False show ?thesis by blast
next
  case True
  let ?shas = "map ce_sha cs"
  let ?h = "last ?shas"
  have ne: "cs \<noteq> []" "?shas \<noteq> []" using assms(1,3) by auto
  have l: "last_option ?shas = Some ?h" using ne by simp
  have d: "distinct ?shas" using assms(2) True by simp
  have z: "\<not> list_ex (\<lambda>(c, sha). ce_sha c \<noteq> sha) (zip cs ?shas)"
    using zip_mismatch [of cs ?shas] by simp
  have "commit_order_is_valid pcs cs = Inr (parents_precede ?shas cs \<and>
      (commit_edges cs)\<^sup>* `` {?h} = set ?shas)"
    unfolding commit_order_is_valid_def True Let_def l if_not_P [OF z] option.case reach_correct by_sha_edges [OF d]
    by simp
  moreover have "(commit_edges cs)\<^sup>* `` {?h} \<subseteq> set ?shas"
  proof
    fix y assume "y \<in> (commit_edges cs)\<^sup>* `` {?h}"
    then have "(?h, y) \<in> (commit_edges cs)\<^sup>*" by simp
    then show "y \<in> set ?shas"
      by (cases rule: rtranclE) (use ne in \<open>auto simp: commit_edges_def last_map\<close>)
  qed
  then have "(commit_edges cs)\<^sup>* `` {?h} = set ?shas \<longleftrightarrow> (\<forall>c \<in> set cs. (?h, ce_sha c) \<in> (commit_edges cs)\<^sup>*)"
    by auto
  ultimately show ?thesis using True parents_precede_iff [of ?shas cs] by auto
qed

lemma failed_total:
  assumes "pull_ok (di_event ev)" and "int (length rs) \<le> MAX_PULL_COMMITS"
  shows "\<exists>r. failed ev f rs = Inr r \<and> \<not> dr_passed r"
  using assms by (simp add: failed_def make_result_def build_def pull_ok_def result_is_consistent_def)

lemma results_total:
  assumes "list_all (\<lambda>c. sha_re (ce_sha c)) cs"
  shows "mapM_result (\<lambda>c. make_commit_result (ce_sha c) (f c)) cs =
    Inr (map (\<lambda>c. \<lparr>dr_sha = ce_sha c, dr_outcome = f c\<rparr>) cs)"
  using assms by (induction cs) (auto simp: make_commit_result_def build_def errors_of_def validate_sha_def)

lemma outcome_signed: "outcome_of (is_official_dependabot_pull p) p c \<noteq> MissingSignoff \<longleftrightarrow> signed p c"
  by (simp add: outcome_of_def signed_def)

text \<open>The guards before the order check, in the order of the code.\<close>

definition first_failure :: "dco_input \<Rightarrow> dco_failure option" where
  "first_failure ev = (let p = di_event ev; m = di_comparison ev; n = ps_commit_count p in
     if ps_state p \<noteq> ''open'' then Some PullRequestNotOpen
     else if di_before ev \<noteq> p \<or> di_after ev \<noteq> p then Some PullRequestChanged
     else if cmp_repository m \<noteq> ps_repository p \<or> cmp_pull m \<noteq> ps_number p \<or> cmp_base_sha m \<noteq> ps_base_sha p \<or>
       cmp_head_sha m \<noteq> ps_head_sha p \<or> cmp_base_commit m \<noteq> ps_base_sha p then Some ComparisonMismatch
     else if cmp_total m \<noteq> n \<or> cmp_ahead m \<noteq> n \<or> int (length (cmp_commits m)) \<noteq> n \<or>
       int (length (di_commits ev)) \<noteq> n then Some CommitCountMismatch
     else if \<not> distinct (map pc_sha (cmp_commits m)) then Some DuplicateCommit
     else if last (map pc_sha (cmp_commits m)) \<noteq> ps_head_sha p then Some HeadMismatch
     else None)"

lemma first_failure_None:
  "first_failure ev = None \<longleftrightarrow> (let p = di_event ev; m = di_comparison ev in
     ps_state p = ''open'' \<and> di_before ev = p \<and> di_after ev = p \<and>
     cmp_repository m = ps_repository p \<and> cmp_pull m = ps_number p \<and> cmp_base_sha m = ps_base_sha p \<and>
     cmp_head_sha m = ps_head_sha p \<and> cmp_base_commit m = ps_base_sha p \<and>
     cmp_total m = ps_commit_count p \<and> cmp_ahead m = ps_commit_count p \<and>
     int (length (cmp_commits m)) = ps_commit_count p \<and> int (length (di_commits ev)) = ps_commit_count p \<and>
     distinct (map pc_sha (cmp_commits m)) \<and> last (map pc_sha (cmp_commits m)) = ps_head_sha p)"
  unfolding first_failure_def Let_def by (simp del: distinct_map) blast

lemma guard_chain:
  assumes "(if a1 then Some f1 else if a2 then Some f2 else if a3 then Some f3 else if a4 then Some f4
      else if a5 then Some f5 else if a6 then Some f6 else None) = Some f"
    and "\<not> a4 \<Longrightarrow> \<not> e" and "\<not> e \<Longrightarrow> b6 = a6"
  shows "(if a1 then g f1 else if a2 then g f2 else if a3 then g f3 else if a4 then g f4
      else if a5 then g f5 else if e then x else if b6 then g f6 else y) = g f"
  using assms by (cases a1; cases a2; cases a3; cases a4; cases a5; cases a6) auto

lemma evaluate_dco_early:
  assumes "first_failure ev = Some f" and "0 < ps_commit_count (di_event ev)"
  shows "evaluate_dco ev = failed ev f []"
  unfolding evaluate_dco_def Let_def
  by (rule guard_chain [where g = "\<lambda>f. failed ev f []", OF assms(1) [unfolded first_failure_def Let_def]])
    (use assms(2) in auto)

lemma evaluate_dco_ordered:
  assumes "dco_input_ok ev" and "ps_state (di_event ev) = ''open''"
    and "di_before ev = di_event ev" and "di_after ev = di_event ev"
    and "cmp_repository (di_comparison ev) = ps_repository (di_event ev)"
    and "cmp_pull (di_comparison ev) = ps_number (di_event ev)"
    and "cmp_base_sha (di_comparison ev) = ps_base_sha (di_event ev)"
    and "cmp_head_sha (di_comparison ev) = ps_head_sha (di_event ev)"
    and "cmp_base_commit (di_comparison ev) = ps_base_sha (di_event ev)"
    and "cmp_total (di_comparison ev) = ps_commit_count (di_event ev)"
    and "cmp_ahead (di_comparison ev) = ps_commit_count (di_event ev)"
    and "int (length (cmp_commits (di_comparison ev))) = ps_commit_count (di_event ev)"
    and "int (length (di_commits ev)) = ps_commit_count (di_event ev)"
    and "distinct (map pc_sha (cmp_commits (di_comparison ev)))"
    and "last (map pc_sha (cmp_commits (di_comparison ev))) = ps_head_sha (di_event ev)"
  shows "\<exists>r. evaluate_dco ev = Inr r \<and> (dr_passed r \<longleftrightarrow>
    commit_order_is_valid (cmp_commits (di_comparison ev)) (di_commits ev) = Inr True \<and>
    (\<forall>c \<in> set (di_commits ev). signed (di_event ev) c))"
proof -
  let ?p = "di_event ev" and ?pcs = "cmp_commits (di_comparison ev)" and ?cs = "di_commits ev"
  have ok: "pull_ok ?p" and shas: "list_all (\<lambda>c. sha_re (ce_sha c)) ?cs"
    using assms(1) by (simp_all add: dco_input_ok_def)
  have ne: "?pcs \<noteq> []" "int (length ?cs) \<le> MAX_PULL_COMMITS"
    using ok assms(12,13) by (auto simp: pull_ok_def)
  have l: "length ?cs = length ?pcs" using assms(12,13) by simp
  obtain v where v: "commit_order_is_valid ?pcs ?cs = Inr v"
    using commit_order_iff [OF l assms(14) ne(1)] by blast
  let ?f = "outcome_of (is_official_dependabot_pull ?p) ?p"
  let ?rs = "map (\<lambda>c. \<lparr>dr_sha = ce_sha c, dr_outcome = ?f c\<rparr>) ?cs"
  have run: "evaluate_dco ev = (if \<not> v then failed ev CommitOrderMismatch []
      else if list_ex (\<lambda>r. dr_outcome r = MissingSignoff) ?rs then failed ev MissingSignoffFailure ?rs
      else invalid (make_result True ?p None ?rs))"
    using assms(2-15) ne v by (simp add: evaluate_dco_def Let_def results_total [OF shas])
  have len: "int (length ?rs) \<le> MAX_PULL_COMMITS" "int (length []) \<le> MAX_PULL_COMMITS"
    using ne(2) by (simp_all add: MAX_PULL_COMMITS_def)
  have missing: "list_ex (\<lambda>r. dr_outcome r = MissingSignoff) ?rs \<longleftrightarrow> \<not> (\<forall>c \<in> set ?cs. signed ?p c)"
    using outcome_signed [of ?p] by (auto simp: list_ex_iff)
  show ?thesis
  proof (cases "v \<and> (\<forall>c \<in> set ?cs. signed ?p c)")
    case True
    have "evaluate_dco ev = invalid (make_result True ?p None ?rs)"
      using True missing unfolding run by simp
    moreover have "\<exists>r. invalid (make_result True ?p None ?rs) = Inr r \<and> dr_passed r"
      using ok len(1) True missing by (simp add: make_result_def build_Inr pull_ok_def result_is_consistent_def)
    ultimately show ?thesis using True v by auto
  next
    case False
    have "\<exists>r. evaluate_dco ev = Inr r \<and> \<not> dr_passed r"
      using False missing failed_total [OF ok len(1)] failed_total [OF ok len(2)] unfolding run by auto
    with False v show ?thesis by auto
  qed
qed

lemma dco_decides:
  assumes "dco_input_ok ev"
  shows "\<exists>r. evaluate_dco ev = Inr r \<and> (dr_passed r \<longleftrightarrow> dco_satisfied ev)"
proof -
  let ?p = "di_event ev" and ?m = "di_comparison ev" and ?cs = "di_commits ev"
  let ?shas = "map pc_sha (cmp_commits ?m)"
  have ok: "pull_ok ?p" using assms by (simp add: dco_input_ok_def)
  then have early: "\<exists>r. failed ev f [] = Inr r \<and> \<not> dr_passed r" for f
    by (rule failed_total) (simp add: MAX_PULL_COMMITS_def)
  let ?pre = "ps_state ?p = ''open'' \<and> di_before ev = ?p \<and> di_after ev = ?p \<and>
    cmp_repository ?m = ps_repository ?p \<and> cmp_pull ?m = ps_number ?p \<and> cmp_base_sha ?m = ps_base_sha ?p \<and>
    cmp_head_sha ?m = ps_head_sha ?p \<and> cmp_base_commit ?m = ps_base_sha ?p \<and>
    cmp_total ?m = ps_commit_count ?p \<and> cmp_ahead ?m = ps_commit_count ?p \<and>
    int (length (cmp_commits ?m)) = ps_commit_count ?p \<and> int (length ?cs) = ps_commit_count ?p \<and>
    distinct ?shas \<and> last ?shas = ps_head_sha ?p"
  show ?thesis
  proof (cases ?pre)
    case True
    then have ne: "cmp_commits ?m \<noteq> []" using ok by (auto simp: pull_ok_def)
    have l: "length ?cs = length (cmp_commits ?m)" using True by linarith
    from evaluate_dco_ordered [OF assms] True obtain r where r: "evaluate_dco ev = Inr r"
      "dr_passed r \<longleftrightarrow> commit_order_is_valid (cmp_commits ?m) ?cs = Inr True \<and> (\<forall>c \<in> set ?cs. signed ?p c)"
      by blast
    have dist: "distinct ?shas" using True by blast
    have order: "commit_order_is_valid (cmp_commits ?m) ?cs = Inr True \<longleftrightarrow>
      ?shas = map ce_sha ?cs \<and>
      (\<forall>i < length ?cs. \<forall>q \<in> set (ce_parents (?cs ! i)). q \<notin> set (drop i (map ce_sha ?cs))) \<and>
      (\<forall>c \<in> set ?cs. (last (map ce_sha ?cs), ce_sha c) \<in> (commit_edges ?cs)\<^sup>*)"
    proof -
      obtain v where v: "commit_order_is_valid (cmp_commits ?m) ?cs = Inr v"
        "v \<longleftrightarrow> ?shas = map ce_sha ?cs \<and>
          (\<forall>i < length ?cs. \<forall>q \<in> set (ce_parents (?cs ! i)). q \<notin> set (drop i (map ce_sha ?cs))) \<and>
          (\<forall>c \<in> set ?cs. (last (map ce_sha ?cs), ce_sha c) \<in> (commit_edges ?cs)\<^sup>*)"
        using commit_order_iff [OF l dist ne] by blast
      show ?thesis unfolding v(1) sum.inject v(2) [symmetric] by simp
    qed
    have "dr_passed r \<longleftrightarrow> dco_satisfied ev"
    proof (cases "?shas = map ce_sha ?cs")
      case True
      note same = this
      have "last (map ce_sha ?cs) = ps_head_sha ?p" "distinct (map ce_sha ?cs)"
        using \<open>?pre\<close> same by simp_all
      then show ?thesis unfolding r(2) order dco_satisfied_def Let_def
        using \<open>?pre\<close> same by (simp del: distinct_map map_eq_conv)
    next
      case False
      then show ?thesis unfolding r(2) order dco_satisfied_def Let_def by blast
    qed
    with r(1) show ?thesis by blast
  next
    case False
    obtain f where f: "first_failure ev = Some f"
      using False first_failure_None [of ev, unfolded Let_def] by (cases "first_failure ev") blast+
    then have "evaluate_dco ev = failed ev f []"
      using ok by (intro evaluate_dco_early) (simp_all add: pull_ok_def)
    with early obtain r where r: "evaluate_dco ev = Inr r" "\<not> dr_passed r" by auto
    have "\<not> dco_satisfied ev"
    proof
      assume s: "dco_satisfied ev"
      then have "?shas = map ce_sha ?cs" by (simp add: dco_satisfied_def Let_def)
      then have "length (cmp_commits ?m) = length ?cs" by (metis length_map)
      with False s show False unfolding dco_satisfied_def Let_def by (metis map_eq_imp_length_eq)
    qed
    with r show ?thesis by blast
  qed
qed

text \<open>C34. On validated evidence the sign-off evaluation never raises, and it passes exactly when the
  specification holds: the pull request is open and was seen unchanged, the comparison is
  bound to it, the commits are exactly the announced ones in an order consistent with their
  parents and ending in the head, each is reachable from the head through parents inside
  the range, and each is signed by its author or is the one commit of an official
  Dependabot pull request.\<close>

theorem dco_passes_iff_satisfied:
  assumes "dco_input_ok ev"
  shows "\<exists>r. evaluate_dco ev = Inr r \<and> (dr_passed r \<longleftrightarrow> dco_satisfied ev)"
  using assms by (rule dco_decides)

definition sample_repo :: repository_identity where
  "sample_repo = \<lparr>repo_id = 7, repo_name = ''octo/demo''\<rparr>"

definition sample_pull :: pull_snapshot where
  "sample_pull = \<lparr>ps_number = 3, ps_state = ''open'', ps_repository = sample_repo,
     ps_base_repository = sample_repo, ps_base_ref = ''main'', ps_base_sha = replicate 40 (CHR ''a''),
     ps_head_repository = sample_repo, ps_head_ref = ''topic'', ps_head_sha = replicate 40 (CHR ''b''),
     ps_author = \<lparr>actor_login = ''mona'', actor_id = 5, actor_type = ''User''\<rparr>, ps_commit_count = 1\<rparr>"

definition sample_commit :: commit_evidence where
  "sample_commit = \<lparr>ce_sha = replicate 40 (CHR ''b''), ce_parents = [replicate 40 (CHR ''a'')],
     ce_author = \<lparr>ci_name = ''Mona'', ci_email = ''mona@x.io''\<rparr>,
     ce_committer = \<lparr>ci_name = ''Mona'', ci_email = ''mona@x.io''\<rparr>, ce_author_signoff = True,
     ce_dependabot_signoff = False, ce_github_author = None, ce_verification = None\<rparr>"

definition sample_dco :: dco_input where
  "sample_dco = \<lparr>di_event = sample_pull, di_before = sample_pull, di_after = sample_pull,
     di_comparison = \<lparr>cmp_repository = sample_repo, cmp_pull = 3, cmp_base_sha = replicate 40 (CHR ''a''),
       cmp_head_sha = replicate 40 (CHR ''b''), cmp_base_commit = replicate 40 (CHR ''a''), cmp_total = 1,
       cmp_ahead = 1, cmp_commits = [\<lparr>pc_sha = replicate 40 (CHR ''b''), pc_node = ''C1''\<rparr>]\<rparr>,
     di_commits = [sample_commit]\<rparr>"

lemma sample_dco_ok: "dco_input_ok sample_dco"
  by code_simp

theorem dco_passes_iff_satisfied_witness:
  "(\<exists>r. evaluate_dco sample_dco = Inr r \<and> dr_passed r) \<and> dco_satisfied sample_dco"
proof -
  obtain r where r: "evaluate_dco sample_dco = Inr r" "dr_passed r \<longleftrightarrow> dco_satisfied sample_dco"
    using dco_passes_iff_satisfied [OF sample_dco_ok] by blast
  have "map_sum (\<lambda>_. ()) dr_passed (evaluate_dco sample_dco) = Inr True" by code_simp
  with r show ?thesis by simp
qed

section \<open>Recognising a sign-off\<close>

lemma py_join_split:
  "py_join sep (xs @ l # ys) = (if xs = [] then [] else py_join sep xs @ sep) @ l @
     (if ys = [] then [] else sep @ py_join sep ys)"
proof (induction xs)
  case Nil
  then show ?case by (cases ys) simp_all
next
  case (Cons x xs)
  then show ?case by (cases xs) (simp_all add: py_join_Cons)
qed

lemma split_on_cut: "split_on c (s @ c # t) = split_on c s @ split_on c t"
  by (induction s) (auto simp: neq_Nil_conv split: list.split)

text \<open>\<open>in_split_on\<close>: the lines of a text are its separator-free pieces between separators.\<close>

lemma in_split_on: "l \<in> set (split_on c s) \<longleftrightarrow> c \<notin> set l \<and>
  (\<exists>pre post. s = pre @ l @ post \<and> (pre = [] \<or> last pre = c) \<and> (post = [] \<or> hd post = c))"
proof
  assume l: "l \<in> set (split_on c s)"
  then obtain xs ys where "split_on c s = xs @ l # ys" by (meson split_list)
  then have "s = py_join [c] (xs @ l # ys)" using join_split_on [of c s] by simp
  then show "c \<notin> set l \<and> (\<exists>pre post. s = pre @ l @ post \<and> (pre = [] \<or> last pre = c) \<and> (post = [] \<or> hd post = c))"
    using split_on_free [OF l] unfolding py_join_split
    by (intro conjI exI [of _ "if xs = [] then [] else py_join [c] xs @ [c]"]
        exI [of _ "if ys = [] then [] else [c] @ py_join [c] ys"]) auto
next
  assume "c \<notin> set l \<and> (\<exists>pre post. s = pre @ l @ post \<and> (pre = [] \<or> last pre = c) \<and> (post = [] \<or> hd post = c))"
  then obtain pre post where s: "s = pre @ l @ post" "c \<notin> set l" "pre = [] \<or> last pre = c" "post = [] \<or> hd post = c"
    by blast
  have "l \<in> set (split_on c (l @ post))"
    using s(2,4) by (cases post) (auto simp: split_on_no_sep split_on_append)
  then show "l \<in> set (split_on c s)"
    using s(1,3) by (cases pre rule: rev_cases) (auto simp: split_on_cut)
qed

lemma newline_is_control [simp]: "is_control newline"
  by code_simp

lemma signoff_line_one_line: "make_identity n e = Inr a \<Longrightarrow> newline \<notin> set (signoff_line a)"
  by (auto simp: make_identity_def build_Inr field_Nil as_str_def validate_identity_def
      validate_bounded_text_def errors_of_def signoff_line_def list_ex_iff
      split: if_splits dest!: bspec [of _ _ newline])

text \<open>C35. A commit built from a GraphQL answer counts as signed off by its author exactly when one
  whole line of its message equals \<open>Signed-off-by: name <email>\<close> for that author, letter case
  aside: what \<open>git commit -s\<close> writes is read back wherever it stands in the message, and no
  part of a longer line counts.\<close>

theorem author_signoff_recognised:
  assumes "commit_from_graphql p = Inr c"
  shows "\<exists>m. map_of p ''message'' = Some (JStr m) \<and> newline \<notin> set (signoff_line (ce_author c)) \<and>
    (ce_author_signoff c \<longleftrightarrow> (\<exists>pre l post. m = pre @ l @ post \<and> (pre = [] \<or> last pre = newline) \<and>
      (post = [] \<or> hd post = newline) \<and> newline \<notin> set l \<and>
      casefold l = casefold (signoff_line (ce_author c))))"
proof -
  obtain n e m ls where i: "make_identity n e = Inr (ce_author c)" and m: "map_of p ''message'' = Some m"
    and ls: "message_lines m = Inr ls"
    and c: "ce_author_signoff c \<longleftrightarrow> list_ex (\<lambda>l. casefold l = casefold (signoff_line (ce_author c))) ls"
    using assms unfolding commit_from_graphql_def by (auto simp: build_Inr)
  obtain t where t: "m = JStr t" "ls = split_on newline t"
    using ls by (auto simp: message_lines_def split: option.splits if_splits)
  show ?thesis
    unfolding m t(1) c list_ex_iff t(2) Bex_def in_split_on
    using signoff_line_one_line [OF i] by (intro exI [of _ t]) blast
qed

definition sample_commit_payload :: "string \<Rightarrow> (string \<times> json) list" where
  "sample_commit_payload m = [(''oid'', JStr (replicate 40 (CHR ''b''))), (''message'', JStr m),
     (''author'', JObj [(''name'', JStr ''Mona''), (''email'', JStr ''mona@x.io''), (''user'', JNull)]),
     (''committer'', JObj [(''name'', JStr ''Mona''), (''email'', JStr ''mona@x.io'')]),
     (''parents'', JObj [(''totalCount'', JInt 0), (''nodes'', JList []),
       (''pageInfo'', JObj [(''hasNextPage'', JBool False)])]), (''signature'', JNull)]"

theorem author_signoff_recognised_witness:
  "\<exists>c. commit_from_graphql (sample_commit_payload (''fix'' @ [newline] @ ''signed-off-by: Mona <Mona@x.io>'')) = Inr c \<and>
     ce_author_signoff c \<and> newline \<notin> set (signoff_line (ce_author c))"
proof -
  let ?p = "sample_commit_payload (''fix'' @ [newline] @ ''signed-off-by: Mona <Mona@x.io>'')"
  have run: "map_sum (\<lambda>_. ()) ce_author_signoff (commit_from_graphql ?p) = Inr True" by code_simp
  then obtain c where c: "commit_from_graphql ?p = Inr c" by (cases "commit_from_graphql ?p") auto
  with run author_signoff_recognised [OF c] show ?thesis by auto
qed

end
