(* ===== verification/Api_Budget.thy ===== *)
theory Api_Budget
  imports Queue_State
begin

text \<open>
  \<open>extra_codeowners/api_budget.py\<close>: the per-installation REST quota that recovery work may
  spend, and the discovery cursors kept in the same row. Every method is one transaction on
  the locked row, so it is a function from the table to the table; \<open>t0\<close> is the clock read
  by \<open>_locked_row\<close>, the later arguments the later reads, all in microseconds. An error raised
  after the transaction commits is returned beside the committed table. \<open>math.ceil\<close> of a
  quotient is the exact one: the dividends stay far below the precision of a float.
\<close>

datatype budget_error = BudgetValueError string | RecoveryBudgetDeferred int | ProviderQuotaExhausted int

definition deferred_seconds :: "int \<Rightarrow> int" where
  "deferred_seconds retry_after_seconds = max 1 retry_after_seconds"

definition ceil_div :: "int \<Rightarrow> int \<Rightarrow> int" where
  "ceil_div a b = - ((- a) div b)"

section \<open>Quotas and receipts\<close>

record core_quota =
  cq_limit :: int
  cq_remaining :: int
  cq_reset :: int

definition quota_digits :: "string \<Rightarrow> bool" where
  "quota_digits v \<longleftrightarrow> v \<noteq> [] \<and> length v \<le> 12 \<and> list_all is_digit v"

definition quota_from_headers :: "int \<Rightarrow> (string \<Rightarrow> string option) \<Rightarrow> core_quota option" where
  "quota_from_headers now headers =
     (let field = (\<lambda>name. case headers (''x-ratelimit-'' @ name) of None \<Rightarrow> [] | Some v \<Rightarrow> v);
          values = map field [''limit'', ''remaining'', ''reset''];
          limit = int (parse_nat (values ! 0)); remaining = int (parse_nat (values ! 1));
          reset = int (parse_nat (values ! 2)) in
      if headers ''x-ratelimit-resource'' \<noteq> Some ''core'' then None
      else if \<not> list_all quota_digits values then None
      else if \<not> (0 \<le> remaining \<and> remaining \<le> limit \<and> limit \<le> 1000000000 \<and> 0 < limit) then None
      else if \<not> (now < seconds reset \<and> seconds reset \<le> now + seconds 86400) then None
      else Some \<lparr>cq_limit = limit, cq_remaining = remaining, cq_reset = seconds reset\<rparr>)"

record budget_receipt =
  r_installation :: int
  r_reset :: int
  r_revision :: int

section \<open>The row\<close>

record budget =
  b_limit :: int
  b_remaining :: int
  b_reset :: int
  b_probe :: int
  b_cursor :: string
  b_revision :: int
  b_pull_repo :: string
  b_pull_number :: int

type_synonym budgets = "(int \<times> budget) list"

definition reserve_percent_ok :: "int \<Rightarrow> bool" where
  "reserve_percent_ok p \<longleftrightarrow> 1 \<le> p \<and> p \<le> 90"

definition fresh_budget :: "int \<Rightarrow> budget" where
  "fresh_budget now = \<lparr>b_limit = 0, b_remaining = 0, b_reset = now, b_probe = now, b_cursor = [],
     b_revision = 0, b_pull_repo = [], b_pull_number = 0\<rparr>"

definition locked_row :: "int \<Rightarrow> int \<Rightarrow> budgets \<Rightarrow> budget_error + budget" where
  "locked_row t0 i bs = (if i \<le> 0 then Inl (BudgetValueError ''installation_id must be positive'')
     else Inr (case map_of bs i of None \<Rightarrow> fresh_budget t0 | Some r \<Rightarrow> r))"

section \<open>Admission\<close>

definition reserve_of :: "int \<Rightarrow> budget \<Rightarrow> int" where
  "reserve_of percent row = ceil_div (b_limit row * percent) 100"

definition admit_row ::
  "int \<Rightarrow> int \<Rightarrow> int \<Rightarrow> bool \<Rightarrow> budget \<Rightarrow> budget \<times> (budget_error + budget_receipt option)" where
  "admit_row percent now i recovery row =
     (if now < b_reset row \<and> 0 < b_limit row then
        if b_remaining row = 0 \<or> recovery \<and> b_remaining row \<le> reserve_of percent row
        then (let delay = deferred_seconds (ceil_div (b_reset row - now) 1000000 + 1) in
          (row, Inl (if b_remaining row = 0 then ProviderQuotaExhausted delay else RecoveryBudgetDeferred delay)))
        else (let row' = row\<lparr>b_remaining := max 0 (b_remaining row - 1), b_revision := b_revision row + 1\<rparr> in
          (row', Inr (Some \<lparr>r_installation = i, r_reset = b_reset row', r_revision = b_revision row'\<rparr>)))
      else if recovery then
        if now < b_probe row
        then (row, Inl (RecoveryBudgetDeferred (deferred_seconds (ceil_div (b_probe row - now) 1000000))))
        else (row\<lparr>b_probe := now + seconds 60\<rparr>, Inr None)
      else (row, Inr None))"

definition admit ::
  "int \<Rightarrow> int \<Rightarrow> int \<Rightarrow> int \<Rightarrow> bool \<Rightarrow> budgets \<Rightarrow> budgets \<times> (budget_error + budget_receipt option)" where
  "admit percent t0 now i recovery bs = (case locked_row t0 i bs of
      Inl e \<Rightarrow> (bs, Inl e)
    | Inr row \<Rightarrow> (let (row', r) = admit_row percent now i recovery row in (AList.update i row' bs, r)))"

section \<open>Observation\<close>

definition refundable :: "int \<Rightarrow> int \<Rightarrow> core_quota \<Rightarrow> budget \<Rightarrow> budget_receipt \<Rightarrow> bool" where
  "refundable t1 i q row rc \<longleftrightarrow> r_installation rc = i \<and> r_reset rc = b_reset row \<and> t1 < b_reset row \<and>
     r_revision rc = b_revision row \<and> b_remaining row + 1 \<le> cq_remaining q \<and> b_remaining row < b_limit row"

definition observe_row ::
  "int \<Rightarrow> int \<Rightarrow> int \<Rightarrow> core_quota \<Rightarrow> budget_receipt option \<Rightarrow> budget \<Rightarrow> budget" where
  "observe_row t1 t2 i q receipt row =
     (if cq_reset q < b_reset row then row
      else
        let previous_reset = b_reset row;
            row = (if (case receipt of None \<Rightarrow> False | Some rc \<Rightarrow> refundable t1 i q row rc)
                   then row\<lparr>b_remaining := b_remaining row + 1\<rparr> else row);
            row = (if b_limit row = 0 \<or> previous_reset \<le> t2
                   then row\<lparr>b_limit := cq_limit q, b_remaining := cq_remaining q, b_reset := cq_reset q\<rparr>
                   else let row = row\<lparr>b_remaining := min (b_remaining row) (cq_remaining q),
                                     b_limit := max (b_limit row) (cq_limit q)\<rparr>
                        in (if cq_remaining q = 0 then row\<lparr>b_reset := cq_reset q\<rparr> else row))
        in row\<lparr>b_revision := b_revision row + 1\<rparr>)"

definition observe ::
  "int \<Rightarrow> int \<Rightarrow> int \<Rightarrow> int \<Rightarrow> core_quota \<Rightarrow> budget_receipt option \<Rightarrow> budgets \<Rightarrow> budgets \<times> (budget_error + unit)" where
  "observe t0 t1 t2 i q receipt bs = (case locked_row t0 i bs of
      Inl e \<Rightarrow> (bs, Inl e)
    | Inr row \<Rightarrow> (AList.update i (observe_row t1 t2 i q receipt row) bs, Inr ()))"

section \<open>Discovery cursors\<close>

definition repository_cursor :: "int \<Rightarrow> int \<Rightarrow> budgets \<Rightarrow> budgets \<times> (budget_error + string)" where
  "repository_cursor t0 i bs = (case locked_row t0 i bs of Inl e \<Rightarrow> (bs, Inl e)
     | Inr row \<Rightarrow> (AList.update i row bs, Inr (b_cursor row)))"

definition pull_cursor :: "int \<Rightarrow> int \<Rightarrow> budgets \<Rightarrow> budgets \<times> (budget_error + string \<times> int)" where
  "pull_cursor t0 i bs = (case locked_row t0 i bs of Inl e \<Rightarrow> (bs, Inl e)
     | Inr row \<Rightarrow> (AList.update i row bs, Inr (b_pull_repo row, b_pull_number row)))"

definition owns_discovery :: "int \<Rightarrow> string \<Rightarrow> service_lease list \<Rightarrow> bool" where
  "owns_discovery now worker ls \<longleftrightarrow>
     list_ex (\<lambda>l. sl_name l = ''open-pr-reconciler'' \<and> sl_owner l = worker \<and> now < sl_until l) ls"

definition advance_row ::
  "int \<Rightarrow> int \<Rightarrow> int \<Rightarrow> string \<Rightarrow> service_lease list \<Rightarrow> (budget \<Rightarrow> budget) \<Rightarrow> budgets \<Rightarrow> budgets \<times> (budget_error + unit)" where
  "advance_row t0 now i worker ls f bs = (case locked_row t0 i bs of Inl e \<Rightarrow> (bs, Inl e)
     | Inr row \<Rightarrow> (AList.update i (if owns_discovery now worker ls then f row else row) bs, Inr ()))"

definition advance_pull ::
  "int \<Rightarrow> int \<Rightarrow> int \<Rightarrow> string \<Rightarrow> int \<Rightarrow> string \<Rightarrow> service_lease list \<Rightarrow> budgets \<Rightarrow> budgets \<times> (budget_error + unit)" where
  "advance_pull t0 now i full_name number worker ls =
     advance_row t0 now i worker ls (\<lambda>r. r\<lparr>b_pull_repo := lower full_name, b_pull_number := number\<rparr>)"

definition advance_repository ::
  "int \<Rightarrow> int \<Rightarrow> int \<Rightarrow> string \<Rightarrow> string \<Rightarrow> service_lease list \<Rightarrow> budgets \<Rightarrow> budgets \<times> (budget_error + unit)" where
  "advance_repository t0 now i full_name worker ls =
     advance_row t0 now i worker ls (\<lambda>r. r\<lparr>b_cursor := lower full_name, b_pull_repo := [], b_pull_number := 0\<rparr>)"

definition clear_pull_cursor ::
  "int \<Rightarrow> int \<Rightarrow> int \<Rightarrow> string \<Rightarrow> service_lease list \<Rightarrow> budgets \<Rightarrow> budgets \<times> (budget_error + unit)" where
  "clear_pull_cursor t0 now i worker ls = advance_pull t0 now i [] 0 worker ls"

end
