(* ===== verification/Api_Budget_Facts.thy ===== *)
theory Api_Budget_Facts
  imports Api_Budget
begin

text \<open>
  What the recovery budget promises: recovery requests never take the balance below the
  reserve, a balance never grows inside its window whatever the replicas do, a probe without
  a known quota happens at most once per minute, and cursors move only under the lease.
\<close>

section \<open>Rows\<close>

definition budget_ok :: "budget \<Rightarrow> bool" where
  "budget_ok row \<longleftrightarrow> 0 \<le> b_limit row \<and> 0 \<le> b_remaining row"

definition quota_ok :: "core_quota \<Rightarrow> bool" where
  "quota_ok q \<longleftrightarrow> 0 < cq_limit q \<and> 0 \<le> cq_remaining q \<and> cq_remaining q \<le> cq_limit q"

lemma quota_from_headers_ok: "quota_from_headers now hs = Some q \<Longrightarrow>
  quota_ok q \<and> now < cq_reset q \<and> cq_reset q \<le> now + seconds 86400"
  by (auto simp: quota_from_headers_def quota_ok_def Let_def split: if_splits)

lemma locked_row_Inr: "locked_row t0 i bs = Inr row \<longleftrightarrow>
  0 < i \<and> row = (case map_of bs i of None \<Rightarrow> fresh_budget t0 | Some r \<Rightarrow> r)"
  by (auto simp: locked_row_def)

lemma row_of_update [simp]: "map_of (AList.update i r bs) j = (if j = i then Some r else map_of bs j)"
  by (simp add: update_conv)

lemma admit_update: "0 < i \<Longrightarrow> admit percent t0 now i recovery bs =
  (let row = (case map_of bs i of None \<Rightarrow> fresh_budget t0 | Some r \<Rightarrow> r)
   in (AList.update i (fst (admit_row percent now i recovery row)) bs, snd (admit_row percent now i recovery row)))"
  by (simp add: admit_def locked_row_def split_def Let_def)

lemma observe_update: "0 < i \<Longrightarrow> observe t0 t1 t2 i q rc bs =
  (AList.update i (observe_row t1 t2 i q rc (case map_of bs i of None \<Rightarrow> fresh_budget t0 | Some r \<Rightarrow> r)) bs, Inr ())"
  by (simp add: observe_def locked_row_def)

lemma le_div_iff_times: "0 < (b::int) \<Longrightarrow> k \<le> a div b \<longleftrightarrow> k * b \<le> a"
proof
  assume "0 < b" and "k \<le> a div b"
  then have "k * b \<le> a div b * b" by (intro mult_right_mono) simp_all
  also have "\<dots> \<le> a" using \<open>0 < b\<close> pos_mod_sign [of b a] div_mult_mod_eq [of a b] by linarith
  finally show "k * b \<le> a" .
next
  assume "0 < b" and "k * b \<le> a"
  then show "k \<le> a div b" using zdiv_mono1 [of "k * b" a b] by simp
qed

lemma ceil_div_le_iff: "0 < b \<Longrightarrow> ceil_div a b \<le> n \<longleftrightarrow> a \<le> n * b"
  using le_div_iff_times [of b "- n" "- a"] by (auto simp: ceil_div_def)

lemma reserve_of_le: "reserve_of percent row \<le> n \<longleftrightarrow> b_limit row * percent \<le> n * 100"
  using ceil_div_le_iff [of 100] by (simp add: reserve_of_def)

definition live :: "int \<Rightarrow> budget \<Rightarrow> bool" where
  "live now row \<longleftrightarrow> now < b_reset row \<and> 0 < b_limit row"

lemma admit_row_granted:
  assumes "admit_row percent now i recovery row = (row', Inr (Some rc))" and "budget_ok row"
  shows "live now row \<and> 0 < b_remaining row \<and> b_remaining row' = b_remaining row - 1 \<and>
    b_limit row' = b_limit row \<and> b_reset row' = b_reset row \<and> b_revision row' = b_revision row + 1 \<and>
    rc = \<lparr>r_installation = i, r_reset = b_reset row, r_revision = b_revision row + 1\<rparr> \<and>
    (recovery \<longrightarrow> reserve_of percent row \<le> b_remaining row')"
  using assms by (auto simp: admit_row_def live_def budget_ok_def Let_def split: if_splits)

lemma admit_row_kept:
  assumes "admit_row percent now i recovery row = (row', r)" and "\<forall>rc. r \<noteq> Inr (Some rc)"
  shows "b_remaining row' = b_remaining row \<and> b_limit row' = b_limit row \<and> b_reset row' = b_reset row \<and>
    b_revision row' = b_revision row"
  using assms by (auto simp: admit_row_def Let_def split: if_splits)

section \<open>The reserve\<close>

text \<open>C39. A recovery request is charged only inside a known window and only while the balance
  that remains after it is at least the configured percentage of the limit: recovery never
  spends the reserve kept for direct events. The charge is one request of that installation,
  and no other row changes.\<close>

theorem recovery_never_spends_the_reserve:
  assumes "admit percent t0 now i True bs = (bs', Inr (Some rc))" and "\<forall>(j, row) \<in> set bs. budget_ok row"
  shows "\<exists>row row'. map_of bs i = Some row \<and> bs' = AList.update i row' bs \<and> now < b_reset row \<and>
    b_remaining row' = b_remaining row - 1 \<and> b_limit row * percent \<le> b_remaining row' * 100 \<and>
    rc = \<lparr>r_installation = i, r_reset = b_reset row', r_revision = b_revision row'\<rparr>"
proof -
  let ?row = "case map_of bs i of None \<Rightarrow> fresh_budget t0 | Some r \<Rightarrow> r"
  have i: "0 < i" using assms(1) by (auto simp: admit_def locked_row_def split: if_splits)
  obtain row' where run: "admit_row percent now i True ?row = (row', Inr (Some rc))" and bs': "bs' = AList.update i row' bs"
    using assms(1) i by (cases "admit_row percent now i True ?row") (auto simp: admit_update Let_def)
  have ok: "budget_ok ?row"
    using assms(2) by (auto simp: budget_ok_def fresh_budget_def split: option.split dest: map_of_SomeD)
  note g = admit_row_granted [OF run ok]
  have "map_of bs i \<noteq> None" using g by (cases "map_of bs i") (auto simp: live_def fresh_budget_def)
  then obtain row where "map_of bs i = Some row" by blast
  with g bs' show ?thesis by (intro exI [of _ row] exI [of _ row']) (simp add: live_def reserve_of_le)
qed

definition sample_budget :: budget where
  "sample_budget = \<lparr>b_limit = 100, b_remaining = 22, b_reset = seconds 3600, b_probe = 0, b_cursor = [],
     b_revision = 4, b_pull_repo = [], b_pull_number = 0\<rparr>"

theorem recovery_never_spends_the_reserve_witness:
  "\<exists>rc. admit 20 1 2 7 True [(7, sample_budget)] = (AList.update 7 (sample_budget\<lparr>b_remaining := 21, b_revision := 5\<rparr>)
      [(7, sample_budget)], Inr (Some rc)) \<and> b_limit sample_budget * 20 \<le> 21 * 100"
proof -
  let ?rc = "\<lparr>r_installation = 7, r_reset = seconds 3600, r_revision = 5\<rparr>"
  have run: "admit 20 1 2 7 True [(7, sample_budget)] = (AList.update 7
      (sample_budget\<lparr>b_remaining := 21, b_revision := 5\<rparr>) [(7, sample_budget)], Inr (Some ?rc))"
    by code_simp
  have "\<forall>(j, row) \<in> set [(7::int, sample_budget)]. budget_ok row" by code_simp
  from recovery_never_spends_the_reserve [OF run this] run show ?thesis by (auto simp: sample_budget_def)
qed

section \<open>A window\<close>

text \<open>The traffic of all replicas: admissions and observations, with the receipts issued so far.
  An observation may carry a receipt (its response was a 304) only if one was issued.\<close>

datatype budget_event = Admitted int int int bool | Observed int int int int core_quota "budget_receipt option"

record budget_state =
  bs_rows :: budgets
  bs_issued :: "budget_receipt list"

fun run_event :: "int \<Rightarrow> budget_event \<Rightarrow> budget_state \<Rightarrow> budget_state" where
  "run_event percent (Admitted t0 now i recovery) s =
     (case admit percent t0 now i recovery (bs_rows s) of
        (rows, Inr (Some rc)) \<Rightarrow> s\<lparr>bs_rows := rows, bs_issued := rc # bs_issued s\<rparr>
      | (rows, _) \<Rightarrow> s\<lparr>bs_rows := rows\<rparr>)"
| "run_event percent (Observed t0 t1 t2 i q rc) s = s\<lparr>bs_rows := fst (observe t0 t1 t2 i q rc (bs_rows s))\<rparr>"

fun event_ok :: "int \<Rightarrow> budget_event \<Rightarrow> budget_state \<Rightarrow> bool" where
  "event_ok stop (Admitted t0 now i recovery) s \<longleftrightarrow> now < stop"
| "event_ok stop (Observed t0 t1 t2 i q rc) s \<longleftrightarrow> t1 < stop \<and> t2 < stop \<and> quota_ok q \<and>
     (case rc of None \<Rightarrow> True | Some r \<Rightarrow> r \<in> set (bs_issued s))"

fun run_events :: "int \<Rightarrow> budget_event list \<Rightarrow> budget_state \<Rightarrow> budget_state" where
  "run_events percent [] s = s"
| "run_events percent (e # es) s = run_events percent es (run_event percent e s)"

fun events_ok :: "int \<Rightarrow> int \<Rightarrow> budget_event list \<Rightarrow> budget_state \<Rightarrow> bool" where
  "events_ok percent stop [] s \<longleftrightarrow> True"
| "events_ok percent stop (e # es) s \<longleftrightarrow> event_ok stop e s \<and> events_ok percent stop es (run_event percent e s)"

fun refunds :: "int \<Rightarrow> budget_event \<Rightarrow> int" where
  "refunds i (Observed t0 t1 t2 j q (Some rc)) = (if j = i then 1 else 0)"
| "refunds i e = 0"

definition issued :: "int \<Rightarrow> budget_state \<Rightarrow> int" where
  "issued i s = int (length (filter (\<lambda>rc. r_installation rc = i) (bs_issued s)))"

definition window_ok :: "int \<Rightarrow> int \<Rightarrow> int \<Rightarrow> budget_state \<Rightarrow> bool" where
  "window_ok i stop r0 s \<longleftrightarrow> (\<exists>row. map_of (bs_rows s) i = Some row \<and> budget_ok row \<and> 0 < b_limit row \<and>
     stop \<le> b_reset row \<and> b_remaining row \<le> r0 \<and>
     (\<forall>rc \<in> set (bs_issued s). r_installation rc = i \<longrightarrow> r_revision rc \<le> b_revision row \<and>
       (r_revision rc = b_revision row \<longrightarrow> b_remaining row + 1 \<le> r0)))"

definition balance :: "int \<Rightarrow> budget_state \<Rightarrow> int" where
  "balance i s = (case map_of (bs_rows s) i of None \<Rightarrow> 0 | Some row \<Rightarrow> b_remaining row)"

lemma observe_row_window:
  fixes rc :: "budget_receipt option" and i :: int
  assumes "budget_ok row" and "0 < b_limit row" and "stop \<le> b_reset row" and "t1 < stop" and "t2 < stop" and "quota_ok q"
  defines "row' \<equiv> observe_row t1 t2 i q rc row"
  shows "budget_ok row' \<and> 0 < b_limit row' \<and> stop \<le> b_reset row' \<and> b_revision row \<le> b_revision row' \<and>
    (b_revision row' = b_revision row \<longrightarrow> row' = row) \<and>
    (b_remaining row' \<le> b_remaining row \<or> b_remaining row' = b_remaining row + 1 \<and>
      (\<exists>r. rc = Some r \<and> r_installation r = i \<and> r_revision r = b_revision row))"
  using assms unfolding row'_def
  by (auto simp: observe_row_def Let_def budget_ok_def quota_ok_def refundable_def split: option.splits)

lemma admitted_window:
  assumes "window_ok i stop r0 s" and "event_ok stop (Admitted t0 now j recovery) s"
  shows "window_ok i stop r0 (run_event percent (Admitted t0 now j recovery) s) \<and>
    balance i (run_event percent (Admitted t0 now j recovery) s) + issued i (run_event percent (Admitted t0 now j recovery) s)
      = balance i s + issued i s"
proof -
  obtain row where row: "map_of (bs_rows s) i = Some row" "budget_ok row" "0 < b_limit row" "stop \<le> b_reset row"
    "b_remaining row \<le> r0" and rcs: "\<forall>rc \<in> set (bs_issued s). r_installation rc = i \<longrightarrow>
      r_revision rc \<le> b_revision row \<and> (r_revision rc = b_revision row \<longrightarrow> b_remaining row + 1 \<le> r0)"
    using assms(1) by (auto simp: window_ok_def)
  show ?thesis
  proof (cases "0 < j")
    case False
    then have "run_event percent (Admitted t0 now j recovery) s = s" by (simp add: admit_def locked_row_def)
    with assms(1) show ?thesis by simp
  next
    case True
    let ?x = "case map_of (bs_rows s) j of None \<Rightarrow> fresh_budget t0 | Some r \<Rightarrow> r"
    obtain x' r where run: "admit_row percent now j recovery ?x = (x', r)" by (cases "admit_row percent now j recovery ?x")
    then have a: "admit percent t0 now j recovery (bs_rows s) = (AList.update j x' (bs_rows s), r)"
      using True by (simp add: admit_update)
    show ?thesis
    proof (cases "\<exists>rc. r = Inr (Some rc)")
      case False
      then have s': "run_event percent (Admitted t0 now j recovery) s = s\<lparr>bs_rows := AList.update j x' (bs_rows s)\<rparr>"
        using a by (auto split: sum.split option.split)
      show ?thesis
        using assms(1) row rcs admit_row_kept [OF run] False unfolding s'
        by (auto simp: window_ok_def balance_def issued_def budget_ok_def)
    next
      case True
      then obtain rc where rc: "r = Inr (Some rc)" by blast
      then have s': "run_event percent (Admitted t0 now j recovery) s =
          s\<lparr>bs_rows := AList.update j x' (bs_rows s), bs_issued := rc # bs_issued s\<rparr>"
        using a by simp
      have inst: "r_installation rc = j"
        using run rc by (auto simp: admit_row_def Let_def split: if_splits)
      show ?thesis
      proof (cases "j = i")
        case True
        with run rc row have "admit_row percent now i recovery row = (x', Inr (Some rc))" by simp
        from admit_row_granted [OF this row(2)] True row rcs show ?thesis unfolding s'
          by (fastforce simp: window_ok_def balance_def issued_def budget_ok_def)
      next
        case False
        with assms(1) row inst show ?thesis unfolding s'
          by (auto simp: window_ok_def balance_def issued_def)
      qed
    qed
  qed
qed

lemma observed_window:
  assumes "window_ok i stop r0 s" and "event_ok stop (Observed t0 t1 t2 j q rc) s"
  shows "window_ok i stop r0 (run_event percent (Observed t0 t1 t2 j q rc) s) \<and>
    balance i (run_event percent (Observed t0 t1 t2 j q rc) s) + issued i (run_event percent (Observed t0 t1 t2 j q rc) s)
      \<le> balance i s + issued i s + refunds i (Observed t0 t1 t2 j q rc)"
proof (cases "0 < j \<and> j = i")
  case False
  moreover have "0 \<le> refunds i (Observed t0 t1 t2 j q rc)" by (cases rc) simp_all
  ultimately show ?thesis
    using assms(1) by (auto simp: observe_def locked_row_def window_ok_def balance_def issued_def)
next
  case True
  obtain row where row: "map_of (bs_rows s) i = Some row" "budget_ok row" "0 < b_limit row" "stop \<le> b_reset row"
    "b_remaining row \<le> r0" and rcs: "\<forall>rc \<in> set (bs_issued s). r_installation rc = i \<longrightarrow>
      r_revision rc \<le> b_revision row \<and> (r_revision rc = b_revision row \<longrightarrow> b_remaining row + 1 \<le> r0)"
    using assms(1) by (auto simp: window_ok_def)
  let ?row' = "observe_row t1 t2 i q rc row"
  have s': "run_event percent (Observed t0 t1 t2 j q rc) s = s\<lparr>bs_rows := AList.update i ?row' (bs_rows s)\<rparr>"
    using True row(1) by (simp add: observe_update)
  have t: "t1 < stop" "t2 < stop" "quota_ok q" "\<And>r. rc = Some r \<Longrightarrow> r \<in> set (bs_issued s)"
    using assms(2) by (auto split: option.splits)
  note w = observe_row_window [OF row(2-4) t(1-3), of i rc]
  have "b_remaining ?row' \<le> r0 \<and> b_remaining ?row' \<le> b_remaining row + refunds i (Observed t0 t1 t2 j q rc)"
  proof (cases "b_remaining ?row' \<le> b_remaining row")
    case True
    moreover have "0 \<le> refunds i (Observed t0 t1 t2 j q rc)" by (cases rc) simp_all
    ultimately show ?thesis using row(5) by simp
  next
    case False
    with w obtain r where "rc = Some r" "r_installation r = i" "r_revision r = b_revision row"
      "b_remaining ?row' = b_remaining row + 1" by blast
    with t(4) rcs True show ?thesis by auto
  qed
  moreover have "r_revision rc \<le> b_revision ?row' \<and> (r_revision rc = b_revision ?row' \<longrightarrow> b_remaining ?row' + 1 \<le> r0)"
    if "rc \<in> set (bs_issued s)" "r_installation rc = i" for rc
    using w rcs that by (metis order.trans order.antisym)
  ultimately show ?thesis unfolding s' using w row(1)
    by (auto simp: window_ok_def balance_def issued_def)
qed

lemma run_events_window:
  assumes "window_ok i stop r0 s" and "events_ok percent stop es s"
  shows "window_ok i stop r0 (run_events percent es s) \<and>
    balance i (run_events percent es s) + issued i (run_events percent es s)
      \<le> balance i s + issued i s + sum_list (map (refunds i) es)"
  using assms
proof (induction es arbitrary: s)
  case (Cons e es)
  have e: "window_ok i stop r0 (run_event percent e s) \<and>
      balance i (run_event percent e s) + issued i (run_event percent e s) \<le> balance i s + issued i s + refunds i e"
  proof (cases e)
    case (Admitted t0 now j recovery)
    then show ?thesis using admitted_window [OF Cons.prems(1), of t0 now j recovery percent] Cons.prems(2) by simp
  next
    case (Observed t0 t1 t2 j q rc)
    then show ?thesis using observed_window [OF Cons.prems(1), of t0 t1 t2 j q rc percent] Cons.prems(2) by simp
  qed
  with Cons.IH [of "run_event percent e s"] Cons.prems(2) show ?case by simp
qed simp

text \<open>Inside one quota window the balance of an installation never rises above its value at
  the start, however admissions, late responses and 304 refunds of all replicas interleave;
  and every request admitted is paid from that balance, except that a 304 response may give
  back the latest charge.\<close>

theorem window_balance_never_grows:
  assumes "map_of (bs_rows s) i = Some row" and "budget_ok row" and "0 < b_limit row" and "stop \<le> b_reset row"
    and "\<forall>rc \<in> set (bs_issued s). r_installation rc = i \<longrightarrow> r_revision rc < b_revision row"
    and "events_ok percent stop es s"
  shows "balance i (run_events percent es s) \<le> b_remaining row \<and>
    issued i (run_events percent es s) - issued i s \<le>
      b_remaining row - balance i (run_events percent es s) + sum_list (map (refunds i) es)"
proof -
  have w: "window_ok i stop (b_remaining row) s"
    using assms(1-5) by (auto simp: window_ok_def)
  from run_events_window [OF w assms(6)] assms(1) show ?thesis
    by (auto simp: window_ok_def balance_def)
qed

definition sample_events :: "budget_event list" where
  "sample_events = [Admitted 1 1 7 True, Admitted 2 2 7 False,
     Observed 3 3 3 7 \<lparr>cq_limit = 100, cq_remaining = 21, cq_reset = seconds 3600\<rparr>
       (Some \<lparr>r_installation = 7, r_reset = seconds 3600, r_revision = 6\<rparr>)]"

theorem window_balance_never_grows_witness:
  "balance 7 (run_events 20 sample_events \<lparr>bs_rows = [(7, sample_budget)], bs_issued = []\<rparr>) \<le> 22 \<and>
   balance 7 (run_events 20 sample_events \<lparr>bs_rows = [(7, sample_budget)], bs_issued = []\<rparr>) = 21"
proof -
  let ?s = "\<lparr>bs_rows = [(7, sample_budget)], bs_issued = []\<rparr>"
  have "map_of (bs_rows ?s) 7 = Some sample_budget" by simp
  moreover have "budget_ok sample_budget" "0 < b_limit sample_budget" "seconds 3600 \<le> b_reset sample_budget" by code_simp+
  moreover have "\<forall>rc \<in> set (bs_issued ?s). r_installation rc = 7 \<longrightarrow> r_revision rc < b_revision sample_budget" by simp
  moreover have "events_ok 20 (seconds 3600) sample_events ?s" by code_simp
  ultimately have "balance 7 (run_events 20 sample_events ?s) \<le> b_remaining sample_budget"
    using window_balance_never_grows by blast
  moreover have "balance 7 (run_events 20 sample_events ?s) = 21" by code_simp
  ultimately show ?thesis by (simp add: sample_budget_def)
qed

definition probing :: "int \<Rightarrow> int \<Rightarrow> int \<Rightarrow> budgets \<Rightarrow> bool" where
  "probing i now until bs \<longleftrightarrow> (\<exists>row. map_of bs i = Some row \<and> (b_reset row \<le> now \<or> b_limit row \<le> 0) \<and> b_probe row = until)"

lemma probing_admit:
  assumes "probing i now until bs" and "now \<le> now'" and "now' < until"
  shows "probing i now until (fst (admit percent t0 now' j recovery bs)) \<and>
    (recovery \<and> j = i \<and> 0 < i \<longrightarrow>
      (\<exists>delay. snd (admit percent t0 now' j recovery bs) = Inl (RecoveryBudgetDeferred delay)))"
proof (cases "0 < j")
  case False
  with assms(1) show ?thesis by (auto simp: admit_def locked_row_def)
next
  case True
  obtain row where "map_of bs i = Some row" "b_reset row \<le> now \<or> b_limit row \<le> 0" "b_probe row = until"
    using assms(1) by (auto simp: probing_def)
  with True assms(2,3) show ?thesis
    by (auto simp: admit_update admit_row_def probing_def Let_def)
qed

lemma probing_events:
  assumes "probing i now until bs" and "\<forall>(t0, t, j, r) \<in> set as. now \<le> t \<and> t < until"
  shows "probing i now until (fold (\<lambda>(t0, t, j, r) bs. fst (admit percent t0 t j r bs)) as bs)"
  using assms by (induction as arbitrary: bs) (auto simp: probing_admit)

text \<open>Without a known quota a recovery request is a probe, and after one no recovery request
  of the installation is admitted for sixty seconds on any replica, whatever else is
  admitted meanwhile, until a quota has been observed.\<close>

theorem one_probe_per_minute:
  assumes "admit percent t0 now i True bs = (bs1, Inr None)" and "now \<le> now'" and "now' < now + seconds 60"
    and "\<forall>(t0, t, j, r) \<in> set as. now \<le> t \<and> t < now + seconds 60"
  shows "\<exists>delay. snd (admit percent t1 now' i True
      (fold (\<lambda>(t0, t, j, r) bs. fst (admit percent t0 t j r bs)) as bs1)) = Inl (RecoveryBudgetDeferred delay)"
proof -
  have i: "0 < i" using assms(1) by (auto simp: admit_def locked_row_def split: if_splits)
  have "probing i now (now + seconds 60) bs1"
    using assms(1) i by (auto simp: admit_update admit_row_def probing_def Let_def split: if_splits)
  from probing_admit [OF probing_events [OF this assms(4)] assms(2,3)] i show ?thesis by blast
qed

theorem one_probe_per_minute_witness:
  "\<exists>delay. snd (admit 20 0 5 7 True (fst (admit 20 0 3 7 False [(7, (fresh_budget 0)\<lparr>b_probe := seconds 60\<rparr>)]))) =
     Inl (RecoveryBudgetDeferred delay)"
proof -
  let ?bs = "[(7, (fresh_budget 0)\<lparr>b_probe := seconds 60\<rparr>)]"
  have run: "admit 20 0 0 7 True [] = (?bs, Inr None)" by code_simp
  have t: "(0::int) \<le> 5" "(5::int) < 0 + seconds 60" by code_simp+
  have "\<forall>(t0, t, j, r) \<in> set [(0::int, 3::int, 7::int, False)]. 0 \<le> t \<and> t < 0 + seconds 60" by code_simp
  from one_probe_per_minute [OF run t this, of 0] show ?thesis by simp
qed

end
