(* ===== verification/Discovery_Cache.thy ===== *)
theory Discovery_Cache
  imports Pystr
begin

text \<open>
  \<open>extra_codeowners/discovery_cache.py\<close>: the bounded cache of discovery responses. The ordered
  dictionary is an association list, least recently used first; the clock reading is an
  argument (in ticks, with the idle lifetime in the same unit) and the observed events are
  returned. A body is a string of bytes. The \<open>zlib\<close> library is two parameters: \<open>deflate body\<close>
  is the compressed body, or \<open>None\<close> for \<open>zlib.error\<close>; \<open>inflate body n\<close> is what the decoder
  gives under the output limit \<open>n\<close>: the bytes, \<open>eof\<close>, \<open>unconsumed_tail\<close>, \<open>unused_data\<close>.
\<close>

section \<open>Entries and bounds\<close>

datatype cache_status = Hit | Absent | Expired

datatype cache_event = CacheExpired | CacheStored | RejectedMetadata | RejectedSize | RejectedEncoding
  | EvictedBytes | EvictedEntries

datatype cache_error = CacheValueError string | CacheKeyError

definition MAX_KEY_BYTES :: int where "MAX_KEY_BYTES = 4096"
definition MAX_LINKS :: int where "MAX_LINKS = 128"
definition MAX_LINK_BYTES :: int where "MAX_LINK_BYTES = 16384"
definition MAX_ETAG_BYTES :: int where "MAX_ETAG_BYTES = 512"

record cache_entry =
  ce_body :: string
  ce_etag :: string
  ce_links :: "string list"

record stored_entry =
  se_entry :: cache_entry
  se_used :: int
  se_size :: int
  se_compressed :: bool

type_synonym cache_key = "int \<times> string \<times> string"

record cache =
  c_max_bytes :: int
  c_max_entry_bytes :: int
  c_max_entries :: int
  c_ttl :: int
  c_compress :: bool
  c_entries :: "(cache_key \<times> stored_entry) list"
  c_bytes :: int

definition make_cache :: "int \<Rightarrow> int \<Rightarrow> int \<Rightarrow> int \<Rightarrow> bool \<Rightarrow> cache_error + cache" where
  "make_cache max_bytes max_entry_bytes max_entries ttl compress =
     (if max_bytes \<le> 0 \<or> max_entry_bytes \<le> 0 \<or> max_entries \<le> 0
      then Inl (CacheValueError ''cache bounds must be positive'')
      else if ttl \<le> 0 then Inl (CacheValueError ''idle_ttl_seconds must be positive'')
      else Inr \<lparr>c_max_bytes = max_bytes, c_max_entry_bytes = max_entry_bytes, c_max_entries = max_entries,
        c_ttl = ttl, c_compress = compress, c_entries = [], c_bytes = 0\<rparr>)"

section \<open>Validation\<close>

definition is_ascii :: "char \<Rightarrow> bool" where
  "is_ascii c \<longleftrightarrow> code c < 128"

definition is_ascii_control :: "char \<Rightarrow> bool" where
  "is_ascii_control c \<longleftrightarrow> code c < 32 \<or> code c = 127"

definition etag_re :: "string \<Rightarrow> bool" where
  "etag_re s \<longleftrightarrow> (let t = removeprefix ''W/'' s in
     2 \<le> length t \<and> hd t = CHR 0x22 \<and> last t = CHR 0x22 \<and>
     list_all (\<lambda>c. c \<noteq> CHR 0x22 \<and> \<not> is_ascii_control c) (butlast (tl t)))"

definition validate_key :: "cache_key \<Rightarrow> cache_error + cache_key" where
  "validate_key key = (case key of (installation_id, path, query) \<Rightarrow>
     if installation_id \<le> 0 then Inl (CacheValueError ''installation_id must be a positive integer'')
     else if \<not> startswith ''/'' path then Inl (CacheValueError ''path must be an absolute request path'')
     else if MAX_KEY_BYTES < int (utf8_length path + utf8_length query)
     then Inl (CacheValueError ''cache key is too large'')
     else Inr key)"

fun validate_links :: "string list \<Rightarrow> cache_error + int" where
  "validate_links [] = Inr 0"
| "validate_links (link # ls) =
     (if \<not> list_all is_ascii link then Inl (CacheValueError ''pagination links must contain ASCII only'')
      else if list_ex is_ascii_control link
      then Inl (CacheValueError ''pagination links must not contain control characters'')
      else bind_result (validate_links ls) (\<lambda>n. Inr (int (length link) + n)))"

definition validate_entry :: "cache_entry \<Rightarrow> cache_error + unit" where
  "validate_entry e =
     (if \<not> list_all is_ascii (ce_etag e) then Inl (CacheValueError ''ETag must contain printable ASCII only'')
      else if MAX_ETAG_BYTES < int (length (ce_etag e)) \<or> \<not> etag_re (ce_etag e)
      then Inl (CacheValueError ''ETag must be one bounded quoted or weak quoted tag'')
      else if MAX_LINKS < int (length (ce_links e))
      then Inl (CacheValueError ''pagination links exceed their bound'')
      else bind_result (validate_links (ce_links e)) (\<lambda>total.
        if MAX_LINK_BYTES < total then Inl (CacheValueError ''pagination links exceed their byte bound'')
        else Inr ()))"

definition entry_size :: "cache_key \<Rightarrow> cache_entry \<Rightarrow> int" where
  "entry_size key e = (case key of (installation_id, path, query) \<Rightarrow>
     int (length (show_int installation_id) + utf8_length path + utf8_length query + length (ce_body e) +
       length (ce_etag e) + sum_list (map length (ce_links e))))"

section \<open>Operations\<close>

definition pop_key :: "cache_key \<Rightarrow> (cache_key \<times> stored_entry) list \<Rightarrow> (cache_key \<times> stored_entry) list" where
  "pop_key k es = filter (\<lambda>(x, _). x \<noteq> k) es"

definition remove_validated :: "cache_key \<Rightarrow> cache \<Rightarrow> cache" where
  "remove_validated k c = (case map_of (c_entries c) k of None \<Rightarrow> c
     | Some stored \<Rightarrow> c\<lparr>c_entries := pop_key k (c_entries c), c_bytes := c_bytes c - se_size stored\<rparr>)"

definition remove_entry :: "cache_key \<Rightarrow> cache \<Rightarrow> cache_error + cache" where
  "remove_entry k c = bind_result (validate_key k) (\<lambda>k. Inr (remove_validated k c))"

definition inflated ::
  "(string \<Rightarrow> int \<Rightarrow> (string \<times> bool \<times> string \<times> string) option) \<Rightarrow> int \<Rightarrow> stored_entry \<Rightarrow> cache_entry option" where
  "inflated inflate limit stored =
     (if \<not> se_compressed stored then Some (se_entry stored)
      else (case inflate (ce_body (se_entry stored)) (limit + 1) of None \<Rightarrow> None
        | Some (body, eof, tail, unused) \<Rightarrow>
            if limit < int (length body) \<or> \<not> eof \<or> tail \<noteq> [] \<or> unused \<noteq> [] then None
            else Some ((se_entry stored)\<lparr>ce_body := body\<rparr>)))"

definition lookup ::
  "(string \<Rightarrow> int \<Rightarrow> (string \<times> bool \<times> string \<times> string) option) \<Rightarrow> int \<Rightarrow> cache_key \<Rightarrow> cache \<Rightarrow>
     cache \<times> cache_event list \<times> (cache_error + cache_entry option \<times> cache_status)" where
  "lookup inflate now key c = (case validate_key key of Inl e \<Rightarrow> (c, [], Inl e)
     | Inr key \<Rightarrow> (case map_of (c_entries c) key of None \<Rightarrow> (c, [], Inr (None, Absent))
       | Some stored \<Rightarrow>
           if c_ttl c \<le> now - se_used stored
           then (remove_validated key c, [CacheExpired], Inr (None, Expired))
           else (case inflated inflate (c_max_entry_bytes c) stored of
               None \<Rightarrow> (remove_validated key c, [RejectedEncoding], Inr (None, Absent))
             | Some e \<Rightarrow> (c\<lparr>c_entries := pop_key key (c_entries c) @ [(key, stored\<lparr>se_used := now\<rparr>)]\<rparr>, [],
                 Inr (Some e, Hit)))))"

definition get_entry ::
  "(string \<Rightarrow> int \<Rightarrow> (string \<times> bool \<times> string \<times> string) option) \<Rightarrow> int \<Rightarrow> cache_key \<Rightarrow> cache \<Rightarrow>
     cache \<times> cache_event list \<times> (cache_error + cache_entry option)" where
  "get_entry inflate now key c = (case lookup inflate now key c of (c', es, r) \<Rightarrow>
     (c', es, case r of Inl e \<Rightarrow> Inl e | Inr (x, _) \<Rightarrow> Inr x))"

text \<open>The eviction loop; \<open>popitem\<close> of an empty dictionary raises \<open>KeyError\<close>.\<close>

fun evict_loop ::
  "int \<Rightarrow> int \<Rightarrow> (cache_key \<times> stored_entry) list \<Rightarrow> int \<Rightarrow> cache_event list \<times>
     (cache_error + (cache_key \<times> stored_entry) list \<times> int)" where
  "evict_loop max_bytes max_entries [] bytes =
     (if max_entries < 0 \<or> max_bytes < bytes
      then ([if max_bytes < bytes then EvictedBytes else EvictedEntries], Inl CacheKeyError)
      else ([], Inr ([], bytes)))"
| "evict_loop max_bytes max_entries (e # es) bytes =
     (if max_entries < int (length (e # es)) \<or> max_bytes < bytes
      then (case evict_loop max_bytes max_entries es (bytes - se_size (snd e)) of (events, r) \<Rightarrow>
        ((if max_bytes < bytes then EvictedBytes else EvictedEntries) # events, r))
      else ([], Inr (e # es, bytes)))"

definition compressed_entry ::
  "(string \<Rightarrow> string option) \<Rightarrow> bool \<Rightarrow> cache_entry \<Rightarrow> int \<Rightarrow> cache_entry \<times> int \<times> bool" where
  "compressed_entry deflate compress e sz =
     (if \<not> compress then (e, sz, False)
      else (let encoded = (case deflate (ce_body e) of None \<Rightarrow> ce_body e | Some b \<Rightarrow> b) in
        if length encoded < length (ce_body e)
        then (e\<lparr>ce_body := encoded\<rparr>, sz - (int (length (ce_body e)) - int (length encoded)), True)
        else (e, sz, False)))"

definition put ::
  "(string \<Rightarrow> string option) \<Rightarrow> int \<Rightarrow> cache_key \<Rightarrow> cache_entry \<Rightarrow> cache \<Rightarrow>
     cache \<times> cache_event list \<times> (cache_error + unit)" where
  "put deflate now key entry c = (case validate_key key of Inl e \<Rightarrow> (c, [], Inl e)
     | Inr key \<Rightarrow> (let c = remove_validated key c in
         case validate_entry entry of Inl e \<Rightarrow> (c, [RejectedMetadata], Inl e)
       | Inr _ \<Rightarrow> (let sz = entry_size key entry in
           if c_max_entry_bytes c < sz \<or> c_max_bytes c < sz
           then (c, [RejectedSize], Inl (CacheValueError ''cache entry exceeds its configured size bound''))
           else (case compressed_entry deflate (c_compress c) entry sz of (entry, sz, compressed) \<Rightarrow>
             let entries = c_entries c @ [(key, \<lparr>se_entry = entry, se_used = now, se_size = sz,
                   se_compressed = compressed\<rparr>)];
                 bytes = c_bytes c + sz in
             case evict_loop (c_max_bytes c) (c_max_entries c) entries bytes of
               (events, Inl e) \<Rightarrow> (c\<lparr>c_entries := entries, c_bytes := bytes\<rparr>, CacheStored # events, Inl e)
             | (events, Inr (kept, left)) \<Rightarrow>
                 (c\<lparr>c_entries := kept, c_bytes := left\<rparr>, CacheStored # events, Inr ())))))"

end
