(* ===== verification/Discovery_Cache_Facts.thy ===== *)
theory Discovery_Cache_Facts
  imports Discovery_Cache
begin

text \<open>
  What the discovery cache promises: its accounting is exact and within the configured bounds
  after every operation, the eviction loop always ends, and a stored response is returned
  unchanged while it is live, also when it is kept compressed.
\<close>

definition stored_sizes :: "(cache_key \<times> stored_entry) list \<Rightarrow> int" where
  "stored_sizes es = sum_list (map (\<lambda>(_, s). se_size s) es)"

definition cache_ok :: "cache \<Rightarrow> bool" where
  "cache_ok c \<longleftrightarrow> 0 < c_max_bytes c \<and> 0 < c_max_entries c \<and> distinct (map fst (c_entries c)) \<and>
     c_bytes c = stored_sizes (c_entries c) \<and> c_bytes c \<le> c_max_bytes c \<and>
     int (length (c_entries c)) \<le> c_max_entries c \<and>
     (\<forall>(k, s) \<in> set (c_entries c). 0 \<le> se_size s \<and> se_size s \<le> c_max_entry_bytes c)"

lemma stored_sizes_simps [simp]:
  "stored_sizes [] = 0" "stored_sizes ((k, s) # es) = se_size s + stored_sizes es"
  "stored_sizes (xs @ ys) = stored_sizes xs + stored_sizes ys"
  by (simp_all add: stored_sizes_def)

lemma stored_sizes_nonneg: "\<forall>(k, s) \<in> set es. 0 \<le> se_size s \<Longrightarrow> 0 \<le> stored_sizes es"
  by (induction es) auto

lemma pop_key_absent: "k \<notin> fst ` set es \<Longrightarrow> pop_key k es = es"
  unfolding pop_key_def by (rule filter_True) force

lemma set_pop_key: "set (pop_key k es) = {x \<in> set es. fst x \<noteq> k}"
  by (auto simp: pop_key_def)

lemma pop_key_keys: "distinct (map fst es) \<Longrightarrow> distinct (map fst (pop_key k es)) \<and> k \<notin> fst ` set (pop_key k es)"
  by (induction es) (auto simp: pop_key_def)

lemma stored_sizes_pop:
  assumes "distinct (map fst es)" and "map_of es k = Some s"
  shows "stored_sizes (pop_key k es) = stored_sizes es - se_size s \<and> length (pop_key k es) = length es - 1"
  using assms
proof (induction es)
  case (Cons e es)
  obtain k' s' where e: "e = (k', s')" by (cases e)
  show ?case
  proof (cases "k' = k")
    case True
    then have "pop_key k (e # es) = es"
      using Cons.prems(1) e pop_key_absent [of k es] by (simp add: pop_key_def)
    with True Cons.prems(2) e show ?thesis by simp
  next
    case False
    then have p: "pop_key k (e # es) = e # pop_key k es" using e by (simp add: pop_key_def)
    have "map_of es k = Some s" using Cons.prems(2) False e by simp
    moreover from this have "es \<noteq> []" by auto
    ultimately show ?thesis using Cons e unfolding p by (cases es) auto
  qed
qed simp

lemma remove_validated_ok:
  assumes "cache_ok c"
  shows "cache_ok (remove_validated k c) \<and> c_entries (remove_validated k c) = pop_key k (c_entries c)"
proof (cases "map_of (c_entries c) k")
  case None
  then have "k \<notin> fst ` set (c_entries c)" by (simp add: map_of_eq_None_iff)
  with None assms show ?thesis by (simp add: remove_validated_def pop_key_absent)
next
  case (Some s)
  have d: "distinct (map fst (c_entries c))" using assms by (simp add: cache_ok_def)
  have "0 \<le> se_size s" using assms Some by (auto simp: cache_ok_def dest!: map_of_SomeD)
  with assms Some stored_sizes_pop [OF d Some] pop_key_keys [OF d] show ?thesis
    by (auto simp: remove_validated_def cache_ok_def set_pop_key)
qed

lemma remove_validated_bounds [simp]:
  "c_max_bytes (remove_validated k c) = c_max_bytes c" "c_max_entries (remove_validated k c) = c_max_entries c"
  "c_max_entry_bytes (remove_validated k c) = c_max_entry_bytes c" "c_ttl (remove_validated k c) = c_ttl c"
  "c_compress (remove_validated k c) = c_compress c"
  by (simp_all add: remove_validated_def split: option.split)

lemma validate_key_same: "validate_key k = Inr k' \<Longrightarrow> k' = k"
  by (auto simp: validate_key_def split: prod.splits if_splits)

section \<open>Eviction\<close>

lemma evict_loop_result:
  assumes "0 \<le> max_bytes" and "0 \<le> max_entries" and "bytes = stored_sizes es"
  shows "\<exists>events pre kept. evict_loop max_bytes max_entries es bytes = (events, Inr (kept, stored_sizes kept)) \<and>
    es = pre @ kept \<and> stored_sizes kept \<le> max_bytes \<and> int (length kept) \<le> max_entries \<and>
    length events = length pre"
  using assms(3)
proof (induction es arbitrary: bytes)
  case Nil
  with assms(1,2) show ?case by simp
next
  case (Cons e es)
  obtain k s where e: "e = (k, s)" by (cases e)
  show ?case
  proof (cases "max_entries < int (length (e # es)) \<or> max_bytes < bytes")
    case False
    with Cons.prems show ?thesis by (intro exI [of _ "[]"] exI [of _ "e # es"]) auto
  next
    case True
    have "bytes - se_size (snd e) = stored_sizes es" using Cons.prems e by simp
    from Cons.IH [OF this] obtain events pre kept where
      IH: "evict_loop max_bytes max_entries es (bytes - se_size (snd e)) = (events, Inr (kept, stored_sizes kept))"
        "es = pre @ kept" "stored_sizes kept \<le> max_bytes" "int (length kept) \<le> max_entries" "length events = length pre"
      by blast
    have "evict_loop max_bytes max_entries (e # es) bytes =
        ((if max_bytes < bytes then EvictedBytes else EvictedEntries) # events, Inr (kept, stored_sizes kept))"
      using True IH(1) by simp
    with IH(2-5) show ?thesis by (metis append_Cons length_Cons)
  qed
qed

lemma evict_loop_keeps_last:
  assumes "0 < max_entries" and "se_size s \<le> max_bytes" and "bytes = stored_sizes (es @ [(k, s)])"
  shows "\<exists>events pre kept. evict_loop max_bytes max_entries (es @ [(k, s)]) bytes =
    (events, Inr (kept @ [(k, s)], stored_sizes (kept @ [(k, s)]))) \<and> es = pre @ kept"
  using assms(3)
proof (induction es arbitrary: bytes)
  case Nil
  with assms(1,2) show ?case by (intro exI [of _ "[]"]) auto
next
  case (Cons e es)
  obtain k' s' where e: "e = (k', s')" by (cases e)
  show ?case
  proof (cases "max_entries < int (length (e # es @ [(k, s)])) \<or> max_bytes < bytes")
    case False
    with Cons.prems show ?thesis
      by (intro exI [of _ "[]"] exI [of _ "e # es"]) auto
  next
    case True
    have "bytes - se_size (snd e) = stored_sizes (es @ [(k, s)])" using Cons.prems e by simp
    from Cons.IH [OF this] obtain events pre kept where
      IH: "evict_loop max_bytes max_entries (es @ [(k, s)]) (bytes - se_size (snd e)) =
        (events, Inr (kept @ [(k, s)], stored_sizes (kept @ [(k, s)])))" "es = pre @ kept"
      by blast
    have "evict_loop max_bytes max_entries ((e # es) @ [(k, s)]) bytes =
        ((if max_bytes < bytes then EvictedBytes else EvictedEntries) # events,
         Inr (kept @ [(k, s)], stored_sizes (kept @ [(k, s)])))"
      using True IH(1) by simp
    with IH(2) show ?thesis by (metis append_Cons)
  qed
qed

lemma entry_size_nonneg: "int (length (ce_body e)) \<le> entry_size k e"
  by (simp add: entry_size_def split: prod.split)

lemma compressed_entry_size:
  assumes "compressed_entry deflate b e sz = (e', sz', z)" and "int (length (ce_body e)) \<le> sz"
  shows "0 \<le> sz' \<and> sz' \<le> sz"
  using assms by (auto simp: compressed_entry_def Let_def split: if_splits option.splits)

text \<open>The successful path of \<open>put\<close>, in one equation.\<close>

lemma put_stored:
  assumes "cache_ok c" and "put deflate now k e c = (c', events, Inr ())"
  shows "\<exists>pre kept s z. compressed_entry deflate (c_compress c) e (entry_size k e) = (se_entry s, se_size s, z) \<and>
    se_compressed s = z \<and> se_used s = now \<and> 0 \<le> se_size s \<and> se_size s \<le> c_max_bytes c \<and>
    se_size s \<le> c_max_entry_bytes c \<and> int (length (ce_body e)) \<le> c_max_entry_bytes c \<and> validate_key k = Inr k \<and>
    pop_key k (c_entries c) = pre @ kept \<and>
    c' = (remove_validated k c)\<lparr>c_entries := kept @ [(k, s)], c_bytes := stored_sizes (kept @ [(k, s)])\<rparr>"
proof -
  let ?c = "remove_validated k c" and ?sz = "entry_size k e"
  obtain k' where k': "validate_key k = Inr k'" using assms(2) by (auto simp: put_def split: sum.splits)
  then have k: "validate_key k = Inr k" using validate_key_same by blast
  obtain u where v: "validate_entry e = Inr u"
    using assms(2) k by (auto simp: put_def Let_def split: sum.splits)
  have fits: "\<not> (c_max_entry_bytes c < ?sz \<or> c_max_bytes c < ?sz)"
    using assms(2) k v by (auto simp: put_def Let_def split: if_splits)
  obtain e' sz' z where z: "compressed_entry deflate (c_compress c) e ?sz = (e', sz', z)"
    by (cases "compressed_entry deflate (c_compress c) e ?sz")
  define s where "s = \<lparr>se_entry = e', se_used = now, se_size = sz', se_compressed = z\<rparr>"
  have ok: "cache_ok ?c" "c_entries ?c = pop_key k (c_entries c)" using remove_validated_ok [OF assms(1)] by auto
  have b: "c_bytes ?c + sz' = stored_sizes (pop_key k (c_entries c) @ [(k, s)])"
    using ok by (simp add: cache_ok_def s_def)
  have sz: "0 \<le> sz'" "sz' \<le> ?sz" using compressed_entry_size [OF z entry_size_nonneg] by auto
  obtain evs pre kept where ev: "evict_loop (c_max_bytes c) (c_max_entries c) (pop_key k (c_entries c) @ [(k, s)])
      (c_bytes ?c + sz') = (evs, Inr (kept @ [(k, s)], stored_sizes (kept @ [(k, s)])))"
    "pop_key k (c_entries c) = pre @ kept"
    using evict_loop_keeps_last [OF _ _ b, of "c_max_entries c" "c_max_bytes c"] assms(1) sz fits
    by (auto simp: cache_ok_def s_def)
  have "c' = ?c\<lparr>c_entries := kept @ [(k, s)], c_bytes := stored_sizes (kept @ [(k, s)])\<rparr>"
    using assms(2) k v fits z ok(2) ev(1)
    by (simp add: put_def s_def [symmetric])
  with z sz fits k ev(2) entry_size_nonneg [of e k] show ?thesis
    by (intro exI [of _ pre] exI [of _ kept] exI [of _ s] exI [of _ z]) (simp add: s_def)
qed

section \<open>The bounds\<close>

lemma put_refused:
  assumes "cache_ok c" and "put deflate now k e c = (c', events, Inl err)"
  shows "(c' = c \<or> c' = remove_validated k c) \<and> err \<noteq> CacheKeyError"
proof -
  have keyErr: "validate_key k \<noteq> Inl CacheKeyError" by (simp add: validate_key_def split: prod.split)
  have links: "validate_links ls \<noteq> Inl CacheKeyError" for ls
    by (induction ls) (auto simp: bind_result_Inl)
  have entryErr: "validate_entry e \<noteq> Inl CacheKeyError"
    using links [of "ce_links e"] by (auto simp: validate_entry_def bind_result_Inl)
  show ?thesis
  proof (cases "\<exists>u. validate_key k = Inr k \<and> validate_entry e = Inr u \<and>
      \<not> (c_max_entry_bytes c < entry_size k e \<or> c_max_bytes c < entry_size k e)")
    case False
    then show ?thesis
      using assms(2) keyErr entryErr by (auto simp: put_def Let_def dest: validate_key_same split: sum.splits if_splits)
  next
    case True
    then obtain u where u: "validate_key k = Inr k" "validate_entry e = Inr u"
      "\<not> (c_max_entry_bytes c < entry_size k e \<or> c_max_bytes c < entry_size k e)" by blast
    let ?c = "remove_validated k c"
    obtain e' sz' z where z: "compressed_entry deflate (c_compress c) e (entry_size k e) = (e', sz', z)"
      by (cases "compressed_entry deflate (c_compress c) e (entry_size k e)")
    let ?s = "\<lparr>se_entry = e', se_used = now, se_size = sz', se_compressed = z\<rparr>"
    have ok: "cache_ok ?c" using remove_validated_ok [OF assms(1)] by simp
    then have "0 \<le> c_max_bytes c" "0 \<le> c_max_entries c"
      "c_bytes ?c + sz' = stored_sizes (c_entries ?c @ [(k, ?s)])" by (simp_all add: cache_ok_def)
    then obtain evs kept where "evict_loop (c_max_bytes c) (c_max_entries c) (c_entries ?c @ [(k, ?s)])
        (c_bytes ?c + sz') = (evs, Inr (kept, stored_sizes kept))"
      using evict_loop_result by blast
    with assms(2) u z show ?thesis by (simp add: put_def)
  qed
qed

lemma put_ok:
  assumes "cache_ok c"
  shows "cache_ok (fst (put deflate now k e c)) \<and> snd (snd (put deflate now k e c)) \<noteq> Inl CacheKeyError"
proof -
  obtain c' events r where r: "put deflate now k e c = (c', events, r)" by (cases "put deflate now k e c")
  show ?thesis
  proof (cases r)
    case (Inl err)
    with put_refused [OF assms, of deflate now k e c' events err] r remove_validated_ok [OF assms, of k] assms
    show ?thesis by auto
  next
    case (Inr u)
    then have run: "put deflate now k e c = (c', events, Inr ())" using r by simp
    obtain pre kept s z where p: "0 \<le> se_size s" "se_size s \<le> c_max_bytes c" "se_size s \<le> c_max_entry_bytes c"
      "pop_key k (c_entries c) = pre @ kept"
      "c' = (remove_validated k c)\<lparr>c_entries := kept @ [(k, s)], c_bytes := stored_sizes (kept @ [(k, s)])\<rparr>"
      using put_stored [OF assms run] by blast
    note evict = evict_loop_result
    have d: "distinct (map fst (pre @ kept)) \<and> k \<notin> fst ` set (pre @ kept)"
      using pop_key_keys [of "c_entries c" k] assms p(4) by (simp add: cache_ok_def)
    have sizes: "\<forall>(j, t) \<in> set (pre @ kept). 0 \<le> se_size t \<and> se_size t \<le> c_max_entry_bytes c"
      using assms set_pop_key [of k "c_entries c"] unfolding p(4) by (auto simp: cache_ok_def)
    have "stored_sizes (kept @ [(k, s)]) \<le> c_max_bytes c \<and> int (length (kept @ [(k, s)])) \<le> c_max_entries c"
    proof -
      have c: "c_entries c' = kept @ [(k, s)]" "c_bytes c' = stored_sizes (kept @ [(k, s)])" using p(5) by simp_all
      have v: "validate_key k = Inr k" using put_stored [OF assms run] by blast
      obtain e' sz' b where z: "compressed_entry deflate (c_compress c) e (entry_size k e) = (e', sz', b)"
        by (cases "compressed_entry deflate (c_compress c) e (entry_size k e)")
      let ?s = "\<lparr>se_entry = e', se_used = now, se_size = sz', se_compressed = b\<rparr>"
      let ?c = "remove_validated k c"
      have "c_bytes ?c + sz' = stored_sizes (c_entries ?c @ [(k, ?s)])" "0 \<le> c_max_bytes c" "0 \<le> c_max_entries c"
        using remove_validated_ok [OF assms, of k] assms by (simp_all add: cache_ok_def)
      then obtain evs pre' kept' where ev: "evict_loop (c_max_bytes c) (c_max_entries c) (c_entries ?c @ [(k, ?s)])
          (c_bytes ?c + sz') = (evs, Inr (kept', stored_sizes kept'))" "stored_sizes kept' \<le> c_max_bytes c"
        "int (length kept') \<le> c_max_entries c"
        using evict_loop_result by blast
      have "c_entries c' = kept'"
        using run v z ev(1) by (auto simp: put_def Let_def split: sum.splits if_splits)
      with ev(2,3) c show ?thesis by simp
    qed
    with d sizes p(1-3,5) assms r show ?thesis
      by (auto simp: cache_ok_def Inr)
  qed
qed

lemma lookup_ok: "cache_ok c \<Longrightarrow> cache_ok (fst (lookup inflate now k c))"
proof -
  assume ok: "cache_ok c"
  have "cache_ok (c\<lparr>c_entries := pop_key k (c_entries c) @ [(k, s\<lparr>se_used := now\<rparr>)]\<rparr>)"
    if "map_of (c_entries c) k = Some s" for s
  proof -
    have d: "distinct (map fst (c_entries c))" using ok by (simp add: cache_ok_def)
    have ne: "c_entries c \<noteq> []" using that by auto
    have "(k, s) \<in> set (c_entries c)" using that by (rule map_of_SomeD)
    with ok ne stored_sizes_pop [OF d that] pop_key_keys [OF d, of k] show ?thesis
      by (cases "c_entries c") (auto simp: cache_ok_def set_pop_key)
  qed
  with remove_validated_ok [OF ok] ok show ?thesis
    by (auto simp: lookup_def dest!: validate_key_same split: sum.splits option.splits)
qed

datatype cache_op = Put int cache_key cache_entry | Lookup int cache_key | Remove cache_key

definition run_cache_op :: "(string \<Rightarrow> string option) \<Rightarrow> (string \<Rightarrow> int \<Rightarrow> (string \<times> bool \<times> string \<times> string) option) \<Rightarrow>
    cache_op \<Rightarrow> cache \<Rightarrow> cache" where
  "run_cache_op deflate inflate x c = (case x of Put now k e \<Rightarrow> fst (put deflate now k e c)
     | Lookup now k \<Rightarrow> fst (lookup inflate now k c)
     | Remove k \<Rightarrow> (case remove_entry k c of Inl _ \<Rightarrow> c | Inr c' \<Rightarrow> c'))"

lemma run_cache_op_ok: "cache_ok c \<Longrightarrow> cache_ok (run_cache_op deflate inflate x c)"
  by (cases x) (auto simp: run_cache_op_def put_ok lookup_ok remove_entry_def remove_validated_ok
      split: sum.split)

lemma fold_cache_op_ok: "cache_ok c \<Longrightarrow> cache_ok (fold (run_cache_op deflate inflate) xs c)"
  by (induction xs arbitrary: c) (auto simp: run_cache_op_ok)

lemma make_cache_ok: "make_cache mb me mn ttl z = Inr c \<Longrightarrow> cache_ok c"
  by (auto simp: make_cache_def cache_ok_def split: if_splits)

text \<open>C40. From construction on, after any sequence of operations, the byte counter is the sum of
  the sizes of the entries, neither bound is exceeded, no key is stored twice, and the
  eviction loop of a further \<open>put\<close> ends without reaching an empty dictionary, whatever the
  compression library answers.\<close>

theorem cache_stays_within_bounds:
  fixes deflate :: "string \<Rightarrow> string option" and xs :: "cache_op list"
    and inflate :: "string \<Rightarrow> int \<Rightarrow> (string \<times> bool \<times> string \<times> string) option"
  assumes "make_cache mb me mn ttl z = Inr c0"
  defines "c \<equiv> fold (run_cache_op deflate inflate) xs c0"
  shows "c_bytes c = sum_list (map (\<lambda>(_, s). se_size s) (c_entries c)) \<and> c_bytes c \<le> c_max_bytes c \<and>
    int (length (c_entries c)) \<le> c_max_entries c \<and> distinct (map fst (c_entries c)) \<and>
    snd (snd (put deflate now k e c)) \<noteq> Inl CacheKeyError"
proof -
  have "cache_ok c" unfolding c_def by (rule fold_cache_op_ok [OF make_cache_ok [OF assms(1)]])
  with put_ok [OF this, of deflate now k e] show ?thesis by (simp add: cache_ok_def stored_sizes_def)
qed

definition sample_cache_key :: cache_key where "sample_cache_key = (7, ''/repos/octo/demo'', ''page=1'')"

definition sample_cache_entry :: cache_entry where
  "sample_cache_entry = \<lparr>ce_body = ''body'', ce_etag = [CHR 0x22, CHR ''a'', CHR 0x22], ce_links = []\<rparr>"

definition sample_cache :: cache where
  "sample_cache = \<lparr>c_max_bytes = 64, c_max_entry_bytes = 64, c_max_entries = 1, c_ttl = 10, c_compress = False,
     c_entries = [], c_bytes = 0\<rparr>"

theorem cache_stays_within_bounds_witness:
  "length (c_entries (fold (run_cache_op (\<lambda>_. None) (\<lambda>_ _. None))
     [Put 1 sample_cache_key sample_cache_entry, Put 2 (7, ''/b'', []) sample_cache_entry] sample_cache)) = 1 \<and>
   c_bytes (fold (run_cache_op (\<lambda>_. None) (\<lambda>_ _. None))
     [Put 1 sample_cache_key sample_cache_entry, Put 2 (7, ''/b'', []) sample_cache_entry] sample_cache) \<le> 64"
proof -
  let ?xs = "[Put 1 sample_cache_key sample_cache_entry, Put 2 (7, ''/b'', []) sample_cache_entry]"
  let ?c = "fold (run_cache_op (\<lambda>_. None) (\<lambda>_ _. None)) ?xs sample_cache"
  have m: "make_cache 64 64 1 10 False = Inr sample_cache" by code_simp
  have b: "length (c_entries ?c) = 1" "c_max_bytes ?c = 64" by code_simp+
  have "c_bytes ?c \<le> c_max_bytes ?c"
    using cache_stays_within_bounds [OF m, of "\<lambda>_. None" "\<lambda>_ _. None" ?xs] by blast
  then show ?thesis unfolding b by blast
qed

section \<open>Reading back\<close>

text \<open>The documented law of the library: what it compressed it restores, complete, when the
  output limit allows.\<close>

definition zlib_law :: "(string \<Rightarrow> string option) \<Rightarrow> (string \<Rightarrow> int \<Rightarrow> (string \<times> bool \<times> string \<times> string) option) \<Rightarrow> bool" where
  "zlib_law deflate inflate \<longleftrightarrow> (\<forall>b z n. deflate b = Some z \<longrightarrow> int (length b) < n \<longrightarrow>
     inflate z n = Some (b, True, [], []))"

lemma inflated_compressed:
  assumes "zlib_law deflate inflate" and "compressed_entry deflate c e sz = (se_entry s, se_size s, se_compressed s)"
    and "int (length (ce_body e)) \<le> limit"
  shows "inflated inflate limit s = Some e"
proof (cases "se_compressed s")
  case False
  with assms(2) have "se_entry s = e" by (auto simp: compressed_entry_def Let_def split: if_splits)
  with False show ?thesis by (simp add: inflated_def)
next
  case True
  then obtain z where z: "deflate (ce_body e) = Some z" "se_entry s = e\<lparr>ce_body := z\<rparr>"
    using assms(2) by (auto simp: compressed_entry_def Let_def split: if_splits option.splits)
  then have "inflate z (limit + 1) = Some (ce_body e, True, [], [])"
    using assms(1,3) by (simp add: zlib_law_def)
  with True z assms(3) show ?thesis by (simp add: inflated_def)
qed

text \<open>A stored response is returned unchanged, body, entity tag and links, by a lookup within
  the idle lifetime, compressed or not; at the end of the lifetime it is dropped and reported
  expired.\<close>

theorem cached_response_is_returned:
  assumes "cache_ok c" and "zlib_law deflate inflate" and "put deflate now k e c = (c', events, Inr ())"
  shows "(now' - now < c_ttl c \<longrightarrow> snd (snd (lookup inflate now' k c')) = Inr (Some e, Hit)) \<and>
    (c_ttl c \<le> now' - now \<longrightarrow> snd (snd (lookup inflate now' k c')) = Inr (None, Expired) \<and>
      map_of (c_entries (fst (lookup inflate now' k c'))) k = None)"
proof -
  obtain pre kept s z where p: "compressed_entry deflate (c_compress c) e (entry_size k e) = (se_entry s, se_size s, z)"
    "se_compressed s = z" "se_used s = now" "int (length (ce_body e)) \<le> c_max_entry_bytes c" "validate_key k = Inr k"
    "pop_key k (c_entries c) = pre @ kept"
    "c' = (remove_validated k c)\<lparr>c_entries := kept @ [(k, s)], c_bytes := stored_sizes (kept @ [(k, s)])\<rparr>"
    using put_stored [OF assms(1,3)] by blast
  have "k \<notin> fst ` set (pop_key k (c_entries c))" by (auto simp: set_pop_key)
  then have fresh: "k \<notin> fst ` set kept" using p(6) by auto
  then have m: "map_of (c_entries c') k = Some s" unfolding p(7) using map_of_eq_None_iff [of kept k]
    by (simp add: map_add_def)
  have i: "inflated inflate (c_max_entry_bytes c) s = Some e"
    using inflated_compressed [OF assms(2) _ p(4)] p(1,2) by blast
  have fields: "c_ttl c' = c_ttl c" "c_max_entry_bytes c' = c_max_entry_bytes c" using p(7) by simp_all
  have gone: "map_of (c_entries (remove_validated k c')) k = None"
    using m by (simp add: remove_validated_def map_of_eq_None_iff) (auto simp: set_pop_key)
  show ?thesis using m i fields gone p(3,5) by (simp add: lookup_def)
qed

definition toy_deflate :: "string \<Rightarrow> string option" where
  "toy_deflate b = (if b = ''body'' then Some ''z'' else None)"

definition toy_inflate :: "string \<Rightarrow> int \<Rightarrow> (string \<times> bool \<times> string \<times> string) option" where
  "toy_inflate z n = (if z = ''z'' \<and> 4 < n then Some (''body'', True, [], []) else None)"

theorem cached_response_is_returned_witness:
  "snd (snd (lookup toy_inflate 9 sample_cache_key (fst (put toy_deflate 1 sample_cache_key sample_cache_entry
     (sample_cache\<lparr>c_compress := True\<rparr>))))) = Inr (Some sample_cache_entry, Hit)"
proof -
  let ?r = "put toy_deflate 1 sample_cache_key sample_cache_entry (sample_cache\<lparr>c_compress := True\<rparr>)"
  have "snd (snd ?r) = Inr ()" by code_simp
  then have run: "?r = (fst ?r, fst (snd ?r), Inr ())" by (cases ?r) auto
  have ok: "cache_ok (sample_cache\<lparr>c_compress := True\<rparr>)" by code_simp
  have law: "zlib_law toy_deflate toy_inflate" by (simp add: zlib_law_def toy_deflate_def toy_inflate_def)
  from cached_response_is_returned [OF ok law run, of 9] show ?thesis by (simp add: sample_cache_def)
qed

end
