(* ===== verification/Program.thy ===== *)
theory Program
  imports Prelude
begin

text \<open>
  Coroutines as functions. A program takes what it does not control (an environment) and the
  state of its world, and gives its result, or the exception it raises, and the next state.
  The service and the GitHub client are both written with these combinators. \<open>obeys R m\<close> says
  that \<open>m\<close> only moves from a state to an \<open>R\<close>-later one, whatever it returns; the locale
  \<open>program_preorder\<close> proves it for the combinators, once for every preorder. The \<open>runs\<close>
  rules say when a program returns normally.
\<close>

type_synonym ('e, 'w, 'x, 'a) program = "'e \<Rightarrow> 'w \<Rightarrow> ('x + 'a) \<times> 'w"

named_theorems obeys_intros \<open>programs that respect a preorder on worlds\<close>
named_theorems runs \<open>when a program returns normally\<close>

section \<open>Combinators\<close>

definition ret :: "'a \<Rightarrow> ('e, 'w, 'x, 'a) program" where
  "ret x = (\<lambda>en w. (Inr x, w))"

definition raise_exc :: "'x \<Rightarrow> ('e, 'w, 'x, 'a) program" where
  "raise_exc x = (\<lambda>en w. (Inl x, w))"

definition seq ::
  "('e, 'w, 'x, 'a) program \<Rightarrow> ('a \<Rightarrow> ('e, 'w, 'x, 'b) program) \<Rightarrow> ('e, 'w, 'x, 'b) program" where
  "seq m f = (\<lambda>en w. case m en w of (Inl x, w') \<Rightarrow> (Inl x, w') | (Inr a, w') \<Rightarrow> f a en w')"

definition of_result :: "'x + 'a \<Rightarrow> ('e, 'w, 'x, 'a) program" where
  "of_result r = (\<lambda>en w. (r, w))"

definition handle ::
  "('e, 'w, 'x, 'a) program \<Rightarrow> ('x \<Rightarrow> ('e, 'w, 'x, 'a) program) \<Rightarrow> ('e, 'w, 'x, 'a) program" where
  "handle m h = (\<lambda>en w. case m en w of (Inl x, w') \<Rightarrow> h x en w' | (Inr a, w') \<Rightarrow> (Inr a, w'))"

definition attempt :: "('e, 'w, 'x, 'a) program \<Rightarrow> ('e, 'w, 'x, 'x + 'a) program" where
  "attempt m = (\<lambda>en w. case m en w of (r, w') \<Rightarrow> (Inr r, w'))"

fun for_each :: "'b list \<Rightarrow> ('b \<Rightarrow> ('e, 'w, 'x, unit) program) \<Rightarrow> ('e, 'w, 'x, unit) program" where
  "for_each [] f = ret ()"
| "for_each (x # xs) f = seq (f x) (\<lambda>_. for_each xs f)"

fun collect :: "'b list \<Rightarrow> ('b \<Rightarrow> ('e, 'w, 'x, 'a) program) \<Rightarrow> ('e, 'w, 'x, 'a list) program" where
  "collect [] f = ret []"
| "collect (x # xs) f = seq (f x) (\<lambda>y. seq (collect xs f) (\<lambda>ys. ret (y # ys)))"

definition when_svc :: "bool \<Rightarrow> ('e, 'w, 'x, unit) program \<Rightarrow> ('e, 'w, 'x, unit) program" where
  "when_svc b m = (if b then m else ret ())"

section \<open>Normal returns\<close>

lemma runs_basic [runs]:
  "ret a en w = (Inr b, w') \<longleftrightarrow> b = a \<and> w' = w"
  "raise_exc x en w = (Inr b, w') \<longleftrightarrow> False"
  "of_result r en w = (Inr b, w') \<longleftrightarrow> r = Inr b \<and> w' = w"
  by (auto simp: ret_def raise_exc_def of_result_def)

lemma runs_seq [runs]:
  "seq m f en w = (Inr b, w') \<longleftrightarrow> (\<exists>a w1. m en w = (Inr a, w1) \<and> f a en w1 = (Inr b, w'))"
  by (auto simp: seq_def split: prod.splits sum.splits)

lemma runs_seqE:
  assumes "seq m f en w = (Inr b, w')"
  obtains a w1 where "m en w = (Inr a, w1)" and "f a en w1 = (Inr b, w')"
  using assms unfolding runs_seq by (elim exE conjE)

lemma runs_handle:
  "handle m h en w = (Inr b, w') \<longleftrightarrow>
     m en w = (Inr b, w') \<or> (\<exists>x w1. m en w = (Inl x, w1) \<and> h x en w1 = (Inr b, w'))"
  by (auto simp: handle_def split: prod.splits sum.splits)

lemma runs_attempt:
  "attempt m en w = (Inr r, w') \<longleftrightarrow> m en w = (r, w')"
  by (auto simp: attempt_def split: prod.splits)

lemma seq_attempt: "m en w = (r, w1) \<Longrightarrow> seq (attempt m) f en w = f r en w1"
  by (simp add: seq_def attempt_def)

lemma seq_assoc: "seq (seq m f) g = seq m (\<lambda>x. seq (f x) g)"
  by (auto simp: seq_def fun_eq_iff split: prod.split sum.split)

lemma seq_ret: "seq (ret x) f = f x"
  by (simp add: seq_def ret_def)

section \<open>Preorders that every step obeys\<close>

definition obeys :: "('w \<Rightarrow> 'w \<Rightarrow> bool) \<Rightarrow> ('e, 'w, 'x, 'a) program \<Rightarrow> bool" where
  "obeys R m \<longleftrightarrow> (\<forall>en w. R w (snd (m en w)))"

lemma obeys_mono: "obeys R m \<Longrightarrow> (\<And>w w'. R w w' \<Longrightarrow> S w w') \<Longrightarrow> obeys S m"
  by (simp add: obeys_def)

lemma obeysD: "obeys R m \<Longrightarrow> m en w = (r, w') \<Longrightarrow> R w w'"
  unfolding obeys_def by (metis snd_conv)

locale program_preorder =
  fixes R :: "'w \<Rightarrow> 'w \<Rightarrow> bool"
  assumes R_refl: "R w w"
    and R_trans: "R w w1 \<Longrightarrow> R w1 w2 \<Longrightarrow> R w w2"
begin

lemma obeys_basic [obeys_intros]: "obeys R (ret x)" "obeys R (raise_exc e)" "obeys R (of_result r)"
  by (simp_all add: obeys_def ret_def raise_exc_def of_result_def R_refl)

lemma obeys_seq [obeys_intros]:
  assumes "obeys R m" and "\<And>a. obeys R (f a)"
  shows "obeys R (seq m f)"
  unfolding obeys_def
proof (intro allI)
  fix en w
  obtain r w1 where m: "m en w = (r, w1)" by (cases "m en w")
  note w1 = obeysD [OF assms(1) m]
  show "R w (snd (seq m f en w))"
  proof (cases r)
    case (Inr a)
    with m w1 assms(2) [of a] show ?thesis by (auto simp: seq_def obeys_def intro: R_trans)
  qed (use m w1 in \<open>simp add: seq_def\<close>)
qed

lemma obeys_handle [obeys_intros]:
  assumes "obeys R m" and "\<And>e. obeys R (h e)"
  shows "obeys R (handle m h)"
  unfolding obeys_def
proof (intro allI)
  fix en w
  obtain r w1 where m: "m en w = (r, w1)" by (cases "m en w")
  note w1 = obeysD [OF assms(1) m]
  show "R w (snd (handle m h en w))"
  proof (cases r)
    case (Inl e)
    with m w1 assms(2) [of e] show ?thesis by (auto simp: handle_def obeys_def intro: R_trans)
  qed (use m w1 in \<open>simp add: handle_def\<close>)
qed

lemma obeys_attempt [obeys_intros]: "obeys R m \<Longrightarrow> obeys R (attempt m)"
  by (auto simp: obeys_def attempt_def split_def)

lemma obeys_cases [obeys_intros]:
  "(b \<Longrightarrow> obeys R m) \<Longrightarrow> (\<not> b \<Longrightarrow> obeys R n) \<Longrightarrow> obeys R (if b then m else n)"
  "obeys R m \<Longrightarrow> (\<And>y. obeys R (f y)) \<Longrightarrow> obeys R (case v of None \<Rightarrow> m | Some y \<Rightarrow> f y)"
  "(\<And>a b. obeys R (g a b)) \<Longrightarrow> obeys R (case p of (a, b) \<Rightarrow> g a b)"
  "(\<And>x. obeys R (g1 x)) \<Longrightarrow> (\<And>a. obeys R (f1 a)) \<Longrightarrow> obeys R (case r of Inl x \<Rightarrow> g1 x | Inr a \<Rightarrow> f1 a)"
  by (simp_all split: option.split prod.split sum.split)

lemma obeys_when [obeys_intros]: "obeys R m \<Longrightarrow> obeys R (when_svc b m)"
  by (simp add: when_svc_def obeys_intros)

lemma obeys_collect [obeys_intros]: "(\<And>x. obeys R (f x)) \<Longrightarrow> obeys R (collect xs f)"
  by (induction xs) (simp_all add: obeys_intros)

lemma obeys_for_each [obeys_intros]: "(\<And>x. obeys R (f x)) \<Longrightarrow> obeys R (for_each xs f)"
  by (induction xs) (simp_all add: obeys_intros)

lemma collect_all:
  assumes "\<And>x. obeys R (f x)" and "collect xs f en w = (Inr ys, w')"
  shows "length ys = length xs \<and>
    (\<forall>k < length xs. \<exists>w1 w2. R w w1 \<and> f (xs ! k) en w1 = (Inr (ys ! k), w2) \<and> R w2 w')"
  using assms(2)
proof (induction xs arbitrary: ys w)
  case (Cons x xs)
  then obtain y w1 ys' where run: "f x en w = (Inr y, w1)" "collect xs f en w1 = (Inr ys', w')" "ys = y # ys'"
    by (auto simp: runs_seq runs_basic)
  have R1: "R w w1" by (rule obeysD [OF assms(1) run(1)])
  have R2: "R w1 w'" by (rule obeysD [OF obeys_collect [OF assms(1)] run(2)])
  note ih = Cons.IH [OF run(2)]
  show ?case
  proof (intro conjI allI impI)
    fix k assume k: "k < length (x # xs)"
    show "\<exists>v1 v2. R w v1 \<and> f ((x # xs) ! k) en v1 = (Inr (ys ! k), v2) \<and> R v2 w'"
    proof (cases k)
      case 0
      with run R_refl R2 show ?thesis by auto
    next
      case (Suc k')
      with ih k obtain v1 v2 where "R w1 v1" "f (xs ! k') en v1 = (Inr (ys' ! k'), v2)" "R v2 w'" by auto
      with Suc run(3) show ?thesis by (auto intro: R_trans [OF R1])
    qed
  qed (use ih run(3) in simp)
qed (simp add: runs_basic)

lemma for_each_all:
  assumes "\<And>x. obeys R (f x)" and "for_each xs f en w = (Inr (), w')" and "x \<in> set xs"
  shows "\<exists>w1 w2. R w w1 \<and> f x en w1 = (Inr (), w2) \<and> R w2 w'"
  using assms(2,3)
proof (induction xs arbitrary: w)
  case (Cons y ys)
  then obtain w1 where run: "f y en w = (Inr (), w1)" "for_each ys f en w1 = (Inr (), w')"
    by (auto simp: runs_seq)
  have R1: "R w w1" by (rule obeysD [OF assms(1) run(1)])
  show ?case
  proof (cases "x \<in> set ys")
    case True
    with Cons.IH [OF run(2)] show ?thesis by (auto intro: R_trans [OF R1])
  next
    case False
    have "R w1 w'" by (rule obeysD [OF obeys_for_each [OF assms(1)] run(2)])
    with False Cons.prems(2) run(1) R_refl show ?thesis by auto
  qed
qed simp

end

end
