(* ===== verification/Effects.thy ===== *)
theory Effects
  imports Program Json Evidence Queue_Admin Api_Budget
begin

text \<open>
  The world that \<open>extra_codeowners/service.py\<close> runs in. A coroutine is a function from the
  environment and the world to a result, or the exception it raises, and the next world. The
  world is the database, the request budgets, two local variables that several coroutines
  share (the memoised policy lookups of an authority fan-out and the count of pull requests
  that a reconciliation queued) and the trace of everything done so far, newest event first; the
  environment answers every GitHub request from the trace, decides which calls fail or are
  cancelled, and changes the database between any two calls of the coroutine, as the other
  replicas do. A store call runs the queue's own operation on the database of that moment.
\<close>

section \<open>Exceptions and results\<close>

datatype svc_exc =
    GitHubError string
  | GitHubApi int string
  | GitHubRateLimit int bool
  | PullRequestTooLarge string
  | RepositoriesChanged string
  | OperationStopped
  | EvidenceLimit string
  | AuthorityChangePending string
  | SharedHeadLeaseLost string
  | SharedHeadInvalidationPending string
  | OrganizationPolicyUnavailable string
  | SvcValueError string
  | SvcTypeError
  | AssertionFailed
  | RecoveryDeferred int
  | QuotaExhausted int
  | PayloadInvalid string
  | StoreFailure string
  | HttpTimeout
  | RemoteProtocol
  | HttpFailure string
  | DeadlineExceeded
  | Cancelled
  | OtherFailure string

type_synonym obj = "(string \<times> json) list"

section \<open>Calls and events\<close>

text \<open>The methods of \<open>GitHubClient\<close> that only move data, and the raw check-run requests behind
  the others.\<close>

datatype git_call =
    GetPull int string int
  | ListCommitPulls int string string
  | GetBranchHead int string string
  | GetFileText int string string "string option"
  | GetPullFiles int string int
  | GetReviews int string int
  | GetCodeownersErrors int string string
  | IncludesRepository int string int
  | GetPermission int string string
  | GetTeamMembership int string string string
  | GetTeam int string string
  | GetTeamRepository int string string string
  | GetUser int string
  | HasReconciliationCheck int string string string
  | ListCheckRuns int string string string
  | GetCheckRun int string int
  | PatchCheckRun int string int obj
  | PostCheckRun int string obj
  | IncludesCurrently int string
  | GetRepository int string
  | ListRepositoryPage int int "int option"
  | ListAuthorityPage int string int int
  | GetApp
  | ListInstallations
  | ListInstallationRepositories int
  | ListOpenPulls int string

datatype git_answer = AObj obj | AList "obj list" | AText string | AOptText "string option" | ABool bool
  | APage "obj list" int int

datatype store_call =
    IsCurrentClaim claimed_job
  | SharedIsCurrent claimed_job string
  | Publishable claimed_job string
  | BlockingAuthority claimed_job string
  | SupersedingJob claimed_job
  | ResetIsPending int string string int
  | SharedGeneration int string string
  | EnqueueTrigger job_request
  | EnqueueForGeneration job_request int
  | ObserveBase claimed_job string
  | BindHead claimed_job string
  | MarkInvalidated string
  | RecordAudit string int string string
  | CurrentReset claimed_head
  | AcceptDelivery string string webhook_request
  | NeedsInvalidation string
  | ClaimJob string int work_class
  | RenewJob claimed_job int
  | CompleteJob claimed_job string
  | FailJob claimed_job string string int
  | DeferJob claimed_job string string int "int option"
  | ClaimReset string int work_class
  | RenewReset claimed_head int
  | CompleteReset claimed_head
  | FailReset claimed_head string int
  | DeferReset claimed_head string int
  | ClaimAuthority string int bool
  | RenewAuthority claimed_authority int
  | CompleteAuthority claimed_authority string
  | FailAuthority claimed_authority string string int int
  | DeferAuthority claimed_authority string string int bool
  | DirectWaiter claimed_authority
  | MembershipPage claimed_authority int "int option"
  | InstallationPage claimed_authority "authority_request list" int "int option"
  | AuthorityCursor claimed_authority int "(string \<times> string) list option" "int option" "int option"
  | Enqueue job_request
  | EnqueueReconciliation job_request int
  | Backpressure "int option" string int
  | ProviderBlocked "int option"
  | ServiceLease string string int
  | ReleaseLease string string
  | PruneDeliveries int
  | PruneEpochs int
  | PruneStates int
  | RepositoryCursor int
  | PullCursor int
  | ClearPull int string
  | AdvancePull int string int string
  | AdvanceRepository int string string

datatype guard = HeadGuard int string | AuthorityGuard int

datatype event =
    GitEvent git_call "svc_exc + git_answer"
  | StoreEvent store_call int db "svc_exc option"
  | Acquired guard
  | NotAcquired guard
  | Released guard

type_synonym trace = "event list"

record world =
  w_db :: db
  w_trace :: trace
  w_budgets :: budgets
  w_memo :: "(string \<times> (svc_exc + bool)) list"
  w_queued :: int

text \<open>A failing store call is a transaction that was rolled back, or one whose commit the caller
  did not see.\<close>

datatype fault = Before svc_exc | After svc_exc

record env =
  e_obj :: "trace \<Rightarrow> git_call \<Rightarrow> svc_exc + obj"
  e_list :: "trace \<Rightarrow> git_call \<Rightarrow> svc_exc + obj list"
  e_text :: "trace \<Rightarrow> git_call \<Rightarrow> svc_exc + string"
  e_opt_text :: "trace \<Rightarrow> git_call \<Rightarrow> svc_exc + string option"
  e_bool :: "trace \<Rightarrow> git_call \<Rightarrow> svc_exc + bool"
  e_interfere :: "trace \<Rightarrow> db \<Rightarrow> db"
  e_clock :: "trace \<Rightarrow> int"
  e_fault :: "trace \<Rightarrow> fault option"
  e_acquire :: "trace \<Rightarrow> guard \<Rightarrow> svc_exc + bool"
  e_release :: "trace \<Rightarrow> guard \<Rightarrow> svc_exc option"
  e_cancelled :: "trace \<Rightarrow> bool"
  e_lost :: "trace \<Rightarrow> bool"
  e_pick :: "trace \<Rightarrow> nat"
  e_stamp :: "trace \<Rightarrow> string"
  e_instant :: "string \<Rightarrow> datetime option"
  e_organization_toml :: "string \<Rightarrow> string + organization_policy"
  e_repository_toml :: "string \<Rightarrow> string + repository_policy"
  e_dump :: "evaluation_result \<Rightarrow> claimed_job \<Rightarrow> string"
  e_marks :: "string \<times> string"
  e_validation :: "field_error list \<Rightarrow> string"
  e_repr :: "json \<Rightarrow> string"
  e_page :: "trace \<Rightarrow> git_call \<Rightarrow> svc_exc + obj list \<times> int \<times> int"
  e_message :: "svc_exc \<Rightarrow> string"
  e_join :: "trace \<Rightarrow> svc_exc option"
  e_stop :: "trace \<Rightarrow> bool"
  e_budgets :: "trace \<Rightarrow> budgets \<Rightarrow> budgets"
  e_opened :: "trace \<Rightarrow> int"
  e_fingerprint :: "json list \<Rightarrow> string"

type_synonym 'a svc = "(env, world, svc_exc, 'a) program"

section \<open>The trace\<close>

definition ask_env :: "(env \<Rightarrow> trace \<Rightarrow> 'a) \<Rightarrow> 'a svc" where
  "ask_env f = (\<lambda>en w. (Inr (f en (w_trace w)), w))"

definition log_event :: "event \<Rightarrow> world \<Rightarrow> world" where
  "log_event x w = w\<lparr>w_trace := x # w_trace w\<rparr>"

section \<open>Requests\<close>

definition answered :: "(env \<Rightarrow> trace \<Rightarrow> git_call \<Rightarrow> svc_exc + 'a) \<Rightarrow> ('a \<Rightarrow> git_answer) \<Rightarrow> git_call \<Rightarrow> 'a svc" where
  "answered get wrap c = (\<lambda>en w. let r = get en (w_trace w) c in
     (r, log_event (GitEvent c (map_sum id wrap r)) w))"

definition ask_obj :: "git_call \<Rightarrow> obj svc" where "ask_obj = answered e_obj AObj"
definition ask_list :: "git_call \<Rightarrow> obj list svc" where "ask_list = answered e_list AList"
definition ask_text :: "git_call \<Rightarrow> string svc" where "ask_text = answered e_text AText"
definition ask_opt_text :: "git_call \<Rightarrow> string option svc" where "ask_opt_text = answered e_opt_text AOptText"
definition ask_bool :: "git_call \<Rightarrow> bool svc" where "ask_bool = answered e_bool ABool"

section \<open>Store calls\<close>

fun store_error :: "queue_error \<Rightarrow> svc_exc" where
  "store_error (ValueError m) = SvcValueError m"
| "store_error (RuntimeError m) = OtherFailure m"

definition store_run :: "store_call \<Rightarrow> (int \<Rightarrow> db \<Rightarrow> queue_error + db \<times> 'a) \<Rightarrow> 'a svc" where
  "store_run c f = (\<lambda>en w.
     let d = e_interfere en (w_trace w) (w_db w); now = e_clock en (w_trace w);
         done_with = (\<lambda>d' x. w\<lparr>w_db := d', w_trace := StoreEvent c now d x # w_trace w\<rparr>) in
     case e_fault en (w_trace w) of
       Some (Before x) \<Rightarrow> (Inl x, done_with d (Some x))
     | Some (After x) \<Rightarrow> (Inl x, done_with (case f now d of Inl _ \<Rightarrow> d | Inr (d', _) \<Rightarrow> d') (Some x))
     | None \<Rightarrow> (case f now d of
           Inl e \<Rightarrow> (Inl (store_error e), done_with d (Some (store_error e)))
         | Inr (d', a) \<Rightarrow> (Inr a, done_with d' None)))"

definition store_read :: "store_call \<Rightarrow> (int \<Rightarrow> db \<Rightarrow> queue_error + 'a) \<Rightarrow> 'a svc" where
  "store_read c f = store_run c (\<lambda>now d. bind_result (f now d) (\<lambda>a. Inr (d, a)))"

definition ask_current_claim :: "claimed_job \<Rightarrow> bool svc" where
  "ask_current_claim c = store_read (IsCurrentClaim c) (\<lambda>now d. Inr (is_current_claim now d c))"

definition ask_shared_current :: "claimed_job \<Rightarrow> string \<Rightarrow> bool svc" where
  "ask_shared_current c head = store_read (SharedIsCurrent c head) (\<lambda>now d. shared_head_generation_is_current d c head)"

definition ask_publishable :: "claimed_job \<Rightarrow> string \<Rightarrow> bool svc" where
  "ask_publishable c head = store_read (Publishable c head) (\<lambda>now d. shared_head_generation_is_publishable d c head)"

definition ask_blocking_authority :: "claimed_job \<Rightarrow> string \<Rightarrow> bool svc" where
  "ask_blocking_authority c base = store_read (BlockingAuthority c base) (\<lambda>now d. Inr (has_blocking_authority d c base))"

definition ask_superseding :: "claimed_job \<Rightarrow> bool svc" where
  "ask_superseding c = store_read (SupersedingJob c) (\<lambda>now d. Inr (has_superseding_job d c))"

definition ask_reset_pending :: "int \<Rightarrow> string \<Rightarrow> string \<Rightarrow> int \<Rightarrow> bool svc" where
  "ask_reset_pending i repo head g = store_read (ResetIsPending i repo head g)
     (\<lambda>now d. shared_head_invalidation_is_pending d i repo head g)"

definition ask_shared_generation :: "int \<Rightarrow> string \<Rightarrow> string \<Rightarrow> int svc" where
  "ask_shared_generation i repo head = store_read (SharedGeneration i repo head) (\<lambda>now d. shared_head_generation d i repo head)"

definition ask_current_reset :: "claimed_head \<Rightarrow> bool svc" where
  "ask_current_reset c = store_read (CurrentReset c) (\<lambda>now d. Inr (is_current_shared_head_invalidation now d c))"

definition do_enqueue_trigger :: "job_request \<Rightarrow> unit svc" where
  "do_enqueue_trigger q = store_run (EnqueueTrigger q)
     (\<lambda>now d. bind_result (enqueue_shared_head_trigger now q d) (\<lambda>d'. Inr (d', ())))"

definition do_enqueue_for_generation :: "job_request \<Rightarrow> int \<Rightarrow> bool svc" where
  "do_enqueue_for_generation q g = store_run (EnqueueForGeneration q g) (\<lambda>now d. enqueue_for_shared_head_generation now q g d)"

definition do_observe_base :: "claimed_job \<Rightarrow> string \<Rightarrow> bool svc" where
  "do_observe_base c base = store_run (ObserveBase c base) (\<lambda>now d. observe_evaluation_base now c base d)"

definition do_bind_head :: "claimed_job \<Rightarrow> string \<Rightarrow> claimed_job option svc" where
  "do_bind_head c head = store_run (BindHead c head) (\<lambda>now d. bind_claim_to_head now c head d)"

definition do_mark_invalidated :: "string \<Rightarrow> unit svc" where
  "do_mark_invalidated i = store_run (MarkInvalidated i) (\<lambda>now d. Inr (fst (mark_delivery_invalidated now i d), ()))"

definition do_record_audit :: "string \<Rightarrow> int \<Rightarrow> string \<Rightarrow> string \<Rightarrow> string \<Rightarrow> unit svc" where
  "do_record_audit repo pull head verdict details = store_run (RecordAudit repo pull head verdict)
     (\<lambda>now d. Inr (record_audit now repo pull head verdict details d, ()))"

section \<open>Guards\<close>

text \<open>The two guard context managers: a timed-out acquisition is \<open>GitHubError\<close>, a cancelled one
  raises (the cleanup task releases what the thread obtains), and the guard is released
  whatever the body does.\<close>

definition with_guard :: "guard \<Rightarrow> string \<Rightarrow> 'a svc \<Rightarrow> 'a svc" where
  "with_guard g timeout body = (\<lambda>en w. case e_acquire en (w_trace w) g of
     Inl x \<Rightarrow> (Inl x, log_event (NotAcquired g) w)
   | Inr False \<Rightarrow> (Inl (GitHubError timeout), log_event (NotAcquired g) w)
   | Inr True \<Rightarrow> (case body en (log_event (Acquired g) w) of (r, w') \<Rightarrow>
       ((case e_release en (w_trace w') g of None \<Rightarrow> r | Some x \<Rightarrow> Inl x), log_event (Released g) w')))"

definition check_write_guard :: "int \<Rightarrow> string \<Rightarrow> 'a svc \<Rightarrow> 'a svc" where
  "check_write_guard i head = with_guard (HeadGuard i head) ''timed out waiting for the pull request check writer''"

definition authority_publish_guard :: "int \<Rightarrow> 'a svc \<Rightarrow> 'a svc" where
  "authority_publish_guard i = with_guard (AuthorityGuard i) ''timed out waiting for the authority publication guard''"

section \<open>Concurrent awaits\<close>

text \<open>\<open>asyncio.gather\<close>: every awaitable runs; when some raise, the environment says whose
  exception is the first one.\<close>

definition run_all :: "'a svc list \<Rightarrow> (svc_exc + 'a) list svc" where
  "run_all ms = (\<lambda>en w. let (rs, w') = fold (\<lambda>m (rs, w). case m en w of (r, w') \<Rightarrow> (rs @ [r], w')) ms ([], w)
     in (Inr rs, w'))"

definition first_error :: "nat \<Rightarrow> (svc_exc + 'a) list \<Rightarrow> svc_exc + 'a list" where
  "first_error n rs = (let errs = filter isl rs in
     if errs = [] then Inr (map projr rs) else Inl (projl (errs ! (n mod length errs))))"

definition gather :: "'a svc list \<Rightarrow> 'a list svc" where
  "gather ms = seq (run_all ms) (\<lambda>rs. seq (ask_env e_pick) (\<lambda>n. of_result (first_error n rs)))"

definition gather2 :: "'a svc \<Rightarrow> 'b svc \<Rightarrow> ('a \<times> 'b) svc" where
  "gather2 m n = seq (attempt m) (\<lambda>r. seq (attempt n) (\<lambda>s. seq (ask_env e_pick) (\<lambda>k.
     of_result (case (r, s) of (Inr a, Inr b) \<Rightarrow> Inr (a, b)
       | (Inl x, Inr _) \<Rightarrow> Inl x | (Inr _, Inl y) \<Rightarrow> Inl y
       | (Inl x, Inl y) \<Rightarrow> Inl (if even k then x else y)))))"

end
