(* ===== verification/Github_Checks.thy ===== *)
theory Github_Checks
  imports Effects
begin

text \<open>
  The check-run, membership and permission methods of \<open>GitHubClient\<close> in
  \<open>extra_codeowners/github.py\<close>, over the requests of \<open>Effects\<close>. A payload is the JSON object
  that is sent; its time stamps come from the environment. A Boolean check-run id, which
  \<open>isinstance(candidate, int)\<close> accepts, is its numeric value.
\<close>

record settings =
  s_app_id :: int
  s_check_name :: string
  s_policy_path :: string
  s_org_repo :: string
  s_allow_insecure :: bool
  s_poll_micros :: int
  s_lease_seconds :: int
  s_retry_max_seconds :: int
  s_inaccessible_retry_max_seconds :: int
  s_foreground :: nat
  s_recovery :: nat
  s_authority :: nat
  s_invalidation :: nat
  s_interval_seconds :: int
  s_recheck_seconds :: int
  s_retention_days :: int

definition PENDING_CHECK_EXTERNAL_ID_PREFIX :: string where
  "PENDING_CHECK_EXTERNAL_ID_PREFIX = ''extra-codeowners:pending:''"

section \<open>Finding the check\<close>

definition int_value :: "json \<Rightarrow> int option" where
  "int_value v = (case v of JInt n \<Rightarrow> Some n | JBool b \<Rightarrow> Some (if b then 1 else 0) | _ \<Rightarrow> None)"

definition is_managed_run :: "settings \<Rightarrow> json \<Rightarrow> bool" where
  "is_managed_run st v = (case as_obj v of None \<Rightarrow> False
     | Some run \<Rightarrow> get_key ''name'' run = JStr (s_check_name st) \<and>
         (case as_obj (get_key ''app'' run) of None \<Rightarrow> False
          | Some app \<Rightarrow> eq_int (get_key ''id'' app) (s_app_id st)) \<and>
         int_value (get_key ''id'' run) \<noteq> None)"

definition latest_check_run :: "settings \<Rightarrow> int \<Rightarrow> string \<Rightarrow> string \<Rightarrow> obj option svc" where
  "latest_check_run st i repo head =
     seq (ask_obj (ListCheckRuns i repo head (s_check_name st))) (\<lambda>existing.
       case as_list (get_or (JList []) ''check_runs'' existing) of
         None \<Rightarrow> raise_exc (GitHubError ''check-runs response omitted its list'')
       | Some runs \<Rightarrow> ret (case find (is_managed_run st) runs of None \<Rightarrow> None | Some v \<Rightarrow> as_obj v))"

definition run_id :: "obj \<Rightarrow> int" where
  "run_id run = the (int_value (get_key ''id'' run))"

definition existing_check_run_id :: "settings \<Rightarrow> int \<Rightarrow> string \<Rightarrow> string \<Rightarrow> int option svc" where
  "existing_check_run_id st i repo head =
     seq (latest_check_run st i repo head) (\<lambda>run. ret (map_option run_id run))"

definition has_check_run :: "settings \<Rightarrow> int \<Rightarrow> string \<Rightarrow> string \<Rightarrow> bool svc" where
  "has_check_run st i repo head = seq (existing_check_run_id st i repo head) (\<lambda>r. ret (r \<noteq> None))"

definition check_run_is_completed :: "int \<Rightarrow> string \<Rightarrow> int \<Rightarrow> bool svc" where
  "check_run_is_completed i repo cid =
     seq (ask_obj (GetCheckRun i repo cid)) (\<lambda>result.
       if get_key ''status'' result \<notin> {JStr ''queued'', JStr ''in_progress'', JStr ''completed''}
       then raise_exc (GitHubError ''check-run response omitted a supported status'')
       else (let pending_failure = get_key ''conclusion'' result = JStr ''failure'' \<and>
                 (case as_str (get_key ''external_id'' result) of None \<Rightarrow> False
                  | Some x \<Rightarrow> startswith PENDING_CHECK_EXTERNAL_ID_PREFIX x)
             in ret (get_key ''status'' result = JStr ''completed'' \<and> \<not> pending_failure)))"

section \<open>Writing the check\<close>

definition check_texts :: "string \<Rightarrow> string \<Rightarrow> string \<Rightarrow> json" where
  "check_texts title smry text = JObj [(''title'', JStr (take 255 title)),
     (''summary'', JStr (take 65535 smry)), (''text'', JStr (take 65535 text))]"

definition with_details :: "string option \<Rightarrow> obj \<Rightarrow> obj" where
  "with_details details payload = (case details of None \<Rightarrow> payload
     | Some u \<Rightarrow> AList.update ''details_url'' (JStr u) payload)"

definition validate_blocking_check_response :: "obj \<Rightarrow> string \<Rightarrow> json \<Rightarrow> unit svc" where
  "validate_blocking_check_response result status external =
     (if get_key ''status'' result \<noteq> JStr status
        \<or> get_key ''conclusion'' result \<noteq> (if status = ''completed'' then JStr ''failure'' else JNull)
        \<or> get_key ''external_id'' result \<noteq> external
      then raise_exc (GitHubError ''check-run response did not confirm the requested blocking state'')
      else ret ())"

definition same_check_id :: "obj \<Rightarrow> int option \<Rightarrow> int svc" where
  "same_check_id result cid = (case as_int (get_key ''id'' result) of
       None \<Rightarrow> raise_exc (GitHubError ''check-run response omitted its integer ID'')
     | Some n \<Rightarrow> if cid \<noteq> None \<and> cid \<noteq> Some n
         then raise_exc (GitHubError ''check-run response changed the requested check ID'') else ret n)"

definition reset_payload :: "settings \<Rightarrow> string \<Rightarrow> string \<Rightarrow> string \<Rightarrow> string option \<Rightarrow> string option \<Rightarrow> obj" where
  "reset_payload st now title smry details external =
     with_details details [(''name'', JStr (s_check_name st)), (''status'', JStr ''completed''),
       (''conclusion'', JStr ''failure''),
       (''external_id'', JStr (take 255 (PENDING_CHECK_EXTERNAL_ID_PREFIX @ (case external of None \<Rightarrow> [] | Some x \<Rightarrow> x)))),
       (''completed_at'', JStr now), (''output'', check_texts title smry [])]"

definition reset_check_run ::
  "settings \<Rightarrow> int \<Rightarrow> string \<Rightarrow> int \<Rightarrow> string \<Rightarrow> string \<Rightarrow> string option \<Rightarrow> string option \<Rightarrow> unit svc" where
  "reset_check_run st i repo cid title smry details external =
     seq (ask_env e_stamp) (\<lambda>now.
       let payload = reset_payload st now title smry details external in
       seq (ask_obj (PatchCheckRun i repo cid payload)) (\<lambda>result.
       seq (same_check_id result (Some cid)) (\<lambda>_.
         validate_blocking_check_response result ''completed'' (get_key ''external_id'' payload))))"

definition CHECK_CONCLUSIONS :: "string list" where
  "CHECK_CONCLUSIONS = [''action_required'', ''cancelled'', ''failure'', ''neutral'', ''skipped'',
     ''stale'', ''success'', ''timed_out'']"

definition complete_check_run ::
  "settings \<Rightarrow> int \<Rightarrow> string \<Rightarrow> int \<Rightarrow> string \<Rightarrow> string \<Rightarrow> string \<Rightarrow> string option \<Rightarrow> string option \<Rightarrow> unit svc" where
  "complete_check_run st i repo cid verdict title smry details external =
     (if verdict \<notin> set CHECK_CONCLUSIONS then raise_exc (SvcValueError ''unsupported check-run conclusion'')
      else seq (ask_env e_stamp) (\<lambda>now.
        let payload = with_details details [(''name'', JStr (s_check_name st)), (''status'', JStr ''completed''),
              (''conclusion'', JStr verdict),
              (''external_id'', JStr (take 255 (case external of None \<Rightarrow> [] | Some x \<Rightarrow> x))),
              (''completed_at'', JStr now), (''output'', check_texts title smry [])] in
        seq (ask_obj (PatchCheckRun i repo cid payload)) (\<lambda>result.
        seq (same_check_id result (Some cid)) (\<lambda>_. ret ()))))"

record check_write =
  cw_status :: string
  cw_conclusion :: "string option"
  cw_title :: string
  cw_summary :: string
  cw_text :: string
  cw_details :: "string option"
  cw_external :: "string option"
  cw_action :: bool
  cw_skip :: bool

definition check_run_matches :: "obj \<Rightarrow> obj \<Rightarrow> bool" where
  "check_run_matches run payload = (case (as_obj (get_key ''output'' run), as_obj (get_key ''output'' payload)) of
       (Some output, Some requested) \<Rightarrow>
         get_key ''status'' run = JStr ''completed''
         \<and> get_key ''conclusion'' run = get_key ''conclusion'' payload
         \<and> get_key ''external_id'' run = get_key ''external_id'' payload
         \<and> get_key ''title'' output = get_key ''title'' requested
         \<and> get_key ''summary'' output = get_key ''summary'' requested
         \<and> py_or (get_key ''text'' output) (JStr []) = get_key ''text'' requested
         \<and> (map_of payload ''details_url'' = None \<or> get_key ''details_url'' run = get_key ''details_url'' payload)
     | _ \<Rightarrow> False)"

definition re_evaluate_action :: json where
  "re_evaluate_action = JList [JObj [(''label'', JStr ''Re-evaluate''),
     (''description'', JStr ''Evaluate current approvals again''), (''identifier'', JStr ''re-evaluate'')]]"

definition upsert_payload :: "settings \<Rightarrow> string \<Rightarrow> check_write \<Rightarrow> obj" where
  "upsert_payload st now cw =
     with_details (cw_details cw)
       ([(''name'', JStr (s_check_name st)), (''status'', JStr (cw_status cw)),
         (''external_id'', JStr (take 255 ((if cw_status cw \<noteq> ''completed'' then PENDING_CHECK_EXTERNAL_ID_PREFIX else [])
            @ (case cw_external cw of None \<Rightarrow> [] | Some x \<Rightarrow> x)))),
         (''output'', check_texts (cw_title cw) (cw_summary cw) (cw_text cw))]
        @ (if cw_action cw then [(''actions'', re_evaluate_action)] else [])
        @ (if cw_status cw = ''completed''
           then [(''conclusion'', case cw_conclusion cw of None \<Rightarrow> JNull | Some c \<Rightarrow> JStr c), (''completed_at'', JStr now)]
           else if cw_status cw = ''in_progress'' then [(''started_at'', JStr now)] else []))"

definition patch_payload :: "string \<Rightarrow> check_write \<Rightarrow> obj \<Rightarrow> obj" where
  "patch_payload now cw payload = AList.delete ''name''
     (if cw_status cw = ''completed'' then payload
      else AList.delete ''started_at'' (AList.update ''completed_at'' (JStr now)
        (AList.update ''conclusion'' (JStr ''failure'') (AList.update ''status'' (JStr ''completed'') payload))))"

definition write_is_consistent :: "check_write \<Rightarrow> svc_exc + unit" where
  "write_is_consistent cw =
     (if cw_status cw \<notin> {''queued'', ''in_progress'', ''completed''}
      then Inl (SvcValueError ''unsupported check-run status'')
      else if cw_status cw = ''completed'' \<and> cw_conclusion cw = None
      then Inl (SvcValueError ''completed check runs require a conclusion'')
      else if cw_status cw \<noteq> ''completed'' \<and> cw_conclusion cw \<noteq> None
      then Inl (SvcValueError ''non-completed check runs cannot have a conclusion'')
      else if cw_skip cw \<and> cw_status cw \<noteq> ''completed''
      then Inl (SvcValueError ''only completed check runs can skip an unchanged result'')
      else Inr ())"

text \<open>The request itself, after the lookup of the existing check.\<close>

definition send_check_run :: "int \<Rightarrow> string \<Rightarrow> string \<Rightarrow> check_write \<Rightarrow> int option \<Rightarrow> obj \<Rightarrow> int svc" where
  "send_check_run i repo head cw cid payload =
     seq (ask_env e_stamp) (\<lambda>now.
       let sent = (case cid of None \<Rightarrow> AList.update ''head_sha'' (JStr head) payload
             | Some _ \<Rightarrow> patch_payload now cw payload) in
       seq (ask_obj (case cid of None \<Rightarrow> PostCheckRun i repo sent | Some n \<Rightarrow> PatchCheckRun i repo n sent)) (\<lambda>result.
       seq (same_check_id result cid) (\<lambda>n.
         if cw_status cw = ''completed'' then ret n
         else seq (validate_blocking_check_response result
                (the (as_str (get_key ''status'' sent))) (get_key ''external_id'' sent)) (\<lambda>_. ret n))))"

definition upsert_check_run :: "settings \<Rightarrow> int \<Rightarrow> string \<Rightarrow> string \<Rightarrow> check_write \<Rightarrow> int svc" where
  "upsert_check_run st i repo head cw =
     seq (of_result (write_is_consistent cw)) (\<lambda>_.
     seq (latest_check_run st i repo head) (\<lambda>existing.
     seq (ask_env e_stamp) (\<lambda>now.
       let payload = upsert_payload st now cw in
       if cw_skip cw \<and> (case existing of None \<Rightarrow> False | Some run \<Rightarrow> check_run_matches run payload)
       then ret (run_id (the existing))
       else send_check_run i repo head cw (map_option run_id existing) payload)))"

section \<open>Membership and permission\<close>

definition team_member :: "int \<Rightarrow> string \<Rightarrow> string \<Rightarrow> string \<Rightarrow> bool svc" where
  "team_member i organization slug username =
     seq (ask_obj (GetTeamMembership i organization slug username)) (\<lambda>result.
       ret (get_key ''state'' result = JStr ''active''))"

definition user_can_own_repository :: "int \<Rightarrow> string \<Rightarrow> string \<Rightarrow> bool svc" where
  "user_can_own_repository i repo username =
     seq (ask_obj (GetPermission i repo username)) (\<lambda>result.
       case in_str_set (get_key ''permission'' result) [''write'', ''maintain'', ''admin''] of
         None \<Rightarrow> raise_exc SvcTypeError | Some b \<Rightarrow> ret b)"

definition team_can_own_repository :: "int \<Rightarrow> string \<Rightarrow> string \<Rightarrow> string \<Rightarrow> bool svc" where
  "team_can_own_repository i organization slug repo =
     seq (ask_obj (GetTeam i organization slug)) (\<lambda>team.
       if get_key ''privacy'' team \<noteq> JStr ''closed'' then ret False
       else seq (ask_obj (GetTeamRepository i organization slug repo)) (\<lambda>metadata.
         ret (case as_obj (get_key ''permissions'' metadata) of None \<Rightarrow> False
           | Some permissions \<Rightarrow> list_ex (\<lambda>level. get_key level permissions = JBool True)
               [''push'', ''maintain'', ''admin''])))"

definition get_user :: "int \<Rightarrow> string \<Rightarrow> obj svc" where
  "get_user i lg = (if lg = [] then raise_exc (SvcValueError ''GitHub login must be a non-empty string'')
     else ask_obj (GetUser i lg))"

end
