(* ===== verification/Service_Payloads.thy ===== *)
theory Service_Payloads
  imports Effects
begin

text \<open>
  The payload validators of \<open>extra_codeowners/service.py\<close>: the complete batches of the
  reconciliation, which raise \<open>_ReconciliationPayloadError\<close> with a reason, and the required
  fields of a pull request, which raise \<open>GitHubError\<close>. \<open>instant\<close> is the ISO 8601 parser of
  the standard library, a parameter.
\<close>

section \<open>Reconciliation batches\<close>

definition reconciliation_installation_id :: "json \<Rightarrow> string + int" where
  "reconciliation_installation_id v = (case as_int v of None \<Rightarrow> Inl ''invalid_installation_id''
     | Some n \<Rightarrow> if n \<le> 0 then Inl ''invalid_installation_id'' else Inr n)"

definition route_char :: "char \<Rightarrow> bool" where
  "route_char c \<longleftrightarrow> is_lower_ascii c \<or> is_upper_ascii c \<or> is_digit c \<or> c \<in> set ''._-/''"

definition reconciliation_repository_full_name :: "json \<Rightarrow> string + string" where
  "reconciliation_repository_full_name v = (case as_str v of None \<Rightarrow> Inl ''invalid_repository_full_name''
     | Some s \<Rightarrow> (case normalize_repository_full_name s of
         Inl _ \<Rightarrow> Inl ''invalid_repository_full_name''
       | Inr full_name \<Rightarrow> if \<not> list_all route_char full_name then Inl ''invalid_repository_full_name''
           else Inr full_name))"

definition reconciliation_suspended :: "(string \<Rightarrow> datetime option) \<Rightarrow> json \<Rightarrow> string + bool" where
  "reconciliation_suspended instant v = (if v = JNull then Inr False
     else case as_str v of None \<Rightarrow> Inl ''invalid_installation_suspended_at''
     | Some s \<Rightarrow> if s = [] \<or> s \<noteq> strip s \<or> 64 < length s \<or> CHR ''T'' \<notin> set s
         then Inl ''invalid_installation_suspended_at''
         else (case instant (if endswith ''Z'' s then butlast s @ ''+00:00'' else s) of
             Some (Aware _) \<Rightarrow> Inr True | _ \<Rightarrow> Inl ''invalid_installation_suspended_at''))"

text \<open>The batch loop shared by the three validators: a record is parsed, its key must be new.\<close>

fun batch :: "(json \<Rightarrow> string + 'k \<times> 'v) \<Rightarrow> string \<Rightarrow> 'k list \<Rightarrow> json list \<Rightarrow> string + ('k \<times> 'v) list" where
  "batch parse duplicate seen [] = Inr []"
| "batch parse duplicate seen (v # vs) = bind_result (parse v) (\<lambda>x.
     if fst x \<in> set seen then Inl duplicate
     else bind_result (batch parse duplicate (fst x # seen) vs) (\<lambda>xs. Inr (x # xs)))"

definition reconciliation_installation_key :: "json \<Rightarrow> string + int" where
  "reconciliation_installation_key v = (case as_obj v of None \<Rightarrow> Inl ''invalid_installation_record''
     | Some r \<Rightarrow> if map_of r ''suspended_at'' = None then Inl ''invalid_installation_suspended_at''
         else reconciliation_installation_id (get_key ''id'' r))"

text \<open>The duplicate test comes before the suspension is parsed.\<close>

fun reconciliation_installation_loop ::
  "(string \<Rightarrow> datetime option) \<Rightarrow> int list \<Rightarrow> json list \<Rightarrow> string + (int \<times> bool) list" where
  "reconciliation_installation_loop instant seen [] = Inr []"
| "reconciliation_installation_loop instant seen (v # vs) =
     bind_result (reconciliation_installation_key v) (\<lambda>i.
       if i \<in> set seen then Inl ''duplicate_installation_id''
       else bind_result (reconciliation_suspended instant (case as_obj v of None \<Rightarrow> JNull | Some r \<Rightarrow> get_key ''suspended_at'' r)) (\<lambda>b.
         bind_result (reconciliation_installation_loop instant (i # seen) vs) (\<lambda>xs. Inr ((i, b) # xs))))"

definition reconciliation_installations :: "(string \<Rightarrow> datetime option) \<Rightarrow> json \<Rightarrow> string + (int \<times> bool) list" where
  "reconciliation_installations instant v = (case as_list v of None \<Rightarrow> Inl ''invalid_installation_batch''
     | Some vs \<Rightarrow> reconciliation_installation_loop instant [] vs)"

definition reconciliation_repository :: "json \<Rightarrow> string + string \<times> bool" where
  "reconciliation_repository v = (case as_obj v of None \<Rightarrow> Inl ''invalid_repository_record''
     | Some r \<Rightarrow> (case as_bool (get_key ''archived'' r) of None \<Rightarrow> Inl ''invalid_repository_archived''
         | Some b \<Rightarrow> bind_result (reconciliation_repository_full_name (get_key ''full_name'' r)) (\<lambda>n. Inr (n, b))))"

definition reconciliation_repositories :: "json \<Rightarrow> string + (string \<times> bool) list" where
  "reconciliation_repositories v = (case as_list v of None \<Rightarrow> Inl ''invalid_repository_batch''
     | Some vs \<Rightarrow> batch reconciliation_repository ''duplicate_repository_full_name'' [] vs)"

definition reconciliation_head_sha :: "json \<Rightarrow> string + string" where
  "reconciliation_head_sha v = (case as_str v of None \<Rightarrow> Inl ''invalid_pull_head''
     | Some s \<Rightarrow> if length s \<notin> {40, 64} \<or> list_ex (\<lambda>c. \<not> lower_hex c) s then Inl ''invalid_pull_head'' else Inr s)"

definition reconciliation_pull :: "json \<Rightarrow> string + int \<times> string" where
  "reconciliation_pull v = (case as_obj v of None \<Rightarrow> Inl ''invalid_pull_record''
     | Some r \<Rightarrow> (case as_int (get_key ''number'' r) of None \<Rightarrow> Inl ''invalid_pull_number''
         | Some n \<Rightarrow> if n \<le> 0 then Inl ''invalid_pull_number''
             else (case as_obj (get_key ''head'' r) of None \<Rightarrow> Inl ''invalid_pull_head''
               | Some h \<Rightarrow> bind_result (reconciliation_head_sha (get_key ''sha'' h)) (\<lambda>s. Inr (n, s)))))"

definition reconciliation_pulls :: "json \<Rightarrow> string + (int \<times> string) list" where
  "reconciliation_pulls v = (case as_list v of None \<Rightarrow> Inl ''invalid_pull_batch''
     | Some vs \<Rightarrow> batch reconciliation_pull ''duplicate_pull_number'' [] vs)"

section \<open>Required fields\<close>

definition omitted :: "string \<Rightarrow> svc_exc" where
  "omitted field = GitHubError (''GitHub response omitted '' @ field)"

definition required_object :: "json \<Rightarrow> string \<Rightarrow> svc_exc + obj" where
  "required_object v field = (case as_obj v of None \<Rightarrow> Inl (omitted field) | Some r \<Rightarrow> Inr r)"

definition required_string :: "json \<Rightarrow> string \<Rightarrow> svc_exc + string" where
  "required_string v field = (case as_str v of None \<Rightarrow> Inl (omitted field)
     | Some s \<Rightarrow> if s = [] then Inl (omitted field) else Inr s)"

definition required_nonnegative_int :: "json \<Rightarrow> string \<Rightarrow> svc_exc + int" where
  "required_nonnegative_int v field = (case as_int v of None \<Rightarrow> Inl (omitted field)
     | Some n \<Rightarrow> if n < 0 then Inl (omitted field) else Inr n)"

definition required_positive_int :: "json \<Rightarrow> string \<Rightarrow> svc_exc + int" where
  "required_positive_int v field = bind_result (required_nonnegative_int v field) (\<lambda>n.
     if n = 0 then Inl (omitted field) else Inr n)"

definition label_name :: "json \<Rightarrow> string option" where
  "label_name v = (case as_obj v of None \<Rightarrow> None | Some r \<Rightarrow> as_str (get_key ''name'' r))"

definition label_names :: "obj \<Rightarrow> svc_exc + string list" where
  "label_names pull = (case as_list (get_key ''labels'' pull) of
       None \<Rightarrow> Inl (GitHubError ''GitHub pull response omitted a valid labels list'')
     | Some vs \<Rightarrow> if list_ex (\<lambda>v. label_name v = None) vs
         then Inl (GitHubError ''GitHub pull response omitted a valid labels list'')
         else Inr (map (\<lambda>v. lower (the (label_name v))) vs))"

definition known_state :: "string \<Rightarrow> string \<Rightarrow> svc_exc + unit" where
  "known_state what s = (if s \<in> {''open'', ''closed''} then Inr ()
     else Inl (GitHubError (''GitHub returned unknown '' @ what @ '' state '' @ py_repr s)))"

definition checked_sha :: "string \<Rightarrow> string \<Rightarrow> svc_exc + string" where
  "checked_sha msg s = (case validate_head_sha s of Inl _ \<Rightarrow> Inl (GitHubError msg) | Inr h \<Rightarrow> Inr h)"

definition associated_pull_identity :: "obj \<Rightarrow> svc_exc + int \<times> string \<times> string" where
  "associated_pull_identity p =
     bind_result (required_string (get_key ''state'' p) ''associated pull_request.state'') (\<lambda>s.
     bind_result (known_state ''associated pull request'' s) (\<lambda>_.
     bind_result (required_object (get_key ''head'' p) ''associated pull_request.head'') (\<lambda>head.
     bind_result (required_string (get_key ''sha'' head) ''associated pull_request.head.sha'') (\<lambda>raw.
     bind_result (checked_sha ''GitHub returned malformed associated pull request head SHA'' raw) (\<lambda>sha.
     bind_result (required_positive_int (get_key ''number'' p) ''associated pull_request.number'') (\<lambda>n.
       Inr (n, s, sha)))))))"

end
