(* ===== verification/Service_Evidence.thy ===== *)
theory Service_Evidence
  imports Github_Checks Service_Payloads Evaluator
begin

text \<open>
  The evidence collection of \<open>EvaluationService\<close> in \<open>extra_codeowners/service.py\<close>: the pull
  requests associated with a commit, the policy and CODEOWNERS texts, the review evidence,
  and \<open>_evaluate_current\<close>, which feeds the evaluator. Log messages and metrics are left out.
  The text of a pydantic error and of a JSON value that is no string come from the
  environment (\<open>e_validation\<close>, \<open>e_repr\<close>), like the TOML and time parsers.
\<close>

definition CODEOWNERS_LOCATIONS :: "string list" where
  "CODEOWNERS_LOCATIONS = [''.github/CODEOWNERS'', ''CODEOWNERS'', ''docs/CODEOWNERS'']"

definition MAX_PULL_FILES :: int where "MAX_PULL_FILES = 3000"
definition MAX_TEAM_MEMBERSHIP_LOOKUPS :: int where "MAX_TEAM_MEMBERSHIP_LOOKUPS = 250"
definition MAX_PATH_MATCH_OPERATIONS :: int where "MAX_PATH_MATCH_OPERATIONS = 2000000"

definition failure :: "string \<Rightarrow> string \<Rightarrow> evaluation_result" where
  "failure code_text message = error_result [mk_message code_text message]"

text \<open>A pydantic constructor in the service: its error is a \<open>ValidationError\<close>, a \<open>ValueError\<close>.\<close>

definition constructed :: "'a validated \<Rightarrow> 'a svc" where
  "constructed r = (\<lambda>en w. (case r of Inl es \<Rightarrow> Inl (SvcValueError (e_validation en es)) | Inr x \<Rightarrow> Inr x, w))"

definition json_text :: "json \<Rightarrow> string svc" where
  "json_text v = (\<lambda>en w. (Inr (case v of JStr s \<Rightarrow> s | _ \<Rightarrow> e_repr en v), w))"

definition json_repr :: "json \<Rightarrow> string svc" where
  "json_repr v = (\<lambda>en w. (Inr (case v of JStr s \<Rightarrow> py_repr s | _ \<Rightarrow> e_repr en v), w))"

section \<open>Associated pull requests\<close>

fun observe_associated :: "obj list \<Rightarrow> (int \<times> string \<times> string) list \<Rightarrow> svc_exc + (int \<times> string \<times> string) list" where
  "observe_associated [] observed = Inr observed"
| "observe_associated (p # ps) observed =
     bind_result (associated_pull_identity p) (\<lambda>(number, identity).
       case map_of observed number of
         None \<Rightarrow> observe_associated ps (observed @ [(number, identity)])
       | Some previous \<Rightarrow> if previous \<noteq> identity
           then Inl (GitHubError ''GitHub returned conflicting associated pull-request snapshots'')
           else observe_associated ps observed)"

definition current_pull_identity :: "string \<Rightarrow> int \<Rightarrow> obj \<Rightarrow> svc_exc + string \<times> string" where
  "current_pull_identity repo number pull =
     bind_result (required_positive_int (get_key ''number'' pull) ''pull_request.number'') (\<lambda>current_number.
     bind_result (required_string (get_key ''state'' pull) ''pull_request.state'') (\<lambda>current_state.
     bind_result (known_state ''pull request'' current_state) (\<lambda>_.
     bind_result (required_object (get_key ''head'' pull) ''pull_request.head'') (\<lambda>head.
     bind_result (required_string (get_key ''sha'' head) ''pull_request.head.sha'') (\<lambda>raw.
     bind_result (checked_sha ''GitHub returned malformed pull request head SHA'' raw) (\<lambda>sha.
     bind_result (required_object (get_key ''base'' pull) ''pull_request.base'') (\<lambda>base.
     bind_result (required_object (get_key ''repo'' base) ''pull_request.base.repo'') (\<lambda>base_repo.
     bind_result (required_string (get_key ''full_name'' base_repo) ''pull_request.base.repo.full_name'') (\<lambda>name.
     bind_result (case normalize_repository_full_name name of
         Inl _ \<Rightarrow> Inl (GitHubError ''GitHub returned malformed base repository identity'') | Inr r \<Rightarrow> Inr r) (\<lambda>canonical.
       if current_number \<noteq> number then Inl (GitHubError ''GitHub changed the associated pull request number'')
       else if canonical \<noteq> repo then Inl (GitHubError ''GitHub changed the associated pull request repository'')
       else Inr (current_state, sha)))))))))))"

definition current_associated_pulls :: "unit svc \<Rightarrow> int \<Rightarrow> string \<Rightarrow> string \<Rightarrow> (int \<times> string \<times> string) list svc" where
  "current_associated_pulls before_github_read i repo head =
     seq before_github_read (\<lambda>_.
     seq (ask_list (ListCommitPulls i repo head)) (\<lambda>associated.
     seq (of_result (observe_associated associated [])) (\<lambda>observed.
       collect (sort (map fst observed)) (\<lambda>number.
         seq before_github_read (\<lambda>_.
         seq (ask_obj (GetPull i repo number)) (\<lambda>pull.
         seq (of_result (current_pull_identity repo number pull)) (\<lambda>identity.
           ret (number, identity))))))))"

definition open_on_head :: "string \<Rightarrow> int \<times> string \<times> string \<Rightarrow> bool" where
  "open_on_head head x \<longleftrightarrow> fst (snd x) = ''open'' \<and> snd (snd x) = head"

definition head_is_unique_to_pull :: "claimed_job \<Rightarrow> string \<Rightarrow> bool svc" where
  "head_is_unique_to_pull job head =
     seq (current_associated_pulls (ret ()) (c_installation job) (c_repo job) head) (\<lambda>current.
       ret (set (map fst (filter (open_on_head head) current)) = {c_pull job}))"

section \<open>Policies and rules\<close>

fun find_codeowners :: "int \<Rightarrow> string \<Rightarrow> string \<Rightarrow> string list \<Rightarrow> (string \<times> string) option svc" where
  "find_codeowners i repo base_sha [] = ret None"
| "find_codeowners i repo base_sha (path # paths) =
     seq (ask_opt_text (GetFileText i repo path (Some base_sha))) (\<lambda>content. case content of
       None \<Rightarrow> find_codeowners i repo base_sha paths | Some t \<Rightarrow> ret (Some (path, t)))"

definition owner_of :: "string \<Rightarrow> string" where
  \<comment> \<open>\<open>repository.split("/", 1)[0]\<close>\<close>
  "owner_of repo = takeWhile (\<lambda>c. c \<noteq> CHR ''/'') repo"

definition default_organization_policy :: organization_policy where
  "default_organization_policy = \<lparr>op_schema_version = 1, apps = [], guardrails_of = \<lparr>non_delegable_paths = []\<rparr>\<rparr>"

definition default_repository_policy :: repository_policy where
  "default_repository_policy = \<lparr>rp_schema_version = 1, enabled = False, allow_author_as_codeowner = False,
     allow_delegation_for_policy_file = False, delegations = []\<rparr>"

definition parsed_toml :: "(env \<Rightarrow> string \<Rightarrow> string + 'a) \<Rightarrow> string \<Rightarrow> 'a svc" where
  "parsed_toml parser text_value = (\<lambda>en w. (case parser en text_value of Inl m \<Rightarrow> Inl (SvcValueError m) | Inr p \<Rightarrow> Inr p, w))"

definition load_organization_policy :: "settings \<Rightarrow> int \<Rightarrow> string \<Rightarrow> int \<Rightarrow> organization_policy svc" where
  "load_organization_policy st i repo generation =
     (let organization_repository = owner_of repo @ ''/'' @ s_org_repo st in
      seq (ask_bool (IncludesRepository i organization_repository generation)) (\<lambda>included.
        if \<not> included then raise_exc (OrganizationPolicyUnavailable
          (''the configured organization policy repository '' @ organization_repository @
           '' is not available to this GitHub App installation; confirm that it exists, add it to the installation's repository selection, and re-evaluate''))
        else seq (ask_opt_text (GetFileText i organization_repository (s_policy_path st) None)) (\<lambda>org_text.
          case org_text of None \<Rightarrow> ret default_organization_policy
          | Some t \<Rightarrow> parsed_toml e_organization_toml t)))"

definition repository_policy_text :: "settings \<Rightarrow> int \<Rightarrow> string \<Rightarrow> string \<Rightarrow> string option svc" where
  "repository_policy_text st i repo base_sha = ask_opt_text (GetFileText i repo (s_policy_path st) (Some base_sha))"

definition file_status :: "string \<Rightarrow> svc_exc + changed_file_status" where
  "file_status s = (case map_of [(''added'', ADDED), (''modified'', MODIFIED), (''removed'', REMOVED),
       (''renamed'', RENAMED), (''copied'', COPIED), (''changed'', CHANGED), (''unchanged'', UNCHANGED)] s of
     None \<Rightarrow> Inl (SvcValueError (py_repr s @ '' is not a valid ChangedFileStatus'')) | Some c \<Rightarrow> Inr c)"

definition changed_files_of :: "obj list \<Rightarrow> changed_file list svc" where
  "changed_files_of values = collect values (\<lambda>value.
     seq (of_result (required_string (get_key ''status'' value) ''pull file status'')) (\<lambda>status.
     seq (of_result (required_string (get_key ''filename'' value) ''pull file filename'')) (\<lambda>path.
     seq (of_result (file_status status)) (\<lambda>st.
       constructed (make_changed_file path st (as_str (get_key ''previous_filename'' value)))))))"

section \<open>Owners\<close>

definition team_owners :: "string \<Rightarrow> codeowners_rule list \<Rightarrow> string list" where
  \<comment> \<open>sorted\<close>
  "team_owners repository_owner rules = sort (remdups (filter (\<lambda>owner. CHR ''/'' \<in> set owner \<and>
     lower (removeprefix ''@'' (owner_of owner)) = lower repository_owner) (concat (map cr_owners rules))))"

definition team_slug :: "string \<Rightarrow> string" where
  \<comment> \<open>\<open>owner.split("/", 1)[1]\<close>\<close>
  "team_slug owner = tl (dropWhile (\<lambda>c. c \<noteq> CHR ''/'') owner)"

definition human_team_aliases :: "int \<Rightarrow> string \<Rightarrow> string \<Rightarrow> string \<Rightarrow> codeowners_rule list \<Rightarrow> string list svc" where
  "human_team_aliases i repo repository_owner lg rules =
     (let owners = team_owners repository_owner rules in
      seq (gather (map (\<lambda>owner.
          seq (gather [team_member i repository_owner (team_slug owner) lg,
                       team_can_own_repository i repository_owner (team_slug owner) repo])
            (\<lambda>rs. ret (list_all (\<lambda>b. b) rs))) owners)) (\<lambda>membership.
        ret (map fst (filter snd (zip owners membership)))))"

definition human_owner_evidence :: "int \<Rightarrow> string \<Rightarrow> string \<Rightarrow> string \<Rightarrow> codeowners_rule list \<Rightarrow> (bool \<times> string list) svc" where
  "human_owner_evidence i repo repository_owner lg rules =
     gather2 (user_can_own_repository i repo lg) (human_team_aliases i repo repository_owner lg rules)"

section \<open>Applications\<close>

definition bot_identity_matches :: "enrolled_application \<Rightarrow> obj \<Rightarrow> bool" where
  "bot_identity_matches app metadata \<longleftrightarrow> eq_int (get_key ''id'' metadata) (ea_bot_user_id app) \<and>
     (case as_str (get_key ''login'' metadata) of None \<Rightarrow> False | Some lg \<Rightarrow> lower lg = ea_slug app @ ''[bot]'') \<and>
     get_key ''type'' metadata = JStr ''Bot''"

fun validated_apps :: "int \<Rightarrow> int list \<Rightarrow> (string \<times> enrolled_application) list \<Rightarrow> (int \<times> enrolled_application) list svc" where
  "validated_apps i bot_user_ids [] = ret []"
| "validated_apps i bot_user_ids ((alias, app) # rest) =
     (if ea_bot_user_id app \<notin> set bot_user_ids then validated_apps i bot_user_ids rest
      else seq (get_user i (ea_slug app @ ''[bot]'')) (\<lambda>metadata.
        seq (validated_apps i bot_user_ids rest) (\<lambda>more.
          ret (if bot_identity_matches app metadata then (ea_bot_user_id app, app) # more else more))))"

definition pull_request_author_identity :: "obj \<Rightarrow> (int \<times> string) option svc" where
  "pull_request_author_identity pull =
     (if get_key ''user'' pull = JNull then ret None
      else seq (of_result (required_object (get_key ''user'' pull) ''pull_request.user'')) (\<lambda>user.
        if get_key ''type'' user = JStr ''Bot'' then ret None
        else if get_key ''type'' user \<noteq> JStr ''User''
        then seq (json_repr (get_key ''type'' user)) (\<lambda>r.
          raise_exc (GitHubError (''pull request author has unsupported actor type '' @ r)))
        else seq (of_result (required_positive_int (get_key ''id'' user) ''pull_request.user.id'')) (\<lambda>uid.
          seq (of_result (required_string (get_key ''login'' user) ''pull_request.user.login'')) (\<lambda>lg.
            ret (Some (uid, lg))))))"

end
