(* ===== verification/Service_Reviews.thy ===== *)
theory Service_Reviews
  imports Service_Evidence
begin

text \<open>
  \<open>EvaluationService._reviews\<close> and \<open>_evaluate_current\<close>: the newest opinionated review of each
  account, the approvals of the current head turned into evaluator evidence, and the
  evaluation of one pull request with every way it ends early.
\<close>

section \<open>The newest opinionated review of each account\<close>

record opinion =
  o_bot :: bool
  o_user :: int
  o_login :: string
  o_submitted :: datetime
  o_review :: int
  o_value :: obj

text \<open>Comparing a naive with an aware \<open>datetime\<close> raises \<open>TypeError\<close>.\<close>

fun newer :: "datetime \<times> int \<Rightarrow> datetime \<times> int \<Rightarrow> bool option" where
  "newer (Naive a, i) (Naive b, j) = Some (b < a \<or> a = b \<and> j < i)"
| "newer (Aware a, i) (Aware b, j) = Some (b < a \<or> a = b \<and> j < i)"
| "newer _ _ = None"

definition opinion_instant :: "string \<Rightarrow> (svc_exc + datetime) svc" where
  "opinion_instant s = (\<lambda>en w. (Inr (case e_instant en (concat (map (\<lambda>c. if c = CHR ''Z'' then ''+00:00'' else [c]) s)) of
       None \<Rightarrow> Inl (GitHubError ''opinionated review has an invalid submission time'') | Some t \<Rightarrow> Inr t), w))"

text \<open>One iteration of the first loop: \<open>None\<close> is \<open>continue\<close>.\<close>

definition read_opinion :: "obj \<Rightarrow> opinion option svc" where
  "read_opinion v =
     (case in_str_set (get_key ''state'' v) [''APPROVED'', ''CHANGES_REQUESTED'', ''COMMENTED'', ''DISMISSED'', ''PENDING''] of
       None \<Rightarrow> raise_exc SvcTypeError
     | Some False \<Rightarrow> seq (json_repr (get_key ''state'' v)) (\<lambda>r.
         raise_exc (GitHubError (''GitHub returned unknown review state '' @ r)))
     | Some True \<Rightarrow>
         if get_key ''state'' v \<in> {JStr ''COMMENTED'', JStr ''PENDING''} then ret None
         else (case as_obj (get_key ''user'' v) of
             None \<Rightarrow> raise_exc (GitHubError ''opinionated review omitted its user'')
           | Some user \<Rightarrow>
               (case (as_int (get_key ''id'' user), as_str (get_key ''login'' user), as_int (get_key ''id'' v),
                      as_str (get_key ''submitted_at'' v)) of
                  (Some uid, Some lg, Some rid, Some submitted) \<Rightarrow>
                    (case in_str_set (get_key ''type'' user) [''Bot'', ''User''] of
                       None \<Rightarrow> raise_exc SvcTypeError
                     | Some False \<Rightarrow> seq (json_repr (get_key ''type'' user)) (\<lambda>r.
                         raise_exc (GitHubError (''opinionated review has unsupported actor type '' @ r)))
                     | Some True \<Rightarrow> seq (opinion_instant submitted) (\<lambda>t. seq (of_result t) (\<lambda>t.
                         ret (Some \<lparr>o_bot = (get_key ''type'' user = JStr ''Bot''), o_user = uid, o_login = lg,
                           o_submitted = t, o_review = rid, o_value = v\<rparr>))))
                | _ \<Rightarrow> raise_exc (GitHubError ''opinionated review omitted actor, ID, or submission time''))))"

definition opinion_key :: "opinion \<Rightarrow> bool \<times> int" where
  "opinion_key x = (o_bot x, o_user x)"

definition latest_opinion :: "opinion \<Rightarrow> ((bool \<times> int) \<times> opinion) list \<Rightarrow> svc_exc + ((bool \<times> int) \<times> opinion) list" where
  "latest_opinion x latest = (case map_of latest (opinion_key x) of
       None \<Rightarrow> Inr (AList.update (opinion_key x) x latest)
     | Some previous \<Rightarrow> (case newer (o_submitted x, o_review x) (o_submitted previous, o_review previous) of
           None \<Rightarrow> Inl SvcTypeError
         | Some b \<Rightarrow> Inr (if b then AList.update (opinion_key x) x latest else latest)))"

fun latest_opinions :: "obj list \<Rightarrow> ((bool \<times> int) \<times> opinion) list \<Rightarrow> ((bool \<times> int) \<times> opinion) list svc" where
  "latest_opinions [] latest = ret latest"
| "latest_opinions (v # vs) latest = seq (read_opinion v) (\<lambda>r. case r of
       None \<Rightarrow> latest_opinions vs latest
     | Some x \<Rightarrow> seq (of_result (latest_opinion x latest)) (latest_opinions vs))"

definition approves_head :: "string \<Rightarrow> opinion \<Rightarrow> bool" where
  "approves_head head x \<longleftrightarrow> get_key ''state'' (o_value x) = JStr ''APPROVED'' \<and>
     get_key ''commit_id'' (o_value x) = JStr head"

section \<open>Evidence\<close>

definition review_of :: "opinion \<Rightarrow> string \<Rightarrow> review_actor \<Rightarrow> pull_request_review svc" where
  "review_of x head act = constructed (make_pull_request_review (o_review x) act APPROVED (Some head) (o_submitted x))"

definition approval_evidence ::
  "int \<Rightarrow> string \<Rightarrow> codeowners_rule list \<Rightarrow> string \<Rightarrow> (int \<times> enrolled_application) list \<Rightarrow> opinion \<Rightarrow>
     pull_request_review option svc" where
  "approval_evidence i repo rules head enrolled x =
     (if o_bot x then (case map_of enrolled (o_user x) of
          None \<Rightarrow> ret None
        | Some app \<Rightarrow> if lower (o_login x) \<noteq> ea_slug app @ ''[bot]'' then ret None
            else seq (constructed (make_review_actor APPLICATION (o_login x) (o_user x) (Some (ea_app_id app))
                (Some (ea_slug app)) [] False)) (\<lambda>act. seq (review_of x head act) (\<lambda>r. ret (Some r))))
      else seq (human_owner_evidence i repo (owner_of repo) (o_login x) rules) (\<lambda>(direct, aliases).
        seq (constructed (make_review_actor HUMAN (o_login x) (o_user x) None None aliases direct)) (\<lambda>act.
          seq (review_of x head act) (\<lambda>r. ret (Some r)))))"

definition service_reviews ::
  "int \<Rightarrow> string \<Rightarrow> obj list \<Rightarrow> organization_policy \<Rightarrow> codeowners_rule list \<Rightarrow> string \<Rightarrow> int \<Rightarrow>
     pull_request_review list svc" where
  "service_reviews i repo values org rules head additional =
     seq (latest_opinions values []) (\<lambda>latest.
       let current = filter (approves_head head) (map snd latest);
           humans = int (length (filter (\<lambda>x. \<not> o_bot x) current));
           bots = map o_user (filter o_bot current) in
       if MAX_TEAM_MEMBERSHIP_LOOKUPS < (humans + additional) * int (length (team_owners (owner_of repo) rules))
       then raise_exc (EvidenceLimit ''current human evidence and CODEOWNERS teams exceed the membership lookup budget'')
       else seq (if bots = [] then ret [] else validated_apps i bots (apps org)) (\<lambda>enrolled.
         seq (collect current (approval_evidence i repo rules head enrolled)) (\<lambda>rs.
           ret (List.map_filter (\<lambda>r. r) rs))))"

section \<open>The evaluation of one pull request\<close>

definition evaluated :: "evaluation_input validated \<Rightarrow> evaluation_result svc" where
  "evaluated data = seq (constructed data) (\<lambda>x. of_result (case evaluate x of
     Inl m \<Rightarrow> Inl (if m = ''AssertionError'' then AssertionFailed else OtherFailure m) | Inr r \<Rightarrow> Inr r))"

definition policy_pattern_count :: "settings \<Rightarrow> organization_policy \<Rightarrow> repository_policy \<Rightarrow> int" where
  "policy_pattern_count st org policy =
     int (sum_list (map (\<lambda>d. length (dg_paths d)) (delegations policy))
       + length (non_delegable_paths (guardrails_of org))
       + (if s_allow_insecure st then 0 else length BUILTIN_NON_DELEGABLE_PATHS)
       + (if \<not> s_allow_insecure st \<and> \<not> allow_delegation_for_policy_file policy then 1 else 0))"

definition codeowners_error_text :: "obj \<Rightarrow> string svc" where
  "codeowners_error_text item =
     seq (case get_key ''line'' item of JInt n \<Rightarrow> ret (''line '' @ show_int n @ '': '')
            | JBool b \<Rightarrow> ret (''line '' @ (if b then ''True'' else ''False'') @ '': '') | _ \<Rightarrow> ret []) (\<lambda>prefix_text.
     seq (json_text (get_or (JStr ''invalid CODEOWNERS entry'') ''message'' item)) (\<lambda>m. ret (prefix_text @ m)))"

text \<open>The three concurrent reads.\<close>

definition read_evidence :: "claimed_job \<Rightarrow> string \<Rightarrow> (obj list \<times> obj list \<times> obj list) svc" where
  "read_evidence job policy_sha =
     seq (gather [ask_list (GetPullFiles (c_installation job) (c_repo job) (c_pull job)),
                  ask_list (GetReviews (c_installation job) (c_repo job) (c_pull job)),
                  ask_list (GetCodeownersErrors (c_installation job) (c_repo job) policy_sha)])
       (\<lambda>rs. ret (rs ! 0, rs ! 1, rs ! 2))"

definition author_evidence :: "claimed_job \<Rightarrow> codeowners_rule list \<Rightarrow> (int \<times> string) option \<Rightarrow> pull_request_author option svc" where
  "author_evidence job rules identity = (case identity of None \<Rightarrow> ret None
     | Some (uid, lg) \<Rightarrow>
         seq (human_owner_evidence (c_installation job) (c_repo job) (owner_of (c_repo job)) lg rules) (\<lambda>(direct, aliases).
         seq (constructed (make_pull_request_author lg uid aliases direct)) (\<lambda>a. ret (Some a))))"

text \<open>The \<open>try\<close> block that turns the payloads into evidence.\<close>

definition shaped_evidence ::
  "claimed_job \<Rightarrow> obj \<Rightarrow> string \<Rightarrow> organization_policy \<Rightarrow> repository_policy \<Rightarrow> codeowners_rule list \<Rightarrow>
     obj list \<Rightarrow> obj list \<Rightarrow> (pull_request_review list \<times> pull_request_author option \<times> changed_file list) svc" where
  "shaped_evidence job pull head org policy rules file_values review_values =
     seq (if allow_author_as_codeowner policy then pull_request_author_identity pull else ret None) (\<lambda>identity.
     seq (service_reviews (c_installation job) (c_repo job) review_values org rules head
            (if identity = None then 0 else 1)) (\<lambda>reviews.
     seq (author_evidence job rules identity) (\<lambda>author.
     seq (changed_files_of file_values) (\<lambda>files. ret (reviews, author, files)))))"

definition evaluation_of ::
  "settings \<Rightarrow> obj \<Rightarrow> string \<Rightarrow> string \<Rightarrow> organization_policy \<Rightarrow> repository_policy \<Rightarrow>
     pull_request_review list \<times> pull_request_author option \<times> changed_file list \<Rightarrow> evaluation_result svc" where
  "evaluation_of st pull head text_value org policy shaped =
     seq (of_result (label_names pull)) (\<lambda>labels.
     seq (constructed (build (errors_of (validate_repository_policy_path (s_policy_path st)))
            (projr (validate_repository_policy_path (s_policy_path st))) Inr)) (\<lambda>path.
       evaluated (make_evaluation_input head text_value (snd (snd shaped)) (fst shaped) (fst (snd shaped)) labels
         org policy \<lparr>exact_head_reviews = True, allow_insecure_changes = s_allow_insecure st,
           repository_policy_path = path\<rparr>)))"

definition collect_and_evaluate ::
  "settings \<Rightarrow> claimed_job \<Rightarrow> obj \<Rightarrow> string \<Rightarrow> string \<Rightarrow> int \<Rightarrow> organization_policy \<Rightarrow> repository_policy \<Rightarrow>
     string \<Rightarrow> codeowners_rule list \<Rightarrow> evaluation_result svc" where
  "collect_and_evaluate st job pull head policy_sha expected org policy text_value rules =
     seq (attempt (read_evidence job policy_sha)) (\<lambda>evidence. case evidence of
       Inl (PullRequestTooLarge m) \<Rightarrow> ret (failure ''evidence_limit_exceeded'' m)
     | Inl x \<Rightarrow> raise_exc x
     | Inr (file_values, review_values, github_errors) \<Rightarrow>
         if int (length file_values) \<noteq> expected
         then ret (failure ''incomplete_changed_files''
           ''GitHub's pull files response did not match pull_request.changed_files'')
         else if github_errors \<noteq> []
         then seq (collect github_errors codeowners_error_text) (\<lambda>ms.
           ret (failure ''github_codeowners_error'' (py_join ''; '' ms)))
         else seq (attempt (shaped_evidence job pull head org policy rules file_values review_values)) (\<lambda>shaped.
           case shaped of
             Inl (EvidenceLimit m) \<Rightarrow> ret (failure ''evidence_limit_exceeded'' m)
           | Inl (SvcValueError m) \<Rightarrow> ret (failure ''malformed_github_evidence'' m)
           | Inl x \<Rightarrow> raise_exc x
           | Inr s \<Rightarrow> evaluation_of st pull head text_value org policy s))"

definition evaluate_current ::
  "settings \<Rightarrow> claimed_job \<Rightarrow> obj \<Rightarrow> string \<Rightarrow> string \<Rightarrow> int \<Rightarrow> repository_policy \<Rightarrow> evaluation_result svc" where
  "evaluate_current st job pull head policy_sha expected policy =
     (if \<not> enabled policy
      then evaluated (make_evaluation_input head [] [] [] None [] default_organization_policy policy default_options)
      else if MAX_PULL_FILES \<le> expected
      then ret (failure ''pull_request_too_large'' ''pull request has at least GitHub's 3,000-file API limit'')
      else seq (attempt (load_organization_policy st (c_installation job) (c_repo job) (c_authority job))) (\<lambda>loaded.
        case loaded of
          Inl (OrganizationPolicyUnavailable m) \<Rightarrow> ret (failure ''organization_policy_repository_unavailable'' m)
        | Inl (SvcValueError m) \<Rightarrow> ret (failure ''invalid_policy'' m)
        | Inl x \<Rightarrow> raise_exc x
        | Inr org \<Rightarrow>
            seq (find_codeowners (c_installation job) (c_repo job) policy_sha CODEOWNERS_LOCATIONS) (\<lambda>found. case found of
              None \<Rightarrow> ret (failure ''codeowners_missing''
                ''enabled repository has no CODEOWNERS file in .github/, the root, or docs/'')
            | Some (_, text_value) \<Rightarrow>
                (let rules = (case parse_codeowners text_value of Inl _ \<Rightarrow> [] | Inr rs \<Rightarrow> rs) in
                 if MAX_PATH_MATCH_OPERATIONS <
                   expected * 2 * (int (length rules) + policy_pattern_count st org policy)
                 then ret (failure ''evaluation_complexity_exceeded''
                   ''changed paths and policy patterns exceed the bounded evaluation budget'')
                 else collect_and_evaluate st job pull head policy_sha expected org policy text_value rules))))"

end
