(* ===== verification/Service.thy ===== *)
theory Service
  imports Service_Reviews
begin

text \<open>
  \<open>EvaluationService\<close> of \<open>extra_codeowners/service.py\<close>: the evaluation of a claimed job from
  the first read of the pull request to the audit record, the resets of a commit's check,
  and the fast path of an accepted trigger. The pieces of \<open>evaluate_job\<close> that share local
  variables get them as the record \<open>evaluation_context\<close>.
\<close>

section \<open>Shared pieces\<close>

definition is_organization_config_repository :: "settings \<Rightarrow> string \<Rightarrow> bool" where
  "is_organization_config_repository st repo \<longleftrightarrow> CHR ''/'' \<in> set repo \<and>
     lower (team_slug repo) = lower (s_org_repo st)"

definition of_queue :: "queue_error + 'a \<Rightarrow> 'a svc" where
  "of_queue r = of_result (case r of Inl e \<Rightarrow> Inl (store_error e) | Inr x \<Rightarrow> Inr x)"

definition details_of :: "obj \<Rightarrow> string option" where
  "details_of pull = as_str (get_key ''html_url'' pull)"

definition base_hint_of :: "string \<Rightarrow> string option" where
  "base_hint_of base_ref = (if length base_ref \<le> 255 then Some base_ref else None)"

definition pull_objects :: "obj \<Rightarrow> svc_exc + obj \<times> obj" where
  "pull_objects pull =
     bind_result (required_object (get_key ''head'' pull) ''pull_request.head'') (\<lambda>head.
     bind_result (required_object (get_key ''base'' pull) ''pull_request.base'') (\<lambda>base. Inr (head, base)))"

definition canonical_base :: "obj \<Rightarrow> svc_exc + string" where
  "canonical_base base =
     bind_result (required_object (get_key ''repo'' base) ''pull_request.base.repo'') (\<lambda>repo.
     bind_result (required_string (get_key ''full_name'' repo) ''pull_request.base.repo.full_name'') (\<lambda>name.
       case normalize_repository_full_name name of Inl e \<Rightarrow> Inl (store_error e) | Inr r \<Rightarrow> Inr r))"

record pull_view =
  pv_head :: string
  pv_base_sha :: string
  pv_base_ref :: string
  pv_state :: string

definition pull_strings :: "obj \<Rightarrow> obj \<Rightarrow> obj \<Rightarrow> svc_exc + pull_view" where
  "pull_strings pull head base =
     bind_result (required_string (get_key ''sha'' head) ''pull_request.head.sha'') (\<lambda>head_sha.
     bind_result (required_string (get_key ''sha'' base) ''pull_request.base.sha'') (\<lambda>base_sha.
     bind_result (required_string (get_key ''ref'' base) ''pull_request.base.ref'') (\<lambda>base_ref.
     bind_result (required_string (get_key ''state'' pull) ''pull_request.state'') (\<lambda>st.
     bind_result (known_state ''pull request'' st) (\<lambda>_.
       Inr \<lparr>pv_head = head_sha, pv_base_sha = base_sha, pv_base_ref = base_ref, pv_state = st\<rparr>)))))"

definition in_progress :: "string \<Rightarrow> string \<Rightarrow> string option \<Rightarrow> string \<Rightarrow> check_write" where
  "in_progress title smry details external = \<lparr>cw_status = ''in_progress'', cw_conclusion = None,
     cw_title = title, cw_summary = smry, cw_text = [], cw_details = details, cw_external = Some external,
     cw_action = False, cw_skip = False\<rparr>"

definition external_of :: "string \<Rightarrow> int \<Rightarrow> string \<Rightarrow> string" where
  "external_of repo pull head = repo @ ''#'' @ show_int pull @ ''@'' @ head"

definition RE_EVALUATING :: string where "RE_EVALUATING = ''Re-evaluating CODEOWNER approvals''"

section \<open>Closed pull requests\<close>

definition finish_closed_pull_check :: "settings \<Rightarrow> claimed_job \<Rightarrow> string \<Rightarrow> string option \<Rightarrow> unit svc" where
  "finish_closed_pull_check st job head details =
     check_write_guard (c_installation job) head (
       seq (current_associated_pulls (ret ()) (c_installation job) (c_repo job) head) (\<lambda>current.
         if list_ex (open_on_head head) current then ret ()
         else seq (existing_check_run_id st (c_installation job) (c_repo job) head) (\<lambda>cid. case cid of
             None \<Rightarrow> ret ()
           | Some n \<Rightarrow> seq (check_run_is_completed (c_installation job) (c_repo job) n) (\<lambda>completed.
               if completed then ret ()
               else complete_check_run st (c_installation job) (c_repo job) n ''cancelled'' ''Pull request closed''
                 ''The pull request closed before Extra CODEOWNERS finished evaluating approvals.''
                 details (Some (external_of (c_repo job) (c_pull job) head))))))"

section \<open>Evaluating a claimed job\<close>

record evaluation_context =
  x_job :: claimed_job
  x_head :: string
  x_base_ref :: string
  x_details :: "string option"

definition x_external :: "evaluation_context \<Rightarrow> string" where
  "x_external x = external_of (c_repo (x_job x)) (c_pull (x_job x)) (x_head x)"

definition x_upsert :: "settings \<Rightarrow> evaluation_context \<Rightarrow> check_write \<Rightarrow> unit svc" where
  "x_upsert st x cw = seq (upsert_check_run st (c_installation (x_job x)) (c_repo (x_job x)) (x_head x) cw) (\<lambda>_. ret ())"

definition x_block :: "settings \<Rightarrow> evaluation_context \<Rightarrow> string \<Rightarrow> string \<Rightarrow> unit svc" where
  "x_block st x title smry = x_upsert st x (in_progress title smry (x_details x) (x_external x))"

text \<open>\<open>_restore_blocking_after_uncertain_completion\<close>: the reset runs to its end under a shield;
  a cancellation that arrived meanwhile is raised afterwards.\<close>

definition restore_blocking :: "settings \<Rightarrow> evaluation_context \<Rightarrow> bool svc" where
  "restore_blocking st x =
     seq (attempt (x_block st x RE_EVALUATING
       ''Completed check publication could not be verified; approval is blocked pending re-evaluation.'')) (\<lambda>r.
     seq (ask_env e_cancelled) (\<lambda>cancelled. if cancelled then raise_exc Cancelled else ret (\<not> isl r)))"

definition restoring :: "settings \<Rightarrow> evaluation_context \<Rightarrow> 'a svc \<Rightarrow> 'a svc" where
  "restoring st x m = handle m (\<lambda>e. seq (restore_blocking st x) (\<lambda>_. raise_exc e))"

definition trigger_request :: "claimed_job \<Rightarrow> string \<Rightarrow> string \<Rightarrow> string \<Rightarrow> job_request svc" where
  "trigger_request job reason head base_ref = of_queue (claim_request job reason (Some head) (base_hint_of base_ref))"

text \<open>The first guarded section: revoke an earlier success, unless the job lost its claim or its
  commit was fenced again. The result says whether the evaluation goes on.\<close>

definition revoke_previous :: "settings \<Rightarrow> evaluation_context \<Rightarrow> bool svc" where
  "revoke_previous st x = (let job = x_job x; head = x_head x in
     check_write_guard (c_installation job) head (
       seq (ask_current_claim job) (\<lambda>current. if \<not> current then ret False
       else seq (ask_shared_current job head) (\<lambda>shared. if \<not> shared
         then seq (ask_shared_generation (c_installation job) (c_repo job) head) (\<lambda>generation.
           seq (trigger_request job ''shared_head_generation_changed'' head (x_base_ref x)) (\<lambda>q.
           seq (do_enqueue_for_generation q generation) (\<lambda>rebound.
             if \<not> rebound then raise_exc (SharedHeadInvalidationPending
               ''shared-head generation changed while rebinding evaluation'')
             else ret False)))
         else seq (when_svc (\<not> keeps_published_check job) (x_block st x ''Evaluating CODEOWNER approvals''
             ''A current evaluation is in progress; approval is blocked until it completes.'')) (\<lambda>_. ret True)))))"

definition check_title :: "evaluation_result \<Rightarrow> string" where
  "check_title r = (case conclusion r of SUCCESS \<Rightarrow> ''CODEOWNER approval requirement satisfied''
     | FAILURE \<Rightarrow> ''CODEOWNER approval required'')"

definition conclusion_value :: "evaluation_result \<Rightarrow> string" where
  "conclusion_value r = (case conclusion r of SUCCESS \<Rightarrow> ''success'' | FAILURE \<Rightarrow> ''failure'')"

definition insecure_note :: "settings \<Rightarrow> string" where
  "insecure_note st = (if s_allow_insecure st
     then [newline, newline] @ ''> **Warning:** `EXTRA_CODEOWNERS_ALLOW_INSECURE_CHANGES=true` disabled built-in non-delegable paths. Organization guardrails still apply.''
     else [])"

definition completed_write :: "settings \<Rightarrow> evaluation_context \<Rightarrow> string \<times> string \<Rightarrow> evaluation_result \<Rightarrow> check_write" where
  "completed_write st x marks r = \<lparr>cw_status = ''completed'', cw_conclusion = Some (conclusion_value r),
     cw_title = check_title r, cw_summary = summary r @ insecure_note st,
     cw_text = check_output (fst marks) (snd marks) r, cw_details = x_details x,
     cw_external = Some (x_external x), cw_action = True, cw_skip = keeps_published_check (x_job x)\<rparr>"

definition shared_head_failure :: evaluation_result where
  "shared_head_failure = failure ''shared_head_commit''
     ''the head commit is shared by multiple open pull requests; push a distinct commit before approval''"

text \<open>The publication under the head guard: \<open>None\<close> is an early return, otherwise the published
  result.\<close>

definition publish_locked :: "settings \<Rightarrow> evaluation_context \<Rightarrow> evaluation_result \<Rightarrow> evaluation_result option svc" where
  "publish_locked st x result = (let job = x_job x; head = x_head x in
     seq (ask_current_claim job) (\<lambda>current. if \<not> current then ret None
     else seq (ask_publishable job head) (\<lambda>open1. if \<not> open1 then ret None
     else seq (ask_blocking_authority job (x_base_ref x)) (\<lambda>blocked.
       if blocked then raise_exc (AuthorityChangePending ''accepted authority change arrived during evaluation'')
     else seq (if conclusion result = SUCCESS then head_is_unique_to_pull job head else ret True) (\<lambda>unique.
       let result = (if unique then result else shared_head_failure) in
     seq (ask_publishable job head) (\<lambda>open2. if \<not> open2 then ret None
     else seq (ask_current_claim job) (\<lambda>still. if \<not> still then ret None
     else seq (ask_env (\<lambda>en _. e_marks en)) (\<lambda>marks.
     seq (restoring st x (x_upsert st x (completed_write st x marks result))) (\<lambda>_.
     seq (restoring st x (seq (ask_current_claim job) (\<lambda>c. seq (ask_publishable job head) (\<lambda>s. ret (c \<and> s))))) (\<lambda>ok.
       if \<not> ok then seq (restore_blocking st x) (\<lambda>_. ret None)
       else ret (Some result)))))))))))"

definition pending_after :: "evaluation_context \<Rightarrow> (bool \<times> bool) svc" where
  "pending_after x = seq (ask_superseding (x_job x)) (\<lambda>superseded.
     seq (ask_blocking_authority (x_job x) (x_base_ref x)) (\<lambda>authority. ret (superseded, authority)))"

text \<open>The second look after the head guard is released, and the whole publication under the
  authority guard.\<close>

definition unblock_superseded :: "settings \<Rightarrow> evaluation_context \<Rightarrow> evaluation_result \<Rightarrow> evaluation_result option svc" where
  "unblock_superseded st x result =
     seq (pending_after x) (\<lambda>(superseded, authority). if \<not> superseded \<and> \<not> authority then ret (Some result)
     else check_write_guard (c_installation (x_job x)) (x_head x) (
       seq (pending_after x) (\<lambda>(superseded, authority). if \<not> superseded \<and> \<not> authority then ret (Some result)
       else seq (x_block st x RE_EVALUATING
           ''New review, pull-request, or authority evidence arrived; approval is blocked pending re-evaluation.'') (\<lambda>_.
         if authority then raise_exc (AuthorityChangePending ''accepted authority change arrived during check publication'')
         else ret None))))"

definition publish_result :: "settings \<Rightarrow> evaluation_context \<Rightarrow> evaluation_result \<Rightarrow> evaluation_result option svc" where
  "publish_result st x result = authority_publish_guard (c_installation (x_job x)) (
     seq (check_write_guard (c_installation (x_job x)) (x_head x) (publish_locked st x result)) (\<lambda>published.
       case published of None \<Rightarrow> ret None | Some r \<Rightarrow> unblock_superseded st x r))"

definition branch_policy :: "settings \<Rightarrow> claimed_job \<Rightarrow> string \<Rightarrow> (string \<times> string option) svc" where
  "branch_policy st job base_ref =
     seq (ask_text (GetBranchHead (c_installation job) (c_repo job) base_ref)) (\<lambda>policy_sha.
     seq (repository_policy_text st (c_installation job) (c_repo job) policy_sha) (\<lambda>t. ret (policy_sha, t)))"

definition evaluation_result_of ::
  "settings \<Rightarrow> evaluation_context \<Rightarrow> obj \<Rightarrow> string \<Rightarrow> string option \<Rightarrow> int \<Rightarrow> evaluation_result svc" where
  "evaluation_result_of st x pull policy_sha text_value expected =
     seq (attempt (case text_value of None \<Rightarrow> ret default_repository_policy | Some t \<Rightarrow> parsed_toml e_repository_toml t)) (\<lambda>r.
       case r of Inl (SvcValueError m) \<Rightarrow> ret (failure ''invalid_policy'' m)
       | Inl e \<Rightarrow> raise_exc e
       | Inr policy \<Rightarrow> evaluate_current st (x_job x) pull (x_head x) policy_sha expected policy)"

text \<open>The re-read that closes the race between collecting and publishing: \<open>False\<close> ends the
  evaluation, after finishing a closed pull request or queueing the changed one.\<close>

definition evidence_unchanged ::
  "evaluation_context \<Rightarrow> obj \<Rightarrow> pull_view \<Rightarrow> pull_view \<Rightarrow> string list \<Rightarrow> string \<Rightarrow> int \<Rightarrow> bool svc" where
  "evidence_unchanged x current earlier now label_list policy_sha expected =
     (if pv_head now \<noteq> pv_head earlier \<or> pv_base_sha now \<noteq> pv_base_sha earlier \<or> pv_base_ref now \<noteq> pv_base_ref earlier
      then ret False
      else seq (of_result (required_nonnegative_int (get_key ''changed_files'' current) ''pull_request.changed_files'')) (\<lambda>n.
        if n \<noteq> expected then ret False
        else seq (of_result (label_names current)) (\<lambda>ls.
          if set ls \<noteq> set label_list then ret False
          else seq (ask_text (GetBranchHead (c_installation (x_job x)) (c_repo (x_job x)) (pv_base_ref earlier))) (\<lambda>sha.
            ret (sha = policy_sha)))))"

definition revalidate ::
  "settings \<Rightarrow> evaluation_context \<Rightarrow> pull_view \<Rightarrow> string list \<Rightarrow> string \<Rightarrow> int \<Rightarrow> bool svc" where
  "revalidate st x earlier label_list policy_sha expected = (let job = x_job x in
     seq (ask_obj (GetPull (c_installation job) (c_repo job) (c_pull job))) (\<lambda>current.
     seq (of_result (pull_objects current)) (\<lambda>(head, base).
     seq (of_result (pull_strings current head base)) (\<lambda>now.
       if pv_state now = ''closed''
       then seq (finish_closed_pull_check st job (x_head x) (x_details x)) (\<lambda>_. ret False)
       else seq (evidence_unchanged x current earlier now label_list policy_sha expected) (\<lambda>same.
         if same then ret True
         else seq (trigger_request job ''pull_request_changed_during_evaluation'' (pv_head now) (pv_base_ref now)) (\<lambda>q.
           seq (do_enqueue_trigger q) (\<lambda>_. ret False)))))))"

text \<open>From the revocation to the audit record.\<close>

definition evaluate_bound ::
  "settings \<Rightarrow> evaluation_context \<Rightarrow> obj \<Rightarrow> pull_view \<Rightarrow> bool \<Rightarrow> string \<times> string option \<Rightarrow> unit svc" where
  "evaluate_bound st x pull view managed early_policy = (let job = x_job x; head = x_head x in
     seq (revoke_previous st x) (\<lambda>go_on. if \<not> go_on then ret ()
     else seq (case c_delivery job of None \<Rightarrow> ret () | Some i \<Rightarrow> do_mark_invalidated i) (\<lambda>_.
     seq (ask_publishable job head) (\<lambda>publishable. if \<not> publishable
       then raise_exc (SharedHeadInvalidationPending ''exact-head invalidation must complete before evaluation'')
     else seq (ask_blocking_authority job (x_base_ref x)) (\<lambda>blocked. if blocked
       then raise_exc (AuthorityChangePending ''accepted authority change is still awaiting durable fan-out'')
     else seq (if managed then branch_policy st job (x_base_ref x) else ret early_policy) (\<lambda>(policy_sha, text_value).
     seq (of_result (required_nonnegative_int (get_key ''changed_files'' pull) ''pull_request.changed_files'')) (\<lambda>expected.
     seq (of_result (label_names pull)) (\<lambda>labels.
     seq (evaluation_result_of st x pull policy_sha text_value expected) (\<lambda>result.
     seq (revalidate st x view labels policy_sha expected) (\<lambda>same. if \<not> same then ret ()
     else seq (publish_result st x result) (\<lambda>published. case published of
         None \<Rightarrow> ret ()
       | Some r \<Rightarrow> seq (ask_env (\<lambda>en _. e_dump en r job)) (\<lambda>dump.
           do_record_audit (c_repo job) (c_pull job) head (conclusion_value r) dump))))))))))))"

text \<open>From the bound claim to the enrollment decision.\<close>

definition evaluate_open :: "settings \<Rightarrow> claimed_job \<Rightarrow> obj \<Rightarrow> pull_view \<Rightarrow> unit svc" where
  "evaluate_open st job pull view = (let head = pv_head view in
     seq (do_observe_base job (pv_base_ref view)) (\<lambda>observed. if \<not> observed then ret ()
     else if c_head job \<noteq> None \<and> c_head job \<noteq> Some head
     then seq (trigger_request job ''head_changed_before_evaluation'' head (pv_base_ref view)) do_enqueue_trigger
     else seq (do_bind_head job head) (\<lambda>bound. case bound of None \<Rightarrow> ret ()
       | Some job \<Rightarrow>
           seq (has_check_run st (c_installation job) (c_repo job) head) (\<lambda>managed.
           seq (if managed then ret ([], None) else branch_policy st job (pv_base_ref view)) (\<lambda>early_policy.
             if \<not> managed \<and> snd early_policy = None then ret ()
             else evaluate_bound st \<lparr>x_job = job, x_head = head, x_base_ref = pv_base_ref view,
                    x_details = details_of pull\<rparr> pull view managed early_policy)))))"

definition evaluate_job :: "settings \<Rightarrow> claimed_job \<Rightarrow> unit svc" where
  "evaluate_job st job =
     (if is_organization_config_repository st (c_repo job) then ret ()
      else seq (ask_obj (GetPull (c_installation job) (c_repo job) (c_pull job))) (\<lambda>pull.
        seq (of_result (pull_objects pull)) (\<lambda>(head, base).
        seq (of_result (canonical_base base)) (\<lambda>canonical. if canonical \<noteq> c_repo job then ret ()
        else seq (of_result (pull_strings pull head base)) (\<lambda>view.
          if pv_state view = ''closed''
          then seq (of_queue (validate_head_sha (case c_head job of None \<Rightarrow> pv_head view
                 | Some h \<Rightarrow> if h = [] then pv_head view else h))) (\<lambda>check_head.
               finish_closed_pull_check st job check_head (details_of pull))
          else evaluate_open st job pull view)))))"

section \<open>Resetting a commit\<close>

definition require_current_reset :: "claimed_head \<Rightarrow> unit svc" where
  "require_current_reset job =
     seq (ask_env e_lost) (\<lambda>lost.
     seq (if lost then ret False else ask_current_reset job) (\<lambda>current.
       if \<not> current then raise_exc (SharedHeadLeaseLost ''shared-head invalidation lease or generation is no longer current'')
       else ret ()))"

definition head_external :: "string \<Rightarrow> string \<Rightarrow> string" where
  "head_external repo head = repo @ ''@'' @ head"

definition reset_locked :: "settings \<Rightarrow> claimed_head \<Rightarrow> (int \<times> string \<times> string) list option svc" where
  "reset_locked st job = (let cur = require_current_reset job in
     seq cur (\<lambda>_.
     seq (existing_check_run_id st (ch_installation job) (ch_repo job) (ch_head job)) (\<lambda>cid.
     seq cur (\<lambda>_. case cid of None \<Rightarrow> ret None
     | Some n \<Rightarrow>
       seq (current_associated_pulls cur (ch_installation job) (ch_repo job) (ch_head job)) (\<lambda>current.
       seq cur (\<lambda>_.
       seq (when_svc (list_ex (open_on_head (ch_head job)) current)
         (reset_check_run st (ch_installation job) (ch_repo job) n RE_EVALUATING
            ''Accepted evidence for this commit is awaiting durable re-evaluation.'' None
            (Some (head_external (ch_repo job) (ch_head job))))) (\<lambda>_. ret (Some current))))))))"

definition fan_out_pull :: "claimed_head \<Rightarrow> int \<times> string \<times> string \<Rightarrow> unit svc" where
  "fan_out_pull job p = (if \<not> open_on_head (ch_head job) p then ret ()
     else seq (require_current_reset job) (\<lambda>_.
       seq (of_queue (make_job_request (ch_installation job) (ch_repo job) (fst p) ''shared_head_invalidation''
              (Some (ch_head job)) (show_work_class (ch_class job)) None None)) (\<lambda>q.
       seq (do_enqueue_for_generation q (ch_generation job)) (\<lambda>current.
         if \<not> current then raise_exc (SharedHeadLeaseLost ''shared-head generation changed during pull-request fan-out'')
         else ret ()))))"

definition invalidate_shared_head :: "settings \<Rightarrow> claimed_head \<Rightarrow> unit svc" where
  "invalidate_shared_head st job =
     seq (check_write_guard (ch_installation job) (ch_head job) (reset_locked st job)) (\<lambda>current. case current of
       None \<Rightarrow> ret ()
     | Some pulls \<Rightarrow> seq (for_each pulls (fan_out_pull job)) (\<lambda>_. require_current_reset job))"

section \<open>The fast path of a trigger\<close>

definition job_pull :: "job_request \<Rightarrow> git_call" where
  "job_pull q = GetPull (q_installation q) (q_repo q) (q_pull q)"

text \<open>\<open>policy_present\<close> is the caller's memoised lookup, when it passes one.\<close>

definition enrolled_now :: "settings \<Rightarrow> (string \<Rightarrow> bool svc) option \<Rightarrow> job_request \<Rightarrow> string \<Rightarrow> bool svc" where
  "enrolled_now st policy_present q base_ref = (case policy_present of
       Some f \<Rightarrow> f base_ref
     | None \<Rightarrow> seq (ask_text (GetBranchHead (q_installation q) (q_repo q) base_ref)) (\<lambda>policy_sha.
         seq (repository_policy_text st (q_installation q) (q_repo q) policy_sha) (\<lambda>t. ret (t \<noteq> None))))"

definition authority_followup_required ::
  "settings \<Rightarrow> (string \<Rightarrow> bool svc) option \<Rightarrow> job_request \<Rightarrow> bool svc" where
  "authority_followup_required st policy_present q =
     seq (ask_obj (job_pull q)) (\<lambda>pull.
     seq (of_result (pull_objects pull)) (\<lambda>(head, base).
     seq (of_result (required_string (get_key ''sha'' head) ''pull_request.head.sha'')) (\<lambda>raw.
     seq (of_queue (validate_head_sha raw)) (\<lambda>head_sha.
     seq (of_result (required_string (get_key ''ref'' base) ''pull_request.base.ref'')) (\<lambda>base_ref.
     seq (of_result (canonical_base base)) (\<lambda>canonical.
       if get_key ''state'' pull \<noteq> JStr ''open'' \<or> Some head_sha \<noteq> q_head q \<or> canonical \<noteq> q_repo q then ret True
       else seq (ask_bool (HasReconciliationCheck (q_installation q) (q_repo q) head_sha (s_check_name st))) (\<lambda>check.
         if check then ret True else enrolled_now st policy_present q base_ref)))))))"

definition NEW_EVIDENCE :: string where
  "NEW_EVIDENCE = ''New review or pull-request evidence arrived; approval is blocked pending re-evaluation.''"

definition queue_live_head :: "job_request \<Rightarrow> string \<Rightarrow> string \<Rightarrow> bool svc" where
  "queue_live_head q head base_ref =
     (if q_head q = None \<or> q_head q = Some head then ret False
      else seq (of_queue (make_job_request (q_installation q) (q_repo q) (q_pull q)
             ''head_changed_before_fast_invalidation'' (Some head) (show_work_class (q_class q)) None (base_hint_of base_ref))) (\<lambda>r.
        seq (do_enqueue_trigger r) (\<lambda>_. ret True)))"

definition reset_accepted_head ::
  "settings \<Rightarrow> (string \<Rightarrow> bool svc) option \<Rightarrow> job_request \<Rightarrow> obj \<Rightarrow> string \<Rightarrow> string \<Rightarrow> string \<Rightarrow> int \<Rightarrow> bool \<Rightarrow> bool svc" where
  "reset_accepted_head st policy_present q pull head base_ref acc_head generation queued =
     (let pending = ask_reset_pending (q_installation q) (q_repo q) acc_head generation;
          external = head_external (q_repo q) acc_head in
      check_write_guard (q_installation q) acc_head (
        seq pending (\<lambda>p. if \<not> p then ret queued
        else seq (existing_check_run_id st (q_installation q) (q_repo q) acc_head) (\<lambda>cid.
          seq (if cid \<noteq> None then ret True else if head \<noteq> acc_head then ret False
               else enrolled_now st policy_present q base_ref) (\<lambda>wanted. if \<not> wanted then ret queued
          else seq pending (\<lambda>p. if \<not> p then ret queued
          else case cid of
              None \<Rightarrow> seq (upsert_check_run st (q_installation q) (q_repo q) acc_head
                  (in_progress RE_EVALUATING NEW_EVIDENCE (details_of pull) external)) (\<lambda>_. ret True)
            | Some n \<Rightarrow> seq (reset_check_run st (q_installation q) (q_repo q) n RE_EVALUATING NEW_EVIDENCE
                  (details_of pull) (Some external)) (\<lambda>_. ret True)))))))"

definition invalidate_for_trigger ::
  "settings \<Rightarrow> (string \<Rightarrow> bool svc) option \<Rightarrow> job_request \<Rightarrow> int option \<Rightarrow> bool svc" where
  "invalidate_for_trigger st policy_present q shared_generation =
     (if is_organization_config_repository st (q_repo q) then ret False
      else seq (ask_obj (job_pull q)) (\<lambda>pull.
        seq (of_result (pull_objects pull)) (\<lambda>(head_obj, base).
        seq (of_result (required_string (get_key ''sha'' head_obj) ''pull_request.head.sha'')) (\<lambda>head.
        seq (of_result (required_string (get_key ''ref'' base) ''pull_request.base.ref'')) (\<lambda>base_ref.
        seq (of_result (required_string (get_key ''state'' pull) ''pull_request.state'')) (\<lambda>pull_state.
        seq (of_result (known_state ''pull request'' pull_state)) (\<lambda>_.
          if pull_state = ''closed'' then ret False
          else seq (queue_live_head q head base_ref) (\<lambda>queued.
            case shared_generation of
              Some g \<Rightarrow> seq (of_queue (validate_head_sha (case q_head q of None \<Rightarrow> [] | Some h \<Rightarrow> h))) (\<lambda>acc_head.
                reset_accepted_head st policy_present q pull head base_ref acc_head g queued)
            | None \<Rightarrow>
                seq (has_check_run st (q_installation q) (q_repo q) head) (\<lambda>managed.
                seq (if managed then ret True else enrolled_now st policy_present q base_ref) (\<lambda>wanted.
                  if \<not> wanted then ret False
                  else seq (check_write_guard (q_installation q) head (seq (upsert_check_run st (q_installation q)
                      (q_repo q) head (in_progress RE_EVALUATING NEW_EVIDENCE (details_of pull)
                        (external_of (q_repo q) (q_pull q) head))) (\<lambda>_. ret ()))) (\<lambda>_. ret True)))))))))))"

end
