(* ===== verification/Service_Logic.thy ===== *)
theory Service_Logic
  imports Service
begin

text \<open>
  A small program logic for the coroutines of \<open>Effects\<close>: triples on the trace with a normal
  and an exceptional postcondition, valid for every environment, and the programs whose
  events all satisfy a predicate, which preserve every property that such events cannot
  break. The rules follow the structure of a program, so the proofs about the service are
  walks over its definition.
\<close>

named_theorems emits_intros \<open>programs whose events satisfy a predicate\<close>

section \<open>Programs and their events\<close>

definition emits :: "(event \<Rightarrow> bool) \<Rightarrow> 'a svc \<Rightarrow> bool" where
  "emits P m \<longleftrightarrow> (\<forall>en w. \<exists>new. w_trace (snd (m en w)) = new @ w_trace w \<and> list_all P new)"

lemma emitsD:
  assumes "emits P m"
  obtains new where "w_trace (snd (m en w)) = new @ w_trace w" and "list_all P new"
  using assms by (auto simp: emits_def)

lemma emits_pure [emits_intros]:
  "emits P (ret x)" "emits P (raise_exc e)" "emits P (of_result r)" "emits P (ask_env f)"
  "emits P (of_queue q)" "emits P (constructed v)" "emits P (json_text j)" "emits P (json_repr j)"
  "emits P (parsed_toml g t)" "emits P (opinion_instant s)"
  by (simp_all add: emits_def ret_def raise_exc_def of_result_def ask_env_def of_queue_def constructed_def
      json_text_def json_repr_def parsed_toml_def opinion_instant_def)

lemma emits_seq [emits_intros]:
  assumes "emits P m" and "\<And>a. emits P (f a)"
  shows "emits P (seq m f)"
  unfolding emits_def
proof (intro allI)
  fix en and w :: world
  obtain r w1 where m: "m en w = (r, w1)" by (cases "m en w")
  from emitsD [OF assms(1), of en w] m obtain new where new: "w_trace w1 = new @ w_trace w" "list_all P new" by auto
  show "\<exists>new. w_trace (snd (seq m f en w)) = new @ w_trace w \<and> list_all P new"
  proof (cases r)
    case (Inl e)
    with m new show ?thesis by (simp add: seq_def)
  next
    case (Inr a)
    from emitsD [OF assms(2), of a en w1] obtain more where
      "w_trace (snd (f a en w1)) = more @ w_trace w1" "list_all P more" by auto
    with m new Inr show ?thesis by (simp add: seq_def)
  qed
qed

lemma emits_handle [emits_intros]:
  assumes "emits P m" and "\<And>e. emits P (h e)"
  shows "emits P (handle m h)"
  unfolding emits_def
proof (intro allI)
  fix en and w :: world
  obtain r w1 where m: "m en w = (r, w1)" by (cases "m en w")
  from emitsD [OF assms(1), of en w] m obtain new where new: "w_trace w1 = new @ w_trace w" "list_all P new" by auto
  show "\<exists>new. w_trace (snd (handle m h en w)) = new @ w_trace w \<and> list_all P new"
  proof (cases r)
    case (Inl e)
    from emitsD [OF assms(2), of e en w1] obtain more where
      "w_trace (snd (h e en w1)) = more @ w_trace w1" "list_all P more" by auto
    with m new Inl show ?thesis by (simp add: handle_def)
  next
    case (Inr a)
    with m new show ?thesis by (simp add: handle_def)
  qed
qed

lemma emits_attempt [emits_intros]: "emits P m \<Longrightarrow> emits P (attempt m)"
  by (auto simp: emits_def attempt_def split_def)

lemma emits_when [emits_intros]: "(b \<Longrightarrow> emits P m) \<Longrightarrow> emits P (when_svc b m)"
  by (simp add: when_svc_def emits_intros)

lemma emits_for_each [emits_intros]: "(\<And>x. emits P (f x)) \<Longrightarrow> emits P (for_each xs f)"
  by (induction xs) (simp_all add: emits_intros)

lemma emits_collect [emits_intros]: "(\<And>x. emits P (f x)) \<Longrightarrow> emits P (collect xs f)"
  by (induction xs) (simp_all add: emits_intros)

lemma emits_run_all:
  assumes "\<forall>m \<in> set ms. emits P m"
  shows "emits P (run_all ms)"
proof -
  let ?step = "\<lambda>en m p. (fst p @ [fst (m en (snd p))], snd (m en (snd p)))"
  have "\<exists>new. w_trace (snd (fold (?step en) ms (rs, w))) = new @ w_trace w \<and> list_all P new" for en rs and w :: world
    using assms
  proof (induction ms arbitrary: rs w)
    case (Cons m ms)
    have "emits P m" using Cons.prems by simp
    from emitsD [OF this, of en w] obtain new where
      n: "w_trace (snd (m en w)) = new @ w_trace w" "list_all P new" .
    from Cons.IH [of "rs @ [fst (m en w)]" "snd (m en w)"] Cons.prems obtain more where
      "w_trace (snd (fold (?step en) ms (rs @ [fst (m en w)], snd (m en w)))) = more @ w_trace (snd (m en w))"
      "list_all P more" by auto
    with n show ?case by simp
  qed simp
  moreover have "snd (run_all ms en w) = snd (fold (?step en) ms ([], w))" for en and w :: world
    by (simp add: run_all_def split_def Let_def)
  ultimately show ?thesis by (simp add: emits_def)
qed

lemma emits_gather [emits_intros]: "(\<And>m. m \<in> set ms \<Longrightarrow> emits P m) \<Longrightarrow> emits P (gather ms)"
  unfolding gather_def by (intro emits_intros emits_run_all) simp

lemma emits_gather2 [emits_intros]: "emits P m \<Longrightarrow> emits P n \<Longrightarrow> emits P (gather2 m n)"
  unfolding gather2_def by (intro emits_intros)

lemma emits_answered:
  assumes "\<And>r. P (GitEvent c r)"
  shows "emits P (ask_obj c)" "emits P (ask_list c)" "emits P (ask_text c)" "emits P (ask_opt_text c)" "emits P (ask_bool c)"
  using assms by (auto simp: emits_def ask_obj_def ask_list_def ask_text_def ask_opt_text_def ask_bool_def
      answered_def log_event_def Let_def)

lemma emits_store_run:
  assumes "\<And>now d x. P (StoreEvent c now d x)"
  shows "emits P (store_run c f)"
  using assms by (auto simp: emits_def store_run_def Let_def split: option.split fault.split sum.split prod.split)

lemma emits_with_guard:
  assumes "emits P body" and "P (Acquired g)" and "P (NotAcquired g)" and "P (Released g)"
  shows "emits P (with_guard g m body)"
  unfolding emits_def
proof (intro allI)
  fix en and w :: world
  obtain r w1 where b: "body en (log_event (Acquired g) w) = (r, w1)" by (cases "body en (log_event (Acquired g) w)")
  from emitsD [OF assms(1), of en "log_event (Acquired g) w"] b obtain new where
    "w_trace w1 = new @ Acquired g # w_trace w" "list_all P new" by (auto simp: log_event_def)
  with b assms(2-4) show "\<exists>new. w_trace (snd (with_guard g m body en w)) = new @ w_trace w \<and> list_all P new"
    by (auto simp: with_guard_def log_event_def split: sum.split bool.split)
qed

lemma emits_cases [emits_intros]:
  "(b \<Longrightarrow> emits P m) \<Longrightarrow> (\<not> b \<Longrightarrow> emits P n) \<Longrightarrow> emits P (if b then m else n)"
  "emits P m \<Longrightarrow> (\<And>y. emits P (f y)) \<Longrightarrow> emits P (case v of None \<Rightarrow> m | Some y \<Rightarrow> f y)"
  "(\<And>a b. emits P (g a b)) \<Longrightarrow> emits P (case p of (a, b) \<Rightarrow> g a b)"
  "emits P m1 \<Longrightarrow> emits P n1 \<Longrightarrow> emits P (case c of True \<Rightarrow> m1 | False \<Rightarrow> n1)"
  by (simp_all split: option.split prod.split bool.split)

lemma emits_mono: "emits P m \<Longrightarrow> (\<And>x. P x \<Longrightarrow> Q x) \<Longrightarrow> emits Q m"
  by (fastforce simp: emits_def list_all_iff)

section \<open>Triples\<close>

definition triple ::
  "(trace \<Rightarrow> bool) \<Rightarrow> 'a svc \<Rightarrow> ('a \<Rightarrow> trace \<Rightarrow> bool) \<Rightarrow> (trace \<Rightarrow> bool) \<Rightarrow> bool" where
  "triple G m Q E \<longleftrightarrow> (\<forall>en w. G (w_trace w) \<longrightarrow>
     (case m en w of (Inr a, w') \<Rightarrow> Q a (w_trace w') | (Inl e, w') \<Rightarrow> E (w_trace w')))"

lemma tripleD:
  assumes "triple G m Q E" and "G (w_trace w)" and "m en w = (r, w')"
  shows "(case r of Inr a \<Rightarrow> Q a (w_trace w') | Inl e \<Rightarrow> E (w_trace w'))"
  using assms(1,2) unfolding triple_def by (auto simp: assms(3) split: sum.splits dest!: spec [of _ en] spec [of _ w])

lemma triple_conseq:
  assumes "triple G m Q E" and "\<And>h. G' h \<Longrightarrow> G h" and "\<And>a h. Q a h \<Longrightarrow> Q' a h" and "\<And>h. E h \<Longrightarrow> E' h"
  shows "triple G' m Q' E'"
  unfolding triple_def
proof (intro allI impI)
  fix en and w :: world
  assume "G' (w_trace w)"
  then have "case m en w of (Inr a, w') \<Rightarrow> Q a (w_trace w') | (Inl e, w') \<Rightarrow> E (w_trace w')"
    using assms(1,2) by (simp add: triple_def)
  then show "case m en w of (Inr a, w') \<Rightarrow> Q' a (w_trace w') | (Inl e, w') \<Rightarrow> E' (w_trace w')"
    using assms(3,4) by (auto split: prod.splits sum.splits)
qed

lemma triple_pre: "triple G m Q E \<Longrightarrow> (\<And>h. G' h \<Longrightarrow> G h) \<Longrightarrow> triple G' m Q E"
  by (rule triple_conseq)

lemma triple_seq:
  assumes "triple G m R E" and "\<And>a. triple (R a) (f a) Q E"
  shows "triple G (seq m f) Q E"
  unfolding triple_def
proof (intro allI impI)
  fix en and w :: world
  assume g: "G (w_trace w)"
  obtain r w1 where m: "m en w = (r, w1)" by (cases "m en w")
  note r = tripleD [OF assms(1) g m]
  show "case seq m f en w of (Inr a, w') \<Rightarrow> Q a (w_trace w') | (Inl e, w') \<Rightarrow> E (w_trace w')"
  proof (cases r)
    case (Inr a)
    then have "R a (w_trace w1)" using r by simp
    with assms(2) m Inr show ?thesis by (simp add: triple_def seq_def)
  qed (use m r in \<open>simp add: seq_def\<close>)
qed

lemma triple_handle:
  assumes "triple G m Q R" and "\<And>e. triple R (h e) Q E"
  shows "triple G (handle m h) Q E"
  unfolding triple_def
proof (intro allI impI)
  fix en and w :: world
  assume g: "G (w_trace w)"
  obtain r w1 where m: "m en w = (r, w1)" by (cases "m en w")
  note r = tripleD [OF assms(1) g m]
  show "case handle m h en w of (Inr a, w') \<Rightarrow> Q a (w_trace w') | (Inl e, w') \<Rightarrow> E (w_trace w')"
  proof (cases r)
    case (Inl e)
    then have "R (w_trace w1)" using r by simp
    with assms(2) [of e] m Inl show ?thesis by (simp add: triple_def handle_def)
  qed (use m r in \<open>simp add: handle_def\<close>)
qed

lemma triple_ret: "(\<And>h. G h \<Longrightarrow> Q a h) \<Longrightarrow> triple G (ret a) Q E"
  by (simp add: triple_def ret_def)

lemma triple_raise: "(\<And>h. G h \<Longrightarrow> E h) \<Longrightarrow> triple G (raise_exc x) Q E"
  by (simp add: triple_def raise_exc_def)

lemma triple_ask_env: "(\<And>a h. G h \<Longrightarrow> Q a h) \<Longrightarrow> triple G (ask_env f) Q E"
  by (simp add: triple_def ask_env_def)

lemma triple_of_result:
  "(\<And>a h. G h \<Longrightarrow> r = Inr a \<Longrightarrow> Q a h) \<Longrightarrow> (\<And>h. G h \<Longrightarrow> E h) \<Longrightarrow> triple G (of_result r) Q E"
  by (auto simp: triple_def of_result_def split: sum.split)

lemma triple_if:
  "(b \<Longrightarrow> triple G m Q E) \<Longrightarrow> (\<not> b \<Longrightarrow> triple G n Q E) \<Longrightarrow> triple G (if b then m else n) Q E"
  by simp

lemma triple_store_run:
  assumes "\<And>now d h x. G h \<Longrightarrow> E (StoreEvent c now d (Some x) # h)"
    and "\<And>now d h d' a. G h \<Longrightarrow> f now d = Inr (d', a) \<Longrightarrow> Q a (StoreEvent c now d None # h)"
  shows "triple G (store_run c f) Q E"
  using assms by (auto simp: triple_def store_run_def Let_def split: option.split fault.split sum.split prod.split)

lemma triple_store_read:
  assumes "\<And>now d h x. G h \<Longrightarrow> E (StoreEvent c now d (Some x) # h)"
    and "\<And>now d h a. G h \<Longrightarrow> f now d = Inr a \<Longrightarrow> Q a (StoreEvent c now d None # h)"
  shows "triple G (store_read c f) Q E"
  unfolding store_read_def by (rule triple_store_run) (use assms in auto)

lemma triple_answered:
  assumes "\<And>h r. G h \<Longrightarrow> E (GitEvent c (Inl r) # h)" and "\<And>h a. G h \<Longrightarrow> Q a (GitEvent c (Inr (wrap a)) # h)"
  shows "triple G (answered get wrap c) Q E"
  using assms by (auto simp: triple_def answered_def log_event_def Let_def split: sum.split)

lemma triple_with_guard:
  assumes "triple (\<lambda>h. \<exists>h0. h = Acquired g # h0 \<and> G h0) body (\<lambda>a h. Q a (Released g # h) \<and> E (Released g # h))
      (\<lambda>h. E (Released g # h))"
    and "\<And>h. G h \<Longrightarrow> E (NotAcquired g # h)"
  shows "triple G (with_guard g m body) Q E"
  unfolding triple_def
proof (intro allI impI)
  fix en and w :: world
  assume g: "G (w_trace w)"
  obtain r w1 where b: "body en (log_event (Acquired g) w) = (r, w1)" by (cases "body en (log_event (Acquired g) w)")
  have "\<exists>h0. w_trace (log_event (Acquired g) w) = Acquired g # h0 \<and> G h0" using g by (simp add: log_event_def)
  note r = tripleD [OF assms(1) this b]
  show "case with_guard g m body en w of (Inr a, w') \<Rightarrow> Q a (w_trace w') | (Inl e, w') \<Rightarrow> E (w_trace w')"
    using b r g assms(2)
    by (auto simp: with_guard_def log_event_def split: sum.splits bool.splits option.splits)
qed

lemma triple_emits:
  assumes "emits P m" and "\<And>h x. G h \<Longrightarrow> P x \<Longrightarrow> G (x # h)"
  shows "triple G m (\<lambda>_. G) G"
  unfolding triple_def
proof (intro allI impI)
  fix en and w :: world
  assume g: "G (w_trace w)"
  from emitsD [OF assms(1), of en w] obtain new where n: "w_trace (snd (m en w)) = new @ w_trace w" "list_all P new" .
  from n(2) g have "G (new @ w_trace w)" by (induction new) (simp_all add: assms(2))
  with n(1) show "case m en w of (Inr a, w') \<Rightarrow> G (w_trace w') | (Inl e, w') \<Rightarrow> G (w_trace w')"
    by (auto split: prod.split sum.split)
qed

text \<open>What a program returns, whatever it does.\<close>

definition returns :: "('a \<Rightarrow> bool) \<Rightarrow> 'a svc \<Rightarrow> bool" where
  "returns Q m \<longleftrightarrow> (\<forall>en w a w'. m en w = (Inr a, w') \<longrightarrow> Q a)"

lemma returns_triple: "returns R m \<Longrightarrow> triple G m (\<lambda>_. Q) E \<Longrightarrow> triple G m (\<lambda>a h. R a \<and> Q h) E"
  by (fastforce simp: returns_def triple_def split: prod.splits sum.splits)

lemma returns_seq:
  assumes "\<And>a. returns Q (f a)"
  shows "returns Q (seq m f)"
  unfolding returns_def
proof (intro allI impI)
  fix en and w :: world and b w'
  assume run: "seq m f en w = (Inr b, w')"
  then obtain a w1 where "m en w = (Inr a, w1)" "f a en w1 = (Inr b, w')"
    by (auto simp: seq_def split: prod.splits sum.splits)
  with assms [of a] show "Q b" by (auto simp: returns_def)
qed

lemma returns_seq_of:
  assumes "returns R m" and "\<And>a. R a \<Longrightarrow> returns Q (f a)"
  shows "returns Q (seq m f)"
  unfolding returns_def
proof (intro allI impI)
  fix en and w :: world and b w'
  assume run: "seq m f en w = (Inr b, w')"
  then obtain a w1 where "m en w = (Inr a, w1)" "f a en w1 = (Inr b, w')"
    by (auto simp: seq_def split: prod.splits sum.splits)
  with assms show "Q b" unfolding returns_def by blast
qed

lemma returns_simps:
  "returns Q (ret a) \<longleftrightarrow> Q a" "returns Q (raise_exc e)"
  by (auto simp: returns_def ret_def raise_exc_def)

end
