(* ===== verification/Service_Quiet.thy ===== *)
theory Service_Quiet
  imports Service_Logic
begin

text \<open>
  Which parts of the service can publish a success: a check-run write carries the conclusion
  \<open>success\<close> only if it is the completed write of \<open>upsert_check_run\<close>, so every other program
  of the service is quiet.
\<close>

section \<open>Writes that show a success\<close>

definition sent_payload :: "git_call \<Rightarrow> obj option" where
  "sent_payload c = (case c of PatchCheckRun _ _ _ p \<Rightarrow> Some p | PostCheckRun _ _ p \<Rightarrow> Some p | _ \<Rightarrow> None)"

definition success_call :: "git_call \<Rightarrow> bool" where
  "success_call c = (case sent_payload c of None \<Rightarrow> False | Some p \<Rightarrow> get_key ''conclusion'' p = JStr ''success'')"

definition success_write :: "event \<Rightarrow> bool" where
  "success_write x = (case x of GitEvent c _ \<Rightarrow> success_call c | _ \<Rightarrow> False)"

lemma success_write_simps [simp]:
  "success_write (GitEvent c r) = success_call c" "\<not> success_write (StoreEvent s now d x)"
  "\<not> success_write (Acquired g)" "\<not> success_write (NotAcquired g)" "\<not> success_write (Released g)"
  by (simp_all add: success_write_def)

lemma success_call_simps [simp]:
  "success_call (PatchCheckRun i repo n p) \<longleftrightarrow> get_key ''conclusion'' p = JStr ''success''"
  "success_call (PostCheckRun i repo p) \<longleftrightarrow> get_key ''conclusion'' p = JStr ''success''"
  by (simp_all add: success_call_def sent_payload_def)

lemma read_call_simps [simp]:
  "\<not> success_call (GetPull i repo n)" "\<not> success_call (ListCommitPulls i repo head)"
  "\<not> success_call (GetBranchHead i repo b)" "\<not> success_call (GetFileText i repo p r)"
  "\<not> success_call (GetPullFiles i repo n)" "\<not> success_call (GetReviews i repo n)"
  "\<not> success_call (GetCodeownersErrors i repo sha)" "\<not> success_call (IncludesRepository i repo n)"
  "\<not> success_call (GetPermission i repo u)" "\<not> success_call (GetTeamMembership i repo t u)"
  "\<not> success_call (GetTeam i repo t)" "\<not> success_call (GetTeamRepository i repo t u)"
  "\<not> success_call (GetUser i u)" "\<not> success_call (HasReconciliationCheck i repo head name)"
  "\<not> success_call (ListCheckRuns i repo head name)" "\<not> success_call (GetCheckRun i repo n)"
  by (simp_all add: success_call_def sent_payload_def)

abbreviation quiet :: "'a svc \<Rightarrow> bool" where
  "quiet \<equiv> emits (\<lambda>x. \<not> success_write x)"

lemma get_key_update [simp]: "get_key k (AList.update k' v ob) = (if k = k' then v else get_key k ob)"
  by (simp add: get_key_def get_or_def update_conv)

lemma get_key_delete [simp]: "get_key k (AList.delete k' ob) = (if k = k' then JNull else get_key k ob)"
  by (simp add: get_key_def get_or_def delete_conv)

lemma get_key_details [simp]: "k \<noteq> ''details_url'' \<Longrightarrow> get_key k (with_details u ob) = get_key k ob"
  by (simp add: with_details_def split: option.split)

lemma get_key_Cons [simp]: "get_key k ((j, v) # ob) = (if j = k then v else get_key k ob)"
  by (simp add: get_key_def get_or_def)

lemma get_key_Nil [simp]: "get_key k [] = JNull"
  by (simp add: get_key_def get_or_def)

lemma quiet_reads [emits_intros]:
  "\<not> success_call c \<Longrightarrow> quiet (ask_obj c)" "\<not> success_call c \<Longrightarrow> quiet (ask_list c)"
  "\<not> success_call c \<Longrightarrow> quiet (ask_text c)" "\<not> success_call c \<Longrightarrow> quiet (ask_opt_text c)"
  "\<not> success_call c \<Longrightarrow> quiet (ask_bool c)"
  by (simp_all add: emits_answered)

lemma quiet_store [emits_intros]:
  "quiet (store_run s f)" "quiet (store_read s g)"
  by (simp_all add: emits_store_run store_read_def)

lemma quiet_guard [emits_intros]: "quiet body \<Longrightarrow> quiet (with_guard g m body)"
  by (simp add: emits_with_guard)

lemma quiet_exc_case [emits_intros]:
  assumes "\<And>a. quiet (f a)" and "\<And>x. quiet (g x)"
  shows "quiet (case r of Inl x \<Rightarrow> g x | Inr a \<Rightarrow> f a)"
  using assms by (simp split: sum.split)

section \<open>The check-run methods\<close>

lemma payload_conclusion:
  "get_key ''conclusion'' (upsert_payload st now cw) =
     (if cw_status cw = ''completed'' then (case cw_conclusion cw of None \<Rightarrow> JNull | Some c \<Rightarrow> JStr c) else JNull)"
  by (simp add: upsert_payload_def)

lemma sent_conclusion:
  "get_key ''conclusion'' (patch_payload now cw (upsert_payload st t cw)) =
     (if cw_status cw = ''completed'' then (case cw_conclusion cw of None \<Rightarrow> JNull | Some c \<Rightarrow> JStr c) else JStr ''failure'')"
  by (simp add: patch_payload_def payload_conclusion)

lemma quiet_checks [emits_intros]:
  "quiet (latest_check_run st i repo head)" "quiet (existing_check_run_id st i repo head)"
  "quiet (has_check_run st i repo head)" "quiet (check_run_is_completed i repo n)"
  "quiet (same_check_id result cid)" "quiet (validate_blocking_check_response result s external)"
  by (auto simp: latest_check_run_def existing_check_run_id_def has_check_run_def check_run_is_completed_def
      same_check_id_def validate_blocking_check_response_def Let_def intro!: emits_intros)

lemma quiet_reset [emits_intros]: "quiet (reset_check_run st i repo n title smry details external)"
  unfolding reset_check_run_def Let_def
  by (intro emits_intros) (simp add: reset_payload_def)

lemma quiet_complete [emits_intros]:
  "verdict \<noteq> ''success'' \<Longrightarrow> quiet (complete_check_run st i repo n verdict title smry details external)"
  unfolding complete_check_run_def Let_def by (intro emits_intros) simp

lemma quiet_send:
  assumes "cw_status cw = ''completed'' \<longrightarrow> cw_conclusion cw \<noteq> Some ''success''"
  shows "quiet (send_check_run i repo head cw cid (upsert_payload st t cw))"
  unfolding send_check_run_def Let_def
  by (intro emits_intros) (use assms in \<open>auto simp: sent_conclusion payload_conclusion split: option.splits if_splits\<close>)

lemma quiet_upsert:
  assumes "cw_status cw = ''completed'' \<longrightarrow> cw_conclusion cw \<noteq> Some ''success''"
  shows "quiet (upsert_check_run st i repo head cw)"
  unfolding upsert_check_run_def Let_def
  by (intro emits_intros quiet_send assms)

lemma quiet_in_progress [emits_intros]: "quiet (upsert_check_run st i repo head (in_progress title smry details external))"
  by (rule quiet_upsert) (simp add: in_progress_def)

section \<open>The evidence collection\<close>

lemma quiet_membership [emits_intros]:
  "quiet (team_member i org slug user)" "quiet (user_can_own_repository i repo user)"
  "quiet (team_can_own_repository i org slug repo)" "quiet (get_user i user)"
  unfolding team_member_def user_can_own_repository_def team_can_own_repository_def get_user_def
  by (auto intro!: emits_intros)

lemma quiet_associated [emits_intros]:
  "quiet before_read \<Longrightarrow> quiet (current_associated_pulls before_read i repo head)"
  unfolding current_associated_pulls_def by (auto intro!: emits_intros)

lemma quiet_unique [emits_intros]: "quiet (head_is_unique_to_pull job head)"
  unfolding head_is_unique_to_pull_def by (auto intro!: emits_intros)

lemma quiet_find_codeowners [emits_intros]: "quiet (find_codeowners i repo sha paths)"
  by (induction paths) (auto intro!: emits_intros)

lemma quiet_policies [emits_intros]:
  "quiet (load_organization_policy st i repo g)" "quiet (repository_policy_text st i repo sha)"
  "quiet (changed_files_of values)"
  unfolding load_organization_policy_def repository_policy_text_def changed_files_of_def Let_def
  by (auto intro!: emits_intros)

lemma quiet_owners [emits_intros]:
  "quiet (human_team_aliases i repo owner user rules)" "quiet (human_owner_evidence i repo owner user rules)"
  unfolding human_team_aliases_def human_owner_evidence_def Let_def
  by (auto intro!: emits_intros)

lemma quiet_apps [emits_intros]: "quiet (validated_apps i ids xs)"
  by (induction xs rule: validated_apps.induct [of _ i ids]) (auto intro!: emits_intros)

lemma quiet_author_identity [emits_intros]: "quiet (pull_request_author_identity pull)"
  unfolding pull_request_author_identity_def by (auto intro!: emits_intros)

lemma quiet_opinion [emits_intros]: "quiet (read_opinion v)"
  unfolding read_opinion_def by (auto intro!: emits_intros split: option.split)

lemma quiet_opinions [emits_intros]: "quiet (latest_opinions vs latest)"
  by (induction vs arbitrary: latest) (auto intro!: emits_intros split: option.split)

lemma quiet_reviews [emits_intros]: "quiet (service_reviews i repo values org rules head n)"
  unfolding service_reviews_def approval_evidence_def review_of_def Let_def
  by (auto intro!: emits_intros)

lemma quiet_evaluated [emits_intros]: "quiet (evaluated data)"
  unfolding evaluated_def by (auto intro!: emits_intros)

lemma quiet_shaped [emits_intros]:
  "quiet (shaped_evidence job pull head org policy rules fs rs)" "quiet (read_evidence job sha)"
  "quiet (evaluation_of st pull head t org policy shaped)" "quiet (codeowners_error_text item)"
  unfolding shaped_evidence_def read_evidence_def evaluation_of_def author_evidence_def codeowners_error_text_def
  by (auto intro!: emits_intros split: option.split json.split)

lemma quiet_collect_and_evaluate [emits_intros]:
  "quiet (collect_and_evaluate st job pull head sha expected org policy t rules)"
  unfolding collect_and_evaluate_def
  by (auto intro!: emits_intros split: sum.split svc_exc.split)

lemma quiet_evaluate_current [emits_intros]: "quiet (evaluate_current st job pull head sha expected policy)"
  unfolding evaluate_current_def Let_def
  by (auto intro!: emits_intros split: sum.split svc_exc.split option.split)

section \<open>The service\<close>

lemma quiet_stores [emits_intros]:
  "quiet (ask_current_claim job)" "quiet (ask_shared_current job head)" "quiet (ask_publishable job head)"
  "quiet (ask_blocking_authority job base)" "quiet (ask_superseding job)" "quiet (ask_reset_pending i repo head g)"
  "quiet (ask_shared_generation i repo head)" "quiet (ask_current_reset ch)" "quiet (do_enqueue_trigger q)"
  "quiet (do_enqueue_for_generation q g)" "quiet (do_observe_base job base)" "quiet (do_bind_head job head)"
  "quiet (do_mark_invalidated i')" "quiet (do_record_audit repo n head v t)"
  by (auto simp: ask_current_claim_def ask_shared_current_def ask_publishable_def ask_blocking_authority_def
      ask_superseding_def ask_reset_pending_def ask_shared_generation_def ask_current_reset_def do_enqueue_trigger_def
      do_enqueue_for_generation_def do_observe_base_def do_bind_head_def do_mark_invalidated_def do_record_audit_def
      intro!: emits_intros)

lemma quiet_guards [emits_intros]:
  "quiet body \<Longrightarrow> quiet (check_write_guard i head body)" "quiet body \<Longrightarrow> quiet (authority_publish_guard i body)"
  by (auto simp: check_write_guard_def authority_publish_guard_def intro!: emits_intros)

lemma quiet_block [emits_intros]: "quiet (x_block st x title smry)" "quiet (trigger_request job reason head base)"
  by (auto simp: x_block_def x_upsert_def trigger_request_def intro!: emits_intros)

lemma quiet_restore [emits_intros]: "quiet (restore_blocking st x)"
  unfolding restore_blocking_def by (auto intro!: emits_intros)

lemma quiet_finish_closed [emits_intros]: "quiet (finish_closed_pull_check st job head details)"
  unfolding finish_closed_pull_check_def by (auto intro!: emits_intros)

lemma quiet_revoke [emits_intros]: "quiet (revoke_previous st x)"
  unfolding revoke_previous_def Let_def by (auto intro!: emits_intros)

lemma quiet_pieces [emits_intros]:
  "quiet (pending_after x)" "quiet (unblock_superseded st x r)" "quiet (branch_policy st job base)"
  "quiet (evaluation_result_of st x pull sha t n)" "quiet (evidence_unchanged x cur v1 v2 ls sha n)"
  unfolding pending_after_def unblock_superseded_def branch_policy_def evaluation_result_of_def evidence_unchanged_def
  by (auto intro!: emits_intros simp: pending_after_def split: sum.split svc_exc.split option.split)

lemma quiet_revalidate [emits_intros]: "quiet (revalidate st x v ls sha n)"
  unfolding revalidate_def Let_def by (auto intro!: emits_intros)

lemma quiet_reset_service:
  "quiet (invalidate_shared_head st ch)"
  unfolding invalidate_shared_head_def reset_locked_def fan_out_pull_def require_current_reset_def Let_def
  by (auto intro!: emits_intros)

lemma quiet_followup:
  assumes "\<And>f base. policy = Some f \<Longrightarrow> quiet (f base)"
  shows "quiet (authority_followup_required st policy q)" "quiet (invalidate_for_trigger st policy q g)"
proof -
  have e: "quiet (enrolled_now st policy q base)" for base
    unfolding enrolled_now_def using assms by (auto intro!: emits_intros split: option.split)
  show "quiet (authority_followup_required st policy q)"
    unfolding authority_followup_required_def job_pull_def by (auto intro!: emits_intros e)
  show "quiet (invalidate_for_trigger st policy q g)"
    unfolding invalidate_for_trigger_def job_pull_def reset_accepted_head_def queue_live_head_def Let_def
    by (auto intro!: emits_intros e)
qed

end
