(* ===== verification/Service_Facts.thy ===== *)
theory Service_Facts
  imports Service_Quiet
begin

text \<open>
  What the evaluation service promises about publishing a success: it is published only
  under both guards, right after the claim and the commit's generation were found current
  and no authority change was pending, on a commit that no other open pull request has, for
  an evaluation of that head that succeeded; and it is confirmed or blocked again before the
  guard is released, whatever fails or is cancelled.
\<close>

lemma failure_conclusion [simp]: "conclusion (failure c m) = FAILURE"
  by (simp add: failure_def error_result_def)

section \<open>The publication\<close>

text \<open>What the trace shows of the commit's pull requests: GitHub's list of them, and a fresh read
  of each, of which only the job's own is open on the head.\<close>

definition proven_unique :: "claimed_job \<Rightarrow> string \<Rightarrow> trace \<Rightarrow> bool" where
  "proven_unique job head seg \<longleftrightarrow> (\<exists>ps observed.
     GitEvent (ListCommitPulls (c_installation job) (c_repo job) head) (Inr (AList ps)) \<in> set seg \<and>
     observe_associated ps [] = Inr observed \<and> c_pull job \<in> fst ` set observed \<and>
     (\<forall>n \<in> fst ` set observed. \<exists>p s sha.
        GitEvent (GetPull (c_installation job) (c_repo job) n) (Inr (AObj p)) \<in> set seg \<and>
        current_pull_identity (c_repo job) n p = Inr (s, sha) \<and> (s = ''open'' \<and> sha = head \<longleftrightarrow> n = c_pull job)))"

definition guards_taken :: "claimed_job \<Rightarrow> string \<Rightarrow> trace \<Rightarrow> trace" where
  "guards_taken job head b = Acquired (HeadGuard (c_installation job) head) # Acquired (AuthorityGuard (c_installation job)) # b"

definition inner_event :: "event \<Rightarrow> bool" where
  "inner_event e \<longleftrightarrow> \<not> success_write e \<and> (\<forall>g. e \<noteq> Released g)"

definition no_pending_authority :: "claimed_job \<Rightarrow> trace \<Rightarrow> bool" where
  "no_pending_authority job seg \<longleftrightarrow> (\<exists>base now d.
     StoreEvent (BlockingAuthority job base) now d None \<in> set seg \<and> \<not> has_blocking_authority d job base)"

text \<open>The trace when the completed write is about to be sent; \<open>u\<close> is whether it is a success.\<close>

definition claim_checked :: "claimed_job \<Rightarrow> string \<Rightarrow> bool \<Rightarrow> trace \<Rightarrow> trace \<Rightarrow> bool" where
  "claim_checked job head u b h \<longleftrightarrow> (\<exists>now d now' d' seg.
     h = StoreEvent (IsCurrentClaim job) now d None # StoreEvent (Publishable job head) now' d' None # seg @
         guards_taken job head b \<and>
     is_current_claim now d job \<and> shared_head_generation_is_publishable d' job head = Inr True \<and>
     list_all inner_event seg \<and> no_pending_authority job seg \<and> (u \<longrightarrow> proven_unique job head seg))"

lemma emits_inner_quiet: "emits inner_event m \<Longrightarrow> quiet m"
  by (erule emits_mono) (simp add: inner_event_def)

lemma inner_event_simps [simp]:
  "inner_event (StoreEvent q now d x)" "inner_event (GitEvent c r) \<longleftrightarrow> \<not> success_call c"
  by (simp_all add: inner_event_def)

lemma inner_reads [emits_intros]:
  "\<not> success_call c \<Longrightarrow> emits inner_event (ask_obj c)" "\<not> success_call c \<Longrightarrow> emits inner_event (ask_list c)"
  "emits inner_event (store_run s f)" "emits inner_event (store_read s g)"
  by (simp_all add: emits_answered emits_store_run store_read_def)

text \<open>Triples for the store questions, on an arbitrary precondition.\<close>

lemma triple_ask_current_claim:
  assumes "\<And>now d x h. G h \<Longrightarrow> E (StoreEvent (IsCurrentClaim job) now d x # h)"
    and "\<And>now d h. G h \<Longrightarrow> Q (is_current_claim now d job) (StoreEvent (IsCurrentClaim job) now d None # h)"
  shows "triple G (ask_current_claim job) Q E"
  unfolding ask_current_claim_def by (rule triple_store_read) (use assms in auto)

lemma triple_ask_publishable:
  assumes "\<And>now d x h. G h \<Longrightarrow> E (StoreEvent (Publishable job head) now d x # h)"
    and "\<And>now d h a. G h \<Longrightarrow> shared_head_generation_is_publishable d job head = Inr a \<Longrightarrow>
      Q a (StoreEvent (Publishable job head) now d None # h)"
  shows "triple G (ask_publishable job head) Q E"
  unfolding ask_publishable_def by (rule triple_store_read) (use assms in auto)

lemma triple_ask_blocking_authority:
  assumes "\<And>now d x h. G h \<Longrightarrow> E (StoreEvent (BlockingAuthority job base) now d x # h)"
    and "\<And>now d h. G h \<Longrightarrow> Q (has_blocking_authority d job base) (StoreEvent (BlockingAuthority job base) now d None # h)"
  shows "triple G (ask_blocking_authority job base) Q E"
  unfolding ask_blocking_authority_def by (rule triple_store_read) (use assms in auto)

section \<open>Uniqueness of the head\<close>

definition read_pull :: "int \<Rightarrow> string \<Rightarrow> int \<Rightarrow> (int \<times> string \<times> string) svc" where
  "read_pull i repo n = seq (ret ()) (\<lambda>_. seq (ask_obj (GetPull i repo n)) (\<lambda>pull.
     seq (of_result (current_pull_identity repo n pull)) (\<lambda>identity. ret (n, identity))))"

definition shown_pull :: "int \<Rightarrow> string \<Rightarrow> trace \<Rightarrow> int \<times> string \<times> string \<Rightarrow> bool" where
  "shown_pull i repo seg x \<longleftrightarrow> (\<exists>p. GitEvent (GetPull i repo (fst x)) (Inr (AObj p)) \<in> set seg \<and>
     current_pull_identity repo (fst x) p = Inr (snd x))"

lemma read_pull_run:
  assumes "read_pull i repo n en w = (r, w')"
  shows "\<exists>ev. w_trace w' = ev # w_trace w \<and> inner_event ev \<and> (\<forall>x. r = Inr x \<longrightarrow> fst x = n \<and> shown_pull i repo [ev] x)"
  using assms by (auto simp: read_pull_def seq_def ret_def ask_obj_def answered_def of_result_def log_event_def
      shown_pull_def Let_def split: prod.splits sum.splits)

lemma shown_pull_more: "shown_pull i repo seg x \<Longrightarrow> set seg \<subseteq> set seg' \<Longrightarrow> shown_pull i repo seg' x"
  by (auto simp: shown_pull_def)

lemma collect_reads:
  assumes "collect ns (read_pull i repo) en w = (r, w')"
  shows "\<exists>seg. w_trace w' = seg @ w_trace w \<and> list_all inner_event seg \<and>
    (\<forall>xs. r = Inr xs \<longrightarrow> map fst xs = ns \<and> list_all (shown_pull i repo seg) xs)"
  using assms
proof (induction ns arbitrary: w r w')
  case Nil
  then show ?case by (auto simp: ret_def)
next
  case (Cons n ns)
  obtain r1 w1 where one: "read_pull i repo n en w = (r1, w1)" by (cases "read_pull i repo n en w")
  from read_pull_run [OF one] obtain ev where ev: "w_trace w1 = ev # w_trace w" "inner_event ev"
    "\<And>x. r1 = Inr x \<Longrightarrow> fst x = n \<and> shown_pull i repo [ev] x" by blast
  show ?case
  proof (cases r1)
    case (Inl e)
    with Cons.prems one ev show ?thesis by (auto simp: seq_def intro!: exI [of _ "[ev]"])
  next
    case (Inr x)
    obtain r2 w2 where more: "collect ns (read_pull i repo) en w1 = (r2, w2)" by (cases "collect ns (read_pull i repo) en w1")
    have w2: "w' = w2" "r = (case r2 of Inl e \<Rightarrow> Inl e | Inr xs \<Rightarrow> Inr (x # xs))"
      using Cons.prems one Inr more by (auto simp: seq_def ret_def split: sum.splits)
    from Cons.IH [OF more] obtain seg where seg: "w_trace w2 = seg @ w_trace w1" "list_all inner_event seg"
      "\<And>xs. r2 = Inr xs \<Longrightarrow> map fst xs = ns \<and> list_all (shown_pull i repo seg) xs" by blast
    have "list_all (shown_pull i repo (seg @ [ev])) xs" if "r2 = Inr xs" for xs
      using seg(3) [OF that] by (auto simp: list_all_iff intro: shown_pull_more)
    moreover have "shown_pull i repo (seg @ [ev]) x"
      using ev(3) [OF Inr] by (auto intro: shown_pull_more)
    ultimately show ?thesis using w2 seg ev Inr
      by (intro exI [of _ "seg @ [ev]"]) (auto split: sum.splits)
  qed
qed

lemma observe_associated_distinct:
  "observe_associated ps obs = Inr res \<Longrightarrow> distinct (map fst obs) \<Longrightarrow> distinct (map fst res)"
proof (induction ps arbitrary: obs)
  case (Cons p ps)
  from Cons.prems(1) obtain x where x: "associated_pull_identity p = Inr x" by auto
  show ?case
  proof (cases "map_of obs (fst x)")
    case None
    then have "fst x \<notin> set (map fst obs)" by (simp add: map_of_eq_None_iff)
    then have "distinct (map fst (obs @ [x]))" using Cons.prems(2) by simp
    moreover have "observe_associated ps (obs @ [x]) = Inr res"
      using Cons.prems(1) x None by (simp add: split_def)
    ultimately show ?thesis using Cons.IH by blast
  next
    case (Some y)
    then have "observe_associated ps obs = Inr res"
      using Cons.prems(1) x by (simp add: split_def split: if_splits)
    then show ?thesis using Cons.IH Cons.prems(2) by blast
  qed
qed simp

lemma unique_run:
  assumes "head_is_unique_to_pull job head en w = (r, w')"
  shows "\<exists>seg. w_trace w' = seg @ w_trace w \<and> list_all inner_event seg \<and> (r = Inr True \<longrightarrow> proven_unique job head seg)"
proof -
  let ?i = "c_installation job" and ?repo = "c_repo job"
  let ?list = "ListCommitPulls ?i ?repo head"
  let ?w1 = "log_event (GitEvent ?list (map_sum id AList (e_list en (w_trace w) ?list))) w"
  have reads: "(\<lambda>number. seq (ret ()) (\<lambda>_. seq (ask_obj (GetPull ?i ?repo number)) (\<lambda>pull.
      seq (of_result (current_pull_identity ?repo number pull)) (\<lambda>identity. ret (number, identity))))) = read_pull ?i ?repo"
    by (simp add: fun_eq_iff read_pull_def)
  note unfolded = assms [unfolded head_is_unique_to_pull_def current_associated_pulls_def reads]
  show ?thesis
  proof (cases "\<exists>ps observed. e_list en (w_trace w) ?list = Inr ps \<and> observe_associated ps [] = Inr observed")
    case False
    then show ?thesis using unfolded
      by (auto simp: seq_def ret_def ask_list_def answered_def of_result_def log_event_def Let_def
          intro!: exI [of _ "[GitEvent ?list _]"] split: sum.splits)
  next
    case True
    then obtain ps observed where ps: "e_list en (w_trace w) ?list = Inr ps" "observe_associated ps [] = Inr observed" by blast
    obtain r2 w2 where more: "collect (sort (map fst observed)) (read_pull ?i ?repo) en ?w1 = (r2, w2)"
      by (cases "collect (sort (map fst observed)) (read_pull ?i ?repo) en ?w1")
    from collect_reads [OF more] obtain seg where seg: "w_trace w2 = seg @ w_trace ?w1" "list_all inner_event seg"
      "\<And>xs. r2 = Inr xs \<Longrightarrow> map fst xs = sort (map fst observed) \<and> list_all (shown_pull ?i ?repo seg) xs" by blast
    have res: "w' = w2" "r = (case r2 of Inl e \<Rightarrow> Inl e
        | Inr xs \<Rightarrow> Inr (set (map fst (filter (open_on_head head) xs)) = {c_pull job}))"
      using unfolded ps more
      by (auto simp: seq_def ret_def ask_list_def answered_def of_result_def Let_def split: sum.splits)
    let ?seg = "seg @ [GitEvent ?list (Inr (AList ps))]"
    have "proven_unique job head ?seg" if "r = Inr True"
    proof -
      from that res(2) obtain xs where xs: "r2 = Inr xs" "set (map fst (filter (open_on_head head) xs)) = {c_pull job}"
        by (auto split: sum.splits)
      note s = seg(3) [OF xs(1)]
      have keys: "fst ` set xs = fst ` set observed" using s by (metis list.set_map set_sort)
      have dist: "distinct (map fst xs)"
        using s observe_associated_distinct [OF ps(2)] by simp
      have "\<exists>p s sha. GitEvent (GetPull ?i ?repo n) (Inr (AObj p)) \<in> set ?seg \<and>
          current_pull_identity ?repo n p = Inr (s, sha) \<and> (s = ''open'' \<and> sha = head \<longleftrightarrow> n = c_pull job)"
        if n: "n \<in> fst ` set observed" for n
      proof -
        from n keys obtain x where x: "x \<in> set xs" "fst x = n" by (metis imageE)
        with s obtain p where p: "GitEvent (GetPull ?i ?repo n) (Inr (AObj p)) \<in> set seg"
          "current_pull_identity ?repo n p = Inr (snd x)" by (auto simp: list_all_iff shown_pull_def)
        have "open_on_head head x \<longleftrightarrow> n = c_pull job"
        proof
          assume "open_on_head head x"
          then have "n \<in> set (map fst (filter (open_on_head head) xs))" using x by force
          with xs(2) show "n = c_pull job" by blast
        next
          assume "n = c_pull job"
          then have "n \<in> set (map fst (filter (open_on_head head) xs))" using xs(2) by blast
          then obtain y where y: "y \<in> set xs" "fst y = n" "open_on_head head y" by auto
          with x dist have "y = x" by (metis eq_key_imp_eq_value prod.collapse)
          with y show "open_on_head head x" by simp
        qed
        with p show ?thesis by (intro exI [of _ p] exI [of _ "fst (snd x)"] exI [of _ "snd (snd x)"])
            (simp add: open_on_head_def)
      qed
      moreover have "c_pull job \<in> fst ` set observed"
        using xs(2) keys by (metis (no_types, lifting) filter_is_subset image_mono insertI1 list.set_map subsetD)
      ultimately show ?thesis using ps(2) unfolding proven_unique_def
        by (intro exI [of _ ps] exI [of _ observed]) auto
    qed
    with res seg ps show ?thesis by (intro exI [of _ ?seg]) (auto simp: log_event_def)
  qed
qed

section \<open>Every success is accounted for\<close>

definition check_lookup :: "claimed_job \<Rightarrow> string \<Rightarrow> event \<Rightarrow> bool" where
  "check_lookup job head e \<longleftrightarrow> (\<exists>name r. e = GitEvent (ListCheckRuns (c_installation job) (c_repo job) head name) r)"

text \<open>The managed check run that the answer to a lookup shows, if the answer is usable; and the
  write that concerns exactly this run, or creates one for the head.\<close>

definition found_run :: "settings \<Rightarrow> svc_exc + git_answer \<Rightarrow> obj option option" where
  "found_run st answer = (case answer of
     Inr (AObj existing) \<Rightarrow> map_option (\<lambda>runs. case find (is_managed_run st) runs of None \<Rightarrow> None | Some v \<Rightarrow> as_obj v)
       (as_list (get_or (JList []) ''check_runs'' existing))
   | _ \<Rightarrow> None)"

definition write_for :: "int \<Rightarrow> string \<Rightarrow> string \<Rightarrow> obj option \<Rightarrow> git_call \<Rightarrow> obj \<Rightarrow> bool" where
  "write_for i repo head run call sent \<longleftrightarrow> (case run of
     None \<Rightarrow> call = PostCheckRun i repo sent \<and> get_key ''head_sha'' sent = JStr head
   | Some x \<Rightarrow> call = PatchCheckRun i repo (run_id x) sent)"

definition lookup_event :: "settings \<Rightarrow> claimed_job \<Rightarrow> string \<Rightarrow> svc_exc + git_answer \<Rightarrow> event" where
  "lookup_event st job head answer = GitEvent (ListCheckRuns (c_installation job) (c_repo job) head (s_check_name st)) answer"

text \<open>After the lookup the blocking write follows at once: a new check in progress, or the
  conclusion failure for the run that was found; unless the lookup itself failed.\<close>

definition begins_block :: "settings \<Rightarrow> claimed_job \<Rightarrow> string \<Rightarrow> svc_exc + git_answer \<Rightarrow> trace \<Rightarrow> bool" where
  "begins_block st job head answer later \<longleftrightarrow> (\<forall>run. found_run st answer = Some run \<longrightarrow>
     (\<exists>call sent reply rest. later = GitEvent call reply # rest \<and>
        write_for (c_installation job) (c_repo job) head run call sent \<and>
        get_key ''status'' sent = JStr (if run = None then ''in_progress'' else ''completed'') \<and>
        (run \<noteq> None \<longrightarrow> get_key ''conclusion'' sent = JStr ''failure'')))"

text \<open>What follows a success, oldest event first: either the claim and the generation are found
  current once later, or before any guard is released the check is looked up and the blocking
  write follows.\<close>

definition resolved :: "settings \<Rightarrow> claimed_job \<Rightarrow> string \<Rightarrow> trace \<Rightarrow> bool" where
  "resolved st job head after \<longleftrightarrow>
     (\<exists>now d now' d' tl. after = StoreEvent (IsCurrentClaim job) now d None # StoreEvent (Publishable job head) now' d' None # tl \<and>
        is_current_claim now d job \<and> shared_head_generation_is_publishable d' job head = Inr True) \<or>
     (\<exists>a answer tl. after = a @ lookup_event st job head answer # tl \<and> begins_block st job head answer tl \<and>
        (\<forall>g. Released g \<notin> set a))"

text \<open>The write \<open>ev\<close> after the lookup \<open>e\<close> shows the result \<open>r\<close>: it concerns the run that was
  found, or creates one for the head, and its output is the rendering of \<open>r\<close>.\<close>

definition shows_result :: "settings \<Rightarrow> claimed_job \<Rightarrow> string \<Rightarrow> evaluation_result \<Rightarrow> event \<Rightarrow> event \<Rightarrow> bool" where
  "shows_result st job head r e ev \<longleftrightarrow> (\<exists>answer run call sent reply marks.
     e = lookup_event st job head answer \<and> found_run st answer = Some run \<and> ev = GitEvent call reply \<and>
     write_for (c_installation job) (c_repo job) head run call sent \<and>
     get_key ''output'' sent = check_texts (check_title r) (summary r @ insecure_note st)
       (check_output (fst marks) (snd marks) r))"

definition tells :: "settings \<Rightarrow> claimed_job \<Rightarrow> string \<Rightarrow> evaluation_result \<Rightarrow> bool \<Rightarrow> event \<Rightarrow> event \<Rightarrow> bool" where
  "tells st job head r u e ev \<longleftrightarrow> u \<and> shows_result st job head r e ev"

definition same_claim :: "claimed_job \<Rightarrow> claimed_job \<Rightarrow> bool" where
  "same_claim job0 job \<longleftrightarrow> c_id job = c_id job0 \<and> c_generation job = c_generation job0 \<and> c_owner job = c_owner job0 \<and>
     c_installation job = c_installation job0 \<and> c_repo job = c_repo job0 \<and> c_pull job = c_pull job0"

definition success_ok ::
  "settings \<Rightarrow> (string \<Rightarrow> evaluation_result \<Rightarrow> bool) \<Rightarrow> claimed_job \<Rightarrow> trace \<Rightarrow> event \<Rightarrow> trace \<Rightarrow> bool" where
  "success_ok st V job0 pre ev after \<longleftrightarrow> (\<exists>job head b e checked r.
     pre = e # checked \<and> check_lookup job head e \<and> claim_checked job head True b checked \<and> same_claim job0 job \<and>
     conclusion r = SUCCESS \<and> V head r \<and> shows_result st job head r e ev \<and> resolved st job head after)"

definition accounted :: "settings \<Rightarrow> (string \<Rightarrow> evaluation_result \<Rightarrow> bool) \<Rightarrow> claimed_job \<Rightarrow> trace \<Rightarrow> bool" where
  "accounted st V job0 h \<longleftrightarrow> (\<forall>post ev pre. h = post @ ev # pre \<longrightarrow> success_write ev \<longrightarrow> success_ok st V job0 pre ev (rev post))"

lemma begins_block_more: "begins_block st job head answer rest \<Longrightarrow> begins_block st job head answer (rest @ later)"
  unfolding begins_block_def by fastforce

lemma resolved_more:
  assumes "resolved st job head after"
  shows "resolved st job head (after @ later)"
proof -
  from assms consider now d now' d' tl where
      "after = StoreEvent (IsCurrentClaim job) now d None # StoreEvent (Publishable job head) now' d' None # tl"
      "is_current_claim now d job" "shared_head_generation_is_publishable d' job head = Inr True"
    | a answer tl where "after = a @ lookup_event st job head answer # tl" "begins_block st job head answer tl"
      "\<forall>g. Released g \<notin> set a"
    unfolding resolved_def by blast
  then show ?thesis
  proof cases
    case 1
    then show ?thesis unfolding resolved_def by (intro disjI1) auto
  next
    case 2
    then show ?thesis unfolding resolved_def
      by (intro disjI2 exI [of _ a] exI [of _ answer] exI [of _ "tl @ later"]) (simp add: begins_block_more)
  qed
qed

lemma accounted_quiet: "accounted st V job0 h \<Longrightarrow> \<not> success_write e \<Longrightarrow> accounted st V job0 (e # h)"
  unfolding accounted_def
proof (intro allI impI)
  fix post ev pre
  assume acc: "\<forall>post ev pre. h = post @ ev # pre \<longrightarrow> success_write ev \<longrightarrow> success_ok st V job0 pre ev (rev post)"
    and e: "\<not> success_write e" and split: "e # h = post @ ev # pre" and ev: "success_write ev"
  then obtain post' where p: "post = e # post'" "h = post' @ ev # pre" by (cases post) auto
  then have "success_ok st V job0 pre ev (rev post')" using acc ev by blast
  then show "success_ok st V job0 pre ev (rev post)"
    unfolding success_ok_def p(1) by (fastforce intro: resolved_more)
qed

lemma accounted_append: "accounted st V job0 h \<Longrightarrow> list_all (\<lambda>e. \<not> success_write e) seg \<Longrightarrow> accounted st V job0 (seg @ h)"
  by (induction seg) (simp_all add: accounted_quiet)

lemma inner_not_success: "list_all inner_event seg \<Longrightarrow> list_all (\<lambda>e. \<not> success_write e) seg"
  by (auto simp: list_all_iff inner_event_def)

lemma claim_checked_accounted: "claim_checked job head u b h \<Longrightarrow> accounted st V job0 b \<Longrightarrow> accounted st V job0 h"
  by (auto simp: claim_checked_def guards_taken_def intro!: accounted_quiet accounted_append inner_not_success)

text \<open>The trace after the completed write: not even looked up, looked up only, or sent.\<close>

definition written :: "claimed_job \<Rightarrow> string \<Rightarrow> (event \<Rightarrow> event \<Rightarrow> bool) \<Rightarrow> trace \<Rightarrow> trace \<Rightarrow> bool" where
  "written job head U h0 h \<longleftrightarrow> h = h0 \<or> (\<exists>e. check_lookup job head e \<and>
     (h = e # h0 \<or> (\<exists>ev. h = ev # e # h0 \<and> (success_write ev \<longrightarrow> U e ev) \<and> (\<forall>g. ev \<noteq> Released g))))"

definition blocked_again :: "settings \<Rightarrow> claimed_job \<Rightarrow> string \<Rightarrow> trace \<Rightarrow> trace \<Rightarrow> bool" where
  "blocked_again st job head h0 h \<longleftrightarrow> (\<exists>later answer. h = later @ lookup_event st job head answer # h0 \<and>
     begins_block st job head answer (rev later) \<and> list_all (\<lambda>e. \<not> success_write e) later)"

lemma lookup_event_looks: "check_lookup job head (lookup_event st job head answer)"
  by (simp add: check_lookup_def lookup_event_def)

lemma check_lookup_quiet: "check_lookup job head e \<Longrightarrow> \<not> success_write e \<and> (\<forall>g. e \<noteq> Released g)"
  by (auto simp: check_lookup_def)

text \<open>Adding one success at the end, once it is resolved.\<close>

lemma accounted_success:
  assumes "accounted st V job0 pre" and "list_all (\<lambda>e. \<not> success_write e) post"
    and "success_write ev \<Longrightarrow> success_ok st V job0 pre ev (rev post)"
  shows "accounted st V job0 (post @ ev # pre)"
proof (cases "success_write ev")
  case False
  with assms show ?thesis by (intro accounted_append accounted_quiet)
next
  case True
  show ?thesis unfolding accounted_def
  proof (intro allI impI)
    fix post' ev' pre'
    assume split: "post @ ev # pre = post' @ ev' # pre'" and ev': "success_write ev'"
    then consider "post = post'" "ev = ev'" "pre = pre'"
      | us where "post = post' @ ev' # us"
      | us where "post' = post @ ev # us" "pre = us @ ev' # pre'"
      by (auto simp: append_eq_append_conv2 append_eq_Cons_conv Cons_eq_append_conv)
    then show "success_ok st V job0 pre' ev' (rev post')"
    proof cases
      case 1
      with assms(3) True show ?thesis by simp
    next
      case 2
      with assms(2) ev' show ?thesis by simp
    next
      case 3
      with assms(1) ev' have "success_ok st V job0 pre' ev' (rev us)" by (simp add: accounted_def)
      then show ?thesis unfolding success_ok_def 3(1) by (fastforce intro: resolved_more)
    qed
  qed
qed

lemma written_resolved:
  assumes "claim_checked job head u b h0" and "accounted st V job0 b" and "same_claim job0 job"
    and "u \<Longrightarrow> conclusion r = SUCCESS \<and> V head r"
    and "written job head (tells st job head r u) h0 h1" and "list_all (\<lambda>e. \<not> success_write e) post"
    and "resolved st job head (rev post)"
  shows "accounted st V job0 (post @ h1)"
proof -
  have h0: "accounted st V job0 h0" using claim_checked_accounted [OF assms(1,2)] .
  from assms(5) consider "h1 = h0" | e where "check_lookup job head e" "h1 = e # h0"
    | e ev where "check_lookup job head e" "h1 = ev # e # h0" "success_write ev \<longrightarrow> tells st job head r u e ev"
    by (auto simp: written_def)
  then show ?thesis
  proof cases
    case 1
    with h0 assms(6) show ?thesis by (simp add: accounted_append)
  next
    case 2
    with h0 assms(6) show ?thesis by (simp add: accounted_append accounted_quiet check_lookup_quiet)
  next
    case 3
    have "success_ok st V job0 (e # h0) ev (rev post)" if w: "success_write ev"
    proof -
      have u: u and sh: "shows_result st job head r e ev" using w 3(3) by (auto simp: tells_def)
      from assms(1) u have c: "claim_checked job head True b h0" by simp
      from assms(4) [OF u] have r: "conclusion r = SUCCESS" "V head r" by simp_all
      show ?thesis unfolding success_ok_def
        by (intro exI [of _ job] exI [of _ head] exI [of _ b] exI [of _ e] exI [of _ h0] exI [of _ r] conjI
            refl 3(1) c assms(3) r sh assms(7))
    qed
    moreover have "accounted st V job0 (e # h0)" using h0 3(1) by (simp add: accounted_quiet check_lookup_quiet)
    ultimately show ?thesis unfolding 3(2) using assms(6) by (intro accounted_success)
  qed
qed

lemma blocked_again_accounted:
  assumes "claim_checked job head u b h0" and "accounted st V job0 b" and "same_claim job0 job"
    and "u \<Longrightarrow> conclusion r = SUCCESS \<and> V head r"
    and "written job head (tells st job head r u) h0 h1" and "list_all inner_event mid" and "blocked_again st job head (mid @ h1) h"
  shows "accounted st V job0 h"
proof -
  from assms(7) obtain later answer where h: "h = (later @ lookup_event st job head answer # mid) @ h1"
    "begins_block st job head answer (rev later)" "list_all (\<lambda>e. \<not> success_write e) later" by (auto simp: blocked_again_def)
  have "\<forall>g. Released g \<notin> set (rev mid)" using assms(6) by (auto simp: list_all_iff inner_event_def)
  then have "resolved st job head (rev (later @ lookup_event st job head answer # mid))"
    using h(2) unfolding resolved_def
    by (intro disjI2 exI [of _ "rev mid"] exI [of _ answer] exI [of _ "rev later"]) simp
  then show ?thesis unfolding h(1)
    using h(3) inner_not_success [OF assms(6)] check_lookup_quiet [OF lookup_event_looks]
    by (intro written_resolved [OF assms(1-5)]) auto
qed

section \<open>The writes of the evaluation\<close>

lemma silent:
  "snd (same_check_id result cid en w) = w" "snd (validate_blocking_check_response result s external en w) = w"
  by (auto simp: same_check_id_def validate_blocking_check_response_def raise_exc_def ret_def split: option.split)

lemma seq_silent:
  assumes "\<And>w. snd (m en w) = w" and "\<And>a w. snd (f a en w) = w"
  shows "snd (seq m f en w) = w"
  using assms by (auto simp: seq_def split: prod.split sum.split) (metis snd_conv)+

lemma seq_ask_env: "seq (ask_env f) g en w = g (f en (w_trace w)) en w"
  by (simp add: seq_def ask_env_def)

lemma ask_obj_silent:
  assumes "\<And>a v. snd (k a en v) = v"
  shows "w_trace (snd (seq (ask_obj c) k en w)) = GitEvent c (map_sum id AObj (e_obj en (w_trace w) c)) # w_trace w"
  using assms by (cases "e_obj en (w_trace w) c") (simp_all add: seq_def ask_obj_def answered_def log_event_def Let_def)

lemma seq_of_Inr [simp]: "seq (of_result (Inr a)) f = f a"
  by (simp add: seq_def of_result_def fun_eq_iff)

lemma seq_step: "m en w = (r, w1) \<Longrightarrow> seq m f en w = (case r of Inl e \<Rightarrow> (Inl e, w1) | Inr a \<Rightarrow> f a en w1)"
  by (simp add: seq_def split: sum.split)

text \<open>The payload of a write after the lookup that found \<open>run\<close>, and what it says.\<close>

definition payload_for :: "settings \<Rightarrow> string \<Rightarrow> check_write \<Rightarrow> obj option \<Rightarrow> obj \<Rightarrow> bool" where
  "payload_for st head cw run sent \<longleftrightarrow> (\<exists>t now. sent = (case run of
     None \<Rightarrow> AList.update ''head_sha'' (JStr head) (upsert_payload st t cw)
   | Some _ \<Rightarrow> patch_payload now cw (upsert_payload st t cw)))"

lemma payload_for_keys:
  assumes "payload_for st head cw run sent"
  shows "run = None \<Longrightarrow> get_key ''head_sha'' sent = JStr head"
    and "get_key ''output'' sent = check_texts (cw_title cw) (cw_summary cw) (cw_text cw)"
    and "get_key ''status'' sent = JStr (if run = None then cw_status cw else ''completed'')"
    and "get_key ''conclusion'' sent =
      (if cw_status cw = ''completed'' then (case cw_conclusion cw of None \<Rightarrow> JNull | Some c \<Rightarrow> JStr c)
       else if run = None then JNull else JStr ''failure'')"
proof -
  from assms obtain t now where sent: "sent = (case run of
       None \<Rightarrow> AList.update ''head_sha'' (JStr head) (upsert_payload st t cw)
     | Some _ \<Rightarrow> patch_payload now cw (upsert_payload st t cw))" unfolding payload_for_def by blast
  show "run = None \<Longrightarrow> get_key ''head_sha'' sent = JStr head" by (simp add: sent)
  have out: "get_key ''output'' (upsert_payload st t cw) = check_texts (cw_title cw) (cw_summary cw) (cw_text cw)"
    "get_key ''status'' (upsert_payload st t cw) = JStr (cw_status cw)" by (simp_all add: upsert_payload_def)
  show "get_key ''output'' sent = check_texts (cw_title cw) (cw_summary cw) (cw_text cw)"
    "get_key ''status'' sent = JStr (if run = None then cw_status cw else ''completed'')"
    by (cases run; simp add: sent out patch_payload_def)+
  show "get_key ''conclusion'' sent =
      (if cw_status cw = ''completed'' then (case cw_conclusion cw of None \<Rightarrow> JNull | Some c \<Rightarrow> JStr c)
       else if run = None then JNull else JStr ''failure'')"
    by (cases run) (simp_all add: sent payload_conclusion sent_conclusion)
qed

lemma send_events:
  obtains call sent reply where
    "w_trace (snd (send_check_run i repo head cw (map_option run_id run) (upsert_payload st t cw) en w)) =
       GitEvent call reply # w_trace w"
    "write_for i repo head run call sent" "payload_for st head cw run sent"
proof -
  let ?cid = "map_option run_id run"
  let ?now = "e_stamp en (w_trace w)"
  let ?sent = "case ?cid of None \<Rightarrow> AList.update ''head_sha'' (JStr head) (upsert_payload st t cw)
    | Some _ \<Rightarrow> patch_payload ?now cw (upsert_payload st t cw)"
  let ?c = "case ?cid of None \<Rightarrow> PostCheckRun i repo ?sent | Some n \<Rightarrow> PatchCheckRun i repo n ?sent"
  let ?k = "\<lambda>result. seq (same_check_id result ?cid) (\<lambda>n. if cw_status cw = ''completed'' then ret n
     else seq (validate_blocking_check_response result (the (as_str (get_key ''status'' ?sent))) (get_key ''external_id'' ?sent))
            (\<lambda>_. ret n))"
  have k: "snd (?k result en v) = v" for result v
    by (intro seq_silent) (auto intro!: seq_silent simp: silent ret_def)
  have run: "send_check_run i repo head cw ?cid (upsert_payload st t cw) en w = seq (ask_obj ?c) ?k en w"
    unfolding send_check_run_def seq_ask_env Let_def by (rule refl)
  have t: "w_trace (snd (send_check_run i repo head cw ?cid (upsert_payload st t cw) en w)) =
      GitEvent ?c (map_sum id AObj (e_obj en (w_trace w) ?c)) # w_trace w"
    unfolding run by (rule ask_obj_silent) (rule k)
  have "payload_for st head cw run ?sent" unfolding payload_for_def
    by (intro exI [of _ t] exI [of _ ?now]) (simp split: option.split)
  moreover have "write_for i repo head run ?c ?sent" by (simp add: write_for_def split: option.split)
  ultimately show thesis using that [OF t] by blast
qed

lemma latest_events:
  assumes "latest_check_run st i repo head en w = (r, w')"
  obtains answer where "w_trace w' = GitEvent (ListCheckRuns i repo head (s_check_name st)) answer # w_trace w"
    and "\<And>run. r = Inr run \<longleftrightarrow> found_run st answer = Some run"
proof -
  let ?c = "ListCheckRuns i repo head (s_check_name st)"
  define answer where "answer = map_sum id AObj (e_obj en (w_trace w) ?c)"
  have "w_trace w' = GitEvent ?c answer # w_trace w \<and> (\<forall>run. r = Inr run \<longleftrightarrow> found_run st answer = Some run)"
  proof (cases "e_obj en (w_trace w) ?c")
    case (Inl x)
    with assms show ?thesis
      by (auto simp: answer_def found_run_def latest_check_run_def seq_def ask_obj_def answered_def log_event_def Let_def)
  next
    case (Inr ob)
    with assms show ?thesis
      by (cases "as_list (get_or (JList []) ''check_runs'' ob)")
        (auto simp: answer_def found_run_def latest_check_run_def seq_def ask_obj_def answered_def log_event_def
          raise_exc_def ret_def Let_def)
  qed
  with that show thesis by blast
qed

text \<open>What a conditional update adds to the trace: the lookup, and the write unless the lookup
  was unusable or the update may skip an unchanged check.\<close>

lemma upsert_events:
  assumes "write_is_consistent cw = Inr ()"
  obtains answer where "w_trace (snd (upsert_check_run st i repo head cw en w)) =
      GitEvent (ListCheckRuns i repo head (s_check_name st)) answer # w_trace w"
    "found_run st answer = None \<or> cw_skip cw"
  | answer run call sent reply where "w_trace (snd (upsert_check_run st i repo head cw en w)) =
      GitEvent call reply # GitEvent (ListCheckRuns i repo head (s_check_name st)) answer # w_trace w"
    "found_run st answer = Some run" "write_for i repo head run call sent" "payload_for st head cw run sent"
proof -
  obtain r w1 where l: "latest_check_run st i repo head en w = (r, w1)" by (cases "latest_check_run st i repo head en w")
  from latest_events [OF l] obtain answer where
    a: "w_trace w1 = GitEvent (ListCheckRuns i repo head (s_check_name st)) answer # w_trace w"
    and f: "\<And>run. r = Inr run \<longleftrightarrow> found_run st answer = Some run" by blast
  let ?fin = "snd (upsert_check_run st i repo head cw en w)"
  show thesis
  proof (cases r)
    case (Inl e)
    then have "?fin = w1" unfolding upsert_check_run_def assms seq_of_Inr seq_step [where m = "latest_check_run st i repo head", OF l] by simp
    moreover have "found_run st answer = None" using f Inl by (cases "found_run st answer") auto
    ultimately show thesis using that(1) a by simp
  next
    case (Inr run)
    then have "?fin = w1 \<and> cw_skip cw \<or>
      ?fin = snd (send_check_run i repo head cw (map_option run_id run) (upsert_payload st (e_stamp en (w_trace w1)) cw) en w1)"
      unfolding upsert_check_run_def assms seq_of_Inr seq_step [where m = "latest_check_run st i repo head", OF l] by (auto simp: seq_ask_env ret_def Let_def)
    then show thesis
    proof
      assume "?fin = w1 \<and> cw_skip cw"
      with that(1) a show thesis by simp
    next
      assume fin: "?fin = snd (send_check_run i repo head cw (map_option run_id run) (upsert_payload st (e_stamp en (w_trace w1)) cw) en w1)"
      obtain call sent reply where ev: "w_trace ?fin = GitEvent call reply # w_trace w1"
        "write_for i repo head run call sent" "payload_for st head cw run sent"
        unfolding fin by (rule send_events)
      have fr: "found_run st answer = Some run" using f Inr by blast
      show thesis by (rule that(2) [OF _ fr ev(2,3)]) (simp add: ev(1) a)
    qed
  qed
qed

lemma in_progress_consistent [simp]: "write_is_consistent (in_progress title smry details external) = Inr ()"
  by (simp add: write_is_consistent_def in_progress_def)

lemma block_lookup_first:
  "\<exists>new answer. w_trace (snd (x_block st x title smry en w)) = new @ lookup_event st (x_job x) (x_head x) answer # w_trace w \<and>
     begins_block st (x_job x) (x_head x) answer (rev new) \<and> list_all (\<lambda>e. \<not> success_write e) new"
proof -
  let ?cw = "in_progress title smry (x_details x) (x_external x)"
  let ?up = "upsert_check_run st (c_installation (x_job x)) (c_repo (x_job x)) (x_head x) ?cw en w"
  have blocks: "begins_block st (x_job x) (x_head x) answer [GitEvent call reply] \<and> \<not> success_call call"
    if "found_run st answer = Some run" "write_for (c_installation (x_job x)) (c_repo (x_job x)) (x_head x) run call sent"
      "payload_for st (x_head x) ?cw run sent" for answer run call sent reply
    using that payload_for_keys [OF that(3)]
    by (auto simp: begins_block_def in_progress_def write_for_def split: option.splits if_splits)
  have up: "\<exists>new answer. w_trace (snd ?up) = new @ lookup_event st (x_job x) (x_head x) answer # w_trace w \<and>
     begins_block st (x_job x) (x_head x) answer (rev new) \<and> list_all (\<lambda>e. \<not> success_write e) new"
  proof (cases rule: upsert_events [OF in_progress_consistent, of st "c_installation (x_job x)" "c_repo (x_job x)" "x_head x"
        title smry "x_details x" "x_external x" en w])
    case (1 answer)
    then have "found_run st answer = None" by (simp add: in_progress_def)
    with 1(1) show ?thesis
      by (intro exI [of _ "[]"] exI [of _ answer]) (simp add: lookup_event_def begins_block_def)
  next
    case (2 answer run call sent reply)
    with blocks [OF 2(2-4), of reply] show ?thesis
      by (intro exI [of _ "[GitEvent call reply]"] exI [of _ answer]) (simp add: lookup_event_def)
  qed
  have "w_trace (snd (x_block st x title smry en w)) = w_trace (snd ?up)"
    by (auto simp: x_block_def x_upsert_def seq_def ret_def split: prod.split sum.split)
  with up show ?thesis by simp
qed

lemma triple_restore:
  "triple (\<lambda>h. h = h0) (restore_blocking st x) (\<lambda>_. blocked_again st (x_job x) (x_head x) h0)
     (blocked_again st (x_job x) (x_head x) h0)"
proof -
  have "blocked_again st (x_job x) (x_head x) (w_trace w) (w_trace (snd (restore_blocking st x en w)))" for en w
  proof -
    have "w_trace (snd (restore_blocking st x en w)) = w_trace (snd (x_block st x RE_EVALUATING
       ''Completed check publication could not be verified; approval is blocked pending re-evaluation.'' en w))"
      by (auto simp: restore_blocking_def seq_def attempt_def ask_env_def raise_exc_def ret_def split: prod.split)
    with block_lookup_first [of st x RE_EVALUATING _ en w] show ?thesis unfolding blocked_again_def by metis
  qed
  then show ?thesis unfolding triple_def by (auto split: prod.split sum.split) (metis snd_conv)+
qed

lemma triple_upsert:
  assumes "\<And>answer run call sent reply. \<lbrakk>found_run st answer = Some run; success_call call;
      write_for (c_installation (x_job x)) (c_repo (x_job x)) (x_head x) run call sent;
      payload_for st (x_head x) cw run sent\<rbrakk> \<Longrightarrow> U (lookup_event st (x_job x) (x_head x) answer) (GitEvent call reply)"
  shows "triple (\<lambda>h. h = h0) (x_upsert st x cw) (\<lambda>_. written (x_job x) (x_head x) U h0) (written (x_job x) (x_head x) U h0)"
proof -
  let ?i = "c_installation (x_job x)" and ?repo = "c_repo (x_job x)" and ?head = "x_head x"
  have "written (x_job x) ?head U (w_trace w) (w_trace (snd (upsert_check_run st ?i ?repo ?head cw en w)))" for en w
  proof (cases "write_is_consistent cw")
    case (Inl e)
    then show ?thesis by (simp add: upsert_check_run_def seq_def of_result_def written_def)
  next
    case (Inr y)
    then have "write_is_consistent cw = Inr ()" by simp
    then show ?thesis
    proof (cases rule: upsert_events [of cw st ?i ?repo ?head en w])
      case (1 answer)
      show ?thesis unfolding written_def
        by (rule disjI2, rule exI [of _ "lookup_event st (x_job x) ?head answer"], rule conjI, rule lookup_event_looks,
            rule disjI1) (simp add: lookup_event_def 1(1))
    next
      case (2 answer run call sent reply)
      have w: "success_call call \<Longrightarrow> U (lookup_event st (x_job x) ?head answer) (GitEvent call reply)"
        using assms [OF 2(2) _ 2(3,4)] .
      show ?thesis unfolding written_def
        by (rule disjI2, rule exI [of _ "lookup_event st (x_job x) ?head answer"], rule conjI, rule lookup_event_looks,
            rule disjI2, rule exI [of _ "GitEvent call reply"]) (use w in \<open>simp add: lookup_event_def 2(1)\<close>)
    qed
  qed
  moreover have "snd (x_upsert st x cw en w) = snd (upsert_check_run st ?i ?repo ?head cw en w)" for en w
    by (auto simp: x_upsert_def seq_def ret_def split: prod.split sum.split)
  ultimately have "written (x_job x) ?head U (w_trace w) (w_trace (snd (x_upsert st x cw en w)))" for en w
    by metis
  then show ?thesis unfolding triple_def by (auto split: prod.split sum.split) (metis snd_conv)+
qed

text \<open>The completed write tells the result, and is a success only if the result is one.\<close>

lemma triple_completed_write:
  "triple (\<lambda>h. h = h0) (x_upsert st x (completed_write st x marks r))
     (\<lambda>_. written (x_job x) (x_head x) (tells st (x_job x) (x_head x) r (conclusion r = SUCCESS)) h0)
     (written (x_job x) (x_head x) (tells st (x_job x) (x_head x) r (conclusion r = SUCCESS)) h0)"
proof (rule triple_upsert)
  fix answer run call sent reply
  let ?cw = "completed_write st x marks r"
  assume f: "found_run st answer = Some run" and s: "success_call call"
    and w: "write_for (c_installation (x_job x)) (c_repo (x_job x)) (x_head x) run call sent"
    and p: "payload_for st (x_head x) ?cw run sent"
  note keys = payload_for_keys [OF p]
  have "get_key ''conclusion'' sent = JStr ''success''" using s w by (auto simp: write_for_def split: option.splits)
  then have "conclusion r = SUCCESS" unfolding keys(4)
    by (simp add: completed_write_def conclusion_value_def split: evaluation_conclusion.splits)
  moreover have "get_key ''output'' sent = check_texts (check_title r) (summary r @ insecure_note st)
      (check_output (fst marks) (snd marks) r)" unfolding keys(2) by (simp add: completed_write_def)
  ultimately show "tells st (x_job x) (x_head x) r (conclusion r = SUCCESS)
      (lookup_event st (x_job x) (x_head x) answer) (GitEvent call reply)"
    unfolding tells_def shows_result_def using f w
    by (intro conjI exI [of _ answer] exI [of _ run] exI [of _ call] exI [of _ sent] exI [of _ reply] exI [of _ marks]) simp_all
qed

section \<open>The guarded publication\<close>

lemma triple_point: "(\<And>h0. G h0 \<Longrightarrow> triple (\<lambda>h. h = h0) m Q E) \<Longrightarrow> triple G m Q E"
  by (simp add: triple_def)

lemma triple_restoring:
  assumes "triple G m Q R"
    and "\<And>h h'. R h \<Longrightarrow> blocked_again st (x_job x) (x_head x) h h' \<Longrightarrow> E h'"
  shows "triple G (restoring st x m) Q E"
  unfolding restoring_def
proof (rule triple_handle [OF assms(1)], rule triple_point)
  fix e h0
  assume h0: "R h0"
  show "triple (\<lambda>h. h = h0) (seq (restore_blocking st x) (\<lambda>_. raise_exc e)) Q E"
  proof (rule triple_seq [of _ _ "\<lambda>_. E"])
    show "triple (\<lambda>h. h = h0) (restore_blocking st x) (\<lambda>_. E) E"
      by (rule triple_conseq [OF triple_restore]) (use assms(2) [OF h0] in auto)
  qed (auto intro: triple_raise)
qed

lemma triple_upsert_point:
  "triple G (x_upsert st x (completed_write st x marks r))
    (\<lambda>_ h. \<exists>h0. G h0 \<and> written (x_job x) (x_head x) (tells st (x_job x) (x_head x) r (conclusion r = SUCCESS)) h0 h)
    (\<lambda>h. \<exists>h0. G h0 \<and> written (x_job x) (x_head x) (tells st (x_job x) (x_head x) r (conclusion r = SUCCESS)) h0 h)"
  by (rule triple_point) (rule triple_conseq [OF triple_completed_write], auto)

definition confirmed :: "settings \<Rightarrow> evaluation_context \<Rightarrow> evaluation_result \<Rightarrow> bool \<Rightarrow> trace \<Rightarrow> bool \<Rightarrow> trace \<Rightarrow> bool" where
  "confirmed st x r u b ok h \<longleftrightarrow> (\<exists>h0 h1 mid. claim_checked (x_job x) (x_head x) u b h0 \<and> written (x_job x) (x_head x) (tells st (x_job x) (x_head x) r u) h0 h1 \<and>
     h = mid @ h1 \<and> list_all inner_event mid \<and> (ok \<longrightarrow> resolved st (x_job x) (x_head x) (rev mid)))"

lemma confirmed_accounted:
  assumes "confirmed st x r u b True h" and "accounted st V job0 b" and "same_claim job0 (x_job x)"
    and "u \<Longrightarrow> conclusion r = SUCCESS \<and> V (x_head x) r"
  shows "accounted st V job0 h"
  using assms(1) unfolding confirmed_def
  by (auto intro!: written_resolved [OF _ assms(2,3) assms(4)] inner_not_success)

lemma confirmed_blocked:
  assumes "confirmed st x r u b ok h" and "accounted st V job0 b" and "same_claim job0 (x_job x)"
    and "u \<Longrightarrow> conclusion r = SUCCESS \<and> V (x_head x) r"
    and "blocked_again st (x_job x) (x_head x) h h'"
  shows "accounted st V job0 h'"
  using assms(1,5) unfolding confirmed_def
  by (auto intro: blocked_again_accounted [OF _ assms(2,3) assms(4)])

lemma confirmed_mid:
  assumes "claim_checked (x_job x) (x_head x) u b h0" and "written (x_job x) (x_head x) (tells st (x_job x) (x_head x) r u) h0 h1"
    and "h = mid @ h1" and "list_all inner_event mid" and "ok \<Longrightarrow> resolved st (x_job x) (x_head x) (rev mid)"
  shows "confirmed st x r u b ok h"
  using assms unfolding confirmed_def by blast

definition completing :: "settings \<Rightarrow> evaluation_context \<Rightarrow> evaluation_result \<Rightarrow> bool \<Rightarrow> trace \<Rightarrow> trace \<Rightarrow> bool" where
  "completing st x r u b h \<longleftrightarrow> (\<exists>h0. claim_checked (x_job x) (x_head x) u b h0 \<and> written (x_job x) (x_head x) (tells st (x_job x) (x_head x) r u) h0 h)"

lemma triple_confirmation:
  "triple (completing st x r u b)
     (seq (ask_current_claim (x_job x)) (\<lambda>c. seq (ask_publishable (x_job x) (x_head x)) (\<lambda>s. ret (c \<and> s))))
     (confirmed st x r u b) (confirmed st x r u b False)"
proof (rule triple_point)
  fix h1
  assume "completing st x r u b h1"
  then obtain h0 where h: "claim_checked (x_job x) (x_head x) u b h0" "written (x_job x) (x_head x) (tells st (x_job x) (x_head x) r u) h0 h1"
    by (auto simp: completing_def)
  let ?job = "x_job x" and ?head = "x_head x"
  let ?R = "\<lambda>c h. \<exists>now d. c = is_current_claim now d ?job \<and> h = StoreEvent (IsCurrentClaim ?job) now d None # h1"
  have one: "confirmed st x r u b False (e # h1)" if "inner_event e" for e
    by (rule confirmed_mid [OF h, of _ "[e]"]) (use that in simp_all)
  have two: "confirmed st x r u b ok (e' # e # h1)"
    if "inner_event e" "inner_event e'" "ok \<Longrightarrow> resolved st ?job ?head [e, e']" for e e' ok
    by (rule confirmed_mid [OF h, of _ "[e', e]"]) (use that in simp_all)
  show "triple (\<lambda>h. h = h1) (seq (ask_current_claim ?job) (\<lambda>c. seq (ask_publishable ?job ?head) (\<lambda>s. ret (c \<and> s))))
     (confirmed st x r u b) (confirmed st x r u b False)"
  proof (rule triple_seq [of _ _ ?R])
    show "triple (\<lambda>h. h = h1) (ask_current_claim ?job) ?R (confirmed st x r u b False)"
      by (rule triple_ask_current_claim) (auto intro: one)
  next
    fix c
    let ?S = "\<lambda>s h. \<exists>now d now' d'. c = is_current_claim now d ?job \<and> shared_head_generation_is_publishable d' ?job ?head = Inr s \<and>
      h = StoreEvent (Publishable ?job ?head) now' d' None # StoreEvent (IsCurrentClaim ?job) now d None # h1"
    show "triple (?R c) (seq (ask_publishable ?job ?head) (\<lambda>s. ret (c \<and> s))) (confirmed st x r u b) (confirmed st x r u b False)"
    proof (rule triple_seq [of _ _ ?S])
      show "triple (?R c) (ask_publishable ?job ?head) ?S (confirmed st x r u b False)"
      proof (rule triple_ask_publishable)
        show "confirmed st x r u b False (StoreEvent (Publishable ?job ?head) now d e # h)" if "?R c h" for now d e h
          using that by (elim exE conjE) (simp add: two)
      qed blast
    next
      fix s
      have "confirmed st x r u b (c \<and> s) h" if S: "?S s h" for h
      proof -
        from S obtain now d now' d' where o: "c = is_current_claim now d ?job"
          "shared_head_generation_is_publishable d' ?job ?head = Inr s"
          "h = StoreEvent (Publishable ?job ?head) now' d' None # StoreEvent (IsCurrentClaim ?job) now d None # h1" by blast
        show ?thesis unfolding o(3)
        proof (rule two)
          assume ok: "c \<and> s"
          show "resolved st ?job ?head [StoreEvent (IsCurrentClaim ?job) now d None, StoreEvent (Publishable ?job ?head) now' d' None]"
            unfolding resolved_def
            by (rule disjI1, rule exI [of _ now], rule exI [of _ d], rule exI [of _ now'], rule exI [of _ d'], rule exI [of _ "[]"])
              (use ok o(1,2) in simp)
        qed simp_all
      qed
      then show "triple (?S s) (ret (c \<and> s)) (confirmed st x r u b) (confirmed st x r u b False)"
        by (rule triple_ret)
    qed
  qed
qed

lemma completing_blocked:
  assumes "completing st x r u b h" and "accounted st V job0 b" and "same_claim job0 (x_job x)"
    and "u \<Longrightarrow> conclusion r = SUCCESS \<and> V (x_head x) r"
    and "blocked_again st (x_job x) (x_head x) h h'"
  shows "accounted st V job0 h'"
  using assms(1,5) unfolding completing_def
  by (elim exE conjE) (rule blocked_again_accounted [OF _ assms(2,3) assms(4), where mid = "[]"], simp_all)

text \<open>Sending the completed write, confirming it, and blocking again when that fails.\<close>

definition publish_tail :: "settings \<Rightarrow> evaluation_context \<Rightarrow> evaluation_result \<Rightarrow> evaluation_result option svc" where
  "publish_tail st x r =
     seq (ask_env (\<lambda>en _. e_marks en)) (\<lambda>marks.
     seq (restoring st x (x_upsert st x (completed_write st x marks r))) (\<lambda>_.
     seq (restoring st x (seq (ask_current_claim (x_job x)) (\<lambda>c. seq (ask_publishable (x_job x) (x_head x)) (\<lambda>s. ret (c \<and> s))))) (\<lambda>ok.
       if \<not> ok then seq (restore_blocking st x) (\<lambda>_. ret None) else ret (Some r))))"

lemma triple_publish_tail:
  assumes "accounted st V job0 b" and "same_claim job0 (x_job x)" and "conclusion r = SUCCESS \<Longrightarrow> V (x_head x) r"
  defines "u \<equiv> conclusion r = SUCCESS"
  shows "triple (claim_checked (x_job x) (x_head x) u b) (publish_tail st x r) (\<lambda>_. accounted st V job0) (accounted st V job0)"
  unfolding publish_tail_def
proof (rule triple_seq)
  have u: "u \<Longrightarrow> conclusion r = SUCCESS \<and> V (x_head x) r" using assms(3) by (simp add: u_def)
  show "triple (claim_checked (x_job x) (x_head x) u b) (ask_env (\<lambda>en _. e_marks en))
      (\<lambda>_. claim_checked (x_job x) (x_head x) u b) (accounted st V job0)"
    by (rule triple_ask_env)
  fix marks
  show "triple (claim_checked (x_job x) (x_head x) u b)
    (seq (restoring st x (x_upsert st x (completed_write st x marks r))) (\<lambda>_.
     seq (restoring st x (seq (ask_current_claim (x_job x)) (\<lambda>c. seq (ask_publishable (x_job x) (x_head x)) (\<lambda>s. ret (c \<and> s))))) (\<lambda>ok.
       if \<not> ok then seq (restore_blocking st x) (\<lambda>_. ret None) else ret (Some r))))
    (\<lambda>_. accounted st V job0) (accounted st V job0)"
  proof (rule triple_seq [of _ _ "\<lambda>_. completing st x r u b"])
    show "triple (claim_checked (x_job x) (x_head x) u b) (restoring st x (x_upsert st x (completed_write st x marks r)))
        (\<lambda>_. completing st x r u b) (accounted st V job0)"
      by (rule triple_restoring [where R = "completing st x r u b"])
        (rule triple_conseq [OF triple_upsert_point [of "claim_checked (x_job x) (x_head x) u b"]],
          simp_all add: completing_def [abs_def] u_def completing_blocked [OF _ assms(1,2) u, unfolded completing_def])
  next
    fix a :: unit
    show "triple (completing st x r u b)
      (seq (restoring st x (seq (ask_current_claim (x_job x)) (\<lambda>c. seq (ask_publishable (x_job x) (x_head x)) (\<lambda>s. ret (c \<and> s))))) (\<lambda>ok.
        if \<not> ok then seq (restore_blocking st x) (\<lambda>_. ret None) else ret (Some r)))
      (\<lambda>_. accounted st V job0) (accounted st V job0)"
    proof (rule triple_seq)
      show "triple (completing st x r u b) (restoring st x (seq (ask_current_claim (x_job x))
          (\<lambda>c. seq (ask_publishable (x_job x) (x_head x)) (\<lambda>s. ret (c \<and> s))))) (confirmed st x r u b) (accounted st V job0)"
        by (rule triple_restoring [OF triple_confirmation]) (rule confirmed_blocked [OF _ assms(1,2) u])
      fix ok
      show "triple (confirmed st x r u b ok) (if \<not> ok then seq (restore_blocking st x) (\<lambda>_. ret None) else ret (Some r))
        (\<lambda>_. accounted st V job0) (accounted st V job0)"
      proof (rule triple_if)
        assume "\<not> ok"
        show "triple (confirmed st x r u b ok) (seq (restore_blocking st x) (\<lambda>_. ret None)) (\<lambda>_. accounted st V job0) (accounted st V job0)"
        proof (rule triple_seq [of _ _ "\<lambda>_. accounted st V job0"])
          show "triple (confirmed st x r u b ok) (restore_blocking st x) (\<lambda>_. accounted st V job0) (accounted st V job0)"
            by (rule triple_point) (rule triple_conseq [OF triple_restore], auto intro: confirmed_blocked [OF _ assms(1,2) u])
        qed (simp add: triple_ret)
      qed (auto intro!: triple_ret intro: confirmed_accounted [OF _ assms(1,2) u])
    qed
  qed
qed

text \<open>Everything under the guards before the completed write: the segment since the guards were
  taken holds no success and satisfies \<open>P\<close>.\<close>

definition under_guards :: "claimed_job \<Rightarrow> string \<Rightarrow> trace \<Rightarrow> (trace \<Rightarrow> bool) \<Rightarrow> trace \<Rightarrow> bool" where
  "under_guards job head b P h \<longleftrightarrow> (\<exists>seg. h = seg @ guards_taken job head b \<and> list_all inner_event seg \<and> P seg)"

lemma under_guards_add:
  "under_guards job head b P h \<Longrightarrow> inner_event e \<Longrightarrow> (\<And>seg. P seg \<Longrightarrow> P' (e # seg)) \<Longrightarrow> under_guards job head b P' (e # h)"
  unfolding under_guards_def by (elim exE conjE) (rule_tac x = "e # seg" in exI, simp)

lemma under_guards_accounted: "under_guards job head b P h \<Longrightarrow> accounted st V job0 b \<Longrightarrow> accounted st V job0 h"
  by (auto simp: under_guards_def guards_taken_def intro!: accounted_quiet accounted_append inner_not_success)

lemma no_pending_authority_more: "no_pending_authority job seg \<Longrightarrow> no_pending_authority job (seg' @ seg)"
  unfolding no_pending_authority_def by fastforce

lemma unasked: "\<not> has_blocking_authority d job base \<Longrightarrow>
    no_pending_authority job (StoreEvent (BlockingAuthority job base) now d None # seg)"
  unfolding no_pending_authority_def by (intro exI [of _ base] exI [of _ now] exI [of _ d]) simp

lemma proven_unique_more: "proven_unique job head seg \<Longrightarrow> proven_unique job head (seg @ seg')"
  unfolding proven_unique_def
  by (elim exE conjE, rule_tac x = ps in exI, rule_tac x = observed in exI) fastforce

lemma triple_unique:
  assumes "accounted st V job0 b"
  shows "triple (under_guards job head b (no_pending_authority job)) (head_is_unique_to_pull job head)
    (\<lambda>unique. under_guards job head b (\<lambda>seg. no_pending_authority job seg \<and> (unique \<longrightarrow> proven_unique job head seg)))
    (accounted st V job0)"
  unfolding triple_def
proof (intro allI impI)
  fix en and w :: world
  assume pre: "under_guards job head b (no_pending_authority job) (w_trace w)"
  then obtain seg where seg: "w_trace w = seg @ guards_taken job head b" "list_all inner_event seg" "no_pending_authority job seg"
    by (auto simp: under_guards_def)
  obtain r w' where run: "head_is_unique_to_pull job head en w = (r, w')" by (cases "head_is_unique_to_pull job head en w")
  from unique_run [OF run] obtain seg' where seg': "w_trace w' = seg' @ w_trace w" "list_all inner_event seg'"
    "r = Inr True \<longrightarrow> proven_unique job head seg'" by blast
  have "under_guards job head b (\<lambda>seg. no_pending_authority job seg \<and> (r = Inr True \<longrightarrow> proven_unique job head seg)) (w_trace w')"
    unfolding under_guards_def
    by (rule exI [of _ "seg' @ seg"])
      (use seg seg' in \<open>auto intro: no_pending_authority_more proven_unique_more\<close>)
  with run under_guards_accounted [OF this assms] show "case head_is_unique_to_pull job head en w of
      (Inr unique, w') \<Rightarrow> under_guards job head b (\<lambda>seg. no_pending_authority job seg \<and> (unique \<longrightarrow> proven_unique job head seg)) (w_trace w')
    | (Inl e, w') \<Rightarrow> accounted st V job0 (w_trace w')"
    by (auto split: sum.split)
qed

lemma publish_locked_eq:
  "publish_locked st x result = (let job = x_job x; head = x_head x in
     seq (ask_current_claim job) (\<lambda>current. if \<not> current then ret None
     else seq (ask_publishable job head) (\<lambda>open1. if \<not> open1 then ret None
     else seq (ask_blocking_authority job (x_base_ref x)) (\<lambda>blocked.
       if blocked then raise_exc (AuthorityChangePending ''accepted authority change arrived during evaluation'')
     else seq (if conclusion result = SUCCESS then head_is_unique_to_pull job head else ret True) (\<lambda>unique.
     seq (ask_publishable job head) (\<lambda>open2. if \<not> open2 then ret None
     else seq (ask_current_claim job) (\<lambda>still. if \<not> still then ret None
     else publish_tail st x (if unique then result else shared_head_failure))))))))"
  unfolding publish_locked_def publish_tail_def Let_def by (rule refl)

lemma triple_stop: "(\<And>h. G h \<Longrightarrow> accounted st V job0 h) \<Longrightarrow> triple G (ret a) (\<lambda>_. accounted st V job0) (accounted st V job0)"
  by (rule triple_ret)

lemma triple_publish_locked:
  assumes b: "accounted st V job0 b" and "same_claim job0 (x_job x)" and "conclusion result = SUCCESS \<Longrightarrow> V (x_head x) result"
  shows "triple (\<lambda>h. h = guards_taken (x_job x) (x_head x) b) (publish_locked st x result)
    (\<lambda>_. accounted st V job0) (accounted st V job0)"
  unfolding publish_locked_eq Let_def
proof -
  let ?job = "x_job x" and ?head = "x_head x"
  let ?I = "under_guards ?job ?head b"
  let ?acc = "\<lambda>_. accounted st V job0" and ?E = "accounted st V job0"
  note acc = under_guards_accounted [OF _ b]
  let ?unique = "\<lambda>unique seg. no_pending_authority ?job seg \<and> (conclusion result = SUCCESS \<and> unique \<longrightarrow> proven_unique ?job ?head seg)"
  let ?open = "\<lambda>unique o2 h. if o2 then \<exists>now d h'. h = StoreEvent (Publishable ?job ?head) now d None # h' \<and> ?I (?unique unique) h' \<and>
      shared_head_generation_is_publishable d ?job ?head = Inr True else ?E h"
  let ?last = "\<lambda>unique still h. if still then claim_checked ?job ?head (conclusion result = SUCCESS \<and> unique) b h else ?E h"
  let ?any = "\<lambda>_. True"
  have tail: "triple (?last unique True) (publish_tail st x (if unique then result else shared_head_failure)) ?acc ?E" for unique
  proof -
    let ?r = "if unique then result else shared_head_failure"
    have r: "conclusion ?r = SUCCESS \<Longrightarrow> V ?head ?r" "(conclusion ?r = SUCCESS) = (conclusion result = SUCCESS \<and> unique)"
      using assms(3) by (simp_all add: shared_head_failure_def failure_conclusion split: if_splits)
    show ?thesis using triple_publish_tail [OF b assms(2) r(1)] unfolding r(2) by simp
  qed
  have opened: "?E (StoreEvent q now' d' e # StoreEvent (Publishable ?job ?head) now d None # h)" "?E (StoreEvent q now' d' e # h)"
    "?E h" if "?I P h" for q now d now' d' e h P
    using acc [OF that] by (simp_all add: accounted_quiet)
  have last: "triple (?open unique True) (seq (ask_current_claim ?job) (\<lambda>still. if \<not> still then ret None
      else publish_tail st x (if unique then result else shared_head_failure))) ?acc ?E" for unique
  proof (rule triple_seq [of _ _ "?last unique"])
    show "triple (?open unique True) (ask_current_claim ?job) (?last unique) ?E"
    proof (rule triple_ask_current_claim)
      fix now d h
      assume "?open unique True h"
      then obtain now0 d0 h' where h: "h = StoreEvent (Publishable ?job ?head) now0 d0 None # h'" "?I (?unique unique) h'"
        "shared_head_generation_is_publishable d0 ?job ?head = Inr True" by auto
      show "?E (StoreEvent (IsCurrentClaim ?job) now d e # h)" for e unfolding h(1) using opened(1) [OF h(2)] .
      show "?last unique (is_current_claim now d ?job) (StoreEvent (IsCurrentClaim ?job) now d None # h)"
      proof (cases "is_current_claim now d ?job")
        case True
        with h show ?thesis unfolding claim_checked_def under_guards_def by auto
      next
        case False
        then show ?thesis unfolding h(1) using opened(1) [OF h(2)] by simp
      qed
    qed
    show "triple (?last unique still) (if \<not> still then ret None
      else publish_tail st x (if unique then result else shared_head_failure)) ?acc ?E" for still
      by (cases still) (use tail [of unique] in \<open>simp_all add: triple_ret\<close>)
  qed
  have second: "triple (?I (?unique unique)) (seq (ask_publishable ?job ?head) (\<lambda>open2. if \<not> open2 then ret None
      else seq (ask_current_claim ?job) (\<lambda>still. if \<not> still then ret None
      else publish_tail st x (if unique then result else shared_head_failure)))) ?acc ?E" for unique
  proof (rule triple_seq [of _ _ "?open unique"])
    show "triple (?I (?unique unique)) (ask_publishable ?job ?head) (?open unique) ?E"
      by (rule triple_ask_publishable) (auto intro: opened(2))
    show "triple (?open unique open2) (if \<not> open2 then ret None
      else seq (ask_current_claim ?job) (\<lambda>still. if \<not> still then ret None
      else publish_tail st x (if unique then result else shared_head_failure))) ?acc ?E" for open2
      by (cases open2) (use last [of unique] in \<open>simp_all add: triple_ret\<close>)
  qed
  have uniq: "triple (?I (no_pending_authority ?job)) (if conclusion result = SUCCESS then head_is_unique_to_pull ?job ?head else ret True)
      (\<lambda>unique. ?I (?unique unique)) ?E"
    by (rule triple_if) (use triple_unique [OF b, of ?job ?head] in \<open>simp_all add: triple_ret\<close>)
  show "triple (\<lambda>h. h = guards_taken ?job ?head b)
    (seq (ask_current_claim ?job) (\<lambda>current. if \<not> current then ret None
     else seq (ask_publishable ?job ?head) (\<lambda>open1. if \<not> open1 then ret None
     else seq (ask_blocking_authority ?job (x_base_ref x)) (\<lambda>blocked.
       if blocked then raise_exc (AuthorityChangePending ''accepted authority change arrived during evaluation'')
     else seq (if conclusion result = SUCCESS then head_is_unique_to_pull ?job ?head else ret True) (\<lambda>unique.
     seq (ask_publishable ?job ?head) (\<lambda>open2. if \<not> open2 then ret None
     else seq (ask_current_claim ?job) (\<lambda>still. if \<not> still then ret None
     else publish_tail st x (if unique then result else shared_head_failure)))))))) ?acc ?E"
  proof (rule triple_seq [of _ _ "\<lambda>_. ?I ?any"], goal_cases)
    case 1
    have start: "?I ?any (guards_taken ?job ?head b)" unfolding under_guards_def by (rule exI [of _ "[]"]) simp
    show ?case
      by (rule triple_ask_current_claim) (auto intro!: opened(2) [OF start] under_guards_add [OF start])
  next
    case (2 current)
    show ?case
    proof (cases current)
      case True
      have "triple (?I ?any) (seq (ask_publishable ?job ?head) (\<lambda>open1. if \<not> open1 then ret None
         else seq (ask_blocking_authority ?job (x_base_ref x)) (\<lambda>blocked.
           if blocked then raise_exc (AuthorityChangePending ''accepted authority change arrived during evaluation'')
         else seq (if conclusion result = SUCCESS then head_is_unique_to_pull ?job ?head else ret True) (\<lambda>unique.
         seq (ask_publishable ?job ?head) (\<lambda>open2. if \<not> open2 then ret None
         else seq (ask_current_claim ?job) (\<lambda>still. if \<not> still then ret None
         else publish_tail st x (if unique then result else shared_head_failure))))))) ?acc ?E"
      proof (rule triple_seq [of _ _ "\<lambda>_. ?I ?any"], goal_cases)
        case 1
        show ?case by (rule triple_ask_publishable) (auto intro: opened(2) under_guards_add)
      next
        case (2 open1)
        show ?case
        proof (cases open1)
          case True
          have "triple (?I ?any) (seq (ask_blocking_authority ?job (x_base_ref x)) (\<lambda>blocked.
              if blocked then raise_exc (AuthorityChangePending ''accepted authority change arrived during evaluation'')
            else seq (if conclusion result = SUCCESS then head_is_unique_to_pull ?job ?head else ret True) (\<lambda>unique.
            seq (ask_publishable ?job ?head) (\<lambda>open2. if \<not> open2 then ret None
            else seq (ask_current_claim ?job) (\<lambda>still. if \<not> still then ret None
            else publish_tail st x (if unique then result else shared_head_failure)))))) ?acc ?E"
          proof (rule triple_seq [of _ _ "\<lambda>blocked. ?I (\<lambda>seg. \<not> blocked \<longrightarrow> no_pending_authority ?job seg)"], goal_cases)
            case 1
            show ?case
              by (rule triple_ask_blocking_authority)
                (auto intro: opened(2) unasked elim!: under_guards_add)
          next
            case (2 blocked)
            show ?case
            proof (rule triple_if)
              assume "\<not> blocked"
              then show "triple (?I (\<lambda>seg. \<not> blocked \<longrightarrow> no_pending_authority ?job seg))
                (seq (if conclusion result = SUCCESS then head_is_unique_to_pull ?job ?head else ret True) (\<lambda>unique.
                 seq (ask_publishable ?job ?head) (\<lambda>open2. if \<not> open2 then ret None
                 else seq (ask_current_claim ?job) (\<lambda>still. if \<not> still then ret None
                 else publish_tail st x (if unique then result else shared_head_failure))))) ?acc ?E"
                using triple_seq [OF uniq second] by simp
            qed (auto intro!: triple_raise acc)
          qed
          with True show ?thesis by simp
        qed (auto intro!: triple_ret acc)
      qed
      with True show ?thesis by simp
    qed (auto intro!: triple_ret acc)
  qed
qed

text \<open>The guarded publication.\<close>

lemma triple_publish_result:
  assumes "same_claim job0 (x_job x)" and "conclusion result = SUCCESS \<Longrightarrow> V (x_head x) result"
  shows "triple (accounted st V job0) (publish_result st x result) (\<lambda>_. accounted st V job0) (accounted st V job0)"
proof (rule triple_point)
  fix b
  assume b: "accounted st V job0 b"
  let ?acc = "\<lambda>_. accounted st V job0" and ?E = "accounted st V job0"
  have locked: "triple (\<lambda>h. h = Acquired (AuthorityGuard (c_installation (x_job x))) # b)
      (check_write_guard (c_installation (x_job x)) (x_head x) (publish_locked st x result)) ?acc ?E"
    unfolding check_write_guard_def
  proof (rule triple_with_guard)
    show "triple (\<lambda>h. \<exists>h0. h = Acquired (HeadGuard (c_installation (x_job x)) (x_head x)) # h0 \<and>
        h0 = Acquired (AuthorityGuard (c_installation (x_job x))) # b) (publish_locked st x result)
      (\<lambda>a h. ?E (Released (HeadGuard (c_installation (x_job x)) (x_head x)) # h) \<and>
         ?E (Released (HeadGuard (c_installation (x_job x)) (x_head x)) # h))
      (\<lambda>h. ?E (Released (HeadGuard (c_installation (x_job x)) (x_head x)) # h))"
      by (rule triple_conseq [OF triple_publish_locked [OF b assms]]) (auto simp: guards_taken_def accounted_quiet)
  qed (use b in \<open>simp add: accounted_quiet\<close>)
  have tail: "triple ?E (case published of None \<Rightarrow> ret None | Some r \<Rightarrow> unblock_superseded st x r) ?acc ?E" for published
    by (rule triple_emits [where P = "\<lambda>e. \<not> success_write e"])
      (auto intro!: emits_intros accounted_quiet split: option.split)
  show "triple (\<lambda>h. h = b) (publish_result st x result) ?acc ?E"
    unfolding publish_result_def authority_publish_guard_def
  proof (rule triple_with_guard)
    show "triple (\<lambda>h. \<exists>h0. h = Acquired (AuthorityGuard (c_installation (x_job x))) # h0 \<and> h0 = b)
      (seq (check_write_guard (c_installation (x_job x)) (x_head x) (publish_locked st x result))
        (\<lambda>published. case published of None \<Rightarrow> ret None | Some r \<Rightarrow> unblock_superseded st x r))
      (\<lambda>a h. ?E (Released (AuthorityGuard (c_installation (x_job x))) # h) \<and>
        ?E (Released (AuthorityGuard (c_installation (x_job x))) # h))
      (\<lambda>h. ?E (Released (AuthorityGuard (c_installation (x_job x))) # h))"
      by (rule triple_conseq [OF triple_seq [OF locked tail]]) (auto simp: accounted_quiet)
  qed (use b in \<open>simp add: accounted_quiet\<close>)
qed

lemma bound_claim_returns: "returns (\<lambda>r. \<forall>job'. r = Some job' \<longrightarrow> same_claim job job') (do_bind_head job head)"
proof -
  have "same_claim job job'" if "bind_claim_to_head now job head d = Inr (d', Some job')" for now d d' job'
    using that by (auto simp: bind_claim_to_head_def same_claim_def sql_update_def Let_def split: if_splits)
  then show ?thesis
    by (auto simp: returns_def do_bind_head_def store_run_def Let_def split: option.splits fault.splits sum.splits prod.splits)
qed

end
