(* ===== verification/Service_Sample.thy ===== *)
theory Service_Sample
  imports Service_Facts Queue_Facts Policy_Facts
begin

text \<open>
  A complete run of \<open>evaluate_job\<close> that publishes a success, worked out step by step in the
  logic: an approved pull request of a repository whose CODEOWNERS file names the reviewer,
  with a database in which the job is claimed and its commit was reset. It shows that the
  hypotheses of the publication properties can be met.
\<close>

section \<open>The environment\<close>

definition sample_settings :: settings where
  "sample_settings = \<lparr>s_app_id = 11, s_check_name = ''Extra CODEOWNERS'', s_policy_path = ''.github/extra-codeowners.toml'',
     s_org_repo = ''.github'', s_allow_insecure = False, s_poll_micros = 500000, s_lease_seconds = 120,
     s_retry_max_seconds = 60, s_inaccessible_retry_max_seconds = 21600, s_foreground = 2, s_recovery = 1,
     s_authority = 1, s_invalidation = 2, s_interval_seconds = 300, s_recheck_seconds = 900,
     s_retention_days = 30\<rparr>"

text \<open>The enqueued job, its commit reset by the invalidation worker, and the claim of the job.\<close>

definition sample_ready :: "db \<times> claimed_job option" where
  "sample_ready = (let (d, reset) = claim_shared_head_invalidation 110 ''v'' 60 None sample_db in
     claim 200 ''w'' 60 None False (fst (complete_shared_head_invalidation 120 (the reset) d)))"

definition sample_job :: claimed_job where
  "sample_job = the (snd sample_ready)"

definition sample_pull :: obj where
  "sample_pull = [(''number'', JInt 7), (''state'', JStr ''open''), (''html_url'', JStr ''https://github.com/o/r/pull/7''),
     (''head'', JObj [(''sha'', JStr sample_head)]),
     (''base'', JObj [(''sha'', JStr ''b''), (''ref'', JStr ''main''), (''repo'', JObj [(''full_name'', JStr ''o/r'')])]),
     (''changed_files'', JInt 1), (''labels'', JList []), (''user'', JNull)]"

definition sample_approval :: obj where
  "sample_approval = [(''id'', JInt 3), (''state'', JStr ''APPROVED''), (''commit_id'', JStr sample_head),
     (''submitted_at'', JStr ''2026-01-01T00:00:00Z''),
     (''user'', JObj [(''id'', JInt 70), (''login'', JStr ''ann''), (''type'', JStr ''User'')])]"

fun sample_obj :: "git_call \<Rightarrow> svc_exc + obj" where
  "sample_obj (GetPull i repo n) = Inr sample_pull"
| "sample_obj (GetPermission i repo u) = Inr [(''permission'', JStr ''write'')]"
| "sample_obj (ListCheckRuns i repo head name) = Inr [(''check_runs'', JList [])]"
| "sample_obj (PostCheckRun i repo p) = Inr ((''id'', JInt 9) # p)"
| "sample_obj c = Inl (GitHubError ''unexpected request'')"

fun sample_list :: "git_call \<Rightarrow> svc_exc + obj list" where
  "sample_list (ListCommitPulls i repo head) = Inr [sample_pull]"
| "sample_list (GetPullFiles i repo n) = Inr [[(''status'', JStr ''added''), (''filename'', JStr ''a.py'')]]"
| "sample_list (GetReviews i repo n) = Inr [sample_approval]"
| "sample_list (GetCodeownersErrors i repo sha) = Inr []"
| "sample_list c = Inl (GitHubError ''unexpected request'')"

fun sample_text :: "git_call \<Rightarrow> svc_exc + string option" where
  "sample_text (GetFileText i repo path revision) = Inr (if path = ''.github/CODEOWNERS'' then Some ''* @ann'' else Some ''policy'')"
| "sample_text c = Inl (GitHubError ''unexpected request'')"

definition sample_env :: env where
  "sample_env = \<lparr>e_obj = \<lambda>_. sample_obj, e_list = \<lambda>_. sample_list, e_text = \<lambda>_ _. Inr ''cafe'', e_opt_text = \<lambda>_. sample_text,
     e_bool = \<lambda>_ _. Inr True, e_interfere = \<lambda>_ d. d, e_clock = \<lambda>_. 210, e_fault = \<lambda>_. None,
     e_acquire = \<lambda>_ _. Inr True, e_release = \<lambda>_ _. None, e_cancelled = \<lambda>_. False, e_lost = \<lambda>_. False,
     e_pick = \<lambda>_. 0, e_stamp = \<lambda>_. ''now'', e_instant = \<lambda>_. Some (Aware 5),
     e_organization_toml = \<lambda>_. Inr sample_org, e_repository_toml = \<lambda>_. Inr sample_rep,
     e_dump = \<lambda>_ _. ''{}'', e_marks = (''m'', ''n''), e_validation = \<lambda>_. ''invalid'', e_repr = \<lambda>_. ''json'',
     e_page = \<lambda>_ _. Inr ([], 0, 0), e_message = \<lambda>_. ''error'', e_join = \<lambda>_. None, e_stop = \<lambda>_. False,
     e_budgets = \<lambda>_ bs. bs, e_opened = \<lambda>_. 210, e_fingerprint = \<lambda>_. ''f''\<rparr>"

section \<open>Steps of the run\<close>

text \<open>In the sample environment a program that works on the database \<open>d\<close> returns \<open>a\<close>, leaves the
  database \<open>d'\<close>, and adds events to the trace; \<open>says\<close> tells of them.\<close>

definition steps :: "'a svc \<Rightarrow> db \<Rightarrow> 'a \<Rightarrow> db \<Rightarrow> bool \<Rightarrow> bool" where
  "steps m d a d' says \<longleftrightarrow> (\<forall>h. \<exists>new. m sample_env \<lparr>w_db = d, w_trace = h, w_budgets = [], w_memo = [], w_queued = 0\<rparr> = (Inr a, \<lparr>w_db = d', w_trace = new @ h, w_budgets = [], w_memo = [], w_queued = 0\<rparr>) \<and>
     (says \<longrightarrow> list_ex success_write new))"

named_theorems steps_intros \<open>steps of the sample run\<close>

lemma steps_pure [steps_intros]:
  "steps (ret a) d a d False" "r = Inr a \<Longrightarrow> steps (of_result r) d a d False"
  "q = Inr a \<Longrightarrow> steps (of_queue q) d a d False" "v = Inr a \<Longrightarrow> steps (constructed v) d a d False"
  by (simp_all add: steps_def ret_def of_result_def of_queue_def constructed_def)

lemma steps_ask_env [steps_intros]: "(\<And>h. f sample_env h = a) \<Longrightarrow> steps (ask_env f) d a d False"
  by (simp add: steps_def ask_env_def)

lemma steps_requests [steps_intros]:
  "sample_obj c = Inr ob \<Longrightarrow> steps (ask_obj c) d ob d False"
  "sample_list c = Inr obs \<Longrightarrow> steps (ask_list c) d obs d False"
  "sample_text c = Inr t \<Longrightarrow> steps (ask_opt_text c) d t d False"
  "steps (ask_text c) d ''cafe'' d False" "steps (ask_bool c) d True d False"
  by (simp_all add: steps_def ask_obj_def ask_list_def ask_opt_text_def ask_text_def ask_bool_def answered_def
      log_event_def sample_env_def Let_def)

lemma steps_store [steps_intros]: "f 210 d = Inr (d', a) \<Longrightarrow> steps (store_run c f) d a d' False"
  by (simp add: steps_def store_run_def sample_env_def Let_def)

lemma steps_read [steps_intros]: "f 210 d = Inr a \<Longrightarrow> steps (store_read c f) d a d False"
  unfolding store_read_def by (rule steps_store) simp

lemma steps_seq_both:
  assumes "steps m d a d1 p" and "steps (f a) d1 b d2 q"
  shows "steps (seq m f) d b d2 (p \<or> q)"
  unfolding steps_def
proof
  fix h
  from assms(1) obtain new where n: "m sample_env \<lparr>w_db = d, w_trace = h, w_budgets = [], w_memo = [], w_queued = 0\<rparr> = (Inr a, \<lparr>w_db = d1, w_trace = new @ h, w_budgets = [], w_memo = [], w_queued = 0\<rparr>)"
    "p \<longrightarrow> list_ex success_write new" by (auto simp: steps_def)
  from assms(2) obtain more where
    "f a sample_env \<lparr>w_db = d1, w_trace = new @ h, w_budgets = [], w_memo = [], w_queued = 0\<rparr> = (Inr b, \<lparr>w_db = d2, w_trace = more @ new @ h, w_budgets = [], w_memo = [], w_queued = 0\<rparr>)"
    "q \<longrightarrow> list_ex success_write more" by (auto simp: steps_def)
  with n show "\<exists>new. seq m f sample_env \<lparr>w_db = d, w_trace = h, w_budgets = [], w_memo = [], w_queued = 0\<rparr> = (Inr b, \<lparr>w_db = d2, w_trace = new @ h, w_budgets = [], w_memo = [], w_queued = 0\<rparr>) \<and>
      (p \<or> q \<longrightarrow> list_ex success_write new)"
    by (auto simp: seq_def intro!: exI [of _ "more @ new"])
qed

lemma steps_seq: "steps m d a d1 False \<Longrightarrow> steps (f a) d1 b d2 q \<Longrightarrow> steps (seq m f) d b d2 q"
  using steps_seq_both [of m d a d1 False f b d2 q] by simp

lemma steps_seq_first: "steps m d a d1 True \<Longrightarrow> steps (f a) d1 b d2 False \<Longrightarrow> steps (seq m f) d b d2 True"
  using steps_seq_both [of m d a d1 True f b d2 False] by simp

lemma steps_success:
  assumes "sample_obj c = Inr ob" and "success_call c"
  shows "steps (ask_obj c) d ob d True"
  using assms by (simp add: steps_def ask_obj_def answered_def log_event_def sample_env_def Let_def)

lemma steps_lift:
  assumes "steps m d a d' p"
    and "\<And>h new. m sample_env \<lparr>w_db = d, w_trace = h, w_budgets = [], w_memo = [], w_queued = 0\<rparr> = (Inr a, \<lparr>w_db = d', w_trace = new @ h, w_budgets = [], w_memo = [], w_queued = 0\<rparr>) \<Longrightarrow>
      k sample_env \<lparr>w_db = d, w_trace = h, w_budgets = [], w_memo = [], w_queued = 0\<rparr> = (Inr b, \<lparr>w_db = d', w_trace = new @ h, w_budgets = [], w_memo = [], w_queued = 0\<rparr>)"
  shows "steps k d b d' p"
  using assms unfolding steps_def by metis

lemma steps_handle [steps_intros]: "steps m d a d' p \<Longrightarrow> steps (handle m k) d a d' p"
  by (erule steps_lift) (simp add: handle_def)

lemma steps_attempt [steps_intros]: "steps m d a d' p \<Longrightarrow> steps (attempt m) d (Inr a) d' p"
  by (erule steps_lift) (simp add: attempt_def)

lemma steps_guard [steps_intros]:
  assumes "steps body d a d' p"
  shows "steps (with_guard g m body) d a d' p"
  unfolding steps_def
proof
  fix h
  from assms obtain new where "body sample_env \<lparr>w_db = d, w_trace = Acquired g # h, w_budgets = [], w_memo = [], w_queued = 0\<rparr> =
      (Inr a, \<lparr>w_db = d', w_trace = new @ Acquired g # h, w_budgets = [], w_memo = [], w_queued = 0\<rparr>)" "p \<longrightarrow> list_ex success_write new"
    by (auto simp: steps_def)
  then show "\<exists>new. with_guard g m body sample_env \<lparr>w_db = d, w_trace = h, w_budgets = [], w_memo = [], w_queued = 0\<rparr> = (Inr a, \<lparr>w_db = d', w_trace = new @ h, w_budgets = [], w_memo = [], w_queued = 0\<rparr>) \<and>
      (p \<longrightarrow> list_ex success_write new)"
    by (intro exI [of _ "Released g # new @ [Acquired g]"])
      (auto simp: with_guard_def log_event_def sample_env_def)
qed

section \<open>The run\<close>

lemma sample_job_fields [simp]:
  "c_installation sample_job = 5" "c_repo sample_job = ''o/r''" "c_pull sample_job = 7" "c_head sample_job = Some sample_head"
  "c_delivery sample_job = None" "c_reason sample_job = ''push''"
  by code_simp+

lemma pull_facts [simp]:
  "pull_objects sample_pull = Inr ([(''sha'', JStr sample_head)], [(''sha'', JStr ''b''), (''ref'', JStr ''main''), (''repo'', JObj [(''full_name'', JStr ''o/r'')])])"
  by (simp add: pull_objects_def sample_pull_def required_object_def as_obj_def)

definition sample_view :: pull_view where
  "sample_view = \<lparr>pv_head = sample_head, pv_base_sha = ''b'', pv_base_ref = ''main'', pv_state = ''open''\<rparr>"

definition sample_context :: evaluation_context where
  "sample_context = \<lparr>x_job = sample_job, x_head = sample_head, x_base_ref = ''main'', x_details = Some ''https://github.com/o/r/pull/7''\<rparr>"

lemmas control = if_True if_False not_True_eq_False not_False_eq_True option.case sum.case prod.case fst_conv snd_conv
  simp_thms option.distinct option.inject evaluation_context.simps pull_view.simps sample_job_fields

lemma context_fields [simp]:
  "x_job sample_context = sample_job" "x_head sample_context = sample_head" "x_base_ref sample_context = ''main''"
  by (simp_all add: sample_context_def)

lemma steps_no_check: "steps (latest_check_run sample_settings 5 ''o/r'' sample_head) d None d False"
  unfolding latest_check_run_def
  by (rule steps_seq steps_intros sample_obj.simps)+ (simp add: get_or_def as_list_def steps_pure)
definition sample_store :: db where
  "sample_store = fst (projr (observe_evaluation_base 210 sample_job ''main'' (fst sample_ready)))"

lemma store_facts:
  "is_current_claim 210 sample_store sample_job" 
  "shared_head_generation_is_current sample_store sample_job sample_head = Inr True"
  "shared_head_generation_is_publishable sample_store sample_job sample_head = Inr True"
  "\<not> has_blocking_authority sample_store sample_job ''main''" "\<not> has_superseding_job sample_store sample_job"
  "case observe_evaluation_base 210 sample_job ''main'' (fst sample_ready) of Inl e \<Rightarrow> False | Inr (d, b) \<Rightarrow> b"
  "case bind_claim_to_head 210 sample_job sample_head sample_store of Inl e \<Rightarrow> False | Inr (d, b) \<Rightarrow> b = Some sample_job"
  "\<not> keeps_published_check sample_job"
  by code_simp+

lemma asks [steps_intros]:
  "steps (ask_current_claim sample_job) sample_store True sample_store False"
  "steps (ask_shared_current sample_job sample_head) sample_store True sample_store False"
  "steps (ask_publishable sample_job sample_head) sample_store True sample_store False"
  "steps (ask_blocking_authority sample_job ''main'') sample_store False sample_store False"
  "steps (ask_superseding sample_job) sample_store False sample_store False"
  unfolding ask_current_claim_def ask_shared_current_def ask_publishable_def ask_blocking_authority_def ask_superseding_def
  by (auto intro!: steps_read simp: store_facts)

lemma steps_send_blocking:
  "steps (send_check_run 5 ''o/r'' sample_head (in_progress t s dt ex) None
     (upsert_payload sample_settings ''now'' (in_progress t s dt ex))) d 9 d False"
  unfolding send_check_run_def Let_def option.case
  apply (rule steps_seq steps_intros refl sample_obj.simps | (simp add: sample_env_def; fail))+
   apply (simp add: same_check_id_def as_int_def)
   apply (rule steps_intros)
  apply (simp add: in_progress_def validate_blocking_check_response_def upsert_payload_def as_str_def)
  apply (rule steps_seq steps_intros)+
  done

lemma steps_send_success:
  assumes "conclusion r = SUCCESS"
  shows "steps (send_check_run 5 ''o/r'' sample_head (completed_write sample_settings sample_context marks r) None
     (upsert_payload sample_settings ''now'' (completed_write sample_settings sample_context marks r))) d 9 d True"
  unfolding send_check_run_def Let_def option.case
  apply (rule steps_seq [of _ _ "''now''"], rule steps_ask_env, simp add: sample_env_def)
  apply (rule steps_seq_first, rule steps_success, rule sample_obj.simps)
   apply (simp add: completed_write_def payload_conclusion conclusion_value_def assms)
  apply (rule steps_seq [of _ _ 9])
   apply (simp add: same_check_id_def as_int_def)
   apply (rule steps_intros)
  apply (simp add: completed_write_def)
  apply (rule steps_intros)
  done

lemma steps_upsert:
  assumes "write_is_consistent cw = Inr ()" and "\<not> cw_skip cw"
    and "steps (send_check_run 5 ''o/r'' sample_head cw None (upsert_payload sample_settings ''now'' cw)) d 9 d p"
  shows "steps (x_upsert sample_settings sample_context cw) d () d p"
proof -
  have "steps (upsert_check_run sample_settings 5 ''o/r'' sample_head cw) d 9 d p"
    unfolding upsert_check_run_def assms(1) Let_def
    apply (rule steps_seq, rule steps_pure(2), rule refl)
    apply (rule steps_seq, rule steps_no_check)
    apply (rule steps_seq [of _ _ "''now''"], rule steps_ask_env)
    using assms(2,3) by (simp_all add: sample_env_def)
  then show ?thesis unfolding x_upsert_def
    by (cases p) (auto intro: steps_seq steps_seq_first steps_pure)
qed

lemma steps_block: "steps (x_block sample_settings sample_context t s) d () d False"
  unfolding x_block_def
  by (rule steps_upsert [OF in_progress_consistent _ steps_send_blocking]) (simp add: in_progress_def)

lemma steps_revoke: "steps (revoke_previous sample_settings sample_context) sample_store True sample_store False"
  unfolding revoke_previous_def Let_def check_write_guard_def control context_fields
  apply (rule steps_guard)
  apply (rule steps_seq asks)+
  apply (simp only: control)
  apply (rule steps_seq asks)+
  apply (simp only: control)
  apply (rule steps_seq)
   apply (simp only: when_svc_def store_facts control)
   apply (rule steps_block)
  by (rule steps_intros)


lemma steps_policy: "steps (branch_policy sample_settings sample_job ''main'') d (''cafe'', Some ''policy'') d False"
  unfolding branch_policy_def repository_policy_text_def control
  by (rule steps_seq steps_intros | simp add: sample_settings_def; fail)+


definition sample_rules :: "codeowners_rule list" where
  "sample_rules = projr (parse_codeowners ''* @ann'')"

definition sample_evidence :: "pull_request_review list \<times> pull_request_author option \<times> changed_file list" where
  "sample_evidence = ([\<lparr>review_id = 3, actor = \<lparr>kind = HUMAN, login = ''ann'', user_id = 70, app_id = None, app_slug = None,
       owner_aliases = {}, direct_owner_eligible = True\<rparr>, state = APPROVED, commit_sha = Some sample_head,
     submitted_at = 5\<rparr>], None, [\<lparr>cf_path = ''a.py'', cf_status = ADDED, previous_path = None\<rparr>])"

definition sample_opinion :: opinion where
  "sample_opinion = \<lparr>o_bot = False, o_user = 70, o_login = ''ann'', o_submitted = Aware 5, o_review = 3,
     o_value = sample_approval\<rparr>"

lemma steps_opinion: "steps (read_opinion sample_approval) d (Some sample_opinion) d False"
proof -
  have "steps (opinion_instant ''2026-01-01T00:00:00Z'') d (Inr (Aware 5)) d False"
    by (simp add: steps_def opinion_instant_def sample_env_def)
  then show ?thesis
    by (auto simp: read_opinion_def sample_approval_def sample_opinion_def in_str_set_def as_obj_def as_str_def as_int_def
        intro!: steps_seq steps_pure)
qed

lemma steps_human: "steps (human_owner_evidence 5 ''o/r'' ''o'' ''ann'' sample_rules) d (True, []) d False"
proof -
  have e: "team_owners ''o'' sample_rules = []" by code_simp
  have a: "steps (user_can_own_repository 5 ''o/r'' ''ann'') d True d False"
    unfolding user_can_own_repository_def
    by (rule steps_seq, rule steps_requests, rule sample_obj.simps) (simp add: in_str_set_def steps_pure)
  have b: "steps (human_team_aliases 5 ''o/r'' ''o'' ''ann'' sample_rules) d [] d False"
    unfolding human_team_aliases_def e Let_def gather_def
    by (rule steps_seq [of _ _ "[]"], rule steps_seq [of _ _ "[]"], simp add: steps_def run_all_def,
        rule steps_seq [of _ _ 0], rule steps_ask_env, simp add: sample_env_def)
      (simp add: first_error_def, rule steps_pure, rule refl, simp, rule steps_pure)
  show ?thesis unfolding human_owner_evidence_def gather2_def
    by (rule steps_seq, rule steps_attempt, rule a, rule steps_seq, rule steps_attempt, rule b,
        rule steps_seq [of _ _ 0], rule steps_ask_env, simp add: sample_env_def) (simp add: steps_pure)
qed

lemma steps_reviews: "steps (service_reviews 5 ''o/r'' [sample_approval] sample_org sample_rules sample_head 0) d
    (fst sample_evidence) d False"
proof -
  have lo: "latest_opinion sample_opinion [] = Inr [((False, 70), sample_opinion)]"
    by (simp add: latest_opinion_def opinion_key_def sample_opinion_def)
  have l: "steps (latest_opinions [sample_approval] []) d [((False, 70), sample_opinion)] d False"
    by (simp, rule steps_seq, rule steps_opinion, simp, rule steps_seq, rule steps_pure, rule lo, simp, rule steps_pure)
  have e: "team_owners ''o'' sample_rules = []" by code_simp
  have ap: "approves_head sample_head sample_opinion" by code_simp
  have act: "make_review_actor HUMAN ''ann'' 70 None None [] True = Inr \<lparr>kind = HUMAN, login = ''ann'', user_id = 70,
      app_id = None, app_slug = None, owner_aliases = {}, direct_owner_eligible = True\<rparr>" by code_simp
  have rev: "make_pull_request_review 3 \<lparr>kind = HUMAN, login = ''ann'', user_id = 70,
      app_id = None, app_slug = None, owner_aliases = {}, direct_owner_eligible = True\<rparr> APPROVED (Some sample_head) (Aware 5) =
      Inr (hd (fst sample_evidence))" by code_simp
  have one: "steps (approval_evidence 5 ''o/r'' sample_rules sample_head [] sample_opinion) d (Some (hd (fst sample_evidence))) d False"
    unfolding approval_evidence_def review_of_def
    by (simp add: sample_opinion_def owner_of_def, rule steps_seq, rule steps_human, simp, rule steps_seq, rule steps_pure, rule act,
        rule steps_seq, rule steps_pure, rule rev, rule steps_pure)
  show ?thesis unfolding service_reviews_def
    apply (rule steps_seq, rule l)
    apply (simp add: Let_def ap owner_of_def e)
    apply (simp add: sample_opinion_def MAX_TEAM_MEMBERSHIP_LOOKUPS_def)
    apply (rule steps_seq, rule steps_pure, rule steps_seq, rule steps_seq, rule one [unfolded sample_opinion_def])
     apply (rule steps_seq steps_pure)+
    apply (simp add: sample_evidence_def map_filter_def, rule steps_pure)
    done
qed


definition sample_data :: evaluation_input where
  "sample_data = projr (make_evaluation_input sample_head ''* @ann'' (snd (snd sample_evidence)) (fst sample_evidence) None []
     sample_org sample_rep \<lparr>exact_head_reviews = True, allow_insecure_changes = False,
       repository_policy_path = ''.github/extra-codeowners.toml''\<rparr>)"

definition sample_result :: evaluation_result where
  "sample_result = projr (evaluate sample_data)"

lemma sample_evaluates:
  "make_evaluation_input sample_head ''* @ann'' (snd (snd sample_evidence)) (fst sample_evidence) None []
     sample_org sample_rep \<lparr>exact_head_reviews = True, allow_insecure_changes = False,
       repository_policy_path = ''.github/extra-codeowners.toml''\<rparr> = Inr sample_data"
  "evaluate sample_data = Inr sample_result" "conclusion sample_result = SUCCESS"
proof -
  have "\<not> isl (make_evaluation_input sample_head ''* @ann'' (snd (snd sample_evidence)) (fst sample_evidence) None []
     sample_org sample_rep \<lparr>exact_head_reviews = True, allow_insecure_changes = False,
       repository_policy_path = ''.github/extra-codeowners.toml''\<rparr>)" by code_simp
  then show "make_evaluation_input sample_head ''* @ann'' (snd (snd sample_evidence)) (fst sample_evidence) None []
     sample_org sample_rep \<lparr>exact_head_reviews = True, allow_insecure_changes = False,
       repository_policy_path = ''.github/extra-codeowners.toml''\<rparr> = Inr sample_data" by (simp add: sample_data_def)
  have "\<not> isl (evaluate sample_data)" by code_simp
  then show "evaluate sample_data = Inr sample_result" by (simp add: sample_result_def)
  show "conclusion sample_result = SUCCESS" by code_simp
qed

lemma sample_labels: "label_names sample_pull = Inr []"
  by (simp add: label_names_def sample_pull_def as_list_def)

lemma sample_path: "build (errors_of (validate_repository_policy_path ''.github/extra-codeowners.toml''))
    (projr (validate_repository_policy_path ''.github/extra-codeowners.toml'')) Inr = Inr ''.github/extra-codeowners.toml''"
  by code_simp

lemma steps_evaluation_of:
  "steps (evaluation_of sample_settings sample_pull sample_head ''* @ann'' sample_org sample_rep sample_evidence) d sample_result d False"
  unfolding evaluation_of_def sample_labels
  apply (rule steps_seq, rule steps_pure, rule refl, rule steps_seq, rule steps_pure)
   apply (simp add: sample_settings_def, rule sample_path)
  apply (unfold evaluated_def)
  apply (rule steps_seq, rule steps_pure)
   apply (simp add: sample_settings_def)
   apply (subgoal_tac "fst (snd sample_evidence) = None")
    apply (simp, rule sample_evaluates)
   apply (simp add: sample_evidence_def)
  apply (rule steps_pure)
  apply (simp add: sample_evaluates)
  done

lemma steps_shaped:
  "steps (shaped_evidence sample_job sample_pull sample_head sample_org sample_rep sample_rules
     [[(''status'', JStr ''added''), (''filename'', JStr ''a.py'')]] [sample_approval]) d sample_evidence d False"
proof -
  have off: "allow_author_as_codeowner sample_rep = False" by code_simp
  have mk: "make_changed_file ''a.py'' ADDED None = Inr \<lparr>cf_path = ''a.py'', cf_status = ADDED, previous_path = None\<rparr>" by code_simp
  have files: "steps (changed_files_of [[(''status'', JStr ''added''), (''filename'', JStr ''a.py'')]]) d (snd (snd sample_evidence)) d False"
    unfolding changed_files_of_def sample_evidence_def snd_conv collect.simps
    apply (rule steps_seq, rule steps_seq, rule steps_pure, simp add: required_string_def as_str_def)
     apply (rule steps_seq, rule steps_pure, simp add: required_string_def as_str_def)
     apply (rule steps_seq, rule steps_pure, simp add: file_status_def)
     apply (rule steps_pure, simp add: as_str_def, rule mk)
    apply (rule steps_seq, rule steps_pure, rule steps_pure)
    done
  show ?thesis unfolding shaped_evidence_def off if_False control author_evidence_def
    apply (rule steps_seq, rule steps_pure, simp)
    apply (rule steps_seq, rule steps_reviews)
    apply (rule steps_seq, rule steps_pure, rule steps_seq, rule files)
    apply (simp add: sample_evidence_def, rule steps_pure)
    done
qed


lemma steps_read_evidence: "steps (read_evidence sample_job ''cafe'') d
    ([[(''status'', JStr ''added''), (''filename'', JStr ''a.py'')]], [sample_approval], []) d False"
proof -
  have "steps (run_all [ask_list (GetPullFiles 5 ''o/r'' 7), ask_list (GetReviews 5 ''o/r'' 7),
      ask_list (GetCodeownersErrors 5 ''o/r'' ''cafe'')]) d
    [Inr [[(''status'', JStr ''added''), (''filename'', JStr ''a.py'')]], Inr [sample_approval], Inr []] d False"
    by (simp add: steps_def run_all_def ask_list_def answered_def log_event_def sample_env_def Let_def)
  then show ?thesis unfolding read_evidence_def gather_def control
    by (rule steps_seq [OF steps_seq]) (rule steps_seq [of _ _ 0], rule steps_ask_env, simp add: sample_env_def,
      rule steps_pure, simp add: first_error_def, simp, rule steps_pure)
qed

lemma steps_collect:
  "steps (collect_and_evaluate sample_settings sample_job sample_pull sample_head ''cafe'' 1 sample_org sample_rep ''* @ann'' sample_rules)
     d sample_result d False"
  unfolding collect_and_evaluate_def
  by (rule steps_seq, rule steps_attempt, rule steps_read_evidence, simp,
      rule steps_seq, rule steps_attempt, rule steps_shaped, simp, rule steps_evaluation_of)

lemma steps_organization: "steps (load_organization_policy sample_settings 5 ''o/r'' g) d sample_org d False"
  unfolding load_organization_policy_def Let_def
  by (rule steps_seq, rule steps_requests, simp, rule steps_seq, rule steps_requests, rule sample_text.simps)
    (simp add: sample_settings_def parsed_toml_def steps_def sample_env_def)

lemma steps_evaluate_current:
  "steps (evaluate_current sample_settings sample_job sample_pull sample_head ''cafe'' 1 sample_rep) d sample_result d False"
proof -
  have on: "enabled sample_rep = True" by code_simp
  have rules: "(case parse_codeowners ''* @ann'' of Inl _ \<Rightarrow> [] | Inr rs \<Rightarrow> rs) = sample_rules" by code_simp
  have budget: "\<not> MAX_PATH_MATCH_OPERATIONS < 1 * 2 * (int (length sample_rules) + policy_pattern_count sample_settings sample_org sample_rep)"
    by code_simp
  show ?thesis unfolding evaluate_current_def on control
    apply (subst if_not_P, simp add: MAX_PULL_FILES_def)
    apply (rule steps_seq, rule steps_attempt, rule steps_organization, simp only: control)
    apply (rule steps_seq [of _ _ "Some (''.github/CODEOWNERS'', ''* @ann'')"])
     apply (simp add: CODEOWNERS_LOCATIONS_def, rule steps_seq, rule steps_requests, rule sample_text.simps, simp, rule steps_pure)
    apply (simp only: control rules Let_def budget)
    apply (rule steps_collect)
    done
qed

lemma steps_evaluation_result:
  "steps (evaluation_result_of sample_settings sample_context sample_pull ''cafe'' (Some ''policy'') 1) d sample_result d False"
proof -
  have "steps (parsed_toml e_repository_toml ''policy'') d sample_rep d False"
    by (simp add: parsed_toml_def steps_def sample_env_def)
  then show ?thesis unfolding evaluation_result_of_def control context_fields
    by (rule steps_seq [OF steps_attempt]) (simp add: steps_evaluate_current)
qed

lemma sample_strings: "pull_strings sample_pull [(''sha'', JStr sample_head)] [(''sha'', JStr ''b''), (''ref'', JStr ''main''),
    (''repo'', JObj [(''full_name'', JStr ''o/r'')])] = Inr sample_view"
  by (simp add: pull_strings_def required_string_def as_str_def known_state_def sample_pull_def sample_view_def sample_head_def)

lemma sample_files: "required_nonnegative_int (get_key ''changed_files'' sample_pull) ''pull_request.changed_files'' = Inr 1"
  by (simp add: required_nonnegative_int_def sample_pull_def as_int_def)

lemma steps_revalidate: "steps (revalidate sample_settings sample_context sample_view [] ''cafe'' 1) d True d False"
proof -
  have open_view: "pv_state sample_view = ''open''" "pv_base_ref sample_view = ''main''" by (simp_all add: sample_view_def)
  have "steps (evidence_unchanged sample_context sample_pull sample_view sample_view [] ''cafe'' 1) d True d False"
    unfolding evidence_unchanged_def sample_files sample_labels open_view control context_fields
    by (simp, rule steps_seq, rule steps_requests, simp, rule steps_pure)
  then show ?thesis unfolding revalidate_def Let_def control context_fields
    by - (rule steps_seq, rule steps_requests, rule sample_obj.simps, rule steps_seq, rule steps_pure, rule pull_facts,
        simp only: control, rule steps_seq, rule steps_pure, rule sample_strings, simp add: open_view,
        rule steps_seq, assumption, simp, rule steps_pure)
qed

lemma steps_unique: "steps (head_is_unique_to_pull sample_job sample_head) d True d False"
proof -
  have obs: "observe_associated [sample_pull] [] = Inr [(7, ''open'', sample_head)]" by code_simp
  have cur: "current_pull_identity ''o/r'' 7 sample_pull = Inr (''open'', sample_head)" by code_simp
  have "steps (current_associated_pulls (ret ()) 5 ''o/r'' sample_head) d [(7, ''open'', sample_head)] d False"
    unfolding current_associated_pulls_def
    by (rule steps_seq, rule steps_pure, rule steps_seq, rule steps_requests, rule sample_list.simps,
        rule steps_seq, rule steps_pure, rule obs, simp,
        rule steps_seq, rule steps_seq, rule steps_pure, rule steps_seq, rule steps_requests, rule sample_obj.simps,
        rule steps_seq, rule steps_pure, rule cur, rule steps_pure) (rule steps_seq, rule steps_pure, rule steps_pure)
  then show ?thesis unfolding head_is_unique_to_pull_def control
    by (rule steps_seq) (simp add: open_on_head_def, rule steps_pure)
qed


lemma steps_published: "steps (publish_tail sample_settings sample_context sample_result) sample_store (Some sample_result) sample_store True"
  unfolding publish_tail_def restoring_def control context_fields
  apply (rule steps_seq [of _ _ "(''m'', ''n'')"], rule steps_ask_env, simp add: sample_env_def)
  apply (rule steps_seq_first, rule steps_handle, rule steps_upsert)
     apply (simp add: write_is_consistent_def completed_write_def)
    apply (simp add: completed_write_def store_facts)
   apply (rule steps_send_success, rule sample_evaluates)
  apply (rule steps_seq, rule steps_handle, rule steps_seq, rule asks, rule steps_seq, rule asks, rule steps_pure)
  apply (simp, rule steps_pure)
  done

lemma steps_locked: "steps (publish_locked sample_settings sample_context sample_result) sample_store (Some sample_result) sample_store True"
  unfolding publish_locked_eq Let_def context_fields
  apply (rule steps_seq, rule asks)
  apply (simp only: control)
  apply (rule steps_seq, rule asks)
  apply (simp only: control)
  apply (rule steps_seq, rule asks)
  apply (simp only: sample_evaluates control)
  apply (rule steps_seq, rule steps_unique, rule steps_seq, rule asks, simp)
  apply (rule steps_seq, rule asks, simp, rule steps_published)
  done

lemma steps_publish_result: "steps (publish_result sample_settings sample_context sample_result) sample_store (Some sample_result) sample_store True"
  unfolding publish_result_def authority_publish_guard_def check_write_guard_def
  apply (rule steps_guard, rule steps_seq_first, rule steps_guard, rule steps_locked)
  apply (simp add: unblock_superseded_def pending_after_def)
  apply (rule steps_seq, rule steps_seq, rule asks, rule steps_seq, rule asks, rule steps_pure)
  apply (simp, rule steps_pure)
  done

definition sample_end :: db where
  "sample_end = record_audit 210 ''o/r'' 7 sample_head ''success'' ''{}'' sample_store"

lemma steps_bound: "steps (evaluate_bound sample_settings sample_context sample_pull sample_view False (''cafe'', Some ''policy''))
    sample_store () sample_end True"
proof -
  have audit: "steps (do_record_audit ''o/r'' 7 sample_head ''success'' ''{}'') sample_store () sample_end False"
    unfolding do_record_audit_def by (rule steps_store) (simp add: sample_end_def)
  show ?thesis unfolding evaluate_bound_def Let_def control context_fields
    apply (rule steps_seq, rule steps_revoke, simp)
    apply (rule steps_seq, rule steps_pure, rule steps_seq, rule asks, simp, rule steps_seq, rule asks, simp)
    apply (rule steps_seq, rule steps_pure, simp add: sample_files sample_labels)
    apply (rule steps_seq, rule steps_evaluation_result, rule steps_seq, rule steps_revalidate, simp)
    apply (rule steps_seq_first, rule steps_publish_result, simp)
    apply (rule steps_seq [of _ _ "''{}''"], rule steps_ask_env, simp add: sample_env_def)
    apply (simp add: conclusion_value_def sample_evaluates, rule audit)
    done
qed

lemma steps_open: "steps (evaluate_open sample_settings sample_job sample_pull sample_view) (fst sample_ready) () sample_end True"
proof -
  have observe: "steps (do_observe_base sample_job ''main'') (fst sample_ready) True sample_store False"
    unfolding do_observe_base_def using store_facts(6)
    by (intro steps_store) (auto simp: sample_store_def split: sum.splits)
  have bind: "steps (do_bind_head sample_job sample_head) sample_store (Some sample_job) sample_store False"
  proof -
    have "validate_head_sha sample_head = Inr sample_head" by code_simp
    then have "bind_claim_to_head 210 sample_job sample_head sample_store = Inr (sample_store, Some sample_job)"
      by (simp add: bind_claim_to_head_def)
    then show ?thesis unfolding do_bind_head_def by (intro steps_store) simp
  qed
  have view: "pv_head sample_view = sample_head" "pv_base_ref sample_view = ''main''" by (simp_all add: sample_view_def)
  have details: "details_of sample_pull = Some ''https://github.com/o/r/pull/7''"
    by (simp add: details_of_def sample_pull_def as_str_def)
  show ?thesis unfolding evaluate_open_def Let_def view details
    apply (rule steps_seq, rule observe, simp)
    apply (rule steps_seq, rule bind, simp)
    apply (rule steps_seq)
     apply (simp add: has_check_run_def existing_check_run_id_def)
     apply (rule steps_seq, rule steps_seq, rule steps_no_check, rule steps_pure, rule steps_pure)
    apply (simp, rule steps_seq, rule steps_policy, simp)
    using steps_bound by (simp add: sample_context_def)
qed

lemma steps_job: "steps (evaluate_job sample_settings sample_job) (fst sample_ready) () sample_end True"
proof -
  have repo: "\<not> is_organization_config_repository sample_settings ''o/r''" by code_simp
  have canonical: "canonical_base [(''sha'', JStr ''b''), (''ref'', JStr ''main''), (''repo'', JObj [(''full_name'', JStr ''o/r'')])] = Inr ''o/r''"
    by code_simp
  show ?thesis unfolding evaluate_job_def control
    apply (subst if_not_P, rule repo)
    apply (rule steps_seq, rule steps_requests, rule sample_obj.simps)
    apply (rule steps_seq, rule steps_pure, rule pull_facts, simp only: control)
    apply (rule steps_seq, rule steps_pure, rule canonical, simp only: control)
    apply (rule steps_seq, rule steps_pure, rule sample_strings)
    apply (subst if_not_P, simp add: sample_view_def)
    apply (rule steps_open)
    done
qed

end
