(* ===== verification/Worker_Calls.thy ===== *)
theory Worker_Calls
  imports Effects
begin

text \<open>
  The store calls that only \<open>Worker\<close> and \<open>Reconciler\<close> of \<open>extra_codeowners/service.py\<close> make,
  each the queue's own operation run on the database of that moment, and the calls of the
  recovery budget, which keeps its rows beside the queue and reads the lease table.
\<close>

section \<open>Claims and their acknowledgements\<close>

definition always :: "(int \<Rightarrow> db \<Rightarrow> db \<times> 'a) \<Rightarrow> int \<Rightarrow> db \<Rightarrow> queue_error + db \<times> 'a" where
  "always f now d = Inr (f now d)"

definition do_claim :: "string \<Rightarrow> int \<Rightarrow> work_class \<Rightarrow> claimed_job option svc" where
  "do_claim worker n wc = store_run (ClaimJob worker n wc) (always (\<lambda>now. claim now worker n (Some wc) True))"

definition do_renew :: "claimed_job \<Rightarrow> int \<Rightarrow> bool svc" where
  "do_renew c n = store_run (RenewJob c n) (always (\<lambda>now. renew_claim now c n))"

definition do_complete :: "claimed_job \<Rightarrow> string \<Rightarrow> bool svc" where
  "do_complete c worker = store_run (CompleteJob c worker) (always (\<lambda>now. complete now c worker))"

definition do_fail :: "claimed_job \<Rightarrow> string \<Rightarrow> string \<Rightarrow> int \<Rightarrow> unit svc" where
  "do_fail c worker err max_delay = store_run (FailJob c worker err max_delay)
     (\<lambda>now d. bind_result (fail_job now c worker err max_delay d) (\<lambda>d'. Inr (d', ())))"

definition do_defer :: "claimed_job \<Rightarrow> string \<Rightarrow> string \<Rightarrow> int \<Rightarrow> int option \<Rightarrow> bool svc" where
  "do_defer c worker err delay limit = store_run (DeferJob c worker err delay limit)
     (\<lambda>now. defer_job now c worker err delay limit)"

definition do_claim_reset :: "string \<Rightarrow> int \<Rightarrow> work_class \<Rightarrow> claimed_head option svc" where
  "do_claim_reset worker n wc = store_run (ClaimReset worker n wc)
     (always (\<lambda>now. claim_shared_head_invalidation now worker n (Some wc)))"

definition do_renew_reset :: "claimed_head \<Rightarrow> int \<Rightarrow> bool svc" where
  "do_renew_reset c n = store_run (RenewReset c n) (always (\<lambda>now. renew_shared_head_invalidation now c n))"

definition do_complete_reset :: "claimed_head \<Rightarrow> bool svc" where
  "do_complete_reset c = store_run (CompleteReset c) (always (\<lambda>now. complete_shared_head_invalidation now c))"

definition do_fail_reset :: "claimed_head \<Rightarrow> string \<Rightarrow> int \<Rightarrow> bool svc" where
  "do_fail_reset c err max_delay = store_run (FailReset c err max_delay)
     (always (\<lambda>now. fail_shared_head_invalidation now c err max_delay))"

definition do_defer_reset :: "claimed_head \<Rightarrow> string \<Rightarrow> int \<Rightarrow> bool svc" where
  "do_defer_reset c err delay = store_run (DeferReset c err delay)
     (always (\<lambda>now. defer_shared_head_invalidation now c err delay))"

section \<open>Authority fences\<close>

definition do_claim_authority :: "string \<Rightarrow> int \<Rightarrow> bool \<Rightarrow> claimed_authority option svc" where
  "do_claim_authority worker n prioritize = store_run (ClaimAuthority worker n prioritize)
     (always (\<lambda>now. claim_authority now worker n prioritize))"

definition do_renew_authority :: "claimed_authority \<Rightarrow> int \<Rightarrow> bool svc" where
  "do_renew_authority c n = store_run (RenewAuthority c n) (always (\<lambda>now. renew_authority_claim now c n))"

definition do_complete_authority :: "claimed_authority \<Rightarrow> string \<Rightarrow> bool svc" where
  "do_complete_authority c worker = store_run (CompleteAuthority c worker) (always (\<lambda>now. complete_authority now c worker))"

definition do_fail_authority :: "claimed_authority \<Rightarrow> string \<Rightarrow> string \<Rightarrow> int \<Rightarrow> int \<Rightarrow> unit svc" where
  "do_fail_authority c worker err max_delay min_delay = store_run (FailAuthority c worker err max_delay min_delay)
     (\<lambda>now d. Inr (fail_authority now c worker err max_delay min_delay d, ()))"

definition do_defer_authority :: "claimed_authority \<Rightarrow> string \<Rightarrow> string \<Rightarrow> int \<Rightarrow> bool \<Rightarrow> bool svc" where
  "do_defer_authority c worker err delay keep = store_run (DeferAuthority c worker err delay keep)
     (always (\<lambda>now. defer_authority now c worker err delay keep))"

definition ask_direct_waiter :: "claimed_authority \<Rightarrow> bool svc" where
  "ask_direct_waiter c = store_read (DirectWaiter c) (\<lambda>now d. Inr (authority_has_direct_waiter d c))"

definition do_membership_page :: "claimed_authority \<Rightarrow> int \<Rightarrow> int option \<Rightarrow> bool svc" where
  "do_membership_page c next_page expected = store_run (MembershipPage c next_page expected)
     (always (\<lambda>now. advance_authority_membership_page now c next_page expected))"

definition do_installation_page :: "claimed_authority \<Rightarrow> authority_request list \<Rightarrow> int \<Rightarrow> int option \<Rightarrow> bool svc" where
  "do_installation_page c requests next_page expected = store_run (InstallationPage c requests next_page expected)
     (\<lambda>now. advance_installation_authority_page now c requests next_page expected)"

definition do_authority_cursor ::
  "claimed_authority \<Rightarrow> int \<Rightarrow> (string \<times> string) list option \<Rightarrow> int option \<Rightarrow> int option \<Rightarrow> bool svc" where
  "do_authority_cursor c number handled next_page last_number =
     store_run (AuthorityCursor c number handled next_page last_number)
       (always (\<lambda>now. advance_authority_cursor now c number handled next_page last_number))"

section \<open>Queueing, backpressure and retention\<close>

definition do_enqueue :: "job_request \<Rightarrow> unit svc" where
  "do_enqueue q = store_run (Enqueue q) (\<lambda>now d. bind_result (enqueue now q d) (\<lambda>d'. Inr (d', ())))"

definition do_enqueue_reconciliation :: "job_request \<Rightarrow> int \<Rightarrow> bool svc" where
  "do_enqueue_reconciliation q recheck = store_run (EnqueueReconciliation q recheck)
     (\<lambda>now. enqueue_reconciliation_if_due now q recheck)"

definition do_backpressure :: "int option \<Rightarrow> string \<Rightarrow> int \<Rightarrow> unit svc" where
  "do_backpressure scope err delay = store_run (Backpressure scope err delay)
     (\<lambda>now d. bind_result (record_provider_backpressure now scope err delay d) (\<lambda>d'. Inr (d', ())))"

definition ask_provider_blocked :: "int option \<Rightarrow> bool svc" where
  "ask_provider_blocked scope = store_read (ProviderBlocked scope) (\<lambda>now. provider_is_backpressured now scope)"

definition do_service_lease :: "string \<Rightarrow> string \<Rightarrow> int \<Rightarrow> bool svc" where
  "do_service_lease name worker n = store_run (ServiceLease name worker n) (always (\<lambda>now. acquire_service_lease now name worker n))"

definition do_release_lease :: "string \<Rightarrow> string \<Rightarrow> bool svc" where
  "do_release_lease name worker = store_run (ReleaseLease name worker) (always (\<lambda>now. release_service_lease name worker))"

definition do_prune_deliveries :: "int \<Rightarrow> int svc" where
  "do_prune_deliveries t = store_run (PruneDeliveries t) (always (\<lambda>now. prune_deliveries t))"

definition do_prune_epochs :: "int \<Rightarrow> int svc" where
  "do_prune_epochs t = store_run (PruneEpochs t) (always (\<lambda>now. prune_shared_head_epochs t))"

definition do_prune_states :: "int \<Rightarrow> int svc" where
  "do_prune_states t = store_run (PruneStates t) (always (\<lambda>now. prune_reconciliation_states t))"

section \<open>Discovery cursors\<close>

fun budget_failure :: "budget_error \<Rightarrow> svc_exc" where
  "budget_failure (BudgetValueError m) = SvcValueError m"
| "budget_failure (RecoveryBudgetDeferred n) = RecoveryDeferred n"
| "budget_failure (ProviderQuotaExhausted n) = QuotaExhausted n"

definition budget_run ::
  "store_call \<Rightarrow> (int \<Rightarrow> int \<Rightarrow> service_lease list \<Rightarrow> budgets \<Rightarrow> budgets \<times> (budget_error + 'a)) \<Rightarrow> 'a svc" where
  "budget_run c f = (\<lambda>en w. let h = w_trace w; d = e_interfere en h (w_db w); bs = e_budgets en h (w_budgets w);
       now = e_clock en h; run = f (e_opened en h) now (leases d) bs;
       after = (\<lambda>bs' x. w\<lparr>w_db := d, w_budgets := bs', w_trace := StoreEvent c now d x # h\<rparr>) in
     case e_fault en h of
       Some (Before x) \<Rightarrow> (Inl x, after bs (Some x))
     | Some (After x) \<Rightarrow> (Inl x, after (fst run) (Some x))
     | None \<Rightarrow> (case snd run of
           Inl e \<Rightarrow> (Inl (budget_failure e), after (fst run) (Some (budget_failure e)))
         | Inr a \<Rightarrow> (Inr a, after (fst run) None)))"

definition ask_repository_cursor :: "int \<Rightarrow> string svc" where
  "ask_repository_cursor i = budget_run (RepositoryCursor i) (\<lambda>t0 now ls. repository_cursor t0 i)"

definition ask_pull_cursor :: "int \<Rightarrow> (string \<times> int) svc" where
  "ask_pull_cursor i = budget_run (PullCursor i) (\<lambda>t0 now ls. pull_cursor t0 i)"

definition do_clear_pull :: "int \<Rightarrow> string \<Rightarrow> unit svc" where
  "do_clear_pull i worker = budget_run (ClearPull i worker) (\<lambda>t0 now ls. clear_pull_cursor t0 now i worker ls)"

definition do_advance_pull :: "int \<Rightarrow> string \<Rightarrow> int \<Rightarrow> string \<Rightarrow> unit svc" where
  "do_advance_pull i full_name number worker = budget_run (AdvancePull i full_name number worker)
     (\<lambda>t0 now. advance_pull t0 now i full_name number worker)"

definition do_advance_repository :: "int \<Rightarrow> string \<Rightarrow> string \<Rightarrow> unit svc" where
  "do_advance_repository i full_name worker = budget_run (AdvanceRepository i full_name worker)
     (\<lambda>t0 now. advance_repository t0 now i full_name worker)"

section \<open>Pages and shared awaits\<close>

definition ask_page :: "git_call \<Rightarrow> (obj list \<times> int \<times> int) svc" where
  "ask_page = answered e_page (\<lambda>(items, n, upcoming). APage items n upcoming)"

text \<open>A rejected payload as an exception, with the reason that the code records.\<close>

definition payload :: "string + 'a \<Rightarrow> 'a svc" where
  "payload r = of_result (map_sum PayloadInvalid id r)"

text \<open>Waiting for the heartbeat task when an attempt ends: \<open>finally\<close> replaces the outcome by
  the exception of the task. The heartbeats of evaluations and resets catch the failures of
  the store, so that only a cancellation reaches the wait; the authority heartbeat does not.\<close>

definition joining :: "bool \<Rightarrow> 'a svc \<Rightarrow> 'a svc" where
  "joining guarded m = (\<lambda>en w. case m en w of (r, w') \<Rightarrow>
     ((case (if \<not> guarded then e_join en (w_trace w')
             else if e_cancelled en (w_trace w') then Some Cancelled else None) of
         None \<Rightarrow> r | Some x \<Rightarrow> Inl x), w'))"

text \<open>\<open>except Exception\<close>: a cancellation is no \<open>Exception\<close>.\<close>

definition except_exception :: "'a svc \<Rightarrow> (svc_exc \<Rightarrow> 'a svc) \<Rightarrow> 'a svc" where
  "except_exception m h = handle m (\<lambda>x. if x = Cancelled then raise_exc x else h x)"

text \<open>\<open>str(error)\<close> of an exception.\<close>

definition message_of :: "svc_exc \<Rightarrow> string svc" where
  "message_of x = ask_env (\<lambda>en _. e_message en x)"

end
