(* ===== verification/Worker_Attempt.thy ===== *)
theory Worker_Attempt
  imports Worker_Calls Service
begin

text \<open>
  One attempt of \<open>Worker\<close> in \<open>extra_codeowners/service.py\<close> at an evaluation or an exact-head
  reset: the heartbeats that renew the lease, and the translation of the way the attempt
  ended into the one store call that acknowledges it. An outcome is the string that the code
  returns for its metrics. Log messages and metrics are left out.
\<close>

section \<open>Leases\<close>

definition slot_owner :: "string \<Rightarrow> string \<Rightarrow> nat \<Rightarrow> string" where
  "slot_owner worker lane slot = take 96 worker @ '':'' @ lane @ '':'' @ show_int (int slot)"

text \<open>The heartbeats, by the number of intervals that pass before the attempt is over. That of a
  reset returns whether it found the lease lost.\<close>

fun renew_lease :: "settings \<Rightarrow> claimed_job \<Rightarrow> nat \<Rightarrow> unit svc" where
  "renew_lease st job 0 = ret ()"
| "renew_lease st job (Suc n) =
     seq (except_exception (do_renew job (s_lease_seconds st)) (\<lambda>_. ret False)) (\<lambda>renewed.
       if renewed then renew_lease st job n else ret ())"

fun renew_shared_head_lease :: "settings \<Rightarrow> claimed_head \<Rightarrow> nat \<Rightarrow> bool svc" where
  "renew_shared_head_lease st job 0 = ret False"
| "renew_shared_head_lease st job (Suc n) =
     seq (except_exception (do_renew_reset job (s_lease_seconds st)) (\<lambda>_. ret False)) (\<lambda>renewed.
       if renewed then renew_shared_head_lease st job n else ret True)"

text \<open>The authority heartbeat does not catch a failure of the store.\<close>

fun renew_authority_lease :: "settings \<Rightarrow> claimed_authority \<Rightarrow> nat \<Rightarrow> unit svc" where
  "renew_authority_lease st job 0 = ret ()"
| "renew_authority_lease st job (Suc n) =
     seq (do_renew_authority job (s_lease_seconds st)) (\<lambda>renewed.
       if renewed then renew_authority_lease st job n else ret ())"

section \<open>Exact-head resets\<close>

definition updated_or :: "string \<Rightarrow> bool \<Rightarrow> string" where
  "updated_or outcome updated = (if updated then outcome else ''superseded'')"

definition backpressure_scope :: "int \<Rightarrow> bool \<Rightarrow> int option" where
  "backpressure_scope i global_scope = (if global_scope then None else Some i)"

definition reset_failed :: "settings \<Rightarrow> claimed_head \<Rightarrow> svc_exc \<Rightarrow> string svc" where
  "reset_failed st job x = seq (message_of x) (\<lambda>m.
     let deferred = (\<lambda>n outcome. seq (do_defer_reset job m n) (\<lambda>updated. ret (updated_or outcome updated))) in
     case x of
       SharedHeadLeaseLost _ \<Rightarrow> ret ''superseded''
     | RecoveryDeferred n \<Rightarrow> deferred n ''budget_deferred''
     | QuotaExhausted n \<Rightarrow> deferred n ''budget_deferred''
     | GitHubRateLimit n g \<Rightarrow> seq (do_backpressure (backpressure_scope (ch_installation job) g) m n)
         (\<lambda>_. deferred n ''rate_limited'')
     | Cancelled \<Rightarrow> raise_exc Cancelled
     | _ \<Rightarrow> seq (do_fail_reset job m (s_retry_max_seconds st)) (\<lambda>updated. ret (updated_or ''failed'' updated)))"

definition process_shared_head :: "settings \<Rightarrow> claimed_head \<Rightarrow> string svc" where
  "process_shared_head st job = joining True (
     seq (attempt (invalidate_shared_head st job)) (\<lambda>r. case r of
       Inl x \<Rightarrow> reset_failed st job x
     | Inr _ \<Rightarrow> seq (ask_env e_lost) (\<lambda>lost.
         seq (if lost then ret False else do_complete_reset job) (\<lambda>completed. ret (updated_or ''completed'' completed)))))"

section \<open>Evaluations\<close>

definition poll_times :: "settings \<Rightarrow> int \<Rightarrow> int" where
  \<comment> \<open>\<open>int(worker_poll_seconds * n)\<close>\<close>
  "poll_times st n = s_poll_micros st * n div 1000000"

definition evaluation_failed :: "settings \<Rightarrow> claimed_job \<Rightarrow> string \<Rightarrow> svc_exc \<Rightarrow> string svc" where
  "evaluation_failed st job worker x = seq (message_of x) (\<lambda>m.
     let deferred = (\<lambda>n limit outcome. seq (do_defer job worker m n limit) (\<lambda>_. ret outcome)) in
     case x of
       RecoveryDeferred n \<Rightarrow> deferred n (Some (s_recheck_seconds st)) ''budget_deferred''
     | QuotaExhausted n \<Rightarrow> deferred n (Some (s_recheck_seconds st)) ''budget_deferred''
     | GitHubRateLimit n g \<Rightarrow> seq (do_backpressure (backpressure_scope (c_installation job) g) m n)
         (\<lambda>_. deferred n (Some (s_recheck_seconds st)) ''rate_limited'')
     | AuthorityChangePending _ \<Rightarrow> deferred (max 5 (poll_times st 10)) None ''authority_deferred''
     | SharedHeadInvalidationPending _ \<Rightarrow> deferred (max 1 (poll_times st 2)) None ''invalidation_deferred''
     | Cancelled \<Rightarrow> raise_exc Cancelled
     | _ \<Rightarrow> seq (do_fail job worker m (s_retry_max_seconds st)) (\<lambda>_. ret ''failed''))"

definition process :: "settings \<Rightarrow> claimed_job \<Rightarrow> string \<Rightarrow> string svc" where
  "process st job worker = joining True (
     seq (attempt (evaluate_job st job)) (\<lambda>r. case r of
       Inl x \<Rightarrow> evaluation_failed st job worker x
     | Inr _ \<Rightarrow> seq (do_complete job worker) (\<lambda>completed. ret (updated_or ''completed'' completed))))"

end
