(* ===== verification/Worker_Authority.thy ===== *)
theory Worker_Authority
  imports Worker_Attempt
begin

text \<open>
  The fan-out of an authority fence by \<open>Worker\<close> in \<open>extra_codeowners/service.py\<close>. An
  installation-wide fence becomes one fence per repository; the fence of a repository queues
  and revokes every open pull request in its scope, page by page, with a durable checkpoint
  after each. The first argument of the loops over pages bounds the run: an attempt that is
  still listing after so many pages is cancelled there, as at a shutdown of the process. The
  tasks of one page run one after the other, with the database changing between any two
  calls; their memoised policy lookups are kept in the world.
\<close>

section \<open>Absence of a repository\<close>

definition ABSENT_STATUSES :: "int set" where "ABSENT_STATUSES = {301, 308, 404, 410}"

text \<open>The status of a \<open>GitHubAPIError\<close>; the rate-limited ones have 403 or 429.\<close>

fun absent_error :: "svc_exc \<Rightarrow> bool" where
  "absent_error (GitHubApi status _) \<longleftrightarrow> status \<in> ABSENT_STATUSES"
| "absent_error _ \<longleftrightarrow> False"

definition listed_repositories :: "obj list \<Rightarrow> (string \<times> bool) list svc" where
  "listed_repositories items = payload (reconciliation_repositories (JList (map JObj items)))"

definition restarting :: "'a svc \<Rightarrow> unit svc \<Rightarrow> 'a svc" where
  \<comment> \<open>a changed population needs a new enumeration\<close>
  "restarting m restart = handle m (\<lambda>x. case x of
     RepositoriesChanged _ \<Rightarrow> seq restart (\<lambda>_. raise_exc x) | _ \<Rightarrow> raise_exc x)"

fun absent_pages :: "nat \<Rightarrow> claimed_authority \<Rightarrow> string \<Rightarrow> int \<Rightarrow> int option \<Rightarrow> bool svc" where
  "absent_pages n job name next_page expected = (if next_page = 0 then ret True else (case n of
     0 \<Rightarrow> raise_exc Cancelled
   | Suc n \<Rightarrow>
       seq (restarting (ask_page (ListRepositoryPage (ca_installation job) next_page expected))
         (seq (do_membership_page job 1 None) (\<lambda>_. ret ()))) (\<lambda>(items, total, upcoming).
       seq (listed_repositories items) (\<lambda>repositories.
         if list_ex (\<lambda>p. fst p = name) repositories then ret False
         else seq (do_membership_page job upcoming (Some total)) (\<lambda>current.
           if \<not> current then raise_exc (GitHubError ''repository membership corroboration claim was superseded'')
           else absent_pages n job name upcoming (Some total))))))"

declare absent_pages.simps [simp del]

definition authority_repository_absent :: "nat \<Rightarrow> claimed_authority \<Rightarrow> bool svc" where
  "authority_repository_absent n job = (case ca_repo job of
     None \<Rightarrow> raise_exc (GitHubError ''repository membership check requires a repository scope'')
   | Some name \<Rightarrow> seq (absent_pages n job name (ca_member_page job) (ca_member_expected job)) (\<lambda>absent.
       if \<not> absent then ret False
       else seq (ask_bool (IncludesCurrently (ca_installation job) name)) (\<lambda>included. ret (\<not> included))))"

section \<open>Installation-wide fences\<close>

definition child_fences :: "settings \<Rightarrow> claimed_authority \<Rightarrow> (string \<times> bool) list \<Rightarrow> authority_request list svc" where
  "child_fences st job repositories = collect
     (filter (\<lambda>p. \<not> snd p \<and> \<not> is_organization_config_repository st (fst p)) repositories)
     (\<lambda>p. of_queue (make_authority_request (ca_installation job) (Some (fst p)) None (ca_reason job)))"

fun installation_pages :: "nat \<Rightarrow> settings \<Rightarrow> claimed_authority \<Rightarrow> int \<Rightarrow> int option \<Rightarrow> unit svc" where
  "installation_pages n st job next_page expected = (if next_page = 0 then ret () else (case n of
     0 \<Rightarrow> raise_exc Cancelled
   | Suc n \<Rightarrow>
       seq (restarting (ask_page (ListRepositoryPage (ca_installation job) next_page expected))
         (seq (do_installation_page job [] 1 None) (\<lambda>_. ret ()))) (\<lambda>(items, total, upcoming).
       seq (listed_repositories items) (\<lambda>repositories.
       seq (child_fences st job repositories) (\<lambda>children.
       seq (do_installation_page job children upcoming (Some total)) (\<lambda>current.
         if \<not> current then ret () else installation_pages n st job upcoming (Some total)))))))"

declare installation_pages.simps [simp del]

section \<open>The scope of a repository fence\<close>

text \<open>Whether the repository still has to be listed.\<close>

definition membership_checked :: "nat \<Rightarrow> claimed_authority \<Rightarrow> string \<Rightarrow> bool svc" where
  "membership_checked n job name = handle
     (seq (ask_bool (IncludesCurrently (ca_installation job) name)) (\<lambda>included.
        if \<not> included then seq (authority_repository_absent n job) (\<lambda>absent. if absent then ret False
          else raise_exc (GitHubError ''repository authority membership evidence is inconsistent''))
        else if ca_reason job = ''installation_repositories.added''
        then seq (ask_obj (GetRepository (ca_installation job) name)) (\<lambda>metadata.
          seq (payload (reconciliation_repository (JObj metadata))) (\<lambda>(current_name, archived).
            if current_name \<noteq> name then raise_exc (GitHubError ''repository addition metadata changed its full name'')
            else ret (\<not> archived)))
        else ret True))
     (\<lambda>x. if \<not> absent_error x then raise_exc x
        else seq (authority_repository_absent n job) (\<lambda>absent. if absent then ret False else raise_exc x))"

text \<open>What one listed pull request leads to: \<open>None\<close> when it is outside the scope, otherwise its
  number, its fingerprint and the request, unless the fingerprint is the recorded one.\<close>

definition ref_of :: "obj \<Rightarrow> string option" where
  "ref_of pull = (case as_obj (get_key ''base'' pull) of None \<Rightarrow> None | Some base \<Rightarrow> as_str (get_key ''ref'' base))"

definition in_scope :: "claimed_authority \<Rightarrow> string option \<Rightarrow> bool" where
  "in_scope job base_ref \<longleftrightarrow> (case ca_base job of None \<Rightarrow> True | Some b \<Rightarrow> base_ref = Some b) \<and>
     (ca_targets job = [] \<or> (case base_ref of None \<Rightarrow> False | Some b \<Rightarrow> map_of (ca_targets job) b \<noteq> None))"

definition fan_out_reason :: "claimed_authority \<Rightarrow> string option \<Rightarrow> string" where
  "fan_out_reason job base_ref = (case base_ref of None \<Rightarrow> ca_reason job
     | Some b \<Rightarrow> (case map_of (ca_targets job) b of None \<Rightarrow> ca_reason job | Some r \<Rightarrow> r))"

definition observation :: "int \<Rightarrow> string \<Rightarrow> obj \<Rightarrow> string svc" where
  "observation number sha pull = ask_env (\<lambda>en _. e_fingerprint en [JInt number, JStr sha,
     (case as_obj (get_key ''base'' pull) of None \<Rightarrow> JNull | Some base \<Rightarrow> get_key ''ref'' base),
     get_key ''updated_at'' pull])"

definition listed_pull ::
  "claimed_authority \<Rightarrow> string \<Rightarrow> (string \<times> string) list \<Rightarrow> obj \<Rightarrow> (int \<times> string \<times> job_request option) option svc" where
  "listed_pull job name handled pull = (case as_int (get_key ''number'' pull) of
     None \<Rightarrow> raise_exc (GitHubError ''open pull response omitted its number'')
   | Some number \<Rightarrow> (case (case as_obj (get_key ''head'' pull) of None \<Rightarrow> None | Some head \<Rightarrow> as_str (get_key ''sha'' head)) of
       None \<Rightarrow> raise_exc (GitHubError ''open pull response omitted its head SHA'')
     | Some sha \<Rightarrow>
         if (ca_base job \<noteq> None \<or> ca_targets job \<noteq> []) \<and> ref_of pull = None
         then raise_exc (GitHubError ''open pull response omitted its base ref'')
         else if \<not> in_scope job (ref_of pull) then ret None
         else seq (observation number sha pull) (\<lambda>seen.
           if map_of handled (show_int number) = Some seen then ret (Some (number, seen, None))
           else seq (of_queue (make_job_request (ca_installation job) name number (fan_out_reason job (ref_of pull))
               (Some sha) ''recovery'' None (case ref_of pull of None \<Rightarrow> None
                  | Some b \<Rightarrow> if 0 < length b \<and> length b \<le> 255 then Some b else None))) (\<lambda>q.
             ret (Some (number, seen, Some q))))))"

section \<open>Revoking one pull request\<close>

definition looked_up_policy :: "settings \<Rightarrow> int \<Rightarrow> string \<Rightarrow> string \<Rightarrow> bool svc" where
  "looked_up_policy st i name base_ref = seq (ask_text (GetBranchHead i name base_ref)) (\<lambda>sha.
     seq (repository_policy_text st i name sha) (\<lambda>t. ret (t \<noteq> None)))"

definition policy_present :: "settings \<Rightarrow> int \<Rightarrow> string \<Rightarrow> string \<Rightarrow> bool svc" where
  "policy_present st i name base_ref = (\<lambda>en w. case map_of (w_memo w) base_ref of
     Some r \<Rightarrow> (r, w)
   | None \<Rightarrow> (case looked_up_policy st i name base_ref en w of (r, w') \<Rightarrow>
       (r, if r = Inl Cancelled then w' else w'\<lparr>w_memo := (base_ref, r) # w_memo w'\<rparr>)))"

definition forget_policies :: "unit svc" where
  "forget_policies = (\<lambda>en w. (Inr (), w\<lparr>w_memo := []\<rparr>))"

text \<open>\<open>replace(request, work_class="interactive")\<close>\<close>

definition promoted :: "job_request \<Rightarrow> job_request svc" where
  "promoted q = of_queue (make_job_request (q_installation q) (q_repo q) (q_pull q) (q_reason q) (q_head q)
     ''interactive'' None (q_base q))"

definition revoke :: "settings \<Rightarrow> claimed_authority \<Rightarrow> string \<Rightarrow> job_request \<Rightarrow> unit svc" where
  "revoke st job name q = (let policy = Some (policy_present st (ca_installation job) name) in
     handle
       (seq (authority_followup_required st policy q) (\<lambda>required. if \<not> required then ret ()
        else seq (do_enqueue q) (\<lambda>_. seq (promoted q) (\<lambda>q'. seq (invalidate_for_trigger st policy q' None) (\<lambda>_. ret ())))))
       (\<lambda>x. case x of
          RecoveryDeferred _ \<Rightarrow> raise_exc x
        | QuotaExhausted _ \<Rightarrow> raise_exc x
        | Cancelled \<Rightarrow> raise_exc x
        | GitHubRateLimit _ _ \<Rightarrow> seq (except_exception (seq (promoted q) do_enqueue) (\<lambda>_. ret ())) (\<lambda>_. raise_exc x)
        | _ \<Rightarrow> seq (promoted q) do_enqueue))"

section \<open>One page\<close>

text \<open>Only the successful contiguous prefix of the batch is checkpointed.\<close>

fun handled_prefix ::
  "(int \<times> string) list \<Rightarrow> (job_request \<times> (svc_exc + unit)) list \<Rightarrow> int \<Rightarrow> (string \<times> string) list \<Rightarrow> int \<times> (string \<times> string) list" where
  "handled_prefix seen [] number handled = (number, handled)"
| "handled_prefix seen ((q, r) # rest) number handled = (case r of
     Inl _ \<Rightarrow> (number, handled)
   | Inr _ \<Rightarrow> handled_prefix seen rest (q_pull q)
       (AList.update (show_int (q_pull q)) (the (map_of seen (q_pull q))) handled))"

definition observed :: "(int \<times> string \<times> job_request option) list \<Rightarrow> (int \<times> string) list" where
  "observed entries = rev (map (\<lambda>(number, seen, _). (number, seen)) entries)"

fun retry_seconds :: "svc_exc \<Rightarrow> int" where
  "retry_seconds (GitHubRateLimit n _) = n" | "retry_seconds _ = 0"

fun rate_limited :: "svc_exc \<Rightarrow> bool" where
  "rate_limited (GitHubRateLimit _ _) \<longleftrightarrow> True" | "rate_limited _ \<longleftrightarrow> False"

fun globally_limited :: "svc_exc \<Rightarrow> bool" where
  "globally_limited (GitHubRateLimit _ g) \<longleftrightarrow> g" | "globally_limited _ \<longleftrightarrow> False"

definition longest :: "svc_exc list \<Rightarrow> svc_exc" where
  \<comment> \<open>\<open>max\<close> by the delay: the first of the longest\<close>
  "longest xs = foldl (\<lambda>m x. if retry_seconds m < retry_seconds x then x else m) (hd xs) (tl xs)"

definition raise_outcomes :: "(svc_exc + unit) list \<Rightarrow> unit svc" where
  "raise_outcomes outcomes = (let errors = map projl (filter isl outcomes); limits = filter rate_limited errors;
       shared = filter globally_limited limits in
     if limits \<noteq> []
     then seq (when_svc (shared \<noteq> []) (seq (message_of (longest shared)) (\<lambda>m.
         do_backpressure None m (retry_seconds (longest shared))))) (\<lambda>_. raise_exc (longest limits))
     else if errors \<noteq> [] then raise_exc (hd errors) else ret ())"

text \<open>The work of a page; the result is the number of the last pull request it handled.\<close>

definition fan_out_page ::
  "settings \<Rightarrow> claimed_authority \<Rightarrow> string \<Rightarrow> (string \<times> string) list \<Rightarrow> obj list \<Rightarrow> int svc" where
  "fan_out_page st job name handled pulls =
     seq (collect pulls (listed_pull job name handled)) (\<lambda>found.
       let entries = List.map_filter id found; seen = observed entries;
           batch = sort_key q_pull (List.map_filter (\<lambda>(_, _, q). q) entries);
           kept = filter (\<lambda>p. \<exists>x \<in> set seen. show_int (fst x) = fst p) handled in
       seq (run_all (map (revoke st job name) batch)) (\<lambda>outcomes.
       case handled_prefix seen (zip batch outcomes) 0 kept of (number, handled') \<Rightarrow>
       seq (if number = 0 then ret True else do_authority_cursor job number (Some handled') None None) (\<lambda>current.
         if \<not> current then raise_exc (GitHubError ''authority discovery lost its claim before checkpointing'')
         else seq (raise_outcomes outcomes) (\<lambda>_. ret number))))"

definition authority_page :: "nat \<Rightarrow> claimed_authority \<Rightarrow> string \<Rightarrow> int \<Rightarrow> int \<Rightarrow> (obj list \<times> int \<times> int) option svc" where
  "authority_page n job name next_page last_number = handle
     (seq (ask_page (ListAuthorityPage (ca_installation job) name next_page last_number)) (\<lambda>p. ret (Some p)))
     (\<lambda>x. if \<not> absent_error x then raise_exc x
        else seq (authority_repository_absent n job) (\<lambda>absent. if absent then ret None else raise_exc x))"

fun authority_pages ::
  "nat \<Rightarrow> settings \<Rightarrow> claimed_authority \<Rightarrow> string \<Rightarrow> int \<Rightarrow> int \<Rightarrow> int \<Rightarrow> (string \<times> string) list \<Rightarrow> unit svc" where
  "authority_pages n st job name next_page last_number completed handled =
     (if next_page = 0 then ret () else (case n of
        0 \<Rightarrow> raise_exc Cancelled
      | Suc n \<Rightarrow> seq (authority_page n job name next_page last_number) (\<lambda>page. case page of
            None \<Rightarrow> ret ()
          | Some (pulls, last_number, upcoming) \<Rightarrow>
              seq (fan_out_page st job name handled pulls) (\<lambda>number.
              seq (do_authority_cursor job (max completed number) (Some []) (Some upcoming) (Some last_number)) (\<lambda>current.
                if \<not> current then raise_exc (GitHubError ''authority discovery lost its claim before page checkpointing'')
                else authority_pages n st job name upcoming last_number (max completed number) [])))))"

declare authority_pages.simps [simp del]

section \<open>The whole fan-out\<close>

definition discover_authority :: "nat \<Rightarrow> settings \<Rightarrow> claimed_authority \<Rightarrow> unit svc" where
  "discover_authority n st job = (case ca_repo job of
     None \<Rightarrow> installation_pages n st job (ca_page job) (ca_expected job)
   | Some name \<Rightarrow> seq (membership_checked n job name) (\<lambda>go_on. if \<not> go_on then ret ()
       else seq forget_policies (\<lambda>_.
         authority_pages n st job name (ca_page job) (ca_last job) (ca_cursor job) (ca_fingerprints job))))"

definition execute_authority :: "nat \<Rightarrow> settings \<Rightarrow> claimed_authority \<Rightarrow> unit svc" where
  "execute_authority n st job = seq (ask_direct_waiter job) (\<lambda>_. discover_authority n st job)"

definition authority_failed :: "settings \<Rightarrow> claimed_authority \<Rightarrow> string \<Rightarrow> svc_exc \<Rightarrow> string svc" where
  "authority_failed st job worker x = seq (message_of x) (\<lambda>m.
     let deferred = (\<lambda>n keep outcome. seq (do_defer_authority job worker m n keep) (\<lambda>_. ret outcome));
         failed = (\<lambda>max_delay min_delay outcome. seq (do_fail_authority job worker m max_delay min_delay) (\<lambda>_. ret outcome)) in
     case x of
       RecoveryDeferred n \<Rightarrow> deferred n True ''budget_deferred''
     | QuotaExhausted n \<Rightarrow> deferred n False ''budget_deferred''
     | GitHubRateLimit n g \<Rightarrow> seq (do_backpressure (backpressure_scope (ca_installation job) g) m n)
         (\<lambda>_. deferred n False ''rate_limited'')
     | Cancelled \<Rightarrow> raise_exc Cancelled
     | GitHubApi status _ \<Rightarrow>
         if status \<in> {404, 410} then failed (s_inaccessible_retry_max_seconds st) 300 ''inaccessible''
         else failed (s_retry_max_seconds st) 1 ''failed''
     | _ \<Rightarrow> failed (s_retry_max_seconds st) 1 ''failed'')"

definition process_authority :: "nat \<Rightarrow> settings \<Rightarrow> claimed_authority \<Rightarrow> string \<Rightarrow> string svc" where
  "process_authority n st job worker = joining False (
     seq (attempt (execute_authority n st job)) (\<lambda>r. case r of
       Inl x \<Rightarrow> authority_failed st job worker x
     | Inr _ \<Rightarrow> seq (do_complete_authority job worker) (\<lambda>completed. ret (updated_or ''completed'' completed))))"

end
