(* ===== verification/Worker.thy ===== *)
theory Worker
  imports Worker_Authority
begin

text \<open>
  The lanes of \<open>Worker\<close> in \<open>extra_codeowners/service.py\<close>. A lane claims one piece of work,
  processes it and starts again; a failure is logged and followed by a pause, a cancellation
  ends the lane. A turn returns whether the lane goes on without a pause. The loops are bounded
  by the number of turns; \<open>pages\<close> bounds the listings of an authority attempt. The task group of \<open>run\<close> is the
  list of its lanes; the gauges of the metrics task are not modelled.
\<close>

definition wait_for_work :: "unit svc" where
  "wait_for_work = seq (ask_env e_stop) (\<lambda>stop. if stop then ret ()
     else seq (ask_env e_cancelled) (\<lambda>cancelled. if cancelled then raise_exc Cancelled else ret ()))"

definition stopped :: "env \<Rightarrow> trace \<Rightarrow> bool" where "stopped = e_stop"

fun slot_loop :: "nat \<Rightarrow> ('s \<Rightarrow> ('s \<times> bool) svc) \<Rightarrow> 's \<Rightarrow> unit svc" where
  "slot_loop 0 turn s = ret ()"
| "slot_loop (Suc n) turn s = seq (ask_env stopped) (\<lambda>stop. if stop then ret ()
     else seq (turn s) (\<lambda>(s', worked). seq (if worked then ret () else wait_for_work) (\<lambda>_. slot_loop n turn s')))"

section \<open>Turns\<close>

text \<open>The body of \<open>try\<close>: what it claims is processed and the lane continues.\<close>

definition slot_turn :: "'a option svc \<Rightarrow> ('a \<Rightarrow> string svc) \<Rightarrow> bool svc" where
  "slot_turn claims work = except_exception
     (seq claims (\<lambda>job. case job of None \<Rightarrow> ret False | Some job \<Rightarrow> seq (work job) (\<lambda>_. ret True))) (\<lambda>_. ret False)"

definition first_claim :: "'a option svc \<Rightarrow> 'a option svc \<Rightarrow> 'a option svc" where
  "first_claim m k = seq m (\<lambda>job. case job of None \<Rightarrow> k | Some j \<Rightarrow> ret (Some j))"

definition invalidation_turn :: "settings \<Rightarrow> string \<Rightarrow> nat \<Rightarrow> bool \<Rightarrow> bool svc" where
  "invalidation_turn st worker slot recovery_first =
     (let claims = do_claim_reset (slot_owner worker ''invalidation'' slot) (s_lease_seconds st) in
      slot_turn (if recovery_first then first_claim (claims Recovery) (claims Interactive)
                 else first_claim (claims Interactive) (claims Recovery)) (process_shared_head st))"

definition foreground_turn :: "settings \<Rightarrow> string \<Rightarrow> nat \<Rightarrow> bool svc" where
  "foreground_turn st worker slot = (let slot_name = slot_owner worker ''foreground'' slot in
     slot_turn (do_claim slot_name (s_lease_seconds st) Interactive) (\<lambda>job. process st job slot_name))"

definition recovery_turn :: "settings \<Rightarrow> string \<Rightarrow> nat \<Rightarrow> bool svc" where
  "recovery_turn st worker slot =
     (let slot_name = slot_owner worker ''recovery'' slot; claims = do_claim slot_name (s_lease_seconds st) in
      slot_turn (first_claim (claims Recovery) (claims Interactive)) (\<lambda>job. process st job slot_name))"

text \<open>Every fourth claim of an authority lane does not prioritise the fences that direct events
  wait for.\<close>

definition authority_turn :: "nat \<Rightarrow> settings \<Rightarrow> string \<Rightarrow> nat \<Rightarrow> nat \<Rightarrow> (nat \<times> bool) svc" where
  "authority_turn pages st worker slot claim_sequence = (let slot_name = slot_owner worker ''authority'' slot in
     seq (except_exception (do_claim_authority slot_name (s_lease_seconds st) (claim_sequence \<noteq> 3)) (\<lambda>_. ret None)) (\<lambda>job.
       case job of None \<Rightarrow> ret (claim_sequence, False)
       | Some job \<Rightarrow> seq (slot_turn (ret (Some job)) (\<lambda>job. process_authority pages st job slot_name)) (\<lambda>worked.
           ret ((claim_sequence + 1) mod 4, worked))))"

section \<open>Lanes\<close>

datatype lane = Invalidation nat bool | Foreground nat | Recovering nat | Authority nat

definition lanes :: "settings \<Rightarrow> lane list" where
  "lanes st = map (\<lambda>slot. Invalidation slot (slot = 0)) [0..<s_invalidation st] @ map Foreground [0..<s_foreground st] @
     map Recovering [0..<s_recovery st] @ map Authority [0..<s_authority st]"

definition stateless :: "bool svc \<Rightarrow> nat \<Rightarrow> (nat \<times> bool) svc" where
  "stateless turn s = seq turn (\<lambda>worked. ret (s, worked))"

fun lane_turn :: "nat \<Rightarrow> settings \<Rightarrow> string \<Rightarrow> lane \<Rightarrow> nat \<Rightarrow> (nat \<times> bool) svc" where
  "lane_turn pages st worker (Invalidation slot recovery_first) = stateless (invalidation_turn st worker slot recovery_first)"
| "lane_turn pages st worker (Foreground slot) = stateless (foreground_turn st worker slot)"
| "lane_turn pages st worker (Recovering slot) = stateless (recovery_turn st worker slot)"
| "lane_turn pages st worker (Authority slot) = authority_turn pages st worker slot"

definition run_lane :: "nat \<Rightarrow> nat \<Rightarrow> settings \<Rightarrow> string \<Rightarrow> lane \<Rightarrow> unit svc" where
  "run_lane turns pages st worker lane = slot_loop turns (lane_turn pages st worker lane) 0"

fun lane_owner :: "string \<Rightarrow> lane \<Rightarrow> string" where
  "lane_owner worker (Invalidation slot _) = slot_owner worker ''invalidation'' slot"
| "lane_owner worker (Foreground slot) = slot_owner worker ''foreground'' slot"
| "lane_owner worker (Recovering slot) = slot_owner worker ''recovery'' slot"
| "lane_owner worker (Authority slot) = slot_owner worker ''authority'' slot"

end
