(* ===== verification/Reconciler.thy ===== *)
theory Reconciler
  imports Worker_Calls Service
begin

text \<open>
  \<open>Reconciler\<close> of \<open>extra_codeowners/service.py\<close>: the elected scan that finds every open pull
  request again. The two events that interrupt it, the lost lease and the stop of the process,
  are polled in the environment; the combined event that interrupts a request shows as
  \<open>OperationStopped\<close>. The counters that the nested loops share are returned by them: an
  installation ends normally, interrupted, or with one of the failures that the scan records
  before it goes on with the next. Log messages and metrics are left out.
\<close>

section \<open>Outcomes\<close>

record reconciliation_outcome =
  o_queued :: int
  o_failed :: int
  o_lost :: bool
  o_stopped :: bool
  o_deferred :: bool

definition outcome_complete :: "reconciliation_outcome \<Rightarrow> bool" where
  "outcome_complete r \<longleftrightarrow> o_failed r = 0 \<and> \<not> o_lost r \<and> \<not> o_stopped r \<and> \<not> o_deferred r"

definition interrupted :: "bool svc" where
  "interrupted = ask_env (\<lambda>en h. e_lost en h \<or> e_stop en h)"

definition outcome_now :: "int \<Rightarrow> int \<Rightarrow> bool \<Rightarrow> bool \<Rightarrow> reconciliation_outcome svc" where
  "outcome_now queued failed stopped deferred = ask_env (\<lambda>en h. \<lparr>o_queued = queued, o_failed = failed,
     o_lost = e_lost en h, o_stopped = e_stop en h \<or> stopped, o_deferred = deferred\<rparr>)"

definition RECONCILER_LEASE :: string where "RECONCILER_LEASE = ''open-pr-reconciler''"

definition heartbeat_lease :: "settings \<Rightarrow> int" where
  "heartbeat_lease st = max 300 (s_interval_seconds st * 2)"

text \<open>The heartbeat, by the number of intervals that pass; it returns whether the lease is lost.\<close>

fun renew_reconciler_lease :: "string \<Rightarrow> int \<Rightarrow> nat \<Rightarrow> bool svc" where
  "renew_reconciler_lease worker lease_seconds 0 = ret False"
| "renew_reconciler_lease worker lease_seconds (Suc n) =
     seq (except_exception (do_service_lease RECONCILER_LEASE worker lease_seconds) (\<lambda>_. ret False)) (\<lambda>renewed.
       if renewed then renew_reconciler_lease worker lease_seconds n else ret True)"

section \<open>One pull request\<close>

fun is_github_error :: "svc_exc \<Rightarrow> bool" where
  \<comment> \<open>the \<open>GitHubError\<close>s other than the rate limit and the stop\<close>
  "is_github_error (GitHubError _) \<longleftrightarrow> True"
| "is_github_error (GitHubApi _ _) \<longleftrightarrow> True"
| "is_github_error (PullRequestTooLarge _) \<longleftrightarrow> True"
| "is_github_error (RepositoriesChanged _) \<longleftrightarrow> True"
| "is_github_error (EvidenceLimit _) \<longleftrightarrow> True"
| "is_github_error _ \<longleftrightarrow> False"

definition base_of :: "obj \<Rightarrow> string option" where
  "base_of pull = (case as_obj (get_key ''base'' pull) of None \<Rightarrow> None
     | Some base \<Rightarrow> (case as_str (get_key ''ref'' base) of Some b \<Rightarrow> if b = [] then None else Some b | None \<Rightarrow> None))"

text \<open>An unreadable policy is not absence.\<close>

definition read_policy :: "settings \<Rightarrow> int \<Rightarrow> string \<Rightarrow> string \<Rightarrow> bool svc" where
  "read_policy st i name base_ref = handle
     (seq (ask_text (GetBranchHead i name base_ref)) (\<lambda>sha.
      seq (ask_opt_text (GetFileText i name (s_policy_path st) (Some sha))) (\<lambda>t. ret (t \<noteq> None))))
     (\<lambda>x. if is_github_error x then ret True else raise_exc x)"

definition policy_of_base ::
  "settings \<Rightarrow> int \<Rightarrow> string \<Rightarrow> (string \<times> bool) list \<Rightarrow> string \<Rightarrow> ((string \<times> bool) list \<times> bool) svc" where
  "policy_of_base st i name known base_ref = (case map_of known base_ref of
     Some b \<Rightarrow> ret (known, b)
   | None \<Rightarrow> seq (read_policy st i name base_ref) (\<lambda>b. ret ((base_ref, b) # known, b)))"

text \<open>Whether both absences were observed; \<open>None\<close> is an interruption.\<close>

definition unenrolled ::
  "settings \<Rightarrow> int \<Rightarrow> string \<Rightarrow> string \<Rightarrow> (string \<times> bool) list \<Rightarrow> string option \<Rightarrow> ((string \<times> bool) list \<times> bool) option svc" where
  "unenrolled st i name head known base_ref = (case base_ref of
     None \<Rightarrow> ret (Some (known, False))
   | Some b \<Rightarrow> seq (policy_of_base st i name known b) (\<lambda>(known, present).
       seq interrupted (\<lambda>halt. if halt then ret None
       else if present then ret (Some (known, False))
       else seq (ask_bool (HasReconciliationCheck i name head (s_check_name st))) (\<lambda>managed.
         seq interrupted (\<lambda>halt. if halt then ret None else ret (Some (known, \<not> managed)))))))"

definition recovery_request :: "int \<Rightarrow> string \<Rightarrow> int \<Rightarrow> string \<Rightarrow> int \<Rightarrow> string option \<Rightarrow> job_request svc" where
  "recovery_request i name number head observed_at base_ref = of_queue (make_job_request i name number
     PERIODIC_RECONCILIATION_REASON (Some head) ''recovery'' (Some (True, observed_at))
     (case base_ref of None \<Rightarrow> None | Some b \<Rightarrow> if length b \<le> 255 then Some b else None))"

text \<open>The result is the known policies, or \<open>None\<close> when the scan was interrupted.\<close>

definition count_queued :: "bool \<Rightarrow> unit svc" where
  "count_queued added = (\<lambda>en w. (Inr (), if added then w\<lparr>w_queued := w_queued w + 1\<rparr> else w))"

definition reconcile_pull ::
  "settings \<Rightarrow> string \<Rightarrow> int \<Rightarrow> string \<Rightarrow> int \<Rightarrow> (string \<times> bool) list \<Rightarrow> (int \<times> string) \<times> obj \<Rightarrow>
     (string \<times> bool) list option svc" where
  "reconcile_pull st worker i name observed_at known p = (case p of ((number, head), pull) \<Rightarrow>
     seq (unenrolled st i name head known (base_of pull)) (\<lambda>r. case r of
       None \<Rightarrow> ret None
     | Some (known, skip) \<Rightarrow>
         if skip then seq (do_advance_pull i name number worker) (\<lambda>_. ret (Some known))
         else seq (recovery_request i name number head observed_at (base_of pull)) (\<lambda>q.
           seq (do_enqueue_reconciliation q (s_recheck_seconds st)) (\<lambda>added.
           seq (count_queued added) (\<lambda>_.
           seq (do_advance_pull i name number worker) (\<lambda>_. ret (Some known)))))))"

section \<open>The loops\<close>

text \<open>Each loop returns whether it went through without an interruption.\<close>

fun reconcile_pulls ::
  "settings \<Rightarrow> string \<Rightarrow> int \<Rightarrow> string \<Rightarrow> int \<Rightarrow> string \<times> int \<Rightarrow> (string \<times> bool) list \<Rightarrow> ((int \<times> string) \<times> obj) list \<Rightarrow> bool svc" where
  "reconcile_pulls st worker i name observed_at cursor known [] = ret True"
| "reconcile_pulls st worker i name observed_at cursor known (p # ps) =
     seq interrupted (\<lambda>halt. if halt then ret False
     else if lower name = fst cursor \<and> fst (fst p) \<le> snd cursor
     then reconcile_pulls st worker i name observed_at cursor known ps
     else seq (reconcile_pull st worker i name observed_at known p) (\<lambda>r. case r of None \<Rightarrow> ret False
       | Some known' \<Rightarrow> reconcile_pulls st worker i name observed_at cursor known' ps))"

definition reconcile_repository :: "settings \<Rightarrow> string \<Rightarrow> int \<Rightarrow> string \<times> int \<Rightarrow> string \<times> bool \<Rightarrow> bool svc" where
  "reconcile_repository st worker i cursor listed = (case listed of (name, archived) \<Rightarrow>
     seq interrupted (\<lambda>halt. if halt then ret False
     else if archived \<or> is_organization_config_repository st name then ret True
     else seq (ask_env e_clock) (\<lambda>observed_at.
       seq (ask_list (ListOpenPulls i name)) (\<lambda>records.
       seq interrupted (\<lambda>halt. if halt then ret False
       else seq (payload (reconciliation_pulls (JList (map JObj records)))) (\<lambda>pulls.
         seq (reconcile_pulls st worker i name observed_at cursor [] (sort_key (fst \<circ> fst) (zip pulls records))) (\<lambda>went_on.
           if \<not> went_on then ret False
           else seq (do_advance_repository i name worker) (\<lambda>_. ret True))))))))"

fun reconcile_repositories :: "settings \<Rightarrow> string \<Rightarrow> int \<Rightarrow> string \<times> int \<Rightarrow> (string \<times> bool) list \<Rightarrow> bool svc" where
  "reconcile_repositories st worker i cursor [] = ret True"
| "reconcile_repositories st worker i cursor (r # rs) =
     seq (reconcile_repository st worker i cursor r) (\<lambda>went_on.
       if went_on then reconcile_repositories st worker i cursor rs else ret False)"

definition scanned :: "settings \<Rightarrow> string \<Rightarrow> string \<times> bool \<Rightarrow> bool" where
  "scanned st name p \<longleftrightarrow> lower (fst p) = name \<and> \<not> snd p \<and> \<not> is_organization_config_repository st (fst p)"

definition rotated :: "string \<Rightarrow> string \<Rightarrow> (string \<times> bool) list \<Rightarrow> (string \<times> bool) list" where
  \<comment> \<open>after the cursor first, the interrupted repository before all others\<close>
  "rotated cursor partial repositories =
     (let turned = filter (\<lambda>p. cursor < lower (fst p)) repositories @ filter (\<lambda>p. lower (fst p) \<le> cursor) repositories
      in filter (\<lambda>p. lower (fst p) = partial) turned @ filter (\<lambda>p. lower (fst p) \<noteq> partial) turned)"

definition partial_cursor ::
  "settings \<Rightarrow> string \<Rightarrow> int \<Rightarrow> (string \<times> bool) list \<Rightarrow> string \<times> int \<Rightarrow> (string \<times> int) svc" where
  "partial_cursor st worker i repositories cursor =
     (if fst cursor \<noteq> [] \<and> \<not> list_ex (scanned st (fst cursor)) repositories
      then seq (do_clear_pull i worker) (\<lambda>_. ret ([], 0)) else ret cursor)"

definition reconcile_installation :: "settings \<Rightarrow> string \<Rightarrow> int \<Rightarrow> bool svc" where
  "reconcile_installation st worker i =
     seq (ask_list (ListInstallationRepositories i)) (\<lambda>records.
     seq interrupted (\<lambda>halt. if halt then ret False
     else seq (payload (reconciliation_repositories (JList (map JObj records)))) (\<lambda>repositories.
       seq (ask_repository_cursor i) (\<lambda>cursor.
       seq (ask_pull_cursor i) (\<lambda>partial.
       seq (partial_cursor st worker i repositories partial) (\<lambda>partial.
         reconcile_repositories st worker i partial (rotated cursor (fst partial) (sort_key fst repositories))))))))"

section \<open>The scan\<close>

definition scan_outcome :: "int \<Rightarrow> bool \<Rightarrow> bool \<Rightarrow> reconciliation_outcome svc" where
  "scan_outcome failed stopped deferred = (\<lambda>en w. outcome_now (w_queued w) failed stopped deferred en w)"

definition stopped_outcome :: "int \<Rightarrow> reconciliation_outcome svc" where
  "stopped_outcome failed = seq interrupted (\<lambda>halt. scan_outcome failed (\<not> halt) False)"

fun reconcile_installations ::
  "settings \<Rightarrow> string \<Rightarrow> int \<Rightarrow> bool \<Rightarrow> (int \<times> bool) list \<Rightarrow> reconciliation_outcome svc" where
  "reconcile_installations st worker failed deferred [] = scan_outcome failed False deferred"
| "reconcile_installations st worker failed deferred ((i, suspended) # rest) =
     (let continue = (\<lambda>n late. reconcile_installations st worker (failed + n) (deferred \<or> late) rest) in
      seq interrupted (\<lambda>halt. if halt then scan_outcome failed False False
      else if suspended then seq (do_clear_pull i worker) (\<lambda>_. continue 0 False)
      else seq (ask_provider_blocked (Some i)) (\<lambda>blocked. if blocked then continue 1 False
      else seq (attempt (reconcile_installation st worker i)) (\<lambda>r. case r of
          Inr True \<Rightarrow> continue 0 False
        | Inr False \<Rightarrow> scan_outcome failed False False
        | Inl x \<Rightarrow> (case x of
            OperationStopped \<Rightarrow> stopped_outcome failed
          | RecoveryDeferred _ \<Rightarrow> continue 0 True
          | QuotaExhausted _ \<Rightarrow> continue 0 True
          | GitHubRateLimit n g \<Rightarrow> seq (message_of x) (\<lambda>m.
              seq (do_backpressure (if g then None else Some i) m n) (\<lambda>_. continue 1 False))
          | Cancelled \<Rightarrow> raise_exc Cancelled
          | _ \<Rightarrow> continue 1 False)))))"

definition DAY :: int where "DAY = 86400"

text \<open>Every step of the scan is followed by a test for an interruption.\<close>

definition unless_interrupted :: "int \<Rightarrow> reconciliation_outcome svc \<Rightarrow> reconciliation_outcome svc" where
  "unless_interrupted failed m = seq interrupted (\<lambda>halt. if halt then scan_outcome failed False False else m)"

definition scan_installations :: "settings \<Rightarrow> string \<Rightarrow> reconciliation_outcome svc" where
  "scan_installations st worker = seq (attempt (ask_list ListInstallations)) (\<lambda>r. case r of
      Inl x \<Rightarrow> (case x of
          OperationStopped \<Rightarrow> stopped_outcome 0
        | GitHubRateLimit n g \<Rightarrow> seq (message_of x) (\<lambda>m. seq (do_backpressure None m n) (\<lambda>_. scan_outcome 1 False False))
        | _ \<Rightarrow> raise_exc x)
    | Inr records \<Rightarrow> unless_interrupted 0 (
        seq (ask_env (\<lambda>en _. e_instant en)) (\<lambda>instant.
        seq (payload (reconciliation_installations instant (JList (map JObj records)))) (\<lambda>installations.
          reconcile_installations st worker 0 False installations))))"

definition reconcile_owned_scan :: "settings \<Rightarrow> string \<Rightarrow> reconciliation_outcome svc" where
  "reconcile_owned_scan st worker = unless_interrupted 0 (
     seq (ask_env e_clock) (\<lambda>now.
     let boundary = now - seconds (s_retention_days st * DAY);
         state_boundary = now - seconds (max (s_retention_days st * DAY) (s_interval_seconds st + s_recheck_seconds st)) in
     seq (do_prune_deliveries boundary) (\<lambda>_. unless_interrupted 0 (
     seq (do_prune_epochs boundary) (\<lambda>_. unless_interrupted 0 (
     seq (do_prune_states state_boundary) (\<lambda>_. unless_interrupted 0 (
     seq (ask_provider_blocked None) (\<lambda>blocked. if blocked then scan_outcome 0 False True
       else scan_installations st worker)))))))))"

section \<open>Election and schedule\<close>

definition start_count :: "unit svc" where
  "start_count = (\<lambda>en w. (Inr (), w\<lparr>w_queued := 0\<rparr>))"

definition final_outcome :: "reconciliation_outcome \<Rightarrow> reconciliation_outcome svc" where
  "final_outcome r = ask_env (\<lambda>en h. r\<lparr>o_lost := o_lost r \<or> e_lost en h, o_stopped := o_stopped r \<or> e_stop en h\<rparr>)"

definition reconcile_once :: "settings \<Rightarrow> string \<Rightarrow> reconciliation_outcome option svc" where
  "reconcile_once st worker = seq (ask_env e_stop) (\<lambda>stop. if stop then ret None
     else seq (do_service_lease RECONCILER_LEASE worker (heartbeat_lease st)) (\<lambda>acquired. if \<not> acquired then ret None
     else seq (ask_env e_stop) (\<lambda>stop. if stop
       then seq (do_release_lease RECONCILER_LEASE worker) (\<lambda>_. ret None)
     else seq start_count (\<lambda>_.
       seq (joining True (reconcile_owned_scan st worker)) (\<lambda>r.
       seq (final_outcome r) (\<lambda>r. ret (Some r)))))))"

text \<open>The label of the attempt's metrics; only \<open>success\<close> sets the time of the last success.\<close>

definition run_iteration :: "settings \<Rightarrow> string \<Rightarrow> string svc" where
  "run_iteration st worker = seq (attempt (reconcile_once st worker)) (\<lambda>r. case r of
       Inl Cancelled \<Rightarrow> raise_exc Cancelled
     | Inl _ \<Rightarrow> ret ''failure''
     | Inr None \<Rightarrow> ret ''not_elected''
     | Inr (Some outcome) \<Rightarrow> ret (if outcome_complete outcome then ''success'' else ''partial''))"

fun run_reconciler :: "nat \<Rightarrow> settings \<Rightarrow> string \<Rightarrow> unit svc" where
  "run_reconciler 0 st worker = ret ()"
| "run_reconciler (Suc n) st worker = seq (ask_env e_stop) (\<lambda>stop. if stop then ret ()
     else seq (run_iteration st worker) (\<lambda>_.
       seq (ask_env e_cancelled) (\<lambda>cancelled. if cancelled then raise_exc Cancelled
         else run_reconciler n st worker)))"

end
