(* ===== verification/World_Logic.thy ===== *)
theory World_Logic
  imports Worker Reconciler
begin

text \<open>
  Reasoning about whole attempts. \<open>obeys R m\<close> says that \<open>m\<close> only moves from a world to an
  \<open>R\<close>-later one, whatever it returns; the locale \<open>world_preorder\<close> proves it once for every
  program of the service and every preorder \<open>R\<close> that the primitive steps respect. The \<open>runs\<close>
  rules say when a program returns normally, and \<open>happened\<close> is the event history between two
  worlds.
\<close>

section \<open>Normal returns\<close>

lemma runs_ask [runs]:
  "of_queue q en w = (Inr b, w') \<longleftrightarrow> q = Inr b \<and> w' = w"
  "ask_env f en w = (Inr b, w') \<longleftrightarrow> b = f en (w_trace w) \<and> w' = w"
  by (auto simp: raise_exc_def ret_def of_result_def of_queue_def ask_env_def split: sum.splits)

lemmas runs_pure = runs_basic runs_ask

lemma runs_payload [runs]:
  "payload r en w = (Inr b, w') \<longleftrightarrow> r = Inr b \<and> w' = w"
  by (cases r; auto simp: payload_def runs)

lemma runs_answered [runs]:
  "answered get wrap c en w = (Inr a, w') \<longleftrightarrow>
     get en (w_trace w) c = Inr a \<and> w' = log_event (GitEvent c (Inr (wrap a))) w"
  by (auto simp: answered_def Let_def)

lemma runs_store [runs]:
  "store_run c f en w = (Inr a, w') \<longleftrightarrow> e_fault en (w_trace w) = None \<and>
     (\<exists>d'. f (e_clock en (w_trace w)) (e_interfere en (w_trace w) (w_db w)) = Inr (d', a) \<and>
       w' = w\<lparr>w_db := d', w_trace := StoreEvent c (e_clock en (w_trace w))
         (e_interfere en (w_trace w) (w_db w)) None # w_trace w\<rparr>)"
  by (auto simp: store_run_def Let_def split: option.splits fault.splits sum.splits prod.splits)

lemma runs_guard:
  assumes "with_guard g m body en w = (Inr a, w')"
  obtains w1 where "body en (log_event (Acquired g) w) = (Inr a, w1)" and "w' = log_event (Released g) w1"
  using assms by (auto simp: with_guard_def split: sum.splits bool.splits prod.splits option.splits)

lemma runs_joining:
  "joining guarded m en w = (Inr a, w') \<Longrightarrow> m en w = (Inr a, w')"
  by (auto simp: joining_def split: prod.splits option.splits)

section \<open>What happened between two worlds\<close>

definition happened :: "world \<Rightarrow> world \<Rightarrow> event \<Rightarrow> bool" where
  "happened w w' x \<longleftrightarrow> (\<exists>new. w_trace w' = new @ w_trace w \<and> x \<in> set new)"

definition extends :: "world \<Rightarrow> world \<Rightarrow> bool" where
  "extends w w' \<longleftrightarrow> (\<exists>new. w_trace w' = new @ w_trace w)"

lemma extends_refl [simp]: "extends w w"
  by (simp add: extends_def)

lemma extends_trans [trans]: "extends w w1 \<Longrightarrow> extends w1 w2 \<Longrightarrow> extends w w2"
  by (auto simp: extends_def)

lemma happened_extends: "happened w w' x \<Longrightarrow> extends w w'"
  by (auto simp: happened_def extends_def)

lemma happened_later: "extends w w1 \<Longrightarrow> happened w1 w2 x \<Longrightarrow> happened w w2 x"
  by (auto simp: extends_def happened_def)

lemma happened_earlier: "happened w w1 x \<Longrightarrow> extends w1 w2 \<Longrightarrow> happened w w2 x"
  by (auto simp: extends_def happened_def)

lemma happened_log [simp]: "happened w (log_event x w) x"
  by (simp add: happened_def log_event_def)

lemma happened_step [simp]: "happened w (w\<lparr>w_db := d, w_trace := x # w_trace w\<rparr>) x"
  by (simp add: happened_def)

lemma store_run_happened:
  assumes "store_run c f en w = (Inr a, w')"
  shows "happened w w' (StoreEvent c (e_clock en (w_trace w)) (e_interfere en (w_trace w) (w_db w)) None)"
proof -
  from assms obtain d' where "w' = w\<lparr>w_db := d', w_trace := StoreEvent c (e_clock en (w_trace w))
         (e_interfere en (w_trace w) (w_db w)) None # w_trace w\<rparr>" unfolding runs_store by blast
  then show ?thesis by (simp only: happened_step)
qed

lemma store_run_ran:
  assumes "store_run c f en w = (Inr a, w')"
  obtains d' where "f (e_clock en (w_trace w)) (e_interfere en (w_trace w) (w_db w)) = Inr (d', a)" and "w_db w' = d'"
  using assms unfolding runs_store by auto

lemma extends_log [simp]: "extends w (log_event x w)"
  by (simp add: extends_def log_event_def)

lemma extends_step [simp]: "extends w (w\<lparr>w_db := d, w_trace := x # w_trace w\<rparr>)"
  by (simp add: extends_def)

lemma history_memo [simp]:
  "happened w (w'\<lparr>w_memo := m\<rparr>) = happened w w'" "extends w (w'\<lparr>w_memo := m\<rparr>) = extends w w'"
  by (simp_all add: happened_def extends_def fun_eq_iff)

lemma run_all_Cons:
  "run_all (m # ms) en w = (case m en w of (r, w1) \<Rightarrow> (case run_all ms en w1 of
     (Inr rs, w2) \<Rightarrow> (Inr (r # rs), w2) | (Inl x, w2) \<Rightarrow> (Inl x, w2)))"
proof -
  let ?step = "\<lambda>m (rs, w). case m en w of (r, w') \<Rightarrow> (rs @ [r], w')"
  have acc: "fold ?step ms (acc, v) = (acc @ fst (fold ?step ms ([], v)), snd (fold ?step ms ([], v)))" for acc v ms
  proof (induction ms arbitrary: acc v)
    case (Cons m ms)
    obtain r u where u: "m en v = (r, u)" by (cases "m en v")
    from Cons.IH [of "acc @ [r]" u] Cons.IH [of "[r]" u] u show ?case by simp
  qed simp
  obtain r w1 where m: "m en w = (r, w1)" by (cases "m en w")
  from acc [of ms "[r]" w1] m show ?thesis by (simp add: run_all_def Let_def split_def)
qed

lemmas check_programs = latest_check_run_def existing_check_run_id_def has_check_run_def same_check_id_def
  validate_blocking_check_response_def reset_check_run_def complete_check_run_def send_check_run_def upsert_check_run_def

section \<open>Preorders that every step obeys\<close>

locale world_preorder = program_preorder R for R :: "world \<Rightarrow> world \<Rightarrow> bool" +
  assumes R_step: "R w (w\<lparr>w_db := d, w_budgets := bs, w_trace := x # w_trace w\<rparr>)"
begin

lemma R_log: "R w (log_event x w)"
  using R_step [where w = w and d = "w_db w" and bs = "w_budgets w" and x = x] by (simp add: log_event_def)

lemma R_store: "R w (w\<lparr>w_db := d, w_trace := x # w_trace w\<rparr>)"
  using R_step [where w = w and d = d and bs = "w_budgets w" and x = x] by simp

lemma obeys_pure [obeys_intros]:
  "obeys R (ask_env f)" "obeys R (of_queue q)" "obeys R (payload p)" "obeys R (message_of e)"
  by (simp_all add: obeys_def ret_def raise_exc_def of_result_def ask_env_def of_queue_def payload_def
      message_of_def R_refl)

lemma obeys_joining [obeys_intros]: "obeys R m \<Longrightarrow> obeys R (joining b m)"
  by (auto simp: obeys_def joining_def split_def)

lemma obeys_except [obeys_intros]:
  "obeys R m \<Longrightarrow> (\<And>e. obeys R (h e)) \<Longrightarrow> obeys R (except_exception m h)"
  unfolding except_exception_def by (auto intro!: obeys_intros)

lemma obeys_run_all [obeys_intros]:
  assumes "\<And>m. m \<in> set ms \<Longrightarrow> obeys R m"
  shows "obeys R (run_all ms)"
proof -
  let ?step = "\<lambda>en m p. (fst p @ [fst (m en (snd p))], snd (m en (snd p)))"
  have "R w (snd (fold (?step en) ms (rs, w)))" for en rs and w :: world
    using assms
  proof (induction ms arbitrary: rs w)
    case (Cons m ms)
    have "R w (snd (m en w))" using Cons.prems [of m] by (simp add: obeys_def)
    with Cons.IH [of "snd (m en w)" "rs @ [fst (m en w)]"] Cons.prems show ?case by (auto intro: R_trans)
  qed (simp add: R_refl)
  then show ?thesis by (simp add: obeys_def run_all_def split_def Let_def)
qed

lemma obeys_requests [obeys_intros]:
  "obeys R (answered get wrap c)" "obeys R (ask_obj c)" "obeys R (ask_list c)" "obeys R (ask_text c)"
  "obeys R (ask_opt_text c)" "obeys R (ask_bool c)" "obeys R (ask_page c)"
  by (simp_all add: obeys_def answered_def ask_obj_def ask_list_def ask_text_def ask_opt_text_def ask_bool_def
      ask_page_def Let_def R_log)

lemma obeys_store [obeys_intros]: "obeys R (store_run c f)" "obeys R (store_read c g)"
  by (auto simp: obeys_def store_run_def store_read_def Let_def R_store
      split: option.split fault.split sum.split prod.split)

lemma obeys_budget [obeys_intros]: "obeys R (budget_run c f)"
  by (auto simp: obeys_def budget_run_def Let_def R_step split: option.split fault.split sum.split)

lemma obeys_with_guard [obeys_intros]:
  assumes "obeys R body"
  shows "obeys R (with_guard g m body)"
  unfolding obeys_def
proof (intro allI)
  fix en and w :: world
  obtain r w1 where b: "body en (log_event (Acquired g) w) = (r, w1)" by (cases "body en (log_event (Acquired g) w)")
  have "R w (log_event (Released g) w1)"
    by (rule R_trans [OF R_trans [OF R_log obeysD [OF assms b]] R_log])
  with b R_log show "R w (snd (with_guard g m body en w))"
    by (auto simp: with_guard_def split: sum.split bool.split)
qed

lemma obeys_guard [obeys_intros]: "obeys R body \<Longrightarrow> obeys R (check_write_guard i head body)"
  unfolding check_write_guard_def by (rule obeys_with_guard)

lemma obeys_checks [obeys_intros]:
  "obeys R (existing_check_run_id st i repo head)" "obeys R (has_check_run st i repo head)"
  "obeys R (reset_check_run st i repo n title smry details external)" "obeys R (upsert_check_run st i repo head cw)"
  by (auto simp: check_programs Let_def intro!: obeys_intros)

lemma obeys_policy_text [obeys_intros]: "obeys R (repository_policy_text st i repo sha)"
  unfolding repository_policy_text_def by (rule obeys_intros)

end

text \<open>Every program only adds to the history.\<close>

interpretation history: world_preorder extends
  by standard (auto simp: extends_def)

end
