(* ===== verification/Service_Evaluation.thy ===== *)
theory Service_Evaluation
  imports Service_Facts World_Logic
begin

text \<open>
  What a success of the evaluation rests on: when \<open>evaluate_current\<close> and the programs it is
  made of return a result with the conclusion SUCCESS, that result is what the evaluator says of
  an input each part of which was read from GitHub in this very run.
\<close>

section \<open>The evidence\<close>

definition pull_shows :: "obj \<Rightarrow> pull_view \<Rightarrow> bool" where
  "pull_shows pull view \<longleftrightarrow> (\<exists>h b. pull_objects pull = Inr (h, b) \<and> pull_strings pull h b = Inr view)"

definition shows_file :: "obj \<Rightarrow> changed_file \<Rightarrow> bool" where
  "shows_file v f \<longleftrightarrow> (\<exists>s p c. get_key ''status'' v = JStr s \<and> get_key ''filename'' v = JStr p \<and> file_status s = Inr c \<and>
     make_changed_file p c (as_str (get_key ''previous_filename'' v)) = Inr f)"

definition shows_approval :: "string \<Rightarrow> obj \<Rightarrow> pull_request_review \<Rightarrow> bool" where
  "shows_approval head v r \<longleftrightarrow> get_key ''state'' v = JStr ''APPROVED'' \<and> get_key ''commit_id'' v = JStr head \<and>
     as_int (get_key ''id'' v) = Some (review_id r) \<and>
     (\<exists>user. as_obj (get_key ''user'' v) = Some user \<and> as_int (get_key ''id'' user) = Some (user_id (actor r)))"

definition organization_read :: "env \<Rightarrow> settings \<Rightarrow> claimed_job \<Rightarrow> (event \<Rightarrow> bool) \<Rightarrow> organization_policy \<Rightarrow> bool" where
  "organization_read en st job seen org \<longleftrightarrow>
     (let repo = owner_of (c_repo job) @ ''/'' @ s_org_repo st; i = c_installation job in
      \<exists>generation t. seen (GitEvent (IncludesRepository i repo generation) (Inr (ABool True))) \<and>
        seen (GitEvent (GetFileText i repo (s_policy_path st) None) (Inr (AOptText t))) \<and>
        (case t of None \<Rightarrow> org = default_organization_policy | Some s \<Rightarrow> e_organization_toml en s = Inr org))"

text \<open>The CODEOWNERS file is the first one that exists among the three locations.\<close>

definition codeowners_read :: "claimed_job \<Rightarrow> string \<Rightarrow> (event \<Rightarrow> bool) \<Rightarrow> string list \<Rightarrow> string \<Rightarrow> bool" where
  "codeowners_read job sha seen locations t \<longleftrightarrow> (\<exists>pre location post. locations = pre @ location # post \<and>
     seen (GitEvent (GetFileText (c_installation job) (c_repo job) location (Some sha)) (Inr (AOptText (Some t)))) \<and>
     (\<forall>p \<in> set pre. seen (GitEvent (GetFileText (c_installation job) (c_repo job) p (Some sha)) (Inr (AOptText None)))))"

text \<open>What was read between the first read of the pull request and the evaluation: \<open>expected\<close>
  is the number of changed files that the pull request announced, \<open>sha\<close> the commit of the base
  branch.\<close>

definition evidence_read ::
  "env \<Rightarrow> settings \<Rightarrow> claimed_job \<Rightarrow> string \<Rightarrow> obj \<Rightarrow> string \<Rightarrow> int \<Rightarrow> (event \<Rightarrow> bool) \<Rightarrow> evaluation_input \<Rightarrow> bool" where
  "evidence_read en st job head pull sha expected seen data \<longleftrightarrow> (let i = c_installation job; repo = c_repo job; n = c_pull job in
     organization_read en st job seen (organization_policy_of data) \<and>
     codeowners_read job sha seen CODEOWNERS_LOCATIONS (codeowners_text data) \<and>
     seen (GitEvent (GetCodeownersErrors i repo sha) (Inr (AList []))) \<and>
     (\<exists>listed. seen (GitEvent (GetPullFiles i repo n) (Inr (AList listed))) \<and> int (length listed) = expected \<and>
        list_all2 shows_file listed (changed_files data)) \<and>
     (\<exists>given. seen (GitEvent (GetReviews i repo n) (Inr (AList given))) \<and>
        (\<forall>r \<in> set (reviews data). \<exists>v \<in> set given. shows_approval head v r)) \<and>
     (\<exists>names. label_names pull = Inr names \<and> normalize_labels names = Inr (labels data)) \<and>
     enabled (repository_policy_of data) \<and> head_sha data = lower (strip head) \<and> exact_head_reviews (options data) \<and>
     allow_insecure_changes (options data) = s_allow_insecure st)"

section \<open>Programs that only read\<close>

lemma extends_reads [obeys_intros]:
  "obeys extends (ask_obj c)" "obeys extends (ask_list c)" "obeys extends (ask_text c)" "obeys extends (ask_opt_text c)"
  "obeys extends (ask_bool c)"
  by (auto simp: obeys_def ask_obj_def ask_list_def ask_text_def ask_opt_text_def ask_bool_def answered_def Let_def)

lemma quiet_extends: "quiet m \<Longrightarrow> m en w = (r, w') \<Longrightarrow> extends w w'"
  unfolding extends_def by (metis emitsD snd_conv)

lemma read_happened:
  "ask_obj c en w = (Inr a, w') \<Longrightarrow> happened w w' (GitEvent c (Inr (AObj a)))"
  "ask_list c en w = (Inr b, w') \<Longrightarrow> happened w w' (GitEvent c (Inr (AList b)))"
  "ask_text c en w = (Inr t, w') \<Longrightarrow> happened w w' (GitEvent c (Inr (AText t)))"
  "ask_opt_text c en w = (Inr u, w') \<Longrightarrow> happened w w' (GitEvent c (Inr (AOptText u)))"
  "ask_bool c en w = (Inr v, w') \<Longrightarrow> happened w w' (GitEvent c (Inr (ABool v)))"
  by (auto simp: ask_obj_def ask_list_def ask_text_def ask_opt_text_def ask_bool_def runs_answered)

lemma required_string_says: "required_string v what = Inr s \<Longrightarrow> v = JStr s"
  by (cases v) (auto simp: required_string_def as_str_def split: if_splits)

section \<open>Changed files\<close>

lemma collect_shows:
  assumes "collect xs f en w = (Inr ys, w')" and "\<And>x y u v. f x en u = (Inr y, v) \<Longrightarrow> P x y"
  shows "list_all2 P xs ys"
  using assms(1)
proof (induction xs arbitrary: ys w)
  case (Cons x xs)
  then obtain y w1 ys' where "f x en w = (Inr y, w1)" "collect xs f en w1 = (Inr ys', w')" "ys = y # ys'"
    by (auto simp: runs_seq runs_basic)
  with Cons.IH assms(2) show ?case by auto
qed (simp add: runs_basic)

lemma constructed_runs: "constructed v en w = (Inr a, w') \<longleftrightarrow> v = Inr a \<and> w' = w"
  by (auto simp: constructed_def split: sum.splits)

lemma changed_files_show:
  assumes "changed_files_of vs en w = (Inr fs, w')"
  shows "list_all2 shows_file vs fs"
proof (rule collect_shows [OF assms [unfolded changed_files_of_def]])
  fix item f and u v :: world
  assume "seq (of_result (required_string (get_key ''status'' item) ''pull file status'')) (\<lambda>status.
     seq (of_result (required_string (get_key ''filename'' item) ''pull file filename'')) (\<lambda>path.
     seq (of_result (file_status status)) (\<lambda>st.
       constructed (make_changed_file path st (as_str (get_key ''previous_filename'' item)))))) en u = (Inr f, v)"
  then show "shows_file item f" unfolding shows_file_def
    by (auto simp: runs_seq runs_basic constructed_runs dest!: required_string_says)
qed

section \<open>Reviews\<close>

definition reads_opinion :: "opinion \<Rightarrow> bool" where
  "reads_opinion x \<longleftrightarrow> as_int (get_key ''id'' (o_value x)) = Some (o_review x) \<and>
     (\<exists>user. as_obj (get_key ''user'' (o_value x)) = Some user \<and> as_int (get_key ''id'' user) = Some (o_user x))"

lemma read_opinion_says:
  assumes "read_opinion v en w = (Inr (Some x), w')"
  shows "o_value x = v \<and> reads_opinion x"
  using assms unfolding read_opinion_def reads_opinion_def
  by (auto simp: runs_seq runs_basic split: option.splits bool.splits if_splits)

lemma set_update_subset: "set (AList.update k v xs) \<subseteq> insert (k, v) (set xs)"
  by (induction xs) auto

lemma latest_opinion_from:
  "latest_opinion x latest = Inr latest' \<Longrightarrow> snd ` set latest' \<subseteq> insert x (snd ` set latest)"
  using set_update_subset [of "opinion_key x" x latest]
  by (auto simp: latest_opinion_def split: option.splits if_splits)

lemma latest_opinions_from:
  assumes "latest_opinions vs latest en w = (Inr res, w')" and "x \<in> snd ` set res"
  shows "x \<in> snd ` set latest \<or> (o_value x \<in> set vs \<and> reads_opinion x)"
  using assms
proof (induction vs arbitrary: latest w)
  case (Cons v vs)
  from Cons.prems(1) obtain r w1 where r: "read_opinion v en w = (Inr r, w1)"
    and rest: "(case r of None \<Rightarrow> latest_opinions vs latest
      | Some y \<Rightarrow> seq (of_result (latest_opinion y latest)) (latest_opinions vs)) en w1 = (Inr res, w')"
    by (auto elim!: runs_seqE)
  show ?case
  proof (cases r)
    case None
    with rest Cons.IH [of latest w1] Cons.prems(2) show ?thesis by auto
  next
    case (Some y)
    with rest obtain latest' where l: "latest_opinion y latest = Inr latest'" "latest_opinions vs latest' en w1 = (Inr res, w')"
      by (auto simp: runs_seq runs_basic)
    from read_opinion_says [OF r [unfolded Some]] Cons.IH [OF l(2) Cons.prems(2)] latest_opinion_from [OF l(1)]
    show ?thesis by auto
  qed
qed (simp add: runs_basic)

lemma review_of_says:
  assumes "review_of x head act en w = (Inr r, w')"
  shows "review_id r = o_review x \<and> actor r = act"
  using assms by (auto simp: review_of_def constructed_runs make_pull_request_review_def build_Inr)

lemma make_review_actor_user:
  "make_review_actor k lg uid aid slug aliases direct = Inr act \<Longrightarrow> user_id act = uid"
  by (auto simp: make_review_actor_def build_Inr validate_kind_fields_def split: if_splits actor_kind.splits)

lemma approval_evidence_says:
  assumes "approval_evidence i repo rules head enrolled x en w = (Inr (Some r), w')"
  shows "review_id r = o_review x \<and> user_id (actor r) = o_user x"
  using assms unfolding approval_evidence_def
  by (auto simp: runs_seq runs_basic constructed_runs split: if_splits option.splits prod.splits
      dest!: review_of_says make_review_actor_user)

lemma approvals_collected:
  assumes "collect xs (approval_evidence i repo rules head enrolled) en w = (Inr found, w')" and "Some r \<in> set found"
  shows "\<exists>x \<in> set xs. review_id r = o_review x \<and> user_id (actor r) = o_user x"
proof -
  have all: "list_all2 (\<lambda>x y. \<forall>r. y = Some r \<longrightarrow> review_id r = o_review x \<and> user_id (actor r) = o_user x) xs found"
    by (rule collect_shows [OF assms(1)]) (use approval_evidence_says in blast)
  from assms(2) obtain k where k: "k < length found" "found ! k = Some r" by (auto simp: in_set_conv_nth)
  with all have "k < length xs" "review_id r = o_review (xs ! k) \<and> user_id (actor r) = o_user (xs ! k)"
    by (simp_all add: list_all2_conv_all_nth)
  then show ?thesis by (intro bexI [of _ "xs ! k"]) simp_all
qed

lemma service_reviews_show:
  assumes "service_reviews i repo vs org rules head n en w = (Inr rs, w')" and "r \<in> set rs"
  shows "\<exists>v \<in> set vs. shows_approval head v r"
proof -
  from assms(1) obtain latest w1 where l: "latest_opinions vs [] en w = (Inr latest, w1)"
    and rest: "(let current = filter (approves_head head) (map snd latest);
           humans = int (length (filter (\<lambda>x. \<not> o_bot x) current));
           bots = map o_user (filter o_bot current) in
       if MAX_TEAM_MEMBERSHIP_LOOKUPS < (humans + n) * int (length (team_owners (owner_of repo) rules))
       then raise_exc (EvidenceLimit ''current human evidence and CODEOWNERS teams exceed the membership lookup budget'')
       else seq (if bots = [] then ret [] else validated_apps i bots (apps org)) (\<lambda>enrolled.
         seq (collect current (approval_evidence i repo rules head enrolled)) (\<lambda>rs.
           ret (List.map_filter (\<lambda>r. r) rs)))) en w1 = (Inr rs, w')"
    unfolding service_reviews_def by (rule runs_seqE)
  from rest obtain enrolled w2 found w3 where
    c: "collect (filter (approves_head head) (map snd latest)) (approval_evidence i repo rules head enrolled) en w2 = (Inr found, w3)"
    and rs: "rs = List.map_filter (\<lambda>r. r) found"
    unfolding Let_def by (simp only: runs_seq runs_basic split: if_splits) blast+
  have "Some r \<in> set found" using assms(2) unfolding rs by (auto simp: List.map_filter_def)
  from approvals_collected [OF c this] obtain x where x: "x \<in> set (filter (approves_head head) (map snd latest))"
    "review_id r = o_review x" "user_id (actor r) = o_user x" by blast
  then have "approves_head head x" "x \<in> snd ` set latest" by auto
  with latest_opinions_from [OF l this(2)] have o: "o_value x \<in> set vs" "reads_opinion x" by auto
  show ?thesis
    by (rule bexI [OF _ o(1)]) (use o(2) x(2,3) \<open>approves_head head x\<close> in
      \<open>simp add: shows_approval_def reads_opinion_def approves_head_def\<close>)
qed

section \<open>The evaluation\<close>

lemma evaluated_runs:
  assumes "evaluated v en w = (Inr r, w')"
  shows "\<exists>data. v = Inr data \<and> evaluate data = Inr r"
proof -
  from assms obtain data where "v = Inr data"
    "(case evaluate data of Inl m \<Rightarrow> Inl (if m = ''AssertionError'' then AssertionFailed else OtherFailure m) | Inr r \<Rightarrow> Inr r) = Inr r"
    unfolding evaluated_def by (auto simp: runs_seq runs_basic constructed_runs)
  then show ?thesis by (cases "evaluate data") simp_all
qed

lemma evaluate_disabled: "\<not> enabled (repository_policy_of data) \<Longrightarrow> evaluate data = Inr r \<Longrightarrow> conclusion r = FAILURE"
  by (auto simp: evaluate_def disabled_result_def)

lemma make_evaluation_input_fields:
  assumes "make_evaluation_input head t fs rs a ls org policy opts = Inr data"
  shows "head_sha data = lower (strip head) \<and> codeowners_text data = t \<and> changed_files data = fs \<and> reviews data = rs \<and>
    normalize_labels ls = Inr (labels data) \<and> organization_policy_of data = org \<and>
    repository_policy_of data = policy \<and> options data = opts"
  using assms by (auto simp: make_evaluation_input_def build_Inr validate_head_sha_text_def errors_of_def Let_def
      split: if_splits sum.splits)

lemma shaped_evidence_shows:
  assumes "shaped_evidence job pull head org policy rules listed given en w = (Inr s, w')"
  shows "list_all2 shows_file listed (snd (snd s)) \<and> (\<forall>r \<in> set (fst s). \<exists>v \<in> set given. shows_approval head v r)"
proof -
  from assms obtain rs w1 w2 a w3 fs n where "service_reviews (c_installation job) (c_repo job) given org rules head n en w1 = (Inr rs, w2)"
    "changed_files_of listed en w3 = (Inr fs, w')" "s = (rs, a, fs)"
    unfolding shaped_evidence_def by (auto elim!: runs_seqE simp: runs_basic)
  with service_reviews_show changed_files_show show ?thesis by fastforce
qed

lemma evaluation_of_shows:
  assumes "evaluation_of st pull head t org policy s en w = (Inr r, w')"
  shows "\<exists>data. evaluate data = Inr r \<and> head_sha data = lower (strip head) \<and> codeowners_text data = t \<and>
    changed_files data = snd (snd s) \<and> reviews data = fst s \<and> organization_policy_of data = org \<and>
    repository_policy_of data = policy \<and> exact_head_reviews (options data) \<and>
    allow_insecure_changes (options data) = s_allow_insecure st \<and>
    (\<exists>names. label_names pull = Inr names \<and> normalize_labels names = Inr (labels data))"
proof -
  from assms obtain names path data where "label_names pull = Inr names"
    "make_evaluation_input head t (snd (snd s)) (fst s) (fst (snd s)) names org policy
       \<lparr>exact_head_reviews = True, allow_insecure_changes = s_allow_insecure st, repository_policy_path = path\<rparr> = Inr data"
    "evaluate data = Inr r"
    unfolding evaluation_of_def by (auto simp: runs_seq runs_basic dest!: evaluated_runs)
  with make_evaluation_input_fields [OF this(2)] show ?thesis by (intro exI [of _ data]) simp
qed

lemma ask_list_logs: "ask_list c en w = (r, w1) \<Longrightarrow> w_trace w1 = GitEvent c (map_sum id AList r) # w_trace w"
  by (auto simp: ask_list_def answered_def log_event_def Let_def)

lemma first_error_none:
  assumes "first_error n rs = Inr xs"
  shows "rs = map Inr xs"
proof -
  have none: "filter isl rs = []" and xs: "xs = map projr rs"
    using assms by (auto simp: first_error_def Let_def split: if_splits)
  have "Inr (projr r) = r" if "r \<in> set rs" for r
    using none that by (cases r) (auto simp: filter_empty_conv)
  then show ?thesis unfolding xs by (simp add: map_idI)
qed

lemma read_evidence_happened:
  assumes "read_evidence job sha en w = (Inr (listed, given, issues), w')"
  shows "happened w w' (GitEvent (GetPullFiles (c_installation job) (c_repo job) (c_pull job)) (Inr (AList listed))) \<and>
    happened w w' (GitEvent (GetReviews (c_installation job) (c_repo job) (c_pull job)) (Inr (AList given))) \<and>
    happened w w' (GitEvent (GetCodeownersErrors (c_installation job) (c_repo job) sha) (Inr (AList issues)))"
proof -
  let ?a = "GetPullFiles (c_installation job) (c_repo job) (c_pull job)" and ?b = "GetReviews (c_installation job) (c_repo job) (c_pull job)"
    and ?c = "GetCodeownersErrors (c_installation job) (c_repo job) sha"
  obtain ra w1 where a: "ask_list ?a en w = (ra, w1)" by (cases "ask_list ?a en w")
  obtain rb w2 where b: "ask_list ?b en w1 = (rb, w2)" by (cases "ask_list ?b en w1")
  obtain rc w3 where c: "ask_list ?c en w2 = (rc, w3)" by (cases "ask_list ?c en w2")
  have all: "run_all [ask_list ?a, ask_list ?b, ask_list ?c] en w = (Inr [ra, rb, rc], w3)"
    by (simp add: run_all_Cons a b c) (simp add: run_all_def)
  from assms obtain xs n where xs: "first_error n [ra, rb, rc] = Inr xs" "(listed, given, issues) = (xs ! 0, xs ! 1, xs ! 2)" "w' = w3"
    unfolding read_evidence_def gather_def by (auto simp: runs_seq runs_pure all)
  from first_error_none [OF xs(1)] xs(2) have r: "ra = Inr listed" "rb = Inr given" "rc = Inr issues"
    by (auto simp: Cons_eq_map_conv)
  show ?thesis unfolding happened_def xs(3)
    using ask_list_logs [OF a] ask_list_logs [OF b] ask_list_logs [OF c] by (simp add: r)
qed

section \<open>A success of the evaluation\<close>

lemma organization_read_happened:
  assumes "load_organization_policy st (c_installation job) (c_repo job) g en w = (Inr org, w')"
  shows "organization_read en st job (happened w w') org"
proof -
  let ?repo = "owner_of (c_repo job) @ ''/'' @ s_org_repo st"
  from assms obtain w1 t w2 where a: "ask_bool (IncludesRepository (c_installation job) ?repo g) en w = (Inr True, w1)"
    and b: "ask_opt_text (GetFileText (c_installation job) ?repo (s_policy_path st) None) en w1 = (Inr t, w2)"
    and c: "(case t of None \<Rightarrow> ret default_organization_policy | Some t \<Rightarrow> parsed_toml e_organization_toml t) en w2 = (Inr org, w')"
    unfolding load_organization_policy_def Let_def by (auto simp: runs_seq runs_basic split: if_splits)
  have w2: "w' = w2" "case t of None \<Rightarrow> org = default_organization_policy | Some s \<Rightarrow> e_organization_toml en s = Inr org"
    using c by (auto simp: runs_basic parsed_toml_def split: option.splits sum.splits)
  show ?thesis unfolding organization_read_def Let_def w2(1)
    using happened_earlier [OF read_happened(5) [OF a] obeysD [OF extends_reads(4) b]]
      happened_later [OF obeysD [OF extends_reads(5) a] read_happened(4) [OF b]] w2(2) by blast
qed

lemma extends_find_codeowners [obeys_intros]: "obeys extends (find_codeowners i repo sha paths)"
  by (induction paths) (auto intro!: obeys_intros)

lemma codeowners_read_happened:
  assumes "find_codeowners (c_installation job) (c_repo job) sha paths en w = (Inr (Some (location, t)), w')"
  shows "codeowners_read job sha (happened w w') paths t"
  using assms
proof (induction paths arbitrary: w)
  case (Cons p paths)
  let ?c = "GetFileText (c_installation job) (c_repo job) p (Some sha)"
  from Cons.prems obtain u w1 where a: "ask_opt_text ?c en w = (Inr u, w1)"
    and rest: "(case u of None \<Rightarrow> find_codeowners (c_installation job) (c_repo job) sha paths | Some t \<Rightarrow> ret (Some (p, t))) en w1 =
      (Inr (Some (location, t)), w')"
    by (auto elim!: runs_seqE)
  note first = read_happened(4) [OF a]
  show ?case
  proof (cases u)
    case None
    with rest have more: "find_codeowners (c_installation job) (c_repo job) sha paths en w1 = (Inr (Some (location, t)), w')" by simp
    from Cons.IH [OF more] obtain pre q post where q: "paths = pre @ q # post"
      "happened w1 w' (GitEvent (GetFileText (c_installation job) (c_repo job) q (Some sha)) (Inr (AOptText (Some t))))"
      "\<forall>p \<in> set pre. happened w1 w' (GitEvent (GetFileText (c_installation job) (c_repo job) p (Some sha)) (Inr (AOptText None)))"
      unfolding codeowners_read_def by blast
    have later: "happened w w' e" if "happened w1 w' e" for e
      by (rule happened_later [OF happened_extends [OF first] that])
    have missing: "happened w w' (GitEvent ?c (Inr (AOptText None)))"
      using happened_earlier [OF first happened_extends [OF q(2)]] None by simp
    show ?thesis unfolding codeowners_read_def
      by (rule exI [of _ "p # pre"], rule exI [of _ q], rule exI [of _ post]) (use q later missing in simp)
  next
    case (Some s)
    with rest have "s = t" "w' = w1" by (simp_all add: runs_basic)
    with first Some show ?thesis unfolding codeowners_read_def
      by - (rule exI [of _ "[]"], rule exI [of _ p], rule exI [of _ paths], simp)
  qed
qed (simp add: runs_basic)

lemma reads_more:
  assumes "\<And>e. seen e \<Longrightarrow> seen' e"
  shows "organization_read en st job seen org \<Longrightarrow> organization_read en st job seen' org"
    and "codeowners_read job sha seen paths t \<Longrightarrow> codeowners_read job sha seen' paths t"
proof -
  show "organization_read en st job seen org \<Longrightarrow> organization_read en st job seen' org"
    unfolding organization_read_def Let_def by (meson assms)
  assume "codeowners_read job sha seen paths t"
  then obtain pre p post where "paths = pre @ p # post"
    "seen (GitEvent (GetFileText (c_installation job) (c_repo job) p (Some sha)) (Inr (AOptText (Some t))))"
    "\<forall>p \<in> set pre. seen (GitEvent (GetFileText (c_installation job) (c_repo job) p (Some sha)) (Inr (AOptText None)))"
    unfolding codeowners_read_def by blast
  with assms show "codeowners_read job sha seen' paths t" unfolding codeowners_read_def
    by - (rule exI [of _ pre], rule exI [of _ p], rule exI [of _ post], simp)
qed

lemma disabled_evaluation:
  assumes "evaluated (make_evaluation_input head t fs rs a ls org policy opts) en w = (Inr r, w')" and "\<not> enabled policy"
  shows "conclusion r = FAILURE"
proof -
  from evaluated_runs [OF assms(1)] obtain data where d: "make_evaluation_input head t fs rs a ls org policy opts = Inr data"
    "evaluate data = Inr r" by blast
  from make_evaluation_input_fields [OF d(1)] assms(2) have "\<not> enabled (repository_policy_of data)" by simp
  from evaluate_disabled [OF this d(2)] show ?thesis .
qed

lemma collected_success:
  assumes "collect_and_evaluate st job pull head sha expected org policy t rules en w = (Inr r, w')" and "conclusion r = SUCCESS"
  obtains data listed given where "evaluate data = Inr r"
    and "head_sha data = lower (strip head)" "codeowners_text data = t" "organization_policy_of data = org" "repository_policy_of data = policy"
      "exact_head_reviews (options data)" "allow_insecure_changes (options data) = s_allow_insecure st"
      "\<exists>names. label_names pull = Inr names \<and> normalize_labels names = Inr (labels data)"
    and "happened w w' (GitEvent (GetCodeownersErrors (c_installation job) (c_repo job) sha) (Inr (AList [])))"
    and "happened w w' (GitEvent (GetPullFiles (c_installation job) (c_repo job) (c_pull job)) (Inr (AList listed)))"
      "int (length listed) = expected" "list_all2 shows_file listed (changed_files data)"
    and "happened w w' (GitEvent (GetReviews (c_installation job) (c_repo job) (c_pull job)) (Inr (AList given)))"
      "\<forall>r \<in> set (reviews data). \<exists>v \<in> set given. shows_approval head v r"
proof -
  obtain ev w1 where e: "read_evidence job sha en w = (ev, w1)" by (cases "read_evidence job sha en w")
  note run = assms(1) [unfolded collect_and_evaluate_def seq_attempt [where m = "read_evidence job sha", OF e]]
  show thesis
  proof (cases ev)
    case (Inl x)
    with run assms(2) show ?thesis by (cases x) (auto simp: runs_basic)
  next
    case (Inr all)
    obtain listed given issues where all: "all = (listed, given, issues)" by (cases all)
    have complete: "int (length listed) = expected" "issues = []"
      using run assms(2) unfolding Inr all by (auto simp: runs_seq runs_basic split: if_splits)
    obtain sh w2 where s: "shaped_evidence job pull head org policy rules listed given en w1 = (sh, w2)"
      by (cases "shaped_evidence job pull head org policy rules listed given en w1")
    have rest: "(case sh of
             Inl (EvidenceLimit m) \<Rightarrow> ret (failure ''evidence_limit_exceeded'' m)
           | Inl (SvcValueError m) \<Rightarrow> ret (failure ''malformed_github_evidence'' m)
           | Inl x \<Rightarrow> raise_exc x
           | Inr s \<Rightarrow> evaluation_of st pull head t org policy s) en w2 = (Inr r, w')"
      using run unfolding Inr all by (simp add: complete seq_attempt [where m = "shaped_evidence job pull head org policy rules listed given", OF s])
    show ?thesis
    proof (cases sh)
      case (Inl x)
      with rest assms(2) show ?thesis by (cases x) (auto simp: runs_basic)
    next
      case (Inr shaped)
      with rest have ev_of: "evaluation_of st pull head t org policy shaped en w2 = (Inr r, w')" by simp
      from evaluation_of_shows [OF ev_of] obtain data where data: "evaluate data = Inr r"
        "head_sha data = lower (strip head)" "codeowners_text data = t" "changed_files data = snd (snd shaped)"
        "reviews data = fst shaped" "organization_policy_of data = org" "repository_policy_of data = policy"
        "exact_head_reviews (options data)" "allow_insecure_changes (options data) = s_allow_insecure st"
        "\<exists>names. label_names pull = Inr names \<and> normalize_labels names = Inr (labels data)" by blast
      note shown = shaped_evidence_shows [OF s [unfolded Inr]]
      have later: "extends w1 w'"
        by (rule extends_trans [OF quiet_extends [where m = "shaped_evidence job pull head org policy rules listed given", OF quiet_shaped(1) s]
              quiet_extends [where m = "evaluation_of st pull head t org policy shaped", OF quiet_shaped(3) ev_of]])
      note h = read_evidence_happened [OF e [unfolded \<open>ev = Inr all\<close> all]]
      note happened = h [THEN conjunct1] h [THEN conjunct2, THEN conjunct1] h [THEN conjunct2, THEN conjunct2]
      show ?thesis
        by (rule that [OF data(1,2,3,6-10) happened_earlier [OF happened(3) later, unfolded complete(2)]
              happened_earlier [OF happened(1) later] complete(1) _ happened_earlier [OF happened(2) later]])
          (use shown data(4,5) in simp_all)
    qed
  qed
qed


lemma evaluation_success:
  assumes "evaluate_current st job pull head sha expected policy en w = (Inr r, w')" and "conclusion r = SUCCESS"
  shows "\<exists>data. evaluate data = Inr r \<and> repository_policy_of data = policy \<and>
    evidence_read en st job head pull sha expected (happened w w') data"
proof -
  let ?i = "c_installation job" and ?repo = "c_repo job"
  have on: "enabled policy"
    using assms disabled_evaluation unfolding evaluate_current_def by (fastforce split: if_splits)
  obtain lo w1 where l: "load_organization_policy st ?i ?repo (c_authority job) en w = (lo, w1)"
    by (cases "load_organization_policy st ?i ?repo (c_authority job) en w")
  have few: "\<not> MAX_PULL_FILES \<le> expected"
    using assms on unfolding evaluate_current_def by (auto simp: runs_basic split: if_splits)
  note run = assms(1) [unfolded evaluate_current_def] and step = seq_attempt [where m = "load_organization_policy st ?i ?repo (c_authority job)", OF l]
  show ?thesis
  proof (cases lo)
    case (Inl x)
    with run assms(2) on few show ?thesis by (cases x) (auto simp: runs_basic step)
  next
    case (Inr org)
    obtain found w2 where f: "find_codeowners ?i ?repo sha CODEOWNERS_LOCATIONS en w1 = (Inr found, w2)"
      and rest: "(case found of
              None \<Rightarrow> ret (failure ''codeowners_missing''
                ''enabled repository has no CODEOWNERS file in .github/, the root, or docs/'')
            | Some (_, text_value) \<Rightarrow>
                (let rules = (case parse_codeowners text_value of Inl _ \<Rightarrow> [] | Inr rs \<Rightarrow> rs) in
                 if MAX_PATH_MATCH_OPERATIONS <
                   expected * 2 * (int (length rules) + policy_pattern_count st org policy)
                 then ret (failure ''evaluation_complexity_exceeded''
                   ''changed paths and policy patterns exceed the bounded evaluation budget'')
                 else collect_and_evaluate st job pull head sha expected org policy text_value rules)) en w2 = (Inr r, w')"
      using run on few Inr by (auto simp: step elim!: runs_seqE)
    from rest assms(2) obtain location t rules where t: "found = Some (location, t)"
      and c: "collect_and_evaluate st job pull head sha expected org policy t rules en w2 = (Inr r, w')"
      by (auto simp: runs_basic Let_def split: option.splits if_splits)
    from collected_success [OF c assms(2)] obtain data listed given where data: "evaluate data = Inr r"
      "head_sha data = lower (strip head)" "codeowners_text data = t" "organization_policy_of data = org" "repository_policy_of data = policy"
      "exact_head_reviews (options data)" "allow_insecure_changes (options data) = s_allow_insecure st"
      "\<exists>names. label_names pull = Inr names \<and> normalize_labels names = Inr (labels data)"
      and e: "happened w2 w' (GitEvent (GetCodeownersErrors ?i ?repo sha) (Inr (AList [])))"
      and fs: "happened w2 w' (GitEvent (GetPullFiles ?i ?repo (c_pull job)) (Inr (AList listed)))"
        "int (length listed) = expected" "list_all2 shows_file listed (changed_files data)"
      and rs: "happened w2 w' (GitEvent (GetReviews ?i ?repo (c_pull job)) (Inr (AList given)))"
        "\<forall>r \<in> set (reviews data). \<exists>v \<in> set given. shows_approval head v r" by blast
    have w1: "extends w w1"
      by (rule quiet_extends [where m = "load_organization_policy st ?i ?repo (c_authority job)", OF quiet_policies(1) l])
    have w2: "extends w1 w2" by (rule obeysD [OF extends_find_codeowners f])
    note w' = happened_extends [OF e]
    have last: "happened w w' x" if "happened w2 w' x" for x by (rule happened_later [OF extends_trans [OF w1 w2] that])
    have org: "organization_read en st job (happened w w') org"
      by (rule reads_more(1) [OF _ organization_read_happened [OF l [unfolded Inr]]])
        (rule happened_earlier [OF _ extends_trans [OF w2 w']])
    have co: "codeowners_read job sha (happened w w') CODEOWNERS_LOCATIONS t"
      by (rule reads_more(2) [OF _ codeowners_read_happened [OF f [unfolded t]]])
        (rule happened_earlier [OF happened_later [OF w1] w'])
    show ?thesis unfolding evidence_read_def Let_def
      by (rule exI [of _ data])
        (use data org co fs(2,3) rs(2) last [OF e] last [OF fs(1)] last [OF rs(1)] on in blast)
  qed
qed

text \<open>The whole evaluation, from the text of the repository's policy.\<close>

lemma evaluation_result_success:
  assumes "evaluation_result_of st x pull sha text_value expected en w = (Inr r, w')" and "conclusion r = SUCCESS"
  shows "\<exists>t data. text_value = Some t \<and> e_repository_toml en t = Inr (repository_policy_of data) \<and> evaluate data = Inr r \<and>
    evidence_read en st (x_job x) (x_head x) pull sha expected (happened w w') data"
proof -
  let ?m = "case text_value of None \<Rightarrow> ret default_repository_policy | Some t \<Rightarrow> parsed_toml e_repository_toml t"
  obtain p w1 where p: "?m en w = (p, w1)" by (cases "?m en w")
  have w1: "w1 = w" using p by (auto simp: ret_def parsed_toml_def split: option.splits)
  note run = assms(1) [unfolded evaluation_result_of_def seq_attempt [where m = ?m, OF p] w1]
  show ?thesis
  proof (cases p)
    case (Inl e)
    with run assms(2) show ?thesis by (cases e) (auto simp: runs_basic)
  next
    case (Inr policy)
    with run have "evaluate_current st (x_job x) pull (x_head x) sha expected policy en w = (Inr r, w')" by simp
    from evaluation_success [OF this assms(2)] obtain data where data: "evaluate data = Inr r" "repository_policy_of data = policy"
      "evidence_read en st (x_job x) (x_head x) pull sha expected (happened w w') data" by blast
    then have on: "enabled policy" by (simp add: evidence_read_def Let_def)
    then obtain t where "text_value = Some t" "e_repository_toml en t = Inr policy"
      using p unfolding Inr by (cases text_value) (auto simp: ret_def default_repository_policy_def parsed_toml_def split: sum.splits)
    with data show ?thesis by blast
  qed
qed


section \<open>The second read\<close>

text \<open>The re-read right before the publication showed the same pull request: open, on the same head and
  base, with as many changed files and the same labels, and the base branch still at \<open>sha\<close>.\<close>

definition unchanged_read :: "claimed_job \<Rightarrow> pull_view \<Rightarrow> string list \<Rightarrow> string \<Rightarrow> int \<Rightarrow> (event \<Rightarrow> bool) \<Rightarrow> bool" where
  "unchanged_read job view names sha expected seen \<longleftrightarrow> (let i = c_installation job; repo = c_repo job in
     (\<exists>pull now names'. seen (GitEvent (GetPull i repo (c_pull job)) (Inr (AObj pull))) \<and> pull_shows pull now \<and>
        pv_state now \<noteq> ''closed'' \<and> pv_head now = pv_head view \<and> pv_base_sha now = pv_base_sha view \<and>
        pv_base_ref now = pv_base_ref view \<and>
        required_nonnegative_int (get_key ''changed_files'' pull) ''pull_request.changed_files'' = Inr expected \<and>
        label_names pull = Inr names' \<and> set names' = set names) \<and>
     seen (GitEvent (GetBranchHead i repo (pv_base_ref view)) (Inr (AText sha))))"

lemma revalidated_unchanged:
  assumes "revalidate st x view names sha expected en w = (Inr True, w')"
  shows "unchanged_read (x_job x) view names sha expected (happened w w')"
proof -
  let ?i = "c_installation (x_job x)" and ?repo = "c_repo (x_job x)" and ?n = "c_pull (x_job x)"
  from assms obtain pull h b now w1 where p: "ask_obj (GetPull ?i ?repo ?n) en w = (Inr pull, w1)"
    and shown: "pull_objects pull = Inr (h, b)" "pull_strings pull h b = Inr now"
    and rest: "(if pv_state now = ''closed''
       then seq (finish_closed_pull_check st (x_job x) (x_head x) (x_details x)) (\<lambda>_. ret False)
       else seq (evidence_unchanged x pull view now names sha expected) (\<lambda>same.
         if same then ret True
         else seq (trigger_request (x_job x) ''pull_request_changed_during_evaluation'' (pv_head now) (pv_base_ref now)) (\<lambda>q.
           seq (do_enqueue_trigger q) (\<lambda>_. ret False)))) en w1 = (Inr True, w')"
    unfolding revalidate_def Let_def by (auto elim!: runs_seqE simp: runs_basic)
  from rest have live: "pv_state now \<noteq> ''closed''" by (auto simp: runs_seq runs_basic split: if_splits)
  with rest have same: "evidence_unchanged x pull view now names sha expected en w1 = (Inr True, w')"
    by (auto simp: runs_seq runs_basic split: if_splits)
  then obtain names' sha' where e: "pv_head now = pv_head view" "pv_base_sha now = pv_base_sha view" "pv_base_ref now = pv_base_ref view"
    "required_nonnegative_int (get_key ''changed_files'' pull) ''pull_request.changed_files'' = Inr expected"
    "label_names pull = Inr names'" "set names' = set names" "sha' = sha"
    "ask_text (GetBranchHead ?i ?repo (pv_base_ref view)) en w1 = (Inr sha', w')"
    unfolding evidence_unchanged_def by (auto simp: runs_seq runs_basic split: if_splits)
  note branch = read_happened(3) [OF e(8), unfolded e(7)]
  note first = read_happened(1) [OF p]
  have "pull_shows pull now" using shown by (auto simp: pull_shows_def)
  then show ?thesis unfolding unchanged_read_def Let_def
    using happened_earlier [OF first happened_extends [OF branch]] happened_later [OF happened_extends [OF first] branch] live e(1-6)
    by blast
qed

lemma branch_policy_read:
  assumes "branch_policy st job base en w = (Inr (sha, t), w')"
  shows "happened w w' (GitEvent (GetBranchHead (c_installation job) (c_repo job) base) (Inr (AText sha))) \<and>
    happened w w' (GitEvent (GetFileText (c_installation job) (c_repo job) (s_policy_path st) (Some sha)) (Inr (AOptText t)))"
proof -
  from assms obtain w1 where a: "ask_text (GetBranchHead (c_installation job) (c_repo job) base) en w = (Inr sha, w1)"
    and b: "ask_opt_text (GetFileText (c_installation job) (c_repo job) (s_policy_path st) (Some sha)) en w1 = (Inr t, w')"
    unfolding branch_policy_def repository_policy_text_def by (auto simp: runs_seq runs_basic)
  note first = read_happened(3) [OF a] and second = read_happened(4) [OF b]
  show ?thesis
    using happened_earlier [OF first happened_extends [OF second]] happened_later [OF happened_extends [OF first] second] by blast
qed

section \<open>Up to the publication\<close>

definition clean :: "world \<Rightarrow> bool" where
  "clean w \<longleftrightarrow> list_all (\<lambda>e. \<not> success_write e) (w_trace w)"

lemma quiet_clean: "quiet m \<Longrightarrow> m en w = (r, w') \<Longrightarrow> clean w \<Longrightarrow> clean w'"
  unfolding clean_def by (metis emitsD list_all_append snd_conv)

text \<open>A run from \<open>w\<close> that published a success leads to a world with \<open>P\<close>: a success comes from what
  runs after a quiet first step, and only if that step has returned.\<close>

definition leads :: "env \<Rightarrow> world \<Rightarrow> 'a svc \<Rightarrow> (world \<Rightarrow> bool) \<Rightarrow> bool" where
  "leads en w m P \<longleftrightarrow> clean w \<longrightarrow> (\<forall>r w'. m en w = (r, w') \<longrightarrow> \<not> clean w' \<longrightarrow> P w')"

lemma leads_quiet: "quiet m \<Longrightarrow> leads en w m P"
  unfolding leads_def using quiet_clean by blast

lemma leads_seq:
  assumes "quiet m" and "\<And>a w1. m en w = (Inr a, w1) \<Longrightarrow> extends w w1 \<Longrightarrow> leads en w1 (f a) P"
  shows "leads en w (seq m f) P"
  unfolding leads_def
proof (intro impI allI)
  fix r w'
  assume w: "clean w" and run: "seq m f en w = (r, w')" and w': "\<not> clean w'"
  obtain q w1 where m: "m en w = (q, w1)" by (cases "m en w")
  have w1: "clean w1" "extends w w1" using quiet_clean [OF assms(1) m w] quiet_extends [OF assms(1) m] .
  show "P w'"
  proof (cases q)
    case (Inl e)
    with run m w1(1) w' show ?thesis by (simp add: seq_def)
  next
    case (Inr a)
    with run m have "f a en w1 = (r, w')" by (simp add: seq_def)
    with assms(2) [OF m [unfolded Inr] w1(2)] w1(1) w' show ?thesis by (simp add: leads_def)
  qed
qed

lemma leads_seq_pure: "(\<And>a. v = Inr a \<Longrightarrow> leads en w (f a) P) \<Longrightarrow> leads en w (seq (of_result v) f) P"
  by (rule leads_seq) (auto simp: runs_basic intro: emits_pure)

lemma leads_cases:
  "(b \<Longrightarrow> leads en w m P) \<Longrightarrow> (\<not> b \<Longrightarrow> leads en w n P) \<Longrightarrow> leads en w (if b then m else n) P"
  "(\<And>y z. p = (y, z) \<Longrightarrow> leads en w (g y z) P) \<Longrightarrow> leads en w (case p of (y, z) \<Rightarrow> g y z) P"
  "(v = None \<Longrightarrow> leads en w m P) \<Longrightarrow> (\<And>y. v = Some y \<Longrightarrow> leads en w (k y) P) \<Longrightarrow> leads en w (case v of None \<Rightarrow> m | Some y \<Rightarrow> k y) P"
  by (simp_all split: prod.split option.split)

lemma clean_accounted: "clean w \<Longrightarrow> accounted st V job (w_trace w)"
  using accounted_append [of st V job "[]" "w_trace w"] by (simp add: clean_def accounted_def)

lemma accounted_after:
  assumes "quiet m" and "m en w = (r, w')" and "accounted st V job (w_trace w)"
  shows "accounted st V job (w_trace w')"
  using emitsD [OF assms(1), of en w] assms(2,3) accounted_append by (metis snd_conv)


text \<open>What had been read when the publication of \<open>result\<close> for \<open>head\<close> began, with the trace \<open>h\<close>: first
  the pull request, the policy of its base branch and the evidence that the evaluator was
  given, and after the evaluation the pull request once more, unchanged.\<close>

definition policy_read :: "settings \<Rightarrow> claimed_job \<Rightarrow> string \<Rightarrow> string \<Rightarrow> string option \<Rightarrow> trace \<Rightarrow> bool" where
  "policy_read st job base sha t h \<longleftrightarrow>
     GitEvent (GetBranchHead (c_installation job) (c_repo job) base) (Inr (AText sha)) \<in> set h \<and>
     GitEvent (GetFileText (c_installation job) (c_repo job) (s_policy_path st) (Some sha)) (Inr (AOptText t)) \<in> set h"

definition evaluated_on :: "env \<Rightarrow> settings \<Rightarrow> claimed_job \<Rightarrow> string \<Rightarrow> evaluation_result \<Rightarrow> trace \<Rightarrow> bool" where
  "evaluated_on en st job head result h \<longleftrightarrow> (\<exists>reread collected pull view sha t expected names data. h = reread @ collected \<and>
     GitEvent (GetPull (c_installation job) (c_repo job) (c_pull job)) (Inr (AObj pull)) \<in> set collected \<and>
     pull_shows pull view \<and> pv_head view = head \<and> pv_state view \<noteq> ''closed'' \<and>
     required_nonnegative_int (get_key ''changed_files'' pull) ''pull_request.changed_files'' = Inr expected \<and>
     label_names pull = Inr names \<and>
     policy_read st job (pv_base_ref view) sha (Some t) collected \<and> e_repository_toml en t = Inr (repository_policy_of data) \<and>
     evidence_read en st job head pull sha expected (\<lambda>e. e \<in> set collected) data \<and> evaluate data = Inr result \<and>
     unchanged_read job view names sha expected (\<lambda>e. e \<in> set reread))"

lemma policy_read_more: "policy_read st job base sha t h \<Longrightarrow> set h \<subseteq> set h' \<Longrightarrow> policy_read st job base sha t h'"
  by (auto simp: policy_read_def)

lemma happened_in: "happened w w' e \<Longrightarrow> e \<in> set (w_trace w')"
  by (auto simp: happened_def)

lemma happened_since: "happened w w' e \<Longrightarrow> w_trace w' = new @ w_trace w \<Longrightarrow> e \<in> set new"
  by (auto simp: happened_def)

lemma extends_in: "extends w w' \<Longrightarrow> set (w_trace w) \<subseteq> set (w_trace w')"
  by (auto simp: extends_def)

lemma evidence_read_more:
  assumes "evidence_read en st job head pull sha expected seen data" and "\<And>e. seen e \<Longrightarrow> seen' e"
  shows "evidence_read en st job head pull sha expected seen' data"
proof -
  note r = assms(1) [unfolded evidence_read_def Let_def]
  have org: "organization_read en st job seen' (organization_policy_of data)"
    by (rule reads_more(1) [OF assms(2) r [THEN conjunct1]])
  have co: "codeowners_read job sha seen' CODEOWNERS_LOCATIONS (codeowners_text data)"
    by (rule reads_more(2) [OF assms(2) r [THEN conjunct2, THEN conjunct1]])
  show ?thesis unfolding evidence_read_def Let_def
    by (intro conjI org co) (use r assms(2) in blast)+
qed

lemma unchanged_read_more:
  "unchanged_read job view names sha expected seen \<Longrightarrow> (\<And>e. seen e \<Longrightarrow> seen' e) \<Longrightarrow> unchanged_read job view names sha expected seen'"
  unfolding unchanged_read_def Let_def by blast

lemma evaluated_onI:
  assumes "evaluation_result_of st x pull sha u expected en w1 = (Inr result, w2)" and "conclusion result = SUCCESS"
    and "revalidate st x view names sha expected en w2 = (Inr True, w3)"
    and "GitEvent (GetPull (c_installation (x_job x)) (c_repo (x_job x)) (c_pull (x_job x))) (Inr (AObj pull)) \<in> set (w_trace w1)"
    and "pull_shows pull view" "pv_head view = x_head x" "pv_state view \<noteq> ''closed''"
    and "required_nonnegative_int (get_key ''changed_files'' pull) ''pull_request.changed_files'' = Inr expected"
    and "label_names pull = Inr names" and "policy_read st (x_job x) (pv_base_ref view) sha u (w_trace w1)"
  shows "evaluated_on en st (x_job x) (x_head x) result (w_trace w3)"
proof -
  from evaluation_result_success [OF assms(1,2)] obtain t data where t: "u = Some t"
    "e_repository_toml en t = Inr (repository_policy_of data)" and data: "evaluate data = Inr result"
    "evidence_read en st (x_job x) (x_head x) pull sha expected (happened w1 w2) data" by blast
  have two: "set (w_trace w1) \<subseteq> set (w_trace w2)"
    by (rule extends_in [OF quiet_extends [where m = "evaluation_result_of st x pull sha u expected", OF quiet_pieces(4) assms(1)]])
  have "extends w2 w3" by (rule quiet_extends [where m = "revalidate st x view names sha expected", OF quiet_revalidate assms(3)])
  then obtain reread where three: "w_trace w3 = reread @ w_trace w2" by (auto simp: extends_def)
  have e: "evidence_read en st (x_job x) (x_head x) pull sha expected (\<lambda>e. e \<in> set (w_trace w2)) data"
    by (rule evidence_read_more [OF data(2) happened_in])
  have again: "unchanged_read (x_job x) view names sha expected (\<lambda>e. e \<in> set reread)"
    by (rule unchanged_read_more [OF revalidated_unchanged [OF assms(3)] happened_since [OF _ three]])
  have first: "GitEvent (GetPull (c_installation (x_job x)) (c_repo (x_job x)) (c_pull (x_job x))) (Inr (AObj pull)) \<in> set (w_trace w2)"
    using assms(4) two by blast
  have policy: "policy_read st (x_job x) (pv_base_ref view) sha (Some t) (w_trace w2)"
    using policy_read_more [OF assms(10) two] t(1) by simp
  show ?thesis unfolding evaluated_on_def
    by (rule exI [of _ reread], rule exI [of _ "w_trace w2"], rule exI [of _ pull], rule exI [of _ view], rule exI [of _ sha],
        rule exI [of _ t], rule exI [of _ expected], rule exI [of _ names], rule exI [of _ data])
      (intro conjI three first assms(5-9) policy t(2) e data(1) again)
qed

text \<open>The publication that a run came to: the trace \<open>h\<close> when it began, without a success so far, and
  the rest of the run, every success of which shows \<open>result\<close> for \<open>head\<close>.\<close>

definition published_once :: "env \<Rightarrow> settings \<Rightarrow> claimed_job \<Rightarrow> trace \<Rightarrow> bool" where
  "published_once en st job h' \<longleftrightarrow> (\<exists>head result h new. h' = new @ h \<and> list_all (\<lambda>e. \<not> success_write e) h \<and>
     accounted st (\<lambda>hd v. hd = head \<and> v = result) job h' \<and>
     (conclusion result = SUCCESS \<longrightarrow> evaluated_on en st job head result h))"

lemma evaluated_on_same_claim: "same_claim job job' \<Longrightarrow> evaluated_on en st job' = evaluated_on en st job"
  by (simp add: fun_eq_iff same_claim_def evaluated_on_def policy_read_def evidence_read_def organization_read_def
      codeowners_read_def unchanged_read_def)

lemma extends_publish: "obeys extends (publish_result st x result)"
  unfolding publish_result_def authority_publish_guard_def publish_locked_def unblock_superseded_def restoring_def
    restore_blocking_def x_block_def x_upsert_def head_is_unique_to_pull_def current_associated_pulls_def pending_after_def
    ask_current_claim_def ask_publishable_def ask_blocking_authority_def ask_superseding_def Let_def
  by (auto intro!: obeys_intros)

lemma leads_publish:
  assumes "\<And>a. quiet (f a)" and "same_claim job (x_job x)"
    and "conclusion result = SUCCESS \<Longrightarrow> evaluated_on en st (x_job x) (x_head x) result (w_trace w)"
  shows "leads en w (seq (publish_result st x result) f) (\<lambda>w'. published_once en st job (w_trace w'))"
  unfolding leads_def
proof (intro impI allI)
  fix r w'
  assume w: "clean w" and run: "seq (publish_result st x result) f en w = (r, w')"
  let ?V = "\<lambda>h v. h = x_head x \<and> v = result"
  obtain q w1 where p: "publish_result st x result en w = (q, w1)" by (cases "publish_result st x result en w")
  have acc1: "accounted st ?V job (w_trace w1)"
    using tripleD [OF triple_publish_result [where V = ?V, OF assms(2)] clean_accounted [OF w] p]
    by (simp split: sum.splits)
  have acc: "accounted st ?V job (w_trace w')"
  proof (cases q)
    case (Inl e)
    with run p acc1 show ?thesis by (simp add: seq_def)
  next
    case (Inr a)
    with run p have "f a en w1 = (r, w')" by (simp add: seq_def)
    from accounted_after [OF assms(1) this acc1] show ?thesis .
  qed
  have "extends w w'"
  proof (cases q)
    case (Inl e)
    with run p obeysD [OF extends_publish p] show ?thesis by (simp add: seq_def)
  next
    case (Inr a)
    with run p have "f a en w1 = (r, w')" by (simp add: seq_def)
    from extends_trans [OF obeysD [OF extends_publish p] quiet_extends [OF assms(1) this]] show ?thesis .
  qed
  then obtain new where "w_trace w' = new @ w_trace w" by (auto simp: extends_def)
  with acc w assms(3) show "published_once en st job (w_trace w')" unfolding published_once_def clean_def evaluated_on_same_claim [OF assms(2)]
    by (intro exI [of _ "x_head x"] exI [of _ result] exI [of _ "w_trace w"] exI [of _ new]) simp
qed



section \<open>From the claim to the publication\<close>

lemma leads_bound:
  assumes "same_claim job (x_job x)"
    and "GitEvent (GetPull (c_installation (x_job x)) (c_repo (x_job x)) (c_pull (x_job x))) (Inr (AObj pull)) \<in> set (w_trace w)"
    and "pull_shows pull view" "pv_head view = x_head x" "pv_base_ref view = x_base_ref x" "pv_state view \<noteq> ''closed''"
    and "\<not> managed \<Longrightarrow> policy_read st (x_job x) (x_base_ref x) (fst early) (snd early) (w_trace w)"
  shows "leads en w (evaluate_bound st x pull view managed early) (\<lambda>w'. published_once en st job (w_trace w'))"
proof -
  have mark: "quiet (case c_delivery (x_job x) of None \<Rightarrow> ret () | Some i \<Rightarrow> do_mark_invalidated i)"
    by (auto intro!: emits_intros split: option.split)
  have policy: "quiet (if managed then branch_policy st (x_job x) (x_base_ref x) else ret early)"
    by (auto intro!: emits_intros)
  have last: "leads en w8 (seq (publish_result st x result) f) (\<lambda>w'. published_once en st job (w_trace w'))"
    if run: "(if managed then branch_policy st (x_job x) (x_base_ref x) else ret early) en w4 = (Inr (sha, u), w5)"
      "evaluation_result_of st x pull sha u expected en w5 = (Inr result, w6)"
      "revalidate st x view names sha expected en w6 = (Inr True, w8)" and since: "extends w w4" "extends w4 w5"
      and pull: "required_nonnegative_int (get_key ''changed_files'' pull) ''pull_request.changed_files'' = Inr expected"
        "label_names pull = Inr names" and f: "\<And>a. quiet (f a)" for sha u expected result names w4 w5 w6 w8 f
  proof (rule leads_publish [OF f assms(1)])
    assume "conclusion result = SUCCESS"
    have read: "policy_read st (x_job x) (pv_base_ref view) sha u (w_trace w5)"
    proof (cases managed)
      case True
      with run(1) show ?thesis unfolding policy_read_def assms(5) using branch_policy_read happened_in by fastforce
    next
      case False
      with run(1) have early: "early = (sha, u)" "w5 = w4" by (simp_all add: runs_basic)
      from policy_read_more [OF assms(7) [OF False] extends_in [OF since(1)]] show ?thesis
        unfolding assms(5) early by simp
    qed
    have "GitEvent (GetPull (c_installation (x_job x)) (c_repo (x_job x)) (c_pull (x_job x))) (Inr (AObj pull)) \<in> set (w_trace w5)"
      using assms(2) extends_in [OF extends_trans [OF since]] by blast
    from evaluated_onI [OF run(2) \<open>conclusion result = SUCCESS\<close> run(3) this assms(3,4,6) pull read]
    show "evaluated_on en st (x_job x) (x_head x) result (w_trace w8)" .
  qed
  show ?thesis unfolding evaluate_bound_def Let_def
    apply (rule leads_seq, rule emits_intros, rule leads_cases(1), rule leads_quiet, rule emits_intros)
    apply (rule leads_seq, rule mark)
    apply (rule leads_seq, rule emits_intros, rule leads_cases(1), rule leads_quiet, rule emits_intros)
    apply (rule leads_seq, rule emits_intros, rule leads_cases(1), rule leads_quiet, rule emits_intros)
    apply (rule leads_seq, rule policy, rule leads_cases(2))
    apply (rule leads_seq_pure, rule leads_seq_pure)
    apply (rule leads_seq, rule emits_intros)
    apply (rule leads_seq, rule emits_intros, rule leads_cases(1), rule leads_quiet, rule emits_intros)
    apply simp
    apply (rule last, assumption, assumption, assumption)
       apply (erule extends_trans, erule extends_trans, erule extends_trans, assumption)
      apply assumption+
    apply (auto intro!: emits_intros split: option.split)
    done
qed


lemma leads_open:
  assumes "GitEvent (GetPull (c_installation job) (c_repo job) (c_pull job)) (Inr (AObj pull)) \<in> set (w_trace w)"
    and "pull_shows pull view" "pv_state view \<noteq> ''closed''"
  shows "leads en w (evaluate_open st job pull view) (\<lambda>w'. published_once en st job (w_trace w'))"
proof -
  have early: "quiet (if managed then ret ([], None) else branch_policy st job' base)" for managed job' base
    by (auto intro!: emits_intros)
  have bound: "leads en w4 (evaluate_bound st \<lparr>x_job = job', x_head = pv_head view, x_base_ref = pv_base_ref view,
      x_details = details_of pull\<rparr> pull view managed ep) (\<lambda>w'. published_once en st job (w_trace w'))"
    if b: "do_bind_head job (pv_head view) en w1 = (Inr (Some job'), w2)" and since: "extends w w1" "extends w1 w2" "extends w2 w3" "extends w3 w4"
      and ep: "(if managed then ret ([], None) else branch_policy st job' (pv_base_ref view)) en w3 = (Inr ep, w4)"
    for job' w1 w2 w3 w4 managed ep
  proof (rule leads_bound)
    let ?x = "\<lparr>x_job = job', x_head = pv_head view, x_base_ref = pv_base_ref view, x_details = details_of pull\<rparr>"
    have same: "same_claim job job'" using bound_claim_returns [of job "pv_head view"] b unfolding returns_def by blast
    show "same_claim job (x_job ?x)" using same by simp
    have "GitEvent (GetPull (c_installation job) (c_repo job) (c_pull job)) (Inr (AObj pull)) \<in> set (w_trace w4)"
      using assms(1) extends_in [OF extends_trans [OF extends_trans [OF since(1,2)] extends_trans [OF since(3,4)]]] by blast
    then show "GitEvent (GetPull (c_installation (x_job ?x)) (c_repo (x_job ?x)) (c_pull (x_job ?x))) (Inr (AObj pull)) \<in> set (w_trace w4)"
      using same by (simp add: same_claim_def)
    assume "\<not> managed"
    with ep have "branch_policy st job' (pv_base_ref view) en w3 = (Inr (fst ep, snd ep), w4)" by simp
    from branch_policy_read [OF this] show "policy_read st (x_job ?x) (x_base_ref ?x) (fst ep) (snd ep) (w_trace w4)"
      by (auto simp: policy_read_def happened_def)
  qed (use assms in simp_all)
  show ?thesis unfolding evaluate_open_def Let_def
    apply (rule leads_seq, rule emits_intros, rule leads_cases(1), rule leads_quiet, rule emits_intros)
    apply (rule leads_cases(1), rule leads_quiet, (rule emits_intros)+)
    apply (rule leads_seq, rule emits_intros, rule leads_cases(3), rule leads_quiet, rule emits_intros)
    apply (rule leads_seq, rule emits_intros)
    apply (rule leads_seq, rule early, rule leads_cases(1), rule leads_quiet, rule emits_intros)
    apply (simp only:)
    apply (rule bound, assumption+)
    done
qed

lemma evaluate_job_published:
  assumes "evaluate_job st job en w = (r, w')" and "clean w" and "\<not> clean w'"
  shows "published_once en st job (w_trace w')"
proof -
  have opened: "leads en w1 (evaluate_open st job pull view) (\<lambda>w'. published_once en st job (w_trace w'))"
    if "ask_obj (GetPull (c_installation job) (c_repo job) (c_pull job)) en w = (Inr pull, w1)"
      "pull_objects pull = Inr (h, b)" "pull_strings pull h b = Inr view" "pv_state view \<noteq> ''closed''" for pull h b view w1
    using that happened_in [OF read_happened(1) [OF that(1)]] by (intro leads_open) (auto simp: pull_shows_def)
  have "leads en w (evaluate_job st job) (\<lambda>w'. published_once en st job (w_trace w'))" unfolding evaluate_job_def
    apply (rule leads_cases(1), rule leads_quiet, rule emits_intros)
    apply (rule leads_seq, rule quiet_reads, simp)
    apply (rule leads_seq_pure, rule leads_cases(2), rule leads_seq_pure, rule leads_cases(1), rule leads_quiet, rule emits_intros)
    apply (rule leads_seq_pure, rule leads_cases(1), rule leads_quiet, (rule emits_intros)+)
    apply (rule opened, assumption, simp_all)
    done
  with assms show ?thesis by (simp add: leads_def)
qed

text \<open>Every success of a run is accounted for, and stands for the one result that was published.\<close>

lemma success_published:
  assumes "evaluate_job st job en w = (r, w')" and "w_trace w = []"
    and "w_trace w' = after @ GitEvent call answer # before" and "success_call call"
  obtains head result fresh h where "before = fresh @ h" and "evaluated_on en st job head result h"
    and "success_ok st (\<lambda>hd v. hd = head \<and> v = result) job before (GitEvent call answer) (rev after)"
proof -
  have "clean w" "\<not> clean w'" using assms(2-4) by (simp_all add: clean_def)
  from evaluate_job_published [OF assms(1) this] obtain head result h new where p: "w_trace w' = new @ h"
    "list_all (\<lambda>e. \<not> success_write e) h" "accounted st (\<lambda>hd v. hd = head \<and> v = result) job (w_trace w')"
    "conclusion result = SUCCESS \<Longrightarrow> evaluated_on en st job head result h" unfolding published_once_def by blast
  from p(3) assms(3,4) have ok: "success_ok st (\<lambda>hd v. hd = head \<and> v = result) job before (GitEvent call answer) (rev after)"
    by (auto simp: accounted_def)
  then have success: "conclusion result = SUCCESS" by (auto simp: success_ok_def)
  have "GitEvent call answer \<notin> set h" using p(2) assms(4) by (auto simp: list_all_iff)
  moreover from p(1) assms(3) have "new @ h = after @ GitEvent call answer # before" by simp
  ultimately obtain fresh where "before = fresh @ h" by (auto simp: append_eq_append_conv2 append_eq_Cons_conv Cons_eq_append_conv)
  with p(4) [OF success] ok that show thesis by blast
qed

end
