(* ===== verification/Service_Publication.thy ===== *)
theory Service_Publication
  imports Service_Sample Service_Evaluation
begin

text \<open>
  The properties of a published success, for every environment and every database, whatever
  fails or is cancelled.
\<close>

lemma success_of_run:
  assumes "evaluate_job st job en w = (r, w')" and "w_trace w = []"
    and "w_trace w' = after @ GitEvent call answer # before" and "success_call call"
  obtains V where "success_ok st V job before (GitEvent call answer) (rev after)"
  using success_published [OF assms] by metis

text \<open>The sample run, cut at its success.\<close>

lemma sample_success:
  obtains r w' after call answer before
  where "evaluate_job sample_settings sample_job sample_env \<lparr>w_db = fst sample_ready, w_trace = [], w_budgets = [], w_memo = [], w_queued = 0\<rparr> = (r, w')"
    and "w_trace w' = after @ GitEvent call answer # before" and "success_call call"
proof -
  from spec [OF steps_job [unfolded steps_def], of "[]"] obtain new where run:
    "evaluate_job sample_settings sample_job sample_env \<lparr>w_db = fst sample_ready, w_trace = [], w_budgets = [], w_memo = [], w_queued = 0\<rparr> =
      (Inr (), \<lparr>w_db = sample_end, w_trace = new, w_budgets = [], w_memo = [], w_queued = 0\<rparr>)" "list_ex success_write new"
    by auto
  from run(2) obtain ev where "ev \<in> set new" "success_write ev" by (auto simp: list_ex_iff)
  then obtain after before call answer where "new = after @ GitEvent call answer # before" "success_call call"
    by (auto simp: success_write_def split: event.splits dest!: split_list)
  with run(1) that show ?thesis by auto
qed

text \<open>C1. A success is published only under both guards of the commit, taken before and released
  after, and right before it, with nothing but the lookup of the check in between, the claim
  of the job was found current and the generation of the commit publishable; since the guards
  were taken no authority change was pending.\<close>

theorem success_is_published_under_the_fence:
  assumes "evaluate_job st job en w = (r, w')" and "w_trace w = []"
    and "w_trace w' = after @ GitEvent call answer # before" and "success_call call"
  shows "\<exists>claim head base lookup now d now' d' now'' d'' seg earlier.
    before = lookup # StoreEvent (IsCurrentClaim claim) now d None # StoreEvent (Publishable claim head) now' d' None # seg @
      Acquired (HeadGuard (c_installation job) head) # Acquired (AuthorityGuard (c_installation job)) # earlier \<and>
    same_claim job claim \<and> check_lookup job head lookup \<and>
    is_current_claim now d claim \<and> shared_head_generation_is_publishable d' claim head = Inr True \<and>
    StoreEvent (BlockingAuthority claim base) now'' d'' None \<in> set seg \<and> \<not> has_blocking_authority d'' claim base \<and>
    (\<forall>g. Released g \<notin> set seg)"
proof -
  obtain V where "success_ok st V job before (GitEvent call answer) (rev after)" by (rule success_of_run [OF assms])
  then obtain claim head b lookup checked where ok:
    "before = lookup # checked" "check_lookup claim head lookup" "claim_checked claim head True b checked" "same_claim job claim"
    by (auto simp: success_ok_def)
  from ok(3) obtain now d now' d' seg where c: "checked = StoreEvent (IsCurrentClaim claim) now d None #
      StoreEvent (Publishable claim head) now' d' None # seg @ guards_taken claim head b"
    "is_current_claim now d claim" "shared_head_generation_is_publishable d' claim head = Inr True"
    "list_all inner_event seg" "no_pending_authority claim seg" by (auto simp: claim_checked_def)
  from c(5) obtain base now'' d'' where a: "StoreEvent (BlockingAuthority claim base) now'' d'' None \<in> set seg"
    "\<not> has_blocking_authority d'' claim base" by (auto simp: no_pending_authority_def)
  have kept: "\<forall>g. Released g \<notin> set seg" using c(4) by (auto simp: list_all_iff inner_event_def)
  have look: "check_lookup job head lookup" "c_installation claim = c_installation job"
    using ok(2,4) by (simp_all add: same_claim_def check_lookup_def)
  show ?thesis unfolding ok(1) c(1) guards_taken_def look(2)
    by (intro exI [of _ claim] exI [of _ head] exI [of _ base] exI [of _ lookup] exI [of _ now] exI [of _ d]
        exI [of _ now'] exI [of _ d'] exI [of _ now''] exI [of _ d''] exI [of _ seg] exI [of _ b])
      (simp add: a kept look ok(4) c(2,3))
qed

theorem success_is_published_under_the_fence_witness:
  "\<exists>(w' :: world) after call answer before.
     w_trace w' = after @ GitEvent call answer # before \<and> success_call call \<and>
     (\<exists>head. Acquired (HeadGuard 5 head) \<in> set before)"
proof -
  from sample_success obtain r w' after call answer before where
    run: "evaluate_job sample_settings sample_job sample_env \<lparr>w_db = fst sample_ready, w_trace = [], w_budgets = [], w_memo = [], w_queued = 0\<rparr> = (r, w')"
    "w_trace w' = after @ GitEvent call answer # before" "success_call call" .
  have "w_trace \<lparr>w_db = fst sample_ready, w_trace = [], w_budgets = [], w_memo = [], w_queued = 0\<rparr> = []" by simp
  from success_is_published_under_the_fence [OF run(1) this run(2,3)]
  have "\<exists>head. Acquired (HeadGuard 5 head) \<in> set before"
    by (elim exE conjE) (rule_tac x = head in exI, simp)
  with run(2,3) show ?thesis by blast
qed

text \<open>C2. A published success rests on an evaluation of what this very run read. Before the
  publication the run read the pull request, open, with the head of the publication; the text
  of the repository's policy at the commit \<open>sha\<close> that the base branch was at; the organization's
  policy, the CODEOWNERS file at \<open>sha\<close> and its errors (none), all the changed files that the pull
  request announced, and the reviews: the input \<open>data\<close> holds exactly these, with an approval only
  for a review of this head. The evaluator, run on \<open>data\<close>, gave \<open>result\<close> with the conclusion SUCCESS.
  After that the run read the pull request and the branch again and found them unchanged. Then,
  under the guards, GitHub showed that this pull request is the only open one on the commit, and
  the write that shows the success has the rendering of \<open>result\<close> as its output.\<close>

theorem success_rests_on_an_evaluation:
  assumes "evaluate_job st job en w = (r, w')" and "w_trace w = []"
    and "w_trace w' = after @ GitEvent call answer # before" and "success_call call"
  shows "\<exists>claim head lookup checked b fresh reread collected pull view sha t expected names data result.
    same_claim job claim \<and> before = lookup # checked \<and> claim_checked claim head True b checked \<and>
    shows_result st job head result lookup (GitEvent call answer) \<and>
    before = fresh @ reread @ collected \<and>
    GitEvent (GetPull (c_installation job) (c_repo job) (c_pull job)) (Inr (AObj pull)) \<in> set collected \<and>
    pull_shows pull view \<and> pv_head view = head \<and> pv_state view \<noteq> ''closed'' \<and>
    required_nonnegative_int (get_key ''changed_files'' pull) ''pull_request.changed_files'' = Inr expected \<and>
    label_names pull = Inr names \<and>
    policy_read st job (pv_base_ref view) sha (Some t) collected \<and> e_repository_toml en t = Inr (repository_policy_of data) \<and>
    evidence_read en st job head pull sha expected (\<lambda>e. e \<in> set collected) data \<and>
    evaluate data = Inr result \<and> conclusion result = SUCCESS \<and>
    unchanged_read job view names sha expected (\<lambda>e. e \<in> set reread)"
proof -
  from success_published [OF assms] obtain head result fresh h where h: "before = fresh @ h" "evaluated_on en st job head result h"
    and ok: "success_ok st (\<lambda>hd v. hd = head \<and> v = result) job before (GitEvent call answer) (rev after)" .
  from ok obtain claim b lookup checked where c: "before = lookup # checked" "claim_checked claim head True b checked"
    "same_claim job claim" "conclusion result = SUCCESS" "shows_result st claim head result lookup (GitEvent call answer)"
    unfolding success_ok_def by auto
  have shown: "shows_result st job head result lookup (GitEvent call answer)"
    using c(3,5) by (simp add: shows_result_def same_claim_def lookup_event_def)
  from h(2) obtain reread collected pull view sha t expected names data where e: "h = reread @ collected"
    "GitEvent (GetPull (c_installation job) (c_repo job) (c_pull job)) (Inr (AObj pull)) \<in> set collected"
    "pull_shows pull view" "pv_head view = head" "pv_state view \<noteq> ''closed''"
    "required_nonnegative_int (get_key ''changed_files'' pull) ''pull_request.changed_files'' = Inr expected"
    "label_names pull = Inr names" "policy_read st job (pv_base_ref view) sha (Some t) collected"
    "e_repository_toml en t = Inr (repository_policy_of data)"
    "evidence_read en st job head pull sha expected (\<lambda>e. e \<in> set collected) data" "evaluate data = Inr result"
    "unchanged_read job view names sha expected (\<lambda>e. e \<in> set reread)" unfolding evaluated_on_def by blast
  show ?thesis
    by (rule exI [of _ claim], rule exI [of _ head], rule exI [of _ lookup], rule exI [of _ checked], rule exI [of _ b],
        rule exI [of _ fresh], rule exI [of _ reread], rule exI [of _ collected], rule exI [of _ pull], rule exI [of _ view],
        rule exI [of _ sha], rule exI [of _ t], rule exI [of _ expected], rule exI [of _ names], rule exI [of _ data],
        rule exI [of _ result], intro conjI)
      (rule c(1-4) e(2-) shown h(1) [unfolded e(1)])+
qed

theorem success_rests_on_an_evaluation_witness:
  "\<exists>(w' :: world) after call answer before.
     w_trace w' = after @ GitEvent call answer # before \<and> success_call call \<and>
     (\<exists>data result listed. evaluate data = Inr result \<and> conclusion result = SUCCESS \<and> \<not> allow_insecure_changes (options data) \<and>
        GitEvent (GetPullFiles 5 ''o/r'' 7) (Inr (AList listed)) \<in> set before \<and>
        list_all2 shows_file listed (changed_files data))"
proof -
  from sample_success obtain r w' after call answer before where
    run: "evaluate_job sample_settings sample_job sample_env \<lparr>w_db = fst sample_ready, w_trace = [], w_budgets = [], w_memo = [], w_queued = 0\<rparr> = (r, w')"
    "w_trace w' = after @ GitEvent call answer # before" "success_call call" .
  have empty: "w_trace \<lparr>w_db = fst sample_ready, w_trace = [], w_budgets = [], w_memo = [], w_queued = 0\<rparr> = []"
    "\<not> s_allow_insecure sample_settings" by (simp_all add: sample_settings_def)
  from success_rests_on_an_evaluation [OF run(1) empty(1) run(2,3)] obtain fresh reread collected pull sha expected data result head where
    e: "before = fresh @ reread @ collected" "evaluate data = Inr result" "conclusion result = SUCCESS"
    "evidence_read sample_env sample_settings sample_job head pull sha expected (\<lambda>e. e \<in> set collected) data" by (elim exE conjE) (rule that)
  have job: "c_installation sample_job = 5" "c_repo sample_job = ''o/r''" "c_pull sample_job = 7" by code_simp+
  from e(4) obtain listed where listed: "GitEvent (GetPullFiles 5 ''o/r'' 7) (Inr (AList listed)) \<in> set collected"
    "list_all2 shows_file listed (changed_files data)" "\<not> allow_insecure_changes (options data)"
    by (auto simp: evidence_read_def Let_def empty(2) job)
  have "GitEvent (GetPullFiles 5 ''o/r'' 7) (Inr (AList listed)) \<in> set before" using listed(1) by (simp add: e(1))
  with listed(2,3) e(2,3) run(2,3) show ?thesis by blast
qed

text \<open>C3. A published success does not stand unverified: afterwards the claim and the generation are
  found current once more, or the check is looked up and blocked again before any guard is
  released, whatever was raised or cancelled in between: unless that lookup fails or its answer
  is malformed, the very next event is the write that blocks approval, which sets the run that
  the lookup found to the conclusion failure, or creates a run in progress for the head when it
  found none.\<close>

theorem success_is_confirmed_or_blocked_again:
  assumes "evaluate_job st job en w = (r, w')" and "w_trace w = []"
    and "w_trace w' = after @ GitEvent call answer # before" and "success_call call"
  shows "\<exists>claim head. same_claim job claim \<and>
    ((\<exists>now d now' d' later. rev after = StoreEvent (IsCurrentClaim claim) now d None # StoreEvent (Publishable claim head) now' d' None # later \<and>
        is_current_claim now d claim \<and> shared_head_generation_is_publishable d' claim head = Inr True) \<or>
     (\<exists>first found later. rev after = first @ GitEvent (ListCheckRuns (c_installation job) (c_repo job) head (s_check_name st)) found # later \<and>
        (\<forall>g. Released g \<notin> set first) \<and>
        (\<forall>run. found_run st found = Some run \<longrightarrow> (\<exists>write sent reply rest. later = GitEvent write reply # rest \<and>
           write_for (c_installation job) (c_repo job) head run write sent \<and>
           get_key ''status'' sent = JStr (if run = None then ''in_progress'' else ''completed'') \<and>
           (run \<noteq> None \<longrightarrow> get_key ''conclusion'' sent = JStr ''failure'')))))"
proof -
  obtain V where "success_ok st V job before (GitEvent call answer) (rev after)" by (rule success_of_run [OF assms])
  then obtain claim head where c: "same_claim job claim" "resolved st claim head (rev after)"
    by (auto simp: success_ok_def)
  then have id: "c_installation claim = c_installation job" "c_repo claim = c_repo job" by (simp_all add: same_claim_def)
  note after = c(2) [unfolded resolved_def begins_block_def lookup_event_def id]
  show ?thesis
    by (rule exI [of _ claim], rule exI [of _ head], rule conjI, rule c(1), rule disjE [OF after], rule disjI1, assumption,
        rule disjI2, elim exE conjE, intro exI conjI) assumption+
qed

theorem success_is_confirmed_or_blocked_again_witness:
  "\<exists>(w' :: world) after call answer before.
     w_trace w' = after @ GitEvent call answer # before \<and> success_call call \<and> after \<noteq> []"
proof -
  from sample_success obtain r w' after call answer before where
    run: "evaluate_job sample_settings sample_job sample_env \<lparr>w_db = fst sample_ready, w_trace = [], w_budgets = [], w_memo = [], w_queued = 0\<rparr> = (r, w')"
    "w_trace w' = after @ GitEvent call answer # before" "success_call call" .
  have "w_trace \<lparr>w_db = fst sample_ready, w_trace = [], w_budgets = [], w_memo = [], w_queued = 0\<rparr> = []" by simp
  from success_is_confirmed_or_blocked_again [OF run(1) this run(2,3)] have "after \<noteq> []" by auto
  with run(2,3) show ?thesis by blast
qed

text \<open>C30. The reset of a commit and the fast path of an accepted trigger never approve: whatever
  GitHub answers and whatever fails, they write no check with the conclusion success.\<close>

theorem resets_never_approve:
  "(\<exists>new. w_trace (snd (invalidate_shared_head st ch en w)) = new @ w_trace w \<and> \<not> list_ex success_write new) \<and>
   (\<exists>new. w_trace (snd (invalidate_for_trigger st None q g en w)) = new @ w_trace w \<and> \<not> list_ex success_write new)"
proof -
  have quiet: "quiet (invalidate_shared_head st ch)" "quiet (invalidate_for_trigger st None q g)"
    by (rule quiet_reset_service, rule quiet_followup(2)) simp
  have "\<exists>new. w_trace (snd (m en w)) = new @ w_trace w \<and> \<not> list_ex success_write new" if "quiet m" for m :: "'x svc"
    using that by (rule emitsD [of _ _ en w]) (auto simp: list_all_iff list_ex_iff)
  from this [OF quiet(1)] this [OF quiet(2)] show ?thesis by (rule conjI)
qed

end
