(* ===== verification/Fan_Out_Facts.thy ===== *)
theory Fan_Out_Facts
  imports World_Logic
begin

text \<open>
  What an authority fan-out promises: the attempt at a repository's fence is completed only
  after every open pull request in its scope was queued again, was recorded as handled by an
  earlier attempt at the same fence, or was shown not to be enrolled, or after the complete
  membership of the installation showed that the repository is gone.
\<close>

section \<open>The programs of a fan-out\<close>

lemmas store_calls = do_enqueue_def do_enqueue_trigger_def do_enqueue_for_generation_def do_membership_page_def
  do_installation_page_def do_authority_cursor_def do_backpressure_def ask_reset_pending_def ask_direct_waiter_def

context world_preorder
begin

lemma obeys_calls [obeys_intros]:
  "obeys R (do_enqueue q)" "obeys R (do_enqueue_trigger q)" "obeys R (do_membership_page c p e)"
  "obeys R (do_installation_page c qs p e)" "obeys R (do_authority_cursor c n h pg l)" "obeys R (do_backpressure s m n)"
  "obeys R (ask_reset_pending i repo head g)" "obeys R (ask_direct_waiter c)"
  by (simp_all add: store_calls obeys_intros)

lemma obeys_followup [obeys_intros]:
  assumes "\<And>base. obeys R (f base)"
  shows "obeys R (authority_followup_required st (Some f) q)" "obeys R (invalidate_for_trigger st (Some f) q g)"
proof -
  have e: "obeys R (enrolled_now st (Some f) q base)" for base
    by (simp add: enrolled_now_def assms)
  show "obeys R (authority_followup_required st (Some f) q)" "obeys R (invalidate_for_trigger st (Some f) q g)"
    unfolding authority_followup_required_def invalidate_for_trigger_def job_pull_def reset_accepted_head_def
      queue_live_head_def Let_def
    by (auto intro!: obeys_intros e)
qed

lemma obeys_absent_pages [obeys_intros]: "obeys R (absent_pages n job name p expected)"
proof (induction n arbitrary: p expected)
  case 0
  then show ?case by (subst absent_pages.simps) (auto intro!: obeys_intros)
next
  case (Suc n)
  then show ?case
    by (subst absent_pages.simps)
      (auto simp: restarting_def listed_repositories_def intro!: obeys_intros split: svc_exc.split)
qed

lemma obeys_absent [obeys_intros]: "obeys R (authority_repository_absent n job)"
  unfolding authority_repository_absent_def by (auto intro!: obeys_intros)

lemma obeys_membership [obeys_intros]: "obeys R (membership_checked n job name)"
  unfolding membership_checked_def by (auto intro!: obeys_intros)

lemma obeys_page [obeys_intros]: "obeys R (authority_page n job name p l)"
  unfolding authority_page_def by (auto intro!: obeys_intros)

lemma obeys_promoted [obeys_intros]: "obeys R (promoted q)"
  unfolding promoted_def by (auto intro!: obeys_intros)

lemma obeys_listed_pull [obeys_intros]: "obeys R (listed_pull job name handled pull)"
  unfolding listed_pull_def observation_def by (auto intro!: obeys_intros)

lemma obeys_raise_outcomes [obeys_intros]: "obeys R (raise_outcomes rs)"
  unfolding raise_outcomes_def Let_def by (auto intro!: obeys_intros)

lemma obeys_revoke:
  assumes "\<And>base. obeys R (policy_present st (ca_installation job) name base)"
  shows "obeys R (revoke st job name q)"
  unfolding revoke_def Let_def
  by (auto intro!: obeys_intros assms split: svc_exc.split)

lemma run_all_each:
  assumes "\<And>m. m \<in> set ms \<Longrightarrow> obeys R m" and "run_all ms en w = (Inr rs, w')"
  shows "length rs = length ms \<and> (\<forall>k < length ms. \<exists>w1 w2. R w w1 \<and> (ms ! k) en w1 = (rs ! k, w2) \<and> R w2 w')"
  using assms
proof (induction ms arbitrary: rs w)
  case Nil
  then show ?case by (simp add: run_all_def)
next
  case (Cons m ms)
  obtain r w1 where m: "m en w = (r, w1)" by (cases "m en w")
  obtain rs' where rs: "rs = r # rs'" and rest: "run_all ms en w1 = (Inr rs', w')"
    using Cons.prems(2) m by (auto simp: run_all_Cons split: prod.splits sum.splits)
  have "obeys R m" by (rule Cons.prems(1)) simp
  then have R1: "R w w1" using m unfolding obeys_def by (metis snd_conv)
  have ms: "\<And>m. m \<in> set ms \<Longrightarrow> obeys R m" by (rule Cons.prems(1)) simp
  from Cons.IH [OF ms rest] have ih: "length rs' = length ms"
    "\<forall>k < length ms. \<exists>u1 u2. R w1 u1 \<and> (ms ! k) en u1 = (rs' ! k, u2) \<and> R u2 w'" by auto
  have "R w1 w'" by (rule obeysD [OF obeys_run_all [OF ms] rest])
  show ?case
  proof (intro conjI allI impI)
    fix k assume "k < length (m # ms)"
    then show "\<exists>u1 u2. R w u1 \<and> ((m # ms) ! k) en u1 = (rs ! k, u2) \<and> R u2 w'"
    proof (cases k)
      case 0
      with m rs \<open>R w1 w'\<close> R_refl show ?thesis by auto
    next
      case (Suc k')
      with ih(2) \<open>k < length (m # ms)\<close> obtain u1 u2 where "R w1 u1" "(ms ! k') en u1 = (rs' ! k', u2)" "R u2 w'" by auto
      with R1 rs Suc show ?thesis by (auto intro: R_trans)
    qed
  qed (use rs ih(1) in simp)
qed

end

section \<open>Evidence\<close>

text \<open>\<open>seen\<close> is the history of the attempt. The policy of a branch is absent when its current head
  was read and has no policy file.\<close>

definition policy_absent :: "settings \<Rightarrow> int \<Rightarrow> string \<Rightarrow> (event \<Rightarrow> bool) \<Rightarrow> string \<Rightarrow> bool" where
  "policy_absent st i name seen b \<longleftrightarrow> (\<exists>sha. seen (GitEvent (GetBranchHead i name b) (Inr (AText sha))) \<and>
     seen (GitEvent (GetFileText i name (s_policy_path st) (Some sha)) (Inr (AOptText None))))"

definition grows :: "settings \<Rightarrow> int \<Rightarrow> string \<Rightarrow> world \<Rightarrow> world \<Rightarrow> bool" where
  "grows st i name w w' \<longleftrightarrow> extends w w' \<and> (\<forall>b. (b, Inr False) \<in> set (w_memo w') \<longrightarrow>
     (b, Inr False) \<in> set (w_memo w) \<or> policy_absent st i name (happened w w') b)"

definition remembered :: "settings \<Rightarrow> int \<Rightarrow> string \<Rightarrow> world \<Rightarrow> world \<Rightarrow> bool" where
  "remembered st i name w0 w \<longleftrightarrow> extends w0 w \<and>
     (\<forall>b. (b, Inr False) \<in> set (w_memo w) \<longrightarrow> policy_absent st i name (happened w0 w) b)"

lemma policy_absent_mono: "policy_absent st i name p b \<Longrightarrow> (\<And>x. p x \<Longrightarrow> q x) \<Longrightarrow> policy_absent st i name q b"
  unfolding policy_absent_def by blast

lemma policy_absent_later:
  "policy_absent st i name (happened w1 w2) b \<Longrightarrow> extends w w1 \<Longrightarrow> policy_absent st i name (happened w w2) b"
  by (erule policy_absent_mono) (rule happened_later)

lemma policy_absent_earlier:
  "policy_absent st i name (happened w w1) b \<Longrightarrow> extends w1 w2 \<Longrightarrow> policy_absent st i name (happened w w2) b"
  by (erule policy_absent_mono) (rule happened_earlier)

lemma grows_extends: "grows st i name w w' \<Longrightarrow> extends w w'"
  by (simp add: grows_def)

lemma grows_trans:
  assumes "grows st i name w w1" and "grows st i name w1 w2"
  shows "grows st i name w w2"
  using assms unfolding grows_def
  by (auto intro: extends_trans policy_absent_later policy_absent_earlier)

lemma remembered_grows:
  assumes "remembered st i name w0 w" and "grows st i name w w'"
  shows "remembered st i name w0 w'"
  using assms unfolding remembered_def grows_def
  by (auto intro: extends_trans policy_absent_later policy_absent_earlier)

interpretation growth: world_preorder "grows st i name" for st :: settings and i :: int and name :: string
proof
  fix w w1 w2 :: world and d bs x
  show "grows st i name w w" by (simp add: grows_def)
  show "grows st i name w (w\<lparr>w_db := d, w_budgets := bs, w_trace := x # w_trace w\<rparr>)"
    by (simp add: grows_def extends_def)
  show "grows st i name w w1 \<Longrightarrow> grows st i name w1 w2 \<Longrightarrow> grows st i name w w2" by (rule grows_trans)
qed

lemma extends_grows: "extends w w' \<Longrightarrow> w_memo w' = w_memo w \<Longrightarrow> grows st i name w w'"
  by (simp add: grows_def)

section \<open>The memoised policy\<close>

lemma looked_up_policy_absent:
  assumes "looked_up_policy st i name b en w = (Inr False, w')"
  shows "policy_absent st i name (happened w w') b"
  using assms unfolding looked_up_policy_def repository_policy_text_def ask_text_def ask_opt_text_def policy_absent_def
  by (auto simp: runs happened_def log_event_def)

lemma looked_up_policy_grows: "obeys (grows st i name) (looked_up_policy st i name b)"
  unfolding looked_up_policy_def by (auto intro!: obeys_intros)

lemma policy_present_grows: "obeys (grows st i name) (policy_present st i name b)"
  unfolding obeys_def
proof (intro allI)
  fix en and w :: world
  show "grows st i name w (snd (policy_present st i name b en w))"
  proof (cases "map_of (w_memo w) b")
    case None
    obtain r w1 where l: "looked_up_policy st i name b en w = (r, w1)" by (cases "looked_up_policy st i name b en w")
    have g: "grows st i name w w1" by (rule obeysD [OF looked_up_policy_grows l])
    show ?thesis
    proof (cases "r = Inl Cancelled")
      case False
      have "r = Inr False \<longrightarrow> policy_absent st i name (happened w w1) b"
        using l by (auto intro: looked_up_policy_absent)
      with g False None l show ?thesis
        by (auto simp: policy_present_def grows_def)
    qed (use g None l in \<open>simp add: policy_present_def\<close>)
  qed (simp add: policy_present_def growth.R_refl)
qed

lemma policy_present_absent:
  assumes "policy_present st i name b en w = (Inr False, w')" and "remembered st i name w0 w"
  shows "policy_absent st i name (happened w0 w') b"
proof (cases "map_of (w_memo w) b")
  case (Some r)
  with assms(1) have "(b, Inr False) \<in> set (w_memo w)" "w' = w"
    by (auto simp: policy_present_def dest: map_of_SomeD)
  with assms(2) show ?thesis by (simp add: remembered_def)
next
  case None
  then obtain w1 where l: "looked_up_policy st i name b en w = (Inr False, w1)" "w_trace w' = w_trace w1"
    using assms(1) by (auto simp: policy_present_def split: prod.splits)
  then have "happened w w' = happened w w1" by (simp add: happened_def fun_eq_iff)
  with looked_up_policy_absent [OF l(1)] have "policy_absent st i name (happened w w') b" by simp
  with assms(2) show ?thesis by (auto simp: remembered_def intro: policy_absent_later)
qed

section \<open>One pull request\<close>

text \<open>A pull request is taken up when it was queued for the listed head, or when GitHub showed
  that its head carries no check of the application and that the head of its current base
  branch has no policy.\<close>

definition taken_up :: "settings \<Rightarrow> int \<Rightarrow> string \<Rightarrow> (event \<Rightarrow> bool) \<Rightarrow> int \<Rightarrow> string \<Rightarrow> bool" where
  "taken_up st i name seen number sha \<longleftrightarrow>
     (\<exists>q now d. seen (StoreEvent (Enqueue q) now d None) \<and> q_installation q = i \<and> q_repo q = lower name \<and>
        q_pull q = number \<and> q_head q = Some sha) \<or>
     (\<exists>pull b. seen (GitEvent (GetPull i (lower name) number) (Inr (AObj pull))) \<and> ref_of pull = Some b \<and>
        seen (GitEvent (HasReconciliationCheck i (lower name) sha (s_check_name st)) (Inr (ABool False))) \<and>
        policy_absent st i name seen b)"

lemma taken_up_mono: "taken_up st i name p n sha \<Longrightarrow> (\<And>x. p x \<Longrightarrow> q x) \<Longrightarrow> taken_up st i name q n sha"
  unfolding taken_up_def by (blast intro: policy_absent_mono)

lemma make_job_request_fields:
  assumes "make_job_request i r p reason head wc obs base = Inr q"
  shows "q_installation q = i \<and> q_repo q = lower r \<and> q_pull q = p \<and> q_head q = head"
  using assms by (auto simp: make_job_request_def normalize_repository_full_name_def bind_result_Inr Let_def
      split: if_splits option.splits prod.splits bool.splits)

definition about :: "job_request \<Rightarrow> int \<Rightarrow> string \<Rightarrow> int \<Rightarrow> string \<Rightarrow> bool" where
  "about q i name number sha \<longleftrightarrow>
     q_installation q = i \<and> q_repo q = lower name \<and> q_pull q = number \<and> q_head q = Some sha"

lemma promoted_about:
  "promoted q en w = (Inr q', w') \<Longrightarrow> about q i name number sha \<Longrightarrow> w' = w \<and> about q' i name number sha"
  by (auto simp: promoted_def runs about_def dest: make_job_request_fields)

lemma enqueue_takes_up:
  assumes "do_enqueue q en w = (Inr u, w')" and "about q i name number sha"
  shows "taken_up st i name (happened w w') number sha"
  using store_run_happened [OF assms(1) [unfolded do_enqueue_def]] assms(2)
  unfolding taken_up_def about_def by blast

lemma followup_denied:
  assumes "authority_followup_required st (Some (policy_present st i name)) q en w = (Inr False, w')"
    and "remembered st i name w0 w" and "about q i name number sha"
  shows "taken_up st i name (happened w0 w') number sha"
proof -
  let ?check = "HasReconciliationCheck i (lower name) sha (s_check_name st)"
  from assms(1,3) obtain pull base b where
    pull: "pull_objects pull = Inr base" "required_string (get_key ''ref'' (snd base)) ''pull_request.base.ref'' = Inr b"
    and run: "policy_present st i name b en
      (log_event (GitEvent ?check (Inr (ABool False))) (log_event (GitEvent (GetPull i (lower name) number) (Inr (AObj pull))) w)) =
        (Inr False, w')"
    unfolding authority_followup_required_def job_pull_def enrolled_now_def ask_obj_def ask_bool_def about_def
    by (auto simp: runs split: if_splits prod.splits)
  let ?w1 = "log_event (GitEvent (GetPull i (lower name) number) (Inr (AObj pull))) w"
  let ?w2 = "log_event (GitEvent ?check (Inr (ABool False))) ?w1"
  have ref: "ref_of pull = Some b"
    using pull by (auto simp: pull_objects_def ref_of_def required_object_def required_string_def bind_result_Inr
        split: option.splits if_splits)
  have w0: "extends w0 w" using assms(2) by (simp add: remembered_def)
  have g: "grows st i name w ?w2" by (rule extends_grows) (simp_all add: extends_def log_event_def)
  have e: "extends ?w2 w'" by (rule grows_extends [OF obeysD [OF policy_present_grows run]])
  have "policy_absent st i name (happened w0 w') b"
    by (rule policy_present_absent [OF run remembered_grows [OF assms(2) g]])
  moreover have "happened w0 w' (GitEvent (GetPull i (lower name) number) (Inr (AObj pull)))"
    by (rule happened_later [OF w0 happened_earlier [OF happened_log extends_trans [OF extends_log e]]])
  moreover have "happened w0 w' (GitEvent ?check (Inr (ABool False)))"
    by (rule happened_later [OF extends_trans [OF w0 extends_log] happened_earlier [OF happened_log e]])
  ultimately show ?thesis unfolding taken_up_def using ref by blast
qed

definition revoke_again :: "job_request \<Rightarrow> svc_exc \<Rightarrow> unit svc" where
  "revoke_again q x = (case x of
     RecoveryDeferred _ \<Rightarrow> raise_exc x
   | QuotaExhausted _ \<Rightarrow> raise_exc x
   | Cancelled \<Rightarrow> raise_exc x
   | GitHubRateLimit _ _ \<Rightarrow> seq (except_exception (seq (promoted q) do_enqueue) (\<lambda>_. ret ())) (\<lambda>_. raise_exc x)
   | _ \<Rightarrow> seq (promoted q) do_enqueue)"

lemma revoke_again_runs:
  assumes "revoke_again q x en w = (Inr (), w')"
  shows "seq (promoted q) do_enqueue en w = (Inr (), w')"
  using assms by (cases x) (simp_all add: revoke_again_def runs_pure(2) runs_seq [where f = "\<lambda>_. raise_exc _"])

lemma revoke_takes_up:
  assumes "revoke st job name q en w = (Inr (), w')" and "remembered st i name w0 w"
    and "about q i name number sha" and "i = ca_installation job"
  shows "taken_up st i name (happened w0 w') number sha"
proof -
  let ?policy = "policy_present st i name"
  let ?body = "seq (authority_followup_required st (Some ?policy) q) (\<lambda>required. if \<not> required then ret ()
        else seq (do_enqueue q) (\<lambda>_. seq (promoted q) (\<lambda>q'. seq (invalidate_for_trigger st (Some ?policy) q' None) (\<lambda>_. ret ()))))"
  have w0: "extends w0 w" using assms(2) by (simp add: remembered_def)
  have up: "obeys (grows st i name) (authority_followup_required st (Some ?policy) q)"
    "obeys (grows st i name) (invalidate_for_trigger st (Some ?policy) q' g)" for q' g
    by (rule growth.obeys_followup policy_present_grows)+
  have body: "obeys (grows st i name) ?body"
    by (auto intro!: obeys_intros policy_present_grows)
  from assms(1,4) have cases: "?body en w = (Inr (), w') \<or>
      (\<exists>x w1. ?body en w = (Inl x, w1) \<and> seq (promoted q) do_enqueue en w1 = (Inr (), w'))"
    unfolding revoke_def Let_def runs_handle revoke_again_def [symmetric] by (blast dest: revoke_again_runs)
  then show ?thesis
  proof
    assume "?body en w = (Inr (), w')"
    then obtain required w1 where f: "authority_followup_required st (Some ?policy) q en w = (Inr required, w1)"
      and rest: "(if \<not> required then ret () else seq (do_enqueue q) (\<lambda>_. seq (promoted q) (\<lambda>q'.
          seq (invalidate_for_trigger st (Some ?policy) q' None) (\<lambda>_. ret ())))) en w1 = (Inr (), w')"
      unfolding runs_seq by blast
    have w1: "extends w w1" by (rule grows_extends [OF obeysD [OF up(1) f]])
    show ?thesis
    proof (cases required)
      case False
      with rest f followup_denied [OF _ assms(2,3)] show ?thesis by (simp add: runs)
    next
      case True
      with rest obtain u w2 q' w3 v w4 where run: "do_enqueue q en w1 = (Inr u, w2)" "promoted q en w2 = (Inr q', w3)"
        "invalidate_for_trigger st (Some ?policy) q' None en w3 = (Inr v, w4)" "w' = w4"
        by (auto simp: runs_seq runs_pure)
      have "w3 = w2" using run(2) by (simp add: promoted_def runs)
      then have "extends w2 w'" using grows_extends [OF obeysD [OF up(2) run(3)]] run(4) by simp
      with enqueue_takes_up [OF run(1) assms(3)] extends_trans [OF w0 w1] show ?thesis
        by (blast intro: taken_up_mono happened_earlier happened_later)
    qed
  next
    assume "\<exists>x w1. ?body en w = (Inl x, w1) \<and> seq (promoted q) do_enqueue en w1 = (Inr (), w')"
    then obtain x w1 where b: "?body en w = (Inl x, w1)"
      and p: "seq (promoted q) do_enqueue en w1 = (Inr (), w')" by blast
    obtain q' w2 where run: "promoted q en w1 = (Inr q', w2)" "do_enqueue q' en w2 = (Inr (), w')"
      using p unfolding runs_seq by (elim exE conjE) (rule that)
    note same = promoted_about [OF run(1) assms(3)]
    have "grows st i name w (snd (?body en w))" using body unfolding obeys_def by (elim allE)
    then have "grows st i name w w1" unfolding b snd_conv .
    with w0 have "extends w0 w1" by (rule extends_trans [OF _ grows_extends])
    moreover have "taken_up st i name (happened w1 w') number sha"
      using enqueue_takes_up [OF run(2)] same by blast
    ultimately show ?thesis by (elim taken_up_mono) (rule happened_later)
  qed
qed

end
