(* ===== verification/Fan_Out_Coverage.thy ===== *)
theory Fan_Out_Coverage
  imports Fan_Out_Facts
begin

text \<open>
  The coverage of an authority fan-out: the pages of the listing form a chain from the
  checkpoint to the end, and every pull request on them is dealt with.
\<close>

section \<open>One page\<close>

definition listed_as :: "obj \<Rightarrow> int \<Rightarrow> string \<Rightarrow> bool" where
  "listed_as pull number sha \<longleftrightarrow> as_int (get_key ''number'' pull) = Some number \<and>
     (\<exists>head. as_obj (get_key ''head'' pull) = Some head \<and> as_str (get_key ''sha'' head) = Some sha)"

definition fingerprint :: "env \<Rightarrow> int \<Rightarrow> string \<Rightarrow> obj \<Rightarrow> string" where
  "fingerprint en number sha pull = e_fingerprint en [JInt number, JStr sha,
     (case as_obj (get_key ''base'' pull) of None \<Rightarrow> JNull | Some base \<Rightarrow> get_key ''ref'' base),
     get_key ''updated_at'' pull]"

definition dealt_with ::
  "env \<Rightarrow> settings \<Rightarrow> claimed_authority \<Rightarrow> string \<Rightarrow> (string \<times> string) list \<Rightarrow> (event \<Rightarrow> bool) \<Rightarrow> obj \<Rightarrow> bool" where
  "dealt_with en st job name handled seen pull \<longleftrightarrow> (in_scope job (ref_of pull) \<longrightarrow>
     (\<exists>number sha. listed_as pull number sha \<and>
       (map_of handled (show_int number) = Some (fingerprint en number sha pull) \<or>
        taken_up st (ca_installation job) name seen number sha)))"

lemma dealt_with_mono:
  "dealt_with en st job name handled p pull \<Longrightarrow> (\<And>x. p x \<Longrightarrow> q x) \<Longrightarrow> dealt_with en st job name handled q pull"
  unfolding dealt_with_def by (blast intro: taken_up_mono)

definition entry_ok ::
  "env \<Rightarrow> claimed_authority \<Rightarrow> string \<Rightarrow> (string \<times> string) list \<Rightarrow> obj \<Rightarrow> (int \<times> string \<times> job_request option) option \<Rightarrow> bool" where
  "entry_ok en job name handled pull r \<longleftrightarrow> (case r of
     None \<Rightarrow> \<not> in_scope job (ref_of pull)
   | Some (number, seen, q) \<Rightarrow> \<exists>sha. listed_as pull number sha \<and> seen = fingerprint en number sha pull \<and>
       (case q of None \<Rightarrow> map_of handled (show_int number) = Some seen
        | Some q \<Rightarrow> about q (ca_installation job) name number sha))"

lemma listed_pull_runs:
  assumes "listed_pull job name handled pull en w = (Inr r, w')"
  shows "w' = w \<and> entry_ok en job name handled pull r"
proof -
  obtain number where n: "as_int (get_key ''number'' pull) = Some number"
    using assms by (cases "as_int (get_key ''number'' pull)") (auto simp: listed_pull_def runs)
  obtain head where h: "as_obj (get_key ''head'' pull) = Some head"
    using assms n by (cases "as_obj (get_key ''head'' pull)") (auto simp: listed_pull_def runs)
  obtain sha where s: "as_str (get_key ''sha'' head) = Some sha"
    using assms n h by (cases "as_str (get_key ''sha'' head)") (auto simp: listed_pull_def runs)
  have l: "listed_as pull number sha" using n h s by (simp add: listed_as_def)
  show ?thesis
  proof (cases "(ca_base job \<noteq> None \<or> ca_targets job \<noteq> []) \<and> ref_of pull = None")
    case True
    with assms n h s show ?thesis by (auto simp: listed_pull_def runs)
  next
    case False
    show ?thesis
    proof (cases "in_scope job (ref_of pull)")
      case True
      let ?fp = "fingerprint en number sha pull"
      have o: "observation number sha pull en w = (Inr ?fp, w)"
        by (simp add: observation_def fingerprint_def ask_env_def cong: option.case_cong)
      have mk: "about a (ca_installation job) name number sha"
        if "make_job_request (ca_installation job) name number v (Some sha) ''recovery'' None b = Inr a" for v b a
        using make_job_request_fields [OF that] by (simp add: about_def)
      from assms n h s False True o show ?thesis
        by (auto simp: listed_pull_def runs_seq runs_pure entry_ok_def l intro!: exI [of _ sha] dest: mk
            split: if_splits)
    next
      case out: False
      from assms n h s False out show ?thesis
        by (auto simp: listed_pull_def runs_pure entry_ok_def split: if_splits)
    qed
  qed
qed

lemma collect_each:
  assumes "\<And>x y v. f x en w = (Inr y, v) \<Longrightarrow> v = w" and "collect xs f en w = (Inr ys, w')"
  shows "w' = w \<and> list_all2 (\<lambda>x y. f x en w = (Inr y, w)) xs ys"
  using assms(2)
proof (induction xs arbitrary: ys)
  case (Cons x xs)
  then obtain y v ys' where run: "f x en w = (Inr y, v)" "collect xs f en v = (Inr ys', w')" "ys = y # ys'"
    by (auto simp: runs_seq runs_pure)
  with assms(1) Cons.IH [of ys'] show ?case by auto
qed (simp add: runs_pure)

lemma raise_outcomes_runs:
  assumes "raise_outcomes rs en w = (Inr u, w')"
  shows "\<forall>r \<in> set rs. \<not> isl r"
proof -
  have "map projl (filter isl rs) = []"
    using assms by (auto simp: raise_outcomes_def Let_def runs_seq runs_pure split: if_splits)
  then show ?thesis by (simp add: filter_empty_conv)
qed

lemma obeys_fan_out_page: "obeys (grows st (ca_installation job) name) (fan_out_page st job name handled pulls)"
  unfolding fan_out_page_def Let_def
  by (auto intro!: obeys_intros growth.obeys_revoke policy_present_grows)

lemma fan_out_page_deals:
  assumes run: "fan_out_page st job name handled pulls en w = (Inr n, w')"
    and inv: "remembered st (ca_installation job) name w0 w" and "pull \<in> set pulls"
  shows "dealt_with en st job name handled (happened w0 w') pull"
proof -
  let ?i = "ca_installation job"
  obtain found w1 where found: "collect pulls (listed_pull job name handled) en w = (Inr found, w1)"
    and rest: "(let entries = List.map_filter id found; seen = observed entries;
           batch = sort_key q_pull (List.map_filter (\<lambda>(_, _, q). q) entries);
           kept = filter (\<lambda>p. \<exists>x \<in> set seen. show_int (fst x) = fst p) handled in
       seq (run_all (map (revoke st job name) batch)) (\<lambda>outcomes.
       case handled_prefix seen (zip batch outcomes) 0 kept of (number, handled') \<Rightarrow>
       seq (if number = 0 then ret True else do_authority_cursor job number (Some handled') None None) (\<lambda>current.
         if \<not> current then raise_exc (GitHubError ''authority discovery lost its claim before checkpointing'')
         else seq (raise_outcomes outcomes) (\<lambda>_. ret number)))) en w1 = (Inr n, w')"
    using run unfolding fan_out_page_def runs_seq [of "collect pulls (listed_pull job name handled)"] by blast
  have "w1 = w \<and> list_all2 (\<lambda>x y. listed_pull job name handled x en w = (Inr y, w)) pulls found"
    by (rule collect_each [OF _ found]) (simp add: listed_pull_runs)
  then have w1: "w1 = w" and entries: "list_all2 (entry_ok en job name handled) pulls found"
    by (auto elim: list_all2_mono dest: listed_pull_runs)
  obtain r where r: "r \<in> set found" "entry_ok en job name handled pull r"
    using entries assms(3) by (metis in_set_conv_nth list_all2_conv_all_nth)
  show ?thesis
  proof (cases "\<exists>number seen q. r = Some (number, seen, Some q)")
    case False
    with r(2) show ?thesis
      by (auto simp: entry_ok_def dealt_with_def split: option.splits)
  next
    case True
    then obtain number seen q where req: "r = Some (number, seen, Some q)" by blast
    then obtain sha where q: "listed_as pull number sha" "about q ?i name number sha"
      using r(2) by (auto simp: entry_ok_def)
    let ?batch = "sort_key q_pull (List.map_filter (\<lambda>(_, _, q). q) (List.map_filter id found))"
    have "q \<in> set ?batch"
      using r(1) req by (force simp: List.map_filter_def)
    then obtain k where k: "k < length ?batch" "?batch ! k = q" by (metis in_set_conv_nth)
    obtain outcomes w2 where outcomes: "run_all (map (revoke st job name) ?batch) en w = (Inr outcomes, w2)"
      and after: "(case handled_prefix (observed (List.map_filter id found)) (zip ?batch outcomes) 0
             (filter (\<lambda>p. \<exists>x \<in> set (observed (List.map_filter id found)). show_int (fst x) = fst p) handled) of
           (number, handled') \<Rightarrow>
       seq (if number = 0 then ret True else do_authority_cursor job number (Some handled') None None) (\<lambda>current.
         if \<not> current then raise_exc (GitHubError ''authority discovery lost its claim before checkpointing'')
         else seq (raise_outcomes outcomes) (\<lambda>_. ret number))) en w2 = (Inr n, w')"
      using rest unfolding w1 Let_def runs_seq [of "run_all _"] by blast
    obtain number' handled' where prefix: "handled_prefix (observed (List.map_filter id found)) (zip ?batch outcomes) 0
             (filter (\<lambda>p. \<exists>x \<in> set (observed (List.map_filter id found)). show_int (fst x) = fst p) handled) =
           (number', handled')" by (cases "handled_prefix (observed (List.map_filter id found)) (zip ?batch outcomes) 0
             (filter (\<lambda>p. \<exists>x \<in> set (observed (List.map_filter id found)). show_int (fst x) = fst p) handled)")
    obtain current w3 where w3: "(if number' = 0 then ret True else do_authority_cursor job number' (Some handled') None None) en w2 =
        (Inr current, w3)" and final: "(if \<not> current then raise_exc (GitHubError ''authority discovery lost its claim before checkpointing'')
         else seq (raise_outcomes outcomes) (\<lambda>_. ret number')) en w3 = (Inr n, w')"
      using after unfolding prefix prod.case runs_seq [of "if _ then _ else _"] by blast
    obtain u w4 where ro: "raise_outcomes outcomes en w3 = (Inr u, w4)" and w4: "w' = w4"
      using final by (cases current) (auto simp: runs_seq runs_pure)
    have ob: "obeys (grows st ?i name) m" if "m \<in> set (map (revoke st job name) ?batch)" for m
      using that by (auto intro!: growth.obeys_revoke policy_present_grows)
    from growth.run_all_each [OF ob outcomes] k obtain v1 v2 where v: "grows st ?i name w v1"
      "revoke st job name q en v1 = (outcomes ! k, v2)" "grows st ?i name v2 w2" "length outcomes = length ?batch"
      by auto
    have "outcomes ! k = Inr ()"
    proof -
      have "outcomes ! k \<in> set outcomes" using v(4) k(1) by (intro nth_mem) simp
      with raise_outcomes_runs [OF ro] show ?thesis by (cases "outcomes ! k") auto
    qed
    with v(2) have t: "taken_up st ?i name (happened w0 v2) number sha"
      using revoke_takes_up [OF _ remembered_grows [OF inv v(1)] q(2)] by simp
    have "obeys (grows st ?i name) (if number' = 0 then ret True else do_authority_cursor job number' (Some handled') None None)"
      by (auto intro!: obeys_intros)
    then have "grows st ?i name w2 w3" using w3 by (rule obeysD)
    moreover have "obeys (grows st ?i name) (raise_outcomes outcomes)" by (rule growth.obeys_raise_outcomes)
    then have "grows st ?i name w3 w'" unfolding w4 using ro by (rule obeysD)
    ultimately have e: "extends v2 w'"
      by (intro extends_trans [OF grows_extends [OF v(3)] extends_trans]) (auto dest: grows_extends)
    have "taken_up st ?i name (happened w0 w') number sha"
      by (rule taken_up_mono [OF t]) (rule happened_earlier [OF _ e])
    with q(1) show ?thesis unfolding dealt_with_def by blast
  qed
qed

section \<open>Absence\<close>

inductive membership_listed :: "(event \<Rightarrow> bool) \<Rightarrow> int \<Rightarrow> string \<Rightarrow> int \<Rightarrow> bool" for seen i name where
  membership_end: "membership_listed seen i name 0"
| membership_page: "seen (GitEvent (ListRepositoryPage i p e) (Inr (APage items n upcoming))) \<Longrightarrow>
     reconciliation_repositories (JList (map JObj items)) = Inr rs \<Longrightarrow> name \<notin> fst ` set rs \<Longrightarrow>
     membership_listed seen i name upcoming \<Longrightarrow> membership_listed seen i name p"

lemma membership_listed_mono:
  "membership_listed p i name n \<Longrightarrow> (\<And>x. p x \<Longrightarrow> q x) \<Longrightarrow> membership_listed q i name n"
  by (induction rule: membership_listed.induct) (auto intro: membership_listed.intros)

text \<open>The complete membership of the installation, from the durable checkpoint on, does not name
  the repository, and neither does a fresh lookup of its installation.\<close>

definition shown_absent :: "claimed_authority \<Rightarrow> string \<Rightarrow> (event \<Rightarrow> bool) \<Rightarrow> bool" where
  "shown_absent job name seen \<longleftrightarrow> membership_listed seen (ca_installation job) name (ca_member_page job) \<and>
     seen (GitEvent (IncludesCurrently (ca_installation job) name) (Inr (ABool False)))"

lemma shown_absent_mono: "shown_absent job name p \<Longrightarrow> (\<And>x. p x \<Longrightarrow> q x) \<Longrightarrow> shown_absent job name q"
  unfolding shown_absent_def by (blast intro: membership_listed_mono)

definition archived_addition :: "claimed_authority \<Rightarrow> string \<Rightarrow> (event \<Rightarrow> bool) \<Rightarrow> bool" where
  "archived_addition job name seen \<longleftrightarrow> ca_reason job = ''installation_repositories.added'' \<and>
     (\<exists>m. seen (GitEvent (GetRepository (ca_installation job) name) (Inr (AObj m))) \<and>
        reconciliation_repository (JObj m) = Inr (name, True))"

lemma runs_restarting: "restarting m r en w = (Inr a, w') \<longleftrightarrow> m en w = (Inr a, w')"
proof -
  have "\<not> (case x of RepositoriesChanged _ \<Rightarrow> seq r (\<lambda>_. raise_exc x) | _ \<Rightarrow> raise_exc x) en v = (Inr a, w')" for x v
    by (cases x) (simp_all add: runs_seq runs_pure)
  then show ?thesis unfolding restarting_def runs_handle by blast
qed

lemma absent_pages_runs:
  assumes "absent_pages n job name p e en w = (Inr True, w')"
  shows "membership_listed (happened w w') (ca_installation job) name p"
  using assms
proof (induction n arbitrary: p e w)
  case 0
  then show ?case
    by (subst (asm) absent_pages.simps) (auto simp: runs_pure membership_end split: if_splits)
next
  case (Suc n)
  show ?case
  proof (cases "p = 0")
    case True
    then show ?thesis by (simp add: membership_end)
  next
    case False
    let ?call = "ListRepositoryPage (ca_installation job) p e"
    from Suc.prems False obtain items total up rs w2 where
      rs: "reconciliation_repositories (JList (map JObj items)) = Inr rs" "\<not> list_ex (\<lambda>q. fst q = name) rs"
      and step: "do_membership_page job up (Some total) en (log_event (GitEvent ?call (Inr (APage items total up))) w) = (Inr True, w2)"
      and rest: "absent_pages n job name up (Some total) en w2 = (Inr True, w')"
      by (subst (asm) absent_pages.simps)
        (auto simp: runs_seq runs_pure runs_restarting ask_page_def runs_answered listed_repositories_def runs_payload
          split: if_splits prod.splits)
    let ?w1 = "log_event (GitEvent ?call (Inr (APage items total up))) w"
    have w2: "extends ?w1 w2" by (rule obeysD [OF history.obeys_calls(3) step])
    have w': "extends w2 w'" by (rule obeysD [OF history.obeys_absent_pages rest])
    show ?thesis
    proof (rule membership_page)
      show "happened w w' (GitEvent ?call (Inr (APage items total up)))"
        by (rule happened_earlier [OF happened_log extends_trans [OF w2 w']])
      show "membership_listed (happened w w') (ca_installation job) name up"
        by (rule membership_listed_mono [OF Suc.IH [OF rest]])
          (rule happened_later [OF extends_trans [OF extends_log w2]])
      show "name \<notin> fst ` set rs" using rs(2) by (auto simp: list_ex_iff)
    qed (rule rs(1))
  qed
qed

lemma repository_absent_runs:
  assumes "authority_repository_absent n job en w = (Inr True, w')" and "ca_repo job = Some name"
  shows "shown_absent job name (happened w w')"
proof -
  from assms obtain w1 where pages: "absent_pages n job name (ca_member_page job) (ca_member_expected job) en w = (Inr True, w1)"
    and w': "w' = log_event (GitEvent (IncludesCurrently (ca_installation job) name) (Inr (ABool False))) w1"
    by (auto simp: authority_repository_absent_def runs_seq runs_pure ask_bool_def runs_answered split: if_splits)
  have "extends w w1" by (rule obeysD [OF history.obeys_absent_pages pages])
  with absent_pages_runs [OF pages] show ?thesis
    unfolding shown_absent_def w'
    by (auto intro: membership_listed_mono happened_earlier [OF _ extends_log] happened_later [OF _ happened_log])
qed

lemma membership_checked_runs:
  assumes "membership_checked n job name en w = (Inr False, w')" and "ca_repo job = Some name"
  shows "shown_absent job name (happened w w') \<or> archived_addition job name (happened w w')"
proof -
  let ?i = "ca_installation job"
  let ?body = "seq (ask_bool (IncludesCurrently ?i name)) (\<lambda>included.
        if \<not> included then seq (authority_repository_absent n job) (\<lambda>absent. if absent then ret False
          else raise_exc (GitHubError ''repository authority membership evidence is inconsistent''))
        else if ca_reason job = ''installation_repositories.added''
        then seq (ask_obj (GetRepository ?i name)) (\<lambda>metadata.
          seq (payload (reconciliation_repository (JObj metadata))) (\<lambda>(current_name, archived).
            if current_name \<noteq> name then raise_exc (GitHubError ''repository addition metadata changed its full name'')
            else ret (\<not> archived)))
        else ret True)"
  have later: "shown_absent job name (happened w w')"
    if "extends w v" "authority_repository_absent n job en v = (Inr True, w')" for v
    by (rule shown_absent_mono [OF repository_absent_runs [OF that(2) assms(2)]]) (rule happened_later [OF that(1)])
  consider (body) "?body en w = (Inr False, w')" |
    (failed) x v where "?body en w = (Inl x, v)" "authority_repository_absent n job en v = (Inr True, w')"
    using assms(1) unfolding membership_checked_def runs_handle
    by (auto simp: runs_pure(2) runs_seq [of "authority_repository_absent n job"] runs_pure(1) split: if_splits)
  then show ?thesis
  proof cases
    case body
    then obtain included where included: "(if \<not> included then seq (authority_repository_absent n job) (\<lambda>absent. if absent then ret False
          else raise_exc (GitHubError ''repository authority membership evidence is inconsistent''))
        else if ca_reason job = ''installation_repositories.added''
        then seq (ask_obj (GetRepository ?i name)) (\<lambda>metadata.
          seq (payload (reconciliation_repository (JObj metadata))) (\<lambda>(current_name, archived).
            if current_name \<noteq> name then raise_exc (GitHubError ''repository addition metadata changed its full name'')
            else ret (\<not> archived)))
        else ret True) en (log_event (GitEvent (IncludesCurrently ?i name) (Inr (ABool included))) w) = (Inr False, w')"
      unfolding ask_bool_def runs_seq [of "answered e_bool ABool _"] by (auto simp: runs_answered)
    show ?thesis
    proof (cases included)
      case False
      with included later [OF extends_log] show ?thesis by (auto simp: runs_seq runs_pure split: if_splits)
    next
      case True
      with included show ?thesis
        by (auto simp: runs_seq runs_pure ask_obj_def runs_answered runs_payload archived_addition_def
            happened_later [OF extends_log happened_log] split: if_splits)
    qed
  next
    case failed
    have "obeys extends ?body" by (auto intro!: obeys_intros)
    then have "extends w (snd (?body en w))" unfolding obeys_def by (elim allE)
    then have "extends w v" unfolding failed(1) snd_conv .
    with later failed(2) show ?thesis by blast
  qed
qed

section \<open>The whole listing\<close>

text \<open>The chain of pages from a page to the end of the listing, unless the repository is found
  absent on the way. Only the first page compares with the fingerprints of the checkpoint.\<close>

inductive listed_to_end ::
  "env \<Rightarrow> settings \<Rightarrow> claimed_authority \<Rightarrow> string \<Rightarrow> (event \<Rightarrow> bool) \<Rightarrow> int \<Rightarrow> (string \<times> string) list \<Rightarrow> bool"
  for en st job name seen where
  listing_end: "listed_to_end en st job name seen 0 handled"
| listing_absent: "shown_absent job name seen \<Longrightarrow> listed_to_end en st job name seen p handled"
| listing_page: "seen (GitEvent (ListAuthorityPage (ca_installation job) name p l) (Inr (APage pulls l' upcoming))) \<Longrightarrow>
     \<forall>pull \<in> set pulls. dealt_with en st job name handled seen pull \<Longrightarrow>
     listed_to_end en st job name seen upcoming [] \<Longrightarrow> listed_to_end en st job name seen p handled"

lemma authority_page_runs:
  assumes "authority_page n job name p l en w = (Inr r, w')" and "ca_repo job = Some name"
  shows "case r of None \<Rightarrow> shown_absent job name (happened w w')
     | Some (pulls, l', upcoming) \<Rightarrow>
         w' = log_event (GitEvent (ListAuthorityPage (ca_installation job) name p l) (Inr (APage pulls l' upcoming))) w"
proof -
  let ?call = "ListAuthorityPage (ca_installation job) name p l"
  let ?body = "seq (ask_page ?call) (\<lambda>p. ret (Some p))"
  have "?body en w = (Inr r, w') \<or>
      (\<exists>x v. ?body en w = (Inl x, v) \<and> authority_repository_absent n job en v = (Inr True, w') \<and> r = None)"
    using assms(1) unfolding authority_page_def runs_handle
    by (cases r) (auto simp: runs_pure(2) runs_seq [of "authority_repository_absent n job"] runs_pure(1) split: if_splits)
  then consider (body) "?body en w = (Inr r, w')" |
    (failed) x v where "?body en w = (Inl x, v)" "authority_repository_absent n job en v = (Inr True, w')" "r = None"
    by (elim disjE exE conjE) (rule that, assumption+)+
  then show ?thesis
  proof cases
    case body
    then show ?thesis by (auto simp: runs_seq runs_pure ask_page_def runs_answered split: prod.splits)
  next
    case failed
    have "obeys extends ?body" by (auto intro!: obeys_intros)
    then have "extends w (snd (?body en w))" unfolding obeys_def by (elim allE)
    then have "extends w v" unfolding failed(1) snd_conv .
    then have "shown_absent job name (happened w w')"
      by (intro shown_absent_mono [OF repository_absent_runs [OF failed(2) assms(2)]]) (rule happened_later)
    with failed(3) show ?thesis by simp
  qed
qed

lemma authority_pages_grow: "obeys (grows st (ca_installation job) name) (authority_pages n st job name p l c handled)"
proof (induction n arbitrary: p l c handled)
  case 0
  then show ?case by (subst authority_pages.simps) (auto intro!: obeys_intros)
next
  case (Suc n)
  then show ?case
    by (subst authority_pages.simps) (auto intro!: obeys_intros obeys_fan_out_page)
qed

lemma authority_pages_runs:
  assumes "authority_pages n st job name p l c handled en w = (Inr (), w')"
    and "remembered st (ca_installation job) name w0 w" and "ca_repo job = Some name"
  shows "listed_to_end en st job name (happened w0 w') p handled"
  using assms(1,2)
proof (induction n arbitrary: p l c handled w)
  case 0
  then show ?case
    by (subst (asm) authority_pages.simps) (auto simp: runs_pure listing_end split: if_splits)
next
  case (Suc n)
  let ?i = "ca_installation job"
  show ?case
  proof (cases "p = 0")
    case True
    then show ?thesis by (simp add: listing_end)
  next
    case False
    have "seq (authority_page n job name p l) (\<lambda>page. case page of
            None \<Rightarrow> ret ()
          | Some (pulls, last_number, upcoming) \<Rightarrow>
              seq (fan_out_page st job name handled pulls) (\<lambda>number.
              seq (do_authority_cursor job (max c number) (Some []) (Some upcoming) (Some last_number)) (\<lambda>current.
                if \<not> current then raise_exc (GitHubError ''authority discovery lost its claim before page checkpointing'')
                else authority_pages n st job name upcoming last_number (max c number) []))) en w = (Inr (), w')"
      using Suc.prems(1) False by (subst (asm) authority_pages.simps) simp
    then obtain r w1 where page: "authority_page n job name p l en w = (Inr r, w1)"
      and after: "(case r of
            None \<Rightarrow> ret ()
          | Some (pulls, last_number, upcoming) \<Rightarrow>
              seq (fan_out_page st job name handled pulls) (\<lambda>number.
              seq (do_authority_cursor job (max c number) (Some []) (Some upcoming) (Some last_number)) (\<lambda>current.
                if \<not> current then raise_exc (GitHubError ''authority discovery lost its claim before page checkpointing'')
                else authority_pages n st job name upcoming last_number (max c number) []))) en w1 = (Inr (), w')"
      unfolding runs_seq [of "authority_page n job name p l"] by (elim exE conjE) (rule that)
    note r = authority_page_runs [OF page assms(3)]
    have w0: "extends w0 w" using Suc.prems(2) by (simp add: remembered_def)
    show ?thesis
    proof (cases r)
      case None
      with after r have "shown_absent job name (happened w w')" by (simp add: runs_pure)
      then have "shown_absent job name (happened w0 w')"
        by (rule shown_absent_mono) (rule happened_later [OF w0])
      then show ?thesis by (rule listing_absent)
    next
      case (Some pg)
      obtain pulls l' up where pg: "pg = (pulls, l', up)" by (cases pg)
      let ?x = "GitEvent (ListAuthorityPage ?i name p l) (Inr (APage pulls l' up))"
      have w1: "w1 = log_event ?x w" using r Some pg by simp
      from after Some pg obtain number w2 where run: "fan_out_page st job name handled pulls en w1 = (Inr number, w2)"
        and more: "seq (do_authority_cursor job (max c number) (Some []) (Some up) (Some l')) (\<lambda>current.
                if \<not> current then raise_exc (GitHubError ''authority discovery lost its claim before page checkpointing'')
                else authority_pages n st job name up l' (max c number) []) en w2 = (Inr (), w')"
        by (simp add: runs_seq [of "fan_out_page st job name handled pulls"]) (elim exE conjE, rule that)
      from more obtain w3 where step: "do_authority_cursor job (max c number) (Some []) (Some up) (Some l') en w2 = (Inr True, w3)"
        and rest: "authority_pages n st job name up l' (max c number) [] en w3 = (Inr (), w')"
        by (auto simp: runs_seq [of "do_authority_cursor _ _ _ _ _"] runs_pure(2) split: if_splits)
      have rem1: "remembered st ?i name w0 w1" unfolding w1
        by (rule remembered_grows [OF Suc.prems(2) extends_grows]) (simp_all add: log_event_def extends_def)
      have g2: "grows st ?i name w1 w2" by (rule obeysD [OF obeys_fan_out_page run])
      have g3: "grows st ?i name w2 w3" by (rule obeysD [OF growth.obeys_calls(5) step])
      have g4: "grows st ?i name w3 w'" by (rule obeysD [OF authority_pages_grow rest])
      have rem3: "remembered st ?i name w0 w3" by (rule remembered_grows [OF remembered_grows [OF rem1 g2] g3])
      have e2: "extends w2 w'" by (rule extends_trans [OF grows_extends [OF g3] grows_extends [OF g4]])
      show ?thesis
      proof (rule listing_page)
        show "happened w0 w' ?x"
          by (rule happened_later [OF w0 happened_earlier [OF _ extends_trans [OF grows_extends [OF g2] e2]]]) (simp add: w1)
        show "\<forall>pull \<in> set pulls. dealt_with en st job name handled (happened w0 w') pull"
        proof
          fix pull assume "pull \<in> set pulls"
          then show "dealt_with en st job name handled (happened w0 w') pull"
            by (rule dealt_with_mono [OF fan_out_page_deals [OF run rem1]]) (rule happened_earlier [OF _ e2])
        qed
        show "listed_to_end en st job name (happened w0 w') up []" by (rule Suc.IH [OF rest rem3])
      qed
    qed
  qed
qed

section \<open>The attempt\<close>

lemma discover_authority_runs:
  assumes "discover_authority n st job en w = (Inr (), w')" and "ca_repo job = Some name"
  shows "shown_absent job name (happened w w') \<or> archived_addition job name (happened w w') \<or>
    listed_to_end en st job name (happened w w') (ca_page job) (ca_fingerprints job)"
proof -
  have "seq (membership_checked n job name) (\<lambda>go_on. if \<not> go_on then ret () else seq forget_policies (\<lambda>_.
         authority_pages n st job name (ca_page job) (ca_last job) (ca_cursor job) (ca_fingerprints job))) en w = (Inr (), w')"
    using assms by (simp add: discover_authority_def)
  then obtain go_on w1 where check: "membership_checked n job name en w = (Inr go_on, w1)"
    and rest: "(if \<not> go_on then ret () else seq forget_policies (\<lambda>_.
         authority_pages n st job name (ca_page job) (ca_last job) (ca_cursor job) (ca_fingerprints job))) en w1 = (Inr (), w')"
    by (rule runs_seqE)
  show ?thesis
  proof (cases go_on)
    case False
    with rest membership_checked_runs [OF _ assms(2)] check show ?thesis by (auto simp: runs_pure)
  next
    case True
    let ?w2 = "w1\<lparr>w_memo := []\<rparr>"
    have "extends w w1" by (rule obeysD [OF history.obeys_membership check])
    then have rem: "remembered st (ca_installation job) name w ?w2" by (simp add: remembered_def)
    have "authority_pages n st job name (ca_page job) (ca_last job) (ca_cursor job) (ca_fingerprints job) en ?w2 = (Inr (), w')"
      using rest True by (simp add: seq_def forget_policies_def)
    from authority_pages_runs [OF this rem assms(2)] show ?thesis by blast
  qed
qed

lemma obeys_installation_pages: "obeys extends (installation_pages n st job p e)"
proof (induction n arbitrary: p e)
  case 0
  then show ?case by (subst installation_pages.simps) (auto intro!: obeys_intros)
next
  case (Suc n)
  then show ?case
    by (subst installation_pages.simps)
      (auto simp: restarting_def listed_repositories_def child_fences_def intro!: obeys_intros split: svc_exc.split)
qed

lemma discover_authority_extends: "obeys extends (discover_authority n st job)"
proof -
  have "obeys extends forget_policies" by (simp add: obeys_def forget_policies_def)
  moreover have "obeys extends (authority_pages n st job name p l c h)" for name p l c h
    by (rule obeys_mono [OF authority_pages_grow grows_extends])
  ultimately show ?thesis
    unfolding discover_authority_def by (auto intro!: obeys_intros obeys_installation_pages)
qed

lemma authority_failed_outcome:
  assumes "authority_failed st job worker x en w = (Inr outcome, w')"
  shows "outcome \<noteq> ''completed''"
  using assms by (cases x) (auto simp: authority_failed_def Let_def message_of_def runs_seq runs_pure split: if_splits)

lemma listed_to_end_mono:
  "listed_to_end en st job name p n h \<Longrightarrow> (\<And>x. p x \<Longrightarrow> q x) \<Longrightarrow> listed_to_end en st job name q n h"
  by (induction rule: listed_to_end.induct)
    (blast intro: listed_to_end.intros shown_absent_mono dealt_with_mono)+

lemma process_authority_completed:
  assumes "process_authority n st job worker en w = (Inr ''completed'', w')"
  shows "\<exists>w1 w2. ask_direct_waiter job en w = w1 \<and> discover_authority n st job en (snd w1) = (Inr (), w2) \<and>
    do_complete_authority job worker en w2 = (Inr True, w')"
proof -
  obtain r w2 where r: "execute_authority n st job en w = (r, w2)" by (cases "execute_authority n st job en w")
  from runs_joining [OF assms [unfolded process_authority_def]]
  have "(case r of Inl x \<Rightarrow> authority_failed st job worker x
     | Inr _ \<Rightarrow> seq (do_complete_authority job worker) (\<lambda>completed. ret (updated_or ''completed'' completed))) en w2 =
       (Inr ''completed'', w')"
    unfolding runs_seq [of "attempt (execute_authority n st job)"] runs_attempt r by auto
  moreover from this have "r = Inr ()" by (cases r) (auto dest: authority_failed_outcome)
  ultimately have done_: "do_complete_authority job worker en w2 = (Inr True, w')"
    by (auto simp: runs_seq runs_pure updated_or_def split: if_splits)
  from r \<open>r = Inr ()\<close> have "discover_authority n st job en (snd (ask_direct_waiter job en w)) = (Inr (), w2)"
    unfolding execute_authority_def by (auto simp: runs_seq)
  with done_ show ?thesis by blast
qed

end
