(* ===== verification/Fan_Out_Properties.thy ===== *)
theory Fan_Out_Properties
  imports Fan_Out_Coverage Service_Sample
begin

text \<open>
  The properties of an authority fan-out, with a complete sample run: a fence whose only open
  pull request is shown not to be enrolled. The last section shows the one way an attempt at an
  installation-wide fence can report \<open>completed\<close> with pages left to list.
\<close>

section \<open>A sample run\<close>

definition sample_fence :: "string option \<Rightarrow> db \<times> claimed_authority option" where
  "sample_fence repo = claim_authority 110 ''w'' 600 True (enqueue_authority 100
     \<lparr>aq_installation = 1, aq_repo = repo, aq_base = None, aq_reason = ''push''\<rparr> empty_db)"

definition sample_world :: "db \<Rightarrow> world" where
  "sample_world d = \<lparr>w_db = d, w_trace = [], w_budgets = [], w_memo = [], w_queued = 0\<rparr>"

definition unenrolled_env :: env where
  "unenrolled_env = sample_env\<lparr>e_bool := \<lambda>_ c. case c of HasReconciliationCheck _ _ _ _ \<Rightarrow> Inr False | _ \<Rightarrow> Inr True,
     e_opt_text := \<lambda>_ _. Inr None, e_page := \<lambda>_ _. Inr ([sample_pull], 7, 0)\<rparr>"

section \<open>Repositories\<close>

text \<open>C4. No pull request is missed by an authority fan-out. When the attempt at a repository's
  fence reports \<open>completed\<close>, the fence was still held when it was acknowledged, and either GitHub
  showed that the repository left the installation (a complete listing of the installation does
  not name it and a fresh lookup denies it), or that it was just added and is archived, or the
  pull requests were listed without a gap from the checkpoint to the last page and each one in
  the scope of the change was queued for its listed head, or had been handled unchanged before,
  or was shown to have neither a check of the application nor a policy on its base branch.\<close>

theorem fan_out_misses_no_pull_request:
  assumes "process_authority n st job worker en w = (Inr ''completed'', w')" and "ca_repo job = Some name"
  shows "(shown_absent job name (happened w w') \<or> archived_addition job name (happened w w') \<or>
      listed_to_end en st job name (happened w w') (ca_page job) (ca_fingerprints job)) \<and>
    (\<exists>now d. happened w w' (StoreEvent (CompleteAuthority job worker) now d None) \<and>
      list_ex (holds_authority job worker) (authorities d))"
proof -
  from process_authority_completed [OF assms(1)] obtain w1 w2 where
    w1: "snd (ask_direct_waiter job en w) = w1" and run: "discover_authority n st job en w1 = (Inr (), w2)"
    and ack: "do_complete_authority job worker en w2 = (Inr True, w')" by auto
  have e1: "extends w w1" using history.obeys_calls(8) [of job] unfolding w1 [symmetric] obeys_def by blast
  have e2: "extends w2 w'"
    using happened_extends [OF store_run_happened [OF ack [unfolded do_complete_authority_def]]] .
  note up = happened_later [OF e1 happened_earlier [OF _ e2]]
  have "shown_absent job name (happened w w') \<or> archived_addition job name (happened w w') \<or>
      listed_to_end en st job name (happened w w') (ca_page job) (ca_fingerprints job)"
    using discover_authority_runs [OF run assms(2)]
    by (auto simp: archived_addition_def intro: up shown_absent_mono listed_to_end_mono)
  moreover obtain d' where "always (\<lambda>now. complete_authority now job worker) (e_clock en (w_trace w2))
      (e_interfere en (w_trace w2) (w_db w2)) = Inr (d', True)"
    using ack unfolding do_complete_authority_def by (rule store_run_ran)
  then have "list_ex (holds_authority job worker) (authorities (e_interfere en (w_trace w2) (w_db w2)))"
    by (auto simp: always_def complete_authority_def list_ex_iff dest: find_SomeD split: option.splits)
  moreover have "extends w w2" by (rule extends_trans [OF e1 obeysD [OF discover_authority_extends run]])
  note happened_later [OF this store_run_happened [OF ack [unfolded do_complete_authority_def]]]
  ultimately show ?thesis by blast
qed

theorem fan_out_misses_no_pull_request_witness:
  "\<exists>w'. process_authority 2 sample_settings (the (snd (sample_fence (Some ''o/r'')))) ''w'' unenrolled_env
       (sample_world (fst (sample_fence (Some ''o/r'')))) = (Inr ''completed'', w') \<and>
     (\<exists>now d. happened (sample_world (fst (sample_fence (Some ''o/r'')))) w'
       (StoreEvent (CompleteAuthority (the (snd (sample_fence (Some ''o/r'')))) ''w'') now d None))"
proof -
  let ?job = "the (snd (sample_fence (Some ''o/r'')))" and ?w = "sample_world (fst (sample_fence (Some ''o/r'')))"
  obtain r w' where run: "process_authority 2 sample_settings ?job ''w'' unenrolled_env ?w = (r, w')"
    by (cases "process_authority 2 sample_settings ?job ''w'' unenrolled_env ?w")
  have "fst (process_authority 2 sample_settings ?job ''w'' unenrolled_env ?w) = Inr ''completed''" by code_simp
  with run have r: "process_authority 2 sample_settings ?job ''w'' unenrolled_env ?w = (Inr ''completed'', w')" by simp
  have "ca_repo ?job = Some ''o/r''" by code_simp
  from fan_out_misses_no_pull_request [OF r this] r show ?thesis by blast
qed

section \<open>Installations\<close>

definition calm :: "env \<Rightarrow> bool" where
  "calm en \<longleftrightarrow> e_fault en = (\<lambda>_. None) \<and> e_interfere en = (\<lambda>_ d. d) \<and> e_join en = (\<lambda>_. None)"

lemma calm_store:
  assumes "calm en" and "f (e_clock en (w_trace w)) (w_db w) = Inr (d, a)"
  shows "store_run c f en w = (Inr a, w\<lparr>w_db := d, w_trace := StoreEvent c (e_clock en (w_trace w)) (w_db w) None # w_trace w\<rparr>)"
  using assms by (simp add: calm_def store_run_def)

text \<open>An expired lease drops an installation-wide fence. When the lease of such a fence has run
  out (nobody reclaimed it, so it still belongs to the worker), the attempt lists one page,
  the page is not recorded, and the attempt nevertheless reports \<open>completed\<close> and removes the
  fence: no repository gets a fence of its own and no later page is ever requested.\<close>

theorem expired_installation_fence_is_dropped:
  assumes "calm en" and "ca_repo job = None" and "ca_page job \<noteq> 0" and "ca_owner job = worker"
    and "\<forall>h. e_page en h (ListRepositoryPage (ca_installation job) (ca_page job) (ca_expected job)) = Inr (items, n, upcoming)"
    and "reconciliation_repositories (JList (map JObj items)) = Inr rs"
    and "\<forall>v. child_fences st job rs en v = (Inr children, v)"
    and "\<forall>q \<in> set children. aq_installation q = ca_installation job \<and> aq_repo q \<noteq> None"
    and "list_ex (holds_authority job worker) (authorities (w_db w))"
    and "\<forall>a \<in> set (authorities (w_db w)). \<not> a_pending_full a \<and> a_pending_refs a = []"
    and "\<forall>h. \<forall>a \<in> set (authorities (w_db w)). \<not> current_authority (e_clock en h) job a"
  shows "\<exists>w'. process_authority (Suc k) st job worker en w = (Inr ''completed'', w') \<and>
    \<not> list_ex (holds_authority job worker) (authorities (w_db w')) \<and>
    set (authorities (w_db w')) \<subseteq> set (authorities (w_db w)) \<and>
    (\<forall>p e r. happened w w' (GitEvent (ListRepositoryPage (ca_installation job) p e) r) \<longrightarrow> p = ca_page job)"
proof -
  let ?call = "ListRepositoryPage (ca_installation job) (ca_page job) (ca_expected job)"
  let ?w1 = "w\<lparr>w_trace := StoreEvent (DirectWaiter job) (e_clock en (w_trace w)) (w_db w) None # w_trace w\<rparr>"
  have direct: "ask_direct_waiter job en w = (Inr (authority_has_direct_waiter (w_db w) job), ?w1)"
    unfolding ask_direct_waiter_def store_read_def by (subst calm_store [OF assms(1)]) (simp_all, cases w, simp)
  let ?w2 = "log_event (GitEvent ?call (Inr (APage items n upcoming))) ?w1"
  have page: "restarting (ask_page ?call) r en ?w1 = (Inr (items, n, upcoming), ?w2)" for r
    using assms(5) unfolding runs_restarting ask_page_def runs_answered by simp
  have none: "\<not> list_ex (current_authority (e_clock en h) job) (authorities (w_db w))" for h
    using assms(11) by (simp add: list_ex_iff)
  let ?advance = "InstallationPage job children upcoming (Some n)"
  let ?w3 = "?w2\<lparr>w_trace := StoreEvent ?advance (e_clock en (w_trace ?w2)) (w_db w) None # w_trace ?w2\<rparr>"
  have advance: "do_installation_page job children upcoming (Some n) en ?w2 = (Inr False, ?w3)"
    unfolding do_installation_page_def
    by (subst calm_store [OF assms(1), where d = "w_db w"])
      (use assms(2,8) none in \<open>auto simp: advance_installation_authority_page_def list_ex_iff log_event_def\<close>)
  have found: "listed_repositories items en ?w2 = (Inr rs, ?w2)"
    by (simp add: listed_repositories_def runs_payload assms(6))
  have "installation_pages (Suc k) st job (ca_page job) (ca_expected job) en ?w1 = (Inr (), ?w3)"
    using assms(3,7) page found advance
    by (subst installation_pages.simps) (auto simp: runs_seq runs_pure)
  then have listing: "execute_authority (Suc k) st job en w = (Inr (), ?w3)"
    using direct assms(2) by (simp add: execute_authority_def discover_authority_def runs_seq)
  obtain a where a: "find (holds_authority job worker) (authorities (w_db w)) = Some a"
    using assms(9) by (cases "find (holds_authority job worker) (authorities (w_db w))") (auto simp: find_None_iff list_ex_iff)
  then have "a \<in> set (authorities (w_db w))" "holds_authority job worker a" by (auto dest: find_SomeD)
  with assms(10) have "\<not> a_pending_full a \<and> a_pending_refs a = []" by blast
  let ?kept = "fst (sql_delete (\<lambda>x. a_id x = a_id a) (authorities (w_db w)))"
  let ?w4 = "?w3\<lparr>w_db := (w_db w)\<lparr>authorities := ?kept\<rparr>, w_trace := StoreEvent (CompleteAuthority job worker)
      (e_clock en (w_trace ?w3)) (w_db w) None # w_trace ?w3\<rparr>"
  have ack: "do_complete_authority job worker en ?w3 = (Inr True, ?w4)"
    unfolding do_complete_authority_def always_def
    by (subst calm_store [OF assms(1), where d = "(w_db w)\<lparr>authorities := ?kept\<rparr>"])
      (use a \<open>\<not> a_pending_full a \<and> a_pending_refs a = []\<close> in \<open>simp_all add: complete_authority_def log_event_def\<close>)
  have "process_authority (Suc k) st job worker en w = (Inr ''completed'', ?w4)"
    using assms(1) ack listing
    by (simp add: process_authority_def joining_def calm_def seq_def attempt_def ret_def updated_or_def)
  moreover have "\<not> list_ex (holds_authority job worker) ?kept"
    using \<open>holds_authority job worker a\<close> by (auto simp: sql_delete_def list_ex_iff holds_authority_def)
  moreover have "set ?kept \<subseteq> set (authorities (w_db w))" by (auto simp: sql_delete_def)
  moreover have "\<forall>p e r. happened w ?w4 (GitEvent (ListRepositoryPage (ca_installation job) p e) r) \<longrightarrow> p = ca_page job"
    by (auto simp: happened_def log_event_def append_eq_Cons_conv Cons_eq_append_conv)
  ultimately show ?thesis by (intro exI [of _ ?w4]) simp
qed

definition late_env :: env where
  "late_env = sample_env\<lparr>e_clock := \<lambda>_. 700000000,
     e_page := \<lambda>_ _. Inr ([[(''full_name'', JStr ''o/r''), (''archived'', JBool False)]], 101, 2)\<rparr>"

theorem expired_installation_fence_is_dropped_witness:
  "\<exists>w'. process_authority 5 sample_settings (the (snd (sample_fence None))) ''w'' late_env
       (sample_world (fst (sample_fence None))) = (Inr ''completed'', w') \<and>
     \<not> list_ex (holds_authority (the (snd (sample_fence None))) ''w'') (authorities (w_db w'))"
proof -
  let ?job = "the (snd (sample_fence None))" and ?w = "sample_world (fst (sample_fence None))"
  let ?child = "\<lparr>aq_installation = 1, aq_repo = Some ''o/r'', aq_base = None, aq_reason = ''push''\<rparr>"
  let ?items = "[[(''full_name'', JStr ''o/r''), (''archived'', JBool False)]]"
  have job: "ca_repo ?job = None" "ca_page ?job = 1" "ca_installation ?job = 1" "ca_owner ?job = ''w''" by code_simp+
  have row: "list_ex (holds_authority ?job ''w'') (authorities (fst (sample_fence None)))"
    "list_all (\<lambda>a. \<not> a_pending_full a \<and> a_pending_refs a = [] \<and> \<not> current_authority 700000000 ?job a)
       (authorities (fst (sample_fence None)))" by code_simp+
  have calm: "calm late_env" by (simp add: calm_def late_env_def sample_env_def)
  have rs: "reconciliation_repositories (JList (map JObj ?items)) = Inr [(''o/r'', False)]" by code_simp
  have "filter (\<lambda>p. \<not> snd p \<and> \<not> is_organization_config_repository sample_settings (fst p)) [(''o/r'', False)] = [(''o/r'', False)]"
    "make_authority_request (ca_installation ?job) (Some ''o/r'') None (ca_reason ?job) = Inr ?child" by code_simp+
  then have children: "\<forall>v. child_fences sample_settings ?job [(''o/r'', False)] late_env v = (Inr [?child], v)"
    by (simp add: child_fences_def seq_def of_queue_def of_result_def ret_def)
  have five: "Suc 4 = 5" by simp
  from expired_installation_fence_is_dropped [where n = 101 and upcoming = 2 and k = 4, OF calm job(1) _ job(4) _ rs children,
    of ?w, unfolded five] job row show ?thesis
    by (auto simp: late_env_def sample_world_def list_all_iff)
qed

end
