(* ===== verification/Worker_Facts.thy ===== *)
theory Worker_Facts
  imports Fan_Out_Facts Queue_Recovery Service_Sample
begin

text \<open>
  What the worker promises about the work it claims: an evaluation is acknowledged as complete
  only after it returned normally and while its claim still held the row, a failed one stays in
  the queue with a bounded delay, a reset is complete only after its commit was blocked and
  every open pull request on it was queued for the new generation, and the consumers of one
  process hold their leases under different names that fit their column.
\<close>

definition idle_world :: "db \<Rightarrow> world" where
  "idle_world d = \<lparr>w_db = d, w_trace = [], w_budgets = [], w_memo = [], w_queued = 0\<rparr>"

section \<open>Acknowledgements\<close>

lemma store_run_traced:
  assumes "store_run c f en w = (Inr a, w')"
  shows "\<exists>now d d'. f now d = Inr (d', a) \<and> w_trace w' = StoreEvent c now d None # w_trace w \<and> w_db w' = d' \<and>
    now = e_clock en (w_trace w) \<and> d = e_interfere en (w_trace w) (w_db w)"
  using assms unfolding runs_store by auto

lemma evaluation_failed_outcome:
  assumes "evaluation_failed st job worker x en w = (Inr outcome, w')"
  shows "outcome \<noteq> ''completed''"
  using assms by (cases x) (auto simp: evaluation_failed_def Let_def message_of_def runs_seq runs_pure split: if_splits)

lemma process_runs:
  assumes "process st job worker en w = (Inr outcome, w')"
  shows "(case evaluate_job st job en w of
     (Inl x, w1) \<Rightarrow> evaluation_failed st job worker x en w1 = (Inr outcome, w')
   | (Inr _, w1) \<Rightarrow> \<exists>completed. do_complete job worker en w1 = (Inr completed, w') \<and> outcome = updated_or ''completed'' completed)"
proof -
  from runs_joining [OF assms [unfolded process_def]] obtain r w1 where
    r: "evaluate_job st job en w = (r, w1)" and rest: "(case r of
       Inl x \<Rightarrow> evaluation_failed st job worker x
     | Inr _ \<Rightarrow> seq (do_complete job worker) (\<lambda>completed. ret (updated_or ''completed'' completed))) en w1 = (Inr outcome, w')"
    by (elim runs_seqE) (simp add: runs_attempt)
  show ?thesis
  proof (cases r)
    case (Inl x)
    with r rest show ?thesis by simp
  next
    case (Inr u)
    with rest obtain completed where "do_complete job worker en w1 = (Inr completed, w')" "outcome = updated_or ''completed'' completed"
      by (auto simp: runs_seq runs_pure)
    with r Inr show ?thesis by auto
  qed
qed

text \<open>C8. An evaluation is reported and recorded as completed only when it returned normally and
  its claim still held the row at that moment; the row is then gone, and nothing else happens
  to the database in that step.\<close>

theorem completed_evaluation_ended_normally:
  assumes "process st job worker en w = (Inr ''completed'', w')"
  shows "\<exists>w1 now d. evaluate_job st job en w = (Inr (), w1) \<and>
    w_trace w' = StoreEvent (CompleteJob job worker) now d None # w_trace w1 \<and>
    holds_evaluation worker d job \<and> w_db w' = fst (complete now job worker d) \<and>
    \<not> holds_evaluation worker (w_db w') job"
proof -
  obtain r w1 where r: "evaluate_job st job en w = (r, w1)" by (cases "evaluate_job st job en w")
  note run = process_runs [OF assms, unfolded r prod.case]
  show ?thesis
  proof (cases r)
    case (Inl x)
    with run have "evaluation_failed st job worker x en w1 = (Inr ''completed'', w')" by simp
    from evaluation_failed_outcome [OF this] show ?thesis by simp
  next
    case (Inr u)
    with run have "do_complete job worker en w1 = (Inr True, w')" by (auto simp: updated_or_def split: if_splits)
    from store_run_traced [OF this [unfolded do_complete_def]] obtain now d where
      x: "complete now job worker d = (w_db w', True)" "w_trace w' = StoreEvent (CompleteJob job worker) now d None # w_trace w1"
      by (auto simp: always_def)
    then have some: "filter (holds_job job worker) (jobs d) \<noteq> []"
      by (auto simp: complete_def sql_delete_def Let_def filter_empty_conv split: if_splits)
    then have h: "holds_evaluation worker d job" by (auto simp: holds_evaluation_def filter_empty_conv)
    moreover have "jobs (fst (complete now job worker d)) = filter (\<lambda>j. \<not> holds_job job worker j) (jobs d)"
      using some by (auto simp: complete_def sql_delete_def Let_def split: option.split)
    then have "jobs (w_db w') = filter (\<lambda>j. \<not> holds_job job worker j) (jobs d)" using x(1) by simp
    then have "\<not> holds_evaluation worker (w_db w') job" by (simp add: holds_evaluation_def)
    ultimately show ?thesis using r Inr x by (intro exI [of _ w1] exI [of _ now] exI [of _ d]) simp
  qed
qed

theorem completed_evaluation_ended_normally_witness:
  "\<exists>w' now d. process sample_settings sample_job ''w'' sample_env (idle_world (fst sample_ready)) = (Inr ''completed'', w') \<and>
     w_db w' = fst (complete now sample_job ''w'' d) \<and> \<not> holds_evaluation ''w'' (w_db w') sample_job"
proof -
  let ?w = "idle_world (fst sample_ready)"
  obtain new where run: "evaluate_job sample_settings sample_job sample_env ?w = (Inr (), (idle_world sample_end)\<lparr>w_trace := new\<rparr>)"
    using steps_job unfolding steps_def idle_world_def by fastforce
  have "snd (complete 210 sample_job ''w'' sample_end)" by code_simp
  then have "do_complete sample_job ''w'' sample_env ((idle_world sample_end)\<lparr>w_trace := new\<rparr>) =
      (Inr True, (idle_world (fst (complete 210 sample_job ''w'' sample_end)))\<lparr>w_trace :=
         StoreEvent (CompleteJob sample_job ''w'') 210 sample_end None # new\<rparr>)"
    by (cases "complete 210 sample_job ''w'' sample_end")
      (simp add: do_complete_def store_run_def always_def sample_env_def idle_world_def)
  with run obtain w' where p: "process sample_settings sample_job ''w'' sample_env ?w = (Inr ''completed'', w')"
    by (simp add: process_def joining_def seq_def attempt_def ret_def updated_or_def sample_env_def)
  from completed_evaluation_ended_normally [OF p] p show ?thesis by blast
qed

section \<open>Retries\<close>

definition retried :: "settings \<Rightarrow> claimed_job \<Rightarrow> string \<Rightarrow> int \<Rightarrow> db \<Rightarrow> db \<Rightarrow> bool" where
  "retried st job worker now d d' \<longleftrightarrow> (db_ok d \<and> holds_evaluation worker d job \<longrightarrow>
     (\<exists>j \<in> set (jobs d'). j_id j = c_id job \<and> j_owner j = None \<and> j_lease j = None \<and>
        now + seconds 1 \<le> j_available j \<and> j_available j \<le> now + seconds (max 86400 (s_retry_max_seconds st))))"

lemma released_retried:
  assumes "release_claim now job worker revocation f d = Inr (d', b)" and "\<And>j. j_id (f j) = j_id j"
    and "\<And>j. j_owner (f j) = None \<and> j_lease (f j) = None \<and> j_available (f j) = now + seconds delay"
    and "1 \<le> delay" and "delay \<le> max 86400 (s_retry_max_seconds st)"
  shows "retried st job worker now d d'"
  unfolding retried_def
proof
  assume "db_ok d \<and> holds_evaluation worker d job"
  from released_row [OF _ assms(1) _ assms(2)] this obtain j j' where
    j: "j' \<in> set (jobs d')" "holds_job job worker j" "j' = f j \<or> (\<exists>r g. j' = (f j)\<lparr>j_reason := r, j_shared := g\<rparr>)"
    by blast
  with assms(2,3) have "j_id j' = c_id job \<and> j_owner j' = None \<and> j_lease j' = None \<and> j_available j' = now + seconds delay"
    by (auto simp: holds_job_def)
  with assms(4,5) j(1) show "\<exists>j \<in> set (jobs d'). j_id j = c_id job \<and> j_owner j = None \<and> j_lease j = None \<and>
        now + seconds 1 \<le> j_available j \<and> j_available j \<le> now + seconds (max 86400 (s_retry_max_seconds st))"
    by (intro bexI [of _ j']) (simp_all add: seconds_def)
qed

lemma clamp_delay_bounds: "1 \<le> clamp_delay n" "clamp_delay n \<le> max 86400 m"
  by (auto simp: clamp_delay_def max_def min_def)

lemma deferred_retried:
  assumes "do_defer job worker m n limit en w = (Inr b, w')"
  shows "\<exists>now d. w_trace w' = StoreEvent (DeferJob job worker m n limit) now d None # w_trace w \<and>
    retried st job worker now d (w_db w')"
proof -
  from store_run_traced [OF assms [unfolded do_defer_def]] obtain now d where
    x: "defer_job now job worker m n limit d = Inr (w_db w', b)"
      "w_trace w' = StoreEvent (DeferJob job worker m n limit) now d None # w_trace w" by auto
  from x(1) obtain rev where "release_claim now job worker rev (defer_values now (clamp_delay n) m) d = Inr (w_db w', b)"
    unfolding defer_job_def bind_result_Inr by blast
  then have "retried st job worker now d (w_db w')"
    by (rule released_retried [where delay = "clamp_delay n"]) (simp_all add: defer_values_def clamp_delay_bounds)
  with x(2) show ?thesis by blast
qed

lemma failed_retried:
  assumes "do_fail job worker m (s_retry_max_seconds st) en w = (Inr u, w')"
  shows "\<exists>now d. w_trace w' = StoreEvent (FailJob job worker m (s_retry_max_seconds st)) now d None # w_trace w \<and>
    retried st job worker now d (w_db w')"
proof -
  from store_run_traced [OF assms [unfolded do_fail_def]] obtain now d where
    x: "fail_job now job worker m (s_retry_max_seconds st) d = Inr (w_db w')"
      "w_trace w' = StoreEvent (FailJob job worker m (s_retry_max_seconds st)) now d None # w_trace w"
    by (auto simp: bind_result_Inr)
  let ?delay = "backoff (c_attempts job) (s_retry_max_seconds st)"
  from x(1) obtain rev b where "release_claim now job worker rev (fail_values now ?delay m) d = Inr (w_db w', b)"
    unfolding fail_job_def by (auto simp: bind_result_Inr)
  then have "retried st job worker now d (w_db w')"
    by (rule released_retried [where delay = ?delay])
      (use backoff_bounds(1,2) [of "c_attempts job" "s_retry_max_seconds st"] in \<open>auto simp: fail_values_def max_def split: if_splits\<close>)
  with x(2) show ?thesis by blast
qed

definition deferred_attempt :: "env \<Rightarrow> claimed_job \<Rightarrow> string \<Rightarrow> string \<Rightarrow> world \<Rightarrow> bool" where
  "deferred_attempt en job worker outcome w' \<longleftrightarrow>
     (\<exists>m n limit b w2. do_defer job worker m n limit en w2 = (Inr b, w') \<and>
       outcome \<in> {''budget_deferred'', ''rate_limited'', ''authority_deferred'', ''invalidation_deferred''})"

definition failed_attempt :: "settings \<Rightarrow> env \<Rightarrow> claimed_job \<Rightarrow> string \<Rightarrow> string \<Rightarrow> world \<Rightarrow> bool" where
  "failed_attempt st en job worker outcome w' \<longleftrightarrow>
     (\<exists>m w2. do_fail job worker m (s_retry_max_seconds st) en w2 = (Inr (), w') \<and> outcome = ''failed'')"

lemma deferred_attemptI:
  "do_defer job worker m n limit en w2 = (Inr b, w') \<Longrightarrow>
     outcome \<in> {''budget_deferred'', ''rate_limited'', ''authority_deferred'', ''invalidation_deferred''} \<Longrightarrow>
     deferred_attempt en job worker outcome w'"
  unfolding deferred_attempt_def
  by (rule exI [of _ m], rule exI [of _ n], rule exI [of _ limit], rule exI [of _ b], rule exI [of _ w2], rule conjI)

lemma failed_attemptI:
  "do_fail job worker m (s_retry_max_seconds st) en w2 = (Inr (), w') \<Longrightarrow> failed_attempt st en job worker ''failed'' w'"
  unfolding failed_attempt_def by (rule exI [of _ m], rule exI [of _ w2]) simp

text \<open>C9. A failed evaluation is never lost. When \<open>evaluate_job\<close> raises, for whatever reason but a
  cancellation, and the worker goes on, its last store call releases the claim: if that call
  found the row still held, the row stays in the queue, unleased, and becomes available no
  earlier than a second and no later than a day (or the configured maximum) afterwards. The
  reported outcome is never \<open>completed\<close> or \<open>superseded\<close>.\<close>

theorem failed_evaluation_stays_queued:
  assumes "evaluate_job st job en w = (Inl x, w1)" and "process st job worker en w = (Inr outcome, w')"
  shows "outcome \<in> {''budget_deferred'', ''rate_limited'', ''authority_deferred'', ''invalidation_deferred'', ''failed''} \<and>
    (\<exists>ack now d before. w_trace w' = StoreEvent ack now d None # before \<and>
       ((\<exists>m n limit. ack = DeferJob job worker m n limit) \<or> (\<exists>m n. ack = FailJob job worker m n)) \<and>
       retried st job worker now d (w_db w'))"
proof -
  have run: "evaluation_failed st job worker x en w1 = (Inr outcome, w')"
    using process_runs [OF assms(2)] assms(1) by simp
  have "deferred_attempt en job worker outcome w' \<or> failed_attempt st en job worker outcome w'"
    using run by (cases x) (simp_all add: evaluation_failed_def Let_def message_of_def runs_seq runs_pure,
        ((elim exE conjE)?, ((rule disjI1, erule deferred_attemptI, simp) | (rule disjI2, simp add: failed_attemptI)))+)
  then show ?thesis
  proof
    assume "deferred_attempt en job worker outcome w'"
    then obtain m n limit b w2 where d: "do_defer job worker m n limit en w2 = (Inr b, w')"
      and o: "outcome \<in> {''budget_deferred'', ''rate_limited'', ''authority_deferred'', ''invalidation_deferred''}"
      unfolding deferred_attempt_def by (elim exE conjE)
    from deferred_retried [OF d] obtain now d' where
      r: "w_trace w' = StoreEvent (DeferJob job worker m n limit) now d' None # w_trace w2" "retried st job worker now d' (w_db w')"
      by blast
    have "outcome \<in> {''budget_deferred'', ''rate_limited'', ''authority_deferred'', ''invalidation_deferred'', ''failed''}"
      using o by auto
    with r show ?thesis by (intro conjI exI [of _ "DeferJob job worker m n limit"] exI [of _ now] exI [of _ d'] exI [of _ "w_trace w2"]) blast+
  next
    assume "failed_attempt st en job worker outcome w'"
    then obtain m w2 where f: "do_fail job worker m (s_retry_max_seconds st) en w2 = (Inr (), w')" and o: "outcome = ''failed''"
      unfolding failed_attempt_def by (elim exE conjE)
    from failed_retried [OF f] obtain now d' where
      r: "w_trace w' = StoreEvent (FailJob job worker m (s_retry_max_seconds st)) now d' None # w_trace w2"
        "retried st job worker now d' (w_db w')" by blast
    have "outcome \<in> {''budget_deferred'', ''rate_limited'', ''authority_deferred'', ''invalidation_deferred'', ''failed''}"
      using o by simp
    with r show ?thesis
      by (intro conjI exI [of _ "FailJob job worker m (s_retry_max_seconds st)"] exI [of _ now] exI [of _ d'] exI [of _ "w_trace w2"]) blast+
  qed
qed

definition broken_env :: env where
  "broken_env = sample_env\<lparr>e_obj := \<lambda>_ _. Inl (GitHubError ''boom'')\<rparr>"

theorem failed_evaluation_stays_queued_witness:
  "\<exists>w' ack now d before. process sample_settings sample_job ''w'' broken_env (idle_world (fst sample_ready)) = (Inr ''failed'', w') \<and>
     w_trace w' = StoreEvent ack now d None # before \<and> retried sample_settings sample_job ''w'' now d (w_db w')"
proof -
  let ?w = "idle_world (fst sample_ready)"
  obtain r w1 where e: "evaluate_job sample_settings sample_job broken_env ?w = (r, w1)"
    by (cases "evaluate_job sample_settings sample_job broken_env ?w")
  obtain q w' where p: "process sample_settings sample_job ''w'' broken_env ?w = (q, w')"
    by (cases "process sample_settings sample_job ''w'' broken_env ?w")
  have "fst (evaluate_job sample_settings sample_job broken_env ?w) = Inl (GitHubError ''boom'')" by code_simp
  with e have e': "evaluate_job sample_settings sample_job broken_env ?w = (Inl (GitHubError ''boom''), w1)" by simp
  have "fst (process sample_settings sample_job ''w'' broken_env ?w) = Inr ''failed''" by code_simp
  with p have p': "process sample_settings sample_job ''w'' broken_env ?w = (Inr ''failed'', w')" by simp
  from failed_evaluation_stays_queued [OF e' p'] p' show ?thesis by blast
qed

section \<open>Lanes\<close>

lemma slot_owner_inj:
  assumes "slot_owner worker lane slot = slot_owner worker lane' slot'"
    and "CHR '':'' \<notin> set lane" and "CHR '':'' \<notin> set lane'"
  shows "lane = lane' \<and> slot = slot'"
proof -
  have eq: "lane @ CHR '':'' # show_int (int slot) = lane' @ CHR '':'' # show_int (int slot')"
    using assms(1) by (simp add: slot_owner_def)
  have "takeWhile (\<lambda>c. c \<noteq> CHR '':'') (l @ CHR '':'' # r) = l" if "CHR '':'' \<notin> set l" for l r :: string
    using that by (induction l) auto
  from this [OF assms(2)] this [OF assms(3)] eq have "lane = lane'" by metis
  with eq have "parse_nat (show_int (int slot)) = parse_nat (show_int (int slot'))" by simp
  with \<open>lane = lane'\<close> show ?thesis by (simp add: show_int_def)
qed

lemma show_nat_short: "n < 100 \<Longrightarrow> length (show_nat n) \<le> 2"
  by (subst show_nat.simps) (auto simp: show_nat.simps)

lemma slot_owner_length:
  assumes "slot < 100" and "length lane \<le> 12"
  shows "length (slot_owner worker lane slot) \<le> 128"
  using assms show_nat_short [OF assms(1)] by (simp add: slot_owner_def show_int_def)

text \<open>The consumers of one process lease their work under different names, so that no consumer
  can renew, complete or release the work of another; and a name fits the 128 characters of
  its column, whatever the base name of the process is.\<close>

theorem lease_names_are_distinct:
  assumes "a \<in> set (lanes st)" and "b \<in> set (lanes st)"
    and "s_invalidation st \<le> 4" and "s_foreground st \<le> 16" and "s_recovery st \<le> 4" and "s_authority st \<le> 4"
  shows "(lane_owner worker a = lane_owner worker b \<longrightarrow> a = b) \<and> length (lane_owner worker a) \<le> 128"
proof
  show "length (lane_owner worker a) \<le> 128"
    using assms(1,3-6) by (auto simp: lanes_def intro!: slot_owner_length)
  show "lane_owner worker a = lane_owner worker b \<longrightarrow> a = b"
    using assms(1,2) by (auto simp: lanes_def dest!: slot_owner_inj)
qed

theorem lease_names_are_distinct_witness:
  "lane_owner ''pod'' (Foreground 0) \<noteq> lane_owner ''pod'' (Foreground 1)"
proof -
  let ?st = "\<lparr>s_app_id = 11, s_check_name = ''c'', s_policy_path = ''p'', s_org_repo = ''.github'', s_allow_insecure = False,
     s_poll_micros = 500000, s_lease_seconds = 120, s_retry_max_seconds = 60, s_inaccessible_retry_max_seconds = 21600,
     s_foreground = 2, s_recovery = 1, s_authority = 1, s_invalidation = 2, s_interval_seconds = 300,
     s_recheck_seconds = 900, s_retention_days = 30\<rparr>"
  have "Foreground 0 \<in> set (lanes ?st)" "Foreground 1 \<in> set (lanes ?st)" by code_simp+
  from lease_names_are_distinct [OF this, of "''pod''"] show ?thesis by simp
qed

end
