(* ===== verification/Reset_Facts.thy ===== *)
theory Reset_Facts
  imports Worker_Facts
begin

text \<open>
  What the reset of a commit promises: it is acknowledged only after the check of the commit was
  turned into a blocking one and every open pull request that GitHub associates with the
  commit was read again and queued for the generation of the reset.
\<close>

section \<open>The history of a reset\<close>

text \<open>\<open>unmanaged\<close>: GitHub listed the check runs of the commit and none is the application's.\<close>

definition unmanaged :: "settings \<Rightarrow> claimed_head \<Rightarrow> (event \<Rightarrow> bool) \<Rightarrow> bool" where
  "unmanaged st job seen \<longleftrightarrow> (\<exists>answer runs.
     seen (GitEvent (ListCheckRuns (ch_installation job) (ch_repo job) (ch_head job) (s_check_name st)) (Inr (AObj answer))) \<and>
     as_list (get_or (JList []) ''check_runs'' answer) = Some runs \<and> find (is_managed_run st) runs = None)"

definition blocked :: "claimed_head \<Rightarrow> (event \<Rightarrow> bool) \<Rightarrow> bool" where
  "blocked job seen \<longleftrightarrow> (\<exists>n payload answer.
     seen (GitEvent (PatchCheckRun (ch_installation job) (ch_repo job) n payload) (Inr (AObj answer))) \<and>
     get_key ''status'' payload = JStr ''completed'' \<and> get_key ''conclusion'' payload = JStr ''failure'')"

definition queued_again :: "claimed_head \<Rightarrow> (event \<Rightarrow> bool) \<Rightarrow> int \<Rightarrow> bool" where
  "queued_again job seen number \<longleftrightarrow> (\<exists>q now d. seen (StoreEvent (EnqueueForGeneration q (ch_generation job)) now d None) \<and>
     q_installation q = ch_installation job \<and> q_repo q = lower (ch_repo job) \<and> q_pull q = number \<and>
     q_head q = Some (ch_head job))"

definition fanned_out :: "claimed_head \<Rightarrow> (event \<Rightarrow> bool) \<Rightarrow> bool" where
  "fanned_out job seen \<longleftrightarrow> (\<exists>associated observed.
     seen (GitEvent (ListCommitPulls (ch_installation job) (ch_repo job) (ch_head job)) (Inr (AList associated))) \<and>
     observe_associated associated [] = Inr observed \<and>
     (\<forall>number \<in> fst ` set observed. \<exists>pull identity.
        seen (GitEvent (GetPull (ch_installation job) (ch_repo job) number) (Inr (AObj pull))) \<and>
        current_pull_identity (ch_repo job) number pull = Inr identity \<and>
        (open_on_head (ch_head job) (number, identity) \<longrightarrow> blocked job seen \<and> queued_again job seen number)))"

lemma obeys_require [obeys_intros]: "obeys extends (require_current_reset job)"
  unfolding require_current_reset_def ask_current_reset_def by (auto intro!: obeys_intros)

lemma obeys_associated [obeys_intros]:
  "obeys extends m \<Longrightarrow> obeys extends (current_associated_pulls m i repo head)"
  unfolding current_associated_pulls_def by (auto intro!: obeys_intros)

lemma obeys_reset_locked [obeys_intros]: "obeys extends (reset_locked st job)"
  unfolding reset_locked_def Let_def by (auto intro!: obeys_intros)

lemma obeys_fan_out_pull [obeys_intros]: "obeys extends (fan_out_pull job p)"
  unfolding fan_out_pull_def do_enqueue_for_generation_def by (auto intro!: obeys_intros)

section \<open>Reading the commit's pull requests\<close>

lemma associated_runs:
  assumes m: "obeys extends m" and run: "current_associated_pulls m i repo head en w = (Inr current, w')"
  shows "\<exists>associated observed.
    happened w w' (GitEvent (ListCommitPulls i repo head) (Inr (AList associated))) \<and>
    observe_associated associated [] = Inr observed \<and>
    (\<forall>number \<in> fst ` set observed. \<exists>pull identity. happened w w' (GitEvent (GetPull i repo number) (Inr (AObj pull))) \<and>
       current_pull_identity repo number pull = Inr identity \<and> (number, identity) \<in> set current)"
proof -
  let ?read = "\<lambda>number. seq m (\<lambda>_. seq (ask_obj (GetPull i repo number)) (\<lambda>pull.
         seq (of_result (current_pull_identity repo number pull)) (\<lambda>identity. ret (number, identity))))"
  from run obtain u w1 associated observed where m1: "m en w = (Inr u, w1)"
    and observed: "observe_associated associated [] = Inr observed"
    and reads: "collect (sort (map fst observed)) ?read en
      (log_event (GitEvent (ListCommitPulls i repo head) (Inr (AList associated))) w1) = (Inr current, w')"
    unfolding current_associated_pulls_def ask_list_def by (auto simp: runs_seq runs_pure runs_answered)
  let ?w2 = "log_event (GitEvent (ListCommitPulls i repo head) (Inr (AList associated))) w1"
  have e1: "extends w w1" by (rule obeysD [OF m m1])
  have ob: "obeys extends (?read n)" for n by (auto intro!: obeys_intros m)
  have e2: "extends ?w2 w'" by (rule obeysD [OF history.obeys_collect [OF ob] reads])
  note each = history.collect_all [OF ob reads]
  have "\<exists>pull identity. happened w w' (GitEvent (GetPull i repo number) (Inr (AObj pull))) \<and>
       current_pull_identity repo number pull = Inr identity \<and> (number, identity) \<in> set current"
    if "number \<in> fst ` set observed" for number
  proof -
    have "number \<in> set (sort (map fst observed))" using that by simp
    then obtain k where k: "k < length (sort (map fst observed))" "sort (map fst observed) ! k = number"
      by (metis in_set_conv_nth)
    with each obtain v1 v2 where v: "extends ?w2 v1" "?read number en v1 = (Inr (current ! k), v2)" "extends v2 w'"
      "k < length current" by auto
    from v(2) obtain u' v3 pull identity where p: "m en v1 = (Inr u', v3)" "current_pull_identity repo number pull = Inr identity"
      "current ! k = (number, identity)" "v2 = log_event (GitEvent (GetPull i repo number) (Inr (AObj pull))) v3"
      unfolding ask_obj_def by (auto simp: runs_seq runs_pure runs_answered)
    have "extends v1 v3" by (rule obeysD [OF m p(1)])
    with e1 v(1) have "extends w v3" by (meson extends_trans extends_log)
    then have "happened w w' (GitEvent (GetPull i repo number) (Inr (AObj pull)))"
      unfolding p(4) using v(3) p(4) by (metis happened_earlier happened_later happened_log)
    moreover have "(number, identity) \<in> set current" using v(4) p(3) by (metis nth_mem)
    ultimately show ?thesis using p(2) by blast
  qed
  moreover have "happened w w' (GitEvent (ListCommitPulls i repo head) (Inr (AList associated)))"
    by (rule happened_later [OF e1 happened_earlier [OF happened_log e2]])
  ultimately show ?thesis using observed by blast
qed

section \<open>The guarded section\<close>

lemma existing_check_none:
  assumes "existing_check_run_id st i repo head en w = (Inr None, w')"
  shows "\<exists>answer runs. happened w w' (GitEvent (ListCheckRuns i repo head (s_check_name st)) (Inr (AObj answer))) \<and>
    as_list (get_or (JList []) ''check_runs'' answer) = Some runs \<and> find (is_managed_run st) runs = None"
proof -
  from assms obtain answer where a: "latest_check_run st i repo head en w = (Inr None, w')"
    by (auto simp: existing_check_run_id_def runs_seq runs_pure)
  then obtain answer runs where x: "w' = log_event (GitEvent (ListCheckRuns i repo head (s_check_name st)) (Inr (AObj answer))) w"
    "as_list (get_or (JList []) ''check_runs'' answer) = Some runs"
    "(case find (is_managed_run st) runs of None \<Rightarrow> None | Some v \<Rightarrow> as_obj v) = None"
    unfolding latest_check_run_def ask_obj_def by (auto simp: runs_seq runs_pure runs_answered split: option.splits)
  have "find (is_managed_run st) runs = None"
  proof (cases "find (is_managed_run st) runs")
    case (Some v)
    then have "is_managed_run st v" by (auto dest: find_SomeD)
    with x(3) Some show ?thesis by (auto simp: is_managed_run_def)
  qed
  with x(2) show ?thesis unfolding x(1) using happened_log by blast
qed

lemma reset_check_blocks:
  assumes "reset_check_run st i repo n title smry details external en w = (Inr u, w')"
  shows "\<exists>payload answer. happened w w' (GitEvent (PatchCheckRun i repo n payload) (Inr (AObj answer))) \<and>
    get_key ''status'' payload = JStr ''completed'' \<and> get_key ''conclusion'' payload = JStr ''failure''"
proof -
  let ?payload = "reset_payload st (e_stamp en (w_trace w)) title smry details external"
  from assms obtain answer where a: "seq (same_check_id answer (Some n)) (\<lambda>_.
      validate_blocking_check_response answer ''completed'' (get_key ''external_id'' ?payload)) en
        (log_event (GitEvent (PatchCheckRun i repo n ?payload) (Inr (AObj answer))) w) = (Inr u, w')"
    unfolding reset_check_run_def Let_def ask_obj_def by (auto simp: runs_seq runs_pure runs_answered)
  have "obeys extends (seq (same_check_id answer (Some n)) (\<lambda>_.
      validate_blocking_check_response answer ''completed'' (get_key ''external_id'' ?payload)))"
    by (auto simp: same_check_id_def validate_blocking_check_response_def intro!: obeys_intros)
  then have "extends (log_event (GitEvent (PatchCheckRun i repo n ?payload) (Inr (AObj answer))) w) w'"
    using a by (rule obeysD)
  then have "happened w w' (GitEvent (PatchCheckRun i repo n ?payload) (Inr (AObj answer)))"
    by (rule happened_earlier [OF happened_log])
  moreover have "get_key ''status'' ?payload = JStr ''completed''" "get_key ''conclusion'' ?payload = JStr ''failure''"
    by (simp_all add: reset_payload_def)
  ultimately show ?thesis by blast
qed

lemma reset_locked_runs:
  assumes "reset_locked st job en w = (Inr r, w')"
  shows "case r of None \<Rightarrow> unmanaged st job (happened w w')
    | Some current \<Rightarrow> (\<exists>u v. extends w u \<and> extends v w' \<and>
        current_associated_pulls (require_current_reset job) (ch_installation job) (ch_repo job) (ch_head job) en u = (Inr current, v)) \<and>
      (list_ex (open_on_head (ch_head job)) current \<longrightarrow> blocked job (happened w w'))"
proof -
  let ?cur = "require_current_reset job"
  let ?rest = "\<lambda>n. seq (current_associated_pulls ?cur (ch_installation job) (ch_repo job) (ch_head job)) (\<lambda>current.
       seq ?cur (\<lambda>_.
       seq (when_svc (list_ex (open_on_head (ch_head job)) current)
         (reset_check_run st (ch_installation job) (ch_repo job) n RE_EVALUATING
            ''Accepted evidence for this commit is awaiting durable re-evaluation.'' None
            (Some (head_external (ch_repo job) (ch_head job))))) (\<lambda>_. ret (Some current))))"
  from assms obtain w1 cid w2 w3 where c1: "?cur en w = (Inr (), w1)"
    and cid: "existing_check_run_id st (ch_installation job) (ch_repo job) (ch_head job) en w1 = (Inr cid, w2)"
    and c2: "?cur en w2 = (Inr (), w3)"
    and rest: "(case cid of None \<Rightarrow> ret None | Some n \<Rightarrow> ?rest n) en w3 = (Inr r, w')"
    unfolding reset_locked_def Let_def by (elim runs_seqE) auto
  have e1: "extends w w1" by (rule obeysD [OF obeys_require c1])
  have e2: "extends w1 w2" by (rule obeysD [OF history.obeys_checks(1) cid])
  have e3: "extends w2 w3" by (rule obeysD [OF obeys_require c2])
  show ?thesis
  proof (cases cid)
    case None
    with rest have "r = None" "w' = w3" by (simp_all add: runs_pure)
    from existing_check_none [OF cid [unfolded None]] obtain answer runs where
      x: "happened w1 w2 (GitEvent (ListCheckRuns (ch_installation job) (ch_repo job) (ch_head job) (s_check_name st)) (Inr (AObj answer)))"
      "as_list (get_or (JList []) ''check_runs'' answer) = Some runs" "find (is_managed_run st) runs = None" by blast
    have "happened w w' (GitEvent (ListCheckRuns (ch_installation job) (ch_repo job) (ch_head job) (s_check_name st)) (Inr (AObj answer)))"
      unfolding \<open>w' = w3\<close> by (rule happened_earlier [OF happened_later [OF e1 x(1)] e3])
    with x(2,3) \<open>r = None\<close> show ?thesis by (auto simp: unmanaged_def)
  next
    case (Some n)
    with rest obtain current w4 w5 w6 where
      pulls: "current_associated_pulls ?cur (ch_installation job) (ch_repo job) (ch_head job) en w3 = (Inr current, w4)"
      and c3: "?cur en w4 = (Inr (), w5)"
      and check: "when_svc (list_ex (open_on_head (ch_head job)) current)
         (reset_check_run st (ch_installation job) (ch_repo job) n RE_EVALUATING
            ''Accepted evidence for this commit is awaiting durable re-evaluation.'' None
            (Some (head_external (ch_repo job) (ch_head job)))) en w5 = (Inr (), w6)" "r = Some current" "w' = w6"
      by (auto simp: runs_seq runs_pure)
    have e03: "extends w w3" by (rule extends_trans [OF e1 extends_trans [OF e2 e3]])
    have e4: "extends w3 w4" by (rule obeysD [OF obeys_associated [OF obeys_require] pulls])
    have e5: "extends w4 w5" by (rule obeysD [OF obeys_require c3])
    have "obeys extends (when_svc (list_ex (open_on_head (ch_head job)) current)
         (reset_check_run st (ch_installation job) (ch_repo job) n RE_EVALUATING
            ''Accepted evidence for this commit is awaiting durable re-evaluation.'' None
            (Some (head_external (ch_repo job) (ch_head job)))))"
      by (intro history.obeys_when history.obeys_checks(3))
    from obeysD [OF this] check(1) have e6: "extends w5 w'" unfolding check(3) by blast
    have "blocked job (happened w w')" if "list_ex (open_on_head (ch_head job)) current"
    proof -
      from check(1) that have "reset_check_run st (ch_installation job) (ch_repo job) n RE_EVALUATING
            ''Accepted evidence for this commit is awaiting durable re-evaluation.'' None
            (Some (head_external (ch_repo job) (ch_head job))) en w5 = (Inr (), w')"
        using check(3) by (simp add: when_svc_def)
      from reset_check_blocks [OF this] obtain payload answer where
        "happened w5 w' (GitEvent (PatchCheckRun (ch_installation job) (ch_repo job) n payload) (Inr (AObj answer)))"
        "get_key ''status'' payload = JStr ''completed''" "get_key ''conclusion'' payload = JStr ''failure''" by blast
      moreover have "extends w w5" by (rule extends_trans [OF e03 extends_trans [OF e4 e5]])
      ultimately show ?thesis unfolding blocked_def by (blast intro: happened_later)
    qed
    moreover have "extends w4 w'" by (rule extends_trans [OF e5 e6])
    ultimately show ?thesis using check(2) e03 pulls by auto
  qed
qed

lemma fan_out_pull_runs:
  assumes "fan_out_pull job p en w = (Inr (), w')" and "open_on_head (ch_head job) p"
  shows "queued_again job (happened w w') (fst p)"
proof -
  from assms obtain w1 q where c: "require_current_reset job en w = (Inr (), w1)"
    and q: "make_job_request (ch_installation job) (ch_repo job) (fst p) ''shared_head_invalidation''
              (Some (ch_head job)) (show_work_class (ch_class job)) None None = Inr q"
    and e: "do_enqueue_for_generation q (ch_generation job) en w1 = (Inr True, w')"
    by (auto simp: fan_out_pull_def runs_seq runs_pure split: if_splits)
  note x = store_run_happened [OF e [unfolded do_enqueue_for_generation_def]]
  have "extends w w1" by (rule obeysD [OF obeys_require c])
  from happened_later [OF this x] make_job_request_fields [OF q] show ?thesis
    unfolding queued_again_def by blast
qed

section \<open>The attempt\<close>

lemma unmanaged_mono: "unmanaged st job p \<Longrightarrow> (\<And>x. p x \<Longrightarrow> q x) \<Longrightarrow> unmanaged st job q"
  unfolding unmanaged_def by blast

lemma blocked_mono: "blocked job p \<Longrightarrow> (\<And>x. p x \<Longrightarrow> q x) \<Longrightarrow> blocked job q"
  unfolding blocked_def by blast

lemma queued_again_mono: "queued_again job p n \<Longrightarrow> (\<And>x. p x \<Longrightarrow> q x) \<Longrightarrow> queued_again job q n"
  unfolding queued_again_def by blast

lemma fanned_out_mono:
  assumes "fanned_out job p" and up: "\<And>x. p x \<Longrightarrow> q x"
  shows "fanned_out job q"
proof -
  have b: "blocked job p \<Longrightarrow> blocked job q" by (erule blocked_mono) (rule up)
  have r: "queued_again job p n \<Longrightarrow> queued_again job q n" for n by (erule queued_again_mono) (rule up)
  from assms(1) b r up show ?thesis unfolding fanned_out_def by fast
qed

lemma invalidate_runs:
  assumes "Service.invalidate_shared_head st job en w = (Inr (), w')"
  shows "unmanaged st job (happened w w') \<or> fanned_out job (happened w w')"
proof -
  from assms obtain r w1 where guard: "check_write_guard (ch_installation job) (ch_head job) (reset_locked st job) en w = (Inr r, w1)"
    and rest: "(case r of None \<Rightarrow> ret ()
     | Some pulls \<Rightarrow> seq (for_each pulls (fan_out_pull job)) (\<lambda>_. require_current_reset job)) en w1 = (Inr (), w')"
    unfolding Service.invalidate_shared_head_def by (rule runs_seqE)
  let ?w0 = "log_event (Acquired (HeadGuard (ch_installation job) (ch_head job))) w"
  from guard [unfolded check_write_guard_def] obtain w2 where
    locked: "reset_locked st job en ?w0 = (Inr r, w2)" and w1: "w1 = log_event (Released (HeadGuard (ch_installation job) (ch_head job))) w2"
    by (rule runs_guard)
  have e2: "extends ?w0 w2" by (rule obeysD [OF obeys_reset_locked locked])
  note locked_runs = reset_locked_runs [OF locked]
  show ?thesis
  proof (cases r)
    case None
    with rest w1 have "extends w2 w'" by (simp add: runs_pure)
    with locked_runs None have "unmanaged st job (happened w w')"
      by (auto elim!: unmanaged_mono intro: happened_later [OF extends_log] happened_earlier)
    then show ?thesis by blast
  next
    case (Some current)
    with locked_runs obtain u v where uv: "extends ?w0 u" "extends v w2"
      "current_associated_pulls (require_current_reset job) (ch_installation job) (ch_repo job) (ch_head job) en u = (Inr current, v)"
      and block: "list_ex (open_on_head (ch_head job)) current \<longrightarrow> blocked job (happened ?w0 w2)" by auto
    from rest Some obtain w3 where each: "for_each current (fan_out_pull job) en w1 = (Inr (), w3)"
      and last: "require_current_reset job en w3 = (Inr (), w')" by (auto simp: runs_seq)
    have e3: "extends w1 w3" by (rule obeysD [OF history.obeys_for_each [OF obeys_fan_out_pull] each])
    have e4: "extends w3 w'" by (rule obeysD [OF obeys_require last])
    have e21: "extends w2 w1" by (simp add: w1)
    have e2': "extends w2 w'" by (rule extends_trans [OF e21 extends_trans [OF e3 e4]])
    have eu: "extends w u" by (rule extends_trans [OF extends_log uv(1)])
    have up: "happened w w' x" if "happened u v x" for x
      by (rule happened_later [OF eu happened_earlier [OF that extends_trans [OF uv(2) e2']]])
    have b: "blocked job (happened w w')" if "list_ex (open_on_head (ch_head job)) current"
      using block that by (auto elim!: blocked_mono intro: happened_later [OF extends_log] happened_earlier [OF _ e2'])
    have q: "queued_again job (happened w w') (fst p)" if p: "p \<in> set current" "open_on_head (ch_head job) p" for p
    proof -
      from history.for_each_all [OF obeys_fan_out_pull each p(1)] obtain v1 v2 where
        v: "extends w1 v1" "fan_out_pull job p en v1 = (Inr (), v2)" "extends v2 w3" by blast
      have "extends w v1"
        by (rule extends_trans [OF extends_log extends_trans [OF e2 extends_trans [OF e21 v(1)]]])
      moreover have "extends v2 w'" by (rule extends_trans [OF v(3) e4])
      ultimately show ?thesis
        using fan_out_pull_runs [OF v(2) p(2)] by (auto elim!: queued_again_mono intro: happened_later happened_earlier)
    qed
    from associated_runs [OF obeys_require uv(3)] obtain associated observed where
      a: "happened u v (GitEvent (ListCommitPulls (ch_installation job) (ch_repo job) (ch_head job)) (Inr (AList associated)))"
      "observe_associated associated [] = Inr observed"
      "\<forall>number \<in> fst ` set observed. \<exists>pull identity.
         happened u v (GitEvent (GetPull (ch_installation job) (ch_repo job) number) (Inr (AObj pull))) \<and>
         current_pull_identity (ch_repo job) number pull = Inr identity \<and> (number, identity) \<in> set current" by blast
    have "\<exists>pull identity. happened w w' (GitEvent (GetPull (ch_installation job) (ch_repo job) number) (Inr (AObj pull))) \<and>
        current_pull_identity (ch_repo job) number pull = Inr identity \<and>
        (open_on_head (ch_head job) (number, identity) \<longrightarrow> blocked job (happened w w') \<and> queued_again job (happened w w') number)"
      if n: "number \<in> fst ` set observed" for number
    proof -
      from a(3) n obtain pull identity where
        x: "happened u v (GitEvent (GetPull (ch_installation job) (ch_repo job) number) (Inr (AObj pull)))"
        "current_pull_identity (ch_repo job) number pull = Inr identity" "(number, identity) \<in> set current" by blast
      have "blocked job (happened w w') \<and> queued_again job (happened w w') number" if "open_on_head (ch_head job) (number, identity)"
        using b q [OF x(3) that] that x(3) by (auto simp: list_ex_iff)
      with x(2) up [OF x(1)] show ?thesis by blast
    qed
    with a(2) up [OF a(1)] have "fanned_out job (happened w w')" unfolding fanned_out_def by blast
    then show ?thesis by blast
  qed
qed

lemma reset_failed_outcome:
  assumes "reset_failed st job x en w = (Inr outcome, w')"
  shows "outcome \<noteq> ''completed''"
  using assms by (cases x) (auto simp: reset_failed_def Let_def message_of_def runs_seq runs_pure updated_or_def split: if_splits)

text \<open>C10. A reset is completed only after it did its work. When the worker reports the reset of a
  commit as completed, its lease and generation were still current when the row was marked,
  and either GitHub showed that the commit carries no check of the application, or every pull
  request that GitHub associates with the commit was read again, and for each one open on the
  commit a check was turned into a failed one and the pull request was queued for exactly this
  generation of the reset.\<close>

theorem completed_reset_fanned_out:
  assumes "process_shared_head st job en w = (Inr ''completed'', w')"
  shows "(unmanaged st job (happened w w') \<or> fanned_out job (happened w w')) \<and>
    (\<exists>now d. happened w w' (StoreEvent (CompleteReset job) now d None) \<and> list_ex (holds_reset now job) (epochs d))"
proof -
  from runs_joining [OF assms [unfolded process_shared_head_def]] obtain r w1 where
    r: "Service.invalidate_shared_head st job en w = (r, w1)" and rest: "(case r of
       Inl x \<Rightarrow> reset_failed st job x
     | Inr _ \<Rightarrow> seq (ask_env e_lost) (\<lambda>lost. seq (if lost then ret False else do_complete_reset job) (\<lambda>completed.
         ret (updated_or ''completed'' completed)))) en w1 = (Inr ''completed'', w')"
    by (elim runs_seqE) (simp add: runs_attempt)
  have "r = Inr ()"
  proof (cases r)
    case (Inl x)
    with rest have "reset_failed st job x en w1 = (Inr ''completed'', w')" by simp
    from reset_failed_outcome [OF this] show ?thesis by simp
  qed simp
  with r rest have run: "Service.invalidate_shared_head st job en w = (Inr (), w1)"
    and ack: "do_complete_reset job en w1 = (Inr True, w')"
    by (auto simp: runs_seq runs_pure updated_or_def split: if_splits)
  have "obeys extends (Service.invalidate_shared_head st job)"
    unfolding Service.invalidate_shared_head_def by (auto intro!: obeys_intros)
  then have e1: "extends w w1" using run by (rule obeysD)
  note x = store_run_happened [OF ack [unfolded do_complete_reset_def]]
  have e2: "extends w1 w'" by (rule happened_extends [OF x])
  have "unmanaged st job (happened w w') \<or> fanned_out job (happened w w')"
    using invalidate_runs [OF run]
  proof
    assume "unmanaged st job (happened w w1)"
    then show ?thesis by (auto elim!: unmanaged_mono intro: happened_earlier [OF _ e2])
  next
    assume "fanned_out job (happened w w1)"
    then have "fanned_out job (happened w w')" by (rule fanned_out_mono) (rule happened_earlier [OF _ e2])
    then show ?thesis by blast
  qed
  moreover obtain d' where "always (\<lambda>now. complete_shared_head_invalidation now job) (e_clock en (w_trace w1))
      (e_interfere en (w_trace w1) (w_db w1)) = Inr (d', True)"
    using ack unfolding do_complete_reset_def by (rule store_run_ran)
  then have "list_ex (holds_reset (e_clock en (w_trace w1)) job) (epochs (e_interfere en (w_trace w1) (w_db w1)))"
    by (auto simp: always_def complete_shared_head_invalidation_def update_reset_def sql_update_def list_ex_iff
        filter_empty_conv length_Suc_conv filter_eq_Cons_iff split: if_splits)
  ultimately show ?thesis using happened_later [OF e1 x] by blast
qed

theorem completed_reset_fanned_out_witness:
  "\<exists>w'. process_shared_head sample_settings (the (snd (claim_shared_head_invalidation 110 ''v'' 60 None sample_db))) sample_env
      (idle_world (fst (claim_shared_head_invalidation 110 ''v'' 60 None sample_db))) = (Inr ''completed'', w') \<and>
    (\<exists>now d. happened (idle_world (fst (claim_shared_head_invalidation 110 ''v'' 60 None sample_db))) w'
      (StoreEvent (CompleteReset (the (snd (claim_shared_head_invalidation 110 ''v'' 60 None sample_db)))) now d None))"
proof -
  let ?job = "the (snd (claim_shared_head_invalidation 110 ''v'' 60 None sample_db))"
  let ?w = "idle_world (fst (claim_shared_head_invalidation 110 ''v'' 60 None sample_db))"
  obtain r w' where run: "process_shared_head sample_settings ?job sample_env ?w = (r, w')"
    by (cases "process_shared_head sample_settings ?job sample_env ?w")
  have "fst (process_shared_head sample_settings ?job sample_env ?w) = Inr ''completed''" by code_simp
  with run have r: "process_shared_head sample_settings ?job sample_env ?w = (Inr ''completed'', w')" by simp
  from completed_reset_fanned_out [OF r] r show ?thesis by blast
qed

end
