(* ===== verification/Reconciler_Facts.thy ===== *)
theory Reconciler_Facts
  imports Fan_Out_Facts Queue_Recovery
begin

text \<open>
  What a successful reconciliation promises: every open pull request of every repository that
  the application can see has work in the queue for its head, or was confirmed at that head
  within the recheck interval, or was shown to be unenrolled in this very scan, or lies before
  the stored checkpoint at which an earlier scan was interrupted.
\<close>

section \<open>The programs of a scan\<close>

lemmas scan_calls = do_enqueue_reconciliation_def ask_provider_blocked_def do_service_lease_def do_release_lease_def
  do_prune_deliveries_def do_prune_epochs_def do_prune_states_def ask_repository_cursor_def ask_pull_cursor_def
  do_clear_pull_def do_advance_pull_def do_advance_repository_def

lemma extends_scan_calls [obeys_intros]:
  "obeys extends (do_enqueue_reconciliation q n)" "obeys extends (ask_provider_blocked s)"
  "obeys extends (do_service_lease name worker n)" "obeys extends (do_release_lease name worker)"
  "obeys extends (do_prune_deliveries t)" "obeys extends (do_prune_epochs t)" "obeys extends (do_prune_states t)"
  "obeys extends (ask_repository_cursor i)" "obeys extends (ask_pull_cursor i)" "obeys extends (do_clear_pull i worker)"
  "obeys extends (do_advance_pull i name number worker)" "obeys extends (do_advance_repository i name worker)"
  by (simp_all add: scan_calls obeys_intros)

lemma extends_local [obeys_intros]:
  "obeys extends (count_queued b)" "obeys extends start_count" "obeys extends interrupted"
  "obeys extends (scan_outcome failed stop deferred)" "obeys extends (recovery_request i name n head t base)"
  by (auto simp: obeys_def count_queued_def start_count_def interrupted_def scan_outcome_def outcome_now_def
      recovery_request_def ask_env_def of_queue_def of_result_def extends_def)

lemma extends_pull [obeys_intros]:
  "obeys extends (read_policy st i name b)" "obeys extends (policy_of_base st i name known b)"
  "obeys extends (unenrolled st i name head known b')" "obeys extends (reconcile_pull st worker i name t known p)"
  unfolding reconcile_pull_def unenrolled_def policy_of_base_def read_policy_def by (auto intro!: obeys_intros)

lemma extends_pulls [obeys_intros]: "obeys extends (reconcile_pulls st worker i name t cursor known ps)"
  by (induction ps arbitrary: known) (auto intro!: obeys_intros)

lemma extends_repository [obeys_intros]: "obeys extends (reconcile_repository st worker i cursor r)"
  unfolding reconcile_repository_def by (auto intro!: obeys_intros)

lemma extends_repositories [obeys_intros]: "obeys extends (reconcile_repositories st worker i cursor rs)"
  by (induction rs) (auto intro!: obeys_intros)

lemma extends_installation [obeys_intros]: "obeys extends (reconcile_installation st worker i)"
  unfolding reconcile_installation_def partial_cursor_def by (auto intro!: obeys_intros)

lemma extends_installations [obeys_intros]: "obeys extends (reconcile_installations st worker failed deferred is')"
proof (induction is' arbitrary: failed deferred)
  case (Cons p is')
  obtain i suspended where p: "p = (i, suspended)" by (cases p)
  from Cons.IH show ?case
    unfolding p by (auto simp: Let_def stopped_outcome_def intro!: obeys_intros split: bool.split svc_exc.split)
qed (auto intro!: obeys_intros)

section \<open>One pull request\<close>

text \<open>What the store made of a pull request that the scan hands to it: a fresh row that is due at
  once; or nothing, because a row with this head or of a newer direct trigger is there, or the
  head was confirmed within the recheck interval.\<close>

definition waiting_or_confirmed :: "int \<Rightarrow> int \<Rightarrow> job_request \<Rightarrow> db \<Rightarrow> db \<Rightarrow> bool" where
  "waiting_or_confirmed now recheck q d d' \<longleftrightarrow> fresh_row now q d' \<or>
     (jobs d' = jobs d \<and>
       ((\<exists>j \<in> set (jobs d). is_job (q_installation q) (q_repo q) (q_pull q) j \<and>
          (j_head j = q_head q \<or> (j_class j = Interactive \<and> (\<exists>t. q_observed q = Some t \<and> t < j_requested j)))) \<or>
        (\<exists>t. confirmed_at q d = Some t \<and> now - seconds recheck < t)))"

lemma touch_jobs: "touch_shared_head_epoch now q d = Inr (d', g) \<Longrightarrow> jobs d' = jobs d"
  by (auto simp: touch_shared_head_epoch_def Let_def split_def split: if_splits option.splits)

lemma reconciliation_leaves_work:
  assumes "enqueue_reconciliation_if_due now q recheck d = Inr (d', created)"
    and "db_ok d" and "canonical_repo (q_repo q)"
  shows "waiting_or_confirmed now recheck q d d'"
proof -
  from assms(1) obtain obs where obs: "q_observed q = Some obs"
    by (auto simp: enqueue_reconciliation_if_due_def split: if_splits option.splits)
  show ?thesis
  proof (cases "find (is_job (q_installation q) (q_repo q) (q_pull q)) (jobs d)")
    case None
    with assms(1) obs have r: "reconcile_missing now q recheck d = Inr (d', created)"
      by (auto simp: enqueue_reconciliation_if_due_def split: if_splits)
    have none: "\<not> list_ex (is_job (q_installation q) (q_repo q) (q_pull q)) (jobs d)"
      using None by (simp add: find_None list_ex_iff)
    have "created \<or> (\<exists>t. confirmed_at q d = Some t \<and> now - seconds recheck < t)"
      using r none by (auto simp: reconcile_missing_def insert_if_absent_def Let_def
          split: option.splits if_splits dest: advance_jobs touch_jobs)
    with reconcile_missing_cases(1,2) [OF r] show ?thesis unfolding waiting_or_confirmed_def by blast
  next
    case (Some j)
    with assms(1) obs have r: "reconcile_existing now q obs j d = Inr (d', created)"
      by (auto simp: enqueue_reconciliation_if_due_def split: if_splits)
    from find_SomeD [OF Some] have j: "j \<in> set (jobs d)" "is_job (q_installation q) (q_repo q) (q_pull q) j" by auto
    have "created \<or> j_head j = q_head q \<or> (j_class j = Interactive \<and> obs < j_requested j)"
      using r by (auto simp: reconcile_existing_def split: if_splits)
    with reconcile_existing_cases(1,2) [OF assms(2,3) r] j obs show ?thesis
      unfolding waiting_or_confirmed_def by blast
  qed
qed

definition reconciled :: "settings \<Rightarrow> int \<Rightarrow> string \<Rightarrow> (event \<Rightarrow> bool) \<Rightarrow> (int \<times> string) \<times> obj \<Rightarrow> bool" where
  "reconciled st i name seen p \<longleftrightarrow>
     (\<exists>q now d d' created. seen (StoreEvent (EnqueueReconciliation q (s_recheck_seconds st)) now d None) \<and>
        q_installation q = i \<and> q_repo q = lower name \<and> q_pull q = fst (fst p) \<and> q_head q = Some (snd (fst p)) \<and>
        enqueue_reconciliation_if_due now q (s_recheck_seconds st) d = Inr (d', created) \<and>
        (db_ok d \<longrightarrow> waiting_or_confirmed now (s_recheck_seconds st) q d d')) \<or>
     (\<exists>b. base_of (snd p) = Some b \<and> policy_absent st i name seen b \<and>
        seen (GitEvent (HasReconciliationCheck i name (snd (fst p)) (s_check_name st)) (Inr (ABool False))))"

lemma reconciled_mono: "reconciled st i name p x \<Longrightarrow> (\<And>e. p e \<Longrightarrow> q e) \<Longrightarrow> reconciled st i name q x"
  unfolding reconciled_def by (blast intro: policy_absent_mono)

definition known_absences :: "settings \<Rightarrow> int \<Rightarrow> string \<Rightarrow> world \<Rightarrow> world \<Rightarrow> (string \<times> bool) list \<Rightarrow> bool" where
  "known_absences st i name w0 w known \<longleftrightarrow> extends w0 w \<and>
     (\<forall>b. (b, False) \<in> set known \<longrightarrow> policy_absent st i name (happened w0 w) b)"

lemma known_absences_later:
  assumes "known_absences st i name w0 w known" and "extends w w'"
  shows "known_absences st i name w0 w' known"
  using assms unfolding known_absences_def by (auto intro: extends_trans policy_absent_earlier)

lemma read_policy_absent:
  assumes "read_policy st i name b en w = (Inr False, w')"
  shows "policy_absent st i name (happened w w') b"
proof -
  let ?body = "seq (ask_text (GetBranchHead i name b)) (\<lambda>sha.
      seq (ask_opt_text (GetFileText i name (s_policy_path st) (Some sha))) (\<lambda>t. ret (t \<noteq> None)))"
  from assms have "?body en w = (Inr False, w')"
    unfolding read_policy_def runs_handle by (auto simp: runs_pure split: if_splits)
  then show ?thesis
    unfolding ask_text_def ask_opt_text_def policy_absent_def
    by (auto simp: runs happened_def log_event_def)
qed

lemma policy_of_base_absent:
  assumes run: "policy_of_base st i name known b en w = (Inr (known', present), w')"
    and known: "known_absences st i name w0 w known"
  shows "known_absences st i name w0 w' known' \<and> (\<not> present \<longrightarrow> policy_absent st i name (happened w0 w') b)"
proof (cases "map_of known b")
  case (Some v)
  with run have "known' = known" "present = v" "w' = w" by (simp_all add: policy_of_base_def runs_pure)
  with Some known show ?thesis by (auto simp: known_absences_def dest: map_of_SomeD)
next
  case None
  with run have read: "read_policy st i name b en w = (Inr present, w')" and k: "known' = (b, present) # known"
    by (auto simp: policy_of_base_def runs_seq runs_pure)
  have e: "extends w w'" by (rule obeysD [OF extends_pull(1) read])
  have "extends w0 w" using known by (simp add: known_absences_def)
  then have "policy_absent st i name (happened w0 w') b" if "\<not> present"
    using read_policy_absent [of st i name b en w w'] read that by (auto intro: policy_absent_later)
  with known_absences_later [OF known e] show ?thesis unfolding known_absences_def k by auto
qed

lemma unenrolled_runs:
  assumes run: "unenrolled st i name head known b en w = (Inr (Some (known', skip)), w')"
    and known: "known_absences st i name w0 w known"
  shows "known_absences st i name w0 w' known' \<and> (skip \<longrightarrow> (\<exists>base. b = Some base \<and>
    policy_absent st i name (happened w0 w') base \<and>
    happened w0 w' (GitEvent (HasReconciliationCheck i name head (s_check_name st)) (Inr (ABool False)))))"
proof (cases b)
  case None
  with run known show ?thesis by (simp add: unenrolled_def runs_pure)
next
  case (Some base)
  with run obtain known1 present w1 where
    p: "policy_of_base st i name known base en w = (Inr (known1, present), w1)" and
    rest: "seq interrupted (\<lambda>halt. if halt then ret None
       else if present then ret (Some (known1, False))
       else seq (ask_bool (HasReconciliationCheck i name head (s_check_name st))) (\<lambda>managed.
         seq interrupted (\<lambda>halt. if halt then ret None else ret (Some (known1, \<not> managed))))) en w1 = (Inr (Some (known', skip)), w')"
    by (auto simp: unenrolled_def runs_seq [of "policy_of_base st i name known base"])
  note a = policy_of_base_absent [OF p known]
  have w0: "extends w0 w1" using a by (simp add: known_absences_def)
  show ?thesis
  proof (cases present)
    case True
    with rest a show ?thesis
      by (auto simp: runs_seq runs_pure interrupted_def split: if_splits)
  next
    case False
    with rest obtain managed where x: "w' = log_event (GitEvent (HasReconciliationCheck i name head (s_check_name st)) (Inr (ABool managed))) w1"
      "known' = known1" "skip = (\<not> managed)"
      by (auto simp: runs_seq runs_pure interrupted_def ask_bool_def runs_answered split: if_splits)
    have e: "extends w1 w'" by (simp add: x(1))
    have "happened w0 w' (GitEvent (HasReconciliationCheck i name head (s_check_name st)) (Inr (ABool managed)))"
      unfolding x(1) by (rule happened_later [OF w0 happened_log])
    moreover have "policy_absent st i name (happened w0 w') base"
      using a False e by (auto intro: policy_absent_earlier)
    ultimately show ?thesis using known_absences_later [of st i name w0 w1 known1 w'] a e x(2,3) Some by auto
  qed
qed

lemma reconcile_pull_runs:
  assumes run: "reconcile_pull st worker i name t known p en w = (Inr (Some known'), w')"
    and known: "known_absences st i name w0 w known"
  shows "known_absences st i name w0 w' known' \<and> reconciled st i name (happened w0 w') p"
proof -
  obtain number head pull where p: "p = ((number, head), pull)" by (cases p) auto
  from run obtain known1 skip w1 where
    u: "unenrolled st i name head known (base_of pull) en w = (Inr (Some (known1, skip)), w1)"
    and rest: "(if skip then seq (do_advance_pull i name number worker) (\<lambda>_. ret (Some known1))
         else seq (recovery_request i name number head t (base_of pull)) (\<lambda>q.
           seq (do_enqueue_reconciliation q (s_recheck_seconds st)) (\<lambda>added.
           seq (count_queued added) (\<lambda>_.
           seq (do_advance_pull i name number worker) (\<lambda>_. ret (Some known1)))))) en w1 = (Inr (Some known'), w')"
    unfolding reconcile_pull_def p by (auto simp: runs_seq [of "unenrolled st i name head known (base_of pull)"] runs_pure split: option.splits)
  note a = unenrolled_runs [OF u known]
  have w0: "extends w0 w1" using a by (simp add: known_absences_def)
  show ?thesis
  proof (cases skip)
    case True
    with rest obtain v where adv: "do_advance_pull i name number worker en w1 = (Inr v, w')" "known' = known1"
      by (auto simp: runs_seq runs_pure)
    have e: "extends w1 w'" by (rule obeysD [OF extends_scan_calls(11) adv(1)])
    have "reconciled st i name (happened w0 w1) p" using a True by (auto simp: reconciled_def p)
    then have "reconciled st i name (happened w0 w') p" by (rule reconciled_mono) (rule happened_earlier [OF _ e])
    with known_absences_later [of st i name w0 w1 known1 w'] a e adv(2) show ?thesis by auto
  next
    case False
    with rest obtain q w2 added w3 v w4 v' w5 where
      q: "recovery_request i name number head t (base_of pull) en w1 = (Inr q, w2)"
      and enq: "do_enqueue_reconciliation q (s_recheck_seconds st) en w2 = (Inr added, w3)"
      and cnt: "count_queued added en w3 = (Inr v, w4)"
      and adv: "do_advance_pull i name number worker en w4 = (Inr v', w')" "known' = known1"
      by (auto simp: runs_seq runs_pure)
    have w2: "w2 = w1" and m: "q_installation q = i \<and> q_repo q = lower name \<and> q_pull q = number \<and> q_head q = Some head"
      using q unfolding recovery_request_def by (auto simp: runs dest: make_job_request_fields)
    have canon: "canonical_repo (q_repo q)"
      using q unfolding recovery_request_def by (auto simp: runs dest: make_job_request_canonical)
    note x = store_run_happened [OF enq [unfolded do_enqueue_reconciliation_def]]
    from store_run_ran [OF enq [unfolded do_enqueue_reconciliation_def]] obtain d' where
      d': "enqueue_reconciliation_if_due (e_clock en (w_trace w2)) q (s_recheck_seconds st)
        (e_interfere en (w_trace w2) (w_db w2)) = Inr (d', added)" by blast
    have e3: "extends w2 w3" by (rule obeysD [OF extends_scan_calls(1) enq])
    have e4: "extends w3 w4" by (rule obeysD [OF extends_local(1) cnt])
    have e5: "extends w4 w'" by (rule obeysD [OF extends_scan_calls(11) adv(1)])
    have e35: "extends w3 w'" by (rule extends_trans [OF e4 e5])
    have "reconciled st i name (happened w0 w') p"
      unfolding reconciled_def p fst_conv snd_conv
      using m happened_later [OF w0 happened_earlier [OF x [unfolded w2] e35]] d' [unfolded w2]
        reconciliation_leaves_work [OF d' [unfolded w2] _ canon] by blast
    moreover have "extends w1 w'" using extends_trans [OF e3 e35] unfolding w2 .
    ultimately show ?thesis using known_absences_later [of st i name w0 w1 known1 w'] a adv(2) by auto
  qed
qed

section \<open>The loops\<close>

definition before_cursor :: "string \<times> int \<Rightarrow> string \<Rightarrow> int \<Rightarrow> bool" where
  "before_cursor cursor name number \<longleftrightarrow> lower name = fst cursor \<and> number \<le> snd cursor"

lemma reconcile_pulls_runs:
  assumes "reconcile_pulls st worker i name t cursor known ps en w = (Inr True, w')"
    and "known_absences st i name w0 w known" and "p \<in> set ps"
  shows "before_cursor cursor name (fst (fst p)) \<or> reconciled st i name (happened w0 w') p"
  using assms
proof (induction ps arbitrary: known w)
  case (Cons q ps)
  show ?case
  proof (cases "before_cursor cursor name (fst (fst q))")
    case True
    with Cons.prems(1) have rest: "reconcile_pulls st worker i name t cursor known ps en w = (Inr True, w')"
      by (auto simp: before_cursor_def runs_seq runs_pure interrupted_def split: if_splits)
    show ?thesis
    proof (cases "p \<in> set ps")
      case True
      with Cons.IH [OF rest Cons.prems(2)] show ?thesis by simp
    qed (use Cons.prems(3) True in auto)
  next
    case False
    with Cons.prems(1) obtain known' w1 where
      pull: "reconcile_pull st worker i name t known q en w = (Inr (Some known'), w1)" and
      rest: "reconcile_pulls st worker i name t cursor known' ps en w1 = (Inr True, w')"
      by (auto simp: before_cursor_def runs_seq runs_pure interrupted_def split: if_splits option.splits)
    note a = reconcile_pull_runs [OF pull Cons.prems(2)]
    have e: "extends w1 w'" by (rule obeysD [OF extends_pulls rest])
    show ?thesis
    proof (cases "p \<in> set ps")
      case True
      with Cons.IH [OF rest] a show ?thesis by simp
    next
      case False
      with Cons.prems(3) have "p = q" by simp
      with a have "reconciled st i name (happened w0 w1) p" by simp
      then have "reconciled st i name (happened w0 w') p" by (rule reconciled_mono) (rule happened_earlier [OF _ e])
      then show ?thesis ..
    qed
  qed
qed simp

definition repository_covered ::
  "settings \<Rightarrow> int \<Rightarrow> string \<times> int \<Rightarrow> (event \<Rightarrow> bool) \<Rightarrow> string \<times> bool \<Rightarrow> bool" where
  "repository_covered st i cursor seen r \<longleftrightarrow> snd r \<or> is_organization_config_repository st (fst r) \<or>
     (\<exists>records pulls. seen (GitEvent (ListOpenPulls i (fst r)) (Inr (AList records))) \<and>
        reconciliation_pulls (JList (map JObj records)) = Inr pulls \<and>
        (\<forall>p \<in> set (zip pulls records).
          before_cursor cursor (fst r) (fst (fst p)) \<or> reconciled st i (fst r) seen p))"

lemma repository_covered_mono:
  "repository_covered st i cursor p r \<Longrightarrow> (\<And>x. p x \<Longrightarrow> q x) \<Longrightarrow> repository_covered st i cursor q r"
  unfolding repository_covered_def by (blast intro: reconciled_mono)

lemma reconcile_repository_runs:
  assumes "reconcile_repository st worker i cursor r en w = (Inr True, w')"
  shows "repository_covered st i cursor (happened w w') r"
proof -
  obtain name archived where r: "r = (name, archived)" by (cases r)
  show ?thesis
  proof (cases "archived \<or> is_organization_config_repository st name")
    case False
    with assms obtain records pulls u where
      pulls: "reconciliation_pulls (JList (map JObj records)) = Inr pulls"
      and loop: "reconcile_pulls st worker i name (e_clock en (w_trace w)) cursor [] (sort_key (fst \<circ> fst) (zip pulls records)) en
        (log_event (GitEvent (ListOpenPulls i name) (Inr (AList records))) w) = (Inr True, u)"
      and advance: "do_advance_repository i name worker en u = (Inr (), w')"
      unfolding reconcile_repository_def r
      by (auto simp: runs_seq runs_pure interrupted_def ask_list_def runs_answered runs_payload split: if_splits)
    let ?x = "GitEvent (ListOpenPulls i name) (Inr (AList records))"
    have e1: "extends (log_event ?x w) u" by (rule obeysD [OF extends_pulls loop])
    have e2: "extends u w'" by (rule obeysD [OF extends_scan_calls(12) advance])
    have known: "known_absences st i name w (log_event ?x w) []" by (simp add: known_absences_def)
    have "before_cursor cursor name (fst (fst p)) \<or> reconciled st i name (happened w w') p" if "p \<in> set (zip pulls records)" for p
    proof -
      have "p \<in> set (sort_key (fst \<circ> fst) (zip pulls records))" using that by simp
      from reconcile_pulls_runs [OF loop known this] show ?thesis
        using reconciled_mono [of st i name "happened w u" p "happened w w'"] happened_earlier [OF _ e2] by blast
    qed
    moreover have "happened w w' ?x" by (rule happened_earlier [OF happened_log extends_trans [OF e1 e2]])
    ultimately show ?thesis
      using pulls unfolding repository_covered_def r fst_conv snd_conv by blast
  qed (auto simp: repository_covered_def r)
qed

lemma reconcile_repositories_runs:
  assumes "reconcile_repositories st worker i cursor rs en w = (Inr True, w')" and "r \<in> set rs"
  shows "repository_covered st i cursor (happened w w') r"
  using assms
proof (induction rs arbitrary: w)
  case (Cons q rs)
  then obtain w1 where one: "reconcile_repository st worker i cursor q en w = (Inr True, w1)"
    and rest: "reconcile_repositories st worker i cursor rs en w1 = (Inr True, w')"
    by (auto simp: runs_seq runs_pure split: if_splits)
  have e0: "extends w w1" by (rule obeysD [OF extends_repository one])
  have e: "extends w1 w'" by (rule obeysD [OF extends_repositories rest])
  show ?case
  proof (cases "r \<in> set rs")
    case True
    from Cons.IH [OF rest True] show ?thesis by (rule repository_covered_mono) (rule happened_later [OF e0])
  next
    case False
    with Cons.prems(2) reconcile_repository_runs [OF one] have "repository_covered st i cursor (happened w w1) r" by simp
    then show ?thesis by (rule repository_covered_mono) (rule happened_earlier [OF _ e])
  qed
qed simp

section \<open>Installations\<close>

text \<open>The checkpoint that the store held for an installation when the scan read it, and the point
  at which the scan resumes: a checkpoint in a repository that is no longer scanned
  is dropped.\<close>

definition checkpoint_read :: "env \<Rightarrow> int \<Rightarrow> world \<Rightarrow> world \<Rightarrow> string \<times> int \<Rightarrow> bool" where
  "checkpoint_read en i w w' stored \<longleftrightarrow> (\<exists>v new now d. extends w v \<and>
     w_trace w' = new @ StoreEvent (PullCursor i) now d None # w_trace v \<and>
     snd (pull_cursor (e_opened en (w_trace v)) i (e_budgets en (w_trace v) (w_budgets v))) = Inr stored)"

lemma checkpoint_read_later: "checkpoint_read en i v w' c \<Longrightarrow> extends w v \<Longrightarrow> checkpoint_read en i w w' c"
  unfolding checkpoint_read_def by (blast intro: extends_trans)

lemma checkpoint_read_earlier: "checkpoint_read en i w v c \<Longrightarrow> extends v w' \<Longrightarrow> checkpoint_read en i w w' c"
  unfolding checkpoint_read_def extends_def by (metis append_assoc)

lemma ask_pull_cursor_reads:
  "ask_pull_cursor i en w = (Inr stored, w') \<Longrightarrow> checkpoint_read en i w w' stored"
  unfolding checkpoint_read_def
  by (rule exI [of _ w], rule exI [of _ "[]"])
    (auto simp: ask_pull_cursor_def budget_run_def Let_def split: option.splits fault.splits sum.splits)

definition resume_point :: "settings \<Rightarrow> (string \<times> bool) list \<Rightarrow> string \<times> int \<Rightarrow> string \<times> int" where
  "resume_point st repositories stored =
     (if fst stored \<noteq> [] \<and> \<not> list_ex (scanned st (fst stored)) repositories then ([], 0) else stored)"

lemma partial_cursor_resumes:
  "partial_cursor st worker i repositories stored en w = (Inr c, w') \<Longrightarrow> c = resume_point st repositories stored"
  by (auto simp: partial_cursor_def resume_point_def runs_seq runs_pure split: if_splits)

definition installation_covered :: "settings \<Rightarrow> int \<Rightarrow> env \<Rightarrow> world \<Rightarrow> world \<Rightarrow> bool" where
  "installation_covered st i en w w' \<longleftrightarrow> (\<exists>records repositories stored.
     happened w w' (GitEvent (ListInstallationRepositories i) (Inr (AList records))) \<and>
     reconciliation_repositories (JList (map JObj records)) = Inr repositories \<and>
     checkpoint_read en i w w' stored \<and>
     (\<forall>r \<in> set repositories. repository_covered st i (resume_point st repositories stored) (happened w w') r))"

lemma installation_covered_between:
  assumes "installation_covered st i en v v'" and "extends w v" and "extends v' w'"
  shows "installation_covered st i en w w'"
proof -
  have h: "happened w w' x" if "happened v v' x" for x
    by (rule happened_later [OF assms(2) happened_earlier [OF that assms(3)]])
  from assms(1) obtain records repositories stored where
    l: "happened v v' (GitEvent (ListInstallationRepositories i) (Inr (AList records)))"
    and r: "reconciliation_repositories (JList (map JObj records)) = Inr repositories"
    and c: "checkpoint_read en i v v' stored"
    and cov: "\<And>r. r \<in> set repositories \<Longrightarrow> repository_covered st i (resume_point st repositories stored) (happened v v') r"
    unfolding installation_covered_def by blast
  have c': "checkpoint_read en i w w' stored"
    by (rule checkpoint_read_later [OF checkpoint_read_earlier [OF c assms(3)] assms(2)])
  have "repository_covered st i (resume_point st repositories stored) (happened w w') r" if "r \<in> set repositories" for r
    by (rule repository_covered_mono [OF cov [OF that] h])
  then show ?thesis unfolding installation_covered_def
    by (intro exI [of _ records] exI [of _ repositories] exI [of _ stored] conjI ballI h [OF l] r c')
qed

lemma installation_covered_later:
  "installation_covered st i en v w' \<Longrightarrow> extends w v \<Longrightarrow> installation_covered st i en w w'"
  by (erule installation_covered_between) simp_all

lemma set_rotated [simp]: "set (rotated cursor partial rs) = set rs"
  by (auto simp: rotated_def Let_def not_less)

lemma reconcile_installation_runs:
  assumes "reconcile_installation st worker i en w = (Inr True, w')"
  shows "installation_covered st i en w w'"
proof -
  from assms obtain records repositories cursor partial w1 partial' w2 w3 where
    repositories: "reconciliation_repositories (JList (map JObj records)) = Inr repositories"
    and c: "ask_repository_cursor i en (log_event (GitEvent (ListInstallationRepositories i) (Inr (AList records))) w) = (Inr cursor, w1)"
    and p: "ask_pull_cursor i en w1 = (Inr partial, w2)"
    and p': "partial_cursor st worker i repositories partial en w2 = (Inr partial', w3)"
    and loop: "reconcile_repositories st worker i partial' (rotated cursor (fst partial') (sort_key fst repositories)) en w3 = (Inr True, w')"
    unfolding reconcile_installation_def
    by (auto simp: runs_seq runs_pure interrupted_def ask_list_def runs_answered runs_payload split: if_splits)
  let ?x = "GitEvent (ListInstallationRepositories i) (Inr (AList records))"
  have e1: "extends (log_event ?x w) w1" by (rule obeysD [OF extends_scan_calls(8) c])
  have e2: "extends w1 w2" by (rule obeysD [OF extends_scan_calls(9) p])
  have "obeys extends (partial_cursor st worker i repositories partial)"
    unfolding partial_cursor_def by (auto intro!: obeys_intros)
  then have e3: "extends w2 w3" using p' by (rule obeysD)
  have e4: "extends w3 w'" by (rule obeysD [OF extends_repositories loop])
  have e03: "extends w w3" by (rule extends_trans [OF extends_log extends_trans [OF e1 extends_trans [OF e2 e3]]])
  have "repository_covered st i partial' (happened w w') r" if "r \<in> set repositories" for r
  proof -
    have "r \<in> set (rotated cursor (fst partial') (sort_key fst repositories))" using that by simp
    from reconcile_repositories_runs [OF loop this] show ?thesis
      by (rule repository_covered_mono) (rule happened_later [OF e03])
  qed
  moreover have "happened w w' ?x"
    by (rule happened_earlier [OF happened_log extends_trans [OF e1 extends_trans [OF e2 extends_trans [OF e3 e4]]]])
  moreover have "checkpoint_read en i w w' partial"
    by (rule checkpoint_read_later [OF checkpoint_read_earlier [OF ask_pull_cursor_reads [OF p] extends_trans [OF e3 e4]]
      extends_trans [OF extends_log e1]])
  ultimately show ?thesis unfolding installation_covered_def
    by (intro exI [of _ records] exI [of _ repositories] exI [of _ partial])
      (simp add: repositories partial_cursor_resumes [OF p'])
qed

section \<open>Interruptions\<close>

text \<open>A loop that was interrupted returns at the moment at which it saw the interruption.\<close>

definition halted :: "env \<Rightarrow> world \<Rightarrow> bool" where
  "halted en w \<longleftrightarrow> e_lost en (w_trace w) \<or> e_stop en (w_trace w)"

lemma seq_interrupted: "seq interrupted f en w = f (halted en w) en w"
  by (simp add: seq_def interrupted_def ask_env_def halted_def)

lemma unenrolled_halted:
  "unenrolled st i name head known b en w = (Inr None, w') \<Longrightarrow> halted en w'"
  by (auto simp: unenrolled_def runs_seq runs_pure interrupted_def halted_def split: option.splits if_splits)

lemma reconcile_pull_halted:
  assumes "reconcile_pull st worker i name t known p en w = (Inr None, w')"
  shows "halted en w'"
proof -
  obtain number head pull where p: "p = ((number, head), pull)" by (cases p) auto
  from assms obtain r w1 where run: "unenrolled st i name head known (base_of pull) en w = (Inr r, w1)"
    and rest: "(case r of None \<Rightarrow> ret None
       | Some (known, skip) \<Rightarrow>
         if skip then seq (do_advance_pull i name number worker) (\<lambda>_. ret (Some known))
         else seq (recovery_request i name number head t (base_of pull)) (\<lambda>q.
           seq (do_enqueue_reconciliation q (s_recheck_seconds st)) (\<lambda>added.
           seq (count_queued added) (\<lambda>_.
           seq (do_advance_pull i name number worker) (\<lambda>_. ret (Some known)))))) en w1 = (Inr None, w')"
    unfolding reconcile_pull_def p prod.case by (rule runs_seqE)
  have "r = None"
    using rest by (auto simp: runs_seq runs_pure split: option.splits if_splits)
  with run rest show ?thesis by (auto simp: runs_pure intro: unenrolled_halted)
qed

lemma reconcile_pulls_halted:
  "reconcile_pulls st worker i name t cursor known ps en w = (Inr False, w') \<Longrightarrow> halted en w'"
proof (induction ps arbitrary: known w)
  case (Cons p ps)
  show ?case
  proof (cases "halted en w")
    case True
    with Cons.prems show ?thesis
      by (auto simp: seq_interrupted runs_pure)
  next
    case False
    show ?thesis
    proof (cases "lower name = fst cursor \<and> fst (fst p) \<le> snd cursor")
      case True
      with Cons.prems False have "reconcile_pulls st worker i name t cursor known ps en w = (Inr False, w')"
        by (simp add: seq_interrupted)
      then show ?thesis by (rule Cons.IH)
    next
      case here: False
      let ?next = "\<lambda>r. case r of None \<Rightarrow> ret False
        | Some known' \<Rightarrow> reconcile_pulls st worker i name t cursor known' ps"
      have "seq (reconcile_pull st worker i name t known p) ?next en w = (Inr False, w')"
        using Cons.prems False here by (auto simp: seq_interrupted)
      then obtain r w1 where run: "reconcile_pull st worker i name t known p en w = (Inr r, w1)"
        and rest: "?next r en w1 = (Inr False, w')" by (rule runs_seqE)
      show ?thesis
      proof (cases r)
        case None
        with run rest show ?thesis by (auto simp: runs_pure intro: reconcile_pull_halted)
      next
        case (Some known')
        with rest have "reconcile_pulls st worker i name t cursor known' ps en w1 = (Inr False, w')" by simp
        then show ?thesis by (rule Cons.IH)
      qed
    qed
  qed
qed (simp add: runs_pure)

lemma reconcile_repository_halted:
  "reconcile_repository st worker i cursor r en w = (Inr False, w') \<Longrightarrow> halted en w'"
  unfolding reconcile_repository_def
  by (cases r) (auto simp: runs_seq runs_pure interrupted_def halted_def
      split: if_splits dest!: reconcile_pulls_halted)

lemma reconcile_repositories_halted:
  "reconcile_repositories st worker i cursor rs en w = (Inr False, w') \<Longrightarrow> halted en w'"
  by (induction rs arbitrary: w)
    (auto simp: runs_seq runs_pure split: if_splits dest: reconcile_repository_halted)

lemma reconcile_installation_halted:
  "reconcile_installation st worker i en w = (Inr False, w') \<Longrightarrow> halted en w'"
  unfolding reconcile_installation_def
  by (auto simp: runs_seq runs_pure interrupted_def halted_def split: if_splits dest!: reconcile_repositories_halted)

section \<open>The scan\<close>

lemma scan_outcome_runs:
  "scan_outcome failed stop deferred en w = (Inr r, w') \<Longrightarrow> w' = w \<and>
     (outcome_complete r \<longleftrightarrow> failed = 0 \<and> \<not> halted en w \<and> \<not> stop \<and> \<not> deferred)"
  by (auto simp: scan_outcome_def outcome_now_def runs_pure outcome_complete_def halted_def)

lemma stopped_outcome_incomplete:
  "stopped_outcome failed en w = (Inr r, w') \<Longrightarrow> \<not> outcome_complete r"
  by (auto simp: stopped_outcome_def runs_seq runs_pure interrupted_def halted_def dest!: scan_outcome_runs)

lemma reconcile_installations_complete:
  assumes "reconcile_installations st worker failed deferred is' en w = (Inr r, w')" and "outcome_complete r" and "0 \<le> failed"
  shows "failed = 0 \<and> \<not> deferred \<and> (\<forall>i. (i, False) \<in> set is' \<longrightarrow> installation_covered st i en w w')"
  using assms(1,3)
proof (induction is' arbitrary: failed deferred w)
  case Nil
  with assms(2) show ?case by (auto dest: scan_outcome_runs)
next
  case (Cons p is')
  obtain i suspended where p: "p = (i, suspended)" by (cases p)
  let ?go = "\<lambda>n late. reconcile_installations st worker (failed + n) (deferred \<or> late) is'"
  have never: "\<not> (?go n late en v = (Inr r, w') \<and> (0 < n \<or> late))" if "0 \<le> n" for n late v
    using Cons.IH [of "failed + n" "deferred \<or> late" v] Cons.prems(2) that by fastforce
  have cont: "failed = 0 \<and> \<not> deferred \<and> (\<forall>j. (j, False) \<in> set is' \<longrightarrow> installation_covered st j en w w')"
    if "reconcile_installations st worker failed deferred is' en v = (Inr r, w')" "extends w v" for v
    using Cons.IH [OF that(1) Cons.prems(2)] installation_covered_later [OF _ that(2)] by blast
  from Cons.prems(1) obtain halt where h: "halt = (e_lost en (w_trace w) \<or> e_stop en (w_trace w))"
    and run: "(if halt then scan_outcome failed False False
      else if suspended then seq (do_clear_pull i worker) (\<lambda>_. ?go 0 False)
      else seq (ask_provider_blocked (Some i)) (\<lambda>blocked. if blocked then ?go 1 False
      else seq (attempt (reconcile_installation st worker i)) (\<lambda>r. case r of
          Inr True \<Rightarrow> ?go 0 False
        | Inr False \<Rightarrow> scan_outcome failed False False
        | Inl x \<Rightarrow> (case x of
            OperationStopped \<Rightarrow> stopped_outcome failed
          | RecoveryDeferred _ \<Rightarrow> ?go 0 True
          | QuotaExhausted _ \<Rightarrow> ?go 0 True
          | GitHubRateLimit n g \<Rightarrow> seq (message_of x) (\<lambda>m.
              seq (do_backpressure (if g then None else Some i) m n) (\<lambda>_. ?go 1 False))
          | Cancelled \<Rightarrow> raise_exc Cancelled
          | _ \<Rightarrow> ?go 1 False)))) en w = (Inr r, w')"
    unfolding p reconcile_installations.simps Let_def interrupted_def runs_seq [of "ask_env _"] runs_pure(5) by blast
  have "\<not> halt" using run h assms(2) scan_outcome_runs [of failed False False en w r w'] by (auto simp: halted_def)
  show ?case
  proof (cases suspended)
    case True
    with run \<open>\<not> halt\<close> obtain v u where v: "do_clear_pull i worker en w = (Inr v, u)" "?go 0 False en u = (Inr r, w')"
      by (auto simp: runs_seq)
    have "extends w u" by (rule obeysD [OF extends_scan_calls(10) v(1)])
    with cont [of u] v(2) True p show ?thesis by auto
  next
    case False
    with run \<open>\<not> halt\<close> obtain blocked u where b: "ask_provider_blocked (Some i) en w = (Inr blocked, u)"
      and run2: "(if blocked then ?go 1 False
      else seq (attempt (reconcile_installation st worker i)) (\<lambda>r. case r of
          Inr True \<Rightarrow> ?go 0 False
        | Inr False \<Rightarrow> scan_outcome failed False False
        | Inl x \<Rightarrow> (case x of
            OperationStopped \<Rightarrow> stopped_outcome failed
          | RecoveryDeferred _ \<Rightarrow> ?go 0 True
          | QuotaExhausted _ \<Rightarrow> ?go 0 True
          | GitHubRateLimit n g \<Rightarrow> seq (message_of x) (\<lambda>m.
              seq (do_backpressure (if g then None else Some i) m n) (\<lambda>_. ?go 1 False))
          | Cancelled \<Rightarrow> raise_exc Cancelled
          | _ \<Rightarrow> ?go 1 False))) en u = (Inr r, w')"
      by (simp add: runs_seq [of "ask_provider_blocked (Some i)"]) (elim exE conjE, rule that)
    have "\<not> blocked" using run2 never [of 1 False u] by auto
    obtain q v where q: "reconcile_installation st worker i en u = (q, v)" by (cases "reconcile_installation st worker i en u")
    have eu: "extends w u" by (rule obeysD [OF extends_scan_calls(2) b])
    have ev: "extends u v" by (rule obeysD [OF extends_installation q])
    from run2 \<open>\<not> blocked\<close> q have run3: "(case q of
          Inr True \<Rightarrow> ?go 0 False
        | Inr False \<Rightarrow> scan_outcome failed False False
        | Inl x \<Rightarrow> (case x of
            OperationStopped \<Rightarrow> stopped_outcome failed
          | RecoveryDeferred _ \<Rightarrow> ?go 0 True
          | QuotaExhausted _ \<Rightarrow> ?go 0 True
          | GitHubRateLimit n g \<Rightarrow> seq (message_of x) (\<lambda>m.
              seq (do_backpressure (if g then None else Some i) m n) (\<lambda>_. ?go 1 False))
          | Cancelled \<Rightarrow> raise_exc Cancelled
          | _ \<Rightarrow> ?go 1 False)) en v = (Inr r, w')"
      by (simp only: if_False seq_attempt [where m = "reconcile_installation st worker i", OF q])
    have q': "q = Inr True"
    proof (cases q)
      case (Inl x)
      have no: "\<not> (seq (message_of x) (\<lambda>m. seq (do_backpressure s m n) (\<lambda>_. ?go 1 False))) en v = (Inr r, w')" for s n
        using never [of 1 False] by (auto simp: runs_seq)
      from run3 Inl show ?thesis
        using never [of 1 False v] never [of 0 True v] no stopped_outcome_incomplete [of failed en v r w'] assms(2)
        by (cases x) (auto simp: runs_pure)
    next
      case (Inr ok)
      show ?thesis
      proof (cases ok)
        case False
        with run3 Inr q reconcile_installation_halted [of st worker i en u v] assms(2) show ?thesis
          by (auto dest: scan_outcome_runs)
      qed (use Inr in simp)
    qed
    with run3 have "reconcile_installations st worker failed deferred is' en v = (Inr r, w')" by simp
    note rest = cont [OF this extends_trans [OF eu ev]]
    have "installation_covered st i en u v" using reconcile_installation_runs q q' by blast
    moreover have "extends v w'" by (rule obeysD [OF extends_installations \<open>reconcile_installations st worker failed deferred is' en v = (Inr r, w')\<close>])
    ultimately have "installation_covered st i en w w'"
      by (rule installation_covered_between [OF _ eu])
    with rest p show ?thesis by auto
  qed
qed

end
