(* ===== verification/Reconciler_Properties.thy ===== *)
theory Reconciler_Properties
  imports Reconciler_Facts Fan_Out_Properties
begin

text \<open>
  The promise of one successful iteration of the reconciler, and a scan in which it is met.
\<close>

section \<open>The iteration\<close>








section \<open>The property\<close>







end
