(* ===== verification/App.thy ===== *)
theory App
  imports Worker_Calls Webhooks Service
begin

text \<open>
  The handlers of \<open>extra_codeowners/app.py\<close>: the webhook endpoint, from the bytes of a request
  to the answer that GitHub gets, the renewable proof of the App identity, and the two health
  endpoints. A handler runs in the world of \<open>Effects\<close>; what the framework hands it (headers,
  the chunks of the body) is its argument. An \<open>HTTPException\<close> is an answer like any other; an
  exception that escapes the handler is an answer with status 500 by the framework, and stays an
  exception here. Log messages, tracing and metrics are left out.
\<close>

section \<open>Requests and answers\<close>

record receiver =
  rv_secret :: "string option"
  rv_app_id :: "int option"
  rv_hmac :: "string \<Rightarrow> string \<Rightarrow> string"
  rv_loads :: "string \<Rightarrow> json option"
  rv_evaluator :: bool
  rv_trace :: "trusted_trace_context option"

datatype reply = Rejected int string | Acknowledged bool bool

text \<open>\<open>int(text)\<close>: an optional sign and decimal digits, single underscores between them, with
  white space around.\<close>

fun underscored :: "string \<Rightarrow> bool" where
  "underscored [] \<longleftrightarrow> False"
| "underscored [c] \<longleftrightarrow> is_digit c"
| "underscored (c # d # s) \<longleftrightarrow> is_digit c \<and> (if d = CHR ''_'' then underscored s else underscored (d # s))"

definition py_int :: "string \<Rightarrow> int option" where
  "py_int text = (let s = strip text;
       negative = (s \<noteq> [] \<and> hd s = CHR ''-'');
       digits = (if s \<noteq> [] \<and> hd s \<in> {CHR ''-'', CHR ''+''} then tl s else s);
       n = int (parse_nat (filter (\<lambda>c. c \<noteq> CHR ''_'') digits)) in
     if underscored digits then Some (if negative then - n else n) else None)"

definition length_refused :: "string option \<Rightarrow> reply option" where
  "length_refused content_length = (case content_length of None \<Rightarrow> None
     | Some text \<Rightarrow> (case py_int text of
         None \<Rightarrow> Some (Rejected 400 ''invalid Content-Length'')
       | Some n \<Rightarrow> if n < 0 then Some (Rejected 400 ''invalid Content-Length'')
           else if MAX_WEBHOOK_BYTES < n then Some (Rejected 413 ''payload too large'') else None))"

text \<open>The body is collected chunk by chunk; \<open>None\<close> when it exceeds the limit.\<close>

fun collect_body :: "string list \<Rightarrow> string \<Rightarrow> string option" where
  "collect_body [] got = Some got"
| "collect_body (chunk # chunks) got =
     (if MAX_WEBHOOK_BYTES < int (length (got @ chunk)) then None else collect_body chunks (got @ chunk))"

section \<open>The webhook endpoint\<close>

definition header :: "string \<Rightarrow> (string \<times> string) list \<Rightarrow> string option" where
  "header name headers = map_of headers name"

definition interpreted ::
  "settings \<Rightarrow> receiver \<Rightarrow> string \<Rightarrow> (string \<times> string) list \<Rightarrow> string \<Rightarrow> webhook_error + verified_webhook \<times> webhook_request" where
  "interpreted st rv secret headers body =
     bind_result (verify_webhook (rv_hmac rv) (rv_loads rv) body (header ''x-hub-signature-256'' headers)
       (header ''x-github-delivery'' headers) (header ''x-github-event'' headers) secret) (\<lambda>webhook.
     bind_result (evaluation_job (s_policy_path st) (s_org_repo st) (rv_app_id rv) webhook) (\<lambda>work.
       Inr (webhook, case work of
           PullWork q \<Rightarrow> if is_organization_config_repository st (q_repo q) then NoWork else work
         | _ \<Rightarrow> work)))"

definition webhook_failure :: "webhook_error \<Rightarrow> reply svc" where
  "webhook_failure e = (case e of
       WebhookError m \<Rightarrow> ret (Rejected (if contains ''signature'' (lower m) then 401 else 400) m)
     | RequestError q \<Rightarrow> raise_exc (store_error q)
     | PyTypeError \<Rightarrow> raise_exc SvcTypeError)"

text \<open>The acceptance transaction; an authority change also takes the authority lock.\<close>

definition do_accept_delivery ::
  "receiver \<Rightarrow> verified_webhook \<Rightarrow> webhook_request \<Rightarrow> delivery_acceptance svc" where
  "do_accept_delivery rv webhook work = (\<lambda>en w.
     let guard = (case work of AuthorityWork q \<Rightarrow> e_acquire en (w_trace w) (AuthorityGuard (aq_installation q)) = Inr True
                    | _ \<Rightarrow> True) in
     store_run (AcceptDelivery (w_delivery webhook) (w_event webhook) work)
       (\<lambda>now. accept_delivery now guard (w_delivery webhook) (w_event webhook) work (rv_trace rv)) en w)"

definition ask_needs_invalidation :: "string \<Rightarrow> bool svc" where
  "ask_needs_invalidation i = store_read (NeedsInvalidation i) (\<lambda>now d. Inr (delivery_needs_invalidation d i))"

text \<open>\<open>asyncio.wait_for\<close>: the cancellation of the inner coroutine is the time-out.\<close>

definition wait_for :: "'a svc \<Rightarrow> 'a svc" where
  "wait_for m = handle m (\<lambda>x. if x \<noteq> Cancelled then raise_exc x
     else seq (ask_env e_cancelled) (\<lambda>c. raise_exc (if c then Cancelled else OtherFailure ''TimeoutError'')))"

text \<open>A failure of the fast path is recorded at most; the durable work is authoritative.\<close>

definition fast_path_failed :: "int \<Rightarrow> svc_exc \<Rightarrow> unit svc" where
  "fast_path_failed i x = (case x of
       Cancelled \<Rightarrow> raise_exc Cancelled
     | GitHubRateLimit n g \<Rightarrow> seq (message_of x) (\<lambda>m.
         except_exception (do_backpressure (if g then None else Some i) m n) (\<lambda>_. ret ()))
     | _ \<Rightarrow> ret ())"

definition fast_path :: "settings \<Rightarrow> string \<Rightarrow> job_request \<Rightarrow> int option \<Rightarrow> bool \<Rightarrow> bool svc" where
  "fast_path st i q shared queued =
     seq (attempt (wait_for (invalidate_for_trigger st None q shared))) (\<lambda>r. case r of
       Inl x \<Rightarrow> seq (fast_path_failed (q_installation q) x) (\<lambda>_. ret queued)
     | Inr invalidated \<Rightarrow> seq (attempt (do_mark_invalidated i)) (\<lambda>r. case r of
         Inl x \<Rightarrow> seq (fast_path_failed (q_installation q) x) (\<lambda>_. ret (queued \<or> invalidated))
       | Inr _ \<Rightarrow> ret (queued \<or> invalidated)))"

definition revoke_promptly ::
  "settings \<Rightarrow> receiver \<Rightarrow> string \<Rightarrow> job_request \<Rightarrow> delivery_acceptance \<Rightarrow> reply svc" where
  "revoke_promptly st rv i q acc =
     (if \<not> rv_evaluator rv
      then ret (Rejected 503 ''delivery was stored, but check revocation is temporarily unavailable'')
      else seq (ask_provider_blocked (Some (q_installation q))) (\<lambda>blocked.
        if blocked then ret (Acknowledged (accepted acc) (accepted acc))
        else seq (fast_path st i q (da_shared acc) (accepted acc)) (\<lambda>queued.
          ret (Acknowledged (accepted acc) queued))))"

definition acknowledge ::
  "settings \<Rightarrow> receiver \<Rightarrow> string \<Rightarrow> webhook_request \<Rightarrow> delivery_acceptance \<Rightarrow> reply svc" where
  "acknowledge st rv i work acc = (case work of
       PullWork q \<Rightarrow> seq (if accepted acc then ret True else ask_needs_invalidation i) (\<lambda>needs.
         if needs then revoke_promptly st rv i q acc else ret (Acknowledged (accepted acc) (accepted acc)))
     | _ \<Rightarrow> ret (Acknowledged (accepted acc) (accepted acc)))"

definition deliver :: "settings \<Rightarrow> receiver \<Rightarrow> verified_webhook \<Rightarrow> webhook_request \<Rightarrow> reply svc" where
  "deliver st rv webhook work =
     (if work = NoWork then ret (Acknowledged True False)
      else seq (attempt (do_accept_delivery rv webhook work)) (\<lambda>r. case r of
        Inl x \<Rightarrow> if x = Cancelled then raise_exc x
          else ret (Rejected 503 ''delivery could not be durably accepted; redeliver it after recovery'')
      | Inr acc \<Rightarrow> acknowledge st rv (w_delivery webhook) work acc))"

definition github_webhook ::
  "settings \<Rightarrow> receiver \<Rightarrow> (string \<times> string) list \<Rightarrow> string list \<Rightarrow> reply svc" where
  "github_webhook st rv headers chunks = (case rv_secret rv of
       None \<Rightarrow> ret (Rejected 503 ''webhook receiver is not configured'')
     | Some secret \<Rightarrow> (case length_refused (header ''content-length'' headers) of
         Some answer \<Rightarrow> ret answer
       | None \<Rightarrow> (case collect_body chunks [] of
           None \<Rightarrow> ret (Rejected 413 ''payload too large'')
         | Some body \<Rightarrow> (case interpreted st rv secret headers body of
             Inl e \<Rightarrow> webhook_failure e
           | Inr (webhook, work) \<Rightarrow> deliver st rv webhook work))))"

section \<open>The identity proof\<close>

record probe =
  p_last :: "int option"
  p_freshness :: int

definition proof_fresh :: "int \<Rightarrow> probe \<Rightarrow> bool" where
  "proof_fresh now p \<longleftrightarrow> (case p_last p of None \<Rightarrow> False | Some t \<Rightarrow> now - t \<le> p_freshness p)"

definition verify_app_identity :: "settings \<Rightarrow> unit svc" where
  "verify_app_identity st = seq (ask_obj GetApp) (\<lambda>response.
     if as_int (get_key ''id'' response) = Some (s_app_id st) then ret ()
     else raise_exc (GitHubError ''authenticated GitHub App identity does not match the configured App ID''))"

text \<open>The result is the probe after the attempt and whether it succeeded; a failure keeps an
  earlier proof. The monotonic clock is read at the moment of success.\<close>

definition refresh_probe :: "settings \<Rightarrow> probe \<Rightarrow> (probe \<times> bool) svc" where
  "refresh_probe st p =
     seq (attempt (seq (ask_provider_blocked None) (\<lambda>blocked. if blocked then ret False
        else seq (verify_app_identity st) (\<lambda>_. ret True)))) (\<lambda>r. case r of
       Inr True \<Rightarrow> seq (ask_env e_clock) (\<lambda>now. ret (p\<lparr>p_last := Some now\<rparr>, True))
     | Inr False \<Rightarrow> ret (p, False)
     | Inl Cancelled \<Rightarrow> raise_exc Cancelled
     | Inl (GitHubRateLimit n g) \<Rightarrow> seq (message_of (GitHubRateLimit n g)) (\<lambda>m.
         seq (except_exception (do_backpressure None m n) (\<lambda>_. ret ())) (\<lambda>_. ret (p, False)))
     | Inl _ \<Rightarrow> ret (p, False))"

section \<open>Health\<close>

text \<open>A background task: not started, running, or ended.\<close>

datatype task = NotStarted | Running | Ended

record process =
  ps_github :: bool
  ps_github_ready :: bool
  ps_bootstrap :: bool
  ps_worker_enabled :: bool
  ps_reconcile_enabled :: bool
  ps_worker :: task
  ps_reconciler :: task
  ps_probe :: "probe option"

definition alive :: "process \<Rightarrow> bool" where
  "alive ps \<longleftrightarrow> (\<not> (ps_worker_enabled ps \<and> ps_github ps) \<or> ps_worker ps = Running) \<and>
     (\<not> (ps_reconcile_enabled ps \<and> ps_github ps) \<or> ps_reconciler ps = Running)"

definition ready_state :: "int \<Rightarrow> bool \<Rightarrow> process \<Rightarrow> bool" where
  "ready_state now database_ready ps \<longleftrightarrow>
     (ps_github_ready ps \<and> (case ps_probe ps of None \<Rightarrow> False | Some p \<Rightarrow> proof_fresh now p) \<or> ps_bootstrap ps) \<and>
     database_ready \<and>
     (ps_bootstrap ps \<or> \<not> ps_worker_enabled ps \<or> ps_worker ps = Running) \<and>
     (ps_bootstrap ps \<or> \<not> ps_reconcile_enabled ps \<or> ps_reconciler ps = Running)"

definition health_status :: "bool \<Rightarrow> int" where
  "health_status ok = (if ok then 200 else 503)"

end
