(* ===== verification/App_Facts.thy ===== *)
theory App_Facts
  imports App Webhook_Facts Fan_Out_Facts Service_Sample
begin

text \<open>
  What the HTTP boundary promises: a request that is not authentic moves nothing, a delivery is
  acknowledged only after the queue has accepted it, whatever becomes of the fast path to
  GitHub, and a fresh identity proof rests on an answer of GitHub.
\<close>

section \<open>The body\<close>

lemma collect_body_concat:
  "collect_body chunks got = Some body \<Longrightarrow> body = got @ concat chunks \<and> (int (length got) \<le> MAX_WEBHOOK_BYTES \<longrightarrow> int (length body) \<le> MAX_WEBHOOK_BYTES)"
  by (induction chunks got rule: collect_body.induct) (auto split: if_splits)

lemma verified_signature:
  "verify_webhook f loads body sig i ev secret = Inr hook \<Longrightarrow>
     sig = Some (''sha256='' @ f secret body) \<and> i = Some (w_delivery hook) \<and> ev = Some (w_event hook) \<and>
     loads body = Some (JObj (w_payload hook))"
  by (auto simp: verify_webhook_def split: if_splits option.splits)

lemma interpreted_pull:
  assumes "interpreted st rv secret headers body = Inr (hook, PullWork q)"
  shows "evaluation_job (s_policy_path st) (s_org_repo st) (rv_app_id rv) hook = Inr (PullWork q)"
proof -
  from assms obtain work where "evaluation_job (s_policy_path st) (s_org_repo st) (rv_app_id rv) hook = Inr work"
    and "(case work of PullWork q \<Rightarrow> if is_organization_config_repository st (q_repo q) then NoWork else work | _ \<Rightarrow> work) = PullWork q"
    by (auto simp: interpreted_def)
  then show ?thesis by (cases work) (auto split: if_splits)
qed

text \<open>A request that the endpoint interprets: signed with the secret over exactly the bytes that
  arrived, within the limit.\<close>

definition authentic_request ::
  "settings \<Rightarrow> receiver \<Rightarrow> (string \<times> string) list \<Rightarrow> string list \<Rightarrow> verified_webhook \<Rightarrow> webhook_request \<Rightarrow> bool" where
  "authentic_request st rv headers chunks hook work \<longleftrightarrow> (\<exists>secret. rv_secret rv = Some secret \<and>
     int (length (concat chunks)) \<le> MAX_WEBHOOK_BYTES \<and>
     header ''x-hub-signature-256'' headers = Some (''sha256='' @ rv_hmac rv secret (concat chunks)) \<and>
     header ''x-github-delivery'' headers = Some (w_delivery hook) \<and>
     rv_loads rv (concat chunks) = Some (JObj (w_payload hook)) \<and>
     interpreted st rv secret headers (concat chunks) = Inr (hook, work))"

lemma webhook_cases:
  assumes "github_webhook st rv headers chunks en w = (r, w')"
  obtains (turned_away) "w' = w" and "\<And>a b. r \<noteq> Inr (Acknowledged a b)"
  | (interpreted) hook work where "authentic_request st rv headers chunks hook work"
      and "deliver st rv hook work en w = (r, w')"
proof (cases "\<exists>secret body hook work. rv_secret rv = Some secret \<and> collect_body chunks [] = Some body \<and>
    length_refused (header ''content-length'' headers) = None \<and> interpreted st rv secret headers body = Inr (hook, work)")
  case False
  with assms show ?thesis
    by (intro turned_away)
      (auto simp: github_webhook_def webhook_failure_def ret_def raise_exc_def length_refused_def
        split: option.splits sum.splits webhook_error.splits if_splits)
next
  case True
  then obtain secret body hook work where s: "rv_secret rv = Some secret" and b: "collect_body chunks [] = Some body"
    and l: "length_refused (header ''content-length'' headers) = None"
    and i: "interpreted st rv secret headers body = Inr (hook, work)" by blast
  from collect_body_concat [OF b] have c: "body = concat chunks" "int (length (concat chunks)) \<le> MAX_WEBHOOK_BYTES"
    by (auto simp: MAX_WEBHOOK_BYTES_def)
  from i obtain v where "verify_webhook (rv_hmac rv) (rv_loads rv) body (header ''x-hub-signature-256'' headers)
       (header ''x-github-delivery'' headers) (header ''x-github-event'' headers) secret = Inr v" and "v = hook"
    by (auto simp: interpreted_def)
  from verified_signature [OF this(1)] this(2) c s i have "authentic_request st rv headers chunks hook work"
    by (simp add: authentic_request_def)
  moreover have "deliver st rv hook work en w = (r, w')" using assms s b l i by (simp add: github_webhook_def)
  ultimately show ?thesis by (rule interpreted)
qed

text \<open>C7. Only GitHub moves the service: a webhook request that changes anything (a row of the queue, a
  call of GitHub) or is acknowledged carries the HMAC, under the configured secret, of exactly
  the bytes that arrived, and their JSON is the payload that was interpreted; and what changes
  anything is work, not an ignored event (which is acknowledged when it is authentic, and
  changes nothing).\<close>

theorem only_authentic_requests_act:
  assumes "github_webhook st rv headers chunks en w = (r, w')"
    and "w' \<noteq> w \<or> (\<exists>a b. r = Inr (Acknowledged a b))"
  shows "\<exists>hook work. authentic_request st rv headers chunks hook work \<and> (w' \<noteq> w \<longrightarrow> work \<noteq> NoWork)"
  using assms(1)
proof (cases rule: webhook_cases)
  case turned_away
  with assms(2) show ?thesis by blast
next
  case (interpreted hook work)
  then have "w' = w" if "work = NoWork" using that by (simp add: deliver_def ret_def)
  with interpreted(1) show ?thesis by blast
qed

definition sample_receiver :: receiver where
  "sample_receiver = \<lparr>rv_secret = Some ''s'', rv_app_id = Some 11, rv_hmac = \<lambda>_ _. ''ab'',
     rv_loads = \<lambda>_. Some (JObj (w_payload sample_hook)), rv_evaluator = True, rv_trace = None\<rparr>"

definition sample_headers :: "(string \<times> string) list" where
  "sample_headers = [(''content-length'', ''2''), (''x-hub-signature-256'', ''sha256=ab''), (''x-github-delivery'', ''x1''),
     (''x-github-event'', ''pull_request_review'')]"

definition sample_start :: world where
  "sample_start = \<lparr>w_db = sample_db, w_trace = [], w_budgets = [], w_memo = [], w_queued = 0\<rparr>"

text \<open>GitHub does not answer, so that the fast path fails.\<close>

definition silent_env :: env where
  "silent_env = sample_env\<lparr>e_obj := \<lambda>_ _. Inl (GitHubError ''unavailable'')\<rparr>"

lemma sample_webhook:
  obtains w' where "github_webhook sample_settings sample_receiver sample_headers [''{'', ''}''] silent_env sample_start =
    (Inr (Acknowledged True True), w')" and "w_trace w' \<noteq> []"
proof -
  have "case github_webhook sample_settings sample_receiver sample_headers [''{'', ''}''] silent_env sample_start of
      (r, w') \<Rightarrow> r = Inr (Acknowledged True True) \<and> w_trace w' \<noteq> []" by code_simp
  then show thesis using that by (cases "github_webhook sample_settings sample_receiver sample_headers [''{'', ''}''] silent_env sample_start") simp
qed

theorem only_authentic_requests_act_witness:
  "\<exists>hook work. authentic_request sample_settings sample_receiver sample_headers [''{'', ''}''] hook work \<and> work \<noteq> NoWork"
proof -
  obtain w' where g: "github_webhook sample_settings sample_receiver sample_headers [''{'', ''}''] silent_env sample_start =
      (Inr (Acknowledged True True), w')" and "w_trace w' \<noteq> []" by (rule sample_webhook)
  then have n: "w' \<noteq> sample_start" by (auto simp: sample_start_def)
  from only_authentic_requests_act [OF g disjI1 [OF n]] n show ?thesis by blast
qed

section \<open>Acceptance\<close>

context world_preorder
begin

lemma obeys_invalidate [obeys_intros]: "obeys R (invalidate_for_trigger st None q g)"
proof -
  have e: "obeys R (enrolled_now st None q base)" for base
    unfolding enrolled_now_def by (auto intro!: obeys_intros)
  show ?thesis
    unfolding invalidate_for_trigger_def job_pull_def reset_accepted_head_def queue_live_head_def Let_def
    by (auto intro!: obeys_intros e)
qed

lemma obeys_fast_path_failed [obeys_intros]: "obeys R (fast_path_failed i x)"
  by (cases x) (auto simp: fast_path_failed_def intro!: obeys_intros)

lemma obeys_fast_path [obeys_intros]: "obeys R (fast_path st i q shared queued)"
  unfolding fast_path_def wait_for_def do_mark_invalidated_def by (auto intro!: obeys_intros)

lemma obeys_acknowledge [obeys_intros]: "obeys R (acknowledge st rv i work acc)"
  unfolding acknowledge_def revoke_promptly_def ask_needs_invalidation_def ask_provider_blocked_def
  by (cases work) (auto intro!: obeys_intros)

end

lemma fast_path_answers:
  "revoke_promptly st rv i q acc en w = (Inr (Acknowledged a b), w') \<Longrightarrow> a = accepted acc"
  by (auto simp: revoke_promptly_def runs split: if_splits)

lemma acknowledge_answers:
  "acknowledge st rv i work acc en w = (Inr (Acknowledged a b), w') \<Longrightarrow> a = accepted acc"
  by (auto simp: acknowledge_def runs dest: fast_path_answers split: webhook_request.splits if_splits)

text \<open>The acceptance of a delivery between two worlds.\<close>

definition durably_accepted ::
  "receiver \<Rightarrow> verified_webhook \<Rightarrow> webhook_request \<Rightarrow> env \<Rightarrow> world \<Rightarrow> world \<Rightarrow> db \<Rightarrow> delivery_acceptance \<Rightarrow> bool" where
  "durably_accepted rv hook work en w w' d' acc \<longleftrightarrow> (\<exists>guard.
     happened w w' (StoreEvent (AcceptDelivery (w_delivery hook) (w_event hook) work) (e_clock en (w_trace w))
       (e_interfere en (w_trace w) (w_db w)) None) \<and>
     accept_delivery (e_clock en (w_trace w)) guard (w_delivery hook) (w_event hook) work (rv_trace rv)
       (e_interfere en (w_trace w) (w_db w)) = Inr (d', acc))"

lemma deliver_accepts:
  assumes "deliver st rv hook work en w = (Inr (Acknowledged a b), w')" and "work \<noteq> NoWork"
  obtains d' acc where "durably_accepted rv hook work en w w' d' acc" and "accepted acc = a"
proof -
  obtain r w1 where acc: "do_accept_delivery rv hook work en w = (r, w1)" by (cases "do_accept_delivery rv hook work en w")
  from assms acc obtain x where r: "r = Inr x"
    and rest: "acknowledge st rv (w_delivery hook) work x en w1 = (Inr (Acknowledged a b), w')"
    by (auto simp: deliver_def seq_attempt ret_def raise_exc_def split: sum.splits if_splits)
  have e: "extends w1 w'" by (rule obeysD [OF history.obeys_acknowledge rest])
  from acc r have run: "do_accept_delivery rv hook work en w = (Inr x, w1)" by simp
  note run = run [unfolded do_accept_delivery_def Let_def]
  from store_run_happened [OF run] e have
    "happened w w' (StoreEvent (AcceptDelivery (w_delivery hook) (w_event hook) work) (e_clock en (w_trace w))
       (e_interfere en (w_trace w) (w_db w)) None)" by (rule happened_earlier)
  moreover obtain d' guard where "accept_delivery (e_clock en (w_trace w)) guard (w_delivery hook) (w_event hook) work
       (rv_trace rv) (e_interfere en (w_trace w) (w_db w)) = Inr (d', x)"
    using store_run_ran [OF run] by blast
  ultimately have "durably_accepted rv hook work en w w' d' x" unfolding durably_accepted_def by blast
  moreover from acknowledge_answers [OF rest] have "accepted x = a" by simp
  ultimately show ?thesis by (rule that)
qed

text \<open>C6. An acknowledged webhook is durable: when GitHub is told that a delivery was accepted, and its
  event is not an ignored one, the transaction of the queue that accepts it was committed
  before, with the very answer that GitHub gets, and the failures of the fast path afterwards
  take nothing back. For the first delivery of a pull-request trigger that transaction fences
  its head against every claim of the repository and leaves due work for it.\<close>

theorem acknowledged_webhook_is_durable:
  assumes "github_webhook st rv headers chunks en w = (Inr (Acknowledged a b), w')"
  shows "\<exists>hook work. authentic_request st rv headers chunks hook work \<and> (work = NoWork \<or>
    (\<exists>d' acc. durably_accepted rv hook work en w w' d' acc \<and> accepted acc = a \<and>
      (\<forall>q. work = PullWork q \<and> db_ok (e_interfere en (w_trace w) (w_db w)) \<and>
          find_delivery (e_interfere en (w_trace w) (w_db w)) (w_delivery hook) = None \<longrightarrow> a \<and>
        (\<exists>h. q_head q = Some h \<and> fresh_row (e_clock en (w_trace w)) q d' \<and>
          (\<forall>c. c_installation c = q_installation q \<and> c_repo c = q_repo q \<longrightarrow> \<not> publishable d' c h)))))"
  using assms
proof (cases rule: webhook_cases)
  case (interpreted hook work)
  show ?thesis
  proof (cases "work = NoWork")
    case False
    from deliver_accepts [OF interpreted(2) False] obtain d' acc
      where d: "durably_accepted rv hook work en w w' d' acc" and a: "accepted acc = a" .
    let ?d = "e_interfere en (w_trace w) (w_db w)" and ?now = "e_clock en (w_trace w)"
    have "a \<and> (\<exists>h. q_head q = Some h \<and> fresh_row ?now q d' \<and>
          (\<forall>c. c_installation c = q_installation q \<and> c_repo c = q_repo q \<longrightarrow> \<not> publishable d' c h))"
      if q: "work = PullWork q" and ok: "db_ok ?d" and new: "find_delivery ?d (w_delivery hook) = None" for q
    proof -
      from interpreted(1) [unfolded q] have job: "evaluation_job (s_policy_path st) (s_org_repo st) (rv_app_id rv) hook = Inr (PullWork q)"
        by (auto simp: authentic_request_def dest: interpreted_pull)
      from d q obtain guard where acc: "accept_delivery ?now guard (w_delivery hook) (w_event hook) (PullWork q)
          (rv_trace rv) ?d = Inr (d', acc)" unfolding durably_accepted_def by blast
      note closes = first_trigger_closes [OF ok job new acc]
      from closes [of "undefined\<lparr>c_installation := q_installation q, c_repo := q_repo q\<rparr>"] obtain h where
        h: "q_head q = Some h" "accepted acc" "fresh_row ?now q d'" by auto
      moreover have "\<not> publishable d' c h" if "c_installation c = q_installation q" and "c_repo c = q_repo q" for c
        using closes [OF that] h(1) by auto
      ultimately show ?thesis using a by blast
    qed
    with interpreted(1) d a show ?thesis by blast
  qed (use interpreted(1) in blast)
qed blast

theorem acknowledged_webhook_is_durable_witness:
  "\<exists>d' acc hook q w' h. durably_accepted sample_receiver hook (PullWork q) silent_env sample_start w' d' acc \<and>
     accepted acc \<and> q_head q = Some h \<and> fresh_row 210 q d' \<and> \<not> publishable d' (the (snd sample_leased)) h"
proof -
  obtain w' where g: "github_webhook sample_settings sample_receiver sample_headers [''{'', ''}''] silent_env sample_start =
      (Inr (Acknowledged True True), w')" by (rule sample_webhook)
  note world = sample_start_def silent_env_def sample_env_def
  have start: "e_interfere silent_env (w_trace sample_start) (w_db sample_start) = sample_db"
    "e_clock silent_env (w_trace sample_start) = 210" by (simp_all add: world)
  let ?c = "the (snd sample_leased)"
  have "case interpreted sample_settings sample_receiver ''s'' sample_headers ''{}'' of
      Inr (hook, PullWork q) \<Rightarrow> find_delivery sample_db (w_delivery hook) = None \<and>
        c_installation ?c = q_installation q \<and> c_repo ?c = q_repo q | _ \<Rightarrow> False" by code_simp
  then obtain hook q where i: "interpreted sample_settings sample_receiver ''s'' sample_headers ''{}'' = Inr (hook, PullWork q)"
    and new: "find_delivery sample_db (w_delivery hook) = None"
    and c: "c_installation ?c = q_installation q" "c_repo ?c = q_repo q"
    by (auto split: sum.splits prod.splits webhook_request.splits)
  have secret: "rv_secret sample_receiver = Some ''s''" by (simp add: sample_receiver_def)
  have only: "hook' = hook \<and> work = PullWork q"
    if "authentic_request sample_settings sample_receiver sample_headers [''{'', ''}''] hook' work" for hook' work
    using that i by (auto simp: authentic_request_def secret)
  from acknowledged_webhook_is_durable [OF g] only
  obtain d' acc where "durably_accepted sample_receiver hook (PullWork q) silent_env sample_start w' d' acc" "accepted acc"
    and "\<exists>h. q_head q = Some h \<and> fresh_row 210 q d' \<and> \<not> publishable d' ?c h"
    unfolding start using db_ok_sample new c by blast
  then show ?thesis by blast
qed

section \<open>Health\<close>

definition identified :: "settings \<Rightarrow> world \<Rightarrow> world \<Rightarrow> bool" where
  "identified st w w' \<longleftrightarrow> (\<exists>answer. happened w w' (GitEvent GetApp (Inr (AObj answer))) \<and>
     as_int (get_key ''id'' answer) = Some (s_app_id st))"

lemma identity_answer:
  assumes "verify_app_identity st en w = (Inr u, w')"
  shows "identified st w w'"
proof -
  from assms obtain answer where "w' = log_event (GitEvent GetApp (Inr (AObj answer))) w"
    and "as_int (get_key ''id'' answer) = Some (s_app_id st)"
    by (auto simp: verify_app_identity_def ask_obj_def runs simp del: as_int_Some split: if_splits)
  then show ?thesis unfolding identified_def by (metis happened_log)
qed

lemma refresh_identifies:
  assumes "refresh_probe st p en w = (Inr (p', fine), w')"
  shows "p' = p \<and> \<not> fine \<or> fine \<and> identified st w w'"
proof -
  let ?attempt = "seq (ask_provider_blocked None) (\<lambda>blocked. if blocked then ret False
        else seq (verify_app_identity st) (\<lambda>_. ret True))"
  obtain r w1 where t: "?attempt en w = (r, w1)" by (cases "?attempt en w")
  note run = assms [unfolded refresh_probe_def seq_attempt [where m = ?attempt, OF t]]
  show ?thesis
  proof (cases r)
    case (Inr proved)
    show ?thesis
    proof (cases proved)
      case True
      from t Inr True obtain w0 where b: "ask_provider_blocked None en w = (Inr False, w0)"
        and v: "verify_app_identity st en w0 = (Inr (), w1)"
        by (auto simp: runs_seq runs_pure split: if_splits)
      have "obeys extends (ask_provider_blocked None)" by (simp add: ask_provider_blocked_def history.obeys_store)
      from obeysD [OF this b] have "extends w w0" .
      with identity_answer [OF v] have "identified st w w1" unfolding identified_def by (blast intro: happened_later)
      with run Inr True show ?thesis by (auto simp: runs)
    qed (use run Inr in \<open>simp add: runs\<close>)
  next
    case (Inl x)
    with run show ?thesis by (cases x) (auto simp: runs)
  qed
qed

text \<open>Readiness is earned: outside of the setup mode a process is ready only if it is alive, its
  database answers, and the identity of the App was proved within the freshness window; and a
  refresh of the proof makes it fresh only through an answer of GitHub to the App's own
  request that carries the configured App id, so a failed or deferred refresh never extends
  an old proof.\<close>

theorem readiness_rests_on_identity:
  assumes "refresh_probe st p en w = (Inr (p', fine), w')"
    and "ready_state now database ps" and "\<not> ps_bootstrap ps" and "ps_probe ps = Some p'"
  shows "(proof_fresh now p \<or> identified st w w') \<and> alive ps \<and> database \<and> ps_github_ready ps"
  using refresh_identifies [OF assms(1)] assms(2-) by (auto simp: ready_state_def alive_def)

definition identity_env :: env where
  "identity_env = sample_env\<lparr>e_obj := \<lambda>_ _. Inr [(''id'', JInt 11)]\<rparr>"

definition sample_process :: "probe \<Rightarrow> process" where
  "sample_process p = \<lparr>ps_github = True, ps_github_ready = True, ps_bootstrap = False, ps_worker_enabled = True,
     ps_reconcile_enabled = False, ps_worker = Running, ps_reconciler = NotStarted, ps_probe = Some p\<rparr>"

theorem readiness_rests_on_identity_witness:
  "\<exists>w'. identified sample_settings sample_start w' \<and> alive (sample_process \<lparr>p_last = Some 210, p_freshness = 10\<rparr>)"
proof -
  let ?p = "\<lparr>p_last = None, p_freshness = 10\<rparr>" and ?q = "\<lparr>p_last = Some 210, p_freshness = 10\<rparr>"
  have "fst (refresh_probe sample_settings ?p identity_env sample_start) = Inr (?q, True)" by code_simp
  then obtain w' where r: "refresh_probe sample_settings ?p identity_env sample_start = (Inr (?q, True), w')"
    by (metis prod.collapse)
  have c: "ready_state 215 True (sample_process ?q)" "\<not> ps_bootstrap (sample_process ?q)"
    "ps_probe (sample_process ?q) = Some ?q" "\<not> proof_fresh 215 ?p" by code_simp+
  from readiness_rests_on_identity [OF r c(1-3)] c(4) show ?thesis by blast
qed

end
