(* ===== verification/Client.thy ===== *)
theory Client
  imports Complex_Main Effects Discovery_Cache
begin

text \<open>
  The transport of \<open>GitHubClient\<close> in \<open>extra_codeowners/github.py\<close>: one request, with its
  authentication, its charge to the recovery budget, its retries and the classification of
  what GitHub answers. A method is a program over the environment \<open>net_env\<close> and the world
  \<open>net\<close>. The world holds the client's own tables, the budget rows and the log of everything
  sent so far, newest first. The environment answers a request from the log, and says at each
  \<open>await\<close> what the other coroutines of the process did to the tables, and whether the deadline
  or a cancellation ends the wait. The libraries (HTTP, character sets, JSON, the JWT signature,
  \<open>zlib\<close>, the conversion of text to a float or a date) are functions of the environment; a float is a
  rational number. Metrics and tracing are left out.
\<close>

section \<open>Requests, answers and tables\<close>

record response =
  rs_status :: int
  rs_headers :: "(string \<times> string) list"
  rs_body :: string
  rs_url :: string
  rs_sent :: "(string \<times> string) list"

datatype auth = PublicAuth | AppAuth | InstallationAuth int

record request =
  rq_method :: string
  rq_path :: string
  rq_auth :: auth
  rq_params :: "(string \<times> json) list"
  rq_json :: "(string \<times> json) list"
  rq_headers :: "(string \<times> string) list"

record membership =
  m_generation :: int
  m_included :: bool
  m_checked :: int

datatype net_event =
    Admission int bool "budget_error + budget_receipt option"
  | Physical request "svc_exc + response"
  | Observation int core_quota "budget_receipt option"
  | Pause

record client =
  k_tokens :: "(int \<times> string \<times> int) list"
  k_members :: "((int \<times> string) \<times> membership) list"
  k_pages :: cache
  k_compact :: cache

record net =
  n_client :: client
  n_budgets :: budgets
  n_log :: "net_event list"

datatype py_float = Finite rat | NotFinite

record net_env =
  x_send :: "net_event list \<Rightarrow> request \<Rightarrow> svc_exc + response"
  x_others :: "net_event list \<Rightarrow> client \<Rightarrow> client"
  x_budgets :: "net_event list \<Rightarrow> budgets \<Rightarrow> budgets"
  x_interrupt :: "net_event list \<Rightarrow> svc_exc option"
  x_clock :: "net_event list \<Rightarrow> int"
  x_ticks :: "net_event list \<Rightarrow> int"
  x_stop :: "net_event list \<Rightarrow> bool"
  x_jwt :: "net_event list \<Rightarrow> string"
  x_reserve :: "int option"
  x_recovery :: bool
  x_text :: "response \<Rightarrow> string"
  x_loads :: "string \<Rightarrow> json option"
  x_parse :: "string \<Rightarrow> (bool \<times> json) option"
  x_decode :: "string \<Rightarrow> string option"
  x_dumps :: "(string \<times> json) list \<Rightarrow> string"
  x_deflate :: "string \<Rightarrow> string option"
  x_inflate :: "string \<Rightarrow> int \<Rightarrow> (string \<times> bool \<times> string \<times> string) option"
  x_instant :: "string \<Rightarrow> int option"
  x_float :: "string \<Rightarrow> py_float option"
  x_date :: "string \<Rightarrow> rat option"

type_synonym 'a call = "(net_env, net, svc_exc, 'a) program"

section \<open>Steps\<close>

definition ask_net :: "(net_env \<Rightarrow> net_event list \<Rightarrow> 'a) \<Rightarrow> 'a call" where
  "ask_net f = (\<lambda>en w. (Inr (f en (n_log w)), w))"

definition get_client :: "(client \<Rightarrow> 'a) \<Rightarrow> 'a call" where
  "get_client f = (\<lambda>en w. (Inr (f (n_client w)), w))"

definition update_client :: "(client \<Rightarrow> client) \<Rightarrow> unit call" where
  "update_client f = (\<lambda>en w. (Inr (), w\<lparr>n_client := f (n_client w)\<rparr>))"

definition await :: "unit call" where
  "await = (\<lambda>en w. ((case x_interrupt en (n_log w) of None \<Rightarrow> Inr () | Some x \<Rightarrow> Inl x),
     w\<lparr>n_client := x_others en (n_log w) (n_client w)\<rparr>))"

definition note_event :: "net_event \<Rightarrow> net \<Rightarrow> net" where
  "note_event x w = w\<lparr>n_log := x # n_log w\<rparr>"

text \<open>\<open>response.request\<close> is the request that was sent.\<close>

definition transmit :: "request \<Rightarrow> (svc_exc + response) call" where
  "transmit rq = (\<lambda>en w. let r = map_sum id (\<lambda>a. a\<lparr>rs_sent := rq_headers rq\<rparr>) (x_send en (n_log w) rq) in
     (Inr r, note_event (Physical rq r) (w\<lparr>n_client := x_others en (n_log w) (n_client w)\<rparr>)))"

definition raise_if_stopped :: "bool \<Rightarrow> unit call" where
  "raise_if_stopped stop = seq (ask_net x_stop) (\<lambda>s. if stop \<and> s then raise_exc OperationStopped else ret ())"

section \<open>Headers\<close>

text \<open>\<open>headers.get_list\<close> and \<open>headers.get\<close>, which joins repeated fields; the names of a response
  are kept in lower case.\<close>

definition header_list :: "string \<Rightarrow> (string \<times> string) list \<Rightarrow> string list" where
  "header_list name hs = map snd (filter (\<lambda>h. fst h = name) hs)"

definition header_of :: "string \<Rightarrow> (string \<times> string) list \<Rightarrow> string option" where
  "header_of name hs = (if header_list name hs = [] then None else Some (py_join '', '' (header_list name hs)))"

definition success_status :: "response \<Rightarrow> bool" where
  "success_status r \<longleftrightarrow> 200 \<le> rs_status r \<and> rs_status r \<le> 299"

definition without_validators :: "(string \<times> string) list \<Rightarrow> (string \<times> string) list" where
  "without_validators hs = filter (\<lambda>h. lower (fst h) \<notin> {''if-none-match'', ''if-modified-since''}) hs"

section \<open>Failures\<close>

definition response_message :: "net_env \<Rightarrow> response \<Rightarrow> string" where
  "response_message en r = (case x_loads en (rs_body r) of
       Some (JObj body) \<Rightarrow> (case as_str (get_key ''message'' body) of Some m \<Rightarrow> take 1000 m | None \<Rightarrow> take 1000 (x_text en r))
     | _ \<Rightarrow> take 1000 (x_text en r))"

definition finite_delay :: "py_float option \<Rightarrow> rat option" where
  "finite_delay d = (case d of Some (Finite q) \<Rightarrow> Some q | _ \<Rightarrow> None)"

definition now_seconds :: "net_env \<Rightarrow> net_event list \<Rightarrow> rat" where
  "now_seconds en h = of_int (x_clock en h) / 1000000"

text \<open>The delay before the test for a finite value: \<open>None\<close> when no header gives one.\<close>

definition raw_delay :: "net_env \<Rightarrow> net_event list \<Rightarrow> string option \<Rightarrow> string option \<Rightarrow> py_float option" where
  "raw_delay en h retry_after reset =
     (let first = (case retry_after of None \<Rightarrow> None
          | Some s \<Rightarrow> (case x_float en s of Some d \<Rightarrow> Some d
              | None \<Rightarrow> map_option (\<lambda>t. Finite (t - now_seconds en h)) (x_date en s)))
      in case first of Some d \<Rightarrow> Some d
       | None \<Rightarrow> (case reset of None \<Rightarrow> None
           | Some s \<Rightarrow> map_option (\<lambda>d. case d of Finite q \<Rightarrow> Finite (q - now_seconds en h) | NotFinite \<Rightarrow> NotFinite) (x_float en s)))"

definition bounded_retry_delay :: "net_env \<Rightarrow> net_event list \<Rightarrow> string option \<Rightarrow> string option \<Rightarrow> int" where
  "bounded_retry_delay en h retry_after reset =
     max 1 (min (case finite_delay (raw_delay en h retry_after reset) of Some q \<Rightarrow> \<lceil>q\<rceil> | None \<Rightarrow> 60) 86400)"

definition retry_delay :: "net_env \<Rightarrow> net_event list \<Rightarrow> response \<Rightarrow> string \<Rightarrow> int option" where
  "retry_delay en h r message =
     (let retry_after = header_of ''retry-after'' (rs_headers r) in
      if rs_status r = 429 \<or> rs_status r = 403 \<and>
         (retry_after \<noteq> None \<or> header_of ''x-ratelimit-remaining'' (rs_headers r) = Some ''0''
          \<or> contains ''rate limit'' (lower message))
      then Some (bounded_retry_delay en h retry_after (header_of ''x-ratelimit-reset'' (rs_headers r)))
      else None)"

definition api_error :: "net_env \<Rightarrow> net_event list \<Rightarrow> response \<Rightarrow> bool \<Rightarrow> svc_exc" where
  "api_error en h r app = (let message = response_message en r in
     case retry_delay en h r message of
       Some n \<Rightarrow> GitHubRateLimit n (app \<or> rs_status r = 429 \<or> header_of ''retry-after'' (rs_headers r) \<noteq> None)
     | None \<Rightarrow> GitHubApi (rs_status r) message)"

definition raise_api_error :: "response \<Rightarrow> bool \<Rightarrow> 'a call" where
  "raise_api_error r app = seq (ask_net (\<lambda>en h. api_error en h r app)) raise_exc"

section \<open>The recovery budget\<close>

definition budget_errors :: "budget_error \<Rightarrow> svc_exc" where
  "budget_errors e = (case e of BudgetValueError m \<Rightarrow> SvcValueError m
     | RecoveryBudgetDeferred n \<Rightarrow> RecoveryDeferred n | ProviderQuotaExhausted n \<Rightarrow> GitHubRateLimit n False)"

definition charge :: "int \<Rightarrow> int \<Rightarrow> budget_receipt option call" where
  "charge percent i = (\<lambda>en w. let h = n_log w; bs = x_budgets en h (n_budgets w) in
     case admit percent (x_clock en h) (x_clock en h) i (x_recovery en) bs of (bs', r) \<Rightarrow>
       ((case r of Inl e \<Rightarrow> Inl (budget_errors e) | Inr receipt \<Rightarrow> Inr receipt),
        note_event (Admission i (x_recovery en) r) (w\<lparr>n_budgets := bs'\<rparr>)))"

definition admit_request :: "request \<Rightarrow> budget_receipt option call" where
  "admit_request rq = (case rq_auth rq of
       InstallationAuth i \<Rightarrow> if rq_path rq = ''/graphql'' then ret None
         else seq (ask_net (\<lambda>en _. x_reserve en)) (\<lambda>reserve. case reserve of None \<Rightarrow> ret None
           | Some percent \<Rightarrow> seq await (\<lambda>_. charge percent i))
     | _ \<Rightarrow> ret None)"

definition credit :: "int \<Rightarrow> core_quota \<Rightarrow> budget_receipt option \<Rightarrow> unit call" where
  "credit i q receipt = (\<lambda>en w. let h = n_log w; t = x_clock en h in
     case observe t t t i q receipt (x_budgets en h (n_budgets w)) of (bs', r) \<Rightarrow>
       (map_sum budget_errors id r, note_event (Observation i q receipt) (w\<lparr>n_budgets := bs'\<rparr>)))"

text \<open>A rejected token may show the quota of the address, which is not this budget.\<close>

definition observe_quota :: "request \<Rightarrow> response \<Rightarrow> budget_receipt option \<Rightarrow> unit call" where
  "observe_quota rq r receipt =
     (if rs_status r = 401 then ret ()
      else seq (ask_net (\<lambda>en h. quota_from_headers (x_clock en h) (\<lambda>name. header_of name (rs_headers r)))) (\<lambda>quota.
        case (quota, rq_auth rq) of
          (Some q, InstallationAuth i) \<Rightarrow> seq (ask_net (\<lambda>en _. x_reserve en)) (\<lambda>reserve.
            if reserve = None then ret () else seq await (\<lambda>_. credit i q receipt))
        | _ \<Rightarrow> ret ()))"

section \<open>One operation\<close>

record operation =
  op_request :: request
  op_stop :: bool
  op_conditional :: bool
  op_discovery :: bool

definition retries_discovery :: "operation \<Rightarrow> bool" where
  "retries_discovery op \<longleftrightarrow> rq_method (op_request op) = ''GET'' \<and>
     (case rq_auth (op_request op) of InstallationAuth _ \<Rightarrow> True | _ \<Rightarrow> False) \<and> op_discovery op"

definition attempts_of :: "operation \<Rightarrow> nat" where
  "attempts_of op = (if retries_discovery op then 3
     else case rq_auth (op_request op) of InstallationAuth _ \<Rightarrow> 2 | _ \<Rightarrow> 1)"

definition bearer :: "string \<Rightarrow> request \<Rightarrow> request" where
  "bearer token rq = rq\<lparr>rq_headers := AList.update ''Authorization'' (''Bearer '' @ token) (rq_headers rq)\<rparr>"

definition authorized :: "(int \<Rightarrow> string call) \<Rightarrow> request \<Rightarrow> (string option \<times> request) call" where
  "authorized token_of rq = (case rq_auth rq of
       PublicAuth \<Rightarrow> ret (None, rq)
     | AppAuth \<Rightarrow> seq (ask_net x_jwt) (\<lambda>t. ret (Some t, bearer t rq))
     | InstallationAuth i \<Rightarrow> seq (token_of i) (\<lambda>t. ret (Some t, bearer t rq)))"

definition refundable_answer :: "operation \<Rightarrow> request \<Rightarrow> response \<Rightarrow> bool \<Rightarrow> bool" where
  "refundable_answer op rq r stopped \<longleftrightarrow> op_conditional op \<and>
     (case rq_auth rq of InstallationAuth _ \<Rightarrow> True | _ \<Rightarrow> False) \<and> rq_method rq = ''GET'' \<and> rs_status r = 304 \<and>
     (case map_of (rq_headers rq) ''If-None-Match'' of Some v \<Rightarrow> v \<noteq> [] | None \<Rightarrow> False) \<and> \<not> (op_stop op \<and> stopped)"

definition drop_token :: "request \<Rightarrow> string option \<Rightarrow> unit call" where
  "drop_token rq token = (case rq_auth rq of
       InstallationAuth i \<Rightarrow> update_client (\<lambda>k. if map_option fst (map_of (k_tokens k) i) = token \<and> token \<noteq> None
         then k\<lparr>k_tokens := AList.delete i (k_tokens k)\<rparr> else k)
     | _ \<Rightarrow> ret ())"

definition transient_status :: "response \<Rightarrow> bool" where
  "transient_status r \<longleftrightarrow> rs_status r \<in> {500, 502, 503, 504} \<and> header_of ''retry-after'' (rs_headers r) = None"

text \<open>One physical attempt inside the request permit: \<open>None\<close> is a connection that broke and may be
  tried again; its charge stays.\<close>

definition exchange :: "operation \<Rightarrow> bool \<Rightarrow> request \<Rightarrow> response option call" where
  "exchange op tolerant rq =
     seq await (\<lambda>_. seq (admit_request rq) (\<lambda>receipt. seq (transmit rq) (\<lambda>r. case r of
       Inl x \<Rightarrow> if x = RemoteProtocol \<and> tolerant then ret None else raise_exc x
     | Inr answer \<Rightarrow> seq (ask_net x_stop) (\<lambda>stopped.
         seq (observe_quota rq answer (if refundable_answer op rq answer stopped then receipt else None)) (\<lambda>_.
           ret (Some answer))))))"

definition pause_before_retry :: "unit call" where
  "pause_before_retry = seq await (\<lambda>_ en w. (Inr (), note_event Pause w))"

definition rejected_token :: "request \<Rightarrow> response option \<Rightarrow> bool" where
  "rejected_token rq answer \<longleftrightarrow> (case (answer, rq_auth rq) of
     (Some r, InstallationAuth _) \<Rightarrow> rs_status r = 401 | _ \<Rightarrow> False)"

text \<open>The attempts that are left, whether this is the first one, whether the token was refreshed
  and whether a transient failure was retried.\<close>

fun api_attempts ::
  "(int \<Rightarrow> string call) \<Rightarrow> operation \<Rightarrow> nat \<Rightarrow> bool \<Rightarrow> bool \<Rightarrow> bool \<Rightarrow> response call" where
  "api_attempts token_of op 0 first refreshed transient = raise_exc AssertionFailed"
| "api_attempts token_of op (Suc n) first refreshed transient =
     seq (raise_if_stopped (op_stop op)) (\<lambda>_.
     let rq = op_request op; plain = (if first then rq else rq\<lparr>rq_headers := without_validators (rq_headers rq)\<rparr>) in
     seq (authorized token_of plain) (\<lambda>(token, signed).
     seq (raise_if_stopped (op_stop op)) (\<lambda>_.
     seq (exchange op (retries_discovery op \<and> \<not> transient \<and> 0 < n) signed) (\<lambda>answer.
     seq (raise_if_stopped (op_stop op)) (\<lambda>_.
       if rejected_token rq answer \<and> \<not> refreshed
       then seq (drop_token rq token) (\<lambda>_. api_attempts token_of op n False True transient)
       else case answer of
         None \<Rightarrow> seq pause_before_retry (\<lambda>_. seq (raise_if_stopped (op_stop op)) (\<lambda>_.
           api_attempts token_of op n False refreshed True))
       | Some r \<Rightarrow> if retries_discovery op \<and> \<not> transient \<and> transient_status r \<and> 0 < n
           then seq pause_before_retry (\<lambda>_. seq (raise_if_stopped (op_stop op)) (\<lambda>_.
             api_attempts token_of op n False refreshed True))
           else ret r)))))"

text \<open>The deadline of the whole operation, and how its expiry is reported.\<close>

definition within_deadline :: "bool \<Rightarrow> 'a call \<Rightarrow> 'a call" where
  "within_deadline stop m = handle m (\<lambda>x. if x = DeadlineExceeded \<or> x = HttpTimeout
     then seq (ask_net x_stop) (\<lambda>s. raise_exc (if stop \<and> s then OperationStopped
       else if x = HttpTimeout then HttpTimeout
       else GitHubError ''GitHub API request exceeded its wall-clock deadline''))
     else raise_exc x)"

definition api_response_with :: "(int \<Rightarrow> string call) \<Rightarrow> operation \<Rightarrow> response call" where
  "api_response_with token_of op =
     within_deadline (op_stop op) (api_attempts token_of op (attempts_of op) True False False)"

section \<open>Objects\<close>

definition not_json :: svc_exc where "not_json = OtherFailure ''JSONDecodeError''"

definition object_of :: "operation \<Rightarrow> bool \<Rightarrow> response \<Rightarrow> obj call" where
  "object_of op allow_not_found r =
     (if allow_not_found \<and> rs_status r = 404 then ret []
      else if success_status r then
        if rs_status r = 204 \<or> rs_body r = [] then ret []
        else seq (ask_net (\<lambda>en _. x_loads en (rs_body r))) (\<lambda>v. case v of
            None \<Rightarrow> raise_exc not_json
          | Some (JObj ob) \<Rightarrow> ret ob
          | Some _ \<Rightarrow> raise_exc (GitHubError ''expected object response''))
      else raise_api_error r (rq_auth (op_request op) = AppAuth))"

definition request_with :: "(int \<Rightarrow> string call) \<Rightarrow> operation \<Rightarrow> bool \<Rightarrow> obj call" where
  "request_with token_of op allow_not_found =
     seq (api_response_with token_of op) (object_of op allow_not_found)"

section \<open>Installation tokens\<close>

definition plain_operation :: "string \<Rightarrow> string \<Rightarrow> auth \<Rightarrow> (string \<times> json) list \<Rightarrow> bool \<Rightarrow> operation" where
  "plain_operation verb path who body stop = \<lparr>op_request = \<lparr>rq_method = verb, rq_path = path, rq_auth = who,
     rq_params = [], rq_json = body, rq_headers = []\<rparr>, op_stop = stop, op_conditional = False, op_discovery = False\<rparr>"

definition usable_token :: "int \<Rightarrow> (string \<times> int) option \<Rightarrow> string option" where
  "usable_token now cached = (case cached of Some (t, expires) \<Rightarrow> if now + seconds 300 < expires then Some t else None
     | None \<Rightarrow> None)"

definition new_token :: "bool \<Rightarrow> int \<Rightarrow> string call" where
  "new_token stop i =
     seq (request_with (\<lambda>_. raise_exc AssertionFailed) (plain_operation ''POST''
       (''/app/installations/'' @ show_int i @ ''/access_tokens'') AppAuth
       [(''permissions'', JObj [(''checks'', JStr ''write''), (''contents'', JStr ''read''), (''members'', JStr ''read''),
         (''pull_requests'', JStr ''read'')])] stop) False) (\<lambda>ob.
     seq (raise_if_stopped stop) (\<lambda>_. case (get_key ''token'' ob, get_key ''expires_at'' ob) of
         (JStr token, JStr expires_at) \<Rightarrow> seq (ask_net (\<lambda>en _. x_instant en expires_at)) (\<lambda>t. case t of
             None \<Rightarrow> raise_exc (SvcValueError ''Invalid isoformat string'')
           | Some t \<Rightarrow> seq (update_client (\<lambda>k. k\<lparr>k_tokens := AList.update i (token, t) (k_tokens k)\<rparr>)) (\<lambda>_. ret token))
       | _ \<Rightarrow> raise_exc (GitHubError ''installation-token response omitted token or expiry'')))"

definition installation_token :: "bool \<Rightarrow> int \<Rightarrow> string call" where
  "installation_token stop i =
     seq (raise_if_stopped stop) (\<lambda>_.
     seq (get_client (\<lambda>k. map_of (k_tokens k) i)) (\<lambda>cached.
     seq (ask_net x_clock) (\<lambda>now. case usable_token now cached of
         Some t \<Rightarrow> ret t
       | None \<Rightarrow> seq await (\<lambda>_.
         seq (raise_if_stopped stop) (\<lambda>_.
         seq (get_client (\<lambda>k. map_of (k_tokens k) i)) (\<lambda>cached. case usable_token now cached of
             Some t \<Rightarrow> ret t
           | None \<Rightarrow> new_token stop i))))))"

definition api_response :: "operation \<Rightarrow> response call" where
  "api_response op = api_response_with (installation_token (op_stop op)) op"

definition request_object :: "operation \<Rightarrow> bool \<Rightarrow> obj call" where
  "request_object op allow_not_found = request_with (installation_token (op_stop op)) op allow_not_found"

end
