(* ===== verification/Client_Links.thy ===== *)
theory Client_Links
  imports Client
begin

text \<open>
  Pagination in \<open>extra_codeowners/github.py\<close>: the \<open>Link\<close> header, the comparison of its target
  with the request, and the decision whether another page exists. URLs are split as
  \<open>urllib.parse\<close> does; two of its parts are parameters, the validity of an IP literal and the
  decoding of UTF-8 with replacement.
\<close>

section \<open>The Link header\<close>

definition malformed_link :: svc_exc where
  "malformed_link = GitHubError ''GitHub pagination Link header is malformed''"

text \<open>The scanner: the part so far (reversed), inside a URL, inside a quotation, after a
  backslash.\<close>

fun split_link_from :: "string \<Rightarrow> bool \<Rightarrow> bool \<Rightarrow> bool \<Rightarrow> string \<Rightarrow> svc_exc + string list" where
  "split_link_from got url quoted escaped [] =
     (if url \<or> quoted \<or> escaped then Inl malformed_link
      else if strip (rev got) = [] then Inl malformed_link else Inr [strip (rev got)])"
| "split_link_from got url quoted escaped (c # s) =
     (if quoted then
        (if escaped then split_link_from (c # got) url True False s
         else if c = backslash then split_link_from (c # got) url True True s
         else split_link_from (c # got) url (c \<noteq> dquote) False s)
      else if c = dquote then split_link_from (c # got) url True escaped s
      else if c = CHR ''<'' then if url then Inl malformed_link else split_link_from (c # got) True False escaped s
      else if c = CHR ''>'' then if url then split_link_from (c # got) False False escaped s else Inl malformed_link
      else if c = CHR '','' \<and> \<not> url then
        if strip (rev got) = [] then Inl malformed_link
        else bind_result (split_link_from [] False False escaped s) (\<lambda>parts. Inr (strip (rev got) # parts))
      else split_link_from (c # got) url False escaped s)"

definition split_link_header :: "string \<Rightarrow> svc_exc + string list" where
  "split_link_header value = split_link_from [] False False False value"

definition token_char :: "char \<Rightarrow> bool" where
  "token_char c \<longleftrightarrow> is_digit c \<or> is_lower_ascii c \<or> is_upper_ascii c \<or> c \<in> set ''!#$%&*+-.^_`|~'' \<or> c = CHR 0x27"

text \<open>The regular expression of one parameter, whose pieces exclude each other: the name, the
  value after unescaping, and the rest.\<close>

fun quoted_text :: "string \<Rightarrow> (string \<times> string) option" where
  "quoted_text [] = None"
| "quoted_text (c # s) =
     (if c = dquote then Some ([], s)
      else if c = backslash then (case s of [] \<Rightarrow> None
        | d # t \<Rightarrow> if d = newline then None else map_option (\<lambda>(v, r). (d # v, r)) (quoted_text t))
      else map_option (\<lambda>(v, r). (c # v, r)) (quoted_text s))"

definition bare_char :: "char \<Rightarrow> bool" where
  "bare_char c \<longleftrightarrow> c \<noteq> CHR '';'' \<and> c \<noteq> CHR '','' \<and> \<not> is_space c"

definition bare_text :: "string \<Rightarrow> (string \<times> string) option" where
  "bare_text s = (if takeWhile bare_char s = [] then None else Some (takeWhile bare_char s, dropWhile bare_char s))"

definition link_parameter :: "string \<Rightarrow> (string \<times> string \<times> string) option" where
  "link_parameter s = (case s of [] \<Rightarrow> None
     | c # s1 \<Rightarrow> if c \<noteq> CHR '';'' then None
         else (let s2 = lstrip s1; name = takeWhile token_char s2; s3 = lstrip (dropWhile token_char s2) in
           if name = [] then None
           else (case s3 of [] \<Rightarrow> None
             | e # s4 \<Rightarrow> if e \<noteq> CHR ''='' then None
                 else (let s5 = lstrip s4;
                       quoted = (case s5 of [] \<Rightarrow> None | q # t \<Rightarrow> if q = dquote then quoted_text t else None) in
                   map_option (\<lambda>(v, r). (lower name, v, lstrip r))
                     (case quoted of Some p \<Rightarrow> Some p | None \<Rightarrow> bare_text s5)))))"

fun link_parameters :: "nat \<Rightarrow> string \<Rightarrow> (string \<times> string) list \<Rightarrow> svc_exc + (string \<times> string) list" where
  "link_parameters n s known = (if s = [] then Inr known
     else (case n of 0 \<Rightarrow> Inl malformed_link
       | Suc n \<Rightarrow> (case link_parameter s of None \<Rightarrow> Inl malformed_link
         | Some (name, v, rest) \<Rightarrow> if name \<in> fst ` set known
             then Inl (GitHubError ''GitHub pagination Link header repeats a parameter'')
             else link_parameters n rest (known @ [(name, v)]))))"

declare link_parameters.simps [simp del]

definition link_target :: "string \<Rightarrow> (string \<times> string) option" where
  "link_target entry = (case lstrip entry of [] \<Rightarrow> None
     | c # s \<Rightarrow> (let t = takeWhile (\<lambda>c. c \<notin> {CHR ''<'', CHR ''>''}) s;
           rest = dropWhile (\<lambda>c. c \<notin> {CHR ''<'', CHR ''>''}) s in
         if c = CHR ''<'' \<and> t \<noteq> [] \<and> rest \<noteq> [] \<and> hd rest = CHR ''>'' then Some (t, lstrip (tl rest)) else None))"

text \<open>\<open>text.split()\<close>\<close>

fun words_from :: "string \<Rightarrow> string \<Rightarrow> string list" where
  "words_from got [] = (if got = [] then [] else [rev got])"
| "words_from got (c # s) =
     (if is_space c then (if got = [] then words_from [] s else rev got # words_from [] s)
      else words_from (c # got) s)"

definition link_entry :: "string \<Rightarrow> svc_exc + string \<times> bool" where
  \<comment> \<open>the target, and whether it is a next link\<close>
  "link_entry entry = (case link_target entry of None \<Rightarrow> Inl malformed_link
     | Some (target, rest) \<Rightarrow> bind_result (link_parameters (length rest) rest []) (\<lambda>ps.
         Inr (target, ''next'' \<in> set (words_from [] (lower (case map_of ps ''rel'' of None \<Rightarrow> [] | Some v \<Rightarrow> v))))))"

fun next_of_entries :: "string list \<Rightarrow> string option \<Rightarrow> svc_exc + string option" where
  "next_of_entries [] found = Inr found"
| "next_of_entries (e # es) found = bind_result (link_entry e) (\<lambda>(target, is_next).
     if \<not> is_next then next_of_entries es found
     else if found \<noteq> None then Inl (GitHubError ''GitHub pagination Link header has multiple next links'')
     else next_of_entries es (Some target))"

text \<open>\<open>None\<close> is an absent header, \<open>Some None\<close> a header without a next link.\<close>

definition next_link_target :: "response \<Rightarrow> svc_exc + string option option" where
  "next_link_target r = (let values = header_list ''link'' (rs_headers r) in
     if values = [] then Inr None
     else bind_result (split_link_header (py_join '','' values)) (\<lambda>entries.
       bind_result (next_of_entries entries None) (\<lambda>found. Inr (Some found))))"

section \<open>URLs\<close>

record url =
  u_scheme :: string
  u_netloc :: string
  u_path :: string
  u_query :: string
  u_fragment :: string

text \<open>\<open>partition\<close> and \<open>rpartition\<close>: the separator is \<open>None\<close> when it does not occur.\<close>

definition cut_at :: "char \<Rightarrow> string \<Rightarrow> string \<times> string option" where
  "cut_at c s = (takeWhile (\<lambda>x. x \<noteq> c) s, case dropWhile (\<lambda>x. x \<noteq> c) s of [] \<Rightarrow> None | _ # t \<Rightarrow> Some t)"

definition rcut_at :: "char \<Rightarrow> string \<Rightarrow> string option \<times> string" where
  "rcut_at c s = (case cut_at c (rev s) of (after, first) \<Rightarrow> (map_option rev first, rev after))"

definition scheme_char :: "char \<Rightarrow> bool" where
  "scheme_char c \<longleftrightarrow> is_lower_ascii c \<or> is_upper_ascii c \<or> is_digit c \<or> c \<in> set ''+-.''"

definition split_scheme :: "string \<Rightarrow> string \<times> string" where
  "split_scheme s = (case cut_at (CHR '':'') s of
       (name, Some rest) \<Rightarrow> if name \<noteq> [] \<and> (is_lower_ascii (hd name) \<or> is_upper_ascii (hd name)) \<and>
           list_all scheme_char name then (lower name, rest) else ([], s)
     | (name, None) \<Rightarrow> ([], s))"

definition brackets_ok :: "(string \<Rightarrow> bool) \<Rightarrow> string \<Rightarrow> bool" where
  "brackets_ok ip_literal netloc \<longleftrightarrow> (CHR ''['' \<in> set netloc \<longleftrightarrow> CHR '']'' \<in> set netloc) \<and>
     (CHR ''['' \<in> set netloc \<longrightarrow> ip_literal netloc)"

definition url_split :: "(string \<Rightarrow> bool) \<Rightarrow> string \<Rightarrow> url option" where
  "url_split ip_literal text =
     (let s = filter (\<lambda>c. code c \<notin> {9, 10, 13}) (dropWhile (\<lambda>c. code c \<le> 32) text);
          (scheme, rest) = split_scheme s;
          (netloc, rest) = (if startswith ''//'' rest
             then (takeWhile (\<lambda>c. c \<notin> set ''/?#'') (drop 2 rest), dropWhile (\<lambda>c. c \<notin> set ''/?#'') (drop 2 rest))
             else ([], rest));
          (rest, fragment) = cut_at (CHR ''#'') rest;
          (path, query) = cut_at (CHR ''?'') rest;
          text_of = (\<lambda>v. case v of None \<Rightarrow> [] | Some t \<Rightarrow> t)
      in if brackets_ok ip_literal netloc then Some \<lparr>u_scheme = scheme, u_netloc = netloc, u_path = path,
           u_query = text_of query, u_fragment = text_of fragment\<rparr> else None)"

definition user_info :: "url \<Rightarrow> string option" where
  "user_info u = fst (rcut_at (CHR ''@'') (u_netloc u))"

definition has_password :: "url \<Rightarrow> bool" where
  "has_password u \<longleftrightarrow> (case user_info u of None \<Rightarrow> False | Some i \<Rightarrow> snd (cut_at (CHR '':'') i) \<noteq> None)"

definition host_port :: "url \<Rightarrow> string \<times> string option" where
  "host_port u = (let info = snd (rcut_at (CHR ''@'') (u_netloc u)) in
     case cut_at (CHR ''['') info of
       (_, Some bracketed) \<Rightarrow> (case cut_at (CHR '']'') bracketed of
           (host, after) \<Rightarrow> (host, snd (cut_at (CHR '':'') (case after of None \<Rightarrow> [] | Some a \<Rightarrow> a))))
     | (_, None) \<Rightarrow> cut_at (CHR '':'') info)"

definition host_name :: "url \<Rightarrow> string option" where
  "host_name u = (let host = fst (host_port u) in
     if host = [] then None
     else (case cut_at (CHR ''%'') host of (name, None) \<Rightarrow> Some (lower name)
       | (name, Some zone) \<Rightarrow> Some (lower name @ ''%'' @ zone)))"

text \<open>\<open>Inl ()\<close> is the \<open>ValueError\<close> of a malformed port.\<close>

definition port_of :: "url \<Rightarrow> unit + int option" where
  "port_of u = (case snd (host_port u) of None \<Rightarrow> Inr None
     | Some [] \<Rightarrow> Inr None
     | Some p \<Rightarrow> if list_all is_digit p \<and> parse_nat p \<le> 65535 then Inr (Some (int (parse_nat p))) else Inl ())"

definition effective_port :: "url \<Rightarrow> int option \<Rightarrow> int option" where
  "effective_port u p = (case p of Some n \<Rightarrow> Some n
     | None \<Rightarrow> map_of [(''http'', 80), (''https'', 443)] (u_scheme u))"

section \<open>Queries\<close>

definition hex_value :: "char \<Rightarrow> nat option" where
  "hex_value c = (if is_digit c then Some (code c - 48)
     else if 97 \<le> code c \<and> code c \<le> 102 then Some (code c - 87)
     else if 65 \<le> code c \<and> code c \<le> 70 then Some (code c - 55) else None)"

fun percent_decoded :: "string \<Rightarrow> string" where
  "percent_decoded (c # h # l # s) = (case (hex_value h, hex_value l) of
       (Some a, Some b) \<Rightarrow> if c = CHR ''%'' then char_of (16 * a + b) # percent_decoded s else c # percent_decoded (h # l # s)
     | _ \<Rightarrow> c # percent_decoded (h # l # s))"
| "percent_decoded s = s"

fun ascii_runs :: "string \<Rightarrow> (bool \<times> string) list" where
  "ascii_runs [] = []"
| "ascii_runs (c # s) = (case ascii_runs s of
       (b, run) # runs \<Rightarrow> if b = is_ascii c then (b, c # run) # runs else (is_ascii c, [c]) # (b, run) # runs
     | [] \<Rightarrow> [(is_ascii c, [c])])"

definition unquoted :: "(string \<Rightarrow> string) \<Rightarrow> string \<Rightarrow> string" where
  "unquoted utf8 s = (if CHR ''%'' \<notin> set s then s
     else concat (map (\<lambda>(b, run). if b then utf8 (percent_decoded run) else run) (ascii_runs s)))"

definition plus_to_space :: "string \<Rightarrow> string" where
  "plus_to_space = map (\<lambda>c. if c = CHR ''+'' then CHR '' '' else c)"

definition query_pairs :: "(string \<Rightarrow> string) \<Rightarrow> string \<Rightarrow> (string \<times> string) list" where
  "query_pairs utf8 query = map (\<lambda>field. case cut_at (CHR ''='') field of (name, v) \<Rightarrow>
       (unquoted utf8 (plus_to_space name), unquoted utf8 (plus_to_space (case v of None \<Rightarrow> [] | Some t \<Rightarrow> t))))
     (filter (\<lambda>field. field \<noteq> []) (split_on (CHR ''&'') query))"

section \<open>Another page\<close>

definition name_char :: "char \<Rightarrow> bool" where
  "name_char c \<longleftrightarrow> is_lower_ascii c \<or> is_upper_ascii c \<or> is_digit c \<or> c \<in> set ''_.-''"

text \<open>The regular expressions of the named and the numbered repository route: the part after the
  repository, which contains no line feed.\<close>

definition route_suffix :: "string \<Rightarrow> string option" where
  "route_suffix s = (if s \<noteq> [] \<and> hd s = CHR ''/'' \<and> newline \<notin> set s then Some s else None)"

definition named_route :: "string \<Rightarrow> string option" where
  "named_route path = (if \<not> startswith ''/repos/'' path then None
     else (let s = drop 7 path; owner = takeWhile name_char s; t = dropWhile name_char s in
       if owner = [] \<or> t = [] \<or> hd t \<noteq> CHR ''/'' then None
       else (let name = takeWhile name_char (tl t) in
         if name = [] then None else route_suffix (dropWhile name_char (tl t)))))"

definition numbered_route :: "string \<Rightarrow> string option" where
  "numbered_route path = (if \<not> startswith ''/repositories/'' path then None
     else (let s = drop 14 path; n = takeWhile is_digit s in
       if n = [] \<or> hd n = CHR ''0'' then None else route_suffix (dropWhile is_digit s)))"

definition is_github_repository_id_alias :: "string \<Rightarrow> string \<Rightarrow> bool" where
  "is_github_repository_id_alias request_path next_path \<longleftrightarrow>
     named_route request_path \<noteq> None \<and> named_route request_path = numbered_route next_path"

record url_library =
  ul_ip_literal :: "string \<Rightarrow> bool"
  ul_utf8 :: "string \<Rightarrow> string"

definition same_endpoint :: "url \<Rightarrow> int option \<Rightarrow> url \<Rightarrow> int option \<Rightarrow> bool" where
  "same_endpoint target next_port request request_port \<longleftrightarrow>
     u_scheme target \<noteq> [] \<and> u_netloc target \<noteq> [] \<and> user_info target = None \<and> \<not> has_password target \<and>
     u_fragment target = [] \<and> u_scheme target = u_scheme request \<and>
     host_name target \<noteq> None \<and> host_name request \<noteq> None \<and>
     map_option casefold (host_name target) = map_option casefold (host_name request) \<and>
     effective_port target next_port = effective_port request request_port \<and>
     (u_path target = u_path request \<or> is_github_repository_id_alias (u_path request) (u_path target))"

definition page_values :: "(string \<times> string) list \<Rightarrow> string list" where
  "page_values ps = map snd (filter (\<lambda>p. fst p = ''page'') ps)"

definition only_page :: "(string \<times> string) list \<Rightarrow> int \<Rightarrow> bool" where
  "only_page ps n \<longleftrightarrow> (case page_values ps of
     [v] \<Rightarrow> v \<noteq> [] \<and> list_all is_digit v \<and> int (parse_nat v) = n | _ \<Rightarrow> False)"

definition other_fields :: "(string \<times> string) list \<Rightarrow> (string \<times> string) list" where
  "other_fields ps = sort (filter (\<lambda>p. fst p \<noteq> ''page'') ps)"

definition checked_next :: "url_library \<Rightarrow> string \<Rightarrow> string \<Rightarrow> int \<Rightarrow> svc_exc + bool" where
  "checked_next lib target request_url current_page =
     (case (url_split (ul_ip_literal lib) target, url_split (ul_ip_literal lib) request_url) of
       (Some t, Some q) \<Rightarrow> (case (port_of t, port_of q) of
           (Inr tp, Inr qp) \<Rightarrow>
             if \<not> same_endpoint t tp q qp
             then Inl (GitHubError ''GitHub pagination next link does not match the request endpoint'')
             else (let tq = query_pairs (ul_utf8 lib) (u_query t); qq = query_pairs (ul_utf8 lib) (u_query q) in
               if \<not> only_page tq (current_page + 1)
               then Inl (GitHubError ''GitHub pagination next link has an invalid page number'')
               else if \<not> only_page qq current_page
               then Inl (GitHubError ''GitHub pagination request has an invalid page number'')
               else if other_fields tq \<noteq> other_fields qq
               then Inl (GitHubError ''GitHub pagination next link changes the request query'')
               else Inr True)
         | _ \<Rightarrow> Inl (GitHubError ''GitHub pagination next link is invalid''))
     | _ \<Rightarrow> Inl (GitHubError ''GitHub pagination next link is invalid''))"

definition has_next_page :: "url_library \<Rightarrow> response \<Rightarrow> int \<Rightarrow> nat \<Rightarrow> bool \<Rightarrow> svc_exc + bool" where
  "has_next_page lib r current_page items full_page_fallback =
     bind_result (next_link_target r) (\<lambda>target. case target of
       None \<Rightarrow> Inr (full_page_fallback \<and> items = 100)
     | Some None \<Rightarrow> Inr False
     | Some (Some t) \<Rightarrow> checked_next lib t (rs_url r) current_page)"

end
