(* ===== verification/Client_Pages.thy ===== *)
theory Client_Pages
  imports Client_Links
begin

text \<open>
  The listings of \<open>extra_codeowners/github.py\<close>: a discovery page is revalidated with GitHub and
  remembered only after its caller checked it; the loops that follow the pages check that the
  listing is complete. The first argument of a loop bounds its pages: a loop that is still
  listing then is cancelled, as at a shutdown. A page number or count that the code checks for
  being an integer is an integer here.
\<close>

section \<open>Operations by path\<close>

definition path_parts :: "string \<Rightarrow> string list" where
  "path_parts path = split_on (CHR ''/'') path"

definition compact_path :: "string \<Rightarrow> bool" where
  \<comment> \<open>the operations \<open>check.list\<close> and \<open>repository.ref\<close> of \<open>_request_operation\<close>\<close>
  "compact_path path \<longleftrightarrow> (case path_parts path of
     a # b # owner # name # rest \<Rightarrow> a = [] \<and> b = ''repos'' \<and> owner \<noteq> [] \<and> name \<noteq> [] \<and>
       (case rest of
          [x, sha, y] \<Rightarrow> x = ''commits'' \<and> sha \<noteq> [] \<and> y = ''check-runs''
        | x # y # z # branch \<Rightarrow> x = ''git'' \<and> y = ''ref'' \<and> z = ''heads'' \<and> branch \<noteq> [] \<and>
            py_join ''/'' branch \<noteq> [] \<and> newline \<notin> set (py_join ''/'' branch)
        | _ \<Rightarrow> False)
   | _ \<Rightarrow> False)"

section \<open>The discovery cache\<close>

definition the_cache :: "bool \<Rightarrow> client \<Rightarrow> cache" where
  "the_cache slim k = (if slim then k_compact k else k_pages k)"

definition put_cache :: "bool \<Rightarrow> cache \<Rightarrow> client \<Rightarrow> client" where
  "put_cache slim c k = (if slim then k\<lparr>k_compact := c\<rparr> else k\<lparr>k_pages := c\<rparr>)"

fun cache_failure :: "cache_error \<Rightarrow> svc_exc" where
  "cache_failure (CacheValueError m) = SvcValueError m"
| "cache_failure CacheKeyError = OtherFailure ''KeyError''"

definition look_up :: "bool \<Rightarrow> cache_key \<Rightarrow> cache_entry option call" where
  "look_up slim key = (\<lambda>en w. case lookup (x_inflate en) (x_ticks en (n_log w)) key (the_cache slim (n_client w)) of
     (c, _, r) \<Rightarrow> ((case r of Inl e \<Rightarrow> Inl (cache_failure e) | Inr (found, _) \<Rightarrow> Inr found),
       w\<lparr>n_client := put_cache slim c (n_client w)\<rparr>))"

definition forget_page :: "bool \<Rightarrow> cache_key \<Rightarrow> unit call" where
  "forget_page slim key = (\<lambda>en w. case remove_entry key (the_cache slim (n_client w)) of
     Inl e \<Rightarrow> (Inl (cache_failure e), w)
   | Inr c \<Rightarrow> (Inr (), w\<lparr>n_client := put_cache slim c (n_client w)\<rparr>))"

definition store_page :: "bool \<Rightarrow> cache_key \<Rightarrow> cache_entry \<Rightarrow> unit call" where
  "store_page slim key e = (\<lambda>en w. case put (x_deflate en) (x_ticks en (n_log w)) key e (the_cache slim (n_client w)) of
     (c, _, r) \<Rightarrow> ((case r of Inl CacheKeyError \<Rightarrow> Inl (cache_failure CacheKeyError) | _ \<Rightarrow> Inr ()),
       w\<lparr>n_client := put_cache slim c (n_client w)\<rparr>))"

definition discovery_key :: "string \<Rightarrow> int \<Rightarrow> (string \<times> json) list \<Rightarrow> cache_key call" where
  "discovery_key path i params = ask_net (\<lambda>en _. (i, path, x_dumps en params))"

definition discovery_operation ::
  "string \<Rightarrow> int \<Rightarrow> (string \<times> json) list \<Rightarrow> bool \<Rightarrow> cache_entry option \<Rightarrow> operation" where
  "discovery_operation path i params stop cached = \<lparr>op_request = \<lparr>rq_method = ''GET'', rq_path = path,
     rq_auth = InstallationAuth i, rq_params = params, rq_json = [],
     rq_headers = (case cached of None \<Rightarrow> [] | Some e \<Rightarrow> [(''If-None-Match'', ce_etag e)])\<rparr>,
     op_stop = stop, op_conditional = (cached \<noteq> None), op_discovery = True\<rparr>"

text \<open>The page that a \<open>304\<close> stands for: the saved body with the validator and the pagination of the
  answer.\<close>

definition sent_header :: "string \<Rightarrow> response \<Rightarrow> string option" where
  "sent_header name r = map_option snd (find (\<lambda>h. lower (fst h) = name) (rs_sent r))"

definition revalidated :: "cache_entry \<Rightarrow> response \<Rightarrow> response" where
  "revalidated e r = r\<lparr>rs_status := 200, rs_body := ce_body e, rs_headers :=
     (''etag'', case header_of ''etag'' (rs_headers r) of None \<Rightarrow> ce_etag e | Some t \<Rightarrow> t) #
     (''content-type'', ''application/json'') #
     map (Pair ''link'') (if header_list ''link'' (rs_headers r) = [] then ce_links e else header_list ''link'' (rs_headers r)) @
     concat (map (\<lambda>name. case header_of name (rs_headers r) of None \<Rightarrow> [] | Some v \<Rightarrow> [(name, v)]) [''cache-control'', ''vary''])\<rparr>"

definition answered_page :: "bool \<Rightarrow> cache_key \<Rightarrow> cache_entry option \<Rightarrow> response \<Rightarrow> response call" where
  "answered_page slim key cached r =
     (if rs_status r = 304 then (case cached of
          None \<Rightarrow> raise_exc (GitHubError ''GitHub returned 304 without a matching discovery response'')
        | Some e \<Rightarrow> if sent_header ''if-none-match'' r \<noteq> Some (ce_etag e)
            then raise_exc (GitHubError ''GitHub returned 304 without a matching discovery response'')
            else ret (revalidated e r))
      else seq (forget_page slim key) (\<lambda>_. ret r))"

definition discovery_response :: "string \<Rightarrow> int \<Rightarrow> (string \<times> json) list \<Rightarrow> bool \<Rightarrow> response call" where
  "discovery_response path i params stop = (let slim = compact_path path in
     seq (discovery_key path i params) (\<lambda>key.
     seq (look_up slim key) (\<lambda>cached.
     seq (forget_page slim key) (\<lambda>_.
       handle (seq (api_response (discovery_operation path i params stop cached)) (\<lambda>r.
           seq (raise_if_stopped stop) (\<lambda>_. answered_page slim key cached r)))
         (\<lambda>x. seq (forget_page slim key) (\<lambda>_. raise_exc x))))))"

definition storable :: "response \<Rightarrow> bool" where
  "storable r \<longleftrightarrow>
     \<not> list_ex (\<lambda>v. strip v = ''no-store'') (split_on (CHR '','') (lower (case header_of ''cache-control'' (rs_headers r) of None \<Rightarrow> [] | Some v \<Rightarrow> v))) \<and>
     \<not> list_ex (\<lambda>v. strip v = ''*'') (split_on (CHR '','') (case header_of ''vary'' (rs_headers r) of None \<Rightarrow> [] | Some v \<Rightarrow> v)) \<and>
     (case header_of ''etag'' (rs_headers r) of None \<Rightarrow> False | Some t \<Rightarrow> t \<noteq> [])"

definition remember_page :: "string \<Rightarrow> int \<Rightarrow> (string \<times> json) list \<Rightarrow> response \<Rightarrow> unit call" where
  "remember_page path i params r = (let slim = compact_path path in
     seq (discovery_key path i params) (\<lambda>key.
     seq (forget_page slim key) (\<lambda>_.
       if storable r then store_page slim key \<lparr>ce_body = rs_body r,
         ce_etag = (case header_of ''etag'' (rs_headers r) of None \<Rightarrow> [] | Some t \<Rightarrow> t),
         ce_links = header_list ''link'' (rs_headers r)\<rparr>
       else ret ())))"

section \<open>Bodies\<close>

definition parsed_body :: "response \<Rightarrow> json call" where
  "parsed_body r = seq (ask_net (\<lambda>en _. x_loads en (rs_body r))) (\<lambda>v. case v of
     None \<Rightarrow> raise_exc not_json | Some v \<Rightarrow> ret v)"

definition parsed_list :: "response \<Rightarrow> json list call" where
  "parsed_list r = seq (parsed_body r) (\<lambda>v. case as_list v of
     None \<Rightarrow> raise_exc (GitHubError ''expected list response'') | Some vs \<Rightarrow> ret vs)"

text \<open>The items of a page are appended one by one; \<open>limit\<close> is the supported number.\<close>

fun append_items :: "int option \<Rightarrow> obj list \<Rightarrow> json list \<Rightarrow> svc_exc + obj list" where
  "append_items limit got [] = Inr got"
| "append_items limit got (v # vs) = (case as_obj v of
     None \<Rightarrow> Inl (GitHubError ''expected object items'')
   | Some ob \<Rightarrow> (case limit of
       Some n \<Rightarrow> if n < int (length (got @ [ob])) then Inl (PullRequestTooLarge ''exceeded the supported limit'')
         else append_items limit (got @ [ob]) vs
     | None \<Rightarrow> append_items limit (got @ [ob]) vs))"

definition successful :: "bool \<Rightarrow> response \<Rightarrow> unit call" where
  "successful app r = (if success_status r then ret () else raise_api_error r app)"

section \<open>Plain listings\<close>

definition page_query :: "(string \<times> json) list \<Rightarrow> int \<Rightarrow> (string \<times> json) list" where
  "page_query params page = AList.update ''page'' (JInt page) (AList.update ''per_page'' (JInt 100) params)"

definition list_operation :: "string \<Rightarrow> auth \<Rightarrow> (string \<times> json) list \<Rightarrow> bool \<Rightarrow> operation" where
  "list_operation path who params stop = \<lparr>op_request = \<lparr>rq_method = ''GET'', rq_path = path, rq_auth = who,
     rq_params = params, rq_json = [], rq_headers = []\<rparr>, op_stop = stop, op_conditional = False, op_discovery = False\<rparr>"

fun get_list_from ::
  "nat \<Rightarrow> url_library \<Rightarrow> string \<Rightarrow> int \<Rightarrow> (string \<times> json) list \<Rightarrow> int option \<Rightarrow> bool \<Rightarrow> bool \<Rightarrow> int \<Rightarrow> obj list \<Rightarrow> obj list call" where
  "get_list_from 0 lib path i params limit stop conditional page got = raise_exc Cancelled"
| "get_list_from (Suc n) lib path i params limit stop conditional page got =
     (let query = page_query params page in
     seq (raise_if_stopped stop) (\<lambda>_.
     seq (if conditional then discovery_response path i query stop
          else api_response (list_operation path (InstallationAuth i) query stop)) (\<lambda>r.
     seq (raise_if_stopped stop) (\<lambda>_.
     seq (successful False r) (\<lambda>_.
     seq (parsed_list r) (\<lambda>vs.
     seq (of_result (append_items limit got vs)) (\<lambda>got.
     seq (of_result (has_next_page lib r page (length vs) True)) (\<lambda>more.
     seq (if conditional then remember_page path i query r else ret ()) (\<lambda>_.
       if more then get_list_from n lib path i params limit stop conditional (page + 1) got else ret got)))))))))"

definition get_list ::
  "nat \<Rightarrow> url_library \<Rightarrow> string \<Rightarrow> int \<Rightarrow> (string \<times> json) list \<Rightarrow> int option \<Rightarrow> bool \<Rightarrow> bool \<Rightarrow> obj list call" where
  "get_list n lib path i params limit stop conditional = get_list_from n lib path i params limit stop conditional 1 []"

definition get_pull_files :: "nat \<Rightarrow> url_library \<Rightarrow> int \<Rightarrow> string \<Rightarrow> int \<Rightarrow> obj list call" where
  "get_pull_files n lib i repo number =
     seq (get_list n lib (''/repos/'' @ repo @ ''/pulls/'' @ show_int number @ ''/files'') i [] (Some 3000) False False) (\<lambda>items.
       if 3000 \<le> int (length items) then raise_exc (PullRequestTooLarge ''pull request has at least 3000 files'')
       else ret items)"

definition MAX_PULL_REVIEWS :: int where "MAX_PULL_REVIEWS = 1000"

definition get_reviews :: "nat \<Rightarrow> url_library \<Rightarrow> int \<Rightarrow> string \<Rightarrow> int \<Rightarrow> obj list call" where
  "get_reviews n lib i repo number =
     get_list n lib (''/repos/'' @ repo @ ''/pulls/'' @ show_int number @ ''/reviews'') i [] (Some MAX_PULL_REVIEWS) False False"

definition list_commit_pulls :: "nat \<Rightarrow> url_library \<Rightarrow> int \<Rightarrow> string \<Rightarrow> string \<Rightarrow> obj list call" where
  "list_commit_pulls n lib i repo head =
     get_list n lib (''/repos/'' @ repo @ ''/commits/'' @ head @ ''/pulls'') i [] (Some 100) False False"

fun installations_from :: "nat \<Rightarrow> url_library \<Rightarrow> bool \<Rightarrow> int \<Rightarrow> obj list \<Rightarrow> obj list call" where
  "installations_from 0 lib stop page got = raise_exc Cancelled"
| "installations_from (Suc n) lib stop page got =
     seq (raise_if_stopped stop) (\<lambda>_.
     seq (api_response (list_operation ''/app/installations'' AppAuth [(''per_page'', JInt 100), (''page'', JInt page)] stop)) (\<lambda>r.
     seq (raise_if_stopped stop) (\<lambda>_.
     seq (successful True r) (\<lambda>_.
     seq (parsed_list r) (\<lambda>vs.
     seq (of_result (append_items None got vs)) (\<lambda>got.
     seq (of_result (has_next_page lib r page (length vs) True)) (\<lambda>more.
       if more then installations_from n lib stop (page + 1) got else ret got)))))))"

definition list_installations :: "nat \<Rightarrow> url_library \<Rightarrow> bool \<Rightarrow> obj list call" where
  "list_installations n lib stop = installations_from n lib stop 1 []"

section \<open>The check of a commit\<close>

definition reported_checks :: "json \<Rightarrow> svc_exc + bool" where
  "reported_checks v = (case as_obj v of
       None \<Rightarrow> Inl (GitHubError ''check discovery response must be an object'')
     | Some ob \<Rightarrow> (case (as_int (get_key ''total_count'' ob), as_list (get_key ''check_runs'' ob)) of
         (Some count, Some runs) \<Rightarrow>
           if count < 0 then Inl (GitHubError ''check discovery response omitted a valid count or list'')
           else Inr (count \<noteq> 0 \<or> runs \<noteq> [])
       | _ \<Rightarrow> Inl (GitHubError ''check discovery response omitted a valid count or list'')))"

text \<open>Only an empty response is remembered.\<close>

definition has_reconciliation_check ::
  "url_library \<Rightarrow> int \<Rightarrow> int \<Rightarrow> string \<Rightarrow> string \<Rightarrow> string \<Rightarrow> bool \<Rightarrow> bool call" where
  "has_reconciliation_check lib own_id i repo head check_name stop =
     (let path = ''/repos/'' @ repo @ ''/commits/'' @ head @ ''/check-runs'';
          params = [(''check_name'', JStr check_name), (''filter'', JStr ''latest''), (''app_id'', JInt own_id),
            (''per_page'', JInt 100)] in
      seq (discovery_response path i params stop) (\<lambda>r.
      seq (successful False r) (\<lambda>_.
      seq (parsed_body r) (\<lambda>v.
      seq (of_result (reported_checks v)) (\<lambda>reported.
        if reported then ret True
        else seq (of_result (has_next_page lib r 1 0 True)) (\<lambda>another.
          if another then raise_exc (GitHubError ''empty check discovery response has another page'')
          else seq (remember_page path i params r) (\<lambda>_. ret False)))))))"

section \<open>Repositories of an installation\<close>

definition REPOSITORIES_PATH :: string where "REPOSITORIES_PATH = ''/installation/repositories''"

definition last_page_of :: "int \<Rightarrow> int" where
  "last_page_of count = max 1 ((count + 99) div 100)"

definition full_name_re :: "string \<Rightarrow> bool" where
  "full_name_re s \<longleftrightarrow> (case cut_at (CHR ''/'') s of
     (owner, Some name) \<Rightarrow> owner \<noteq> [] \<and> name \<noteq> [] \<and> list_all name_char owner \<and> list_all name_char name
   | _ \<Rightarrow> False)"

fun checked_repositories :: "string list \<Rightarrow> json list \<Rightarrow> svc_exc + obj list" where
  "checked_repositories seen [] = Inr []"
| "checked_repositories seen (v # vs) = (case as_obj v of
     None \<Rightarrow> Inl (GitHubError ''expected object items from GET /installation/repositories'')
   | Some ob \<Rightarrow> (case as_str (get_key ''full_name'' ob) of
       None \<Rightarrow> Inl (GitHubError ''installation repository omitted a valid full_name'')
     | Some name \<Rightarrow>
         if \<not> full_name_re name then Inl (GitHubError ''installation repository omitted a valid full_name'')
         else if casefold name \<in> set seen then Inl (GitHubError ''installation repository page contains duplicate full_name'')
         else if map_of ob ''archived'' \<noteq> None \<and> as_bool (get_key ''archived'' ob) = None
         then Inl (GitHubError ''installation repository archived field must be a boolean'')
         else bind_result (checked_repositories (casefold name # seen) vs) (\<lambda>obs. Inr (ob # obs))))"

record repository_page =
  rp_repositories :: "obj list"
  rp_total :: int
  rp_next :: int

definition beyond_total :: svc_exc where
  "beyond_total = GitHubError ''installation repositories response requested a page beyond total_count''"

definition validated_page ::
  "url_library \<Rightarrow> int \<Rightarrow> int option \<Rightarrow> response \<Rightarrow> json \<Rightarrow> svc_exc + repository_page" where
  "validated_page lib page expected r v = (case as_obj v of
       None \<Rightarrow> Inl (GitHubError ''expected object response from GET /installation/repositories'')
     | Some ob \<Rightarrow> (case as_int (get_key ''total_count'' ob) of
         None \<Rightarrow> Inl (GitHubError ''installation repositories response omitted a nonnegative integer total_count'')
       | Some count \<Rightarrow>
           if count < 0 then Inl (GitHubError ''installation repositories response omitted a nonnegative integer total_count'')
           else if expected \<noteq> None \<and> expected \<noteq> Some count
           then Inl (RepositoriesChanged ''installation repositories changed total_count between durable pages'')
           else (case as_list (get_key ''repositories'' ob) of
               None \<Rightarrow> Inl (GitHubError ''installation repositories response omitted repositories'')
             | Some vs \<Rightarrow>
                 if last_page_of count < page then Inl beyond_total
                 else if int (length vs) \<noteq> min 100 (max 0 (count - (page - 1) * 100))
                 then Inl (GitHubError (if page = last_page_of count then ''installation repositories ended before total_count''
                   else ''installation repositories page count does not match its total_count offset''))
                 else bind_result (checked_repositories [] vs) (\<lambda>repositories.
                   let upcoming = (if page < last_page_of count then page + 1 else 0) in
                   bind_result (has_next_page lib r page (length vs) (upcoming \<noteq> 0)) (\<lambda>more.
                     if more \<noteq> (upcoming \<noteq> 0)
                     then Inl (GitHubError (if more then ''installation repositories has a next page after total_count''
                       else ''installation repositories pagination links disagree with total_count''))
                     else Inr \<lparr>rp_repositories = repositories, rp_total = count, rp_next = upcoming\<rparr>)))))"

definition list_installation_repository_page ::
  "url_library \<Rightarrow> int \<Rightarrow> int \<Rightarrow> int option \<Rightarrow> bool \<Rightarrow> repository_page call" where
  "list_installation_repository_page lib i page expected stop =
     (let query = [(''per_page'', JInt 100), (''page'', JInt page)] in
      if page < 1 then raise_exc (SvcValueError ''page must be a positive integer'')
      else if (case expected of None \<Rightarrow> False | Some t \<Rightarrow> t < 0)
      then raise_exc (SvcValueError ''expected_total must be a nonnegative integer or None'')
      else if (case expected of None \<Rightarrow> False | Some t \<Rightarrow> last_page_of t < page) then raise_exc beyond_total
      else seq (raise_if_stopped stop) (\<lambda>_.
        seq (discovery_response REPOSITORIES_PATH i query stop) (\<lambda>r.
        seq (raise_if_stopped stop) (\<lambda>_.
        seq (successful False r) (\<lambda>_.
        seq (parsed_body r) (\<lambda>v.
        seq (of_result (validated_page lib page expected r v)) (\<lambda>p.
        seq (remember_page REPOSITORIES_PATH i query r) (\<lambda>_. ret p))))))))"

fun repositories_from ::
  "nat \<Rightarrow> url_library \<Rightarrow> int \<Rightarrow> bool \<Rightarrow> int \<Rightarrow> int option \<Rightarrow> obj list \<Rightarrow> obj list call" where
  "repositories_from 0 lib i stop page expected got = raise_exc Cancelled"
| "repositories_from (Suc n) lib i stop page expected got =
     seq (list_installation_repository_page lib i page expected stop) (\<lambda>p.
       if rp_next p = 0 then ret (got @ rp_repositories p)
       else repositories_from n lib i stop (rp_next p) (Some (rp_total p)) (got @ rp_repositories p))"

definition list_installation_repositories :: "nat \<Rightarrow> url_library \<Rightarrow> int \<Rightarrow> bool \<Rightarrow> obj list call" where
  "list_installation_repositories n lib i stop = repositories_from n lib i stop 1 None []"

section \<open>Pull requests in the order of their creation\<close>

record authority_pull_page =
  ap_pulls :: "obj list"
  ap_next :: int
  ap_last :: int

definition pull_fields_ok :: "obj \<Rightarrow> svc_exc + unit" where
  "pull_fields_ok pull =
     (if \<not> (\<exists>u \<in> set_option (as_str (get_key ''updated_at'' pull)). u \<noteq> [])
      then Inl (GitHubError ''stable pull listing contains an invalid updated_at'')
      else if \<not> (\<exists>h \<in> set_option (as_obj (get_key ''head'' pull)). \<exists>s \<in> set_option (as_str (get_key ''sha'' h)). s \<noteq> [])
      then Inl (GitHubError ''stable pull listing contains an invalid head SHA'')
      else if \<not> (\<exists>b \<in> set_option (as_obj (get_key ''base'' pull)). \<exists>s \<in> set_option (as_str (get_key ''ref'' b)). s \<noteq> [])
      then Inl (GitHubError ''stable pull listing contains an invalid base ref'')
      else Inr ())"

fun checked_pulls :: "int list \<Rightarrow> int \<Rightarrow> json list \<Rightarrow> svc_exc + obj list \<times> int" where
  "checked_pulls seen last_number [] = Inr ([], last_number)"
| "checked_pulls seen last_number (v # vs) = (case as_obj v of
     None \<Rightarrow> Inl (GitHubError ''expected object items'')
   | Some pull \<Rightarrow> (case as_int (get_key ''number'' pull) of
       None \<Rightarrow> Inl (GitHubError ''stable pull listing contains an invalid pull request number'')
     | Some number \<Rightarrow>
         if number \<le> 0 then Inl (GitHubError ''stable pull listing contains an invalid pull request number'')
         else if number \<in> set seen then Inl (GitHubError ''stable pull listing contains duplicate pull request numbers'')
         else if as_str (get_key ''state'' pull) \<notin> {Some ''open'', Some ''closed''}
         then Inl (GitHubError ''stable pull listing contains an invalid pull request state'')
         else bind_result (pull_fields_ok pull) (\<lambda>_.
           bind_result (checked_pulls (number # seen) number vs) (\<lambda>(pulls, n).
             Inr (if as_str (get_key ''state'' pull) = Some ''open'' then pull # pulls else pulls, n)))))"

definition authority_query :: "int \<Rightarrow> (string \<times> json) list" where
  "authority_query page = [(''state'', JStr ''all''), (''sort'', JStr ''created''), (''direction'', JStr ''asc''),
     (''per_page'', JInt 100), (''page'', JInt page)]"

definition list_authority_pull_page ::
  "url_library \<Rightarrow> int \<Rightarrow> string \<Rightarrow> int \<Rightarrow> int \<Rightarrow> bool \<Rightarrow> authority_pull_page call" where
  "list_authority_pull_page lib i repo page after_number stop =
     (let path = ''/repos/'' @ repo @ ''/pulls'' in
      if page < 1 then raise_exc (SvcValueError ''page must be a positive integer'')
      else if after_number < 0 then raise_exc (SvcValueError ''after_number must be a nonnegative integer'')
      else seq (raise_if_stopped stop) (\<lambda>_.
        seq (discovery_response path i (authority_query page) stop) (\<lambda>r.
        seq (raise_if_stopped stop) (\<lambda>_.
        seq (successful False r) (\<lambda>_.
        seq (parsed_list r) (\<lambda>vs.
          if 100 < length vs then raise_exc (GitHubError ''stable pull listing page exceeded the 100-item limit'')
          else seq (of_result (checked_pulls [] after_number vs)) (\<lambda>(pulls, last_number).
            seq (of_result (has_next_page lib r page (length vs) True)) (\<lambda>more.
            seq (remember_page path i (authority_query page) r) (\<lambda>_.
              ret \<lparr>ap_pulls = pulls, ap_next = (if more then page + 1 else 0), ap_last = last_number\<rparr>)))))))))"

fun stable_pulls_from ::
  "nat \<Rightarrow> url_library \<Rightarrow> int \<Rightarrow> string \<Rightarrow> bool \<Rightarrow> int \<Rightarrow> int \<Rightarrow> obj list \<Rightarrow> obj list call" where
  "stable_pulls_from 0 lib i repo stop page after_number got = raise_exc Cancelled"
| "stable_pulls_from (Suc n) lib i repo stop page after_number got =
     seq (list_authority_pull_page lib i repo page after_number stop) (\<lambda>p.
       if ap_next p = 0 then ret (got @ ap_pulls p)
       else stable_pulls_from n lib i repo stop (ap_next p) (ap_last p) (got @ ap_pulls p))"

definition list_open_pulls :: "nat \<Rightarrow> url_library \<Rightarrow> int \<Rightarrow> string \<Rightarrow> bool \<Rightarrow> bool \<Rightarrow> obj list call" where
  "list_open_pulls n lib i repo stop twice =
     (if \<not> twice then get_list n lib (''/repos/'' @ repo @ ''/pulls'') i
        [(''state'', JStr ''open''), (''sort'', JStr ''updated''), (''direction'', JStr ''desc'')] None stop True
      else stable_pulls_from n lib i repo stop 1 0 [])"

end
