(* ===== verification/Client_Reads.thy ===== *)
theory Client_Reads
  imports Client_Pages Dco
begin

text \<open>
  The single reads of \<open>extra_codeowners/github.py\<close>: strict JSON, streamed bodies with a size
  limit, the head of a branch, a file, and the cached membership of a repository in an
  installation. \<open>x_parse\<close> is the JSON parser before its two hooks: objects with all their
  pairs, and whether a non-standard constant occurs. \<open>x_decode\<close> is the strict UTF-8 decoder.
\<close>

section \<open>Strict JSON\<close>

definition MAX_JSON_RESPONSE_DEPTH :: nat where "MAX_JSON_RESPONSE_DEPTH = 64"

text \<open>The scanner of \<open>_validate_json_nesting\<close>: the depth, inside a string, after a backslash.\<close>

fun nesting_ok :: "nat \<Rightarrow> bool \<Rightarrow> bool \<Rightarrow> string \<Rightarrow> bool" where
  "nesting_ok depth quoted escaped [] \<longleftrightarrow> True"
| "nesting_ok depth quoted escaped (c # s) \<longleftrightarrow>
     (if quoted then
        (if escaped then nesting_ok depth True False s
         else if c = backslash then nesting_ok depth True True s
         else nesting_ok depth (c \<noteq> dquote) False s)
      else if c = dquote then nesting_ok depth True escaped s
      else if c \<in> {CHR ''['', CHR ''{''} then depth + 1 \<le> MAX_JSON_RESPONSE_DEPTH \<and> nesting_ok (depth + 1) False escaped s
      else if c \<in> {CHR '']'', CHR ''}''} then nesting_ok (depth - 1) False escaped s
      else nesting_ok depth False escaped s)"

definition validate_json_nesting :: "string \<Rightarrow> bool" where
  "validate_json_nesting text = nesting_ok 0 False False text"

fun unique_json_object :: "json \<Rightarrow> bool" where
  "unique_json_object (JObj ob) \<longleftrightarrow> distinct (map fst ob) \<and> (\<forall>p \<in> set ob. unique_json_object (snd p))"
| "unique_json_object (JList vs) \<longleftrightarrow> (\<forall>v \<in> set vs. unique_json_object v)"
| "unique_json_object v \<longleftrightarrow> True"

definition strict_json :: "net_env \<Rightarrow> string \<Rightarrow> json option" where
  "strict_json en body = (case x_decode en body of None \<Rightarrow> None
     | Some text \<Rightarrow> if \<not> validate_json_nesting text then None
         else (case x_parse en text of None \<Rightarrow> None
           | Some (constant, v) \<Rightarrow> if constant \<or> \<not> unique_json_object v then None else Some v))"

section \<open>Streamed bodies\<close>

fun stream_attempts :: "(int \<Rightarrow> string call) \<Rightarrow> operation \<Rightarrow> nat \<Rightarrow> response call" where
  "stream_attempts token_of op 0 = raise_exc AssertionFailed"
| "stream_attempts token_of op (Suc n) =
     seq (authorized token_of (op_request op)) (\<lambda>(token, signed).
     seq (exchange op False signed) (\<lambda>answer.
       if rejected_token (op_request op) answer \<and> 0 < n
       then seq (drop_token (op_request op) token) (\<lambda>_. stream_attempts token_of op n)
       else case answer of None \<Rightarrow> raise_exc AssertionFailed | Some r \<Rightarrow> ret r))"

definition stream_response :: "operation \<Rightarrow> response call" where
  "stream_response op = within_deadline False (stream_attempts (installation_token False) op 2)"

definition bounded_error_response :: "response \<Rightarrow> int \<Rightarrow> response" where
  "bounded_error_response r max_bytes = r\<lparr>rs_body := take (nat (max 0 (min max_bytes 1000))) (rs_body r)\<rparr>"

definition declared_length :: "response \<Rightarrow> int option" where
  "declared_length r = (case header_of ''content-length'' (rs_headers r) of None \<Rightarrow> None
     | Some v \<Rightarrow> if strip v \<noteq> [] \<and> list_all is_digit (strip v) then Some (int (parse_nat (strip v))) else None)"

text \<open>The chunks are added up; the first one that exceeds the limit ends the read.\<close>

definition oversized :: "response \<Rightarrow> int \<Rightarrow> bool" where
  "oversized r max_bytes \<longleftrightarrow> (case declared_length r of None \<Rightarrow> False | Some n \<Rightarrow> max_bytes < n) \<or>
     max_bytes < int (length (rs_body r))"

definition bounded_json_request :: "operation \<Rightarrow> int \<Rightarrow> (json \<times> response) call" where
  "bounded_json_request op max_bytes = seq (stream_response op) (\<lambda>r.
     if \<not> success_status r then raise_api_error (bounded_error_response r 1000) False
     else if oversized r max_bytes then raise_exc (GitHubError ''response exceeds its byte limit'')
     else seq (ask_net (\<lambda>en _. strict_json en (rs_body r))) (\<lambda>v. case v of
         None \<Rightarrow> raise_exc (GitHubError ''expected JSON response'')
       | Some v \<Rightarrow> ret (v, r)))"

definition quote_safe :: "char \<Rightarrow> bool" where
  "quote_safe c \<longleftrightarrow> is_lower_ascii c \<or> is_upper_ascii c \<or> is_digit c \<or> c \<in> set ''_.-~''"

definition hex_digit :: "nat \<Rightarrow> char" where
  "hex_digit n = (if n < 10 then char_of (48 + n) else char_of (55 + n))"

definition percent_byte :: "nat \<Rightarrow> string" where
  "percent_byte n = [CHR ''%'', hex_digit (n div 16), hex_digit (n mod 16)]"

definition quote :: "string \<Rightarrow> string \<Rightarrow> string" where
  \<comment> \<open>\<open>urllib.parse.quote\<close>: the UTF-8 bytes of what is not safe\<close>
  "quote safe s = concat (map (\<lambda>c. if quote_safe c \<or> c \<in> set safe then [c]
     else if code c < 128 then percent_byte (code c)
     else percent_byte (192 + code c div 64) @ percent_byte (128 + code c mod 64)) s)"

definition MAX_CONFIG_BYTES :: int where "MAX_CONFIG_BYTES = 1000000"

definition get_file_text :: "int \<Rightarrow> string \<Rightarrow> string \<Rightarrow> string option \<Rightarrow> int \<Rightarrow> string option call" where
  "get_file_text i repo path ref max_bytes =
     (let op = \<lparr>op_request = \<lparr>rq_method = ''GET'', rq_path = ''/repos/'' @ repo @ ''/contents/'' @ quote ''/'' path,
          rq_auth = InstallationAuth i, rq_params = (case ref of None \<Rightarrow> [] | Some v \<Rightarrow> [(''ref'', JStr v)]), rq_json = [],
          rq_headers = [(''Accept'', ''application/vnd.github.raw+json'')]\<rparr>,
          op_stop = False, op_conditional = False, op_discovery = False\<rparr> in
      seq (stream_response op) (\<lambda>r.
        if rs_status r = 404 then ret None
        else if \<not> success_status r then raise_api_error (bounded_error_response r max_bytes) False
        else if oversized r max_bytes then raise_exc (GitHubError ''file exceeds its byte limit'')
        else seq (ask_net (\<lambda>en _. x_decode en (rs_body r))) (\<lambda>t. case t of
            None \<Rightarrow> raise_exc (GitHubError ''file is not valid UTF-8'') | Some text \<Rightarrow> ret (Some text))))"

section \<open>Objects\<close>

definition get_object :: "string \<Rightarrow> int \<Rightarrow> obj call" where
  "get_object path i = request_object (plain_operation ''GET'' path (InstallationAuth i) [] False) False"

definition get_repository :: "int \<Rightarrow> string \<Rightarrow> obj call" where
  "get_repository i repo = get_object (''/repos/'' @ repo) i"

definition get_pull :: "int \<Rightarrow> string \<Rightarrow> int \<Rightarrow> obj call" where
  "get_pull i repo number = get_object (''/repos/'' @ repo @ ''/pulls/'' @ show_int number) i"

definition get_codeowners_errors :: "int \<Rightarrow> string \<Rightarrow> string \<Rightarrow> obj list call" where
  "get_codeowners_errors i repo ref =
     seq (request_object (list_operation (''/repos/'' @ repo @ ''/codeowners/errors'') (InstallationAuth i)
       [(''ref'', JStr ref)] False) False) (\<lambda>ob. case as_list (get_key ''errors'' ob) of
         None \<Rightarrow> raise_exc (GitHubError ''CODEOWNERS errors response omitted its errors list'')
       | Some vs \<Rightarrow> if list_ex (\<lambda>v. as_obj v = None) vs
           then raise_exc (GitHubError ''CODEOWNERS errors response contained a malformed error'')
           else ret (map (the \<circ> as_obj) vs))"

section \<open>The head of a branch\<close>

definition branch_name_ok :: "string \<Rightarrow> bool" where
  "branch_name_ok branch \<longleftrightarrow> branch \<noteq> [] \<and> length branch \<le> 1024 \<and>
     list_all (\<lambda>part. part \<notin> {[], ''.'', ''..''}) (split_on (CHR ''/'') branch) \<and>
     \<not> list_ex is_ascii_control branch"

definition repository_name_ok :: "string \<Rightarrow> bool" where
  "repository_name_ok repo \<longleftrightarrow> full_name_re repo \<and> list_all (\<lambda>part. part \<notin> {''.'', ''..''}) (split_on (CHR ''/'') repo)"

definition branch_target :: "string \<Rightarrow> json option \<Rightarrow> svc_exc + string" where
  "branch_target branch v = (case v of
       None \<Rightarrow> Inl (GitHubError ''expected JSON target branch reference'')
     | Some v \<Rightarrow> (case as_obj v of
         None \<Rightarrow> Inl (GitHubError ''target branch response did not match the requested reference'')
       | Some ob \<Rightarrow>
           if get_key ''ref'' ob \<noteq> JStr (''refs/heads/'' @ branch)
           then Inl (GitHubError ''target branch response did not match the requested reference'')
           else (case as_obj (get_key ''object'' ob) of
               None \<Rightarrow> Inl (GitHubError ''target branch reference did not identify a commit'')
             | Some target \<Rightarrow> (case as_str (get_key ''sha'' target) of
                 None \<Rightarrow> Inl (GitHubError ''target branch reference did not identify a commit'')
               | Some sha \<Rightarrow>
                   if get_key ''type'' target = JStr ''commit'' \<and> sha_re sha
                   then Inr sha
                   else Inl (GitHubError ''target branch reference did not identify a commit'')))))"

definition get_branch_head :: "int \<Rightarrow> string \<Rightarrow> string \<Rightarrow> bool \<Rightarrow> string call" where
  "get_branch_head i repo branch stop =
     (if \<not> repository_name_ok repo \<or> \<not> branch_name_ok branch
      then raise_exc (GitHubError ''invalid repository or target branch reference'')
      else (let path = ''/repos/'' @ repo @ ''/git/ref/heads/'' @ quote [] branch in
        seq (discovery_response path i [] stop) (\<lambda>r.
        seq (successful False r) (\<lambda>_.
          if 65536 < length (rs_body r) \<or> (case header_of ''link'' (rs_headers r) of None \<Rightarrow> False | Some v \<Rightarrow> v \<noteq> [])
          then raise_exc (GitHubError ''invalid target branch response size or pagination'')
          else seq (ask_net (\<lambda>en _. strict_json en (rs_body r))) (\<lambda>v.
            seq (of_result (branch_target branch v)) (\<lambda>sha.
            seq (raise_if_stopped stop) (\<lambda>_.
            seq (remember_page path i [] r) (\<lambda>_. ret sha))))))))"

section \<open>Membership of a repository in the installation\<close>

definition MEMBERSHIP_TTL :: int where "MEMBERSHIP_TTL = 15 * 60 * 1000000"

definition membership_is_fresh :: "membership option \<Rightarrow> int \<Rightarrow> int \<Rightarrow> bool" where
  "membership_is_fresh m generation now \<longleftrightarrow> (case m of None \<Rightarrow> False
     | Some m \<Rightarrow> m_generation m = generation \<and> now < m_checked m + MEMBERSHIP_TTL)"

definition lookup_membership :: "int \<Rightarrow> string \<Rightarrow> bool call" where
  "lookup_membership i repo =
     seq (api_response (plain_operation ''GET'' (''/repos/'' @ repo @ ''/installation'') AppAuth [] False)) (\<lambda>r.
       if rs_status r \<in> {301, 308, 404} then ret False
       else if \<not> success_status r then raise_api_error r True
       else seq (ask_net (\<lambda>en _. x_loads en (rs_body r))) (\<lambda>v.
         case (case v of None \<Rightarrow> None | Some v \<Rightarrow> as_obj v) of
           None \<Rightarrow> raise_exc (GitHubError ''expected object response'')
         | Some ob \<Rightarrow> (case as_int (get_key ''id'' ob) of
             None \<Rightarrow> raise_exc (GitHubError ''repository installation response omitted its integer ID'')
           | Some n \<Rightarrow> if n \<le> 0 then raise_exc (GitHubError ''repository installation response omitted its integer ID'')
               else ret (n = i))))"

definition newer_membership ::
  "int \<times> string \<Rightarrow> membership \<Rightarrow> client \<Rightarrow> client" where
  "newer_membership key m k = (case map_of (k_members k) key of
       Some old \<Rightarrow> if m_generation old \<le> m_generation m
         then k\<lparr>k_members := AList.update key m (k_members k)\<rparr> else k
     | None \<Rightarrow> k\<lparr>k_members := AList.update key m (k_members k)\<rparr>)"

definition installation_includes_repository :: "int \<Rightarrow> string \<Rightarrow> int \<Rightarrow> bool \<Rightarrow> bool call" where
  "installation_includes_repository i repo generation refresh =
     (if generation < 0 then raise_exc (SvcValueError ''authority_generation must be a nonnegative integer'')
      else seq (ask_net x_clock) (\<lambda>now.
        seq (get_client (\<lambda>k. map_of (k_members k) (i, repo))) (\<lambda>cached.
          if \<not> refresh \<and> membership_is_fresh cached generation now then ret (m_included (the cached))
          else seq await (\<lambda>_.
            seq (ask_net x_clock) (\<lambda>now.
            seq (get_client (\<lambda>k. map_of (k_members k) (i, repo))) (\<lambda>cached.
              if \<not> refresh \<and> membership_is_fresh cached generation now then ret (m_included (the cached))
              else seq (lookup_membership i repo) (\<lambda>included.
                seq (update_client (newer_membership (i, repo)
                  \<lparr>m_generation = generation, m_included = included, m_checked = now\<rparr>)) (\<lambda>_. ret included))))))))"

end
