(* ===== verification/Client_Commits.thy ===== *)
theory Client_Commits
  imports Client_Reads
begin

text \<open>
  The evidence for the sign-off evaluation, read over GraphQL by \<open>extra_codeowners/github.py\<close>:
  the list of the commits of a pull request, page by page, and the details of each commit. Two
  details that the code requests together are read one after the other, the second one even
  if the first fails.
\<close>

section \<open>Queries\<close>

fun rate_limited_error :: "json \<Rightarrow> bool" where
  "rate_limited_error (JObj e) \<longleftrightarrow>
     (case as_str (get_key ''type'' e) of None \<Rightarrow> False | Some t \<Rightarrow> casefold t = ''rate_limited'') \<or>
     (case as_obj (get_key ''extensions'' e) of None \<Rightarrow> False
      | Some x \<Rightarrow> (case as_str (get_key ''code'' x) of None \<Rightarrow> False | Some t \<Rightarrow> casefold t = ''rate_limited'')) \<or>
     (case as_str (get_key ''message'' e) of None \<Rightarrow> False | Some t \<Rightarrow> contains ''rate limit'' (casefold t))"
| "rate_limited_error _ \<longleftrightarrow> False"

definition graphql_errors_are_rate_limited :: "json \<Rightarrow> string option \<Rightarrow> string option \<Rightarrow> bool" where
  "graphql_errors_are_rate_limited faults retry_after remaining \<longleftrightarrow>
     retry_after \<noteq> None \<or> remaining = Some ''0'' \<or>
     (case as_list faults of None \<Rightarrow> False | Some vs \<Rightarrow> list_ex rate_limited_error vs)"

definition graphql_operation :: "int \<Rightarrow> string \<Rightarrow> (string \<times> json) list \<Rightarrow> operation" where
  "graphql_operation i query variables = \<lparr>op_request = \<lparr>rq_method = ''POST'', rq_path = ''/graphql'',
     rq_auth = InstallationAuth i, rq_params = [], rq_json = [(''query'', JStr query), (''variables'', JObj variables)],
     rq_headers = []\<rparr>, op_stop = False, op_conditional = False, op_discovery = False\<rparr>"

definition graphql_data :: "net_env \<Rightarrow> net_event list \<Rightarrow> json \<Rightarrow> response \<Rightarrow> svc_exc + obj" where
  "graphql_data en h v r = (case as_obj v of
       None \<Rightarrow> Inl (GitHubError ''GraphQL returned a non-object response'')
     | Some ob \<Rightarrow> (let faults = get_key ''errors'' ob; retry_after = header_of ''retry-after'' (rs_headers r) in
         if faults \<noteq> JNull \<and> faults \<noteq> JList [] then
           if graphql_errors_are_rate_limited faults retry_after (header_of ''x-ratelimit-remaining'' (rs_headers r))
           then Inl (GitHubRateLimit (bounded_retry_delay en h retry_after (header_of ''x-ratelimit-reset'' (rs_headers r)))
             (retry_after \<noteq> None))
           else Inl (GitHubError ''GraphQL returned errors'')
         else (case as_obj (get_key ''data'' ob) of
             None \<Rightarrow> Inl (GitHubError ''GraphQL omitted its data object'') | Some d \<Rightarrow> Inr d)))"

definition graphql :: "int \<Rightarrow> string \<Rightarrow> (string \<times> json) list \<Rightarrow> int \<Rightarrow> obj call" where
  "graphql i query variables max_bytes =
     seq (bounded_json_request (graphql_operation i query variables) max_bytes) (\<lambda>(v, r).
     seq (ask_net (\<lambda>en h. graphql_data en h v r)) of_result)"

section \<open>The identity of the pull request\<close>

definition graphql_repository :: "json \<Rightarrow> svc_exc + repository_identity" where
  "graphql_repository v = (case as_obj v of
       None \<Rightarrow> Inl (GitHubError ''GraphQL repository must be an object'')
     | Some ob \<Rightarrow>
         if as_int (get_key ''databaseId'' ob) = None \<or> as_str (get_key ''nameWithOwner'' ob) = None
         then Inl (GitHubError ''GraphQL repository has an invalid identity'')
         else (case make_repository (get_key ''databaseId'' ob) (get_key ''nameWithOwner'' ob) of
             Inl _ \<Rightarrow> Inl (GitHubError ''GraphQL repository has an invalid identity'')
           | Inr x \<Rightarrow> Inr x))"

definition changed_identity :: svc_exc where
  "changed_identity = GitHubError ''GraphQL pull request identity changed during DCO collection''"

definition validate_graphql_pull_identity :: "json \<Rightarrow> pull_snapshot \<Rightarrow> json \<Rightarrow> svc_exc + obj" where
  "validate_graphql_pull_identity v pull repo_payload = (case as_obj v of
       None \<Rightarrow> Inl (GitHubError ''GraphQL pull request must be an object'')
     | Some ob \<Rightarrow>
         bind_result (graphql_repository repo_payload) (\<lambda>repo.
         if repo \<noteq> ps_repository pull
         then Inl (GitHubError ''GraphQL repository identity changed during DCO collection'')
         else bind_result (graphql_repository (get_key ''baseRepository'' ob)) (\<lambda>base.
           bind_result (graphql_repository (get_key ''headRepository'' ob)) (\<lambda>head.
           if get_key ''number'' ob \<noteq> JInt (ps_number pull) then Inl changed_identity
           else (case in_str_set (get_key ''state'' ob)
               (if ps_state pull = ''open'' then [''OPEN''] else [''CLOSED'', ''MERGED'']) of
               None \<Rightarrow> Inl SvcTypeError
             | Some False \<Rightarrow> Inl changed_identity
             | Some True \<Rightarrow>
                 if get_key ''baseRefName'' ob \<noteq> JStr (ps_base_ref pull) \<or>
                    get_key ''baseRefOid'' ob \<noteq> JStr (ps_base_sha pull) \<or>
                    base \<noteq> ps_base_repository pull \<or>
                    get_key ''headRefName'' ob \<noteq> JStr (ps_head_ref pull) \<or>
                    get_key ''headRefOid'' ob \<noteq> JStr (ps_head_sha pull) \<or>
                    head \<noteq> ps_head_repository pull
                 then Inl changed_identity else Inr ob)))))"

section \<open>The list of the commits\<close>

definition MAX_DCO_COMMIT_LIST_RESPONSE_BYTES :: int where "MAX_DCO_COMMIT_LIST_RESPONSE_BYTES = 256 * 1024"
definition MAX_DCO_COMMIT_DETAIL_RESPONSE_BYTES :: int where "MAX_DCO_COMMIT_DETAIL_RESPONSE_BYTES = 8 * 1024 * 1024"
definition MAX_DCO_AGGREGATE_MESSAGE_BYTES :: int where "MAX_DCO_AGGREGATE_MESSAGE_BYTES = 16 * 1024 * 1024"

fun append_commits :: "pull_commit list \<Rightarrow> json list \<Rightarrow> svc_exc + pull_commit list" where
  "append_commits got [] = Inr got"
| "append_commits got (v # vs) = (case as_obj v of
     None \<Rightarrow> Inl (GitHubError ''GraphQL pull commit page contains a null node'')
   | Some node \<Rightarrow> (case pull_commit_from_graphql node of
       Inl DcoIndexError \<Rightarrow> Inl (OtherFailure ''IndexError'')
     | Inl _ \<Rightarrow> Inl (GitHubError ''GraphQL pull commit node is invalid'')
     | Inr item \<Rightarrow>
         if pc_sha item \<in> pc_sha ` set got \<or> pc_node item \<in> pc_node ` set got
         then Inl (GitHubError ''GraphQL pull commit page repeated a commit'')
         else append_commits (got @ [item]) vs))"

definition cursor_ok :: "json \<Rightarrow> bool" where
  "cursor_ok v \<longleftrightarrow> (case v of JNull \<Rightarrow> True | JStr s \<Rightarrow> utf8_length s \<le> 4096 | _ \<Rightarrow> False)"

text \<open>The cursor of the next page, if there is one.\<close>

definition next_cursor :: "pull_snapshot \<Rightarrow> pull_commit list \<Rightarrow> string list \<Rightarrow> obj \<Rightarrow> svc_exc + string option" where
  "next_cursor pull got seen info = (case as_bool (get_key ''hasNextPage'' info) of
       None \<Rightarrow> Inl (GitHubError ''GraphQL pull commit page has invalid pagination metadata'')
     | Some again \<Rightarrow>
         if again \<noteq> (int (length got) < ps_commit_count pull)
         then Inl (GitHubError ''GraphQL pull commit pagination disagrees with its count'')
         else if \<not> cursor_ok (get_key ''endCursor'' info)
         then Inl (GitHubError ''GraphQL pull commit cursor is invalid'')
         else if \<not> again then Inr None
         else (case as_str (get_key ''endCursor'' info) of
             Some c \<Rightarrow> if c = [] \<or> c \<in> set seen
               then Inl (GitHubError ''GraphQL pull commit cursor is invalid'') else Inr (Some c)
           | None \<Rightarrow> Inl (GitHubError ''GraphQL pull commit cursor is invalid'')))"

text \<open>One page of the connection: the commits so far, and the next cursor.\<close>

definition connection_page ::
  "pull_snapshot \<Rightarrow> pull_commit list \<Rightarrow> string list \<Rightarrow> obj \<Rightarrow> svc_exc + pull_commit list \<times> string option" where
  "connection_page pull got seen commits = (case as_int (get_key ''totalCount'' commits) of
       None \<Rightarrow> Inl (GitHubError ''GraphQL pull commit count is invalid'')
     | Some count \<Rightarrow>
         if count < 1 then Inl (GitHubError ''GraphQL pull commit count is invalid'')
         else if MAX_PULL_COMMITS < count
         then Inl (PullRequestTooLarge ''pull request exceeds the supported 250-commit limit'')
         else if count \<noteq> ps_commit_count pull
         then Inl (GitHubError ''GraphQL pull commit count does not match the snapshot'')
         else (case (as_list (get_key ''nodes'' commits), as_obj (get_key ''pageInfo'' commits)) of
             (Some nodes, Some info) \<Rightarrow>
               if int (length nodes) \<noteq> min 100 (ps_commit_count pull - int (length got))
               then Inl (GitHubError ''GraphQL pull commit page is incomplete'')
               else bind_result (append_commits got nodes) (\<lambda>got.
                 bind_result (next_cursor pull got seen info) (\<lambda>cursor. Inr (got, cursor)))
           | _ \<Rightarrow> Inl (GitHubError ''GraphQL pull commit page is malformed'')))"

definition commit_page ::
  "pull_snapshot \<Rightarrow> pull_commit list \<Rightarrow> string list \<Rightarrow> obj \<Rightarrow> svc_exc + pull_commit list \<times> string option" where
  "commit_page pull got seen data = (case as_obj (get_key ''repository'' data) of
       None \<Rightarrow> Inl (GitHubError ''GraphQL DCO pull commit list omitted its repository'')
     | Some repo \<Rightarrow>
       bind_result (validate_graphql_pull_identity (get_key ''pullRequest'' repo) pull (JObj repo)) (\<lambda>ob.
       case as_obj (get_key ''commits'' ob) of
         None \<Rightarrow> Inl (GitHubError ''GraphQL pull request omitted its commit connection'')
       | Some commits \<Rightarrow> connection_page pull got seen commits))"

definition list_variables :: "pull_snapshot \<Rightarrow> string option \<Rightarrow> (string \<times> json) list" where
  "list_variables pull cursor = (let (owner, name) = cut_at (CHR ''/'') (repo_name (ps_repository pull)) in
     [(''owner'', JStr owner), (''name'', JStr (case name of None \<Rightarrow> [] | Some n \<Rightarrow> n)),
      (''number'', JInt (ps_number pull)), (''cursor'', case cursor of None \<Rightarrow> JNull | Some c \<Rightarrow> JStr c)])"

text \<open>Every page has a commit, so the number of pages is at most that of the commits.\<close>

fun commits_from ::
  "nat \<Rightarrow> int \<Rightarrow> pull_snapshot \<Rightarrow> string option \<Rightarrow> pull_commit list \<Rightarrow> string list \<Rightarrow> pull_commit list call" where
  "commits_from 0 i pull cursor got seen = raise_exc Cancelled"
| "commits_from (Suc n) i pull cursor got seen =
     seq (graphql i ''DcoPullCommits'' (list_variables pull cursor) MAX_DCO_COMMIT_LIST_RESPONSE_BYTES) (\<lambda>data.
     seq (of_result (commit_page pull got seen data)) (\<lambda>(got, upcoming). case upcoming of
         None \<Rightarrow> ret got
       | Some c \<Rightarrow> commits_from n i pull (Some c) got (c # seen)))"

definition dco_repository_path_ok :: "string \<Rightarrow> bool" where
  "dco_repository_path_ok repo \<longleftrightarrow> list_all is_ascii repo \<and> length repo \<le> 512 \<and> repository_name_ok repo"

definition compare_pull_commits :: "nat \<Rightarrow> int \<Rightarrow> pull_snapshot \<Rightarrow> comparison call" where
  "compare_pull_commits n i pull =
     (if MAX_PULL_COMMITS < ps_commit_count pull
      then raise_exc (PullRequestTooLarge ''pull request exceeds the supported 250-commit limit'')
      else if \<not> dco_repository_path_ok (repo_name (ps_repository pull))
      then raise_exc (SvcValueError ''repository must be a GitHub-safe ASCII owner/repository name'')
      else seq (commits_from n i pull None [] []) (\<lambda>items.
        if int (length items) \<noteq> ps_commit_count pull
        then raise_exc (GitHubError ''GraphQL pull commit list is incomplete'')
        else if pc_sha (last items) \<noteq> ps_head_sha pull
        then raise_exc (GitHubError ''GraphQL pull commit list did not end at the snapshot head'')
        else ret \<lparr>cmp_repository = ps_repository pull, cmp_pull = ps_number pull, cmp_base_sha = ps_base_sha pull,
          cmp_head_sha = ps_head_sha pull, cmp_base_commit = ps_base_sha pull, cmp_total = ps_commit_count pull,
          cmp_ahead = ps_commit_count pull, cmp_commits = items\<rparr>))"

section \<open>The details of a commit\<close>

definition commit_detail :: "pull_snapshot \<Rightarrow> pull_commit \<Rightarrow> obj \<Rightarrow> svc_exc + commit_evidence \<times> int" where
  "commit_detail pull item data = (case as_obj (get_key ''node'' data) of
       None \<Rightarrow> Inl (GitHubError ''GraphQL DCO commit detail returned the wrong node type'')
     | Some node \<Rightarrow>
         if get_key ''__typename'' node \<noteq> JStr ''PullRequestCommit''
         then Inl (GitHubError ''GraphQL DCO commit detail returned the wrong node type'')
         else if get_key ''id'' node \<noteq> JStr (pc_node item)
         then Inl (GitHubError ''GraphQL DCO commit detail returned the wrong node'')
         else (case as_obj (get_key ''pullRequest'' node) of
             None \<Rightarrow> Inl (GitHubError ''GraphQL DCO commit detail omitted its pull request'')
           | Some p \<Rightarrow> bind_result (validate_graphql_pull_identity (JObj p) pull (get_key ''repository'' p)) (\<lambda>_.
               case as_obj (get_key ''commit'' node) of
                 None \<Rightarrow> Inl (GitHubError ''GraphQL DCO commit detail returned the wrong commit'')
               | Some commit \<Rightarrow>
                   if get_key ''oid'' commit \<noteq> JStr (pc_sha item)
                   then Inl (GitHubError ''GraphQL DCO commit detail returned the wrong commit'')
                   else (case as_str (get_key ''message'' commit) of
                       None \<Rightarrow> Inl (GitHubError ''GraphQL DCO commit detail omitted its message'')
                     | Some m \<Rightarrow>
                         if MAX_COMMIT_MESSAGE_BYTES < int (utf8_length m)
                         then Inl (GitHubError ''commit message exceeds its byte limit'')
                         else (case commit_from_graphql commit of
                             Inl DcoIndexError \<Rightarrow> Inl (OtherFailure ''IndexError'')
                           | Inl _ \<Rightarrow> Inl (GitHubError ''GraphQL DCO commit detail is invalid'')
                           | Inr e \<Rightarrow> Inr (e, int (utf8_length m)))))))"

definition get_commit_evidence :: "int \<Rightarrow> pull_snapshot \<Rightarrow> pull_commit \<Rightarrow> (commit_evidence \<times> int) call" where
  "get_commit_evidence i pull item =
     seq (graphql i ''DcoCommit'' [(''id'', JStr (pc_node item))] MAX_DCO_COMMIT_DETAIL_RESPONSE_BYTES) (\<lambda>data.
       of_result (commit_detail pull item data))"

text \<open>\<open>asyncio.gather\<close> of two tasks: both are started, and a failure is raised after both.\<close>

definition both :: "'a call \<Rightarrow> 'a call \<Rightarrow> 'a list call" where
  "both m n = seq (attempt m) (\<lambda>r. seq (attempt n) (\<lambda>s.
     of_result (bind_result r (\<lambda>a. bind_result s (\<lambda>b. Inr [a, b])))))"

text \<open>The aggregate limit is checked after each batch of two.\<close>

fun add_evidence :: "int \<Rightarrow> (commit_evidence \<times> int) list \<Rightarrow> svc_exc + int" where
  "add_evidence bytes [] = Inr bytes"
| "add_evidence bytes ((e, n) # es) = (if MAX_DCO_AGGREGATE_MESSAGE_BYTES < bytes + n
     then Inl (GitHubError ''pull-request commit messages exceed the aggregate DCO evidence limit'')
     else add_evidence (bytes + n) es)"

fun evidence_batches :: "int \<Rightarrow> pull_snapshot \<Rightarrow> int \<Rightarrow> pull_commit list \<Rightarrow> commit_evidence list call" where
  "evidence_batches i pull bytes (a # b # items) =
     seq (both (get_commit_evidence i pull a) (get_commit_evidence i pull b)) (\<lambda>es.
     seq (of_result (add_evidence bytes es)) (\<lambda>bytes.
     seq (evidence_batches i pull bytes items) (\<lambda>rest. ret (map fst es @ rest))))"
| "evidence_batches i pull bytes [a] =
     seq (get_commit_evidence i pull a) (\<lambda>e.
     seq (of_result (add_evidence bytes [e])) (\<lambda>_. ret [fst e]))"
| "evidence_batches i pull bytes [] = ret []"

definition get_pull_commit_evidence :: "nat \<Rightarrow> int \<Rightarrow> pull_snapshot \<Rightarrow> (comparison \<times> commit_evidence list) call" where
  "get_pull_commit_evidence n i pull =
     seq (compare_pull_commits n i pull) (\<lambda>cmp.
     seq (evidence_batches i pull 0 (cmp_commits cmp)) (\<lambda>es. ret (cmp, es)))"

end
