(* ===== verification/Client_Sample.thy ===== *)
theory Client_Sample
  imports Client_Commits Dco_Facts
begin

text \<open>
  A concrete GitHub for the witnesses of the client: installation 5 has one repository and one
  pull request with one signed commit, tokens last, and the listing has a validator.
\<close>

definition sample_bodies :: "(string \<times> json) list" where
  "sample_bodies = [(''token'', JObj [(''token'', JStr ''t''), (''expires_at'', JStr ''later'')]),
     (''page'', JObj [(''total_count'', JInt 1), (''repositories'', JList [JObj [(''full_name'', JStr ''octo/demo'')]])])]"

definition sample_identity :: "(string \<times> json) list" where
  "sample_identity = [(''databaseId'', JInt 7), (''nameWithOwner'', JStr ''octo/demo'')]"

definition sample_pull_identity :: "(string \<times> json) list" where
  "sample_pull_identity = [(''number'', JInt 3), (''state'', JStr ''OPEN''), (''baseRefName'', JStr ''main''),
     (''baseRefOid'', JStr (replicate 40 (CHR ''a''))), (''headRefName'', JStr ''topic''),
     (''headRefOid'', JStr (replicate 40 (CHR ''b''))), (''baseRepository'', JObj sample_identity),
     (''headRepository'', JObj sample_identity), (''repository'', JObj sample_identity)]"

definition sample_answers :: "(string \<times> json) list" where
  "sample_answers = [
     (''DcoPullCommits'', JObj [(''data'', JObj [(''repository'', JObj (sample_identity @ [(''pullRequest'', JObj (sample_pull_identity @
       [(''commits'', JObj [(''totalCount'', JInt 1),
         (''nodes'', JList [JObj [(''id'', JStr ''n1''), (''commit'', JObj [(''oid'', JStr (replicate 40 (CHR ''b'')))])]]),
         (''pageInfo'', JObj [(''hasNextPage'', JBool False)])])]))]))])]),
     (''DcoCommit'', JObj [(''data'', JObj [(''node'', JObj [(''__typename'', JStr ''PullRequestCommit''), (''id'', JStr ''n1''),
       (''pullRequest'', JObj sample_pull_identity),
       (''commit'', JObj (sample_commit_payload (''fix'' @ [newline] @ ''Signed-off-by: Mona <mona@x.io>'')))])])])]"

definition sample_tag :: string where
  "sample_tag = [dquote, CHR ''v'', dquote]"

definition sample_answer :: "int \<Rightarrow> string \<Rightarrow> response" where
  "sample_answer status body = \<lparr>rs_status = status, rs_headers = [(''etag'', sample_tag)], rs_body = body,
     rs_url = ''https://api/x?page=1'', rs_sent = []\<rparr>"

definition sample_send :: "request \<Rightarrow> svc_exc + response" where
  "sample_send rq = Inr (if rq_auth rq = AppAuth then sample_answer 201 ''token''
     else if rq_path rq = ''/graphql'' then sample_answer 200 (case get_key ''query'' (rq_json rq) of JStr q \<Rightarrow> q | _ \<Rightarrow> [])
     else if map_of (rq_headers rq) ''If-None-Match'' = Some sample_tag then sample_answer 304 []
     else if rq_path rq = REPOSITORIES_PATH then sample_answer 200 ''page'' else sample_answer 401 [])"

definition sample_net_env :: net_env where
  "sample_net_env = \<lparr>x_send = \<lambda>_. sample_send, x_others = \<lambda>_ k. k, x_budgets = \<lambda>_ bs. bs, x_interrupt = \<lambda>_. None,
     x_clock = \<lambda>_. 0, x_ticks = \<lambda>_. 0, x_stop = \<lambda>_. False, x_jwt = \<lambda>_. ''j'', x_reserve = None, x_recovery = False,
     x_text = rs_body, x_loads = map_of sample_bodies, x_parse = \<lambda>s. map_option (Pair False) (map_of sample_answers s),
     x_decode = Some, x_dumps = \<lambda>_. ''{}'', x_deflate = \<lambda>_. None, x_inflate = \<lambda>_ _. None,
     x_instant = \<lambda>_. Some 1000000000000, x_float = \<lambda>_. None, x_date = \<lambda>_. None\<rparr>"

definition empty_cache :: cache where
  "empty_cache = \<lparr>c_max_bytes = 4096, c_max_entry_bytes = 4096, c_max_entries = 2, c_ttl = 10, c_compress = False,
     c_entries = [], c_bytes = 0\<rparr>"

definition sample_net :: net where
  "sample_net = \<lparr>n_client = \<lparr>k_tokens = [], k_members = [], k_pages = empty_cache, k_compact = empty_cache\<rparr>,
     n_budgets = [], n_log = []\<rparr>"

definition sample_library :: url_library where
  "sample_library = \<lparr>ul_ip_literal = \<lambda>_. True, ul_utf8 = \<lambda>s. s\<rparr>"

text \<open>What a run returns, decided by one evaluation of it.\<close>

definition returning :: "('a \<Rightarrow> net \<Rightarrow> bool) \<Rightarrow> (svc_exc + 'a) \<times> net \<Rightarrow> bool" where
  "returning P p \<longleftrightarrow> (case p of (Inr a, w) \<Rightarrow> P a w | _ \<Rightarrow> False)"

lemma returningE:
  assumes "returning P p"
  obtains a w where "p = (Inr a, w)" and "P a w"
  using assms by (cases p) (auto simp: returning_def split: sum.splits)

end
