(* ===== verification/Client_Facts.thy ===== *)
theory Client_Facts
  imports Client_Sample
begin

text \<open>
  What the transport promises: the number of requests that an operation sends, that its loop
  never runs past its last attempt, that an answer is one that GitHub gave to a request of the
  operation, and that a saved page is used only when GitHub confirms it.
\<close>

section \<open>The cost of a program\<close>

text \<open>\<open>sent a new\<close>: the requests of the log \<open>new\<close> that use the authentication \<open>a\<close>. \<open>costs a k m\<close>: the
  program \<open>m\<close> only adds to the log, and sends at most \<open>k\<close> of them.\<close>

definition sent :: "auth \<Rightarrow> net_event list \<Rightarrow> nat" where
  "sent a new = length (filter (\<lambda>e. case e of Physical rq _ \<Rightarrow> rq_auth rq = a | _ \<Rightarrow> False) new)"

definition costs :: "auth \<Rightarrow> nat \<Rightarrow> 'a call \<Rightarrow> bool" where
  "costs a k m \<longleftrightarrow> (\<forall>en w. \<exists>new. n_log (snd (m en w)) = new @ n_log w \<and> sent a new \<le> k)"

named_theorems cost_rules \<open>the cost of a program\<close>

lemma costs_mono: "costs a k m \<Longrightarrow> k \<le> n \<Longrightarrow> costs a n m"
  unfolding costs_def by (meson le_trans)

lemma costs_free [cost_rules]:
  "costs a 0 (ret x)" "costs a 0 (raise_exc e)" "costs a 0 (of_result r)" "costs a 0 (ask_net f)"
  "costs a 0 (get_client g)" "costs a 0 (update_client u)" "costs a 0 await"
  by (simp_all add: costs_def ret_def raise_exc_def of_result_def ask_net_def get_client_def update_client_def
      await_def sent_def)

lemma costs_seq:
  assumes "costs a k m" and "\<And>x. costs a n (f x)"
  shows "costs a (k + n) (seq m f)"
  unfolding costs_def
proof (intro allI)
  fix en and w :: net
  obtain r w1 where m: "m en w = (r, w1)" by (cases "m en w")
  with assms(1) obtain new where new: "n_log w1 = new @ n_log w" "sent a new \<le> k"
    unfolding costs_def by (metis snd_conv)
  show "\<exists>new. n_log (snd (seq m f en w)) = new @ n_log w \<and> sent a new \<le> k + n"
  proof (cases r)
    case (Inr x)
    from assms(2) [of x] obtain new' where "n_log (snd (f x en w1)) = new' @ n_log w1" "sent a new' \<le> n"
      unfolding costs_def by blast
    with m Inr new show ?thesis by (intro exI [of _ "new' @ new"]) (simp add: seq_def sent_def)
  qed (use m new in \<open>auto simp: seq_def\<close>)
qed

lemma costs_then [cost_rules]: "costs a 0 m \<Longrightarrow> (\<And>x. costs a n (f x)) \<Longrightarrow> costs a n (seq m f)"
  using costs_seq [of a 0 m n f] by simp

lemma costs_handle [cost_rules]:
  assumes "costs a k m" and "\<And>x. costs a 0 (h x)"
  shows "costs a k (handle m h)"
  unfolding costs_def
proof (intro allI)
  fix en and w :: net
  obtain r w1 where m: "m en w = (r, w1)" by (cases "m en w")
  with assms(1) obtain new where new: "n_log w1 = new @ n_log w" "sent a new \<le> k"
    unfolding costs_def by (metis snd_conv)
  show "\<exists>new. n_log (snd (handle m h en w)) = new @ n_log w \<and> sent a new \<le> k"
  proof (cases r)
    case (Inl x)
    from assms(2) [of x] obtain new' where "n_log (snd (h x en w1)) = new' @ n_log w1" "sent a new' \<le> 0"
      unfolding costs_def by blast
    with m Inl new show ?thesis by (intro exI [of _ "new' @ new"]) (simp add: handle_def sent_def)
  qed (use m new in \<open>auto simp: handle_def\<close>)
qed

lemma costs_cases [cost_rules]:
  "costs a k m \<Longrightarrow> costs a k n \<Longrightarrow> costs a k (if b then m else n)"
  "costs a k m \<Longrightarrow> (\<And>y. costs a k (f y)) \<Longrightarrow> costs a k (case v of None \<Rightarrow> m | Some y \<Rightarrow> f y)"
  "(\<And>x y. costs a k (g x y)) \<Longrightarrow> costs a k (case p of (x, y) \<Rightarrow> g x y)"
  by (simp_all split: option.split prod.split)

lemma costs_budget [cost_rules]: "costs a 0 (charge percent i)" "costs a 0 (credit i q receipt)"
  by (auto simp: costs_def charge_def credit_def Let_def note_event_def sent_def split: prod.split)

lemma costs_transmit [cost_rules]:
  "costs a (if rq_auth rq = a then 1 else 0) (transmit rq)"
  by (auto simp: costs_def transmit_def Let_def note_event_def sent_def)

lemma costs_steps [cost_rules]:
  "costs a 0 (raise_if_stopped b)" "costs a 0 (admit_request rq)" "costs a 0 (observe_quota rq r receipt)"
  "costs a 0 (drop_token rq token)" "costs a 0 (raise_api_error r app)"
  unfolding raise_if_stopped_def admit_request_def observe_quota_def drop_token_def raise_api_error_def
  by (auto intro!: cost_rules split: auth.split option.split)

lemma costs_pause [cost_rules]: "costs a 0 pause_before_retry"
  unfolding pause_before_retry_def
  by (rule costs_then [OF costs_free(7)]) (simp add: costs_def note_event_def sent_def)

lemma costs_exchange: "costs a (if rq_auth rq = a then 1 else 0) (exchange op tolerant rq)"
proof -
  have "costs a (if rq_auth rq = a then 1 else 0) (seq (transmit rq) f)" if "\<And>x. costs a 0 (f x)"
    for f :: "svc_exc + response \<Rightarrow> response option call"
    using costs_seq [OF costs_transmit that] by simp
  note tail = this
  show ?thesis unfolding exchange_def
    by (rule costs_then [OF costs_free(7)], rule costs_then [OF costs_steps(2)], rule tail)
      (auto intro!: cost_rules split: sum.split)
qed

lemma costs_authorized:
  assumes "\<And>i. costs a k (token_of i)" and "\<And>t rq'. rq_auth rq' = rq_auth rq \<Longrightarrow> costs a n (f (t, rq'))"
  shows "costs a (k + n) (seq (authorized token_of rq) f)"
proof -
  have free: "costs a (k + n) (f (t, rq'))" if "rq_auth rq' = rq_auth rq" for t rq'
    by (rule costs_mono [OF assms(2) [OF that]]) simp
  show ?thesis
  proof (cases "rq_auth rq")
    case PublicAuth
    then show ?thesis by (simp add: authorized_def seq_ret free)
  next
    case AppAuth
    then show ?thesis by (simp add: authorized_def seq_assoc seq_ret)
        (rule costs_then [OF costs_free(4)], rule free, simp add: bearer_def)
  next
    case (InstallationAuth i)
    then show ?thesis by (simp add: authorized_def seq_assoc seq_ret)
        (rule costs_seq [OF assms(1)], rule assms(2), simp add: bearer_def)
  qed
qed

lemma costs_attempts:
  assumes t: "\<And>i. costs a k (token_of i)" and c: "c = (if rq_auth (op_request op) = a then 1 else 0)"
  shows "costs a (n * (k + c)) (api_attempts token_of op n first refreshed transient)"
proof (induction n arbitrary: first refreshed transient)
  case (Suc n)
  have go: "costs a (c + n * (k + c)) (seq (exchange op tolerant rq) f)"
    if "rq_auth rq = rq_auth (op_request op)" and "\<And>x. costs a (n * (k + c)) (f x)" for tolerant rq and f :: "response option \<Rightarrow> response call"
    using costs_seq [OF costs_exchange [of a rq op tolerant] that(2)] that(1) c by simp
  have step: "costs a (k + (c + n * (k + c))) (seq (authorized token_of rq) (\<lambda>(token, sealed).
       seq (raise_if_stopped (op_stop op)) (\<lambda>_. seq (exchange op tolerant sealed) (f token))))"
    if "rq_auth rq = rq_auth (op_request op)" and "\<And>token x. costs a (n * (k + c)) (f token x)" for tolerant rq
      and f :: "string option \<Rightarrow> response option \<Rightarrow> response call"
  proof (rule costs_authorized [OF t])
    fix token and rq' :: request
    assume "rq_auth rq' = rq_auth rq"
    then have "costs a (c + n * (k + c)) (seq (exchange op tolerant rq') (f token))" by (intro go that) (simp add: that)
    then show "costs a (c + n * (k + c)) (case (token, rq') of (token, sealed) \<Rightarrow>
       seq (raise_if_stopped (op_stop op)) (\<lambda>_. seq (exchange op tolerant sealed) (f token)))"
      by (simp add: costs_then costs_steps(1))
  qed
  show ?case unfolding api_attempts.simps Let_def
    by (rule costs_then [OF costs_steps(1)], subst mult_Suc, subst add.assoc, rule step)
      (auto intro!: costs_then costs_steps costs_pause costs_cases costs_free Suc.IH costs_mono [OF costs_free(1)] split: option.split)
qed (simp add: costs_free)

lemma costs_response:
  assumes "\<And>i. costs a k (token_of i)" and "c = (if rq_auth (op_request op) = a then 1 else 0)"
  shows "costs a (attempts_of op * (k + c)) (api_response_with token_of op)"
  unfolding api_response_with_def within_deadline_def
  by (rule costs_handle [OF costs_attempts [OF assms]]) (auto intro!: cost_rules)

lemma costs_request:
  assumes "costs a k (api_response_with token_of op)"
  shows "costs a k (request_with token_of op b)"
proof -
  have "costs a 0 (object_of op b r)" for r
    unfolding object_of_def by (auto intro!: cost_rules split: option.split json.split)
  from costs_seq [OF assms this] show ?thesis by (simp add: request_with_def)
qed

lemma costs_token_request:
  "costs a (if a = AppAuth then 1 else 0)
     (request_with (\<lambda>_. raise_exc AssertionFailed) (plain_operation ''POST'' path AppAuth body stop) False)"
  by (rule costs_request, rule costs_mono [OF costs_response [where k = 0]])
    (auto simp: costs_free plain_operation_def attempts_of_def retries_discovery_def)

lemma costs_token:
  assumes k: "k = (if a = AppAuth then 1 else 0)"
  shows "costs a k (installation_token stop i)"
proof -
  have free: "costs a k (ret x)" for x :: string by (simp add: costs_mono [OF costs_free(1)])
  have "costs a (k + 0) (new_token stop i)" unfolding new_token_def k
    by (rule costs_seq [OF costs_token_request]) (auto intro!: costs_then costs_steps costs_free split: json.split option.split)
  then have new: "costs a k (new_token stop i)" by simp
  show ?thesis unfolding installation_token_def
    by (intro costs_then costs_steps(1) costs_free) (auto intro!: costs_then costs_steps costs_free free new split: option.split)
qed

lemma costs_api_response:
  "costs a (attempts_of op * ((if a = AppAuth then 1 else 0) + (if rq_auth (op_request op) = a then 1 else 0))) (api_response op)"
  unfolding api_response_def by (rule costs_response [OF costs_token]) simp_all

section \<open>The last attempt\<close>

text \<open>The loop of the attempts ends with an assertion that it is unreachable. \<open>calm m\<close>: the program
  never fails with it, if nothing from outside raises it.\<close>

definition tame :: "net_env \<Rightarrow> bool" where
  "tame en \<longleftrightarrow> (\<forall>h. x_interrupt en h \<noteq> Some AssertionFailed) \<and> (\<forall>h rq. x_send en h rq \<noteq> Inl AssertionFailed)"

definition calm :: "'a call \<Rightarrow> bool" where
  "calm m \<longleftrightarrow> (\<forall>en w. tame en \<longrightarrow> fst (m en w) \<noteq> Inl AssertionFailed)"

named_theorems calm_rules \<open>programs without a failed assertion\<close>

lemma calm_basic [calm_rules]:
  "calm (ret x)" "e \<noteq> AssertionFailed \<Longrightarrow> calm (raise_exc e)" "r \<noteq> Inl AssertionFailed \<Longrightarrow> calm (of_result r)"
  "calm (ask_net f)" "calm (get_client g)" "calm (update_client u)" "calm await"
  by (auto simp: calm_def ret_def raise_exc_def of_result_def ask_net_def get_client_def update_client_def
      await_def tame_def split: option.split)

lemma calm_seq [calm_rules]: "calm m \<Longrightarrow> (\<And>x. calm (f x)) \<Longrightarrow> calm (seq m f)"
  unfolding calm_def
proof (intro allI impI)
  fix en and w :: net
  assume m: "\<forall>en w. tame en \<longrightarrow> fst (m en w) \<noteq> Inl AssertionFailed"
    and f: "\<And>x. \<forall>en w. tame en \<longrightarrow> fst (f x en w) \<noteq> Inl AssertionFailed" and t: "tame en"
  obtain r w1 where "m en w = (r, w1)" by (cases "m en w")
  moreover from this m t have "r \<noteq> Inl AssertionFailed" by (metis fst_conv)
  ultimately show "fst (seq m f en w) \<noteq> Inl AssertionFailed" using f t by (cases r) (simp_all add: seq_def)
qed

lemma calm_handle: "calm m \<Longrightarrow> (\<And>x. x \<noteq> AssertionFailed \<Longrightarrow> calm (h x)) \<Longrightarrow> calm (handle m h)"
  unfolding calm_def
proof (intro allI impI)
  fix en and w :: net
  assume m: "\<forall>en w. tame en \<longrightarrow> fst (m en w) \<noteq> Inl AssertionFailed"
    and h: "\<And>x. x \<noteq> AssertionFailed \<Longrightarrow> \<forall>en w. tame en \<longrightarrow> fst (h x en w) \<noteq> Inl AssertionFailed" and t: "tame en"
  obtain r w1 where r: "m en w = (r, w1)" by (cases "m en w")
  moreover from this m t have "r \<noteq> Inl AssertionFailed" by (metis fst_conv)
  ultimately show "fst (handle m h en w) \<noteq> Inl AssertionFailed" using h t by (cases r) (simp_all add: handle_def)
qed

lemma calm_cases [calm_rules]:
  "(b \<Longrightarrow> calm m) \<Longrightarrow> (\<not> b \<Longrightarrow> calm n) \<Longrightarrow> calm (if b then m else n)"
  "calm m \<Longrightarrow> (\<And>y. calm (f y)) \<Longrightarrow> calm (case v of None \<Rightarrow> m | Some y \<Rightarrow> f y)"
  "(\<And>x y. calm (g x y)) \<Longrightarrow> calm (case p of (x, y) \<Rightarrow> g x y)"
  by (simp_all split: option.split prod.split)

lemma calm_budget [calm_rules]: "calm (charge percent i)" "calm (credit i q receipt)"
proof -
  have e: "budget_errors e \<noteq> AssertionFailed" for e by (cases e) (simp_all add: budget_errors_def)
  then have "map_sum budget_errors id r \<noteq> Inl AssertionFailed" for r :: "budget_error + unit" by (cases r) simp_all
  with e show "calm (charge percent i)" "calm (credit i q receipt)"
    by (auto simp: calm_def charge_def credit_def Let_def split: prod.split sum.split)
qed

lemma calm_steps [calm_rules]:
  "calm (raise_if_stopped b)" "calm (admit_request rq)" "calm (observe_quota rq r receipt)" "calm (drop_token rq token)"
  "calm (raise_api_error r app)" "calm pause_before_retry" "calm (transmit rq)"
proof -
  show "calm (raise_if_stopped b)" "calm (admit_request rq)" "calm (observe_quota rq r receipt)" "calm (drop_token rq token)"
    unfolding raise_if_stopped_def admit_request_def observe_quota_def drop_token_def
    by (auto intro!: calm_rules split: auth.split option.split)
  show "calm (raise_api_error r app)" "calm (transmit rq)"
    by (auto simp: calm_def raise_api_error_def transmit_def seq_def ask_net_def raise_exc_def api_error_def Let_def split: option.split)
  show "calm pause_before_retry" unfolding pause_before_retry_def
    by (rule calm_seq [OF calm_basic(7)]) (simp add: calm_def)
qed

lemma transmit_failure: "transmit rq en w = (Inr (Inl x), w') \<Longrightarrow> tame en \<Longrightarrow> x \<noteq> AssertionFailed"
  by (auto simp: transmit_def tame_def Let_def map_sum_def split: sum.splits)

lemma seq_raise: "seq (raise_exc x) f = raise_exc x"
  by (simp add: seq_def raise_exc_def)

text \<open>What an exchange can give: an answer, or nothing where a broken connection is tolerated.\<close>

lemma calm_exchange:
  assumes "\<And>answer. (answer = None \<longrightarrow> tolerant) \<Longrightarrow> calm (f answer)"
  shows "calm (seq (exchange op tolerant rq) f)"
proof -
  have answer: "calm (seq (transmit rq) (\<lambda>r. seq (case r of
       Inl x \<Rightarrow> if x = RemoteProtocol \<and> tolerant then ret None else raise_exc x
     | Inr answer \<Rightarrow> seq (ask_net x_stop) (\<lambda>stopped.
         seq (observe_quota rq answer (if refundable_answer op rq answer stopped then receipt else None)) (\<lambda>_.
           ret (Some answer)))) f))" (is "calm (seq _ ?g)") for receipt
    unfolding calm_def
  proof (intro allI impI)
    fix en and w :: net
    assume t: "tame en"
    obtain r w1 where r: "transmit rq en w = (Inr r, w1)" by (simp add: transmit_def Let_def)
    have "fst (?g r en w1) \<noteq> Inl AssertionFailed"
    proof (cases r)
      case (Inl x)
      with transmit_failure [of rq en w x w1] r t have "x \<noteq> AssertionFailed" by simp
      then have "calm (?g r)" using Inl assms [of None] by (simp add: seq_ret seq_raise calm_basic(2))
      with t show ?thesis by (simp add: calm_def)
    next
      case (Inr a)
      then have "calm (?g r)" by (auto simp: seq_assoc seq_ret intro!: calm_rules assms)
      with t show ?thesis by (simp add: calm_def)
    qed
    with r show "fst (seq (transmit rq) ?g en w) \<noteq> Inl AssertionFailed" by (simp add: seq_def)
  qed
  show ?thesis unfolding exchange_def seq_assoc by (intro calm_seq calm_basic calm_steps answer)
qed

definition attempts_needed :: "operation \<Rightarrow> bool \<Rightarrow> bool \<Rightarrow> nat" where
  "attempts_needed op refreshed transient = 1 + (if retries_discovery op \<and> \<not> transient then 1 else 0) +
     (case rq_auth (op_request op) of InstallationAuth _ \<Rightarrow> if refreshed then 0 else 1 | _ \<Rightarrow> 0)"

lemma calm_attempts:
  assumes "\<And>i. calm (token_of i)" and "attempts_needed op refreshed transient \<le> n"
  shows "calm (api_attempts token_of op n first refreshed transient)"
  using assms(2)
proof (induction n arbitrary: first refreshed transient)
  case (Suc n)
  have token: "calm (authorized token_of rq)" for rq
    unfolding authorized_def by (auto intro!: calm_rules assms(1) split: auth.split)
  have refresh: "calm (api_attempts token_of op n False True transient)"
    if "rejected_token (op_request op) answer" and "\<not> refreshed" for answer
    using that Suc.prems by (intro Suc.IH)
      (auto simp: attempts_needed_def rejected_token_def split: auth.splits option.splits if_splits)
  have retry: "calm (api_attempts token_of op n False ref True)"
    if "retries_discovery op" and "\<not> transient" and "ref = refreshed" for ref
    using that Suc.prems by (intro Suc.IH) (auto simp: attempts_needed_def split: auth.splits if_splits)
  have tail: "calm (if rejected_token (op_request op) answer \<and> \<not> refreshed
       then seq (drop_token (op_request op) token) (\<lambda>_. api_attempts token_of op n False True transient)
       else case answer of
         None \<Rightarrow> seq pause_before_retry (\<lambda>_. seq (raise_if_stopped (op_stop op)) (\<lambda>_.
           api_attempts token_of op n False refreshed True))
       | Some r \<Rightarrow> if retries_discovery op \<and> \<not> transient \<and> transient_status r \<and> 0 < n
           then seq pause_before_retry (\<lambda>_. seq (raise_if_stopped (op_stop op)) (\<lambda>_.
             api_attempts token_of op n False refreshed True))
           else ret r)" if "answer = None \<longrightarrow> retries_discovery op \<and> \<not> transient \<and> 0 < n" for answer token
  proof (cases "rejected_token (op_request op) answer \<and> \<not> refreshed")
    case True
    then have "calm (api_attempts token_of op n False True transient)" by (blast intro: refresh)
    then have "calm (seq (drop_token (op_request op) token) (\<lambda>_. api_attempts token_of op n False True transient))"
      by (intro calm_seq calm_steps)
    then show ?thesis by (subst if_P [OF True])
  next
    case False
    show ?thesis by (subst if_not_P [OF False], cases answer) (use that in \<open>auto intro!: calm_seq calm_steps calm_basic retry\<close>)
  qed
  show ?case unfolding api_attempts.simps Let_def
    by (intro calm_seq calm_steps token calm_cases(3) calm_exchange tail)
qed (simp add: attempts_needed_def)

lemma calm_response:
  assumes "\<And>i. calm (token_of i)"
  shows "calm (api_response_with token_of op)"
proof -
  have "attempts_needed op False False \<le> attempts_of op"
    by (auto simp: attempts_needed_def attempts_of_def retries_discovery_def split: auth.split)
  from calm_attempts [OF assms this] show ?thesis unfolding api_response_with_def within_deadline_def
    by (rule calm_handle) (auto intro!: calm_rules split: if_splits)
qed

text \<open>An operation of the App itself takes no installation token.\<close>

lemma app_tokens:
  assumes "rq_auth (op_request op) = AppAuth"
  shows "api_attempts t op n first refreshed transient = api_attempts t' op n first refreshed transient"
proof (induction n arbitrary: first refreshed transient)
  case (Suc n)
  have "authorized t rq = authorized t' rq" if "rq_auth rq = AppAuth" for rq using that by (simp add: authorized_def)
  note auth = this
  have plain: "authorized t (if first then op_request op else op_request op\<lparr>rq_headers := hs\<rparr>) =
    authorized t' (if first then op_request op else op_request op\<lparr>rq_headers := hs\<rparr>)" for hs
    by (rule auth) (simp add: assms)
  show ?case by (simp only: api_attempts.simps Let_def Suc.IH plain)
qed simp

lemma calm_request:
  assumes "calm (api_response_with token_of op)"
  shows "calm (request_with token_of op b)"
proof -
  have "calm (object_of op b r)" for r
    unfolding object_of_def not_json_def by (auto intro!: calm_rules split: option.split json.split)
  from calm_seq [OF assms this] show ?thesis by (simp add: request_with_def)
qed

lemma calm_token: "calm (installation_token stop i)"
proof -
  have "calm (api_response_with (\<lambda>_. raise_exc AssertionFailed) (plain_operation ''POST'' path AppAuth body stop))" for path body
  proof -
    have "rq_auth (op_request (plain_operation ''POST'' path AppAuth body stop)) = AppAuth" by (simp add: plain_operation_def)
    from app_tokens [OF this, of "\<lambda>_. raise_exc AssertionFailed" _ _ _ _ "\<lambda>_. ret []"]
    have "api_response_with (\<lambda>_. raise_exc AssertionFailed) (plain_operation ''POST'' path AppAuth body stop) =
      api_response_with (\<lambda>_. ret []) (plain_operation ''POST'' path AppAuth body stop)"
      by (simp add: api_response_with_def)
    then show ?thesis by (simp add: calm_response calm_basic)
  qed
  from calm_request [OF this] show ?thesis unfolding installation_token_def new_token_def
    by (auto intro!: calm_rules split: option.split json.split)
qed

text \<open>C17. A GitHub operation is bounded and ends properly: however GitHub answers (rejected tokens, broken
  connections, transient failures), one operation sends at most one request with the App's own
  authentication, two with an installation's and three for a discovery page, and fetches at
  most one installation token before each; and the loop of the attempts always returns an
  answer or raises, it never falls off its end.\<close>

theorem operation_sends_boundedly:
  assumes "api_response op en w = (r, w')" and "tame en"
  shows "\<exists>new. n_log w' = new @ n_log w \<and> r \<noteq> Inl AssertionFailed \<and>
    sent (rq_auth (op_request op)) new \<le> attempts_of op \<and>
    (rq_auth (op_request op) \<noteq> AppAuth \<longrightarrow> sent AppAuth new \<le> attempts_of op) \<and> attempts_of op \<le> 3"
proof -
  have "calm (api_response op)" unfolding api_response_def by (rule calm_response [OF calm_token])
  then have r: "r \<noteq> Inl AssertionFailed" using assms unfolding calm_def by (metis fst_conv)
  have log: "\<exists>new. n_log w' = new @ n_log w \<and> sent a new \<le> k" if "costs a k (api_response op)" for a k
    using that assms(1) unfolding costs_def by (metis snd_conv)
  from log [OF costs_api_response] obtain new where new: "n_log w' = new @ n_log w" by blast
  have bound: "sent a new \<le> k" if "costs a k (api_response op)" for a k using log [OF that] new by auto
  have app: "sent AppAuth new \<le> attempts_of op"
  proof (cases "rq_auth (op_request op) = AppAuth")
    case True
    then have "api_response op = api_response_with (\<lambda>_. ret []) op"
      by (simp add: api_response_def api_response_with_def app_tokens [OF True, of "installation_token (op_stop op)" _ _ _ _ "\<lambda>_. ret []"])
    with costs_response [OF costs_free(1), of 1 op AppAuth] True show ?thesis by (intro bound) simp
  next
    case False
    with bound [OF costs_api_response [of AppAuth op]] show ?thesis by simp
  qed
  have "sent (rq_auth (op_request op)) new \<le> attempts_of op"
    using app bound [OF costs_api_response [of "rq_auth (op_request op)" op]] by (cases "rq_auth (op_request op) = AppAuth") simp_all
  moreover have "attempts_of op \<le> 3" by (simp add: attempts_of_def split: auth.split)
  ultimately show ?thesis using new r app by blast
qed

theorem operation_sends_boundedly_witness:
  "\<exists>new. n_log (snd (api_response (plain_operation ''GET'' ''/x'' (InstallationAuth 5) [] False) sample_net_env sample_net)) = new \<and>
     sent (InstallationAuth 5) new = 2 \<and> sent AppAuth new = 2"
proof -
  let ?op = "plain_operation ''GET'' ''/x'' (InstallationAuth 5) [] False"
  let ?log = "n_log (snd (api_response ?op sample_net_env sample_net))"
  have t: "tame sample_net_env" by (simp add: tame_def sample_net_env_def sample_send_def)
  have e: "rq_auth (op_request ?op) = InstallationAuth 5" "attempts_of ?op = 2" "n_log sample_net = []" by code_simp+
  have "returning (\<lambda>r w. 2 \<le> sent (InstallationAuth 5) (n_log w) \<and> 2 \<le> sent AppAuth (n_log w))
      (api_response ?op sample_net_env sample_net)" by code_simp
  then have n: "2 \<le> sent (InstallationAuth 5) ?log" "2 \<le> sent AppAuth ?log" by (auto elim!: returningE)
  from operation_sends_boundedly [OF prod.collapse [symmetric] t, of ?op sample_net] e n show ?thesis by auto
qed

end
