(* ===== verification/Client_Listing_Facts.thy ===== *)
theory Client_Listing_Facts
  imports Client_Facts Client_Commits
begin

text \<open>
  What the reads of the GitHub client promise: an answer was given to a request of the
  operation, a saved page is used only when GitHub confirms its validator, and a listing that
  returns is complete and ends after the pages that its first page announces.
\<close>

section \<open>What was logged between two worlds\<close>

definition later :: "net \<Rightarrow> net \<Rightarrow> bool" where
  "later w w' \<longleftrightarrow> (\<exists>new. n_log w' = new @ n_log w)"

definition logged :: "net \<Rightarrow> net \<Rightarrow> net_event \<Rightarrow> bool" where
  "logged w w' x \<longleftrightarrow> (\<exists>new. n_log w' = new @ n_log w \<and> x \<in> set new)"

interpretation log: program_preorder later
  by standard (auto simp: later_def)

lemma costs_later: "costs a k m \<Longrightarrow> m en w = (r, w') \<Longrightarrow> later w w'"
  unfolding costs_def later_def by (metis snd_conv)

lemma logged_later: "later w w1 \<Longrightarrow> logged w1 w' x \<Longrightarrow> logged w w' x"
  by (auto simp: later_def logged_def)

lemma logged_earlier: "logged w w1 x \<Longrightarrow> later w1 w' \<Longrightarrow> logged w w' x"
  by (auto simp: later_def logged_def)

section \<open>Answers\<close>

text \<open>\<open>r\<close> is what GitHub answered between two worlds to a request of the operation.\<close>

definition answer_to :: "operation \<Rightarrow> net \<Rightarrow> net \<Rightarrow> response \<Rightarrow> bool" where
  "answer_to op w w' r \<longleftrightarrow> (\<exists>rq. logged w w' (Physical rq (Inr r)) \<and> rs_sent r = rq_headers rq \<and>
     rq_method rq = rq_method (op_request op) \<and> rq_path rq = rq_path (op_request op) \<and>
     rq_auth rq = rq_auth (op_request op) \<and> rq_params rq = rq_params (op_request op))"

lemma answer_later: "later w w1 \<Longrightarrow> answer_to op w1 w' r \<Longrightarrow> answer_to op w w' r"
  unfolding answer_to_def by (blast intro: logged_later)

lemma answer_earlier: "answer_to op w w1 r \<Longrightarrow> later w1 w' \<Longrightarrow> answer_to op w w' r"
  unfolding answer_to_def by (blast intro: logged_earlier)

lemma exchange_answer:
  assumes "exchange op tolerant rq en w = (Inr (Some r), w')"
  shows "logged w w' (Physical rq (Inr r)) \<and> rs_sent r = rq_headers rq"
proof -
  from assms obtain u w1 w2 w3 receipt got where
    a: "await en w = (Inr u, w1)" and b: "admit_request rq en w1 = (Inr receipt, w2)"
    and c: "transmit rq en w2 = (Inr got, w3)"
    and rest: "(case got of Inl x \<Rightarrow> if x = RemoteProtocol \<and> tolerant then ret None else raise_exc x
     | Inr answer \<Rightarrow> seq (ask_net x_stop) (\<lambda>stopped.
         seq (observe_quota rq answer (if refundable_answer op rq answer stopped then receipt else None)) (\<lambda>_.
           ret (Some answer)))) en w3 = (Inr (Some r), w')"
    unfolding exchange_def by (elim runs_seqE) (rule that)
  from rest obtain v stopped w4 where got: "got = Inr r" and
    d: "observe_quota rq r (if refundable_answer op rq r stopped then receipt else None) en w3 = (Inr v, w4)" and w': "w' = w4"
    by (cases got) (auto simp: runs_basic ask_net_def elim!: runs_seqE split: if_splits)
  have "logged w2 w3 (Physical rq (Inr r))" and s: "rs_sent r = rq_headers rq"
    using c got by (auto simp: transmit_def Let_def note_event_def logged_def map_sum_def split: sum.splits)
  moreover note costs_later [OF costs_free(7) a] costs_later [OF costs_steps(2) b] costs_later [OF costs_steps(3) d]
  ultimately show ?thesis unfolding w' by (blast intro: logged_later logged_earlier)
qed

lemma authorized_request:
  assumes "authorized token_of rq en w = (Inr (token, sealed), w')"
  shows "rq_method sealed = rq_method rq \<and> rq_path sealed = rq_path rq \<and> rq_auth sealed = rq_auth rq \<and> rq_params sealed = rq_params rq"
  using assms by (auto simp: authorized_def runs_basic bearer_def split: auth.splits elim!: runs_seqE)

lemma attempts_answer:
  assumes t: "\<And>i. costs AppAuth 1 (token_of i)"
  shows "api_attempts token_of op n first refreshed transient en w = (Inr r, w') \<Longrightarrow> answer_to op w w' r"
proof (induction n arbitrary: first refreshed transient w)
  case (Suc n)
  let ?rq = "if first then op_request op else op_request op\<lparr>rq_headers := without_validators (rq_headers (op_request op))\<rparr>"
  let ?tolerant = "retries_discovery op \<and> \<not> transient \<and> 0 < n"
  from Suc.prems obtain u w1 token sealed w2 v w3 answer w4 x w5 where
    a: "raise_if_stopped (op_stop op) en w = (Inr u, w1)" and b: "authorized token_of ?rq en w1 = (Inr (token, sealed), w2)"
    and c: "raise_if_stopped (op_stop op) en w2 = (Inr v, w3)" and d: "exchange op ?tolerant sealed en w3 = (Inr answer, w4)"
    and e: "raise_if_stopped (op_stop op) en w4 = (Inr x, w5)"
    and rest: "(if rejected_token (op_request op) answer \<and> \<not> refreshed
       then seq (drop_token (op_request op) token) (\<lambda>_. api_attempts token_of op n False True transient)
       else case answer of
         None \<Rightarrow> seq pause_before_retry (\<lambda>_. seq (raise_if_stopped (op_stop op)) (\<lambda>_.
           api_attempts token_of op n False refreshed True))
       | Some r \<Rightarrow> if retries_discovery op \<and> \<not> transient \<and> transient_status r \<and> 0 < n
           then seq pause_before_retry (\<lambda>_. seq (raise_if_stopped (op_stop op)) (\<lambda>_.
             api_attempts token_of op n False refreshed True))
           else ret r) en w5 = (Inr r, w')"
    unfolding api_attempts.simps Let_def by (auto split: prod.splits elim!: runs_seqE)
  note steps = costs_later [OF costs_steps(1)] costs_later [OF costs_steps(4)] costs_later [OF costs_pause]
  have auth: "costs AppAuth (1 + 0) (seq (authorized token_of rq) ret)" for rq
    by (rule costs_authorized [OF t]) (rule costs_free(1))
  have "later w1 w2" by (rule costs_later [OF auth, of ?rq en _ "Inr (token, sealed)"]) (simp add: seq_def ret_def b)
  moreover have "later w3 w4" by (rule costs_later [OF costs_exchange d])
  ultimately have to5: "later w w5" using steps(1) [OF a] steps(1) [OF c] steps(1) [OF e] by (meson log.R_trans)
  have again: "answer_to op w w' r" if "later w5 w6" and "api_attempts token_of op n False refreshed' transient' en w6 = (Inr r, w')"
    for w6 refreshed' transient'
    by (rule answer_later [OF log.R_trans [OF to5 that(1)] Suc.IH [OF that(2)]])
  have retry: "answer_to op w w' r" if "seq pause_before_retry (\<lambda>_. seq (raise_if_stopped (op_stop op)) (\<lambda>_.
           api_attempts token_of op n False refreshed True)) en w5 = (Inr r, w')"
    using that by (elim runs_seqE) (rule again; (blast intro: log.R_trans steps)?)
  show ?case
  proof (cases "rejected_token (op_request op) answer \<and> \<not> refreshed")
    case True
    from rest [unfolded if_P [OF True]] show ?thesis by (elim runs_seqE) (rule again; (blast intro: steps)?)
  next
    case False
    note rest = rest [unfolded if_not_P [OF False]]
    show ?thesis
    proof (cases answer)
      case None
      with rest retry show ?thesis by simp
    next
      case (Some s)
      show ?thesis
      proof (cases "retries_discovery op \<and> \<not> transient \<and> transient_status s \<and> 0 < n")
        case True
        with rest Some retry show ?thesis by simp
      next
        case False
        with rest Some have r: "s = r" "w' = w5" by (auto simp: runs_basic split: if_splits)
        from exchange_answer [OF d [unfolded Some r(1)]] authorized_request [OF b] have "answer_to op w3 w4 r"
          unfolding answer_to_def by (intro exI [of _ sealed]) simp
        from answer_earlier [OF answer_later [OF _ this, of w] steps(1) [OF e]] \<open>later w1 w2\<close> steps(1) [OF a] steps(1) [OF c]
        show ?thesis unfolding r(2) by (meson log.R_trans)
      qed
    qed
  qed
qed (simp add: runs_basic)

lemma response_answer:
  assumes "api_response op en w = (Inr r, w')"
  shows "answer_to op w w' r"
proof -
  have "costs AppAuth 1 (installation_token (op_stop op) i)" for i by (rule costs_token) simp
  moreover have "api_attempts (installation_token (op_stop op)) op (attempts_of op) True False False en w = (Inr r, w')"
    using assms by (auto simp: api_response_def api_response_with_def within_deadline_def runs_handle runs_basic
      elim!: runs_seqE split: if_splits)
  ultimately show ?thesis by (rule attempts_answer)
qed

section \<open>Saved pages\<close>

text \<open>The page saved under the key of a request, as the cache gives it at the start.\<close>

definition saved_page :: "string \<Rightarrow> int \<Rightarrow> (string \<times> json) list \<Rightarrow> net_env \<Rightarrow> net \<Rightarrow> cache_entry \<Rightarrow> bool" where
  "saved_page path i params en w e \<longleftrightarrow> (\<exists>w1. look_up (compact_path path) (i, path, x_dumps en params) en w = (Inr (Some e), w1))"

lemma quiet_cache: "n_log (snd (look_up slim key en w)) = n_log w" "n_log (snd (forget_page slim key en w)) = n_log w"
  by (auto simp: look_up_def forget_page_def split: prod.split sum.split)

lemma later_cache: "look_up slim key en w = (r, w') \<Longrightarrow> later w w'" "forget_page slim key en w = (q, w') \<Longrightarrow> later w w'"
  using quiet_cache [of slim key en w] unfolding later_def by (metis append_Nil snd_conv)+

lemma answered_page_cases:
  assumes "answered_page slim key cached a en w = (Inr r, w')"
  shows "rs_status a \<noteq> 304 \<and> r = a \<or> (\<exists>e. cached = Some e \<and> rs_status a = 304 \<and>
    sent_header ''if-none-match'' a = Some (ce_etag e) \<and> r = revalidated e a)" "later w w'"
  using assms by (auto simp: answered_page_def runs_basic log.R_refl elim!: runs_seqE dest: later_cache split: if_splits option.splits)

definition page_request :: "string \<Rightarrow> int \<Rightarrow> (string \<times> json) list \<Rightarrow> operation" where
  "page_request path i params = discovery_operation path i params False None"

definition confirmed_page ::
  "string \<Rightarrow> int \<Rightarrow> (string \<times> json) list \<Rightarrow> net_env \<Rightarrow> net \<Rightarrow> net \<Rightarrow> response \<Rightarrow> bool" where
  "confirmed_page path i params en w w' r \<longleftrightarrow>
     (\<exists>a. answer_to (page_request path i params) w w' a \<and> (rs_status a \<noteq> 304 \<and> r = a \<or>
        rs_status a = 304 \<and> (\<exists>e. saved_page path i params en w e \<and>
          sent_header ''if-none-match'' a = Some (ce_etag e) \<and> r = revalidated e a)))"

lemma discovery_confirmed:
  assumes "discovery_response path i params stop en w = (Inr r, w')"
  shows "confirmed_page path i params en w w' r \<and> later w w'"
proof -
  let ?key = "(i, path, x_dumps en params)" and ?slim = "compact_path path"
  from assms obtain cached w1 u w2 where look: "look_up ?slim ?key en w = (Inr cached, w1)"
    and forget: "forget_page ?slim ?key en w1 = (Inr u, w2)"
    and rest: "handle (seq (api_response (discovery_operation path i params stop cached)) (\<lambda>r.
           seq (raise_if_stopped stop) (\<lambda>_. answered_page ?slim ?key cached r)))
         (\<lambda>x. seq (forget_page ?slim ?key) (\<lambda>_. raise_exc x)) en w2 = (Inr r, w')"
    unfolding discovery_response_def discovery_key_def Let_def
    by (auto simp: ask_net_def elim!: runs_seqE)
  from rest obtain a w3 v w4 where ask: "api_response (discovery_operation path i params stop cached) en w2 = (Inr a, w3)"
    and s: "raise_if_stopped stop en w3 = (Inr v, w4)" and page: "answered_page ?slim ?key cached a en w4 = (Inr r, w')"
    by (auto simp: runs_handle runs_basic elim!: runs_seqE)
  have to2: "later w w2" using later_cache(1) [OF look] later_cache(2) [OF forget] by (rule log.R_trans)
  have from3: "later w3 w'" using costs_later [OF costs_steps(1) s] answered_page_cases(2) [OF page] by (rule log.R_trans)
  have "answer_to (discovery_operation path i params stop cached) w w' a"
    by (rule answer_later [OF to2 answer_earlier [OF response_answer [OF ask] from3]])
  then have answer: "answer_to (page_request path i params) w w' a"
    by (simp add: answer_to_def page_request_def discovery_operation_def)
  have "saved_page path i params en w e" if "cached = Some e" for e
    using look that unfolding saved_page_def by blast
  with answered_page_cases(1) [OF page] answer have "confirmed_page path i params en w w' r"
    unfolding confirmed_page_def by blast
  moreover have "later w w'" using response_answer [OF ask] to2 from3
    by (meson answer_to_def logged_def later_def log.R_trans)
  ultimately show ?thesis ..
qed

text \<open>C16. A saved page is never sufficient: whatever a discovery read returns is an answer that GitHub gave,
  during this read, to a request for exactly this path, installation and query; either its own
  body, or, after a 304 to a request that carried the validator of the saved page, the saved
  body; so a 304 to any other request, a retry without validators included, is an error.\<close>

theorem saved_page_needs_confirmation:
  assumes "discovery_response path i params stop en w = (Inr r, w')"
  shows "\<exists>a. answer_to (page_request path i params) w w' a \<and> (rs_status a \<noteq> 304 \<and> r = a \<or>
    rs_status a = 304 \<and> (\<exists>e. saved_page path i params en w e \<and>
      sent_header ''if-none-match'' a = Some (ce_etag e) \<and> r = revalidated e a))"
  using discovery_confirmed [OF assms] by (simp add: confirmed_page_def)

text \<open>The cache after a first listing, which the next read revalidates.\<close>

definition sample_seen :: net where
  "sample_seen = snd (list_installation_repositories 1 sample_library 5 False sample_net_env sample_net)"

theorem saved_page_needs_confirmation_witness:
  "\<exists>a e. rs_status a = 304 \<and> saved_page REPOSITORIES_PATH 5 [] sample_net_env sample_seen e \<and>
     sent_header ''if-none-match'' a = Some (ce_etag e) \<and>
     fst (discovery_response REPOSITORIES_PATH 5 [] False sample_net_env sample_seen) = Inr (revalidated e a)"
proof -
  let ?p = "discovery_response REPOSITORIES_PATH 5 [] False sample_net_env sample_seen"
  have "returning (\<lambda>r w'. list_all (\<lambda>e. case e of Physical _ (Inr a) \<Rightarrow> rs_status a = 304 | _ \<Rightarrow> True)
      (take (length (n_log w') - length (n_log sample_seen)) (n_log w'))) ?p" by code_simp
  then obtain r w' where r: "?p = (Inr r, w')" and
    all: "list_all (\<lambda>e. case e of Physical _ (Inr a) \<Rightarrow> rs_status a = 304 | _ \<Rightarrow> True)
      (take (length (n_log w') - length (n_log sample_seen)) (n_log w'))" by (rule returningE)
  from saved_page_needs_confirmation [OF r] obtain a where
    a: "answer_to (page_request REPOSITORIES_PATH 5 []) sample_seen w' a" and
    c: "rs_status a \<noteq> 304 \<and> r = a \<or> rs_status a = 304 \<and> (\<exists>e. saved_page REPOSITORIES_PATH 5 [] sample_net_env sample_seen e \<and>
      sent_header ''if-none-match'' a = Some (ce_etag e) \<and> r = revalidated e a)" by blast
  from a obtain rq new where "n_log w' = new @ n_log sample_seen" and "Physical rq (Inr a) \<in> set new"
    by (auto simp: answer_to_def logged_def)
  with all r have "rs_status a = 304" by (auto simp: list_all_iff split: net_event.splits)
  with c r show ?thesis by auto
qed

section \<open>The repositories of an installation\<close>

lemma checked_repositories_objects: "checked_repositories seen vs = Inr obs \<Longrightarrow> vs = map JObj obs"
  by (induction seen vs arbitrary: obs rule: checked_repositories.induct) (auto split: option.splits if_splits)

text \<open>What a validated page says: its share of the announced number, and the next page.\<close>

definition page_of_total :: "int \<Rightarrow> repository_page \<Rightarrow> bool" where
  "page_of_total page p \<longleftrightarrow> 0 \<le> rp_total p \<and> page \<le> last_page_of (rp_total p) \<and>
    int (length (rp_repositories p)) = min 100 (max 0 (rp_total p - (page - 1) * 100)) \<and>
    rp_next p = (if page < last_page_of (rp_total p) then page + 1 else 0)"

definition announces :: "json \<Rightarrow> repository_page \<Rightarrow> bool" where
  "announces v p \<longleftrightarrow> (\<exists>ob. v = JObj ob \<and> get_key ''total_count'' ob = JInt (rp_total p) \<and>
     get_key ''repositories'' ob = JList (map JObj (rp_repositories p)))"

lemma validated_page_says:
  assumes "validated_page lib page expected r v = Inr p"
  shows "page_of_total page p \<and> announces v p \<and> (expected = None \<or> expected = Some (rp_total p))"
  using assms unfolding validated_page_def page_of_total_def announces_def
  by (auto simp: Let_def dest!: checked_repositories_objects split: option.splits if_splits)

definition repository_query :: "int \<Rightarrow> (string \<times> json) list" where
  "repository_query page = [(''per_page'', JInt 100), (''page'', JInt page)]"

text \<open>\<open>served\<close>: between two worlds GitHub confirmed this page.\<close>

definition served :: "net_env \<Rightarrow> int \<Rightarrow> net \<Rightarrow> net \<Rightarrow> int \<Rightarrow> repository_page \<Rightarrow> bool" where
  "served en i w w' page p \<longleftrightarrow> (\<exists>w1 w2 r v. later w w1 \<and> later w2 w' \<and>
     confirmed_page REPOSITORIES_PATH i (repository_query page) en w1 w2 r \<and> x_loads en (rs_body r) = Some v \<and> announces v p)"

lemma served_later: "later w w1 \<Longrightarrow> served en i w1 w' page p \<Longrightarrow> served en i w w' page p"
  unfolding served_def by (blast intro: log.R_trans)

lemma served_earlier: "served en i w w1 page p \<Longrightarrow> later w1 w' \<Longrightarrow> served en i w w' page p"
  unfolding served_def by (blast intro: log.R_trans)

lemma served_between: "served en i w w' page p \<Longrightarrow> later w w'"
  unfolding served_def confirmed_page_def answer_to_def logged_def
  by (metis (no_types, lifting) later_def log.R_trans)

lemma later_quiet:
  "raise_if_stopped b en w = (Inr u, w') \<Longrightarrow> later w w'" "successful app r en w = (Inr u, w') \<Longrightarrow> later w w'"
  "parsed_body r en w = (Inr v, w') \<Longrightarrow> w' = w \<and> x_loads en (rs_body r) = Some v"
  by (auto simp: successful_def raise_api_error_def parsed_body_def ask_net_def runs_basic log.R_refl
      elim!: runs_seqE split: if_splits option.splits intro: costs_later [OF costs_steps(1)])

lemma later_remember: "remember_page path i params r en w = (Inr u, w') \<Longrightarrow> later w w'"
proof -
  have q: "later w0 w1" if "store_page slim key e en w0 = (q, w1)" for slim key e q and w0 w1 :: net
    using that by (auto simp: store_page_def later_def split: prod.splits)
  show "remember_page path i params r en w = (Inr u, w') \<Longrightarrow> later w w'"
    unfolding remember_page_def discovery_key_def Let_def
    by (auto simp: ask_net_def runs_basic elim!: runs_seqE dest!: later_cache q intro: log.R_trans split: if_splits)
qed

lemma repository_page_says:
  assumes "list_installation_repository_page lib i page expected stop en w = (Inr p, w')"
  shows "1 \<le> page \<and> page_of_total page p \<and> (expected = None \<or> expected = Some (rp_total p)) \<and>
    served en i w w' page p \<and> later w w'"
proof -
  from assms have page: "1 \<le> page" unfolding list_installation_repository_page_def Let_def
    by (auto simp: runs_basic split: if_splits)
  from assms obtain u w1 r w2 x w3 y w4 v w5 z where
    a: "raise_if_stopped stop en w = (Inr u, w1)"
    and b: "discovery_response REPOSITORIES_PATH i (repository_query page) stop en w1 = (Inr r, w2)"
    and c: "raise_if_stopped stop en w2 = (Inr x, w3)" and d: "successful False r en w3 = (Inr y, w4)"
    and e: "parsed_body r en w4 = (Inr v, w5)" and f: "validated_page lib page expected r v = Inr p"
    and g: "remember_page REPOSITORIES_PATH i (repository_query page) r en w5 = (Inr z, w')"
    unfolding list_installation_repository_page_def Let_def repository_query_def [symmetric]
    by (auto simp: runs_basic elim!: runs_seqE split: if_splits)
  note says = validated_page_says [OF f]
  note conf = discovery_confirmed [OF b]
  have to1: "later w w1" by (rule later_quiet(1) [OF a])
  have "later w2 w4" using later_quiet(1) [OF c] later_quiet(2) [OF d] by (rule log.R_trans)
  moreover have "w5 = w4" and v: "x_loads en (rs_body r) = Some v" using later_quiet(3) [OF e] by auto
  moreover note later_remember [OF g]
  ultimately have from2: "later w2 w'" by (metis log.R_trans)
  have "served en i w w' page p" unfolding served_def using to1 from2 conf v says by blast
  moreover have "later w w'" using to1 conf from2 by (blast intro: log.R_trans)
  ultimately show ?thesis using page says by blast
qed

lemma page_count:
  assumes "page_of_total page p" and "1 \<le> page"
  shows "rp_next p = 0 \<Longrightarrow> page = last_page_of (rp_total p) \<and> (page - 1) * 100 + int (length (rp_repositories p)) = rp_total p"
    and "rp_next p \<noteq> 0 \<Longrightarrow> rp_next p = page + 1 \<and> int (length (rp_repositories p)) = 100 \<and> page < last_page_of (rp_total p)"
  using assms unfolding page_of_total_def last_page_of_def by (auto split: if_splits) 

lemma repositories_complete:
  assumes "repositories_from n lib i stop page expected got en w = (Inr obs, w')"
    and "1 \<le> page" and "int (length got) = (page - 1) * 100"
  shows "\<exists>count. (expected = None \<or> expected = Some count) \<and> int (length obs) = count \<and> set got \<subseteq> set obs \<and>
    page \<le> last_page_of count \<and> (\<forall>k. page \<le> k \<and> k \<le> last_page_of count \<longrightarrow>
      (\<exists>p. served en i w w' k p \<and> rp_total p = count \<and> set (rp_repositories p) \<subseteq> set obs))"
  using assms
proof (induction n arbitrary: page expected got w)
  case (Suc n)
  from Suc.prems(1) obtain p w1 where p: "list_installation_repository_page lib i page expected stop en w = (Inr p, w1)"
    and rest: "(if rp_next p = 0 then ret (got @ rp_repositories p)
       else repositories_from n lib i stop (rp_next p) (Some (rp_total p)) (got @ rp_repositories p)) en w1 = (Inr obs, w')"
    unfolding repositories_from.simps by (elim runs_seqE)
  note says = repository_page_says [OF p]
  note counts = page_count [OF conjunct1 [OF conjunct2 [OF says]] Suc.prems(2)]
  show ?case
  proof (cases "rp_next p = 0")
    case True
    with rest have "obs = got @ rp_repositories p" and "w' = w1" by (simp_all add: runs_basic)
    with counts(1) [OF True] says Suc.prems(3) show ?thesis by (intro exI [of _ "rp_total p"]) auto
  next
    case False
    note next_page = counts(2) [OF False]
    have run: "repositories_from n lib i stop (page + 1) (Some (rp_total p)) (got @ rp_repositories p) en w1 = (Inr obs, w')"
      using rest False next_page by simp
    from Suc.IH [OF run] Suc.prems(2,3) next_page have
      obs: "int (length obs) = rp_total p" "set (got @ rp_repositories p) \<subseteq> set obs" and
      pages: "\<And>k. page + 1 \<le> k \<Longrightarrow> k \<le> last_page_of (rp_total p) \<Longrightarrow>
        \<exists>q. served en i w1 w' k q \<and> rp_total q = rp_total p \<and> set (rp_repositories q) \<subseteq> set obs"
      by auto
    from pages [of "page + 1"] next_page have "later w1 w'" by (auto dest: served_between)
    with says have first: "served en i w w' page p" by (blast intro: served_earlier)
    have "\<exists>q. served en i w w' k q \<and> rp_total q = rp_total p \<and> set (rp_repositories q) \<subseteq> set obs"
      if "page \<le> k" and "k \<le> last_page_of (rp_total p)" for k
    proof (cases "k = page")
      case True
      with first obs show ?thesis by auto
    next
      case False
      with that pages [of k] says show ?thesis by (auto intro: served_later)
    qed
    with says obs show ?thesis by (intro exI [of _ "rp_total p"]) (auto simp: page_of_total_def)
  qed
qed (simp add: runs_basic)

lemma repositories_enough:
  assumes "1 \<le> page" and "page \<le> last_page_of t" and "last_page_of t - page < int n" and "n \<le> m"
  shows "repositories_from m lib i stop page (Some t) got en w = repositories_from n lib i stop page (Some t) got en w"
  using assms
proof (induction n arbitrary: m page got w)
  case (Suc n)
  then obtain m' where m: "m = Suc m'" and le: "n \<le> m'" by (cases m) auto
  obtain r w1 where run: "list_installation_repository_page lib i page (Some t) stop en w = (r, w1)"
    by (cases "list_installation_repository_page lib i page (Some t) stop en w")
  show ?case
  proof (cases r)
    case (Inr p)
    note says = repository_page_says [OF run [unfolded Inr]]
    show ?thesis
    proof (cases "rp_next p = 0")
      case False
      from page_count(2) [OF conjunct1 [OF conjunct2 [OF says]] Suc.prems(1) False] says Suc.prems(3)
      have "rp_next p = page + 1" "rp_total p = t" "page + 1 \<le> last_page_of t" "last_page_of t - (page + 1) < int n" by auto
      with Suc.IH [of "page + 1" m' "got @ rp_repositories p" w1] le Suc.prems(1) show ?thesis
        by (simp add: m seq_def run Inr)
    qed (simp add: m seq_def run Inr)
  qed (simp add: m seq_def run)
qed simp

text \<open>How many pages the first answer announces; one, if the first page cannot be read.\<close>

definition announced_pages :: "svc_exc + repository_page \<Rightarrow> nat" where
  "announced_pages r = (case r of Inl _ \<Rightarrow> 1 | Inr p \<Rightarrow> nat (last_page_of (rp_total p)))"

text \<open>C36. The listing of an installation's repositories always ends, and asks for no page beyond the
  number the first page announces, whatever GitHub answers on the later pages: bounding
  the loop at exactly that many pages (at one, if the first page is an error) changes neither
  the result nor the requests made, so the loop never starts a further page.\<close>

theorem repository_listing_ends:
  "list_installation_repositories
       (announced_pages (fst (list_installation_repository_page lib i 1 None stop en w)) + extra) lib i stop en w =
     list_installation_repositories
       (announced_pages (fst (list_installation_repository_page lib i 1 None stop en w))) lib i stop en w"
proof -
  obtain r w1 where run: "list_installation_repository_page lib i 1 None stop en w = (r, w1)"
    by (cases "list_installation_repository_page lib i 1 None stop en w")
  have lp: "1 \<le> last_page_of t" for t by (simp add: last_page_of_def)
  then have "1 \<le> announced_pages r" using nat_mono [OF lp] by (simp add: announced_pages_def split: sum.split)
  then obtain n where n: "announced_pages r = Suc n" by (cases "announced_pages r") auto
  have "list_installation_repositories (Suc (n + extra)) lib i stop en w = list_installation_repositories (Suc n) lib i stop en w"
  proof (cases r)
    case (Inr p)
    note says = repository_page_says [OF run [unfolded Inr]]
    show ?thesis
    proof (cases "rp_next p = 0")
      case False
      note next_page = page_count(2) [OF conjunct1 [OF conjunct2 [OF says]] _ False]
      have "last_page_of (rp_total p) - 2 < int n" using n lp [of "rp_total p"] by (simp add: announced_pages_def Inr)
      from repositories_enough [OF _ _ this, of "n + extra"] next_page Inr show ?thesis
        by (simp add: list_installation_repositories_def seq_def run)
    qed (simp add: list_installation_repositories_def seq_def run Inr)
  qed (simp add: list_installation_repositories_def seq_def run)
  with n show ?thesis by (simp add: run)
qed

text \<open>C15. A repository listing that returns is complete: it has exactly as many repositories as every one
  of its pages announced, and holds every repository of every page up to the last one, each of
  which GitHub confirmed during the listing; a page that is short, long, repeated or announces
  another number is an error instead.\<close>

theorem repository_listing_is_complete:
  assumes "list_installation_repositories n lib i stop en w = (Inr obs, w')"
  shows "\<exists>count. int (length obs) = count \<and> (\<forall>page. 1 \<le> page \<and> page \<le> last_page_of count \<longrightarrow>
    (\<exists>p. served en i w w' page p \<and> rp_total p = count \<and> set (rp_repositories p) \<subseteq> set obs))"
  using repositories_complete [OF assms [unfolded list_installation_repositories_def]] by auto

theorem repository_listing_is_complete_witness:
  "\<exists>obs p w'. list_installation_repositories 1 sample_library 5 False sample_net_env sample_net = (Inr obs, w') \<and>
     length obs = 1 \<and> served sample_net_env 5 sample_net w' 1 p \<and> rp_total p = 1"
proof -
  let ?p = "list_installation_repositories 1 sample_library 5 False sample_net_env sample_net"
  have "returning (\<lambda>obs w'. length obs = 1) ?p" by code_simp
  then obtain obs w' where r: "?p = (Inr obs, w')" and l: "length obs = 1" by (rule returningE)
  have "last_page_of 1 = 1" by code_simp
  with repository_listing_is_complete [OF r] l obtain p where p: "served sample_net_env 5 sample_net w' 1 p"
    "rp_total p = 1" by auto
  with r l show ?thesis by blast
qed

section \<open>Absent checks\<close>

text \<open>A commit is taken to have no check of the App only on an empty answer that GitHub confirmed during
  this read.\<close>

lemma absent_check_is_confirmed:
  assumes "has_reconciliation_check lib own_id i repo head check_name stop en w = (Inr False, w')"
  shows "\<exists>params w1 r ob. confirmed_page (''/repos/'' @ repo @ ''/commits/'' @ head @ ''/check-runs'') i params en w w1 r \<and>
    x_loads en (rs_body r) = Some (JObj ob) \<and> get_key ''total_count'' ob = JInt 0 \<and> get_key ''check_runs'' ob = JList []"
proof -
  from assms obtain params r w1 w2 u v w3 reported where
    page: "discovery_response (''/repos/'' @ repo @ ''/commits/'' @ head @ ''/check-runs'') i params stop en w = (Inr r, w1)"
    and body: "parsed_body r en w2 = (Inr v, w3)" and none: "reported_checks v = Inr False"
    unfolding has_reconciliation_check_def Let_def by (auto simp: runs_basic elim!: runs_seqE split: if_splits)
  from none obtain ob where "v = JObj ob" "get_key ''total_count'' ob = JInt 0" "get_key ''check_runs'' ob = JList []"
    unfolding reported_checks_def by (auto split: option.splits if_splits)
  with discovery_confirmed [OF page] later_quiet(3) [OF body] show ?thesis by blast
qed

end
