(* ===== verification/Client_Evidence_Facts.thy ===== *)
theory Client_Evidence_Facts
  imports Client_Listing_Facts Dco_Facts
begin

text \<open>
  What the collection of the sign-off evidence promises: the list of the commits ends after as
  many pages as there are commits, the evidence is complete and in order, and the sign-off
  evaluation of it is decided by the ancestry and the sign-offs alone.
\<close>

section \<open>One page of commits\<close>

lemma append_commits_says:
  "append_commits got vs = Inr all \<Longrightarrow> length all = length got + length vs \<and>
     (distinct (map pc_sha got) \<longrightarrow> distinct (map pc_sha all))"
proof (induction vs arbitrary: got)
  case (Cons v vs)
  then obtain node item where "as_obj v = Some node" and "pull_commit_from_graphql node = Inr item"
    and new: "pc_sha item \<notin> pc_sha ` set got" and rest: "append_commits (got @ [item]) vs = Inr all"
    by (auto split: option.splits sum.splits dco_error.splits if_splits)
  from Cons.IH [OF rest] new show ?case by auto
qed simp

lemma next_cursor_says:
  "next_cursor pull got seen info = Inr upcoming \<Longrightarrow> upcoming = None \<longleftrightarrow> ps_commit_count pull \<le> int (length got)"
  unfolding next_cursor_def by (auto simp: not_less split: option.splits if_splits)

lemma commit_page_says:
  assumes "commit_page pull got seen data = Inr (all, upcoming)"
  shows "1 \<le> ps_commit_count pull \<and>
    int (length all) = int (length got) + min 100 (ps_commit_count pull - int (length got)) \<and>
    (distinct (map pc_sha got) \<longrightarrow> distinct (map pc_sha all)) \<and>
    (upcoming = None \<longleftrightarrow> ps_commit_count pull \<le> int (length all))"
proof -
  from assms obtain commits where "connection_page pull got seen commits = Inr (all, upcoming)"
    unfolding commit_page_def by (auto split: option.splits)
  then obtain nodes info where n: "int (length nodes) = min 100 (ps_commit_count pull - int (length got))"
    and c: "1 \<le> ps_commit_count pull" and a: "append_commits got nodes = Inr all"
    and e: "next_cursor pull all seen info = Inr upcoming"
    unfolding connection_page_def by (auto split: option.splits if_splits)
  from append_commits_says [OF a] next_cursor_says [OF e] n c show ?thesis by auto
qed

section \<open>The list of the commits\<close>

lemma commits_says:
  assumes "commits_from n i pull cursor got seen en w = (Inr items, w')"
    and "int (length got) \<le> ps_commit_count pull \<or> got = []"
  shows "int (length items) = ps_commit_count pull \<and> (distinct (map pc_sha got) \<longrightarrow> distinct (map pc_sha items))"
  using assms
proof (induction n arbitrary: cursor got seen w)
  case (Suc n)
  from Suc.prems(1) obtain data w1 all upcoming where page: "commit_page pull got seen data = Inr (all, upcoming)"
    and rest: "(case upcoming of None \<Rightarrow> ret all | Some c \<Rightarrow> commits_from n i pull (Some c) all (c # seen)) en w1 = (Inr items, w')"
    unfolding commits_from.simps by (auto simp: runs_basic elim!: runs_seqE)
  note says = commit_page_says [OF page]
  show ?case
  proof (cases upcoming)
    case None
    with rest have "items = all" by (simp add: runs_basic)
    with says None Suc.prems(2) show ?thesis by auto
  next
    case (Some c)
    with rest have "commits_from n i pull (Some c) all (c # seen) en w1 = (Inr items, w')" by simp
    from Suc.IH [OF this] says Some show ?thesis by auto
  qed
qed (simp add: runs_basic)

lemma commits_enough:
  assumes "ps_commit_count pull - int (length got) < int n" and "n \<le> m" and "0 < n"
  shows "commits_from m i pull cursor got seen en w = commits_from n i pull cursor got seen en w"
  using assms
proof (induction n arbitrary: m cursor got seen w)
  case (Suc n)
  then obtain m' where m: "m = Suc m'" and le: "n \<le> m'" by (cases m) auto
  have step: "commits_from m' i pull (Some c) all (c # seen) en w1 = commits_from n i pull (Some c) all (c # seen) en w1"
    if "commit_page pull got seen data = Inr (all, Some c)" for data all c w1
  proof (rule Suc.IH [OF _ le])
    from commit_page_says [OF that] Suc.prems(1)
    show "ps_commit_count pull - int (length all) < int n" and "0 < n" by auto
  qed
  show ?case unfolding m commits_from.simps
    by (auto simp: seq_def of_result_def step split: prod.split sum.split option.split)
qed simp

lemma compare_says:
  assumes "compare_pull_commits n i pull en w = (Inr cmp, w')"
  shows "cmp_repository cmp = ps_repository pull \<and> cmp_pull cmp = ps_number pull \<and> cmp_base_sha cmp = ps_base_sha pull \<and>
    cmp_head_sha cmp = ps_head_sha pull \<and> cmp_base_commit cmp = ps_base_sha pull \<and> cmp_total cmp = ps_commit_count pull \<and>
    cmp_ahead cmp = ps_commit_count pull \<and>
    int (length (cmp_commits cmp)) = ps_commit_count pull \<and> distinct (map pc_sha (cmp_commits cmp)) \<and>
    pc_sha (last (cmp_commits cmp)) = ps_head_sha pull"
proof -
  from assms obtain items w1 where items: "commits_from n i pull None [] [] en w = (Inr items, w1)"
    and last: "pc_sha (last items) = ps_head_sha pull"
    and cmp: "cmp = \<lparr>cmp_repository = ps_repository pull, cmp_pull = ps_number pull, cmp_base_sha = ps_base_sha pull,
          cmp_head_sha = ps_head_sha pull, cmp_base_commit = ps_base_sha pull, cmp_total = ps_commit_count pull,
          cmp_ahead = ps_commit_count pull, cmp_commits = items\<rparr>"
    unfolding compare_pull_commits_def by (auto simp: runs_basic elim!: runs_seqE split: if_splits)
  from commits_says [OF items] last cmp show ?thesis by simp
qed

section \<open>The details\<close>

lemma evidence_sha:
  assumes "commit_from_graphql commit = Inr e" and "get_key ''oid'' commit = JStr sha"
  shows "ce_sha e = sha"
proof -
  from assms(1) obtain v where "map_of commit ''oid'' = Some v" and "ce_sha e = the (as_str v)"
    unfolding commit_from_graphql_def by (auto simp: build_Inr)
  with assms(2) show ?thesis by (simp add: get_key_def get_or_def as_str_def)
qed

lemma detail_says:
  assumes "commit_detail pull item data = Inr (e, n)"
  shows "ce_sha e = pc_sha item \<and> sha_re (ce_sha e)"
proof -
  from assms obtain commit where "get_key ''oid'' commit = JStr (pc_sha item)" and "commit_from_graphql commit = Inr e"
    unfolding commit_detail_def by (auto split: option.splits if_splits sum.splits dco_error.splits)
  from evidence_sha [OF this(2,1)] commit_from_graphql_sha [OF this(2)] show ?thesis ..
qed

lemma commit_evidence_says:
  "get_commit_evidence i pull item en w = (Inr r, w') \<Longrightarrow> ce_sha (fst r) = pc_sha item \<and> sha_re (ce_sha (fst r))"
  unfolding get_commit_evidence_def by (cases r) (auto simp: runs_basic elim!: runs_seqE dest!: detail_says)

lemma both_runs:
  assumes "both m n en w = (Inr rs, w')"
  obtains a b w1 where "rs = [a, b]" and "m en w = (Inr a, w1)" and "n en w1 = (Inr b, w')"
proof -
  from assms obtain r w1 s where r: "m en w = (r, w1)" and s: "n en w1 = (s, w')"
    and rs: "bind_result r (\<lambda>a. bind_result s (\<lambda>b. Inr [a, b])) = Inr rs"
    unfolding both_def by (auto simp: runs_attempt runs_basic simp del: bind_result_Inr elim!: runs_seqE)
  from rs obtain a b where "r = Inr a" "s = Inr b" "rs = [a, b]" by auto
  with r s show ?thesis by (auto intro: that)
qed

lemma batches_say:
  "evidence_batches i pull bytes items en w = (Inr es, w') \<Longrightarrow>
     map ce_sha es = map pc_sha items \<and> list_all (\<lambda>e. sha_re (ce_sha e)) es"
proof (induction i pull bytes items arbitrary: es w w' rule: evidence_batches.induct)
  case (1 i pull bytes a b items)
  from "1.prems" obtain rs w1 total_bytes w2 rest where
    both: "both (get_commit_evidence i pull a) (get_commit_evidence i pull b) en w = (Inr rs, w1)"
    and rest: "evidence_batches i pull total_bytes items en w2 = (Inr rest, w')" and es: "es = map fst rs @ rest"
    unfolding evidence_batches.simps by (auto simp: runs_basic elim!: runs_seqE)
  from both obtain x y w3 where "rs = [x, y]" "get_commit_evidence i pull a en w = (Inr x, w3)"
    "get_commit_evidence i pull b en w3 = (Inr y, w1)" by (rule both_runs)
  from commit_evidence_says [OF this(2)] commit_evidence_says [OF this(3)] this(1) "1.IH" [OF rest] es
  show ?case by auto
next
  case (2 i pull bytes a)
  then show ?case by (auto simp: runs_basic elim!: runs_seqE dest!: commit_evidence_says)
qed (simp add: runs_basic)

section \<open>The sign-off of what was collected\<close>

text \<open>The input of the evaluation when the pull request was seen unchanged.\<close>

definition collected_input :: "pull_snapshot \<Rightarrow> comparison \<Rightarrow> commit_evidence list \<Rightarrow> dco_input" where
  "collected_input pull cmp es = \<lparr>di_event = pull, di_before = pull, di_after = pull, di_comparison = cmp, di_commits = es\<rparr>"

text \<open>No commit before one of its parents, and each reachable from the head.\<close>

definition ancestral :: "pull_snapshot \<Rightarrow> commit_evidence list \<Rightarrow> bool" where
  "ancestral pull es \<longleftrightarrow> (\<forall>i < length es. \<forall>q \<in> set (ce_parents (es ! i)). q \<notin> set (drop i (map ce_sha es))) \<and>
     (\<forall>c \<in> set es. (ps_head_sha pull, ce_sha c) \<in> (commit_edges es)\<^sup>*)"

text \<open>C14. The collected evidence is complete for the sign-off: when the client returns the commits and
  their details for an open pull request, there is exactly one detail per commit, in order, as
  many as the snapshot counts, distinct and ending in its head; so the evaluation of an
  unchanged pull request neither fails nor refuses the evidence as mismatched, and it passes
  if and only if the commits are in ancestral order and each is signed.\<close>

theorem collected_evidence_decides:
  assumes "get_pull_commit_evidence n i pull en w = (Inr (cmp, es), w')"
    and "pull_ok pull" and "ps_state pull = ''open''"
  shows "map ce_sha es = map pc_sha (cmp_commits cmp) \<and> int (length es) = ps_commit_count pull \<and>
    (\<exists>r. evaluate_dco (collected_input pull cmp es) = Inr r \<and>
      (dr_passed r \<longleftrightarrow> ancestral pull es \<and> (\<forall>c \<in> set es. signed pull c)))"
proof -
  from assms(1) obtain w1 bytes where cmp: "compare_pull_commits n i pull en w = (Inr cmp, w1)"
    and es: "evidence_batches i pull bytes (cmp_commits cmp) en w1 = (Inr es, w')"
    unfolding get_pull_commit_evidence_def by (auto simp: runs_basic elim!: runs_seqE)
  note says = compare_says [OF cmp] and shas = batches_say [OF es]
  have len: "length es = length (cmp_commits cmp)" using shas by (metis length_map)
  have "dco_input_ok (collected_input pull cmp es)" using assms(2) shas by (simp add: dco_input_ok_def collected_input_def)
  from dco_decides [OF this] obtain r where r: "evaluate_dco (collected_input pull cmp es) = Inr r"
    and passed: "dr_passed r \<longleftrightarrow> dco_satisfied (collected_input pull cmp es)" by blast
  have "cmp_commits cmp \<noteq> []" using says assms(2) by (auto simp: pull_ok_def)
  then have "last (map ce_sha es) = ps_head_sha pull" using says shas by (simp add: last_map)
  with says shas len assms(3) have "dco_satisfied (collected_input pull cmp es) \<longleftrightarrow> ancestral pull es \<and> (\<forall>c \<in> set es. signed pull c)"
    unfolding dco_satisfied_def collected_input_def ancestral_def Let_def
    by auto
  with r passed shas len says show ?thesis by auto
qed

theorem collected_evidence_decides_witness:
  "\<exists>cmp es r. fst (get_pull_commit_evidence 2 5 Dco_Facts.sample_pull sample_net_env sample_net) = Inr (cmp, es) \<and>
     length es = 1 \<and> evaluate_dco (collected_input Dco_Facts.sample_pull cmp es) = Inr r \<and> dr_passed r"
proof -
  let ?p = "get_pull_commit_evidence 2 5 Dco_Facts.sample_pull sample_net_env sample_net"
  have ok: "pull_ok Dco_Facts.sample_pull" "ps_state Dco_Facts.sample_pull = ''open''" by code_simp+
  have "returning (\<lambda>x w'. list_all (\<lambda>e. ce_author_signoff e \<and> ce_parents e = [] \<and>
      ce_sha e = ps_head_sha Dco_Facts.sample_pull) (snd x)) ?p" by code_simp
  then obtain x w' where "?p = (Inr x, w')" and "list_all (\<lambda>e. ce_author_signoff e \<and> ce_parents e = [] \<and>
      ce_sha e = ps_head_sha Dco_Facts.sample_pull) (snd x)" by (rule returningE)
  then obtain cmp es where r: "?p = (Inr (cmp, es), w')" and
    sig: "list_all (\<lambda>e. ce_author_signoff e \<and> ce_parents e = [] \<and> ce_sha e = ps_head_sha Dco_Facts.sample_pull) es"
    by (cases x) simp
  have "ps_commit_count Dco_Facts.sample_pull = 1" by code_simp
  with collected_evidence_decides [OF r ok] obtain d where l: "length es = 1" and
    d: "evaluate_dco (collected_input Dco_Facts.sample_pull cmp es) = Inr d"
      "dr_passed d \<longleftrightarrow> ancestral Dco_Facts.sample_pull es \<and> (\<forall>c \<in> set es. signed Dco_Facts.sample_pull c)" by auto
  from l obtain e where es: "es = [e]" by (auto simp: length_Suc_conv)
  with sig have "ce_author_signoff e" "ce_parents e = []" "ce_sha e = ps_head_sha Dco_Facts.sample_pull" by simp_all
  then have "dr_passed d" unfolding d(2) es by (simp add: ancestral_def signed_def)
  with r l d(1) show ?thesis by auto
qed

text \<open>C37. The collection of the evidence always ends: every page of the commit list has a commit more, so
  one more page than the snapshot counts commits is never asked for, and the bound of the model
  changes nothing from there on; the details are as many requests as there are commits.\<close>

theorem evidence_collection_ends:
  "get_pull_commit_evidence (Suc (nat (ps_commit_count pull)) + extra) i pull en w =
     get_pull_commit_evidence (Suc (nat (ps_commit_count pull))) i pull en w"
proof -
  have "commits_from (Suc (nat (ps_commit_count pull)) + extra) i pull None [] [] =
      commits_from (Suc (nat (ps_commit_count pull))) i pull None [] []"
    by (intro ext commits_enough) simp_all
  then show ?thesis by (simp only: get_pull_commit_evidence_def compare_pull_commits_def)
qed

end
