(* ===== verification/Client_Json_Facts.thy ===== *)
theory Client_Json_Facts
  imports Client_Reads
begin

text \<open>
  The nesting scan of \<open>_validate_json_nesting\<close> against a grammar: \<open>nested_text s d\<close> says that the
  text \<open>s\<close> is balanced and that its brackets nest to the depth \<open>d\<close>, strings apart. Every JSON text
  is such a text; the printer \<open>json_text\<close> gives one for each value.
\<close>

section \<open>Balanced texts and their depth\<close>

definition structural :: "char \<Rightarrow> bool" where
  "structural c \<longleftrightarrow> c \<in> {dquote, CHR ''['', CHR ''{'', CHR '']'', CHR ''}''}"

fun string_body :: "string \<Rightarrow> bool" where
  "string_body [] \<longleftrightarrow> True"
| "string_body (c # s) \<longleftrightarrow> c \<noteq> dquote \<and>
     (if c = backslash then (case s of [] \<Rightarrow> False | _ # t \<Rightarrow> string_body t) else string_body s)"

inductive nested_text :: "string \<Rightarrow> nat \<Rightarrow> bool" where
  plain: "\<not> list_ex structural s \<Longrightarrow> nested_text s 0"
| quoted: "string_body s \<Longrightarrow> nested_text (dquote # s @ [dquote]) 0"
| adjacent: "nested_text s d \<Longrightarrow> nested_text t e \<Longrightarrow> nested_text (s @ t) (max d e)"
| bracket: "nested_text s d \<Longrightarrow> b \<in> {CHR ''['', CHR ''{''} \<Longrightarrow> c \<in> {CHR '']'', CHR ''}''} \<Longrightarrow>
     nested_text (b # s @ [c]) (Suc d)"

lemma scan_plain: "\<not> list_ex structural s \<Longrightarrow> nesting_ok k False False (s @ t) \<longleftrightarrow> nesting_ok k False False t"
  by (induction s) (auto simp: structural_def)

lemma scan_string:
  "string_body s \<Longrightarrow> nesting_ok k True False (s @ dquote # t) \<longleftrightarrow> nesting_ok k False False t"
proof (induction s rule: string_body.induct)
  case (2 c s)
  then show ?case by (cases s) (auto split: if_splits)
qed simp

lemma nested_scan:
  "nested_text s d \<Longrightarrow> k \<le> MAX_JSON_RESPONSE_DEPTH \<Longrightarrow>
     nesting_ok k False False (s @ t) \<longleftrightarrow> k + d \<le> MAX_JSON_RESPONSE_DEPTH \<and> nesting_ok k False False t"
proof (induction arbitrary: k t rule: nested_text.induct)
  case (bracket s d b c)
  have "nesting_ok (Suc k) False False (c # t) \<longleftrightarrow> nesting_ok k False False t"
    using bracket.hyps(3) by auto
  moreover have "nesting_ok k False False (b # s @ c # t) \<longleftrightarrow>
      Suc k \<le> MAX_JSON_RESPONSE_DEPTH \<and> nesting_ok (Suc k) False False (s @ c # t)"
    using bracket.hyps(2) by auto
  ultimately show ?case using bracket.IH [of "Suc k" "c # t"] by auto
qed (auto simp: scan_plain scan_string)

section \<open>A printer\<close>

definition string_char :: "char \<Rightarrow> string" where
  "string_char c = (if c = dquote \<or> c = backslash then [backslash, c] else [c])"

definition string_text :: "string \<Rightarrow> string" where
  "string_text s = dquote # concat (map string_char s) @ [dquote]"

fun json_text :: "json \<Rightarrow> string" where
  "json_text JNull = ''null''"
| "json_text (JBool b) = (if b then ''true'' else ''false'')"
| "json_text (JInt n) = show_int n"
| "json_text (JFloat m e) = show_int m @ ''e'' @ show_int e"
| "json_text (JStr s) = string_text s"
| "json_text (JList vs) = CHR ''['' # py_join '','' (map json_text vs) @ '']''"
| "json_text (JObj ob) = CHR ''{'' # py_join '','' (map (\<lambda>(k, v). string_text k @ '':'' @ json_text v) ob) @ ''}''"

fun json_depth :: "json \<Rightarrow> nat" where
  "json_depth (JList vs) = Suc (Max (set (0 # map json_depth vs)))"
| "json_depth (JObj ob) = Suc (Max (set (0 # map (\<lambda>(k, v). json_depth v) ob)))"
| "json_depth v = 0"

lemma plain_int: "\<not> list_ex structural (show_int n)"
proof -
  have "\<not> structural c" if "is_digit c" for c
    using that by (auto simp: structural_def is_digit_def)
  then show ?thesis
    by (auto simp: show_int_def list_ex_iff structural_def dest: show_nat_digits)
qed

lemma string_body_escaped: "string_body (concat (map string_char s))"
  by (induction s) (auto simp: string_char_def)

lemma nested_string: "nested_text (string_text s) 0"
  unfolding string_text_def by (rule quoted [OF string_body_escaped])

lemma nested_join:
  assumes "\<And>x. x \<in> set xs \<Longrightarrow> nested_text (f x) (g x)"
  shows "nested_text (py_join '','' (map f xs)) (Max (set (0 # map g xs)))"
  using assms
proof (induction xs rule: induct_list012)
  case 1
  show ?case using plain [of "[]"] by simp
next
  case (2 x)
  then show ?case by simp
next
  case (3 x y zs)
  have "nested_text '','' 0" by (rule plain) (simp add: structural_def)
  from adjacent [OF this "3.IH"(2)] "3.prems" have
    tail: "nested_text ('','' @ py_join '','' (map f (y # zs))) (max 0 (Max (set (0 # map g (y # zs)))))" by simp
  have "nested_text (f x) (g x)" using "3.prems" by simp
  from adjacent [OF this tail] have
    "nested_text (py_join '','' (map f (x # y # zs))) (max (g x) (max 0 (Max (set (0 # map g (y # zs))))))" by simp
  moreover have "max (g x) (max 0 (Max (set (0 # map g (y # zs))))) = Max (set (0 # map g (x # y # zs)))"
    by (simp add: max.left_commute)
  ultimately show ?case by (simp only:)
qed

lemma nested_json: "nested_text (json_text v) (json_depth v)"
proof (induction v)
  case (JList vs)
  from bracket [OF nested_join [of vs json_text json_depth, OF JList.IH], of "CHR ''[''" "CHR '']''"] show ?case by simp
next
  case (JObj ob)
  have "nested_text ((\<lambda>(k, v). string_text k @ '':'' @ json_text v) x) ((\<lambda>(k, v). json_depth v) x)" if "x \<in> set ob" for x
  proof -
    obtain k v where x: "x = (k, v)" by (cases x)
    have "nested_text '':'' 0" by (rule plain) (simp add: structural_def)
    moreover have "nested_text (json_text v) (json_depth v)" using JObj.IH [OF that, of v] x by (simp add: snds.simps)
    ultimately have "nested_text (string_text k @ '':'' @ json_text v) (max 0 (max 0 (json_depth v)))"
      by (intro adjacent nested_string)
    with x show ?thesis by simp
  qed
  from bracket [OF nested_join [of ob _ "\<lambda>(k, v). json_depth v", OF this], of "CHR ''{''" "CHR ''}''"] show ?case by simp
next
  case (JFloat m e)
  have "\<not> list_ex structural (show_int m @ ''e'' @ show_int e)" using plain_int [of m] plain_int [of e]
    by (simp add: structural_def)
  from plain [OF this] show ?case by simp
qed (auto intro: plain plain [OF plain_int] nested_string simp: structural_def)

section \<open>The limit is exact\<close>

text \<open>C38. The nesting check is exact: whatever its strings contain, a balanced text is accepted if and
  only if its brackets nest at most 64 deep. So the scan, which needs no parser and runs before
  one, agrees with the depth of the parsed value on the text of every JSON value.\<close>

theorem nesting_limit_is_exact:
  assumes "nested_text s d"
  shows "validate_json_nesting s \<longleftrightarrow> d \<le> 64"
  using nested_scan [OF assms, of 0 "[]"] by (simp add: validate_json_nesting_def MAX_JSON_RESPONSE_DEPTH_def)

text \<open>The bracket inside the string does not count.\<close>

definition tower :: "nat \<Rightarrow> json" where
  "tower n = ((\<lambda>v. JList [v]) ^^ n) (JStr (CHR ''['' # dquote # ''[''))"

theorem nesting_limit_is_exact_witness:
  "validate_json_nesting (json_text (tower 64)) \<and> \<not> validate_json_nesting (json_text (tower 65)) \<and>
     validate_json_nesting (json_text (JObj [(''a'', tower 63)]))"
proof -
  have depth: "json_depth (tower n) = n" for n by (induction n) (simp_all add: tower_def)
  show ?thesis
    using nesting_limit_is_exact [OF nested_json [of "tower 64"]] nesting_limit_is_exact [OF nested_json [of "tower 65"]]
      nesting_limit_is_exact [OF nested_json [of "JObj [(''a'', tower 63)]"]] by (simp add: depth)
qed

end
