(* ===== verification/Spec2Isabelle.thy ===== *)
theory Spec2Isabelle
  imports Evaluator_Facts Queue_Recovery Webhook_Facts Dco_Facts Api_Budget_Facts Discovery_Cache_Facts
    Service_Publication Fan_Out_Properties Reset_Facts Reconciler_Properties App_Facts
    Client_Evidence_Facts Client_Json_Facts
begin

text \<open>
  A verification development for Extra CODEOWNERS, a GitHub App that publishes a required check
  on every pull request: it passes when each changed path that CODEOWNERS assigns is approved by
  an owner, or, where the organization and the repository both delegate it, by an enrolled App.
  Paths below are relative to \<open>src/\<close>.

  \<^bold>\<open>The program and its parts.\<close> A delivery of GitHub enters through the webhook endpoint
  (\<open>extra_codeowners/app.py\<close>), is authenticated and mapped to work (\<open>webhooks.py\<close>) and stored in
  the durable queue (\<open>database.py\<close>) in one transaction that also moves the fence of the commit.
  The lanes of the worker (\<open>service.py\<close>) claim the work: the evaluation of a pull request, the
  reset of the check of a commit, the fan-out of an authority change (a policy, a team, an
  installation) to every open pull request. An evaluation reads the evidence through the GitHub
  client (\<open>github.py\<close>, with \<open>api_budget.py\<close> and \<open>discovery_cache.py\<close>), decides it with the pure
  evaluator (\<open>evaluator.py\<close>, \<open>policy.py\<close>, \<open>codeowners.py\<close>, \<open>dco.py\<close>, \<open>models.py\<close>), and writes the
  check under two guards that the triggers take as well. The reconciler (\<open>service.py\<close>) lists
  everything from time to time and queues what a lost delivery left out. Several replicas run
  the same code on one database.

  \<^bold>\<open>Theories, in the order of the code.\<close>

  \<^item> \<open>Prelude\<close>: named collections, results of functions that may raise, ordered dictionaries.
    \<open>Pystr\<close>, \<open>Regex\<close>, \<open>Json\<close>, \<open>Tables\<close>, \<open>Program\<close>: what the source uses of Python's \<open>str\<close>,
    \<open>re\<close> and \<open>dict\<close>, of SQL, and of coroutines.
  \<^item> \<open>Models\<close>, \<open>Evidence\<close> (\<open>models.py\<close>): normalisers, validated records, the text of the check.
    \<open>Model_Facts\<close>: they are idempotent, and untrusted text cannot add a line to the check.
  \<^item> \<open>Codeowners\<close> (\<open>codeowners.py\<close>): tokens, patterns, \<open>parse_codeowners\<close>, \<open>owners_for\<close>.
    \<open>Codeowners_Facts\<close>: the last match wins, parsing fails closed, and what \<open>.\<close> does not match.
  \<^item> \<open>Policy\<close> (\<open>policy.py\<close>) and \<open>Evaluator\<close> (\<open>evaluator.py\<close>): compilation, delegation, \<open>evaluate\<close>.
    \<open>Policy_Facts\<close>, \<open>Evaluator_Facts\<close>: \<open>evaluate\<close> refines the authorization of each path, a
    guarded path needs a person, every path is accounted for.
  \<^item> \<open>Dco\<close> (\<open>dco.py\<close>): the sign-off evidence and \<open>evaluate_dco\<close>. \<open>Dco_Facts\<close>: it refines the
    abstract requirement; a trailer is recognised in the message if and only if it is there.
  \<^item> \<open>Trace_Context\<close> (\<open>trace_context.py\<close>), \<open>Webhooks\<close> (\<open>webhooks.py\<close>): \<open>verify_webhook\<close> and
    \<open>evaluation_job\<close> for every event. \<open>Webhook_Facts\<close>: authenticity, typing, no missed policy push.
  \<^item> \<open>Queue_State\<close>, \<open>Queue_Enqueue\<close>, \<open>Queue_Delivery\<close>, \<open>Queue_Heads\<close>, \<open>Queue_Claim\<close>,
    \<open>Queue_Authority\<close>, \<open>Queue_Admin\<close> (\<open>database.py\<close>): a record \<open>db\<close> of tables and one function
    per method of \<open>QueueStore\<close>. \<open>Queue_Invariant\<close>, \<open>Queue_Steps\<close>, \<open>Queue_Ops\<close>, \<open>Queue_Reach\<close>:
    the invariant \<open>db_ok\<close>, its preservation by every operation, and the step relation over
    arbitrary operations at arbitrary clock readings. \<open>Queue_Facts\<close>, \<open>Queue_Fencing\<close>,
    \<open>Queue_Safety\<close>, \<open>Queue_Contracts\<close>, \<open>Queue_Recovery\<close>: reachable states, monotone generations,
    fencing of replaced claims in every later state (the locale \<open>fenced_store\<close>, interpreted on
    the three kinds of claims), leases (the locale \<open>exclusive_lease\<close>), retries that the claim of
    the service picks up, redeliveries and retention.
  \<^item> \<open>Api_Budget\<close>, \<open>Discovery_Cache\<close> (\<open>api_budget.py\<close>, \<open>discovery_cache.py\<close>) with their facts: the
    reserve of the quota is never spent by recovery; the accounting of the cache is exact, its
    bounds hold and its eviction ends.
  \<^item> \<open>Effects\<close>: the world of \<open>service.py\<close>. \<open>Github_Checks\<close>, \<open>Service_Payloads\<close>,
    \<open>Service_Evidence\<close>, \<open>Service_Reviews\<close>, \<open>Service\<close>: \<open>EvaluationService\<close> with the check-run methods
    of the client. \<open>Service_Logic\<close>, \<open>Service_Quiet\<close>, \<open>Service_Facts\<close>: triples
    on the trace of events; the publication of a result, write by write. \<open>Service_Evaluation\<close>: what
    the run had read when the publication began. \<open>Service_Publication\<close>: a published success is
    fenced, shows what the evaluator gave for the evidence read in the same run and still
    unchanged, and is confirmed or blocked again by a write, failures and cancellations
    included.
  \<^item> \<open>Worker_Calls\<close>, \<open>Worker_Attempt\<close>, \<open>Worker_Authority\<close>, \<open>Worker\<close>, \<open>Reconciler\<close> (\<open>service.py\<close>): the
    lanes, attempts, fan-outs and scans. \<open>World_Logic\<close> (the locale \<open>world_preorder\<close>),
    \<open>Worker_Facts\<close>, \<open>Reset_Facts\<close>, \<open>Fan_Out_Facts\<close>, \<open>Fan_Out_Coverage\<close>, \<open>Fan_Out_Properties\<close>,
    \<open>Reconciler_Facts\<close>, \<open>Reconciler_Properties\<close>: what the completion of each kind of work
    guarantees; \<open>Service_Sample\<close> is a concrete world for the witnesses.
  \<^item> \<open>App\<close> (\<open>app.py\<close>): the endpoint from the bytes of a request to the answer, the identity proof,
    the health endpoints. \<open>App_Facts\<close>: only authentic requests change anything, and an
    acknowledged delivery is durable.
  \<^item> \<open>Client\<close>, \<open>Client_Links\<close>, \<open>Client_Pages\<close>, \<open>Client_Reads\<close>, \<open>Client_Commits\<close> (\<open>github.py\<close>): the
    transport, pagination, listings, strict and streamed reads, and the GraphQL evidence.
    \<open>Client_Facts\<close>: bounds on the requests of an operation. \<open>Client_Listing_Facts\<close>: a saved page
    is used only when GitHub confirms it, listings are complete and end. \<open>Client_Evidence_Facts\<close>:
    the collected evidence is complete for \<open>evaluate_dco\<close>. \<open>Client_Json_Facts\<close>: the nesting scan
    agrees with the depth of the text. \<open>Client_Sample\<close> is a concrete GitHub.

  \<^bold>\<open>State and effects.\<close> A coroutine is a function of an environment and a world (\<open>Program\<close>). The
  service runs in \<open>world\<close>: the database, the budgets, two shared variables and the trace of events.
  The client runs in \<open>net\<close>: its own tables, the budget rows and the log of requests. The two
  are layered like the code: the service sees a call of the client as one event that the
  environment answers or fails, and the client theories say what such a call does. The
  environment is arbitrary in every property: it answers from the trace or log, fails or
  cancels any call, and between any two calls it replaces the database, or the tables of the
  client, as other replicas and coroutines do. A transaction of the queue is one atomic step,
  since it holds the row or advisory locks it needs; tasks that the code gathers run one after
  the other, in any world that the environment produces in between.

  \<^bold>\<open>Bounds.\<close> A loop of the code that only ends with the process is bounded in the model and its
  properties hold for every bound: the turns of a lane (\<open>slot_loop\<close>), the renewals of a lease
  during an attempt. A loop over the pages of a listing takes the number of pages, and an attempt that
  is still listing then is cancelled, as at a shutdown; a property of a completed listing is
  about the runs that return. That enough pages exist is proved where the code bounds its own
  loop: for the repositories of an installation (\<open>Client_Listing_Facts\<close>) and the commits of a
  pull request (\<open>Client_Evidence_Facts\<close>). The listings that follow
  \<open>Link\<close> headers alone (stable pull requests, installations) go on as long as GitHub announces
  pages, and have no such bound in the code either. The loop of the attempts of one request is
  bounded by \<open>attempts_of\<close>, and \<open>Client_Facts\<close> shows that it never falls off its end.

  \<^bold>\<open>Parameters.\<close> Libraries are arguments: HMAC and JSON decoding of the receiver, the HTTP
  exchange, UTF-8, JSON, \<open>zlib\<close>, the JWT signature, dates and floats in \<open>net_env\<close>, IP literals and
  percent-decoding in \<open>url_library\<close>. Each witness instantiates them. Text is Latin-1 (\<open>Pystr\<close>),
  times are integers in microseconds, a JSON float is a decimal.

  \<^bold>\<open>Not modelled.\<close> \<open>settings.py\<close> (environment variables read by pydantic; the values are the record
  \<open>settings\<close>), \<open>migrations.py\<close> and the engine and advisory locks of \<open>database.py\<close> (schema and
  driver calls), \<open>cli.py\<close>, \<open>manifest.py\<close>, \<open>build_identity.py\<close> (input and output around the
  service), \<open>metrics.py\<close>, \<open>tracing.py\<close>, \<open>reconciliation_tracing.py\<close>, \<open>logging.py\<close>,
  \<open>request_timing.py\<close> (no decision reads them), the life-cycle and set-up page of \<open>app.py\<close>, the
  connection pool and the query documents of \<open>github.py\<close>, \<open>from_toml\<close> of \<open>models.py\<close> (a TOML
  library), and the maintainers' scripts under \<open>tools/\<close>.
\<close>

end
